(* ===== verification/QROS_Prelude.thy ===== *)
theory QROS_Prelude
  imports Main "HOL-Library.AList" "HOL-Library.Char_ord" "HOL-Library.List_Lexorder"
begin

text \<open>
  Shared vocabulary of the development: Python exceptions as values, results and state-passing
  outcomes, Python dictionaries as insertion-ordered association lists, the string operations the
  sources use (\<open>str.strip\<close>, \<open>str.lower\<close>, \<open>int(str)\<close>, \<open>str(int)\<close>), and the generic lemmas and
  lemma collections the components rest on.

  Strings are lists of code points below 256 (Isabelle's \<^typ>\<open>char\<close>), identifiers of type
  \<open>uuid.UUID\<close> are natural numbers (the sources compare them and, through \<open>.hex\<close>, order them),
  a \<open>datetime\<close> is the number of microseconds since the epoch and a \<open>timedelta\<close> a number of
  microseconds.
\<close>

section \<open>Exceptions and results\<close>

datatype exn =
    ValueError string
  | KeyError string
  | RuntimeError string
  | TypeError string
  | AttributeError string
  | PermissionError string
  | FileNotFoundError string
  | HTTPException nat string
  | Conflict string
  | ExecutorError string
  | IndexError string
  | IntegrityError string
  | DatabaseError string
  | OverflowError string
  | ValidationError string
  | OrchestrationError string
  | ZeroDivisionError string

type_synonym 'a result = "exn + 'a"
type_synonym ('a, 's) outcome = "'a result \<times> 's"
type_synonym uuid = nat
type_synonym timestamp = int

definition seconds :: "int \<Rightarrow> int" where
  "seconds n = n * 1000000"

named_theorems store_defs \<open>definitions of the store operations\<close>
named_theorems dict_simps \<open>how dictionary updates act on lookups and key lists\<close>

fun is_ok :: "'a result \<Rightarrow> bool" where
  "is_ok (Inl _) = False"
| "is_ok (Inr _) = True"

lemma is_ok_iff: "is_ok r \<longleftrightarrow> (\<exists>v. r = Inr v)"
  by (cases r) auto

text \<open>Sequencing of computations that may raise, one result after another or over a list.\<close>

definition rbind :: "'a result \<Rightarrow> ('a \<Rightarrow> 'b result) \<Rightarrow> 'b result" where
  "rbind r f = (case r of Inl e \<Rightarrow> Inl e | Inr v \<Rightarrow> f v)"

lemma rbind_simps [simp]: "rbind (Inl e) f = Inl e" "rbind (Inr v) f = f v"
  by (simp_all add: rbind_def)

lemma rbind_Inr: "rbind r f = Inr v \<longleftrightarrow> (\<exists>x. r = Inr x \<and> f x = Inr v)"
  by (cases r) auto

lemma rbindE: "rbind r f = Inr v \<Longrightarrow> (\<And>x. r = Inr x \<Longrightarrow> f x = Inr v \<Longrightarrow> P) \<Longrightarrow> P"
  by (auto simp: rbind_Inr)

lemma guardE: "(if b then Inl e else r) = Inr v \<Longrightarrow> (\<not> b \<Longrightarrow> r = Inr v \<Longrightarrow> P) \<Longrightarrow> P"
  by (cases b) auto

fun sequence_results :: "'a result list \<Rightarrow> 'a list result" where
  "sequence_results [] = Inr []"
| "sequence_results (r # rs) =
     (case r of Inl e \<Rightarrow> Inl e | Inr x \<Rightarrow> map_sum id (\<lambda>xs. x # xs) (sequence_results rs))"

lemma sequence_results_ok:
  "(\<And>r. r \<in> set rs \<Longrightarrow> \<exists>e. r = Inr e \<and> P e) \<Longrightarrow>
    \<exists>es. sequence_results rs = Inr es \<and> length es = length rs \<and> (\<forall>e \<in> set es. P e)"
proof (induction rs)
  case (Cons r rs)
  then obtain es where "sequence_results rs = Inr es" "length es = length rs" "\<forall>e \<in> set es. P e"
    by (metis list.set_intros(2))
  with Cons.prems show ?case by fastforce
qed simp

section \<open>Python dictionaries\<close>

text \<open>
  A \<open>dict\<close> keeps insertion order: assigning to a present key keeps its position, assigning to a
  new key appends, and \<open>pop\<close> removes the entry.  This is what \<^const>\<open>AList.update\<close> and
  \<^const>\<open>AList.delete\<close> do.
\<close>

type_synonym ('k, 'v) dict = "('k \<times> 'v) list"

abbreviation dget :: "('k, 'v) dict \<Rightarrow> 'k \<Rightarrow> 'v option" where
  "dget d k \<equiv> map_of d k"

abbreviation dset :: "'k \<Rightarrow> 'v \<Rightarrow> ('k, 'v) dict \<Rightarrow> ('k, 'v) dict" where
  "dset \<equiv> AList.update"

abbreviation dpop :: "'k \<Rightarrow> ('k, 'v) dict \<Rightarrow> ('k, 'v) dict" where
  "dpop \<equiv> AList.delete"

definition dvalues :: "('k, 'v) dict \<Rightarrow> 'v list" where
  "dvalues d = map snd d"

definition dkeys :: "('k, 'v) dict \<Rightarrow> 'k list" where
  "dkeys d = map fst d"

definition wf_dict :: "('k, 'v) dict \<Rightarrow> bool" where
  "wf_dict d \<longleftrightarrow> distinct (map fst d)"

lemma dset_get [simp, dict_simps]: "dget (dset k v d) k' = (if k' = k then Some v else dget d k')"
  by (simp add: update_conv)

lemma dpop_get [simp, dict_simps]: "dget (dpop k d) k' = (if k' = k then None else dget d k')"
  by (simp add: delete_conv)

lemma wf_dict_Nil [simp, dict_simps]: "wf_dict []"
  by (simp add: wf_dict_def)

lemma wf_dict_dset [simp, dict_simps]: "wf_dict d \<Longrightarrow> wf_dict (dset k v d)"
  by (simp add: wf_dict_def distinct_update)

lemma wf_dict_dpop [simp, dict_simps]: "wf_dict d \<Longrightarrow> wf_dict (dpop k d)"
  by (simp add: wf_dict_def distinct_delete)

lemma wf_dict_entry: "wf_dict d \<Longrightarrow> (k, v) \<in> set d \<longleftrightarrow> dget d k = Some v"
  by (simp add: wf_dict_def)

lemma dvalues_iff: "wf_dict d \<Longrightarrow> v \<in> set (dvalues d) \<longleftrightarrow> (\<exists>k. dget d k = Some v)"
  by (force simp: dvalues_def wf_dict_def)

lemma dkeys_iff: "k \<in> set (dkeys d) \<longleftrightarrow> dget d k \<noteq> None"
  by (simp add: dkeys_def map_of_eq_None_iff)

lemma dset_fresh: "dget d k = None \<Longrightarrow> dset k v d = d @ [(k, v)]"
  by (induction d) (auto split: if_splits)

lemma dset_present_filter:
  assumes "wf_dict d" "dget d k = Some v0" "P v0 = P v"
  shows "length (filter P (dvalues (dset k v d))) = length (filter P (dvalues d))"
  using assms by (induction d) (auto simp: wf_dict_def dvalues_def split: if_splits)

lemma dkeys_dset_present: "dget d k \<noteq> None \<Longrightarrow> dkeys (dset k v d) = dkeys d"
  by (induction d) (auto simp: dkeys_def)

text \<open>
  The interface of a keyed store: what a lookup returns after a write or a removal.  The lemmas
  that say a sequence of writes is the last write per key are proved once against it.
\<close>

locale keyed_store =
  fixes lookup :: "'d \<Rightarrow> 'k \<Rightarrow> 'v option"
    and put :: "'k \<Rightarrow> 'v \<Rightarrow> 'd \<Rightarrow> 'd"
    and remove :: "'k \<Rightarrow> 'd \<Rightarrow> 'd"
  assumes lookup_put: "lookup (put k v d) k' = (if k' = k then Some v else lookup d k')"
    and lookup_remove: "lookup (remove k d) k' = (if k' = k then None else lookup d k')"
begin

lemma read_own_write: "lookup (put k v d) k = Some v"
  by (simp add: lookup_put)

lemma write_frame: "k' \<noteq> k \<Longrightarrow> lookup (put k v d) k' = lookup d k'"
  by (simp add: lookup_put)

lemma write_batch:
  "lookup (fold (\<lambda>(k, v). put k v) kvs d) k'
    = (case map_of (rev kvs) k' of None \<Rightarrow> lookup d k' | Some v \<Rightarrow> Some v)"
  by (induction kvs arbitrary: d) (auto simp: lookup_put map_add_def split: option.splits)

end

interpretation py_dict: keyed_store "map_of :: ('k, 'v) dict \<Rightarrow> 'k \<Rightarrow> 'v option" dset dpop
  by unfold_locales simp_all

section \<open>Python strings\<close>

text \<open>The code points below 256 for which \<open>str.isspace\<close> holds.\<close>

definition py_isspace :: "char \<Rightarrow> bool" where
  "py_isspace c \<longleftrightarrow> c \<in> set [CHR 0x09, CHR 0x0A, CHR 0x0B, CHR 0x0C, CHR 0x0D,
     CHR 0x1C, CHR 0x1D, CHR 0x1E, CHR 0x1F, CHR 0x20, CHR 0x85, CHR 0xA0]"

definition py_strip :: "string \<Rightarrow> string" where
  "py_strip s = rev (dropWhile py_isspace (rev (dropWhile py_isspace s)))"

definition py_lower_char :: "char \<Rightarrow> char" where
  "py_lower_char c =
     (let n = of_char c :: nat in
      if (65 \<le> n \<and> n \<le> 90) \<or> (192 \<le> n \<and> n \<le> 222 \<and> n \<noteq> 215) then char_of (n + 32) else c)"

definition py_lower :: "string \<Rightarrow> string" where
  "py_lower s = map py_lower_char s"

text \<open>\<open>str.upper\<close>, as far as comparing with an ASCII word needs it.\<close>

definition py_upper_char :: "char \<Rightarrow> char" where
  "py_upper_char c = (let n = of_char c :: nat in if 97 \<le> n \<and> n \<le> 122 then char_of (n - 32) else c)"

text \<open>\<open>not s.strip()\<close>, the emptiness test of nearly every constructor.\<close>

definition blank :: "string \<Rightarrow> bool" where
  "blank s \<longleftrightarrow> py_strip s = []"

lemma blank_iff: "blank s \<longleftrightarrow> (\<forall>c \<in> set s. py_isspace c)"
proof -
  have "dropWhile py_isspace (rev (dropWhile py_isspace s)) = []
      \<longleftrightarrow> (\<forall>c \<in> set (dropWhile py_isspace s). py_isspace c)"
    by (simp add: dropWhile_eq_Nil_conv)
  also have "\<dots> \<longleftrightarrow> (\<forall>c \<in> set s. py_isspace c)"
    by (induction s) auto
  finally show ?thesis by (simp add: blank_def py_strip_def)
qed

lemma dropWhile_not_hd: "dropWhile P xs = x # ys \<Longrightarrow> \<not> P x"
  by (induction xs) (auto split: if_splits)

lemma strip_left_id: "s = [] \<or> \<not> P (hd s) \<Longrightarrow> dropWhile P s = s"
  by (cases s) auto

lemma py_strip_ends:
  assumes "py_strip s \<noteq> []"
  shows "\<not> py_isspace (hd (py_strip s))" and "\<not> py_isspace (last (py_strip s))"
proof -
  define u where "u = dropWhile py_isspace s"
  define w where "w = dropWhile py_isspace (rev u)"
  have strip: "py_strip s = rev w" by (simp add: py_strip_def u_def w_def)
  with assms obtain x ys where w: "w = x # ys" by (cases w) auto
  then have "\<not> py_isspace x" unfolding w_def by (rule dropWhile_not_hd)
  with strip w show "\<not> py_isspace (last (py_strip s))" by simp
  obtain pre where pre: "rev u = pre @ w"
    unfolding w_def by (metis takeWhile_dropWhile_id)
  then have u: "u = rev w @ rev pre" by (metis rev_append rev_rev_ident)
  with w obtain y zs where y: "rev w = y # zs" by (cases "rev w") auto
  then have "u = y # (zs @ rev pre)" using u by simp
  then have "\<not> py_isspace y" unfolding u_def by (rule dropWhile_not_hd)
  with strip y show "\<not> py_isspace (hd (py_strip s))" by simp
qed

lemma py_strip_idem [simp]: "py_strip (py_strip s) = py_strip s"
proof (cases "py_strip s = []")
  case True
  have "py_strip [] = []" by (simp add: py_strip_def)
  then show ?thesis by (simp only: True)
next
  case False
  define t where "t = py_strip s"
  have hd: "\<not> py_isspace (hd t)" and la: "\<not> py_isspace (last t)" and ne: "t \<noteq> []"
    using py_strip_ends [OF False] False by (simp_all add: t_def)
  have "dropWhile py_isspace t = t" using hd by (simp add: strip_left_id)
  moreover have "dropWhile py_isspace (rev t) = rev t"
    using la ne by (intro strip_left_id) (simp add: hd_rev)
  ultimately have "py_strip t = t" by (simp add: py_strip_def)
  then show ?thesis by (simp add: t_def)
qed

subsection \<open>Decimal numerals\<close>

fun digit_char :: "nat \<Rightarrow> char" where
  "digit_char n = char_of (48 + n)"

fun nat_digits :: "nat \<Rightarrow> string" where
  "nat_digits n = (if n < 10 then [digit_char n] else nat_digits (n div 10) @ [digit_char (n mod 10)])"

declare nat_digits.simps [simp del]

text \<open>\<open>str(n)\<close> of a Python integer.\<close>

definition py_str_int :: "int \<Rightarrow> string" where
  "py_str_int i = (if i < 0 then ''-'' @ nat_digits (nat (- i)) else nat_digits (nat i))"

definition digit_value :: "char \<Rightarrow> nat option" where
  "digit_value c = (let n = of_char c :: nat in if 48 \<le> n \<and> n \<le> 57 then Some (n - 48) else None)"

text \<open>
  The digits of \<open>int(s)\<close>: at least one digit, single underscores allowed between digits.  The flag
  says whether the previous character was a digit.
\<close>

fun parse_digits :: "bool \<Rightarrow> nat \<Rightarrow> string \<Rightarrow> nat option" where
  "parse_digits prev acc [] = (if prev then Some acc else None)"
| "parse_digits prev acc (c # cs) =
     (if c = CHR ''_'' then (if prev then parse_digits False acc cs else None)
      else case digit_value c of
             None \<Rightarrow> None
           | Some d \<Rightarrow> parse_digits True (10 * acc + d) cs)"

text \<open>\<open>int(s)\<close> of a string: \<open>None\<close> is the \<open>ValueError\<close>.\<close>

definition py_int :: "string \<Rightarrow> int option" where
  "py_int s =
     (case py_strip s of
        [] \<Rightarrow> None
      | c # cs \<Rightarrow>
          if c = CHR ''-'' then map_option (\<lambda>n. - int n) (parse_digits False 0 cs)
          else if c = CHR ''+'' then map_option int (parse_digits False 0 cs)
          else map_option int (parse_digits False 0 (c # cs)))"

lemma of_char_digit: "n < 10 \<Longrightarrow> of_char (digit_char n) = 48 + n"
  by simp

lemma digit_value_digit: "n < 10 \<Longrightarrow> digit_value (digit_char n) = Some n"
  by (simp add: digit_value_def)

lemma digit_char_neq:
  assumes "n < 10"
  shows "digit_char n \<noteq> CHR ''_''" and "digit_char n \<noteq> CHR ''-''" and "digit_char n \<noteq> CHR ''+''"
    and "digit_char n \<noteq> CHR ''.''" and "\<not> py_isspace (digit_char n)"
proof -
  have code: "of_char (digit_char n) = 48 + n" using assms by (rule of_char_digit)
  have neq: "digit_char n \<noteq> c" if "of_char c < (48::nat) \<or> 57 < (of_char c :: nat)" for c
  proof
    assume "digit_char n = c"
    then have "of_char c = 48 + n" using code by (simp del: digit_char.simps)
    with that assms show False by linarith
  qed
  show "digit_char n \<noteq> CHR ''_''" "digit_char n \<noteq> CHR ''-''" "digit_char n \<noteq> CHR ''+''"
    "digit_char n \<noteq> CHR ''.''"
    by (rule neq, simp)+
  show "\<not> py_isspace (digit_char n)"
    using neq by (auto simp: py_isspace_def simp del: digit_char.simps)
qed

declare digit_char.simps [simp del]

lemma parse_digits_nat:
  "parse_digits prev acc (nat_digits n @ cs)
    = parse_digits True (acc * 10 ^ length (nat_digits n) + n) cs"
proof (induction n arbitrary: prev acc cs rule: nat_digits.induct)
  case (1 n)
  show ?case
  proof (cases "n < 10")
    case True
    then show ?thesis
      by (simp add: nat_digits.simps [of n] digit_char_neq digit_value_digit mult.commute)
  next
    case False
    then have "parse_digits prev acc (nat_digits n @ cs)
        = parse_digits True (acc * 10 ^ length (nat_digits (n div 10)) + n div 10)
            (digit_char (n mod 10) # cs)"
      by (simp add: nat_digits.simps [of n] "1.IH")
    also have "\<dots> = parse_digits True
        (10 * (acc * 10 ^ length (nat_digits (n div 10)) + n div 10) + n mod 10) cs"
      by (simp add: digit_char_neq digit_value_digit)
    also have "10 * (acc * 10 ^ length (nat_digits (n div 10)) + n div 10) + n mod 10
        = acc * 10 ^ length (nat_digits n) + n"
      using False by (simp add: nat_digits.simps [of n] algebra_simps)
    finally show ?thesis .
  qed
qed

lemma nat_digits_nonempty [simp]: "nat_digits n \<noteq> []"
  by (subst nat_digits.simps) simp

lemma nat_digits_chars: "c \<in> set (nat_digits n) \<Longrightarrow> \<exists>d<10. c = digit_char d"
proof (induction n rule: nat_digits.induct)
  case (1 n)
  then show ?case
    by (cases "n < 10") (auto simp: nat_digits.simps [of n] intro: exI [of _ "n mod 10"])
qed

lemma nat_digits_no_space: "c \<in> set (nat_digits n) \<Longrightarrow> \<not> py_isspace c"
  using nat_digits_chars digit_char_neq(5) by blast

lemma py_strip_no_space: "(\<And>c. c \<in> set s \<Longrightarrow> \<not> py_isspace c) \<Longrightarrow> py_strip s = s"
  unfolding py_strip_def
  by (metis dropWhile_eq_self_iff hd_in_set rev_rev_ident set_rev)

text \<open>\<open>int(str(i)) == i\<close>.\<close>

lemma py_int_py_str_int [simp]: "py_int (py_str_int i) = Some i"
proof (cases "i < 0")
  case True
  have "py_strip (CHR ''-'' # nat_digits (nat (- i))) = CHR ''-'' # nat_digits (nat (- i))"
    by (rule py_strip_no_space) (auto simp: nat_digits_no_space py_isspace_def [of "CHR ''-''"])
  then show ?thesis
    using True parse_digits_nat [of False 0 "nat (- i)" "[]"] by (simp add: py_int_def py_str_int_def)
next
  case False
  define n where "n = nat i"
  obtain c cs where ds: "nat_digits n = c # cs" by (cases "nat_digits n") auto
  then obtain d where "d < 10" "c = digit_char d"
    using nat_digits_chars [of c n] by auto
  then have "c \<noteq> CHR ''-''" "c \<noteq> CHR ''+''" by (simp_all add: digit_char_neq)
  moreover have "py_strip (nat_digits n) = nat_digits n"
    by (rule py_strip_no_space) (rule nat_digits_no_space)
  moreover have "parse_digits False 0 (nat_digits n) = Some n"
    using parse_digits_nat [of False 0 n "[]"] by simp
  ultimately have "py_int (nat_digits n) = Some (int n)" by (simp add: py_int_def ds)
  with False show ?thesis by (simp add: py_str_int_def n_def)
qed

end
