(* ===== verification/Python_Stdlib.thy ===== *)
theory Python_Stdlib
  imports QROS_Prelude "HOL-Library.Word" "HOL-Library.Multiset"
begin

unbundle bit_operations_syntax

text \<open>
  What the sources use of Python's standard library for content addressing: \<open>str.encode("utf-8")\<close>,
  \<open>hashlib.sha256(...).hexdigest()\<close> (FIPS 180-4 on 32-bit words), \<open>json.dumps\<close> with sorted keys,
  and \<open>uuid.UUID(str)\<close>.  Everything is executable.  The facts used by the components are that a
  digest is always 64 lower-case hexadecimal characters and that the canonical encoding of an
  object does not depend on the order in which its keys were inserted.
\<close>

section \<open>UTF-8\<close>

definition utf8_char :: "char \<Rightarrow> char list" where
  "utf8_char c =
     (let n = of_char c :: nat in
      if n < 128 then [c] else [char_of (192 + n div 64), char_of (128 + n mod 64)])"

definition utf8_encode :: "string \<Rightarrow> char list" where
  "utf8_encode s = concat (map utf8_char s)"

section \<open>SHA-256\<close>

type_synonym w32 = "32 word"
type_synonym sha_state = "w32 \<times> w32 \<times> w32 \<times> w32 \<times> w32 \<times> w32 \<times> w32 \<times> w32"

definition sha_K :: "w32 list" where
  "sha_K = [
     1116352408, 1899447441, 3049323471, 3921009573, 961987163, 1508970993,
     2453635748, 2870763221, 3624381080, 310598401, 607225278, 1426881987,
     1925078388, 2162078206, 2614888103, 3248222580, 3835390401, 4022224774,
     264347078, 604807628, 770255983, 1249150122, 1555081692, 1996064986,
     2554220882, 2821834349, 2952996808, 3210313671, 3336571891, 3584528711,
     113926993, 338241895, 666307205, 773529912, 1294757372, 1396182291,
     1695183700, 1986661051, 2177026350, 2456956037, 2730485921, 2820302411,
     3259730800, 3345764771, 3516065817, 3600352804, 4094571909, 275423344,
     430227734, 506948616, 659060556, 883997877, 958139571, 1322822218,
     1537002063, 1747873779, 1955562222, 2024104815, 2227730452, 2361852424,
     2428436474, 2756734187, 3204031479, 3329325298]"

definition sha_init :: sha_state where
  "sha_init = (
     1779033703, 3144134277, 1013904242, 2773480762, 1359893119, 2600822924,
     528734635, 1541459225)"

definition sha_rotr :: "nat \<Rightarrow> w32 \<Rightarrow> w32" where
  "sha_rotr n x = drop_bit n x OR push_bit (32 - n) x"

definition sha_ssig0 :: "w32 \<Rightarrow> w32" where
  "sha_ssig0 x = sha_rotr 7 x XOR sha_rotr 18 x XOR drop_bit 3 x"

definition sha_ssig1 :: "w32 \<Rightarrow> w32" where
  "sha_ssig1 x = sha_rotr 17 x XOR sha_rotr 19 x XOR drop_bit 10 x"

definition sha_bsig0 :: "w32 \<Rightarrow> w32" where
  "sha_bsig0 x = sha_rotr 2 x XOR sha_rotr 13 x XOR sha_rotr 22 x"

definition sha_bsig1 :: "w32 \<Rightarrow> w32" where
  "sha_bsig1 x = sha_rotr 6 x XOR sha_rotr 11 x XOR sha_rotr 25 x"

definition sha_be_bytes :: "nat \<Rightarrow> int \<Rightarrow> char list" where
  "sha_be_bytes k n = map (\<lambda>i. char_of (n div 256 ^ i mod 256)) (rev [0..<k])"

definition sha_pad :: "char list \<Rightarrow> char list" where
  "sha_pad m =
     (let l = length m; z = (119 - l mod 64) mod 64
      in m @ [CHR 0x80] @ replicate z (CHR 0x00) @ sha_be_bytes 8 (8 * int l))"

fun sha_word :: "char list \<Rightarrow> w32" where
  "sha_word cs = word_of_int (foldl (\<lambda>a c. 256 * a + of_char c) 0 cs)"

function sha_chunks :: "nat \<Rightarrow> 'a list \<Rightarrow> 'a list list" where
  "sha_chunks k xs = (if xs = [] \<or> k = 0 then [] else take k xs # sha_chunks k (drop k xs))"
  by pat_completeness auto
termination
  by (relation "measure (length \<circ> snd)") auto

declare sha_chunks.simps [simp del]

fun sha_extend :: "nat \<Rightarrow> w32 list \<Rightarrow> w32 list" where
  "sha_extend 0 ws = ws"
| "sha_extend (Suc n) ws =
     (let t = length ws
      in sha_extend n (ws @ [sha_ssig1 (ws ! (t - 2)) + ws ! (t - 7)
                              + sha_ssig0 (ws ! (t - 15)) + ws ! (t - 16)]))"

fun sha_round :: "sha_state \<Rightarrow> w32 \<times> w32 \<Rightarrow> sha_state" where
  "sha_round (a, b, c, d, e, f, g, h) (k, w) =
     (let t1 = h + sha_bsig1 e + ((e AND f) XOR (NOT e AND g)) + k + w;
          t2 = sha_bsig0 a + ((a AND b) XOR (a AND c) XOR (b AND c))
      in (t1 + t2, a, b, c, d + t1, e, f, g))"

fun sha_add :: "sha_state \<Rightarrow> sha_state \<Rightarrow> sha_state" where
  "sha_add (a, b, c, d, e, f, g, h) (a', b', c', d', e', f', g', h') =
     (a + a', b + b', c + c', d + d', e + e', f + f', g + g', h + h')"

definition sha_block :: "sha_state \<Rightarrow> char list \<Rightarrow> sha_state" where
  "sha_block st blk =
     (let ws = sha_extend 48 (map sha_word (sha_chunks 4 blk))
      in sha_add st (foldl sha_round st (zip sha_K ws)))"

definition hex_digits :: string where
  "hex_digits = ''0123456789abcdef''"

definition hex_char :: "int \<Rightarrow> char" where
  "hex_char n = hex_digits ! nat n"

definition sha_hex_word :: "w32 \<Rightarrow> string" where
  "sha_hex_word w = map (\<lambda>i. hex_char (uint w div 16 ^ i mod 16)) (rev [0..<8])"

fun sha_hex :: "sha_state \<Rightarrow> string" where
  "sha_hex (a, b, c, d, e, f, g, h) = concat (map sha_hex_word [a, b, c, d, e, f, g, h])"

text \<open>\<open>hashlib.sha256(m).hexdigest()\<close>.\<close>

definition sha256_hex :: "char list \<Rightarrow> string" where
  "sha256_hex m = sha_hex (foldl sha_block sha_init (sha_chunks 64 (sha_pad m)))"

lemma hex_char_digit: "0 \<le> n \<Longrightarrow> n < 16 \<Longrightarrow> hex_char n \<in> set hex_digits"
  unfolding hex_char_def by (rule nth_mem) (simp add: hex_digits_def)

lemma sha_hex_word_shape: "length (sha_hex_word w) = 8 \<and> set (sha_hex_word w) \<subseteq> set hex_digits"
  by (auto simp: sha_hex_word_def intro!: hex_char_digit)

lemma sha_hex_shape: "length (sha_hex st) = 64 \<and> set (sha_hex st) \<subseteq> set hex_digits"
  using sha_hex_word_shape by (cases st rule: sha_hex.cases) (simp add: subset_iff)

lemma sha256_hex_shape: "length (sha256_hex m) = 64" "set (sha256_hex m) \<subseteq> set hex_digits"
  using sha_hex_shape by (simp_all add: sha256_hex_def)

lemma sha256_hex_nonempty [simp]: "sha256_hex m \<noteq> []"
  using sha256_hex_shape(1) [of m] by auto

section \<open>JSON\<close>

text \<open>
  JSON values without floats.  A Python \<open>dict\<close> is an association list with distinct string keys in
  insertion order.
\<close>

datatype json =
    JNull
  | JBool bool
  | JInt int
  | JStr string
  | JList "json list"
  | JObj "(string \<times> json) list"

definition hex4 :: "int \<Rightarrow> string" where
  "hex4 n = map (\<lambda>i. hex_char (n div 16 ^ i mod 16)) (rev [0..<4])"

definition json_escape_char :: "bool \<Rightarrow> char \<Rightarrow> string" where
  "json_escape_char ensure_ascii c =
     (let n = of_char c :: int in
      if c = CHR 0x22 then [CHR 0x5C, CHR 0x22]
      else if c = CHR 0x5C then [CHR 0x5C, CHR 0x5C]
      else if n = 10 then CHR 0x5C # ''n''
      else if n = 13 then CHR 0x5C # ''r''
      else if n = 9 then CHR 0x5C # ''t''
      else if n = 12 then CHR 0x5C # ''f''
      else if n = 8 then CHR 0x5C # ''b''
      else if n < 32 \<or> (ensure_ascii \<and> 126 < n) then CHR 0x5C # CHR ''u'' # hex4 n
      else [c])"

definition json_string :: "bool \<Rightarrow> string \<Rightarrow> string" where
  "json_string ensure_ascii s = [CHR 0x22] @ concat (map (json_escape_char ensure_ascii) s) @ [CHR 0x22]"

fun join_with :: "string \<Rightarrow> string list \<Rightarrow> string" where
  "join_with sep [] = []"
| "join_with sep [x] = x"
| "join_with sep (x # y # ys) = x @ sep @ join_with sep (y # ys)"

record json_format =
  item_sep :: string
  key_sep :: string
  ensure_ascii :: bool

text \<open>\<open>json.dumps(v, sort_keys=True, ...)\<close>: the entries of every object are written in key order.\<close>

fun json_dumps :: "json_format \<Rightarrow> json \<Rightarrow> string" where
  "json_dumps f JNull = ''null''"
| "json_dumps f (JBool b) = (if b then ''true'' else ''false'')"
| "json_dumps f (JInt i) = py_str_int i"
| "json_dumps f (JStr s) = json_string (ensure_ascii f) s"
| "json_dumps f (JList xs) = ''['' @ join_with (item_sep f) (map (json_dumps f) xs) @ '']''"
| "json_dumps f (JObj kvs) =
     ''{'' @ join_with (item_sep f)
       (map (\<lambda>(k, t). json_string (ensure_ascii f) k @ key_sep f @ t)
         (sort_key fst (map (\<lambda>(k, v). (k, json_dumps f v)) kvs))) @ ''}''"

text \<open>\<open>json.dumps(v, sort_keys=True, ensure_ascii=False)\<close>, with the default separators.\<close>

definition fmt_default :: json_format where
  "fmt_default = \<lparr>item_sep = '', '', key_sep = '': '', ensure_ascii = False\<rparr>"

text \<open>\<open>json.dumps(v, sort_keys=True, separators=(",", ":"), ensure_ascii=False)\<close>.\<close>

definition fmt_compact :: json_format where
  "fmt_compact = \<lparr>item_sep = '','', key_sep = '':'', ensure_ascii = False\<rparr>"

text \<open>\<open>json.dumps(v, sort_keys=True, separators=(",", ":"))\<close>: non-ASCII characters escaped.\<close>

definition fmt_ascii :: json_format where
  "fmt_ascii = \<lparr>item_sep = '','', key_sep = '':'', ensure_ascii = True\<rparr>"

definition json_sha256 :: "json_format \<Rightarrow> json \<Rightarrow> string" where
  "json_sha256 f v = sha256_hex (utf8_encode (json_dumps f v))"

lemma sort_key_fst_unique:
  fixes xs ys :: "('k::linorder \<times> 'v) list"
  assumes "distinct (map fst xs)" "distinct (map fst ys)" "set xs = set ys"
  shows "sort_key fst xs = sort_key fst ys"
proof (rule map_sorted_distinct_set_unique [of fst])
  show "inj_on fst (set (sort_key fst xs) \<union> set (sort_key fst ys))"
    using assms by (simp add: distinct_map)
  show "sorted (map fst (sort_key fst xs))" "sorted (map fst (sort_key fst ys))" by simp_all
  have "mset (map fst (sort_key fst zs)) = mset (map fst zs)" for zs :: "('k \<times> 'v) list"
    by simp
  then show "distinct (map fst (sort_key fst xs))" "distinct (map fst (sort_key fst ys))"
    using assms by (metis mset_eq_imp_distinct_iff)+
  show "set (sort_key fst xs) = set (sort_key fst ys)" using assms by simp
qed

text \<open>The canonical text, hence the digest, of an object does not depend on insertion order.\<close>

lemma json_dumps_order_independent:
  assumes "distinct (map fst kvs)" "distinct (map fst kvs')" "set kvs = set kvs'"
  shows "json_dumps f (JObj kvs) = json_dumps f (JObj kvs')"
proof -
  let ?g = "map (\<lambda>(k, v). (k, json_dumps f v))"
  have fst_g: "map fst (?g xs) = map fst xs" for xs
    by (induction xs) auto
  have "sort_key fst (?g kvs) = sort_key fst (?g kvs')"
    using assms by (intro sort_key_fst_unique) (simp_all only: fst_g set_map)
  then show ?thesis by simp
qed

text \<open>
  Python equality of decoded JSON values: \<open>True == 1\<close> and \<open>False == 0\<close>, and dictionaries compare
  by content.
\<close>

fun json_norm :: "json \<Rightarrow> json" where
  "json_norm JNull = JNull"
| "json_norm (JBool b) = JInt (of_bool b)"
| "json_norm (JInt i) = JInt i"
| "json_norm (JStr s) = JStr s"
| "json_norm (JList xs) = JList (map json_norm xs)"
| "json_norm (JObj kvs) = JObj (sort_key fst (map (\<lambda>(k, v). (k, json_norm v)) kvs))"

definition json_eq :: "json \<Rightarrow> json \<Rightarrow> bool" where
  "json_eq a b \<longleftrightarrow> json_norm a = json_norm b"

lemma json_eq_refl [simp]: "json_eq a a"
  by (simp add: json_eq_def)

text \<open>\<open>json.loads(json.dumps(v, sort_keys=True, ...))\<close>: the same value with every object in key order.\<close>

fun json_canon :: "json \<Rightarrow> json" where
  "json_canon (JList xs) = JList (map json_canon xs)"
| "json_canon (JObj kvs) = JObj (sort_key fst (map (\<lambda>(k, v). (k, json_canon v)) kvs))"
| "json_canon v = v"

lemma insort_key_fst_map:
  "insort_key fst (k, f v) (map (\<lambda>(k, v). (k, f v)) xs) = map (\<lambda>(k, v). (k, f v)) (insort_key fst (k, v) xs)"
  by (induction xs) auto

lemma sort_key_fst_map:
  "sort_key fst (map (\<lambda>(k, v). (k, f v)) xs) = map (\<lambda>(k, v). (k, f v)) (sort_key fst xs)"
  by (induction xs) (auto simp: insort_key_fst_map)

lemma insort_key_smallest: "\<forall>y \<in> set ys. f x \<le> f y \<Longrightarrow> insort_key f x ys = x # ys"
  by (cases ys) auto

lemma sort_key_sorted_id: "sorted (map f xs) \<Longrightarrow> sort_key f xs = xs"
  by (induction xs) (auto simp: insort_key_smallest)

lemma sort_key_idem [simp]: "sort_key f (sort_key f xs) = sort_key f xs"
  by (rule sort_key_sorted_id) simp

lemma sort_key_fst_canon:
  assumes "\<And>k v. (k, v) \<in> set kvs \<Longrightarrow> g (h v) = g v"
  shows "sort_key fst (map (\<lambda>(k, v). (k, g v)) (sort_key fst (map (\<lambda>(k, v). (k, h v)) kvs)))
    = sort_key fst (map (\<lambda>(k, v). (k, g v)) kvs)"
proof -
  have "sort_key fst (map (\<lambda>(k, v). (k, g v)) (sort_key fst (map (\<lambda>(k, v). (k, h v)) kvs)))
      = sort_key fst (map (\<lambda>(k, v). (k, g v)) (map (\<lambda>(k, v). (k, h v)) kvs))"
    by (simp only: sort_key_fst_map sort_key_idem)
  also have "map (\<lambda>(k, v). (k, g v)) (map (\<lambda>(k, v). (k, h v)) kvs) = map (\<lambda>(k, v). (k, g v)) kvs"
    using assms by auto
  finally show ?thesis .
qed

text \<open>Decoding and re-encoding does not change the canonical text.\<close>

lemma json_dumps_canon [simp]: "json_dumps f (json_canon v) = json_dumps f v"
proof (induction v rule: json_canon.induct)
  case (1 xs)
  then have "map (json_dumps f) (map json_canon xs) = map (json_dumps f) xs" by simp
  then show ?case by (simp only: json_canon.simps json_dumps.simps)
next
  case (2 kvs)
  have "sort_key fst (map (\<lambda>(k, v). (k, json_dumps f v))
        (sort_key fst (map (\<lambda>(k, v). (k, json_canon v)) kvs)))
      = sort_key fst (map (\<lambda>(k, v). (k, json_dumps f v)) kvs)"
    by (rule sort_key_fst_canon) (rule 2, auto)
  then show ?case by (simp only: json_canon.simps json_dumps.simps)
qed simp_all

lemma json_canon_idem [simp]: "json_canon (json_canon v) = json_canon v"
proof (induction v rule: json_canon.induct)
  case (2 kvs)
  have "sort_key fst (map (\<lambda>(k, v). (k, json_canon v))
        (sort_key fst (map (\<lambda>(k, v). (k, json_canon v)) kvs)))
      = sort_key fst (map (\<lambda>(k, v). (k, json_canon v)) kvs)"
    by (rule sort_key_fst_canon) (rule 2, auto)
  then show ?case by (simp only: json_canon.simps)
qed simp_all

section \<open>UUID parsing\<close>

text \<open>\<open>str.replace(sub, "")\<close> for a non-empty \<open>sub\<close>: leftmost non-overlapping occurrences removed.\<close>

function remove_all :: "string \<Rightarrow> string \<Rightarrow> string" where
  "remove_all sub s =
     (if sub = [] \<or> length s < length sub then s
      else if take (length sub) s = sub then remove_all sub (drop (length sub) s)
      else hd s # remove_all sub (tl s))"
  by pat_completeness auto
termination
  by (relation "measure (length \<circ> snd)") (auto simp: neq_Nil_conv)

declare remove_all.simps [simp del]

definition hex_value :: "char \<Rightarrow> nat option" where
  "hex_value c =
     (let n = of_char c :: nat in
      if 48 \<le> n \<and> n \<le> 57 then Some (n - 48)
      else if 97 \<le> n \<and> n \<le> 102 then Some (n - 87)
      else if 65 \<le> n \<and> n \<le> 70 then Some (n - 55) else None)"

fun parse_hex :: "bool \<Rightarrow> nat \<Rightarrow> string \<Rightarrow> nat option" where
  "parse_hex prev acc [] = (if prev then Some acc else None)"
| "parse_hex prev acc (c # cs) =
     (if c = CHR ''_'' then (if prev then parse_hex False acc cs else None)
      else case hex_value c of
             None \<Rightarrow> None
           | Some d \<Rightarrow> parse_hex True (16 * acc + d) cs)"

text \<open>\<open>int(s, 16)\<close>: surrounding space, a sign and a \<open>0x\<close> prefix are accepted.\<close>

definition py_int16 :: "string \<Rightarrow> int option" where
  "py_int16 s =
     (let t = py_strip s;
          neg = (take 1 t = ''-'');
          u = (if take 1 t = ''-'' \<or> take 1 t = ''+'' then drop 1 t else t);
          v = (if take 2 u = ''0x'' \<or> take 2 u = ''0X'' then drop 2 u else u);
          w = (if v \<noteq> u \<and> take 1 v = ''_'' then drop 1 v else v)
      in map_option (\<lambda>n. if neg then - int n else int n) (parse_hex False 0 w))"

text \<open>\<open>uuid.UUID(s)\<close>: \<open>None\<close> is the \<open>ValueError\<close> for a badly formed string.\<close>

definition py_uuid :: "string \<Rightarrow> uuid option" where
  "py_uuid s =
     (let a = remove_all ''uuid:'' (remove_all ''urn:'' s);
          b = rev (dropWhile (\<lambda>c. c \<in> set ''{}'') (rev (dropWhile (\<lambda>c. c \<in> set ''{}'') a)));
          h = remove_all ''-'' b
      in if length h \<noteq> 32 then None
         else case py_int16 h of
                None \<Rightarrow> None
              | Some i \<Rightarrow> if 0 \<le> i \<and> i < 2 ^ 128 then Some (nat i) else None)"

end
