(* ===== verification/Research_Contracts.thy ===== *)
theory Research_Contracts
  imports Python_Stdlib "HOL-Library.Product_Lexorder"
begin

text \<open>
  The contracts between the scientific core and the SaaS layer: digest validation, dataset
  provenance, research results (\<open>researchos/research_core/contracts.py\<close>), the provenance record of a
  run (\<open>researchos/saas/provenance.py\<close>) and the immutable validation and finding records
  (\<open>researchos/saas/validation.py\<close>, \<open>researchos/saas/finding.py\<close>).  A constructor with a
  \<open>__post_init__\<close> is a function from the raw field values to the stored record or the exception.
\<close>

section \<open>Digests\<close>

definition validate_sha256 :: "string \<Rightarrow> string \<Rightarrow> string result" where
  "validate_sha256 value field_name =
     (let normalized = py_lower (py_strip value) in
      if length normalized \<noteq> 64 \<or> (\<exists>c \<in> set normalized. c \<notin> set hex_digits)
      then Inl (ValueError (field_name @ '' must be a 64-character SHA-256 hex digest''))
      else Inr normalized)"

definition is_sha256 :: "string \<Rightarrow> bool" where
  "is_sha256 s \<longleftrightarrow> length s = 64 \<and> set s \<subseteq> set hex_digits"

lemma hex_digits_plain: "c \<in> set hex_digits \<Longrightarrow> \<not> py_isspace c \<and> py_lower_char c = c"
proof -
  assume "c \<in> set hex_digits"
  moreover have "\<forall>c \<in> set hex_digits. \<not> py_isspace c \<and> py_lower_char c = c" by code_simp
  ultimately show ?thesis by blast
qed

lemma is_sha256_plain:
  assumes "is_sha256 s"
  shows "py_strip s = s" and "py_lower s = s"
proof -
  have "c \<in> set hex_digits" if "c \<in> set s" for c
    using assms that by (auto simp: is_sha256_def)
  then show "py_strip s = s" "py_lower s = s"
    using hex_digits_plain by (auto intro!: py_strip_no_space map_idI simp: py_lower_def)
qed

lemma validate_sha256_ok [simp]: "is_sha256 s \<Longrightarrow> validate_sha256 s f = Inr s"
  using is_sha256_plain [of s] by (auto simp: validate_sha256_def is_sha256_def)

lemma validate_sha256_Inr: "validate_sha256 v f = Inr s \<Longrightarrow> is_sha256 s"
  by (auto simp: validate_sha256_def is_sha256_def Let_def split: if_splits)

lemma is_sha256_digest [simp]: "is_sha256 (sha256_hex m)"
  by (simp add: is_sha256_def sha256_hex_shape)

lemma is_sha256_json [simp]: "is_sha256 (json_sha256 f v)"
  by (simp add: json_sha256_def)

lemma is_sha256_nonempty: "is_sha256 s \<Longrightarrow> s \<noteq> []"
  by (auto simp: is_sha256_def)

section \<open>Datasets\<close>

type_synonym data_row = "(string \<times> json) list"

definition canonical_rows_sha256 :: "data_row list \<Rightarrow> string" where
  "canonical_rows_sha256 rows =
     sha256_hex (concat (map (\<lambda>row. utf8_encode (json_dumps fmt_compact (JObj row)) @ [CHR 0x0A]) rows))"

record DatasetProvenance =
  content_sha256 :: string
  rows_sha256 :: string
  row_count :: int

definition DatasetProvenance_init :: "DatasetProvenance \<Rightarrow> DatasetProvenance result" where
  "DatasetProvenance_init p =
     (case validate_sha256 (content_sha256 p) ''content_sha256'' of
        Inl e \<Rightarrow> Inl e
      | Inr c \<Rightarrow>
          (case validate_sha256 (rows_sha256 p) ''rows_sha256'' of
             Inl e \<Rightarrow> Inl e
           | Inr r \<Rightarrow>
               if row_count p < 0 then Inl (ValueError ''row_count must be non-negative'')
               else Inr (p\<lparr>content_sha256 := c, rows_sha256 := r\<rparr>)))"

definition DatasetProvenance_from_content :: "char list \<Rightarrow> data_row list \<Rightarrow> DatasetProvenance result" where
  "DatasetProvenance_from_content content rows =
     DatasetProvenance_init \<lparr>content_sha256 = sha256_hex content,
       rows_sha256 = canonical_rows_sha256 rows, row_count = int (length rows)\<rparr>"

record ResearchDataset =
  dataset_id :: string
  asset :: string
  timeframe :: string
  provenance :: DatasetProvenance
  rows :: "data_row list"

definition ResearchDataset_init :: "ResearchDataset \<Rightarrow> ResearchDataset result" where
  "ResearchDataset_init d =
     (if blank (dataset_id d) then Inl (ValueError ''dataset_id must not be empty'')
      else if blank (asset d) then Inl (ValueError ''asset must not be empty'')
      else if blank (timeframe d) then Inl (ValueError ''timeframe must not be empty'')
      else if int (length (rows d)) \<noteq> row_count (provenance d)
      then Inl (ValueError ''row_count does not match the rows supplied to the scientific core'')
      else if canonical_rows_sha256 (rows d) \<noteq> rows_sha256 (provenance d)
      then Inl (ValueError ''rows do not match the dataset provenance'')
      else Inr d)"

definition ResearchDataset_from_content ::
  "string \<Rightarrow> string \<Rightarrow> string \<Rightarrow> char list \<Rightarrow> data_row list \<Rightarrow> ResearchDataset result" where
  "ResearchDataset_from_content did ass tf content rs =
     (case DatasetProvenance_from_content content rs of
        Inl e \<Rightarrow> Inl e
      | Inr p \<Rightarrow> ResearchDataset_init
          \<lparr>dataset_id = did, asset = ass, timeframe = tf, provenance = p, rows = rs\<rparr>)"

definition FROZEN_XAUUSD_M1_WORKFLOW :: string where
  "FROZEN_XAUUSD_M1_WORKFLOW = ''xauusd_m1_frozen_research_v1''"

lemma provenance_from_content:
  "DatasetProvenance_from_content content rs = Inr \<lparr>content_sha256 = sha256_hex content,
     rows_sha256 = canonical_rows_sha256 rs, row_count = int (length rs)\<rparr>"
  by (simp add: DatasetProvenance_from_content_def DatasetProvenance_init_def
      canonical_rows_sha256_def)

section \<open>Results\<close>

record ResearchArtifact =
  artifact_id :: string
  art_kind :: string
  art_sha256 :: string

definition ResearchArtifact_init :: "ResearchArtifact \<Rightarrow> ResearchArtifact result" where
  "ResearchArtifact_init a =
     (if blank (artifact_id a) then Inl (ValueError ''artifact_id must not be empty'')
      else if blank (art_kind a) then Inl (ValueError ''kind must not be empty'')
      else case validate_sha256 (art_sha256 a) ''content_sha256'' of
             Inl e \<Rightarrow> Inl e
           | Inr h \<Rightarrow> Inr (a\<lparr>art_sha256 := h\<rparr>))"

record ResearchResult =
  res_status :: string
  res_source_sha256 :: string
  res_artifacts :: "ResearchArtifact list"
  res_failures :: "string list"

definition ResearchResult_init :: "ResearchResult \<Rightarrow> ResearchResult result" where
  "ResearchResult_init r =
     (if res_status r \<notin> {''SUCCEEDED'', ''FAILED''}
      then Inl (ValueError ''status must be SUCCEEDED or FAILED'')
      else case validate_sha256 (res_source_sha256 r) ''source_dataset_sha256'' of
             Inl e \<Rightarrow> Inl e
           | Inr h \<Rightarrow>
               if res_status r = ''SUCCEEDED'' \<and> res_failures r \<noteq> []
               then Inl (ValueError ''a successful result cannot contain failures'')
               else Inr (r\<lparr>res_source_sha256 := h\<rparr>))"

definition wf_result :: "ResearchResult \<Rightarrow> bool" where
  "wf_result r \<longleftrightarrow> res_status r \<in> {''SUCCEEDED'', ''FAILED''} \<and> is_sha256 (res_source_sha256 r)
     \<and> (res_status r = ''SUCCEEDED'' \<longrightarrow> res_failures r = [])"

lemma ResearchResult_init_Inr: "ResearchResult_init r = Inr r' \<Longrightarrow> wf_result r'"
  by (auto simp: ResearchResult_init_def wf_result_def dest: validate_sha256_Inr
      split: if_splits sum.splits)

section \<open>Manifests\<close>

definition artifact_sort_key :: "ResearchArtifact \<Rightarrow> string \<times> string \<times> string" where
  "artifact_sort_key a = (artifact_id a, art_kind a, art_sha256 a)"

definition artifact_identity :: "ResearchArtifact \<Rightarrow> json" where
  "artifact_identity a = JObj [(''artifact_id'', JStr (artifact_id a)), (''kind'', JStr (art_kind a)),
     (''content_sha256'', JStr (art_sha256 a))]"

definition artifact_manifest_payload :: "ResearchArtifact list \<Rightarrow> json result" where
  "artifact_manifest_payload artifacts =
     (let ordered = sort_key artifact_sort_key artifacts in
      if card (set (map artifact_id ordered)) \<noteq> length ordered
      then Inl (ValueError ''artifact_id must be unique within a manifest'')
      else Inr (JObj [(''schema'', JStr ''research-artifact-manifest.v1''),
             (''artifacts'', JList (map artifact_identity ordered))]))"

definition artifact_manifest_sha256 :: "ResearchArtifact list \<Rightarrow> string result" where
  "artifact_manifest_sha256 artifacts =
     map_sum id (json_sha256 fmt_compact) (artifact_manifest_payload artifacts)"

definition manifest_payload :: "ResearchResult \<Rightarrow> json" where
  "manifest_payload r =
     JObj [(''status'', JStr (res_status r)),
       (''source_dataset_sha256'', JStr (res_source_sha256 r)),
       (''artifacts'', JList (map artifact_identity (sort_key artifact_sort_key (res_artifacts r)))),
       (''failures'', JList (map JStr (res_failures r)))]"

definition manifest_sha256 :: "ResearchResult \<Rightarrow> string" where
  "manifest_sha256 r = json_sha256 fmt_compact (manifest_payload r)"

record ResearchRunResultRecord =
  rec_workspace_id :: uuid
  rec_research_run_id :: uuid
  rec_source_sha256 :: string
  rec_status :: string
  rec_manifest_sha256 :: string
  rec_artifacts :: "ResearchArtifact list"
  rec_failures :: "string list"
  rec_claim_id :: "uuid option"
  rec_plan_hash :: "string option"

definition ResearchRunResultRecord_init ::
  "ResearchRunResultRecord \<Rightarrow> ResearchRunResultRecord result" where
  "ResearchRunResultRecord_init r =
     (if (rec_claim_id r = None) \<noteq> (rec_plan_hash r = None)
      then Inl (ValueError ''claim_id and plan_hash must be provided together'')
      else case (case rec_plan_hash r of None \<Rightarrow> Inr [] | Some h \<Rightarrow> validate_sha256 h ''plan_hash'') of
             Inl e \<Rightarrow> Inl e
           | Inr _ \<Rightarrow>
               (case validate_sha256 (rec_source_sha256 r) ''source_dataset_sha256'' of
                  Inl e \<Rightarrow> Inl e
                | Inr s \<Rightarrow>
                    (case validate_sha256 (rec_manifest_sha256 r) ''manifest_sha256'' of
                       Inl e \<Rightarrow> Inl e
                     | Inr m \<Rightarrow>
                         if rec_status r \<notin> {''SUCCEEDED'', ''FAILED''}
                         then Inl (ValueError ''status must be SUCCEEDED or FAILED'')
                         else Inr (r\<lparr>rec_source_sha256 := s, rec_manifest_sha256 := m\<rparr>))))"

definition build_result_record ::
  "uuid \<Rightarrow> uuid \<Rightarrow> ResearchResult \<Rightarrow> uuid option \<Rightarrow> string option \<Rightarrow> ResearchRunResultRecord result" where
  "build_result_record ws run r claim plan =
     ResearchRunResultRecord_init
       \<lparr>rec_workspace_id = ws, rec_research_run_id = run, rec_source_sha256 = res_source_sha256 r,
        rec_status = res_status r, rec_manifest_sha256 = manifest_sha256 r,
        rec_artifacts = res_artifacts r, rec_failures = res_failures r,
        rec_claim_id = claim, rec_plan_hash = plan\<rparr>"

lemma build_result_record_Inr:
  assumes "build_result_record ws run r claim plan = Inr record"
  shows "rec_workspace_id record = ws" "rec_research_run_id record = run"
    "rec_manifest_sha256 record = manifest_sha256 r" "rec_claim_id record = claim"
    "rec_plan_hash record = plan" "validate_sha256 (res_source_sha256 r) ''source_dataset_sha256'' = Inr (rec_source_sha256 record)"
    "rec_status record = res_status r"
  using assms
  by (auto simp: build_result_record_def ResearchRunResultRecord_init_def manifest_sha256_def
      split: if_splits sum.splits)

lemma build_result_record_wf:
  assumes "wf_result r" and "(claim = None) = (plan = None)" and "\<And>h. plan = Some h \<Longrightarrow> is_sha256 h"
  shows "\<exists>record. build_result_record ws run r claim plan = Inr record"
  using assms
  by (auto simp: build_result_record_def ResearchRunResultRecord_init_def wf_result_def
      manifest_sha256_def split: option.splits sum.splits)

text \<open>Artifacts that agree on the sort key are equal, so sorting by it is a canonical form.\<close>

lemma artifact_sort_key_inj: "artifact_sort_key a = artifact_sort_key b \<Longrightarrow> a = (b :: ResearchArtifact)"
  by (simp add: artifact_sort_key_def)

lemma sort_key_inj_mset:
  assumes "mset xs = mset ys" and "inj_on f (set xs)"
  shows "sort_key f xs = sort_key f ys"
proof (rule properties_for_sort_key)
  show "mset (sort_key f ys) = mset xs" using assms(1) by simp
  show "sorted (map f (sort_key f ys))" by simp
  fix k
  assume "k \<in> set (sort_key f ys)"
  then have k: "k \<in> set xs" using mset_eq_setD [OF assms(1)] by simp
  have eq: "filter (\<lambda>y. f k = f y) zs = replicate (count_list zs k) k" if "set zs \<subseteq> set xs" for zs
    using that k assms(2) by (induction zs) (auto dest: inj_onD)
  have "count_list xs k = count_list (sort_key f ys) k"
    using assms(1) by (metis count_mset mset_sort)
  moreover have "set (sort_key f ys) \<subseteq> set xs"
    using mset_eq_setD [OF assms(1)] by simp
  ultimately show "filter (\<lambda>y. f k = f y) (sort_key f ys) = filter (\<lambda>y. f k = f y) xs"
    using eq [of xs] eq [of "sort_key f ys"] by simp
qed

lemma sort_artifacts_perm:
  "mset xs = mset ys \<Longrightarrow> sort_key artifact_sort_key xs = sort_key artifact_sort_key ys"
  by (rule sort_key_inj_mset) (auto intro!: inj_onI artifact_sort_key_inj)

section \<open>Validation and finding records\<close>

definition VALIDATION_CONTRACT_VERSION :: string where
  "VALIDATION_CONTRACT_VERSION = ''1.0.0''"

text \<open>The metric values are only copied, so their type is left open.\<close>

record 'm ResearchValidationRecord =
  val_id :: uuid
  val_workspace_id :: uuid
  val_research_run_id :: uuid
  val_result_manifest_sha256 :: string
  val_claim_id :: "string option"
  val_plan_hash :: "string option"
  val_sha256 :: string
  val_status :: string
  val_metrics :: "(string \<times> 'm) list"
  val_contract_version :: string

definition validate_optional_sha256 :: "string option \<Rightarrow> string \<Rightarrow> string option result" where
  "validate_optional_sha256 h field_name =
     (case h of None \<Rightarrow> Inr None | Some v \<Rightarrow> map_sum id Some (validate_sha256 v field_name))"

definition ResearchValidationRecord_init ::
  "'m ResearchValidationRecord \<Rightarrow> 'm ResearchValidationRecord result" where
  "ResearchValidationRecord_init v =
     (case validate_sha256 (val_result_manifest_sha256 v) ''result_manifest_sha256'' of
        Inl e \<Rightarrow> Inl e
      | Inr m \<Rightarrow>
     (case validate_sha256 (val_sha256 v) ''validation_sha256'' of
        Inl e \<Rightarrow> Inl e
      | Inr h \<Rightarrow>
          if (val_claim_id v = None) \<noteq> (val_plan_hash v = None)
          then Inl (ValueError ''claim_id and plan_hash must be provided together'')
          else
     (case validate_optional_sha256 (val_plan_hash v) ''plan_hash'' of
        Inl e \<Rightarrow> Inl e
      | Inr p \<Rightarrow>
          if blank (val_status v) then Inl (ValueError ''validation status must not be empty'')
          else if val_contract_version v \<noteq> VALIDATION_CONTRACT_VERSION
          then Inl (ValueError ''unsupported validation contract version'')
          else Inr (v\<lparr>val_result_manifest_sha256 := m, val_sha256 := h, val_plan_hash := p\<rparr>))))"

definition FINDING_CONTRACT_VERSION :: string where
  "FINDING_CONTRACT_VERSION = ''1.0.0''"

definition VALIDATED_STATUS :: string where
  "VALIDATED_STATUS = ''VALIDATED''"

record ResearchFindingRecord =
  fin_id :: uuid
  fin_workspace_id :: uuid
  fin_research_run_id :: uuid
  fin_validation_id :: uuid
  fin_result_manifest_sha256 :: string
  fin_validation_sha256 :: string
  fin_claim_id :: "string option"
  fin_plan_hash :: "string option"
  fin_sha256 :: string
  fin_status :: string
  fin_payload :: "(string \<times> json) list"
  fin_contract_version :: string
  fin_created_at :: timestamp

definition finding_canonical_payload :: "(string \<times> json) list \<Rightarrow> (string \<times> json) list" where
  "finding_canonical_payload p = (case json_canon (JObj p) of JObj q \<Rightarrow> q | _ \<Rightarrow> [])"

definition compute_finding_sha256 :: "(string \<times> json) list \<Rightarrow> string" where
  "compute_finding_sha256 p = json_sha256 fmt_ascii (JObj p)"

definition ResearchFindingRecord_init :: "ResearchFindingRecord \<Rightarrow> ResearchFindingRecord result" where
  "ResearchFindingRecord_init f =
     (case validate_sha256 (fin_result_manifest_sha256 f) ''result_manifest_sha256'' of
        Inl e \<Rightarrow> Inl e
      | Inr m \<Rightarrow>
     (case validate_sha256 (fin_validation_sha256 f) ''validation_sha256'' of
        Inl e \<Rightarrow> Inl e
      | Inr v \<Rightarrow>
     (case validate_sha256 (fin_sha256 f) ''finding_sha256'' of
        Inl e \<Rightarrow> Inl e
      | Inr h \<Rightarrow>
          if (fin_claim_id f = None) \<noteq> (fin_plan_hash f = None)
          then Inl (ValueError ''claim_id and plan_hash must be provided together'')
          else
     (case validate_optional_sha256 (fin_plan_hash f) ''plan_hash'' of
        Inl e \<Rightarrow> Inl e
      | Inr p \<Rightarrow>
          if fin_status f \<noteq> VALIDATED_STATUS
          then Inl (ValueError ''research finding status must be VALIDATED'')
          else if fin_contract_version f \<noteq> FINDING_CONTRACT_VERSION
          then Inl (ValueError ''unsupported finding contract version'')
          else
            let canonical = finding_canonical_payload (fin_payload f) in
            if compute_finding_sha256 canonical \<noteq> h
            then Inl (ValueError ''finding_sha256 does not match canonical payload'')
            else Inr (f\<lparr>fin_result_manifest_sha256 := m, fin_validation_sha256 := v, fin_sha256 := h,
                        fin_plan_hash := p, fin_payload := canonical\<rparr>)))))"

lemma JObj_canonical: "JObj (finding_canonical_payload p) = json_canon (JObj p)"
  by (simp add: finding_canonical_payload_def)

lemma compute_finding_sha256_canonical [simp]:
  "compute_finding_sha256 (finding_canonical_payload p) = compute_finding_sha256 p"
  by (simp only: compute_finding_sha256_def json_sha256_def JObj_canonical json_dumps_canon)

lemma is_sha256_finding [simp]: "is_sha256 (compute_finding_sha256 p)"
  by (simp add: compute_finding_sha256_def)

end
