(* ===== verification/Saas_Contracts.thy ===== *)
theory Saas_Contracts
  imports Research_Contracts
begin

text \<open>
  The application vocabulary of the multi-tenant service (\<open>researchos/saas/contracts.py\<close>): plans and
  their usage policies, workspace roles, the tenant context and the research job with the checks of
  its constructor, which \<open>dataclasses.replace\<close> runs again on every update.
\<close>

datatype Plan = Plan_FREE | Plan_PRO | Plan_TEAM | Plan_ENTERPRISE

datatype WorkspaceRole =
    WorkspaceRole_OWNER | WorkspaceRole_ADMIN | WorkspaceRole_RESEARCHER | WorkspaceRole_VIEWER
  | WorkspaceRole_BILLING_ADMIN

datatype ResearchJobStatus = QUEUED | RUNNING | SUCCEEDED | FAILED | CANCELLED

fun ResearchJobStatus_value :: "ResearchJobStatus \<Rightarrow> string" where
  "ResearchJobStatus_value QUEUED = ''queued''"
| "ResearchJobStatus_value RUNNING = ''running''"
| "ResearchJobStatus_value SUCCEEDED = ''succeeded''"
| "ResearchJobStatus_value FAILED = ''failed''"
| "ResearchJobStatus_value CANCELLED = ''cancelled''"

record TenantContext =
  ctx_user_id :: uuid
  ctx_workspace_id :: uuid
  ctx_plan :: Plan
  ctx_role :: WorkspaceRole

section \<open>Usage policies\<close>

record UsagePolicy =
  monthly_research_runs :: int
  max_dataset_bytes :: int
  max_concurrent_runs :: int

definition allows_dataset :: "UsagePolicy \<Rightarrow> int \<Rightarrow> bool" where
  "allows_dataset p size_bytes \<longleftrightarrow>
     size_bytes \<ge> 0 \<and> (max_dataset_bytes p = 0 \<or> size_bytes \<le> max_dataset_bytes p)"

definition allows_monthly_runs :: "UsagePolicy \<Rightarrow> int \<Rightarrow> bool" where
  "allows_monthly_runs p used \<longleftrightarrow>
     used \<ge> 0 \<and> (monthly_research_runs p = 0 \<or> used < monthly_research_runs p)"

definition allows_concurrency :: "UsagePolicy \<Rightarrow> int \<Rightarrow> bool" where
  "allows_concurrency p active \<longleftrightarrow>
     active \<ge> 0 \<and> (max_concurrent_runs p = 0 \<or> active < max_concurrent_runs p)"

fun DEFAULT_USAGE_POLICIES :: "Plan \<Rightarrow> UsagePolicy" where
  "DEFAULT_USAGE_POLICIES Plan_FREE = \<lparr>monthly_research_runs = 100, max_dataset_bytes = 50000000, max_concurrent_runs = 1\<rparr>"
| "DEFAULT_USAGE_POLICIES Plan_PRO = \<lparr>monthly_research_runs = 100, max_dataset_bytes = 2000000000, max_concurrent_runs = 2\<rparr>"
| "DEFAULT_USAGE_POLICIES Plan_TEAM = \<lparr>monthly_research_runs = 1000, max_dataset_bytes = 10000000000, max_concurrent_runs = 8\<rparr>"
| "DEFAULT_USAGE_POLICIES Plan_ENTERPRISE = \<lparr>monthly_research_runs = 0, max_dataset_bytes = 0, max_concurrent_runs = 0\<rparr>"

section \<open>Research jobs\<close>

record ResearchJob =
  job_id :: uuid
  job_workspace_id :: uuid
  job_dataset_version_id :: uuid
  job_workflow_id :: string
  job_status :: ResearchJobStatus
  job_source_sha256 :: string
  job_created_by :: "uuid option"
  job_claim_id :: "string option"
  job_plan_hash :: "string option"
  job_attempt_count :: int
  job_max_attempts :: int
  job_error_code :: "string option"

definition ResearchJob_init :: "ResearchJob \<Rightarrow> ResearchJob result" where
  "ResearchJob_init j =
     (case validate_sha256 (job_source_sha256 j) ''source_dataset_sha256'' of
        Inl e \<Rightarrow> Inl e
      | Inr h \<Rightarrow>
          if blank (job_workflow_id j) then Inl (ValueError ''workflow_id must not be empty'')
          else if (job_claim_id j = None) \<noteq> (job_plan_hash j = None)
          then Inl (ValueError ''claim_id and plan_hash must be provided together'')
          else if (case job_claim_id j of None \<Rightarrow> False | Some c \<Rightarrow> blank c)
          then Inl (ValueError ''claim_id must not be empty'')
          else
     (case validate_optional_sha256 (job_plan_hash j) ''plan_hash'' of
        Inl e \<Rightarrow> Inl e
      | Inr _ \<Rightarrow>
          if job_attempt_count j < 0 then Inl (ValueError ''attempt_count must not be negative'')
          else if job_max_attempts j < 1 then Inl (ValueError ''max_attempts must be positive'')
          else if job_attempt_count j > job_max_attempts j
          then Inl (ValueError ''attempt_count cannot exceed max_attempts'')
          else Inr (j\<lparr>job_source_sha256 := h\<rparr>)))"

text \<open>A constructed job: the constructor accepts it and changes nothing.\<close>

definition wf_job :: "ResearchJob \<Rightarrow> bool" where
  "wf_job j \<longleftrightarrow> ResearchJob_init j = Inr j"

lemma ResearchJob_init_fields:
  "ResearchJob_init j = Inr j' \<Longrightarrow> \<exists>h. j' = j\<lparr>job_source_sha256 := h\<rparr>"
  by (auto simp: ResearchJob_init_def split: if_splits sum.splits option.splits)

lemma source_update_id: "j\<lparr>job_source_sha256 := x\<rparr> = j \<longleftrightarrow> job_source_sha256 j = x" for j :: ResearchJob
  by (cases j) auto

lemma wf_job_iff:
  "wf_job j \<longleftrightarrow> is_sha256 (job_source_sha256 j) \<and> \<not> blank (job_workflow_id j)
     \<and> (job_claim_id j = None) = (job_plan_hash j = None)
     \<and> (\<forall>c. job_claim_id j = Some c \<longrightarrow> \<not> blank c)
     \<and> is_ok (validate_optional_sha256 (job_plan_hash j) ''plan_hash'')
     \<and> 0 \<le> job_attempt_count j \<and> 1 \<le> job_max_attempts j \<and> job_attempt_count j \<le> job_max_attempts j"
proof
  assume "wf_job j"
  then obtain h where "validate_sha256 (job_source_sha256 j) ''source_dataset_sha256'' = Inr h"
    "job_source_sha256 j = h"
    by (auto simp: wf_job_def ResearchJob_init_def source_update_id split: if_splits sum.splits option.splits)
  then have "is_sha256 (job_source_sha256 j)" by (simp add: validate_sha256_Inr)
  with \<open>wf_job j\<close> show "is_sha256 (job_source_sha256 j) \<and> \<not> blank (job_workflow_id j)
     \<and> (job_claim_id j = None) = (job_plan_hash j = None)
     \<and> (\<forall>c. job_claim_id j = Some c \<longrightarrow> \<not> blank c)
     \<and> is_ok (validate_optional_sha256 (job_plan_hash j) ''plan_hash'')
     \<and> 0 \<le> job_attempt_count j \<and> 1 \<le> job_max_attempts j \<and> job_attempt_count j \<le> job_max_attempts j"
    by (auto simp: wf_job_def ResearchJob_init_def split: if_splits sum.splits option.splits)
next
  assume "is_sha256 (job_source_sha256 j) \<and> \<not> blank (job_workflow_id j)
     \<and> (job_claim_id j = None) = (job_plan_hash j = None)
     \<and> (\<forall>c. job_claim_id j = Some c \<longrightarrow> \<not> blank c)
     \<and> is_ok (validate_optional_sha256 (job_plan_hash j) ''plan_hash'')
     \<and> 0 \<le> job_attempt_count j \<and> 1 \<le> job_max_attempts j \<and> job_attempt_count j \<le> job_max_attempts j"
  then show "wf_job j"
    by (auto simp: wf_job_def ResearchJob_init_def source_update_id is_ok_iff
        split: if_splits sum.splits option.splits)
qed

lemma ResearchJob_init_wf: "ResearchJob_init j = Inr j' \<Longrightarrow> wf_job j'"
  by (auto simp: ResearchJob_init_def wf_job_iff is_ok_iff dest: validate_sha256_Inr
      split: if_splits sum.splits option.splits)

lemma wf_job_counts: "wf_job j \<Longrightarrow> 0 \<le> job_attempt_count j \<and> job_attempt_count j \<le> job_max_attempts j"
  by (simp add: wf_job_iff)

lemma wf_job_pair: "wf_job j \<Longrightarrow> (job_claim_id j = None) = (job_plan_hash j = None)"
  by (simp add: wf_job_iff)

text \<open>\<open>dataclasses.replace\<close> of the status, the error code and an admissible attempt count succeeds.\<close>

lemma wf_job_replace:
  assumes "wf_job j" and "0 \<le> n" and "n \<le> job_max_attempts j"
  shows "ResearchJob_init (j\<lparr>job_status := st, job_attempt_count := n, job_error_code := err\<rparr>)
    = Inr (j\<lparr>job_status := st, job_attempt_count := n, job_error_code := err\<rparr>)"
  using assms unfolding wf_job_def [symmetric] by (simp add: wf_job_iff)

lemma wf_job_replace_status:
  assumes "wf_job j"
  shows "ResearchJob_init (j\<lparr>job_status := st, job_error_code := err\<rparr>)
    = Inr (j\<lparr>job_status := st, job_error_code := err\<rparr>)"
    and "ResearchJob_init (j\<lparr>job_status := st\<rparr>) = Inr (j\<lparr>job_status := st\<rparr>)"
  using assms unfolding wf_job_def [symmetric] by (simp_all add: wf_job_iff)

text \<open>What no store operation may change: everything but the status, the attempts and the error.\<close>

definition job_identity :: "ResearchJob \<Rightarrow> ResearchJob" where
  "job_identity j = j\<lparr>job_status := QUEUED, job_attempt_count := 0, job_error_code := None\<rparr>"

lemma job_identity_updates [simp]:
  "job_identity (j\<lparr>job_status := st\<rparr>) = job_identity j"
  "job_identity (j\<lparr>job_attempt_count := n\<rparr>) = job_identity j"
  "job_identity (j\<lparr>job_error_code := err\<rparr>) = job_identity j"
  "job_identity (j\<lparr>job_status := st, job_error_code := err\<rparr>) = job_identity j"
  "job_identity (j\<lparr>job_status := st, job_attempt_count := n, job_error_code := err\<rparr>) = job_identity j"
  by (simp_all add: job_identity_def)

lemma job_identity_fields:
  assumes "job_identity j = job_identity j'"
  shows "job_id j = job_id j'" "job_workspace_id j = job_workspace_id j'"
    "job_source_sha256 j = job_source_sha256 j'" "job_plan_hash j = job_plan_hash j'"
    "job_max_attempts j = job_max_attempts j'" "job_claim_id j = job_claim_id j'"
  using assms by (cases j, cases j', simp add: job_identity_def)+

end
