(* ===== verification/Interfaces.thy ===== *)
theory Interfaces
  imports QROS_Prelude
begin

text \<open>
  The contracts several components share, each stated once as a locale with its client lemmas:
  invariants of step systems, monotone quantities of step systems, tenant-scoped stores, and
  fingerprint-guarded (idempotent) reservations.  The component theories interpret them on the
  model's own operations.
\<close>

section \<open>Step systems\<close>

inductive reach :: "('s \<Rightarrow> bool) \<Rightarrow> ('s \<Rightarrow> 's \<Rightarrow> bool) \<Rightarrow> 's \<Rightarrow> bool" for init step where
  reach_start: "init s \<Longrightarrow> reach init step s"
| reach_next: "reach init step s \<Longrightarrow> step s t \<Longrightarrow> reach init step t"

lemma reach_run: "reach init step s \<Longrightarrow> step\<^sup>*\<^sup>* s t \<Longrightarrow> reach init step t"
  by (rotate_tac, induction rule: rtranclp_induct) (auto intro: reach_next)

locale invariant_system =
  fixes init :: "'s \<Rightarrow> bool"
    and step :: "'s \<Rightarrow> 's \<Rightarrow> bool"
    and inv :: "'s \<Rightarrow> bool"
  assumes inv_init: "init s \<Longrightarrow> inv s"
    and inv_step: "inv s \<Longrightarrow> step s t \<Longrightarrow> inv t"
begin

lemma reach_inv: "reach init step s \<Longrightarrow> inv s"
  by (induction rule: reach.induct) (auto intro: inv_init inv_step)

lemma run_inv: "step\<^sup>*\<^sup>* s t \<Longrightarrow> inv s \<Longrightarrow> inv t"
  by (induction rule: rtranclp_induct) (auto intro: inv_step)

end

text \<open>A reflexive and transitive relation that every step of an invariant system moves along.\<close>

locale monotone_system = invariant_system +
  fixes rel :: "'s \<Rightarrow> 's \<Rightarrow> bool"
  assumes rel_refl: "rel s s"
    and rel_trans: "rel s t \<Longrightarrow> rel t u \<Longrightarrow> rel s u"
    and rel_step: "inv s \<Longrightarrow> step s t \<Longrightarrow> rel s t"
begin

lemma run_rel: "step\<^sup>*\<^sup>* s t \<Longrightarrow> inv s \<Longrightarrow> rel s t"
proof (induction rule: rtranclp_induct)
  case base
  show ?case by (rule rel_refl)
next
  case (step t u)
  then have "inv t" by (blast intro: run_inv)
  with step show ?case by (blast intro: rel_trans rel_step)
qed

lemma reach_run_rel: "reach init step s \<Longrightarrow> step\<^sup>*\<^sup>* s t \<Longrightarrow> rel s t"
  by (blast intro: run_rel reach_inv)

end

section \<open>Tenant-scoped stores\<close>

text \<open>
  \<open>view w s\<close> is everything the tenant \<open>w\<close> can observe of the store.  A step on behalf of one tenant
  leaves the view of every other tenant as it is; so does any run of steps by other tenants.
\<close>

definition others :: "('w \<Rightarrow> 's \<Rightarrow> 's \<Rightarrow> bool) \<Rightarrow> 'w \<Rightarrow> 's \<Rightarrow> 's \<Rightarrow> bool" where
  "others step_of w s t \<longleftrightarrow> (\<exists>w'. w' \<noteq> w \<and> step_of w' s t)"

locale tenant_scoped =
  fixes inv :: "'s \<Rightarrow> bool"
    and step_of :: "'w \<Rightarrow> 's \<Rightarrow> 's \<Rightarrow> bool"
    and view :: "'w \<Rightarrow> 's \<Rightarrow> 'v"
  assumes step_inv: "inv s \<Longrightarrow> step_of w s t \<Longrightarrow> inv t"
    and step_view: "inv s \<Longrightarrow> step_of w s t \<Longrightarrow> w' \<noteq> w \<Longrightarrow> view w' t = view w' s"
begin

lemma others_run: "(others step_of w)\<^sup>*\<^sup>* s t \<Longrightarrow> inv s \<Longrightarrow> inv t \<and> view w t = view w s"
proof (induction rule: rtranclp_induct)
  case base
  then show ?case by simp
next
  case (step t u)
  then obtain w' where "w' \<noteq> w" "step_of w' t u" "inv t" "view w t = view w s"
    by (auto simp: others_def)
  then show ?case by (metis step_inv step_view)
qed

end

section \<open>Fingerprint-guarded reservations\<close>

text \<open>
  A request carries a key and a fingerprint.  The first request with a key reserves it; a later
  request with the same key is accepted only with the same fingerprint, and an error leaves the
  store as it was.
\<close>

fun serve_all :: "('s \<Rightarrow> 'r \<Rightarrow> ('o, 's) outcome) \<Rightarrow> 's \<Rightarrow> 'r list \<Rightarrow> 's" where
  "serve_all serve s [] = s"
| "serve_all serve s (r # rs) = serve_all serve (snd (serve s r)) rs"

locale fingerprint_guard =
  fixes seen :: "'s \<Rightarrow> 'k \<Rightarrow> 'f option"
    and key_of :: "'r \<Rightarrow> 'k"
    and print_of :: "'r \<Rightarrow> 'f"
    and serve :: "'s \<Rightarrow> 'r \<Rightarrow> ('o, 's) outcome"
  assumes serve_ok: "serve s r = (Inr v, t) \<Longrightarrow>
      seen t = (seen s)(key_of r \<mapsto> print_of r) \<and> seen s (key_of r) \<in> {None, Some (print_of r)}"
    and serve_error: "serve s r = (Inl e, t) \<Longrightarrow> t = s"
begin

lemma seen_stable: "seen s k = Some f \<Longrightarrow> seen (snd (serve s r)) k = Some f"
proof (cases "serve s r")
  case (Pair res t)
  assume "seen s k = Some f"
  with Pair show ?thesis
    using serve_ok [of s r _ t] serve_error [of s r _ t] by (cases res) fastforce+
qed

lemma seen_forever: "seen s k = Some f \<Longrightarrow> seen (serve_all serve s rs) k = Some f"
  by (induction rs arbitrary: s) (simp_all add: seen_stable)

lemma clash_refused:
  assumes "seen s (key_of r) = Some f" and "f \<noteq> print_of r"
  shows "\<exists>e. serve (serve_all serve s rs) r = (Inl e, serve_all serve s rs)"
proof (cases "serve (serve_all serve s rs) r")
  case (Pair res t)
  have "seen (serve_all serve s rs) (key_of r) = Some f"
    using assms(1) by (rule seen_forever)
  with assms(2) Pair show ?thesis
    using serve_ok [of "serve_all serve s rs" r _ t] serve_error [of "serve_all serve s rs" r _ t]
    by (cases res) fastforce+
qed

end

text \<open>
  Exactly-once reservations: a request that was seen before with the same fingerprint is answered
  from the recorded value and changes nothing.
\<close>

locale exactly_once = fingerprint_guard +
  fixes recorded :: "'s \<Rightarrow> 'k \<Rightarrow> 'v option"
    and replay :: "'v \<Rightarrow> 'o"
  assumes recorded_seen: "recorded s k = None \<longleftrightarrow> seen s k = None"
    and serve_replay: "seen s (key_of r) = Some (print_of r) \<Longrightarrow> recorded s (key_of r) = Some v
      \<Longrightarrow> serve s r = (Inr (replay v), s)"
    and recorded_frame: "recorded s k = Some v \<Longrightarrow> recorded (snd (serve s r)) k = Some v"
begin

lemma recorded_forever: "recorded s k = Some v \<Longrightarrow> recorded (serve_all serve s rs) k = Some v"
  by (induction rs arbitrary: s) (simp_all add: recorded_frame)

lemma replay_after_anything:
  assumes "seen s (key_of r) = Some (print_of r)" and "recorded s (key_of r) = Some v"
  shows "serve (serve_all serve s rs) r = (Inr (replay v), serve_all serve s rs)"
  by (rule serve_replay [OF seen_forever [OF assms(1)] recorded_forever [OF assms(2)]])

end

end
