(* ===== verification/Job_Store.thy ===== *)
theory Job_Store
  imports Saas_Contracts Interfaces
begin

text \<open>
  The research-job store (\<open>researchos/saas/store.py\<close>, class \<open>InMemoryResearchJobStore\<close>): creation,
  idempotent creation, leases, results and status transitions.  Every method runs under one lock,
  so it is one atomic function from the store to a result and the next store; the readings of the
  injected clock and the token drawn from \<open>uuid4\<close> are arguments.  An operation that raises after a
  write (\<open>claim\<close> on an exhausted job) returns the error and the changed store.
\<close>

record WorkerLease =
  lease_job :: ResearchJob
  lease_token :: uuid

record JobStore =
  jobs :: "(uuid, ResearchJob) dict"
  leases :: "(uuid, uuid \<times> timestamp) dict"
  idempotency :: "(uuid \<times> string, string \<times> ResearchJob) dict"
  results :: "(uuid, ResearchRunResultRecord) dict"
  created_at :: "(uuid, timestamp) dict"

definition empty_store :: JobStore where
  "empty_store = \<lparr>jobs = [], leases = [], idempotency = [], results = [], created_at = []\<rparr>"

section \<open>Creation\<close>

definition create :: "timestamp \<Rightarrow> uuid \<Rightarrow> ResearchJob \<Rightarrow> JobStore \<Rightarrow> (ResearchJob, JobStore) outcome" where
  "create now ws job s =
     (if job_workspace_id job \<noteq> ws
      then (Inl (ValueError ''research job workspace does not match tenant''), s)
      else if dget (jobs s) (job_id job) \<noteq> None
      then (Inl (ValueError ''research job already exists''), s)
      else (Inr job, s\<lparr>jobs := dset (job_id job) job (jobs s),
                       created_at := dset (job_id job) now (created_at s)\<rparr>))"

definition create_idempotent ::
  "timestamp \<Rightarrow> uuid \<Rightarrow> ResearchJob \<Rightarrow> string \<Rightarrow> string \<Rightarrow> JobStore
    \<Rightarrow> (ResearchJob \<times> bool, JobStore) outcome" where
  "create_idempotent now ws job idem_key request_fingerprint s =
     (if job_workspace_id job \<noteq> ws
      then (Inl (ValueError ''research job workspace does not match tenant''), s)
      else case dget (idempotency s) (ws, idem_key) of
             Some (existing_fingerprint, existing_job) \<Rightarrow>
               if existing_fingerprint \<noteq> request_fingerprint
               then (Inl (ValueError ''idempotency key reused with different request''), s)
               else (Inr (existing_job, True), s)
           | None \<Rightarrow>
               if dget (jobs s) (job_id job) \<noteq> None
               then (Inl (ValueError ''research job already exists''), s)
               else (Inr (job, False),
                     s\<lparr>jobs := dset (job_id job) job (jobs s),
                       created_at := dset (job_id job) now (created_at s),
                       idempotency := dset (ws, idem_key) (request_fingerprint, job) (idempotency s)\<rparr>))"

section \<open>Results\<close>

text \<open>The lease test of \<open>record_result\<close> and \<open>renew\<close>.\<close>

definition lease_valid :: "timestamp \<Rightarrow> uuid \<Rightarrow> uuid \<Rightarrow> uuid \<Rightarrow> JobStore \<Rightarrow> bool" where
  "lease_valid now ws jid token s \<longleftrightarrow>
     (case dget (jobs s) jid of
        None \<Rightarrow> False
      | Some job \<Rightarrow> job_workspace_id job = ws \<and> job_status job = RUNNING
          \<and> (case dget (leases s) jid of
                None \<Rightarrow> False
              | Some (tok, expires) \<Rightarrow> tok = token \<and> \<not> expires \<le> now))"

definition job_claim_uuid :: "ResearchJob \<Rightarrow> uuid option result" where
  "job_claim_uuid job =
     (case job_claim_id job of
        None \<Rightarrow> Inr None
      | Some c \<Rightarrow> if c = [] then Inr None
          else (case py_uuid c of
                  None \<Rightarrow> Inl (ValueError ''badly formed hexadecimal UUID string'')
                | Some u \<Rightarrow> Inr (Some u)))"

definition record_result ::
  "timestamp \<Rightarrow> uuid \<Rightarrow> uuid \<Rightarrow> uuid \<Rightarrow> ResearchResult \<Rightarrow> JobStore
    \<Rightarrow> (ResearchRunResultRecord, JobStore) outcome" where
  "record_result now ws jid token res s =
     (if \<not> lease_valid now ws jid token s
      then (Inl (RuntimeError ''stale or invalid worker lease''), s)
      else case dget (jobs s) jid of
             None \<Rightarrow> (Inl (RuntimeError ''stale or invalid worker lease''), s)
           | Some job \<Rightarrow>
               if res_source_sha256 res \<noteq> job_source_sha256 job
               then (Inl (ValueError ''research result source hash does not match input dataset''), s)
               else case job_claim_uuid job of
                      Inl e \<Rightarrow> (Inl e, s)
                    | Inr claim \<Rightarrow>
                        (case build_result_record ws jid res claim (job_plan_hash job) of
                           Inl e \<Rightarrow> (Inl e, s)
                         | Inr record \<Rightarrow>
                             (case dget (results s) jid of
                                Some existing \<Rightarrow>
                                  if rec_manifest_sha256 existing \<noteq> rec_manifest_sha256 record
                                  then (Inl (ValueError ''research result already persisted with a different manifest''), s)
                                  else (Inr existing, s)
                              | None \<Rightarrow> (Inr record, s\<lparr>results := dset jid record (results s)\<rparr>))))"

definition get_result :: "uuid \<Rightarrow> uuid \<Rightarrow> JobStore \<Rightarrow> ResearchRunResultRecord option" where
  "get_result ws jid s =
     (case dget (results s) jid of
        None \<Rightarrow> None
      | Some record \<Rightarrow> if rec_workspace_id record \<noteq> ws then None else Some record)"

definition get_job :: "uuid \<Rightarrow> uuid \<Rightarrow> JobStore \<Rightarrow> ResearchJob option" where
  "get_job ws jid s =
     (case dget (jobs s) jid of
        None \<Rightarrow> None
      | Some job \<Rightarrow> if job_workspace_id job \<noteq> ws then None else Some job)"

section \<open>Queries\<close>

text \<open>The lifecycle projection of the public API: at most one \<open>job_state\<close> event, of the current state.\<close>

definition logs :: "uuid \<Rightarrow> uuid \<Rightarrow> JobStore \<Rightarrow> (string \<times> json) list list" where
  "logs ws jid s =
     (case get_job ws jid s of
        None \<Rightarrow> []
      | Some job \<Rightarrow> [[(''event'', JStr ''job_state''),
          (''status'', JStr (ResearchJobStatus_value (job_status job))),
          (''attempt_count'', JInt (job_attempt_count job)),
          (''error_code'', (case job_error_code job of None \<Rightarrow> JNull | Some e \<Rightarrow> JStr e))]])"

text \<open>\<open>list.sort(key=..., reverse=True)\<close> keeps the order of equal elements.\<close>

definition py_sort :: "('a \<Rightarrow> 'k::linorder) \<Rightarrow> bool \<Rightarrow> 'a list \<Rightarrow> 'a list" where
  "py_sort key desc xs = (if desc then rev (sort_key key (rev xs)) else sort_key key xs)"

definition list_jobs ::
  "uuid \<Rightarrow> int \<Rightarrow> int \<Rightarrow> ResearchJobStatus option \<Rightarrow> string option \<Rightarrow> string \<Rightarrow> string \<Rightarrow> JobStore
    \<Rightarrow> (ResearchJob list \<times> int) result" where
  "list_jobs ws limit offset st workflow sort_by sort_order s =
     (if \<not> (1 \<le> limit \<and> limit \<le> 100) \<or> offset < 0 then Inl (ValueError ''invalid pagination'')
      else if sort_by \<notin> {''created_at'', ''status'', ''workflow_id''}
      then Inl (ValueError ''invalid sort field'')
      else if sort_order \<notin> {''asc'', ''desc''} then Inl (ValueError ''invalid sort order'')
      else
        let selected = filter (\<lambda>job. job_workspace_id job = ws
              \<and> (case st of None \<Rightarrow> True | Some x \<Rightarrow> job_status job = x)
              \<and> (case workflow of None \<Rightarrow> True | Some x \<Rightarrow> job_workflow_id job = x)) (dvalues (jobs s));
            desc = (sort_order = ''desc'')
        in if sort_by = ''created_at'' \<and> selected \<noteq> []
           then Inl (AttributeError ''ResearchJob object has no attribute created_at'')
           else
             let ordered = (if sort_by = ''status'' then py_sort (ResearchJobStatus_value \<circ> job_status) desc selected
                            else if sort_by = ''workflow_id'' then py_sort job_workflow_id desc selected
                            else selected)
             in Inr (take (nat limit) (drop (nat offset) ordered), int (length ordered)))"

definition count_active :: "uuid \<Rightarrow> JobStore \<Rightarrow> int" where
  "count_active ws s =
     int (length (filter (\<lambda>job. job_workspace_id job = ws \<and> job_status job \<in> {QUEUED, RUNNING})
       (dvalues (jobs s))))"

text \<open>
  \<open>datetime.replace(day=1, hour=0, ...)\<close> of a UTC instant: the day of the month of a day number
  (days since 1970-01-01, proleptic Gregorian calendar) and the midnight that starts its month.
\<close>

definition day_of_month :: "int \<Rightarrow> int" where
  "day_of_month days =
     (let doe = (days + 719468) mod 146097;
          yoe = (doe - doe div 1460 + doe div 36524 - doe div 146096) div 365;
          doy = doe - (365 * yoe + yoe div 4 - yoe div 100);
          mp = (5 * doy + 2) div 153
      in doy - (153 * mp + 2) div 5 + 1)"

definition month_start :: "timestamp \<Rightarrow> timestamp" where
  "month_start now =
     (let day_us = seconds 86400; days = now div day_us
      in (days - (day_of_month days - 1)) * day_us)"

definition count_monthly :: "timestamp \<Rightarrow> uuid \<Rightarrow> JobStore \<Rightarrow> int" where
  "count_monthly now ws s =
     int (length (filter (\<lambda>job. job_workspace_id job = ws
         \<and> (case dget (created_at s) (job_id job) of None \<Rightarrow> now | Some t \<Rightarrow> t) \<ge> month_start now)
       (dvalues (jobs s))))"

section \<open>Leases\<close>

definition claim ::
  "timestamp \<Rightarrow> uuid \<Rightarrow> uuid \<Rightarrow> string \<Rightarrow> int \<Rightarrow> uuid \<Rightarrow> JobStore \<Rightarrow> (WorkerLease, JobStore) outcome" where
  "claim now ws jid owner lease_seconds token s =
     (if blank owner \<or> lease_seconds < 1 then (Inl (ValueError ''invalid worker lease''), s)
      else case dget (jobs s) jid of
             None \<Rightarrow> (Inl (KeyError ''research job not found''), s)
           | Some job \<Rightarrow>
               if job_workspace_id job \<noteq> ws then (Inl (KeyError ''research job not found''), s)
               else if (if job_status job = RUNNING
                        then (case dget (leases s) jid of None \<Rightarrow> True | Some (_, expires) \<Rightarrow> expires > now)
                        else job_status job \<noteq> QUEUED)
               then (Inl (RuntimeError ''research job is already claimed''), s)
               else if job_attempt_count job \<ge> job_max_attempts job
               then case ResearchJob_init (job\<lparr>job_status := FAILED,
                           job_error_code := Some ''max_attempts_exceeded''\<rparr>) of
                      Inl e \<Rightarrow> (Inl e, s)
                    | Inr failed \<Rightarrow>
                        (Inl (RuntimeError ''research job exhausted retry attempts''),
                         s\<lparr>jobs := dset jid failed (jobs s), leases := dpop jid (leases s)\<rparr>)
               else case ResearchJob_init (job\<lparr>job_status := RUNNING,
                           job_attempt_count := job_attempt_count job + 1, job_error_code := None\<rparr>) of
                      Inl e \<Rightarrow> (Inl e, s)
                    | Inr updated \<Rightarrow>
                        (Inr \<lparr>lease_job = updated, lease_token = token\<rparr>,
                         s\<lparr>jobs := dset jid updated (jobs s),
                           leases := dset jid (token, now + seconds lease_seconds) (leases s)\<rparr>))"

text \<open>\<open>renew\<close> reads the clock twice: once for the lease test, once for the new expiry.\<close>

definition renew ::
  "timestamp \<Rightarrow> timestamp \<Rightarrow> uuid \<Rightarrow> uuid \<Rightarrow> uuid \<Rightarrow> int \<Rightarrow> JobStore \<Rightarrow> (WorkerLease, JobStore) outcome" where
  "renew now1 now2 ws jid token lease_seconds s =
     (if lease_seconds < 1 then (Inl (ValueError ''invalid worker lease''), s)
      else if \<not> lease_valid now1 ws jid token s
      then (Inl (RuntimeError ''stale or invalid worker lease''), s)
      else case dget (jobs s) jid of
             None \<Rightarrow> (Inl (RuntimeError ''stale or invalid worker lease''), s)
           | Some job \<Rightarrow>
               (Inr \<lparr>lease_job = job, lease_token = token\<rparr>,
                s\<lparr>leases := dset jid (token, now2 + seconds lease_seconds) (leases s)\<rparr>))"

definition finish ::
  "uuid \<Rightarrow> uuid \<Rightarrow> uuid \<Rightarrow> ResearchJobStatus \<Rightarrow> string option \<Rightarrow> JobStore \<Rightarrow> (ResearchJob, JobStore) outcome" where
  "finish ws jid token target error_code s =
     (case dget (jobs s) jid of
        None \<Rightarrow> (Inl (KeyError ''research job not found''), s)
      | Some job \<Rightarrow>
          if job_workspace_id job \<noteq> ws then (Inl (KeyError ''research job not found''), s)
          else if job_status job \<noteq> RUNNING \<or> map_option fst (dget (leases s) jid) \<noteq> Some token
          then (Inl (RuntimeError ''stale or invalid worker lease''), s)
          else if target \<notin> {SUCCEEDED, FAILED} then (Inl (ValueError ''invalid terminal target''), s)
          else case ResearchJob_init (job\<lparr>job_status := target, job_error_code := error_code\<rparr>) of
                 Inl e \<Rightarrow> (Inl e, s)
               | Inr updated \<Rightarrow>
                   (Inr updated, s\<lparr>jobs := dset jid updated (jobs s), leases := dpop jid (leases s)\<rparr>))"

definition transition ::
  "uuid \<Rightarrow> uuid \<Rightarrow> ResearchJobStatus \<Rightarrow> ResearchJobStatus \<Rightarrow> JobStore \<Rightarrow> (ResearchJob, JobStore) outcome" where
  "transition ws jid expected target s =
     (case dget (jobs s) jid of
        None \<Rightarrow> (Inl (KeyError ''research job not found''), s)
      | Some job \<Rightarrow>
          if job_workspace_id job \<noteq> ws then (Inl (KeyError ''research job not found''), s)
          else if job_status job \<noteq> expected
          then (Inl (ValueError (''invalid job transition: '' @ ResearchJobStatus_value (job_status job)
                  @ '' -> '' @ ResearchJobStatus_value target @ ''; expected ''
                  @ ResearchJobStatus_value expected)), s)
          else case ResearchJob_init (job\<lparr>job_status := target\<rparr>) of
                 Inl e \<Rightarrow> (Inl e, s)
               | Inr updated \<Rightarrow> (Inr updated, s\<lparr>jobs := dset jid updated (jobs s)\<rparr>))"

section \<open>Operation sequences\<close>

datatype job_op =
    OpCreate timestamp ResearchJob
  | OpCreateIdempotent timestamp ResearchJob string string
  | OpClaim timestamp uuid string int uuid
  | OpRenew timestamp timestamp uuid uuid int
  | OpRecord timestamp uuid uuid ResearchResult
  | OpFinish uuid uuid ResearchJobStatus "string option"
  | OpTransition uuid ResearchJobStatus ResearchJobStatus

text \<open>One call on behalf of a workspace, keeping only its effect on the store.\<close>

fun job_exec :: "uuid \<Rightarrow> job_op \<Rightarrow> JobStore \<Rightarrow> JobStore" where
  "job_exec ws (OpCreate now job) s = snd (create now ws job s)"
| "job_exec ws (OpCreateIdempotent now job k f) s = snd (create_idempotent now ws job k f s)"
| "job_exec ws (OpClaim now jid owner secs token) s = snd (claim now ws jid owner secs token s)"
| "job_exec ws (OpRenew now1 now2 jid token secs) s = snd (renew now1 now2 ws jid token secs s)"
| "job_exec ws (OpRecord now jid token res) s = snd (record_result now ws jid token res s)"
| "job_exec ws (OpFinish jid token target err) s = snd (finish ws jid token target err s)"
| "job_exec ws (OpTransition jid expected target) s = snd (transition ws jid expected target s)"

text \<open>Every job handed to the store was built by the constructor.\<close>

fun op_wf :: "job_op \<Rightarrow> bool" where
  "op_wf (OpCreate _ job) = wf_job job"
| "op_wf (OpCreateIdempotent _ job _ _) = wf_job job"
| "op_wf _ = True"

inductive job_step_of :: "uuid \<Rightarrow> JobStore \<Rightarrow> JobStore \<Rightarrow> bool" where
  "op_wf opn \<Longrightarrow> job_step_of ws s (job_exec ws opn s)"

definition job_step :: "JobStore \<Rightarrow> JobStore \<Rightarrow> bool" where
  "job_step s t \<longleftrightarrow> (\<exists>ws. job_step_of ws s t)"

definition store_init :: "JobStore \<Rightarrow> bool" where
  "store_init s \<longleftrightarrow> s = empty_store"

lemmas job_op_defs = create_def create_idempotent_def claim_def renew_def record_result_def
  finish_def transition_def

section \<open>The effects of the operations\<close>

text \<open>
  Every call has one of five effects.  The invariant, the tenant frame and the monotonicity proofs
  are about these effects only.
\<close>

inductive job_effect :: "uuid \<Rightarrow> JobStore \<Rightarrow> JobStore \<Rightarrow> bool" where
  same: "job_effect ws s s"
| added: "dget (jobs s) (job_id j) = None \<Longrightarrow> wf_job j \<Longrightarrow> job_workspace_id j = ws
    \<Longrightarrow> idem = idempotency s
        \<or> (\<exists>k f. dget (idempotency s) (ws, k) = None \<and> idem = dset (ws, k) (f, j) (idempotency s))
    \<Longrightarrow> job_effect ws s (s\<lparr>jobs := dset (job_id j) j (jobs s),
          created_at := dset (job_id j) now (created_at s), idempotency := idem\<rparr>)"
| updated: "dget (jobs s) jid = Some j \<Longrightarrow> job_workspace_id j = ws \<Longrightarrow> job_identity j' = job_identity j
    \<Longrightarrow> wf_job j' \<Longrightarrow> job_attempt_count j \<le> job_attempt_count j'
    \<Longrightarrow> ls = leases s \<or> ls = dpop jid (leases s) \<or> (\<exists>l. ls = dset jid l (leases s))
    \<Longrightarrow> job_effect ws s (s\<lparr>jobs := dset jid j' (jobs s), leases := ls\<rparr>)"
| leased: "dget (jobs s) jid = Some j \<Longrightarrow> job_workspace_id j = ws
    \<Longrightarrow> job_effect ws s (s\<lparr>leases := dset jid l (leases s)\<rparr>)"
| stored: "dget (jobs s) jid = Some j \<Longrightarrow> job_workspace_id j = ws \<Longrightarrow> dget (results s) jid = None
    \<Longrightarrow> rec_workspace_id r = ws \<Longrightarrow> rec_research_run_id r = jid
    \<Longrightarrow> rec_source_sha256 r = job_source_sha256 j \<Longrightarrow> rec_plan_hash r = job_plan_hash j
    \<Longrightarrow> job_effect ws s (s\<lparr>results := dset jid r (results s)\<rparr>)"

definition inv_dicts :: "JobStore \<Rightarrow> bool" where
  "inv_dicts s \<longleftrightarrow> wf_dict (jobs s) \<and> wf_dict (leases s) \<and> wf_dict (idempotency s)
     \<and> wf_dict (results s) \<and> wf_dict (created_at s)"

definition inv_jobs :: "JobStore \<Rightarrow> bool" where
  "inv_jobs s \<longleftrightarrow> (\<forall>k j. dget (jobs s) k = Some j \<longrightarrow> job_id j = k \<and> wf_job j)"

definition inv_leases :: "JobStore \<Rightarrow> bool" where
  "inv_leases s \<longleftrightarrow> (\<forall>k. dget (leases s) k \<noteq> None \<longrightarrow> dget (jobs s) k \<noteq> None)"

definition inv_created :: "JobStore \<Rightarrow> bool" where
  "inv_created s \<longleftrightarrow> (\<forall>k. dget (created_at s) k = None \<longleftrightarrow> dget (jobs s) k = None)"

definition result_fits :: "ResearchRunResultRecord \<Rightarrow> ResearchJob \<Rightarrow> bool" where
  "result_fits r j \<longleftrightarrow> rec_workspace_id r = job_workspace_id j
     \<and> rec_source_sha256 r = job_source_sha256 j \<and> rec_plan_hash r = job_plan_hash j"

definition inv_results :: "JobStore \<Rightarrow> bool" where
  "inv_results s \<longleftrightarrow> (\<forall>k r. dget (results s) k = Some r \<longrightarrow> rec_research_run_id r = k \<and>
     (\<exists>j. dget (jobs s) k = Some j \<and> result_fits r j))"

definition inv_reservations :: "JobStore \<Rightarrow> bool" where
  "inv_reservations s \<longleftrightarrow>
     (\<forall>w k f j0. dget (idempotency s) (w, k) = Some (f, j0) \<longrightarrow> job_workspace_id j0 = w \<and>
       (\<exists>j. dget (jobs s) (job_id j0) = Some j \<and> job_identity j = job_identity j0))"

definition store_inv :: "JobStore \<Rightarrow> bool" where
  "store_inv s \<longleftrightarrow> inv_dicts s \<and> inv_jobs s \<and> inv_leases s \<and> inv_created s \<and> inv_results s
     \<and> inv_reservations s"

lemmas store_inv_parts = inv_dicts_def inv_jobs_def inv_leases_def inv_created_def inv_results_def
  inv_reservations_def

lemma store_inv_job: "store_inv s \<Longrightarrow> dget (jobs s) k = Some j \<Longrightarrow> job_id j = k \<and> wf_job j"
  by (simp add: store_inv_def inv_jobs_def)

lemma idempotency_self: "s\<lparr>jobs := a, created_at := b, idempotency := idempotency s\<rparr> = s\<lparr>jobs := a, created_at := b\<rparr>"
  for s :: JobStore
  by (cases s) simp

lemma create_effect: "wf_job job \<Longrightarrow> job_effect ws s (snd (create now ws job s))"
  using job_effect.added [of s job ws "idempotency s" now]
  by (auto simp: create_def idempotency_self intro: job_effect.same)

lemma create_idempotent_effect:
  assumes "wf_job job"
  shows "job_effect ws s (snd (create_idempotent now ws job k f s))"
proof (cases "job_workspace_id job = ws \<and> dget (idempotency s) (ws, k) = None
    \<and> dget (jobs s) (job_id job) = None")
  case True
  then show ?thesis
    using assms job_effect.added [of s job ws "dset (ws, k) (f, job) (idempotency s)" now]
    by (auto simp: create_idempotent_def)
next
  case False
  then have "snd (create_idempotent now ws job k f s) = s"
    by (auto simp: create_idempotent_def split: option.splits)
  then show ?thesis by (simp add: job_effect.same)
qed

lemma claim_effect:
  assumes "store_inv s"
  shows "job_effect ws s (snd (claim now ws jid owner secs token s))"
proof (cases "dget (jobs s) jid")
  case None
  then show ?thesis by (auto simp: claim_def intro: job_effect.same)
next
  case (Some j)
  have wf: "wf_job j" using store_inv_job [OF assms Some] by simp
  note replace = wf_job_replace [OF wf] wf_job_replace_status [OF wf]
  show ?thesis
  proof (cases "snd (claim now ws jid owner secs token s) = s")
    case True
    then show ?thesis by (simp add: job_effect.same)
  next
    case False
    then have ws: "job_workspace_id j = ws"
      by (auto simp: claim_def Some split: if_splits)
    show ?thesis
    proof (cases "job_attempt_count j \<ge> job_max_attempts j")
      case True
      let ?j = "j\<lparr>job_status := FAILED, job_error_code := Some ''max_attempts_exceeded''\<rparr>"
      have "wf_job ?j" using replace(2) by (simp add: wf_job_def)
      moreover have "snd (claim now ws jid owner secs token s)
          = s\<lparr>jobs := dset jid ?j (jobs s), leases := dpop jid (leases s)\<rparr>"
        using False True by (auto simp: claim_def Some replace split: if_splits)
      ultimately show ?thesis using Some ws by (auto intro: job_effect.updated)
    next
      case att: False
      let ?j = "j\<lparr>job_status := RUNNING, job_attempt_count := job_attempt_count j + 1, job_error_code := None\<rparr>"
      have init: "ResearchJob_init ?j = Inr ?j"
        using att wf_job_counts [OF wf] by (intro replace(1)) auto
      have "snd (claim now ws jid owner secs token s)
          = s\<lparr>jobs := dset jid ?j (jobs s), leases := dset jid (token, now + seconds secs) (leases s)\<rparr>"
        using False att by (auto simp: claim_def Some init split: if_splits)
      moreover have "wf_job ?j" using init by (simp add: wf_job_def)
      ultimately show ?thesis using Some ws
        by (auto intro!: job_effect.updated [where j = j])
    qed
  qed
qed

lemma lease_valid_iff:
  "lease_valid now ws jid token s \<longleftrightarrow>
     (\<exists>job expires. dget (jobs s) jid = Some job \<and> job_workspace_id job = ws \<and> job_status job = RUNNING
       \<and> dget (leases s) jid = Some (token, expires) \<and> now < expires)"
  by (auto simp: lease_valid_def split: option.splits prod.splits)

lemma renew_effect: "job_effect ws s (snd (renew now1 now2 ws jid token secs s))"
  by (auto simp: renew_def lease_valid_iff intro: job_effect.same job_effect.leased)

lemma record_result_effect:
  assumes "store_inv s"
  shows "job_effect ws s (snd (record_result now ws jid token res s))"
proof (cases "snd (record_result now ws jid token res s) = s")
  case True
  then show ?thesis by (simp add: job_effect.same)
next
  case False
  then obtain job cl r where
    job: "dget (jobs s) jid = Some job" "job_workspace_id job = ws"
    and src: "res_source_sha256 res = job_source_sha256 job"
    and built: "build_result_record ws jid res cl (job_plan_hash job) = Inr r"
    and none: "dget (results s) jid = None"
    and t: "snd (record_result now ws jid token res s) = s\<lparr>results := dset jid r (results s)\<rparr>"
    by (auto simp: record_result_def lease_valid_iff split: if_splits sum.splits option.splits)
  have "is_sha256 (job_source_sha256 job)"
    using store_inv_job [OF assms job(1)] by (simp add: wf_job_iff)
  then have "rec_source_sha256 r = job_source_sha256 job"
    using build_result_record_Inr(6) [OF built] src by simp
  with job none t build_result_record_Inr [OF built] show ?thesis
    by (auto intro: job_effect.stored)
qed

lemma finish_effect:
  assumes "store_inv s"
  shows "job_effect ws s (snd (finish ws jid token target err s))"
proof (cases "dget (jobs s) jid")
  case None
  then show ?thesis by (simp add: finish_def job_effect.same)
next
  case (Some j)
  have wf: "wf_job j" using store_inv_job [OF assms Some] by simp
  let ?j = "j\<lparr>job_status := target, job_error_code := err\<rparr>"
  have "wf_job ?j" using wf_job_replace_status(1) [OF wf] by (simp add: wf_job_def)
  with Some have "job_workspace_id j = ws \<Longrightarrow>
      job_effect ws s (s\<lparr>jobs := dset jid ?j (jobs s), leases := dpop jid (leases s)\<rparr>)"
    by (auto intro: job_effect.updated)
  with Some show ?thesis
    by (auto simp: finish_def wf_job_replace_status [OF wf] intro: job_effect.same)
qed

lemma leases_self: "s\<lparr>jobs := a, leases := leases s\<rparr> = s\<lparr>jobs := a\<rparr>" for s :: JobStore
  by (cases s) simp

lemma transition_effect:
  assumes "store_inv s"
  shows "job_effect ws s (snd (transition ws jid expected target s))"
proof (cases "dget (jobs s) jid")
  case None
  then show ?thesis by (simp add: transition_def job_effect.same)
next
  case (Some j)
  have wf: "wf_job j" using store_inv_job [OF assms Some] by simp
  let ?j = "j\<lparr>job_status := target\<rparr>"
  have "wf_job ?j" using wf_job_replace_status(2) [OF wf] by (simp add: wf_job_def)
  with Some have "job_workspace_id j = ws \<Longrightarrow> job_effect ws s (s\<lparr>jobs := dset jid ?j (jobs s)\<rparr>)"
    using job_effect.updated [of s jid j ws ?j "leases s"] by (auto simp: leases_self)
  with Some show ?thesis
    by (auto simp: transition_def wf_job_replace_status [OF wf] intro: job_effect.same)
qed

lemma job_exec_effect: "store_inv s \<Longrightarrow> op_wf opn \<Longrightarrow> job_effect ws s (job_exec ws opn s)"
  by (cases opn) (simp_all add: create_effect create_idempotent_effect claim_effect renew_effect
      record_result_effect finish_effect transition_effect)

lemma job_step_of_effect: "store_inv s \<Longrightarrow> job_step_of ws s t \<Longrightarrow> job_effect ws s t"
  by (auto simp: job_exec_effect elim: job_step_of.cases)

section \<open>Invariant, monotonicity, tenant isolation\<close>

lemma store_inv_empty: "store_inv empty_store"
  by (simp add: store_inv_def store_inv_parts empty_store_def)

lemma effect_dicts: "job_effect ws s t \<Longrightarrow> inv_dicts s \<Longrightarrow> inv_dicts t"
  by (induction rule: job_effect.induct) (auto simp: inv_dicts_def)

lemma effect_jobs: "job_effect ws s t \<Longrightarrow> inv_jobs s \<Longrightarrow> inv_jobs t"
  by (induction rule: job_effect.induct) (auto simp: inv_jobs_def dest: job_identity_fields(1))

lemma effect_leases: "job_effect ws s t \<Longrightarrow> inv_leases s \<Longrightarrow> inv_leases t"
  by (induction rule: job_effect.induct) (auto simp: inv_leases_def)

lemma effect_created: "job_effect ws s t \<Longrightarrow> inv_created s \<Longrightarrow> inv_created t"
  by (induction rule: job_effect.induct) (auto simp: inv_created_def)

lemma result_fits_identity: "job_identity j' = job_identity j \<Longrightarrow> result_fits r j' = result_fits r j"
  by (auto simp: result_fits_def dest: job_identity_fields)

lemma effect_results: "job_effect ws s t \<Longrightarrow> inv_results s \<Longrightarrow> inv_results t"
proof (induction rule: job_effect.induct)
  case (updated s jid j ws j' ls)
  have "\<exists>j''. dget (dset jid j' (jobs s)) k = Some j'' \<and> result_fits r j''"
    if "dget (results s) k = Some r" for k r
    using that updated(1,7) result_fits_identity [OF updated(3), of r]
    by (cases "k = jid") (force simp: inv_results_def)+
  with updated(7) show ?case by (simp add: inv_results_def)
next
  case (stored s jid j ws r)
  then show ?case by (simp add: inv_results_def result_fits_def)
next
  case (added s j ws idem now)
  have "dget (results s) (job_id j) = None"
    using added(1,5) unfolding inv_results_def by (metis not_Some_eq)
  with added(5) show ?case by (auto simp: inv_results_def)
qed (auto simp: inv_results_def)

lemma effect_reservations: "job_effect ws s t \<Longrightarrow> inv_reservations s \<Longrightarrow> inv_reservations t"
proof (induction rule: job_effect.induct)
  case (added s j ws idem now)
  have old: "job_workspace_id j0 = w \<and> job_id j0 \<noteq> job_id j
      \<and> (\<exists>j'. dget (jobs s) (job_id j0) = Some j' \<and> job_identity j' = job_identity j0)"
    if "dget (idempotency s) (w, k) = Some (f, j0)" for w k f j0
    using that added(1,5) unfolding inv_reservations_def by (metis option.distinct(1))
  from added(4) show ?case
  proof
    assume "idem = idempotency s"
    then show ?thesis using old by (auto simp: inv_reservations_def)
  next
    assume "\<exists>k f. dget (idempotency s) (ws, k) = None \<and> idem = dset (ws, k) (f, j) (idempotency s)"
    then obtain k f where idem: "idem = dset (ws, k) (f, j) (idempotency s)" by blast
    have "job_workspace_id j0 = w \<and> (\<exists>j'. dget (dset (job_id j) j (jobs s)) (job_id j0) = Some j'
        \<and> job_identity j' = job_identity j0)"
      if "dget idem (w, k') = Some (f', j0)" for w k' f' j0
      using that added(3) old [of w k' f' j0] by (cases "(w, k') = (ws, k)") (auto simp: idem)
    then show ?thesis by (simp add: inv_reservations_def)
  qed
next
  case (updated s jid j ws j' ls)
  have "job_workspace_id j0 = w \<and> (\<exists>j''. dget (dset jid j' (jobs s)) (job_id j0) = Some j''
      \<and> job_identity j'' = job_identity j0)"
    if "dget (idempotency s) (w, k) = Some (f, j0)" for w k f j0
    using that updated(1,3,7) by (cases "job_id j0 = jid") (force simp: inv_reservations_def)+
  then show ?case by (simp add: inv_reservations_def)
qed (auto simp: inv_reservations_def)

lemma job_effect_inv: "job_effect ws s t \<Longrightarrow> store_inv s \<Longrightarrow> store_inv t"
  unfolding store_inv_def
  by (auto intro: effect_dicts effect_jobs effect_leases effect_created effect_results effect_reservations)

text \<open>Jobs keep their identity and never lose attempts, results and reservations are permanent.\<close>

definition store_le :: "JobStore \<Rightarrow> JobStore \<Rightarrow> bool" where
  "store_le s t \<longleftrightarrow>
     (\<forall>k j. dget (jobs s) k = Some j \<longrightarrow> (\<exists>j'. dget (jobs t) k = Some j'
        \<and> job_identity j' = job_identity j \<and> job_attempt_count j \<le> job_attempt_count j'))
     \<and> (\<forall>k r. dget (results s) k = Some r \<longrightarrow> dget (results t) k = Some r)
     \<and> (\<forall>x e. dget (idempotency s) x = Some e \<longrightarrow> dget (idempotency t) x = Some e)
     \<and> (\<forall>k c. dget (created_at s) k = Some c \<longrightarrow> dget (created_at t) k = Some c)"

lemma store_le_refl: "store_le s s"
  by (simp add: store_le_def)

lemma store_le_trans: "store_le s t \<Longrightarrow> store_le t u \<Longrightarrow> store_le s u"
  unfolding store_le_def by (fastforce dest: order_trans)

lemma job_effect_le: "job_effect ws s t \<Longrightarrow> store_inv s \<Longrightarrow> store_le s t"
proof (induction rule: job_effect.induct)
  case (added s j ws idem now)
  then have "dget (created_at s) (job_id j) = None" by (simp add: store_inv_def inv_created_def)
  with added show ?case unfolding store_le_def by auto
qed (auto simp: store_le_def)

interpretation job_sys: monotone_system store_init job_step store_inv store_le
proof
  show "store_init s \<Longrightarrow> store_inv s" for s
    by (simp add: store_init_def store_inv_empty)
  show "store_inv s \<Longrightarrow> job_step s t \<Longrightarrow> store_inv t" for s t
    unfolding job_step_def by (blast intro: job_effect_inv job_step_of_effect)
  show "store_le s s" for s by (rule store_le_refl)
  show "store_le s t \<Longrightarrow> store_le t u \<Longrightarrow> store_le s u" for s t u by (rule store_le_trans)
  show "store_inv s \<Longrightarrow> job_step s t \<Longrightarrow> store_le s t" for s t
    unfolding job_step_def by (blast intro: job_effect_le job_step_of_effect)
qed

text \<open>
  Everything a tenant can observe: its jobs with their leases, results and creation times, and its
  idempotency reservations.
\<close>

definition job_view :: "uuid \<Rightarrow> JobStore \<Rightarrow> uuid
    \<Rightarrow> (ResearchJob \<times> (uuid \<times> timestamp) option \<times> ResearchRunResultRecord option \<times> timestamp option) option" where
  "job_view w s k =
     (case dget (jobs s) k of
        None \<Rightarrow> None
      | Some j \<Rightarrow> if job_workspace_id j = w
          then Some (j, dget (leases s) k, dget (results s) k, dget (created_at s) k) else None)"

definition tenant_view :: "uuid \<Rightarrow> JobStore \<Rightarrow>
  (uuid \<Rightarrow> (ResearchJob \<times> (uuid \<times> timestamp) option \<times> ResearchRunResultRecord option \<times> timestamp option) option)
    \<times> (string \<Rightarrow> (string \<times> ResearchJob) option)" where
  "tenant_view w s = (job_view w s, \<lambda>k. dget (idempotency s) (w, k))"

lemma job_effect_job_view:
  assumes "job_effect ws s t" and "w \<noteq> ws"
  shows "job_view w t k = job_view w s k"
  using assms
proof (induction rule: job_effect.induct)
  case (updated s jid j ws j' ls)
  have ws: "job_workspace_id j' = job_workspace_id j"
    by (rule job_identity_fields(2) [OF updated(3)])
  show ?case
  proof (cases "k = jid")
    case True
    with updated ws show ?thesis by (simp add: job_view_def)
  next
    case False
    with updated(6) have "dget ls k = dget (leases s) k" by auto
    with False show ?thesis by (simp add: job_view_def split: option.split)
  qed
qed (auto simp: job_view_def split: option.split)

lemma job_effect_view:
  assumes "job_effect ws s t" and "w \<noteq> ws"
  shows "tenant_view w t = tenant_view w s"
proof -
  have "dget (idempotency t) (w, k) = dget (idempotency s) (w, k)" for k
    using assms by (induction rule: job_effect.induct) auto
  then show ?thesis using job_effect_job_view [OF assms] by (auto simp: tenant_view_def)
qed

interpretation job_tenants: tenant_scoped store_inv job_step_of tenant_view
  by unfold_locales (blast intro: job_effect_inv job_effect_view job_step_of_effect)+

section \<open>Idempotent creation as an exactly-once reservation\<close>

type_synonym create_request = "timestamp \<times> ResearchJob \<times> string \<times> string"

fun serve_create :: "JobStore \<Rightarrow> create_request \<Rightarrow> (ResearchJob \<times> bool, JobStore) outcome" where
  "serve_create s (now, job, k, f) = create_idempotent now (job_workspace_id job) job k f s"

fun create_key :: "create_request \<Rightarrow> uuid \<times> string" where
  "create_key (now, job, k, f) = (job_workspace_id job, k)"

fun create_print :: "create_request \<Rightarrow> string" where
  "create_print (now, job, k, f) = f"

interpretation job_idem: exactly_once "\<lambda>s k. map_option fst (dget (idempotency s) k)"
  create_key create_print serve_create "\<lambda>s k. map_option snd (dget (idempotency s) k)" "\<lambda>j. (j, True)"
proof
  fix s t :: JobStore and r :: create_request and v
  assume "serve_create s r = (Inr v, t)"
  then show "(\<lambda>k. map_option fst (dget (idempotency t) k))
        = (\<lambda>k. map_option fst (dget (idempotency s) k))(create_key r \<mapsto> create_print r)
      \<and> map_option fst (dget (idempotency s) (create_key r)) \<in> {None, Some (create_print r)}"
    by (cases r) (auto simp: create_idempotent_def split: option.splits if_splits)
next
  fix s t :: JobStore and r :: create_request and e
  assume "serve_create s r = (Inl e, t)"
  then show "t = s"
    by (cases r) (auto simp: create_idempotent_def split: option.splits if_splits)
next
  fix s :: JobStore and r :: create_request and v
  assume "map_option fst (dget (idempotency s) (create_key r)) = Some (create_print r)"
    and "map_option snd (dget (idempotency s) (create_key r)) = Some v"
  then show "serve_create s r = (Inr (v, True), s)"
    by (cases r) (auto simp: create_idempotent_def)
next
  fix s :: JobStore and r :: create_request and k v
  assume "map_option snd (dget (idempotency s) k) = Some v"
  then show "map_option snd (dget (idempotency (snd (serve_create s r))) k) = Some v"
    by (cases r) (auto simp: create_idempotent_def split: option.splits if_splits)
qed auto

end
