(* ===== verification/Job_Leases.thy ===== *)
theory Job_Leases
  imports Job_Store
begin

text \<open>
  What the leases of the job store guarantee: a lease in force excludes every other worker, a
  superseded token is refused for ever, the number of won claims is bounded by \<open>max_attempts\<close>, and
  the status of a job follows an abstract life cycle with terminal states.
\<close>

section \<open>Leases: exclusion, fencing, bounded retries\<close>

text \<open>The three ways a \<open>claim\<close> can end.\<close>

lemma claim_cases:
  assumes "store_inv s"
  obtains (refused) "\<exists>e. claim now ws jid owner secs token s = (Inl e, s)"
  | (exhausted) j where "dget (jobs s) jid = Some j" "job_workspace_id j = ws"
      "job_status j \<in> {QUEUED, RUNNING}" "job_attempt_count j = job_max_attempts j"
      "claim now ws jid owner secs token s =
        (Inl (RuntimeError ''research job exhausted retry attempts''),
         s\<lparr>jobs := dset jid (j\<lparr>job_status := FAILED, job_error_code := Some ''max_attempts_exceeded''\<rparr>) (jobs s),
           leases := dpop jid (leases s)\<rparr>)"
      "job_status j = RUNNING \<Longrightarrow> \<exists>tok expires. dget (leases s) jid = Some (tok, expires) \<and> expires \<le> now"
  | (won) j where "dget (jobs s) jid = Some j" "job_workspace_id j = ws"
      "job_status j \<in> {QUEUED, RUNNING}" "job_attempt_count j < job_max_attempts j"
      "claim now ws jid owner secs token s =
        (Inr \<lparr>lease_job = j\<lparr>job_status := RUNNING, job_attempt_count := job_attempt_count j + 1, job_error_code := None\<rparr>,
              lease_token = token\<rparr>,
         s\<lparr>jobs := dset jid (j\<lparr>job_status := RUNNING, job_attempt_count := job_attempt_count j + 1, job_error_code := None\<rparr>) (jobs s),
           leases := dset jid (token, now + seconds secs) (leases s)\<rparr>)"
      "job_status j = RUNNING \<Longrightarrow> \<exists>tok expires. dget (leases s) jid = Some (tok, expires) \<and> expires \<le> now"
proof (cases "dget (jobs s) jid")
  case None
  then show ?thesis by (intro refused) (auto simp: claim_def)
next
  case (Some j)
  have wf: "wf_job j" using store_inv_job [OF assms Some] by simp
  note counts = wf_job_counts [OF wf]
  let ?busy = "if job_status j = RUNNING
    then (case dget (leases s) jid of None \<Rightarrow> True | Some (_, expires) \<Rightarrow> expires > now)
    else job_status j \<noteq> QUEUED"
  show ?thesis
  proof (cases "blank owner \<or> secs < 1 \<or> job_workspace_id j \<noteq> ws \<or> ?busy")
    case True
    then show ?thesis by (intro refused) (auto simp: claim_def Some)
  next
    case ok: False
    then have free: "job_status j \<in> {QUEUED, RUNNING}"
      and exp: "job_status j = RUNNING \<Longrightarrow> \<exists>tok expires. dget (leases s) jid = Some (tok, expires) \<and> expires \<le> now"
      by (auto split: if_splits option.splits)
    show ?thesis
    proof (cases "job_attempt_count j \<ge> job_max_attempts j")
      case True
      then show ?thesis
        using ok free exp Some counts wf_job_replace_status [OF wf]
        by (intro exhausted [of j]) (auto simp: claim_def)
    next
      case False
      then show ?thesis
        using ok free exp Some counts wf_job_replace [OF wf, where n = "job_attempt_count j + 1" and st = RUNNING and err = None]
        by (intro won [of j]) (auto simp: claim_def)
    qed
  qed
qed

section \<open>Frames\<close>

text \<open>The job an operation acts on; creations act on none that exists.\<close>

fun op_job :: "job_op \<Rightarrow> uuid option" where
  "op_job (OpCreate _ _) = None"
| "op_job (OpCreateIdempotent _ _ _ _) = None"
| "op_job (OpClaim _ k _ _ _) = Some k"
| "op_job (OpRenew _ _ k _ _) = Some k"
| "op_job (OpRecord _ k _ _) = Some k"
| "op_job (OpFinish k _ _ _) = Some k"
| "op_job (OpTransition k _ _) = Some k"

lemma create_frame:
  "leases (snd (create now ws job s)) = leases s"
  "dget (jobs s) k = Some j \<Longrightarrow> dget (jobs (snd (create now ws job s))) k = Some j"
  by (auto simp: create_def)

lemma create_idempotent_frame:
  "leases (snd (create_idempotent now ws job key f s)) = leases s"
  "dget (jobs s) k = Some j \<Longrightarrow> dget (jobs (snd (create_idempotent now ws job key f s))) k = Some j"
  by (auto simp: create_idempotent_def split: option.split)

lemma record_result_frame:
  "leases (snd (record_result now ws jid token res s)) = leases s"
  "jobs (snd (record_result now ws jid token res s)) = jobs s"
  by (simp_all add: record_result_def split: option.split sum.split)

lemma transition_frame:
  "leases (snd (transition ws jid expected target s)) = leases s"
  "k \<noteq> jid \<Longrightarrow> dget (jobs (snd (transition ws jid expected target s))) k = dget (jobs s) k"
  by (simp_all add: transition_def split: option.split sum.split)

lemma renew_frame:
  "k \<noteq> jid \<Longrightarrow> dget (leases (snd (renew now1 now2 ws jid token secs s))) k = dget (leases s) k"
  "jobs (snd (renew now1 now2 ws jid token secs s)) = jobs s"
  by (simp_all add: renew_def split: option.split)

lemma finish_frame:
  "k \<noteq> jid \<Longrightarrow> dget (leases (snd (finish ws jid token target err s))) k = dget (leases s) k"
  "k \<noteq> jid \<Longrightarrow> dget (jobs (snd (finish ws jid token target err s))) k = dget (jobs s) k"
  by (simp_all add: finish_def split: option.split sum.split)

lemma claim_frame:
  "k \<noteq> jid \<Longrightarrow> dget (leases (snd (claim now ws jid owner secs token s))) k = dget (leases s) k"
  "k \<noteq> jid \<Longrightarrow> dget (jobs (snd (claim now ws jid owner secs token s))) k = dget (jobs s) k"
  by (simp_all add: claim_def split: option.split sum.split)

lemmas op_frames = create_frame create_idempotent_frame record_result_frame transition_frame
  renew_frame finish_frame claim_frame

lemma job_exec_frame:
  assumes "op_job opn \<noteq> Some k" and "dget (jobs s) k = Some j"
  shows "dget (jobs (job_exec ws opn s)) k = Some j"
    and "dget (leases (job_exec ws opn s)) k = dget (leases s) k"
  using assms by (cases opn; simp add: op_frames)+

definition run_ops :: "(uuid \<times> job_op) list \<Rightarrow> JobStore \<Rightarrow> JobStore" where
  "run_ops ops s = fold (\<lambda>(ws, opn). job_exec ws opn) ops s"

lemma run_ops_simps [simp]:
  "run_ops [] s = s"
  "run_ops ((ws, opn) # ops) s = run_ops ops (job_exec ws opn s)"
  by (simp_all add: run_ops_def)

lemma run_ops_inv:
  assumes "store_inv s" and "\<forall>(ws, opn) \<in> set ops. op_wf opn"
  shows "store_inv (run_ops ops s)"
  using assms
proof (induction ops arbitrary: s)
  case (Cons x ops)
  obtain ws opn where x: "x = (ws, opn)" by (cases x)
  have "store_inv (job_exec ws opn s)"
    using Cons.prems x by (intro job_effect_inv [OF job_exec_effect]) auto
  then show ?case using Cons.IH Cons.prems x by simp
qed simp

section \<open>Exclusion\<close>

text \<open>
  The holder of a lease: the token and expiry are in force for a running job.  A call is foreign to
  the holder when it does not present the token for that job, does not force a transition of it, and,
  if it is a claim, happens before the expiry.
\<close>

definition holds_lease :: "uuid \<Rightarrow> uuid \<Rightarrow> timestamp \<Rightarrow> ResearchJob \<Rightarrow> JobStore \<Rightarrow> bool" where
  "holds_lease jid token expires job s \<longleftrightarrow>
     dget (leases s) jid = Some (token, expires) \<and> dget (jobs s) jid = Some job \<and> job_status job = RUNNING"

fun foreign_op :: "uuid \<Rightarrow> uuid \<Rightarrow> timestamp \<Rightarrow> job_op \<Rightarrow> bool" where
  "foreign_op jid token expires (OpClaim now k _ _ _) = (k = jid \<longrightarrow> now < expires)"
| "foreign_op jid token expires (OpRenew _ _ k tok _) = (k = jid \<longrightarrow> tok \<noteq> token)"
| "foreign_op jid token expires (OpFinish k tok _ _) = (k = jid \<longrightarrow> tok \<noteq> token)"
| "foreign_op jid token expires (OpTransition k _ _) = (k \<noteq> jid)"
| "foreign_op jid token expires _ = True"

lemma holds_lease_claim:
  assumes "holds_lease jid token expires job s" and "now < expires"
  shows "snd (claim now ws jid owner secs tok s) = s \<and> \<not> is_ok (fst (claim now ws jid owner secs tok s))"
  using assms by (simp add: holds_lease_def claim_def)

lemma holds_lease_renew:
  assumes "holds_lease jid token expires job s" and "tok \<noteq> token"
  shows "snd (renew now1 now2 ws jid tok secs s) = s"
  using assms by (simp add: holds_lease_def renew_def lease_valid_iff)

lemma holds_lease_finish:
  assumes "holds_lease jid token expires job s" and "tok \<noteq> token"
  shows "snd (finish ws jid tok target err s) = s"
  using assms by (simp add: holds_lease_def finish_def)

lemma holds_lease_record:
  "holds_lease jid token expires job (snd (record_result now ws k tok res s))
    = holds_lease jid token expires job s"
  by (simp add: holds_lease_def record_result_frame)

lemma holds_lease_step:
  assumes "holds_lease jid token expires job s" and "foreign_op jid token expires opn"
  shows "holds_lease jid token expires job (job_exec ws opn s)"
proof (cases "op_job opn = Some jid")
  case True
  then show ?thesis using assms
    by (cases opn) (simp_all add: holds_lease_claim holds_lease_renew holds_lease_finish holds_lease_record)
next
  case False
  then show ?thesis using assms job_exec_frame [OF False, of s job ws] by (simp add: holds_lease_def)
qed

lemma run_ops_holds:
  assumes "holds_lease jid token expires job s"
    and "\<forall>(ws, opn) \<in> set ops. foreign_op jid token expires opn"
  shows "holds_lease jid token expires job (run_ops ops s)"
  using assms
proof (induction ops arbitrary: s)
  case (Cons x ops)
  obtain ws opn where x: "x = (ws, opn)" by (cases x)
  have "holds_lease jid token expires job (job_exec ws opn s)"
    using Cons.prems x by (intro holds_lease_step) auto
  then show ?case using Cons.IH Cons.prems x by simp
qed simp

section \<open>Fencing\<close>

text \<open>A token that is not the one in force stays without effect until a claim draws it again.\<close>

definition token_dead :: "uuid \<Rightarrow> uuid \<Rightarrow> JobStore \<Rightarrow> bool" where
  "token_dead jid token s \<longleftrightarrow> map_option fst (dget (leases s) jid) \<noteq> Some token"

fun redraws :: "uuid \<Rightarrow> uuid \<Rightarrow> job_op \<Rightarrow> bool" where
  "redraws jid token (OpClaim _ k _ _ tok) = (k = jid \<and> tok = token)"
| "redraws jid token _ = False"

text \<open>What \<open>claim\<close>, \<open>renew\<close> and \<open>finish\<close> can do to the lease table.\<close>

lemma claim_leases:
  "leases (snd (claim now ws k owner secs tok s)) = leases s
   \<or> leases (snd (claim now ws k owner secs tok s)) = dpop k (leases s)
   \<or> leases (snd (claim now ws k owner secs tok s)) = dset k (tok, now + seconds secs) (leases s)"
  by (simp add: claim_def split: option.split sum.split)

lemma renew_leases:
  "leases (snd (renew now1 now2 ws k tok secs s)) = leases s
   \<or> (map_option fst (dget (leases s) k) = Some tok
      \<and> leases (snd (renew now1 now2 ws k tok secs s)) = dset k (tok, now2 + seconds secs) (leases s))"
  by (auto simp: renew_def lease_valid_iff)

lemma finish_leases:
  "leases (snd (finish ws k tok target err s)) = leases s
   \<or> leases (snd (finish ws k tok target err s)) = dpop k (leases s)"
  by (simp add: finish_def split: option.split sum.split)

lemma token_dead_claim:
  assumes "token_dead jid token s" and "\<not> (k = jid \<and> tok = token)"
  shows "token_dead jid token (snd (claim now ws k owner secs tok s))"
  using assms claim_leases [of now ws k owner secs tok s] by (elim disjE) (auto simp: token_dead_def)

lemma token_dead_renew:
  assumes "token_dead jid token s"
  shows "token_dead jid token (snd (renew now1 now2 ws k tok secs s))"
  using assms renew_leases [of now1 now2 ws k tok secs s]
  by (elim disjE conjE) (auto simp: token_dead_def split: if_splits)

lemma token_dead_finish:
  assumes "token_dead jid token s"
  shows "token_dead jid token (snd (finish ws k tok target err s))"
  using assms finish_leases [of ws k tok target err s] by (elim disjE) (auto simp: token_dead_def)

lemma token_dead_leases: "leases t = leases s \<Longrightarrow> token_dead jid token t = token_dead jid token s"
  by (simp add: token_dead_def)

lemma token_dead_step:
  assumes "token_dead jid token s" and "\<not> redraws jid token opn"
  shows "token_dead jid token (job_exec ws opn s)"
  using assms
  by (cases opn) (simp_all add: token_dead_claim token_dead_renew token_dead_finish
      token_dead_leases [OF create_frame(1)] token_dead_leases [OF create_idempotent_frame(1)]
      token_dead_leases [OF record_result_frame(1)] token_dead_leases [OF transition_frame(1)])

lemma run_ops_dead:
  assumes "token_dead jid token s" and "\<forall>(ws, opn) \<in> set ops. \<not> redraws jid token opn"
  shows "token_dead jid token (run_ops ops s)"
  using assms
proof (induction ops arbitrary: s)
  case (Cons x ops)
  obtain ws opn where x: "x = (ws, opn)" by (cases x)
  have "token_dead jid token (job_exec ws opn s)"
    using Cons.prems x by (intro token_dead_step) auto
  then show ?case using Cons.IH Cons.prems x by simp
qed simp

lemma token_dead_refused:
  assumes "token_dead jid token s"
  shows "\<exists>e. renew now1 now2 ws jid token secs s = (Inl e, s)"
    and "\<exists>e. record_result now1 ws jid token res s = (Inl e, s)"
    and "\<exists>e. finish ws jid token target err s = (Inl e, s)"
  using assms by (auto simp: token_dead_def renew_def record_result_def finish_def lease_valid_iff
      split: option.splits)

lemma claim_supersedes:
  assumes "claim now ws jid owner secs tok s = (Inr l, t)" and "tok \<noteq> token"
  shows "token_dead jid token t"
  using assms by (auto simp: claim_def token_dead_def split: option.splits if_splits sum.splits)

lemma finish_retires:
  assumes "finish ws jid tok target err s = (Inr j, t)"
  shows "token_dead jid token t"
  using assms by (auto simp: finish_def token_dead_def split: option.splits if_splits sum.splits)

section \<open>The life cycle of a job\<close>

text \<open>
  The abstract life cycle: a job starts or restarts while attempts are left, is failed when they are
  used up, and ends from \<open>RUNNING\<close>.  The state is the status with the attempt count.
\<close>

inductive life :: "int \<Rightarrow> ResearchJobStatus \<times> int \<Rightarrow> ResearchJobStatus \<times> int \<Rightarrow> bool" for max_n where
  start: "st \<in> {QUEUED, RUNNING} \<Longrightarrow> n < max_n \<Longrightarrow> life max_n (st, n) (RUNNING, n + 1)"
| exhaust: "st \<in> {QUEUED, RUNNING} \<Longrightarrow> life max_n (st, max_n) (FAILED, max_n)"
| finish: "st \<in> {SUCCEEDED, FAILED} \<Longrightarrow> life max_n (RUNNING, n) (st, n)"

inductive_cases lifeE [elim!]: "life max_n (st, n) p"

definition terminal_status :: "ResearchJobStatus \<Rightarrow> bool" where
  "terminal_status st \<longleftrightarrow> st \<in> {SUCCEEDED, FAILED, CANCELLED}"

definition job_phase :: "ResearchJob \<Rightarrow> ResearchJobStatus \<times> int" where
  "job_phase j = (job_status j, job_attempt_count j)"

text \<open>The number of won claims of a job along a run.\<close>

fun wins :: "uuid \<Rightarrow> uuid \<Rightarrow> job_op \<Rightarrow> JobStore \<Rightarrow> nat" where
  "wins jid ws (OpClaim now k owner secs tok) s =
     (if k = jid \<and> is_ok (fst (claim now ws k owner secs tok s)) then 1 else 0)"
| "wins jid ws _ s = 0"

fun claims_won :: "uuid \<Rightarrow> (uuid \<times> job_op) list \<Rightarrow> JobStore \<Rightarrow> nat" where
  "claims_won jid [] s = 0"
| "claims_won jid ((ws, opn) # ops) s = wins jid ws opn s + claims_won jid ops (job_exec ws opn s)"

lemma finish_cases:
  assumes "store_inv s"
  obtains (refused) "snd (finish ws jid token target err s) = s" 
  | (ended) j where "dget (jobs s) jid = Some j" "job_workspace_id j = ws" "job_status j = RUNNING"
      "map_option fst (dget (leases s) jid) = Some token" "target \<in> {SUCCEEDED, FAILED}"
      "finish ws jid token target err s = (Inr (j\<lparr>job_status := target, job_error_code := err\<rparr>),
        s\<lparr>jobs := dset jid (j\<lparr>job_status := target, job_error_code := err\<rparr>) (jobs s),
          leases := dpop jid (leases s)\<rparr>)"
proof (cases "dget (jobs s) jid")
  case None
  then show ?thesis by (intro refused) (simp add: finish_def)
next
  case (Some j)
  have wf: "wf_job j" using store_inv_job [OF assms Some] by simp
  show ?thesis
  proof (cases "job_workspace_id j = ws \<and> job_status j = RUNNING
      \<and> map_option fst (dget (leases s) jid) = Some token \<and> target \<in> {SUCCEEDED, FAILED}")
    case True
    then show ?thesis
      by (intro ended [OF Some]) (simp_all add: finish_def Some wf_job_replace_status(1) [OF wf])
  next
    case False
    then have "snd (finish ws jid token target err s) = s"
      by (auto simp: finish_def Some)
    then show ?thesis by (rule refused)
  qed
qed

lemma transition_attempts:
  assumes "store_inv s" and "dget (jobs s) jid = Some j"
  obtains j' where "dget (jobs (snd (transition ws jid expected target s))) jid = Some j'"
    "job_identity j' = job_identity j" "job_attempt_count j' = job_attempt_count j"
proof -
  have wf: "wf_job j" using store_inv_job [OF assms] by simp
  have "\<exists>j'. dget (jobs (snd (transition ws jid expected target s))) jid = Some j'
      \<and> job_identity j' = job_identity j \<and> job_attempt_count j' = job_attempt_count j"
    by (simp add: transition_def assms(2) wf_job_replace_status(2) [OF wf])
  with that show thesis by blast
qed

text \<open>One operation: the attempt count grows by the claims won.\<close>

lemma wins_frame: "op_job opn \<noteq> Some jid \<Longrightarrow> wins jid ws opn s = 0"
  by (cases opn) auto

lemma claim_wins:
  assumes inv: "store_inv s" and j: "dget (jobs s) jid = Some j"
  obtains j' where "dget (jobs (snd (claim now ws jid owner secs tok s))) jid = Some j'"
    "job_identity j' = job_identity j"
    "job_attempt_count j' = job_attempt_count j
        + (if is_ok (fst (claim now ws jid owner secs tok s)) then 1 else 0)"
    "job_phase j' = job_phase j \<or> life (job_max_attempts j) (job_phase j) (job_phase j')"
  using inv
proof (cases rule: claim_cases [where now = now and ws = ws and jid = jid and owner = owner
      and secs = secs and token = tok])
  case refused
  then show ?thesis using j by (intro that [of j]) auto
next
  case (exhausted j2)
  then show ?thesis using j
    by (intro that [of "j\<lparr>job_status := FAILED, job_error_code := Some ''max_attempts_exceeded''\<rparr>"])
      (auto simp: job_phase_def intro: life.exhaust)
next
  case (won j2)
  then show ?thesis using j
    by (intro that [of "j\<lparr>job_status := RUNNING, job_attempt_count := job_attempt_count j + 1, job_error_code := None\<rparr>"])
      (auto simp: job_phase_def intro: life.start)
qed

lemma job_exec_wins:
  assumes inv: "store_inv s" and j: "dget (jobs s) jid = Some j"
  obtains j' where "dget (jobs (job_exec ws opn s)) jid = Some j'" "job_identity j' = job_identity j"
    "job_attempt_count j' = job_attempt_count j + int (wins jid ws opn s)"
    "(\<forall>e t. opn \<noteq> OpTransition jid e t) \<Longrightarrow>
       job_phase j' = job_phase j \<or> life (job_max_attempts j) (job_phase j) (job_phase j')"
proof (cases "op_job opn = Some jid")
  case False
  then show ?thesis using job_exec_frame(1) [OF False j] by (intro that [of j]) (simp_all add: wins_frame)
next
  case True
  then show ?thesis
  proof (cases opn)
    case (OpClaim now k owner secs tok)
    then have k: "opn = OpClaim now jid owner secs tok" using True by simp
    from claim_wins [OF inv j, of now ws owner secs tok] obtain j' where
      "dget (jobs (snd (claim now ws jid owner secs tok s))) jid = Some j'"
      "job_identity j' = job_identity j"
      "job_attempt_count j' = job_attempt_count j
        + (if is_ok (fst (claim now ws jid owner secs tok s)) then 1 else 0)"
      "job_phase j' = job_phase j \<or> life (job_max_attempts j) (job_phase j) (job_phase j')" by blast
    then show ?thesis using k by (intro that [of j']) simp_all
  next
    case (OpFinish k tok target err)
    with True have k: "k = jid" by simp
    from inv show ?thesis
    proof (cases rule: finish_cases [where ws = ws and jid = jid and token = tok and target = target and err = err])
      case refused
      then show ?thesis using OpFinish k j by (intro that [of j]) simp_all
    next
      case (ended j2)
      then show ?thesis using OpFinish k j
        by (intro that [of "j\<lparr>job_status := target, job_error_code := err\<rparr>"])
          (auto simp: job_phase_def intro: life.finish)
    qed
  next
    case (OpTransition k e t)
    then have k: "opn = OpTransition jid e t" using True by simp
    from transition_attempts [OF inv j, of ws e t] obtain j' where
      "dget (jobs (snd (transition ws jid e t s))) jid = Some j'"
      "job_identity j' = job_identity j" "job_attempt_count j' = job_attempt_count j" by blast
    then show ?thesis using k by (intro that [of j']) simp_all
  qed (use True j in \<open>auto intro: that simp: renew_frame record_result_frame\<close>)
qed


text \<open>A run of operations: bounded retries, and refinement of the life cycle.\<close>

lemma run_ops_wins:
  assumes "store_inv s" and "\<forall>(ws, opn) \<in> set ops. op_wf opn" and "dget (jobs s) jid = Some j"
  shows "\<exists>j'. dget (jobs (run_ops ops s)) jid = Some j' \<and> job_identity j' = job_identity j
    \<and> job_attempt_count j' = job_attempt_count j + int (claims_won jid ops s)"
  using assms
proof (induction ops arbitrary: s j)
  case (Cons x ops)
  obtain ws opn where x: "x = (ws, opn)" by (cases x)
  have inv: "store_inv (job_exec ws opn s)"
    using Cons.prems x by (intro job_effect_inv [OF job_exec_effect]) auto
  from job_exec_wins [OF Cons.prems(1,3), of ws opn] obtain j1 where
    j1: "dget (jobs (job_exec ws opn s)) jid = Some j1" "job_identity j1 = job_identity j"
    "job_attempt_count j1 = job_attempt_count j + int (wins jid ws opn s)" by metis
  from Cons.IH [OF inv _ j1(1)] Cons.prems(2) x show ?case using j1(2,3) by auto
qed simp

lemma run_ops_life:
  assumes "store_inv s" and "\<forall>(ws, opn) \<in> set ops. op_wf opn \<and> (\<forall>e t. opn \<noteq> OpTransition jid e t)"
    and "dget (jobs s) jid = Some j"
  shows "\<exists>j'. dget (jobs (run_ops ops s)) jid = Some j' \<and> job_identity j' = job_identity j
    \<and> (life (job_max_attempts j))\<^sup>*\<^sup>* (job_phase j) (job_phase j')"
  using assms
proof (induction ops arbitrary: s j)
  case (Cons x ops)
  obtain ws opn where x: "x = (ws, opn)" by (cases x)
  have inv: "store_inv (job_exec ws opn s)"
    using Cons.prems x by (intro job_effect_inv [OF job_exec_effect]) auto
  have noT: "\<forall>e t. opn \<noteq> OpTransition jid e t" using Cons.prems(2) x by auto
  from job_exec_wins [OF Cons.prems(1,3), of ws opn] noT obtain j1 where
    j1: "dget (jobs (job_exec ws opn s)) jid = Some j1" "job_identity j1 = job_identity j"
    "job_phase j1 = job_phase j \<or> life (job_max_attempts j) (job_phase j) (job_phase j1)" by metis
  have max_eq: "job_max_attempts j1 = job_max_attempts j" by (rule job_identity_fields(5) [OF j1(2)])
  from Cons.IH [OF inv _ j1(1)] Cons.prems(2) x obtain j' where
    j': "dget (jobs (run_ops ops (job_exec ws opn s))) jid = Some j'" "job_identity j' = job_identity j1"
    "(life (job_max_attempts j))\<^sup>*\<^sup>* (job_phase j1) (job_phase j')" by (auto simp: max_eq)
  then have "(life (job_max_attempts j))\<^sup>*\<^sup>* (job_phase j) (job_phase j')"
    using j1(3) by (auto intro: converse_rtranclp_into_rtranclp)
  with j' j1(2) x show ?case by auto
qed simp

lemma life_terminal:
  assumes "(life max_n)\<^sup>*\<^sup>* (st, n) p" and "terminal_status st"
  shows "p = (st, n)"
  using assms by (induction rule: rtranclp_induct) (auto simp: terminal_status_def)

text \<open>Every life step moves this measure down, so a job has at most \<open>max_attempts + 1\<close> of them left.\<close>

fun life_left :: "int \<Rightarrow> ResearchJobStatus \<times> int \<Rightarrow> nat" where
  "life_left max_n (st, n) = nat (max_n - n) + (if terminal_status st then 0 else 1)"

lemma life_decreases: "life max_n p q \<Longrightarrow> life_left max_n q < life_left max_n p"
  by (cases rule: life.cases) (auto simp: terminal_status_def)

lemma life_steps_bounded: "(life max_n ^^ k) p q \<Longrightarrow> k + life_left max_n q \<le> life_left max_n p"
proof (induction k arbitrary: q)
  case (Suc k)
  then obtain r where r: "(life max_n ^^ k) p r" "life max_n r q" by (meson relpowp_Suc_E)
  from Suc.IH [OF r(1)] life_decreases [OF r(2)] show ?case by linarith
qed simp

end
