(* ===== verification/Python_UUID.thy ===== *)
theory Python_UUID
  imports Python_Stdlib
begin

text \<open>
  \<open>uuid.UUID\<close>: the hexadecimal attribute, the hyphenated text and the fact that parsing inverts
  printing.  The services print identifiers into queue payloads, dictionary keys and digests and read
  them back.
\<close>

fun hex_fixed :: "nat \<Rightarrow> nat \<Rightarrow> string" where
  "hex_fixed 0 n = []"
| "hex_fixed (Suc k) n = hex_fixed k (n div 16) @ [hex_digits ! (n mod 16)]"

text \<open>\<open>UUID.hex\<close> and \<open>str(UUID)\<close>.\<close>

definition uuid_hex :: "uuid \<Rightarrow> string" where
  "uuid_hex u = hex_fixed 32 u"

definition uuid_str :: "uuid \<Rightarrow> string" where
  "uuid_str u =
     (let h = uuid_hex u
      in take 8 h @ ''-'' @ take 4 (drop 8 h) @ ''-'' @ take 4 (drop 12 h) @ ''-''
         @ take 4 (drop 16 h) @ ''-'' @ drop 20 h)"

definition valid_uuid :: "uuid \<Rightarrow> bool" where
  "valid_uuid u \<longleftrightarrow> u < 2 ^ 128"

lemma hex_fixed_length [simp]: "length (hex_fixed k n) = k"
  by (induction k arbitrary: n) simp_all

lemma hex_nth: "n < 16 \<Longrightarrow> hex_digits ! n \<in> set hex_digits"
  by (rule nth_mem) (simp add: hex_digits_def)

lemma hex_fixed_digits: "set (hex_fixed k n) \<subseteq> set hex_digits"
  by (induction k arbitrary: n) (auto intro: hex_nth)

lemma hex_value_nth:
  assumes "n < 16"
  shows "hex_value (hex_digits ! n) = Some n"
proof -
  have "\<forall>n \<in> set [0..<16]. hex_value (hex_digits ! n) = Some n" by code_simp
  then show ?thesis using assms by simp
qed

lemma hex_digits_special:
  assumes "c \<in> set hex_digits"
  shows "c \<noteq> CHR ''_''" "c \<noteq> CHR ''-''" "c \<noteq> CHR ''+''" "c \<noteq> CHR ''x''" "c \<noteq> CHR ''X''"
    "c \<noteq> CHR ''u''" "c \<noteq> CHR ''{''" "c \<noteq> CHR ''}''" "\<not> py_isspace c"
  using assms by (auto simp: hex_digits_def py_isspace_def)

lemma parse_hex_fixed:
  "k > 0 \<Longrightarrow> parse_hex prev acc (hex_fixed k n @ cs) = parse_hex True (acc * 16 ^ k + n mod 16 ^ k) cs"
proof (induction k arbitrary: prev acc n cs)
  case (Suc k)
  have d: "hex_digits ! (n mod 16) \<noteq> CHR ''_''" "hex_value (hex_digits ! (n mod 16)) = Some (n mod 16)"
    by (simp_all add: hex_value_nth hex_nth hex_digits_special(1))
  have split: "n mod 16 ^ Suc k = 16 * (n div 16 mod 16 ^ k) + n mod 16"
    by (simp add: mod_mult2_eq mult.commute)
  show ?case
  proof (cases "k = 0")
    case True
    then show ?thesis by (simp add: d mult.commute)
  next
    case False
    then show ?thesis using Suc.IH [of prev acc "n div 16" "(hex_digits ! (n mod 16)) # cs"]
      by (simp add: d split algebra_simps del: power_Suc) (simp add: algebra_simps)
  qed
qed simp

lemma remove_all_absent: "sub \<noteq> [] \<Longrightarrow> hd sub \<notin> set s \<Longrightarrow> remove_all sub s = s"
proof (induction s)
  case Nil
  then show ?case by (simp add: remove_all.simps)
next
  case (Cons c s)
  have "take (length sub) (c # s) \<noteq> sub" using Cons.prems by (cases sub) auto
  then show ?case using Cons by (simp add: remove_all.simps [of sub "c # s"])
qed

lemma remove_all_char: "remove_all [c] s = filter (\<lambda>x. x \<noteq> c) s"
proof (induction s)
  case Nil
  show ?case by (simp add: remove_all.simps)
next
  case (Cons x s)
  then show ?case by (simp add: remove_all.simps [of "[c]" "x # s"])
qed

lemma py_int16_hex: "k > 1 \<Longrightarrow> py_int16 (hex_fixed k n) = Some (int (n mod 16 ^ k))"
proof -
  assume k: "k > 1"
  define h where "h = hex_fixed k n"
  have digits: "c \<in> set h \<Longrightarrow> c \<in> set hex_digits" for c
    using hex_fixed_digits by (auto simp: h_def)
  have "2 \<le> length h" using k by (simp add: h_def)
  then obtain a b cs where h: "h = a # b # cs" by (auto simp: numeral_2_eq_2 Suc_le_length_iff)
  have strip: "py_strip h = h" by (rule py_strip_no_space) (use digits hex_digits_special(9) in blast)
  have "a \<in> set hex_digits" "b \<in> set hex_digits" using digits h by auto
  note special = hex_digits_special [OF this(1)] hex_digits_special [OF this(2)]
  have "parse_hex False 0 h = Some (n mod 16 ^ k)"
    using parse_hex_fixed [of k False 0 n "[]"] k by (simp add: h_def)
  then have "parse_hex False 0 (a # b # cs) = Some (n mod 16 ^ k)" by (simp only: h)
  then show ?thesis
    using strip special unfolding h_def [symmetric] by (simp add: py_int16_def h Let_def del: parse_hex.simps)
qed

lemma uuid_str_chars:
  assumes "c \<in> set (uuid_str u)"
  shows "c = CHR ''-'' \<or> c \<in> set hex_digits"
  using assms hex_fixed_digits [of 32 u]
  by (auto simp: uuid_str_def uuid_hex_def Let_def dest!: in_set_takeD in_set_dropD)

lemma uuid_str_unhyphenated: "filter (\<lambda>x. x \<noteq> CHR ''-'') (uuid_str u) = uuid_hex u"
proof -
  have keep: "filter (\<lambda>x. x \<noteq> CHR ''-'') s = s" if "set s \<subseteq> set (uuid_hex u)" for s
    using that hex_fixed_digits [of 32 u] hex_digits_special(2)
    by (intro filter_True) (auto simp: uuid_hex_def)
  have sub: "set (take i (drop j h)) \<subseteq> set h" "set (drop j h) \<subseteq> set h" "set (take i h) \<subseteq> set h" for i j and h :: string
    by (auto dest: in_set_takeD in_set_dropD)
  define h where "h = uuid_hex u"
  have "take 8 h @ take 4 (drop 8 h) @ take 4 (drop 12 h) @ take 4 (drop 16 h) @ drop 20 h = h"
    using append_take_drop_id [of 8 h] append_take_drop_id [of 4 "drop 8 h"]
      append_take_drop_id [of 4 "drop 12 h"] append_take_drop_id [of 4 "drop 16 h"] by simp
  then show ?thesis
    by (simp add: uuid_str_def Let_def h_def [symmetric] keep [folded h_def] sub)
qed

text \<open>\<open>UUID(str(u)) == u\<close>.\<close>

lemma py_uuid_str [simp]:
  assumes "valid_uuid u"
  shows "py_uuid (uuid_str u) = Some u"
proof -
  have no: "CHR ''u'' \<notin> set (uuid_str u)" "CHR ''{'' \<notin> set (uuid_str u)" "CHR ''}'' \<notin> set (uuid_str u)"
    using uuid_str_chars hex_digits_special(6,7,8) by blast+
  have "dropWhile (\<lambda>c. c \<in> set ''{}'') (uuid_str u) = uuid_str u"
    "dropWhile (\<lambda>c. c \<in> set ''{}'') (rev (uuid_str u)) = rev (uuid_str u)"
    using no by (auto simp: dropWhile_eq_self_iff dest: hd_in_set) (metis hd_in_set rev_is_Nil_conv set_rev)+
  moreover have "(16::nat) ^ 32 = 2 ^ 128" by simp
  ultimately show ?thesis using assms no
    by (simp add: py_uuid_def remove_all_absent remove_all_char uuid_str_unhyphenated uuid_hex_def
        py_int16_hex valid_uuid_def Let_def del: power_numeral)
qed

lemma uuid_str_inj: "valid_uuid u \<Longrightarrow> valid_uuid v \<Longrightarrow> uuid_str u = uuid_str v \<Longrightarrow> u = v"
  by (metis option.inject py_uuid_str)

section \<open>Decoded JSON values\<close>

text \<open>\<open>int(x)\<close> of a decoded JSON value.\<close>

fun json_int :: "json \<Rightarrow> int result" where
  "json_int (JInt i) = Inr i"
| "json_int (JBool b) = Inr (if b then 1 else 0)"
| "json_int (JStr s) = (case py_int s of None \<Rightarrow> Inl (ValueError ''invalid literal for int()'') | Some i \<Rightarrow> Inr i)"
| "json_int _ = Inl (TypeError ''int() argument must be a string or a number'')"

text \<open>\<open>str(x)\<close> of a decoded scalar; a container's text is no UUID, so \<open>UUID(str(x))\<close> fails on it.\<close>

fun json_uuid :: "json \<Rightarrow> uuid option" where
  "json_uuid (JStr s) = py_uuid s"
| "json_uuid (JInt i) = py_uuid (py_str_int i)"
| "json_uuid _ = None"

text \<open>Truth value and \<open>len\<close> of a decoded JSON value.\<close>

fun falsy :: "json \<Rightarrow> bool" where
  "falsy JNull = True"
| "falsy (JBool b) = (\<not> b)"
| "falsy (JInt i) = (i = 0)"
| "falsy (JStr t) = (t = [])"
| "falsy (JList xs) = (xs = [])"
| "falsy (JObj o') = (o' = [])"

fun json_len :: "json \<Rightarrow> nat option" where
  "json_len (JStr t) = Some (length t)"
| "json_len (JList xs) = Some (length xs)"
| "json_len (JObj o') = Some (length o')"
| "json_len _ = None"

end
