(* ===== verification/Job_Queue.thy ===== *)
theory Job_Queue
  imports Python_UUID Interfaces
begin

text \<open>
  The research-job queue (\<open>researchos/saas/queue.py\<close>): the in-memory queue and the Supabase adapter.
  The database behind the adapter is an argument \<open>rpc\<close>, a function from its state, a procedure name
  and the parameters to the decoded response \<open>result.data\<close> and the next state; what is modelled is
  how the adapter reads the response.
\<close>

record ResearchQueueMessage =
  message_id :: int
  msg_workspace_id :: uuid
  msg_research_run_id :: uuid
  msg_request_id :: "string option"

section \<open>The in-memory queue\<close>

record InMemoryQueue =
  messages :: "(int \<times> uuid \<times> uuid) list"
  received :: "int set"
  request_ids :: "(uuid, string) dict"

definition empty_queue :: InMemoryQueue where
  "empty_queue = \<lparr>messages = [], received = {}, request_ids = []\<rparr>"

definition enqueue :: "uuid \<Rightarrow> uuid \<Rightarrow> string option \<Rightarrow> InMemoryQueue \<Rightarrow> int \<times> InMemoryQueue" where
  "enqueue ws jid request_id q =
     (let mid = int (length (messages q)) + 1
      in (mid, q\<lparr>messages := messages q @ [(mid, ws, jid)],
                 request_ids := (case request_id of None \<Rightarrow> request_ids q
                                 | Some r \<Rightarrow> dset jid r (request_ids q))\<rparr>))"

definition receive :: "InMemoryQueue \<Rightarrow> ResearchQueueMessage option \<times> InMemoryQueue" where
  "receive q =
     (case find (\<lambda>(mid, _, _). mid \<notin> received q) (messages q) of
        None \<Rightarrow> (None, q)
      | Some (mid, ws, jid) \<Rightarrow>
          (Some \<lparr>message_id = mid, msg_workspace_id = ws, msg_research_run_id = jid,
                 msg_request_id = dget (request_ids q) jid\<rparr>,
           q\<lparr>received := insert mid (received q)\<rparr>))"

definition ack :: "int \<Rightarrow> InMemoryQueue \<Rightarrow> (unit, InMemoryQueue) outcome" where
  "ack mid q =
     (if mid \<le> 0 then (Inl (ValueError ''message_id must be positive''), q)
      else
        let removed = map (\<lambda>(_, _, jid). jid) (filter (\<lambda>(queued, _, _). queued = mid) (messages q))
        in (Inr (), q\<lparr>messages := filter (\<lambda>(queued, _, _). queued \<noteq> mid) (messages q),
                      request_ids := fold dpop removed (request_ids q),
                      received := received q - {mid}\<rparr>))"

text \<open>Messages that \<open>receive\<close> can still hand out.\<close>

definition pending :: "InMemoryQueue \<Rightarrow> (int \<times> uuid \<times> uuid) list" where
  "pending q = filter (\<lambda>(mid, _, _). mid \<notin> received q) (messages q)"

definition queue_ids :: "InMemoryQueue \<Rightarrow> int list" where
  "queue_ids q = map fst (messages q)"

definition unique_ids :: "InMemoryQueue \<Rightarrow> bool" where
  "unique_ids q \<longleftrightarrow> distinct (queue_ids q)"

text \<open>The ids are at most the number of messages: what \<open>enqueue\<close> keeps and \<open>ack\<close> can break.\<close>

definition dense_ids :: "InMemoryQueue \<Rightarrow> bool" where
  "dense_ids q \<longleftrightarrow> unique_ids q
     \<and> (\<forall>m \<in> set (queue_ids q) \<union> received q. 1 \<le> m \<and> m \<le> int (length (messages q)))"

lemma dense_empty: "dense_ids empty_queue"
  by (simp add: dense_ids_def unique_ids_def queue_ids_def empty_queue_def)

lemma dense_unique: "dense_ids q \<Longrightarrow> unique_ids q"
  by (simp add: dense_ids_def)

lemma dense_fresh:
  assumes "dense_ids q"
  shows "int (length (messages q)) + 1 \<notin> set (queue_ids q) \<union> received q"
proof
  assume "int (length (messages q)) + 1 \<in> set (queue_ids q) \<union> received q"
  then have "int (length (messages q)) + 1 \<le> int (length (messages q))"
    using assms unfolding dense_ids_def by blast
  then show False by simp
qed

lemma enqueue_dense:
  assumes "dense_ids q"
  shows "dense_ids (snd (enqueue ws jid r q))"
  using assms dense_fresh [OF assms]
  by (force simp: dense_ids_def unique_ids_def enqueue_def queue_ids_def Let_def)

lemma enqueue_pending:
  assumes "dense_ids q"
  shows "pending (snd (enqueue ws jid r q)) = pending q @ [(fst (enqueue ws jid r q), ws, jid)]"
  using dense_fresh [OF assms] by (simp add: enqueue_def pending_def Let_def)

lemma find_filter: "find P xs = (case filter P xs of [] \<Rightarrow> None | x # _ \<Rightarrow> Some x)"
  by (induction xs) auto

lemma receive_empty: "pending q = [] \<Longrightarrow> receive q = (None, q)"
  by (simp add: receive_def find_filter pending_def)

lemma receive_next:
  assumes "unique_ids q" and "pending q = (mid, ws, jid) # rest"
  shows "receive q = (Some \<lparr>message_id = mid, msg_workspace_id = ws, msg_research_run_id = jid,
      msg_request_id = dget (request_ids q) jid\<rparr>, q\<lparr>received := insert mid (received q)\<rparr>)"
    and "pending (snd (receive q)) = rest"
    and "unique_ids (snd (receive q))"
proof -
  show eq: "receive q = (Some \<lparr>message_id = mid, msg_workspace_id = ws, msg_research_run_id = jid,
      msg_request_id = dget (request_ids q) jid\<rparr>, q\<lparr>received := insert mid (received q)\<rparr>)"
    using assms(2) by (simp add: receive_def find_filter pending_def)
  have "distinct (map fst (pending q))"
    using assms(1) by (simp add: unique_ids_def queue_ids_def pending_def distinct_map_filter)
  then have "mid \<notin> fst ` set rest" using assms(2) by simp
  then have "filter (\<lambda>(m, _, _). m \<noteq> mid) (pending q) = rest"
    using assms(2) by (force intro!: filter_True)
  moreover have "pending (q\<lparr>received := insert mid (received q)\<rparr>) = filter (\<lambda>(m, _, _). m \<noteq> mid) (pending q)"
    by (auto simp: pending_def intro: filter_cong)
  ultimately show "pending (snd (receive q)) = rest" by (simp add: eq)
  show "unique_ids (snd (receive q))" using assms(1) by (simp add: eq unique_ids_def queue_ids_def)
qed

fun receive_n :: "nat \<Rightarrow> InMemoryQueue \<Rightarrow> ResearchQueueMessage option list" where
  "receive_n 0 q = []"
| "receive_n (Suc n) q = fst (receive q) # receive_n n (snd (receive q))"

definition as_message :: "InMemoryQueue \<Rightarrow> int \<times> uuid \<times> uuid \<Rightarrow> ResearchQueueMessage" where
  "as_message q = (\<lambda>(mid, ws, jid). \<lparr>message_id = mid, msg_workspace_id = ws, msg_research_run_id = jid,
      msg_request_id = dget (request_ids q) jid\<rparr>)"

text \<open>FIFO and exactly once: consecutive receives hand out the pending messages in order, then nothing.\<close>

lemma receive_fifo:
  assumes "unique_ids q"
  shows "receive_n (length (pending q) + k) q = map (Some \<circ> as_message q) (pending q) @ replicate k None"
  using assms
proof (induction "pending q" arbitrary: q)
  case Nil
  have "pending q = []" using Nil by simp
  then have "receive_n k q = replicate k None"
    by (induction k) (simp_all add: receive_empty)
  then show ?case using \<open>pending q = []\<close> by simp
next
  case (Cons x rest)
  obtain mid ws jid where x: "x = (mid, ws, jid)" by (cases x)
  have p: "pending q = (mid, ws, jid) # rest" using Cons.hyps(2) x by simp
  note step = receive_next [OF Cons.prems p]
  have "receive_n (length rest + k) (snd (receive q))
      = map (Some \<circ> as_message (snd (receive q))) rest @ replicate k None"
    using Cons.hyps(1) [of "snd (receive q)"] step by simp
  moreover have "as_message (snd (receive q)) = as_message q" by (simp add: step(1) as_message_def)
  ultimately show ?case using p by (simp add: step(1) as_message_def)
qed

lemma ack_messages:
  assumes "0 < mid"
  shows "fst (ack mid q) = Inr ()"
    and "messages (snd (ack mid q)) = filter (\<lambda>(m, _, _). m \<noteq> mid) (messages q)"
    and "received (snd (ack mid q)) = received q - {mid}"
  using assms by (simp_all add: ack_def Let_def)

lemma ack_unique: "unique_ids q \<Longrightarrow> unique_ids (snd (ack mid q))"
  by (auto simp: ack_def unique_ids_def queue_ids_def Let_def intro: distinct_map_filter)

section \<open>The Supabase adapter\<close>

type_synonym 's rpc = "'s \<Rightarrow> string \<Rightarrow> json \<Rightarrow> json result \<times> 's"

definition visibility_ok :: "int \<Rightarrow> unit result" where
  "visibility_ok n = (if \<not> (1 \<le> n \<and> n \<le> 86400)
     then Inl (ValueError ''visibility_timeout_seconds must be between 1 and 86400'') else Inr ())"

definition sb_enqueue :: "'s rpc \<Rightarrow> uuid \<Rightarrow> uuid \<Rightarrow> string option \<Rightarrow> 's \<Rightarrow> (int, 's) outcome" where
  "sb_enqueue rpc ws jid request_id s =
     (case rpc s ''enqueue_research_run''
        (JObj [(''p_research_run_id'', JStr (uuid_str jid)), (''p_workspace_id'', JStr (uuid_str ws)),
               (''p_request_id'', (case request_id of None \<Rightarrow> JNull | Some r \<Rightarrow> JStr r))]) of
        (Inl e, t) \<Rightarrow> (Inl e, t)
      | (Inr dat, t) \<Rightarrow>
          ((case (case dat of JList [x] \<Rightarrow> Inr x
              | JList _ \<Rightarrow> Inl (RuntimeError ''research queue RPC returned no unique message id'')
              | _ \<Rightarrow> Inr dat) of
              Inl e \<Rightarrow> Inl e
            | Inr x \<Rightarrow>
                let v = (case x of JObj o' \<Rightarrow> (case map_of o' ''enqueue_research_run'' of None \<Rightarrow> JNull | Some y \<Rightarrow> y)
                         | _ \<Rightarrow> x)
                in if v = JNull then Inl (RuntimeError ''research queue RPC returned no message id'')
                   else json_int v), t))"

definition bad_identifiers :: "'a result" where
  "bad_identifiers = Inl (ValueError ''research queue message failed identifier validation'')"

text \<open>The checks of \<open>receive\<close> on one row.\<close>

definition decode_message :: "(string \<times> json) list \<Rightarrow> ResearchQueueMessage result" where
  "decode_message row =
     (case (map_of row ''msg_id'', map_of row ''workspace_id'', map_of row ''research_run_id'') of
        (Some m, Some w, Some r) \<Rightarrow>
          (case (json_int m, json_uuid w, json_uuid r) of
             (Inr mid, Some ws, Some run) \<Rightarrow>
               if mid \<le> 0 then Inl (ValueError ''research queue message id must be positive'')
               else (case (case map_of row ''request_id'' of None \<Rightarrow> JNull | Some x \<Rightarrow> x) of
                       JNull \<Rightarrow> Inr \<lparr>message_id = mid, msg_workspace_id = ws, msg_research_run_id = run,
                                    msg_request_id = None\<rparr>
                     | JStr q \<Rightarrow>
                         if length q > 128 then Inl (ValueError ''research queue request_id failed validation'')
                         else Inr \<lparr>message_id = mid, msg_workspace_id = ws, msg_research_run_id = run,
                                   msg_request_id = Some q\<rparr>
                     | _ \<Rightarrow> Inl (ValueError ''research queue request_id failed validation''))
           | _ \<Rightarrow> bad_identifiers)
      | _ \<Rightarrow> bad_identifiers)"

text \<open>\<open>rows = result.data or []\<close>: a falsy response is an empty row list.\<close>

definition decode_rows :: "json \<Rightarrow> ResearchQueueMessage option result" where
  "decode_rows rows =
     (if falsy rows then Inr None
      else case json_len rows of
             None \<Rightarrow> Inl (TypeError ''object has no len()'')
           | Some n \<Rightarrow>
               if n > 1 then Inl (RuntimeError ''research queue receive RPC returned multiple messages'')
               else (case rows of
                       JObj _ \<Rightarrow> Inl (KeyError ''0'')
                     | JList [JObj row] \<Rightarrow> (case decode_message row of Inl e \<Rightarrow> Inl e | Inr m \<Rightarrow> Inr (Some m))
                     | _ \<Rightarrow> Inl (RuntimeError ''research queue receive RPC returned invalid message'')))"

definition sb_receive :: "'s rpc \<Rightarrow> int \<Rightarrow> 's \<Rightarrow> (ResearchQueueMessage option, 's) outcome" where
  "sb_receive rpc visibility s =
     (case rpc s ''receive_research_run'' (JObj [(''p_visibility_timeout'', JInt visibility)]) of
        (Inl e, t) \<Rightarrow> (Inl e, t)
      | (Inr dat, t) \<Rightarrow> (decode_rows dat, t))"

definition sb_ack :: "'s rpc \<Rightarrow> int \<Rightarrow> 's \<Rightarrow> (unit, 's) outcome" where
  "sb_ack rpc mid s =
     (if mid \<le> 0 then (Inl (ValueError ''message_id must be positive''), s)
      else case rpc s ''ack_research_run'' (JObj [(''p_message_id'', JInt mid)]) of
        (Inl e, t) \<Rightarrow> (Inl e, t)
      | (Inr dat, t) \<Rightarrow>
          ((case (case dat of JList [x] \<Rightarrow> Inr x
              | JList _ \<Rightarrow> Inl (RuntimeError ''research queue ack RPC returned no unique result'')
              | _ \<Rightarrow> Inr dat) of
              Inl e \<Rightarrow> Inl e
            | Inr x \<Rightarrow>
                let v = (case x of JObj o' \<Rightarrow> (case map_of o' ''ack_research_run'' of None \<Rightarrow> JNull | Some y \<Rightarrow> y)
                         | _ \<Rightarrow> x)
                in if v = JBool True then Inr ()
                   else Inl (RuntimeError ''research queue message was not acknowledged'')), t))"

lemma decode_message_sound:
  assumes "decode_message row = Inr m"
  shows "0 < message_id m" and "\<And>q. msg_request_id m = Some q \<Longrightarrow> length q \<le> 128"
  using assms by (auto simp: decode_message_def bad_identifiers_def
      split: option.splits sum.splits if_splits json.splits)

lemma decode_rows_sound:
  assumes "decode_rows rows = Inr (Some m)"
  shows "0 < message_id m" and "\<And>q. msg_request_id m = Some q \<Longrightarrow> length q \<le> 128"
proof -
  obtain row where "decode_message row = Inr m"
    using assms by (auto simp: decode_rows_def split: if_splits option.splits json.splits list.splits sum.splits)
  then show "0 < message_id m" "\<And>q. msg_request_id m = Some q \<Longrightarrow> length q \<le> 128"
    by (rule decode_message_sound)+
qed

text \<open>The rows of the receive procedure have further columns; exactly four of them are read.\<close>

lemma decode_message_reads:
  assumes "map_of row ''msg_id'' = Some (JInt mid)" "map_of row ''workspace_id'' = Some (JStr (uuid_str ws))"
    and "map_of row ''research_run_id'' = Some (JStr (uuid_str run))"
    and "map_of row ''request_id'' = Some (case rq of None \<Rightarrow> JNull | Some q \<Rightarrow> JStr q)"
    and "valid_uuid ws" "valid_uuid run" "0 < mid" "\<And>q. rq = Some q \<Longrightarrow> length q \<le> 128"
  shows "decode_message row = Inr \<lparr>message_id = mid, msg_workspace_id = ws, msg_research_run_id = run, msg_request_id = rq\<rparr>"
  using assms by (auto simp: decode_message_def split: option.split)

end
