(* ===== verification/Worker.thy ===== *)
theory Worker
  imports Job_Leases Job_Queue
begin

text \<open>
  The research worker (\<open>researchos/saas/worker.py\<close>) and its process loop
  (\<open>researchos/saas/worker_runtime.py\<close>).  A run claims the job, executes it while a heartbeat thread
  renews the lease, records the result and finishes the job.  Store calls are atomic, so a concurrent
  execution is a sequence of store calls: between two calls of the run, a list of events says which
  heartbeat ticks and which calls of other processes happen.  The executor is an argument.
\<close>

datatype event =
    Tick timestamp timestamp
  | Env uuid job_op

record worker_metrics =
  jobs_failed_total :: nat
  jobs_retries_total :: nat

text \<open>
  \<open>_heartbeat\<close>: each tick renews the lease; the loop returns at the first exception.  The flag says
  whether the thread is alive.
\<close>

fun heartbeat :: "uuid \<Rightarrow> uuid \<Rightarrow> uuid \<Rightarrow> int \<Rightarrow> bool \<Rightarrow> event list \<Rightarrow> JobStore \<Rightarrow> bool \<times> JobStore" where
  "heartbeat ws jid token secs alive [] s = (alive, s)"
| "heartbeat ws jid token secs alive (Tick now1 now2 # es) s =
     (if alive
      then (case renew now1 now2 ws jid token secs s of
              (Inr _, t) \<Rightarrow> heartbeat ws jid token secs True es t
            | (Inl _, t) \<Rightarrow> heartbeat ws jid token secs False es t)
      else heartbeat ws jid token secs False es s)"
| "heartbeat ws jid token secs alive (Env w opn # es) s = heartbeat ws jid token secs alive es (job_exec w opn s)"

text \<open>The clock readings, the drawn identifiers and the interleaved events of one run.\<close>

record schedule =
  sch_claim :: timestamp
  sch_owner :: string
  sch_token :: uuid
  sch_started :: "event list"
  sch_executing :: "event list"
  sch_record :: timestamp
  sch_recorded :: "event list"

definition inc_failed :: "worker_metrics \<Rightarrow> worker_metrics" where
  "inc_failed m = m\<lparr>jobs_failed_total := jobs_failed_total m + 1\<rparr>"

text \<open>
  \<open>except Exception: finish(..., FAILED, error_code); raise\<close>: the error of \<open>finish\<close>, when it raises,
  replaces the one being handled.
\<close>

definition fail_job :: "uuid \<Rightarrow> uuid \<Rightarrow> uuid \<Rightarrow> string \<Rightarrow> exn \<Rightarrow> JobStore \<Rightarrow> exn \<times> JobStore" where
  "fail_job ws jid token code e s =
     (case finish ws jid token FAILED (Some code) s of
        (Inl e', t) \<Rightarrow> (e', t)
      | (Inr _, t) \<Rightarrow> (e, t))"

definition result_target :: "ResearchResult \<Rightarrow> ResearchJobStatus" where
  "result_target res = (if res_status res = ''SUCCEEDED'' then SUCCEEDED else FAILED)"

definition run_once ::
  "int \<Rightarrow> schedule \<Rightarrow> (uuid \<Rightarrow> JobStore \<Rightarrow> ResearchResult result) \<Rightarrow> uuid \<Rightarrow> uuid
    \<Rightarrow> worker_metrics \<times> JobStore \<Rightarrow> (ResearchResult, worker_metrics \<times> JobStore) outcome" where
  "run_once secs sch execute ws jid = (\<lambda>(m, s).
     (case claim (sch_claim sch) ws jid (sch_owner sch) secs (sch_token sch) s of
        (Inl e, t) \<Rightarrow> (Inl e, m, t)
      | (Inr lease, t) \<Rightarrow>
          let token = lease_token lease;
              m1 = (if job_attempt_count (lease_job lease) > 1
                    then m\<lparr>jobs_retries_total := jobs_retries_total m + 1\<rparr> else m);
              (alive0, t0) = heartbeat ws jid token secs True (sch_started sch) t;
              (alive, t1) = heartbeat ws jid token secs alive0 (sch_executing sch) t0
          in (case execute jid t0 of
                Inl e \<Rightarrow>
                  (case fail_job ws jid token ''executor_error'' e t1 of
                     (e', t2) \<Rightarrow> (Inl e', inc_failed m1, t2))
              | Inr res \<Rightarrow>
                  let target = result_target res;
                      m2 = (if target = FAILED then inc_failed m1 else m1);
                      m3 = (if target \<noteq> FAILED then inc_failed m2 else m2)
                  in (case record_result (sch_record sch) ws jid token res t1 of
                        (Inl e, t2) \<Rightarrow>
                          (case heartbeat ws jid token secs alive (sch_recorded sch) t2 of
                             (_, t3) \<Rightarrow>
                               (case fail_job ws jid token ''provenance_error'' e t3 of
                                  (e', t4) \<Rightarrow> (Inl e', m3, t4)))
                      | (Inr _, t2) \<Rightarrow>
                          (case heartbeat ws jid token secs alive (sch_recorded sch) t2 of
                             (_, t3) \<Rightarrow>
                               (case finish ws jid token target None t3 of
                                  (Inl e, t4) \<Rightarrow> (Inl e, m3, t4)
                                | (Inr _, t4) \<Rightarrow> (Inr res, m2, t4)))))))"


text \<open>\<open>run_queued_message\<close>: the values of the payload are scalars.\<close>

datatype payload_value = PNone | PInt int | PStr string

fun payload_str :: "payload_value \<Rightarrow> string" where
  "payload_str PNone = ''None''"
| "payload_str (PInt i) = py_str_int i"
| "payload_str (PStr t) = t"

definition queued_message :: "(string, payload_value) dict \<Rightarrow> (uuid \<times> uuid \<times> string option) result" where
  "queued_message msg =
     (case (dget msg ''workspace_id'', dget msg ''research_run_id'') of
        (Some w, Some r) \<Rightarrow>
          (case (py_uuid (payload_str w), py_uuid (payload_str r)) of
             (Some ws, Some jid) \<Rightarrow>
               let request_id = (case dget msg ''request_id'' of
                     None \<Rightarrow> None | Some PNone \<Rightarrow> None | Some v \<Rightarrow> Some (payload_str v))
               in (if (case request_id of None \<Rightarrow> False | Some q \<Rightarrow> length q > 128)
                   then Inl (ValueError ''request_id exceeds 128 characters'')
                   else Inr (ws, jid, request_id))
           | _ \<Rightarrow> Inl (ValueError ''invalid research queue message''))
      | _ \<Rightarrow> Inl (ValueError ''invalid research queue message''))"

definition run_queued_message ::
  "int \<Rightarrow> schedule \<Rightarrow> (uuid \<Rightarrow> JobStore \<Rightarrow> ResearchResult result) \<Rightarrow> (string, payload_value) dict
    \<Rightarrow> worker_metrics \<times> JobStore \<Rightarrow> (ResearchResult, worker_metrics \<times> JobStore) outcome" where
  "run_queued_message secs sch execute msg st =
     (case queued_message msg of
        Inl e \<Rightarrow> (Inl e, st)
      | Inr (ws, jid, _) \<Rightarrow> run_once secs sch execute ws jid st)"

section \<open>Interleavings are operation sequences\<close>

fun env_ops :: "event list \<Rightarrow> (uuid \<times> job_op) list" where
  "env_ops [] = []"
| "env_ops (Tick _ _ # es) = env_ops es"
| "env_ops (Env w opn # es) = (w, opn) # env_ops es"

definition events_wf :: "event list \<Rightarrow> bool" where
  "events_wf es \<longleftrightarrow> (\<forall>(w, opn) \<in> set (env_ops es). op_wf opn)"

definition schedule_wf :: "schedule \<Rightarrow> bool" where
  "schedule_wf sch \<longleftrightarrow> events_wf (sch_started sch) \<and> events_wf (sch_executing sch)
     \<and> events_wf (sch_recorded sch)"

lemma heartbeat_ops:
  "\<exists>ops. snd (heartbeat ws jid token secs alive es s) = run_ops ops s
     \<and> set ops \<subseteq> set (env_ops es) \<union> {(ws, OpRenew n1 n2 jid token secs) | n1 n2. True}"
proof (induction es arbitrary: alive s)
  case Nil
  show ?case by (intro exI [of _ "[]"]) simp
next
  case (Cons e es)
  show ?case
  proof (cases e)
    case (Env w opn)
    from Cons [of alive "job_exec w opn s"] obtain ops where
      "snd (heartbeat ws jid token secs alive es (job_exec w opn s)) = run_ops ops (job_exec w opn s)"
      "set ops \<subseteq> set (env_ops es) \<union> {(ws, OpRenew n1 n2 jid token secs) | n1 n2. True}" by blast
    then show ?thesis using Env by (intro exI [of _ "(w, opn) # ops"]) auto
  next
    case (Tick n1 n2)
    obtain r t where r: "renew n1 n2 ws jid token secs s = (r, t)" by fastforce
    show ?thesis
    proof (cases alive)
      case False
      then show ?thesis using Cons [of False s] Tick by simp
    next
      case True
      from Cons [of "is_ok r" t] obtain ops where
        "snd (heartbeat ws jid token secs (is_ok r) es t) = run_ops ops t"
        "set ops \<subseteq> set (env_ops es) \<union> {(ws, OpRenew n1 n2 jid token secs) | n1 n2. True}" by blast
      then show ?thesis using Tick True r
        by (intro exI [of _ "(ws, OpRenew n1 n2 jid token secs) # ops"]) (cases r; auto)
    qed
  qed
qed

lemma heartbeat_inv:
  assumes "store_inv s" and "events_wf es"
  shows "store_inv (snd (heartbeat ws jid token secs alive es s))"
proof -
  obtain ops where ops: "snd (heartbeat ws jid token secs alive es s) = run_ops ops s"
    "set ops \<subseteq> set (env_ops es) \<union> {(ws, OpRenew n1 n2 jid token secs) | n1 n2. True}"
    using heartbeat_ops by blast
  then have "\<forall>(w, opn) \<in> set ops. op_wf opn" using assms(2) by (auto simp: events_wf_def)
  then show ?thesis using run_ops_inv [OF assms(1)] ops(1) by simp
qed

lemma run_ops_le:
  assumes "store_inv s" and "\<forall>(ws, opn) \<in> set ops. op_wf opn"
  shows "store_le s (run_ops ops s)"
  using assms
proof (induction ops arbitrary: s)
  case Nil
  show ?case by (simp add: store_le_refl)
next
  case (Cons x ops)
  obtain ws opn where x: "x = (ws, opn)" by (cases x)
  have eff: "job_effect ws s (job_exec ws opn s)"
    using Cons.prems x by (intro job_exec_effect) auto
  have "store_le (job_exec ws opn s) (run_ops ops (job_exec ws opn s))"
    using Cons job_effect_inv [OF eff] x by simp
  then show ?case using job_effect_le [OF eff Cons.prems(1)] x by (auto intro: store_le_trans)
qed

lemma heartbeat_le:
  assumes "store_inv s" and "events_wf es"
  shows "store_le s (snd (heartbeat ws jid token secs alive es s))"
proof -
  obtain ops where ops: "snd (heartbeat ws jid token secs alive es s) = run_ops ops s"
    "set ops \<subseteq> set (env_ops es) \<union> {(ws, OpRenew n1 n2 jid token secs) | n1 n2. True}"
    using heartbeat_ops by blast
  then have "\<forall>(w, opn) \<in> set ops. op_wf opn" using assms(2) by (auto simp: events_wf_def)
  then show ?thesis using run_ops_le [OF assms(1)] ops(1) by simp
qed

text \<open>With a dead token the heartbeat adds nothing to what the other processes do.\<close>

lemma heartbeat_dead:
  assumes "token_dead jid token s" and "\<forall>(w, opn) \<in> set (env_ops es). \<not> redraws jid token opn"
  shows "snd (heartbeat ws jid token secs alive es s) = run_ops (env_ops es) s
    \<and> token_dead jid token (run_ops (env_ops es) s)"
  using assms
proof (induction es arbitrary: alive s)
  case (Cons e es)
  show ?case
  proof (cases e)
    case (Tick n1 n2)
    obtain x where "renew n1 n2 ws jid token secs s = (Inl x, s)"
      using token_dead_refused(1) [OF Cons.prems(1)] by blast
    then show ?thesis using Cons Tick by simp
  next
    case (Env w opn)
    then show ?thesis using Cons token_dead_step by simp
  qed
qed simp

section \<open>What a run guarantees\<close>

text \<open>The states a run goes through once it has its lease.\<close>

definition executing_store :: "int \<Rightarrow> schedule \<Rightarrow> uuid \<Rightarrow> uuid \<Rightarrow> JobStore \<Rightarrow> bool \<times> JobStore" where
  "executing_store secs sch ws jid t =
     (case heartbeat ws jid (sch_token sch) secs True (sch_started sch) t of
        (alive, t0) \<Rightarrow> heartbeat ws jid (sch_token sch) secs alive (sch_executing sch) t0)"

definition started_store :: "int \<Rightarrow> schedule \<Rightarrow> uuid \<Rightarrow> uuid \<Rightarrow> JobStore \<Rightarrow> JobStore" where
  "started_store secs sch ws jid t = snd (heartbeat ws jid (sch_token sch) secs True (sch_started sch) t)"

lemma claim_token: "claim now ws jid owner secs token s = (Inr l, t) \<Longrightarrow> lease_token l = token"
  by (auto simp: claim_def split: option.splits if_splits sum.splits)

lemma run_once_refused:
  assumes "claim (sch_claim sch) ws jid (sch_owner sch) secs (sch_token sch) s = (Inl e, t)"
  shows "run_once secs sch execute ws jid (m, s) = (Inl e, m, t)"
  using assms by (simp add: run_once_def)

lemma run_once_executor_error:
  assumes "claim (sch_claim sch) ws jid (sch_owner sch) secs (sch_token sch) s = (Inr l, t)"
    and "execute jid (started_store secs sch ws jid t) = Inl e"
    and "executing_store secs sch ws jid t = (alive, t1)"
    and "fail_job ws jid (sch_token sch) ''executor_error'' e t1 = (e', t2)"
  shows "\<exists>m'. run_once secs sch execute ws jid (m, s) = (Inl e', m', t2)
    \<and> jobs_failed_total m' = jobs_failed_total m + 1"
  using assms claim_token [OF assms(1)]
  by (auto simp: run_once_def executing_store_def started_store_def Let_def inc_failed_def split: prod.splits)

lemma run_once_record_error:
  assumes "claim (sch_claim sch) ws jid (sch_owner sch) secs (sch_token sch) s = (Inr l, t)"
    and "execute jid (started_store secs sch ws jid t) = Inr res"
    and "executing_store secs sch ws jid t = (alive, t1)"
    and "record_result (sch_record sch) ws jid (sch_token sch) res t1 = (Inl e, t2)"
    and "heartbeat ws jid (sch_token sch) secs alive (sch_recorded sch) t2 = (alive', t3)"
    and "fail_job ws jid (sch_token sch) ''provenance_error'' e t3 = (e', t4)"
  shows "\<exists>m'. run_once secs sch execute ws jid (m, s) = (Inl e', m', t4)
    \<and> jobs_failed_total m' = jobs_failed_total m + 1"
  using assms claim_token [OF assms(1)]
  by (auto simp: run_once_def executing_store_def started_store_def Let_def inc_failed_def split: prod.splits)

lemma run_once_finish:
  assumes "claim (sch_claim sch) ws jid (sch_owner sch) secs (sch_token sch) s = (Inr l, t)"
    and "execute jid (started_store secs sch ws jid t) = Inr res"
    and "executing_store secs sch ws jid t = (alive, t1)"
    and "record_result (sch_record sch) ws jid (sch_token sch) res t1 = (Inr rec, t2)"
    and "heartbeat ws jid (sch_token sch) secs alive (sch_recorded sch) t2 = (alive', t3)"
    and "finish ws jid (sch_token sch) (result_target res) None t3 = (r, t4)"
  shows "\<exists>m'. run_once secs sch execute ws jid (m, s) = (case r of Inl e \<Rightarrow> (Inl e, m', t4) | Inr _ \<Rightarrow> (Inr res, m', t4))
    \<and> jobs_failed_total m' = jobs_failed_total m
        + (if is_ok r \<and> result_target res = SUCCEEDED then 0 else 1)"
  using assms claim_token [OF assms(1)]
  by (cases r) (auto simp: run_once_def executing_store_def started_store_def Let_def inc_failed_def
      result_target_def split: prod.splits)

text \<open>Every run is one of these four.\<close>

lemma run_once_cases:
  obtains (refused) e t where
    "claim (sch_claim sch) ws jid (sch_owner sch) secs (sch_token sch) s = (Inl e, t)"
    "run_once secs sch execute ws jid (m, s) = (Inl e, m, t)"
  | (executor_error) l t e alive t1 e' t2 m' where
    "claim (sch_claim sch) ws jid (sch_owner sch) secs (sch_token sch) s = (Inr l, t)"
    "execute jid (started_store secs sch ws jid t) = Inl e"
    "executing_store secs sch ws jid t = (alive, t1)"
    "fail_job ws jid (sch_token sch) ''executor_error'' e t1 = (e', t2)"
    "run_once secs sch execute ws jid (m, s) = (Inl e', m', t2)"
    "jobs_failed_total m' = jobs_failed_total m + 1"
  | (record_error) l t res alive t1 e t2 alive' t3 e' t4 m' where
    "claim (sch_claim sch) ws jid (sch_owner sch) secs (sch_token sch) s = (Inr l, t)"
    "execute jid (started_store secs sch ws jid t) = Inr res"
    "executing_store secs sch ws jid t = (alive, t1)"
    "record_result (sch_record sch) ws jid (sch_token sch) res t1 = (Inl e, t2)"
    "heartbeat ws jid (sch_token sch) secs alive (sch_recorded sch) t2 = (alive', t3)"
    "fail_job ws jid (sch_token sch) ''provenance_error'' e t3 = (e', t4)"
    "run_once secs sch execute ws jid (m, s) = (Inl e', m', t4)"
    "jobs_failed_total m' = jobs_failed_total m + 1"
  | (finished) l t res alive t1 rec t2 alive' t3 r t4 m' where
    "claim (sch_claim sch) ws jid (sch_owner sch) secs (sch_token sch) s = (Inr l, t)"
    "execute jid (started_store secs sch ws jid t) = Inr res"
    "executing_store secs sch ws jid t = (alive, t1)"
    "record_result (sch_record sch) ws jid (sch_token sch) res t1 = (Inr rec, t2)"
    "heartbeat ws jid (sch_token sch) secs alive (sch_recorded sch) t2 = (alive', t3)"
    "finish ws jid (sch_token sch) (result_target res) None t3 = (r, t4)"
    "run_once secs sch execute ws jid (m, s) = (case r of Inl e \<Rightarrow> (Inl e, m', t4) | Inr _ \<Rightarrow> (Inr res, m', t4))"
    "jobs_failed_total m' = jobs_failed_total m
        + (if is_ok r \<and> result_target res = SUCCEEDED then 0 else 1)"
proof -
  obtain c t where c: "claim (sch_claim sch) ws jid (sch_owner sch) secs (sch_token sch) s = (c, t)" by fastforce
  show thesis
  proof (cases c)
    case (Inl e)
    then show ?thesis using refused c run_once_refused by blast
  next
    case (Inr l)
    obtain alive t1 where ex: "executing_store secs sch ws jid t = (alive, t1)" by fastforce
    show ?thesis
    proof (cases "execute jid (started_store secs sch ws jid t)")
      case (Inl e)
      obtain e' t2 where "fail_job ws jid (sch_token sch) ''executor_error'' e t1 = (e', t2)" by fastforce
      with run_once_executor_error [where execute = execute and m = m, OF c [unfolded Inr] Inl ex this] show ?thesis
        using executor_error c Inr Inl ex by blast
    next
      case res: (Inr res)
      obtain r t2 where r: "record_result (sch_record sch) ws jid (sch_token sch) res t1 = (r, t2)" by fastforce
      obtain alive' t3 where h: "heartbeat ws jid (sch_token sch) secs alive (sch_recorded sch) t2 = (alive', t3)"
        by fastforce
      show ?thesis
      proof (cases r)
        case (Inl e)
        obtain e' t4 where "fail_job ws jid (sch_token sch) ''provenance_error'' e t3 = (e', t4)" by fastforce
        with run_once_record_error [where execute = execute and m = m, OF c [unfolded Inr] res ex r [unfolded Inl] h this] show ?thesis
          using record_error c [unfolded Inr] res ex r [unfolded Inl] h by blast
      next
        case rec: (Inr rec)
        obtain f t4 where "finish ws jid (sch_token sch) (result_target res) None t3 = (f, t4)" by fastforce
        with run_once_finish [where execute = execute and m = m, OF c [unfolded Inr] res ex r [unfolded rec] h this] show ?thesis
          using finished c [unfolded Inr] res ex r [unfolded rec] h by blast
      qed
    qed
  qed
qed

lemma claim_inv:
  assumes "store_inv s"
  shows "store_inv (snd (claim now ws jid owner secs token s))"
  by (rule job_effect_inv [OF claim_effect [OF assms] assms])

lemma record_result_inv:
  assumes "store_inv s"
  shows "store_inv (snd (record_result now ws jid token res s))"
  by (rule job_effect_inv [OF record_result_effect [OF assms] assms])

lemma executing_store_inv:
  assumes "store_inv t" and "schedule_wf sch"
  shows "store_inv (snd (executing_store secs sch ws jid t))"
  using assms heartbeat_inv unfolding executing_store_def schedule_wf_def
  by (metis (no_types, lifting) case_prod_beta)

lemma record_result_stored:
  assumes "record_result now ws jid token res s = (Inr rec, t)"
  shows "dget (results t) jid = Some rec"
    and "\<exists>j cl built. dget (jobs s) jid = Some j \<and> job_workspace_id j = ws
      \<and> res_source_sha256 res = job_source_sha256 j
      \<and> build_result_record ws jid res cl (job_plan_hash j) = Inr built
      \<and> rec_manifest_sha256 rec = rec_manifest_sha256 built"
  using assms by (auto simp: record_result_def lease_valid_iff split: if_splits sum.splits option.splits)

lemma finish_results: "results (snd (finish ws jid token target err s)) = results s"
  by (simp add: finish_def split: option.split sum.split)

lemma finish_ok:
  assumes "finish ws jid token target err s = (Inr j, t)"
  shows "dget (jobs t) jid = Some j" and "job_status j = target" and "dget (leases t) jid = None"
    and "job_workspace_id j = ws" and "target \<in> {SUCCEEDED, FAILED}"
  using assms by (auto simp: finish_def dest: ResearchJob_init_fields split: if_splits sum.splits option.splits)

lemma run_once_success:
  assumes inv: "store_inv s" and wf: "schedule_wf sch"
    and ok: "run_once secs sch execute ws jid (m, s) = (Inr res, m', t)"
  shows "\<exists>j rec cl built. get_job ws jid t = Some j \<and> job_status j = result_target res
      \<and> dget (leases t) jid = None \<and> get_result ws jid t = Some rec
      \<and> build_result_record ws jid res cl (job_plan_hash j) = Inr built
      \<and> rec_manifest_sha256 rec = rec_manifest_sha256 built
      \<and> store_inv t"
proof (cases rule: run_once_cases [where sch = sch and ws = ws and jid = jid and secs = secs and s = s
      and execute = execute and m = m])
  case (finished l t0 res' alive t1 rec t2 alive' t3 r t4 m'')
  then obtain j where r: "r = Inr j" and res: "res' = res" and t: "t4 = t"
    using ok by (cases r) auto
  have i1: "store_inv t1"
    using executing_store_inv [OF _ wf, of t0 secs ws jid] claim_inv [OF inv] finished(1,3) by (metis snd_conv)
  have i2: "store_inv t2" using record_result_inv [OF i1] finished(4) by (metis snd_conv)
  have wf3: "events_wf (sch_recorded sch)" using wf by (simp add: schedule_wf_def)
  have i3: "store_inv t3" and le: "store_le t2 t3"
    using heartbeat_inv [OF i2 wf3] heartbeat_le [OF i2 wf3] finished(5) by (metis snd_conv)+
  from record_result_stored [OF finished(4)] obtain j1 cl built where
    stored: "dget (results t2) jid = Some rec" and j1: "dget (jobs t1) jid = Some j1"
    and built: "build_result_record ws jid res cl (job_plan_hash j1) = Inr built"
    and man: "rec_manifest_sha256 rec = rec_manifest_sha256 built" using res by auto
  have fin: "finish ws jid (sch_token sch) (result_target res) None t3 = (Inr j, t)"
    using finished(6) r res t by simp
  note fin_ok = finish_ok [OF fin]
  have i4: "store_inv t"
    using job_effect_inv [OF finish_effect [OF i3] i3] fin by (metis snd_conv)
  have "dget (results t3) jid = Some rec" using le stored by (simp add: store_le_def)
  then have rt: "dget (results t) jid = Some rec" using finish_results fin by (metis snd_conv)
  then have fits: "result_fits rec j"
    using i4 fin_ok(1) by (fastforce simp: store_inv_def inv_results_def)
  have "jobs t2 = jobs t1" using record_result_frame(2) finished(4) by (metis snd_conv)
  then obtain j3 where j3: "dget (jobs t3) jid = Some j3" "job_identity j3 = job_identity j1"
    using le j1 unfolding store_le_def by metis
  have "job_identity j = job_identity j3"
    using job_effect_le [OF finish_effect [OF i3] i3] fin j3(1) fin_ok(1) unfolding store_le_def
    by (metis option.inject snd_conv)
  then have "job_plan_hash j = job_plan_hash j1" using j3(2) job_identity_fields(4) by metis
  then show ?thesis
    using fin_ok rt fits built man i4 by (auto simp: get_job_def get_result_def result_fits_def)
qed (use ok in auto)

lemma run_once_metrics:
  "jobs_failed_total (fst (snd (run_once secs sch execute ws jid (m, s)))) = jobs_failed_total m +
     (if \<not> is_ok (fst (claim (sch_claim sch) ws jid (sch_owner sch) secs (sch_token sch) s)) then 0
      else case fst (run_once secs sch execute ws jid (m, s)) of
             Inl _ \<Rightarrow> 1
           | Inr res \<Rightarrow> if res_status res = ''SUCCEEDED'' then 0 else 1)"
proof (cases rule: run_once_cases [where sch = sch and ws = ws and jid = jid and secs = secs and s = s
      and execute = execute and m = m])
  case (finished l t0 res' alive t1 rec t2 alive' t3 r t4 m'')
  then show ?thesis by (cases r) (auto simp: result_target_def)
qed simp_all

lemma fail_job_dead:
  "token_dead jid token s \<Longrightarrow> \<exists>e'. fail_job ws jid token code e s = (e', s)"
  using token_dead_refused(3) [of jid token s ws FAILED "Some code"] by (auto simp: fail_job_def)

text \<open>A run whose token was superseded while it executed changes nothing any more.\<close>

lemma run_once_fenced:
  assumes claim: "claim (sch_claim sch) ws jid (sch_owner sch) secs (sch_token sch) s = (Inr l, t)"
    and dead: "token_dead jid (sch_token sch) (snd (executing_store secs sch ws jid t))"
    and fresh: "\<forall>(w, opn) \<in> set (env_ops (sch_recorded sch)). \<not> redraws jid (sch_token sch) opn"
  shows "\<exists>e m'. run_once secs sch execute ws jid (m, s) = (Inl e, m',
      if is_ok (execute jid (started_store secs sch ws jid t))
      then run_ops (env_ops (sch_recorded sch)) (snd (executing_store secs sch ws jid t))
      else snd (executing_store secs sch ws jid t))"
proof (cases rule: run_once_cases [where sch = sch and ws = ws and jid = jid and secs = secs and s = s
      and execute = execute and m = m])
  case (refused e t')
  then show ?thesis using claim by simp
next
  case (executor_error l' t' e alive t1 e' t2 m')
  then have "t' = t" "token_dead jid (sch_token sch) t1" using claim dead by auto
  then show ?thesis using executor_error fail_job_dead [of jid "sch_token sch" t1 ws "''executor_error''" e] by auto
next
  case (record_error l' t' res alive t1 e t2 alive' t3 e' t4 m')
  then have t: "t' = t" and d: "token_dead jid (sch_token sch) t1" using claim dead by auto
  have "t2 = t1" using token_dead_refused(2) [OF d] record_error(4) by (metis prod.inject)
  then have t3: "t3 = run_ops (env_ops (sch_recorded sch)) t1" "token_dead jid (sch_token sch) t3"
    using heartbeat_dead [OF d fresh] record_error(5) by (metis snd_conv)+
  then show ?thesis using record_error t fail_job_dead [OF t3(2), of ws "''provenance_error''" e] by auto
next
  case (finished l' t' res' alive t1 rec t2 alive' t3 r t4 m'')
  then have "token_dead jid (sch_token sch) t1" using claim dead by auto
  then obtain e where "record_result (sch_record sch) ws jid (sch_token sch) res' t1 = (Inl e, t1)"
    using token_dead_refused(2) by blast
  then show ?thesis using finished(4) by simp
qed

section \<open>A run in a quiet environment succeeds\<close>

text \<open>
  Quiet until the first expiry: other processes do not present the token, do not claim the job after
  the expiry and do not force a transition of it, and the heartbeat ticks in time.
\<close>

fun quiet_event :: "uuid \<Rightarrow> uuid \<Rightarrow> timestamp \<Rightarrow> int \<Rightarrow> event \<Rightarrow> bool" where
  "quiet_event jid token expires secs (Tick now1 now2) = (now1 < expires \<and> expires \<le> now2 + seconds secs)"
| "quiet_event jid token expires secs (Env w opn) = foreign_op jid token expires opn"

lemma foreign_later: "foreign_op jid token e opn \<Longrightarrow> e \<le> e' \<Longrightarrow> foreign_op jid token e' opn"
  by (cases opn) auto

lemma renew_holds:
  assumes "holds_lease jid token e' job s" and "job_workspace_id job = ws" and "now1 < e'" and "1 \<le> secs"
  shows "renew now1 now2 ws jid token secs s = (Inr \<lparr>lease_job = job, lease_token = token\<rparr>,
      s\<lparr>leases := dset jid (token, now2 + seconds secs) (leases s)\<rparr>)"
  using assms by (simp add: holds_lease_def renew_def lease_valid_iff)

lemma heartbeat_holds:
  assumes "holds_lease jid token e' job s" and "expires \<le> e'" and "job_workspace_id job = ws"
    and "1 \<le> secs" and "\<forall>e \<in> set es. quiet_event jid token expires secs e"
  shows "\<exists>e''. expires \<le> e'' \<and> holds_lease jid token e'' job (snd (heartbeat ws jid token secs alive es s))"
  using assms
proof (induction es arbitrary: alive s e')
  case (Cons e es)
  show ?case
  proof (cases e)
    case (Env w opn)
    have "holds_lease jid token e' job (job_exec w opn s)"
      using Cons.prems Env by (intro holds_lease_step) (auto intro: foreign_later)
    then show ?thesis using Cons Env by simp
  next
    case (Tick n1 n2)
    show ?thesis
    proof (cases alive)
      case True
      have t: "n1 < e'" "expires \<le> n2 + seconds secs" using Cons.prems(2,5) Tick by auto
      note r = renew_holds [OF Cons.prems(1,3) t(1) Cons.prems(4), of n2]
      have "holds_lease jid token (n2 + seconds secs) job (s\<lparr>leases := dset jid (token, n2 + seconds secs) (leases s)\<rparr>)"
        using Cons.prems(1) by (simp add: holds_lease_def)
      from Cons.IH [OF this t(2) Cons.prems(3,4)] Cons.prems(5) show ?thesis
        using Tick True by (simp add: r)
    next
      case False
      then show ?thesis using Cons Tick by simp
    qed
  qed
qed auto

lemma executing_holds:
  assumes "holds_lease jid (sch_token sch) expires job t" and "job_workspace_id job = ws" and "1 \<le> secs"
    and "\<forall>e \<in> set (sch_started sch @ sch_executing sch). quiet_event jid (sch_token sch) expires secs e"
  obtains e' where "expires \<le> e'" "holds_lease jid (sch_token sch) e' job (snd (executing_store secs sch ws jid t))"
proof -
  obtain alive t0 where h: "heartbeat ws jid (sch_token sch) secs True (sch_started sch) t = (alive, t0)" by fastforce
  from heartbeat_holds [OF assms(1) order_refl assms(2,3), of "sch_started sch" True] assms(4) h
  obtain e1 where e1: "expires \<le> e1" "holds_lease jid (sch_token sch) e1 job t0" by auto
  from heartbeat_holds [OF e1(2,1) assms(2,3), of "sch_executing sch" alive] assms(4) h that
  show thesis by (auto simp: executing_store_def)
qed

lemma record_result_accepts:
  assumes "holds_lease jid token e' job s" and "job_workspace_id job = ws" and "now < e'"
    and "res_source_sha256 res = job_source_sha256 job" and "job_claim_uuid job = Inr cl"
    and "build_result_record ws jid res cl (job_plan_hash job) = Inr built"
    and "\<And>r. dget (results s) jid = Some r \<Longrightarrow> rec_manifest_sha256 r = rec_manifest_sha256 built"
  shows "is_ok (fst (record_result now ws jid token res s))"
  using assms by (auto simp: record_result_def lease_valid_iff holds_lease_def split: option.split)

lemma finish_accepts:
  assumes "store_inv s" and "holds_lease jid token e' job s" and "job_workspace_id job = ws"
    and "target \<in> {SUCCEEDED, FAILED}"
  shows "is_ok (fst (finish ws jid token target err s))"
proof -
  have "wf_job job" using assms(1,2) store_inv_job by (auto simp: holds_lease_def)
  then show ?thesis using assms(2-4) wf_job_replace_status(1)
    by (auto simp: finish_def holds_lease_def)
qed

lemma claim_holds:
  assumes "claim now ws jid owner secs token s = (Inr l, t)"
  shows "holds_lease jid token (now + seconds secs) (lease_job l) t" and "1 \<le> secs"
    and "job_workspace_id (lease_job l) = ws"
  using assms by (auto simp: claim_def holds_lease_def dest!: ResearchJob_init_fields
      split: option.splits if_splits sum.splits)

lemma run_once_completes:
  assumes inv: "store_inv s" and wf: "schedule_wf sch"
    and claim: "claim (sch_claim sch) ws jid (sch_owner sch) secs (sch_token sch) s = (Inr l, t)"
    and quiet: "\<forall>e \<in> set (sch_started sch @ sch_executing sch @ sch_recorded sch).
        quiet_event jid (sch_token sch) (sch_claim sch + seconds secs) secs e"
    and in_time: "sch_record sch < sch_claim sch + seconds secs"
    and exec: "execute jid (started_store secs sch ws jid t) = Inr res"
    and src: "res_source_sha256 res = job_source_sha256 (lease_job l)"
    and cl: "job_claim_uuid (lease_job l) = Inr cl"
    and built: "build_result_record ws jid res cl (job_plan_hash (lease_job l)) = Inr built"
    and old: "\<And>r. dget (results (snd (executing_store secs sch ws jid t))) jid = Some r
        \<Longrightarrow> rec_manifest_sha256 r = rec_manifest_sha256 built"
  shows "\<exists>m' u. run_once secs sch execute ws jid (m, s) = (Inr res, m', u)"
proof -
  note held = claim_holds [OF claim]
  obtain e1 where e1: "sch_claim sch + seconds secs \<le> e1"
    "holds_lease jid (sch_token sch) e1 (lease_job l) (snd (executing_store secs sch ws jid t))"
    using executing_holds [OF held(1,3,2)] quiet by auto
  have acc: "is_ok (fst (record_result (sch_record sch) ws jid (sch_token sch) res (snd (executing_store secs sch ws jid t))))"
    using record_result_accepts [OF e1(2) held(3) _ src cl built old] in_time e1(1) by simp
  show ?thesis
  proof (cases rule: run_once_cases [where sch = sch and ws = ws and jid = jid and secs = secs and s = s
      and execute = execute and m = m])
    case (finished l' t' res' alive t1 rec t2 alive' t3 r t4 m'')
    then have eq: "t' = t" "l' = l" "res' = res" using claim exec by auto
    have h2: "holds_lease jid (sch_token sch) e1 (lease_job l) t2"
      using e1(2) finished(3,4) holds_lease_record [of jid _ e1] eq by (metis snd_conv)
    obtain e3 where h3: "holds_lease jid (sch_token sch) e3 (lease_job l) t3"
      using heartbeat_holds [OF h2 e1(1) held(3,2), of "sch_recorded sch" alive] quiet finished(5) by auto
    have i1: "store_inv t1"
      using executing_store_inv [OF _ wf, of t secs ws jid] claim_inv [OF inv] claim finished(3) eq by (metis snd_conv)
    have i2: "store_inv t2" using record_result_inv [OF i1] finished(4) by (metis snd_conv)
    have i3: "store_inv t3"
      using heartbeat_inv [OF i2] wf finished(5) by (metis snd_conv schedule_wf_def)
    have "is_ok r"
      using finish_accepts [OF i3 h3 held(3), of "result_target res" None] finished(6) eq by (simp add: result_target_def)
    then show ?thesis using finished(7) eq by (auto simp: is_ok_iff)
  qed (use claim exec acc in auto)
qed

section \<open>The process loop\<close>

text \<open>
  One message of \<open>StandaloneResearchWorker.run_forever\<close>: run the job with the default lease of 900
  seconds and acknowledge the message when the run returned or left the job in a terminal state.  An
  exception of the queue leaves the loop.
\<close>

definition handle_message ::
  "(int \<Rightarrow> 'q \<Rightarrow> (unit, 'q) outcome) \<Rightarrow> (uuid \<Rightarrow> uuid \<Rightarrow> JobStore \<Rightarrow> ResearchResult result) \<Rightarrow> schedule
    \<Rightarrow> ResearchQueueMessage \<Rightarrow> worker_metrics \<times> JobStore \<times> 'q \<Rightarrow> (unit, worker_metrics \<times> JobStore \<times> 'q) outcome" where
  "handle_message ackq execute sch msg = (\<lambda>(m, s, q).
     (case run_once 900 sch (execute (msg_workspace_id msg)) (msg_workspace_id msg) (msg_research_run_id msg) (m, s) of
        (Inr _, m', s') \<Rightarrow> (case ackq (message_id msg) q of (r, q') \<Rightarrow> (r, m', s', q'))
      | (Inl _, m', s') \<Rightarrow>
          (case get_job (msg_workspace_id msg) (msg_research_run_id msg) s' of
             None \<Rightarrow> (Inr (), m', s', q)
           | Some job \<Rightarrow>
               if ResearchJobStatus_value (job_status job) \<in> {''succeeded'', ''failed'', ''cancelled''}
               then (case ackq (message_id msg) q of (r, q') \<Rightarrow> (r, m', s', q'))
               else (Inr (), m', s', q))))"

text \<open>The loop: one schedule per iteration, until the stop event is set.\<close>

fun run_forever ::
  "('q \<Rightarrow> (ResearchQueueMessage option, 'q) outcome) \<Rightarrow> (int \<Rightarrow> 'q \<Rightarrow> (unit, 'q) outcome)
    \<Rightarrow> (uuid \<Rightarrow> uuid \<Rightarrow> JobStore \<Rightarrow> ResearchResult result) \<Rightarrow> schedule list
    \<Rightarrow> worker_metrics \<times> JobStore \<times> 'q \<Rightarrow> (unit, worker_metrics \<times> JobStore \<times> 'q) outcome" where
  "run_forever recv ackq execute [] st = (Inr (), st)"
| "run_forever recv ackq execute (sch # scs) (m, s, q) =
     (case recv q of
        (Inl e, q') \<Rightarrow> (Inl e, m, s, q')
      | (Inr None, q') \<Rightarrow> run_forever recv ackq execute scs (m, s, q')
      | (Inr (Some msg), q') \<Rightarrow>
          (case handle_message ackq execute sch msg (m, s, q') of
             (Inl e, st) \<Rightarrow> (Inl e, st)
           | (Inr _, st) \<Rightarrow> run_forever recv ackq execute scs st))"

text \<open>What the loop relies on: receiving removes no message, acknowledging removes exactly one id.\<close>

locale work_queue =
  fixes recv :: "'q \<Rightarrow> (ResearchQueueMessage option, 'q) outcome"
    and ackq :: "int \<Rightarrow> 'q \<Rightarrow> (unit, 'q) outcome"
    and held :: "'q \<Rightarrow> int set"
  assumes recv_held: "recv q = (r, q') \<Longrightarrow> held q' = held q"
    and recv_some: "recv q = (Inr (Some msg), q') \<Longrightarrow> message_id msg \<in> held q"
    and ack_ok: "ackq i q = (Inr (), q') \<Longrightarrow> held q' = held q - {i}"
    and ack_error: "ackq i q = (Inl e, q') \<Longrightarrow> held q' = held q"
begin

lemma acked_iff_terminal:
  assumes inv: "store_inv s" and wf: "schedule_wf sch" and there: "message_id msg \<in> held q"
    and run: "handle_message ackq execute sch msg (m, s, q) = (Inr (), m', s', q')"
  shows "message_id msg \<notin> held q' \<longleftrightarrow>
    (\<exists>j. get_job (msg_workspace_id msg) (msg_research_run_id msg) s' = Some j \<and> terminal_status (job_status j))"
proof -
  let ?ws = "msg_workspace_id msg" and ?jid = "msg_research_run_id msg"
  obtain r m1 s1 where r: "run_once 900 sch (execute ?ws) ?ws ?jid (m, s) = (r, m1, s1)"
    by (metis prod.exhaust)
  obtain a q1 where a: "ackq (message_id msg) q = (a, q1)" by fastforce
  have names: "ResearchJobStatus_value st \<in> {''succeeded'', ''failed'', ''cancelled''} \<longleftrightarrow> terminal_status st" for st
    by (cases st) (simp_all add: terminal_status_def)
  show ?thesis
  proof (cases r)
    case (Inr res)
    then obtain j where "get_job ?ws ?jid s1 = Some j" "job_status j = result_target res"
      using run_once_success [OF inv wf] r by blast
    then show ?thesis using run r Inr a ack_ok [of "message_id msg" q q1]
      by (auto simp: handle_message_def result_target_def terminal_status_def)
  next
    case (Inl e)
    then show ?thesis using run r a there ack_ok [of "message_id msg" q q1] unfolding handle_message_def names
      by (auto split: option.splits if_splits)
  qed
qed

end

interpretation memory_queue: work_queue "\<lambda>q. (Inr (fst (receive q)), snd (receive q))" ack "set \<circ> queue_ids"
proof
  fix q q' :: InMemoryQueue and r msg
  show "(Inr (fst (receive q)), snd (receive q)) = (r, q') \<Longrightarrow> (set \<circ> queue_ids) q' = (set \<circ> queue_ids) q"
    by (auto simp: receive_def queue_ids_def split: option.splits prod.splits)
  show "(Inr (fst (receive q)), snd (receive q)) = (Inr (Some msg), q') \<Longrightarrow> message_id msg \<in> (set \<circ> queue_ids) q"
    by (force simp: receive_def queue_ids_def find_Some_iff in_set_conv_nth split: option.splits prod.splits)
next
  fix q q' :: InMemoryQueue and i :: int
  show "ack i q = (Inr (), q') \<Longrightarrow> (set \<circ> queue_ids) q' = (set \<circ> queue_ids) q - {i}"
    by (force simp: ack_def queue_ids_def Let_def split: if_splits)
next
  fix q q' :: InMemoryQueue and i :: int and e
  show "ack i q = (Inl e, q') \<Longrightarrow> (set \<circ> queue_ids) q' = (set \<circ> queue_ids) q"
    by (auto simp: ack_def Let_def split: if_splits)
qed

end
