(* ===== verification/Jobs_Correctness.thy ===== *)
theory Jobs_Correctness
  imports Worker
begin

text \<open>
  The properties of the job subsystem: store, leases, queue and worker together, with concrete
  executions that show each of them at work.
\<close>

section \<open>A concrete job\<close>

definition sample_hash :: string where
  "sample_hash = replicate 64 CHR ''a''"

definition sample_job :: ResearchJob where
  "sample_job = \<lparr>job_id = 11, job_workspace_id = 7, job_dataset_version_id = 3,
     job_workflow_id = ''wf'', job_status = QUEUED, job_source_sha256 = sample_hash,
     job_created_by = None, job_claim_id = None, job_plan_hash = None,
     job_attempt_count = 0, job_max_attempts = 3, job_error_code = None\<rparr>"

definition sample_store :: JobStore where
  "sample_store = job_exec 7 (OpCreate 0 sample_job) empty_store"

definition leased_store :: JobStore where
  "leased_store = job_exec 7 (OpClaim 0 11 ''w'' 900 5) sample_store"

lemma sample_hash_ok: "is_sha256 sample_hash"
  by (simp add: is_sha256_def sample_hash_def hex_digits_def)

lemma sample_not_blank: "\<not> blank ''wf''" "\<not> blank ''w''"
  by (simp_all add: blank_iff py_isspace_def)

lemma sample_job_wf: "wf_job sample_job"
  by (simp add: wf_job_iff sample_job_def sample_hash_ok sample_not_blank validate_optional_sha256_def)

lemma op_step: "op_wf opn \<Longrightarrow> job_step s (job_exec ws opn s)"
  by (auto simp: job_step_def intro: job_step_of.intros)

lemma step_reach: "reach store_init job_step s \<Longrightarrow> op_wf opn \<Longrightarrow> reach store_init job_step (job_exec ws opn s)"
  by (blast intro: reach.reach_next op_step)

lemma sample_store_reach: "reach store_init job_step sample_store"
  unfolding sample_store_def
  by (rule step_reach [OF reach.reach_start]) (simp_all add: store_init_def sample_job_wf)

lemma leased_store_reach: "reach store_init job_step leased_store"
  unfolding leased_store_def by (rule step_reach [OF sample_store_reach]) simp

lemma sample_store_eq: "sample_store = \<lparr>jobs = [(11, sample_job)], leases = [], idempotency = [],
    results = [], created_at = [(11, 0)]\<rparr>"
  by (simp add: sample_store_def create_def empty_store_def sample_job_def)

definition running_job :: ResearchJob where
  "running_job = sample_job\<lparr>job_status := RUNNING, job_attempt_count := 1\<rparr>"

lemma sample_claim: "claim 0 7 11 ''w'' 900 5 sample_store
  = (Inr \<lparr>lease_job = running_job, lease_token = 5\<rparr>,
     sample_store\<lparr>jobs := [(11, running_job)], leases := [(11, 5, 900000000)]\<rparr>)"
proof -
  have "ResearchJob_init (sample_job\<lparr>job_status := RUNNING, job_attempt_count := 1, job_error_code := None\<rparr>)
      = Inr (sample_job\<lparr>job_status := RUNNING, job_attempt_count := 1, job_error_code := None\<rparr>)"
    by (rule wf_job_replace [OF sample_job_wf]) (simp_all add: sample_job_def)
  then show ?thesis
    by (simp add: claim_def sample_store_eq sample_not_blank running_job_def) (simp add: sample_job_def seconds_def)
qed

lemma leased_store_eq: "leased_store = sample_store\<lparr>jobs := [(11, running_job)], leases := [(11, 5, 900000000)]\<rparr>"
  by (simp add: leased_store_def sample_claim)

lemma leased_store_holds: "holds_lease 11 5 900000000 running_job leased_store"
  by (simp add: leased_store_eq holds_lease_def running_job_def)

section \<open>The store\<close>

text \<open>
  C36: In every reachable state the dictionaries of the store agree: each job is stored under its id
  and is one the constructor accepts (so \<open>0 \<le> attempt_count \<le> max_attempts\<close>), leases, results,
  creation times and idempotency reservations belong to existing jobs, and a stored result carries the
  workspace, the source digest and the plan hash of its job.
\<close>

theorem job_store_invariant: "reach store_init job_step s \<Longrightarrow> store_inv s"
  by (rule job_sys.reach_inv)

theorem job_store_invariant_witness: "store_inv leased_store"
  by (rule job_store_invariant [OF leased_store_reach])

text \<open>
  Nothing is ever lost or rewritten: along every run of store calls, jobs keep everything but
  status, attempts and error code, the attempt count never decreases, and results, idempotency
  reservations and creation times stay as they are.
\<close>

lemma job_store_permanence:
  assumes "reach store_init job_step s" and "job_step\<^sup>*\<^sup>* s t"
  shows "store_le s t"
  using assms by (rule job_sys.reach_run_rel)

text \<open>
  C13: Tenant isolation: whatever sequence of store calls other workspaces make, a workspace keeps
  seeing exactly the same jobs, leases, results, creation times and idempotency reservations.
\<close>

theorem job_store_tenant_isolation:
  assumes "reach store_init job_step s" and "(others job_step_of w)\<^sup>*\<^sup>* s t"
  shows "tenant_view w t = tenant_view w s"
  using job_tenants.others_run [OF assms(2) job_sys.reach_inv [OF assms(1)]] by simp

theorem job_store_tenant_isolation_witness:
  "tenant_view 8 leased_store = tenant_view 8 sample_store"
proof (rule job_store_tenant_isolation [OF sample_store_reach])
  show "(others job_step_of 8)\<^sup>*\<^sup>* sample_store leased_store"
    unfolding leased_store_def others_def by (intro r_into_rtranclp exI [of _ 7] conjI job_step_of.intros) simp_all
qed

text \<open>
  C3: \<open>create_idempotent\<close> runs exactly once per key: after a first successful request, and after any
  further requests of any tenant, the same request returns the job of the first one with the replay
  flag and changes nothing, and a request that reuses the key with another fingerprint is refused and
  changes nothing.
\<close>

theorem create_idempotent_exactly_once:
  assumes "create_idempotent now (job_workspace_id job) job k f s = (Inr (j, b), t)"
  shows "serve_create (serve_all serve_create t rs) (now', job\<lparr>job_id := any_id\<rparr>, k, f)
      = (Inr (j, True), serve_all serve_create t rs)
    \<and> (f' \<noteq> f \<longrightarrow> (\<exists>e. serve_create (serve_all serve_create t rs) (now', job\<lparr>job_id := any_id\<rparr>, k, f')
      = (Inl e, serve_all serve_create t rs)))"
proof -
  have first: "serve_create s (now, job, k, f) = (Inr (j, b), t)" using assms by simp
  have seen: "map_option fst (dget (idempotency t) (job_workspace_id job, k)) = Some f"
    using assms by (auto simp: create_idempotent_def split: option.splits if_splits)
  have rec: "map_option snd (dget (idempotency t) (job_workspace_id job, k)) = Some j"
    using assms by (auto simp: create_idempotent_def split: option.splits if_splits)
  have "serve_create (serve_all serve_create t rs) (now', job\<lparr>job_id := any_id\<rparr>, k, f)
      = (Inr (j, True), serve_all serve_create t rs)"
    using job_idem.replay_after_anything [of t "(now', job\<lparr>job_id := any_id\<rparr>, k, f)" j rs] seen rec by simp
  moreover have "\<exists>e. serve_create (serve_all serve_create t rs) (now', job\<lparr>job_id := any_id\<rparr>, k, f')
      = (Inl e, serve_all serve_create t rs)" if "f' \<noteq> f"
    using job_idem.clash_refused [of t "(now', job\<lparr>job_id := any_id\<rparr>, k, f')" f rs] seen that by simp
  ultimately show ?thesis by blast
qed

theorem create_idempotent_exactly_once_witness:
  "serve_create (snd (create_idempotent 0 7 sample_job ''k'' ''f'' empty_store)) (9, sample_job\<lparr>job_id := 2\<rparr>, ''k'', ''f'')
     = (Inr (sample_job, True), snd (create_idempotent 0 7 sample_job ''k'' ''f'' empty_store))
   \<and> (\<exists>e. serve_create (snd (create_idempotent 0 7 sample_job ''k'' ''f'' empty_store)) (9, sample_job\<lparr>job_id := 2\<rparr>, ''k'', ''g'')
     = (Inl e, snd (create_idempotent 0 7 sample_job ''k'' ''f'' empty_store)))"
proof -
  have ws: "job_workspace_id sample_job = 7" by (simp add: sample_job_def)
  have first: "create_idempotent 0 (job_workspace_id sample_job) sample_job ''k'' ''f'' empty_store
      = (Inr (sample_job, False), snd (create_idempotent 0 7 sample_job ''k'' ''f'' empty_store))"
    by (simp add: create_idempotent_def empty_store_def ws)
  show ?thesis
    using create_idempotent_exactly_once [OF first, of "[]" 9 2 "''g''"] by simp
qed

section \<open>Leases\<close>

text \<open>
  C1: Mutual exclusion: while a lease is in force, no sequence of calls that does not present its
  token (creations, claims of the job before the expiry, renewals, results and finishes with other
  tokens, anything on other jobs) takes the lease away or touches the job, and every claim of the job
  before the expiry is refused.
\<close>

theorem lease_exclusion:
  assumes "holds_lease jid token expires job s"
    and "\<forall>(ws, opn) \<in> set ops. foreign_op jid token expires opn"
  shows "holds_lease jid token expires job (run_ops ops s)
    \<and> (now < expires \<longrightarrow> \<not> is_ok (fst (claim now ws jid owner secs tok (run_ops ops s))))"
  using run_ops_holds [OF assms] holds_lease_claim [OF run_ops_holds [OF assms]] by blast

theorem lease_exclusion_witness:
  "holds_lease 11 5 900000000 running_job (run_ops [(7, OpClaim 1 11 ''x'' 60 6), (7, OpFinish 11 6 FAILED None)] leased_store)
   \<and> \<not> is_ok (fst (claim 2 7 11 ''x'' 60 6 (run_ops [(7, OpClaim 1 11 ''x'' 60 6), (7, OpFinish 11 6 FAILED None)] leased_store)))"
  using lease_exclusion [OF leased_store_holds, of "[(7, OpClaim 1 11 ''x'' 60 6), (7, OpFinish 11 6 FAILED None)]" 2 7 "''x''" 60 6]
  by auto

text \<open>
  C2: Fencing: once another claim has won the job, the superseded token is refused by \<open>renew\<close>,
  \<open>record_result\<close> and \<open>finish\<close>, without any change, after every further sequence of calls that does
  not draw the same token again.
\<close>

theorem superseded_token_fenced:
  assumes "claim now ws jid owner secs tok s = (Inr l, t)" and "tok \<noteq> token"
    and "\<forall>(ws, opn) \<in> set ops. \<not> redraws jid token opn"
  shows "\<exists>e1 e2 e3. renew n1 n2 w jid token secs' (run_ops ops t) = (Inl e1, run_ops ops t)
    \<and> record_result n1 w jid token res (run_ops ops t) = (Inl e2, run_ops ops t)
    \<and> finish w jid token target err (run_ops ops t) = (Inl e3, run_ops ops t)"
  using token_dead_refused [OF run_ops_dead [OF claim_supersedes [OF assms(1,2)] assms(3)]] by blast

theorem superseded_token_fenced_witness:
  "\<exists>e1 e2 e3. renew 1 1 7 11 4 60 (run_ops [(7, OpClaim 1 11 ''x'' 60 6)] leased_store) = (Inl e1, run_ops [(7, OpClaim 1 11 ''x'' 60 6)] leased_store)
    \<and> record_result 1 7 11 4 \<lparr>res_status = ''FAILED'', res_source_sha256 = sample_hash, res_artifacts = [], res_failures = []\<rparr>
        (run_ops [(7, OpClaim 1 11 ''x'' 60 6)] leased_store) = (Inl e2, run_ops [(7, OpClaim 1 11 ''x'' 60 6)] leased_store)
    \<and> finish 7 11 4 SUCCEEDED None (run_ops [(7, OpClaim 1 11 ''x'' 60 6)] leased_store) = (Inl e3, run_ops [(7, OpClaim 1 11 ''x'' 60 6)] leased_store)"
proof -
  have won: "claim 0 7 11 ''w'' 900 5 sample_store = (Inr \<lparr>lease_job = running_job, lease_token = 5\<rparr>, leased_store)"
    by (simp add: sample_claim leased_store_eq)
  show ?thesis by (rule superseded_token_fenced [OF won]) simp_all
qed

text \<open>
  C37: Bounded retries: from any reachable state, along any sequence of calls, the attempt count of a
  job grows by exactly the number of claims won on it, and stays within its \<open>max_attempts\<close>.
\<close>

theorem retries_bounded:
  assumes "reach store_init job_step s" and "\<forall>(ws, opn) \<in> set ops. op_wf opn"
    and "dget (jobs s) jid = Some j"
  shows "\<exists>j'. dget (jobs (run_ops ops s)) jid = Some j'
    \<and> job_attempt_count j' = job_attempt_count j + int (claims_won jid ops s)
    \<and> job_attempt_count j + int (claims_won jid ops s) \<le> job_max_attempts j"
proof -
  have inv: "store_inv s" by (rule job_sys.reach_inv [OF assms(1)])
  obtain j' where j': "dget (jobs (run_ops ops s)) jid = Some j'" "job_identity j' = job_identity j"
    "job_attempt_count j' = job_attempt_count j + int (claims_won jid ops s)"
    using run_ops_wins [OF inv assms(2,3)] by blast
  moreover have "job_attempt_count j' \<le> job_max_attempts j'"
    using store_inv_job [OF run_ops_inv [OF inv assms(2)] j'(1)] wf_job_counts by blast
  moreover have "job_max_attempts j' = job_max_attempts j" by (rule job_identity_fields(5) [OF j'(2)])
  ultimately show ?thesis by auto
qed

theorem retries_bounded_witness:
  "\<exists>j'. dget (jobs (run_ops [(7, OpClaim 0 11 ''w'' 900 5)] sample_store)) 11 = Some j'
    \<and> job_attempt_count j' = job_attempt_count sample_job + int (claims_won 11 [(7, OpClaim 0 11 ''w'' 900 5)] sample_store)
    \<and> job_attempt_count sample_job + int (claims_won 11 [(7, OpClaim 0 11 ''w'' 900 5)] sample_store) \<le> job_max_attempts sample_job"
  by (rule retries_bounded [OF sample_store_reach]) (simp_all add: sample_store_eq)

text \<open>
  C38: Refinement of the life cycle: as long as nobody forces a transition of a job, every sequence of
  store calls moves it only along \<open>life\<close> (start or restart while attempts are left, fail when they
  are used up, end from \<open>RUNNING\<close>); a job in a terminal status therefore never leaves it.
\<close>

theorem job_life_cycle:
  assumes "reach store_init job_step s" and "dget (jobs s) jid = Some j"
    and "\<forall>(ws, opn) \<in> set ops. op_wf opn \<and> (\<forall>e t. opn \<noteq> OpTransition jid e t)"
  shows "\<exists>j'. dget (jobs (run_ops ops s)) jid = Some j'
    \<and> (life (job_max_attempts j))\<^sup>*\<^sup>* (job_phase j) (job_phase j')
    \<and> (terminal_status (job_status j) \<longrightarrow> job_phase j' = job_phase j)"
proof -
  obtain j' where "dget (jobs (run_ops ops s)) jid = Some j'"
    "(life (job_max_attempts j))\<^sup>*\<^sup>* (job_phase j) (job_phase j')"
    using run_ops_life [OF job_sys.reach_inv [OF assms(1)] assms(3,2)] by blast
  then show ?thesis using life_terminal by (auto simp: job_phase_def)
qed

theorem job_life_cycle_witness:
  "\<exists>j'. dget (jobs (run_ops [(7, OpFinish 11 5 SUCCEEDED None)] leased_store)) 11 = Some j'
    \<and> (life (job_max_attempts running_job))\<^sup>*\<^sup>* (job_phase running_job) (job_phase j')"
proof -
  have "\<forall>(ws, opn) \<in> set [(7, OpFinish 11 5 SUCCEEDED None)]. op_wf opn \<and> (\<forall>e t. opn \<noteq> OpTransition 11 e t)"
    by simp
  from job_life_cycle [OF leased_store_reach _ this, of running_job] show ?thesis
    by (auto simp: leased_store_eq)
qed

text \<open>
  The life cycle ends: a job whose attempts are within bounds takes at most
  \<open>max_attempts - attempt_count + 1\<close> steps of it, and none once it is terminal.
\<close>

lemma job_life_bounded:
  assumes "(life max_n ^^ k) (job_phase j) p"
  shows "k \<le> nat (max_n - job_attempt_count j) + (if terminal_status (job_status j) then 0 else 1)"
  using life_steps_bounded [OF assms] by (simp add: job_phase_def)

text \<open>
  \<open>list\<close> with its default sort field fails: whenever the workspace has a job that passes the
  filters, sorting by \<open>created_at\<close> raises \<open>AttributeError\<close>, because a job has no such attribute.
\<close>

lemma list_default_sort_fails:
  assumes "wf_dict (jobs s)" and "1 \<le> limit" and "limit \<le> 100" and "0 \<le> offset"
    and "order = ''asc'' \<or> order = ''desc''"
    and "dget (jobs s) k = Some j" and "job_workspace_id j = ws"
  shows "list_jobs ws limit offset None None ''created_at'' order s
    = Inl (AttributeError ''ResearchJob object has no attribute created_at'')"
proof -
  have "j \<in> set (dvalues (jobs s))" using assms(1,6) by (auto simp: dvalues_iff)
  then have "filter (\<lambda>job. job_workspace_id job = ws) (dvalues (jobs s)) \<noteq> []"
    using assms(7) by (auto simp: filter_empty_conv)
  then show ?thesis using assms(2-5) by (auto simp: list_jobs_def Let_def)
qed

section \<open>The queue\<close>

text \<open>
  The in-memory queue is first-in first-out and delivers each message once: as long as the
  message ids are distinct, consecutive receives return the messages not yet received, in queue order
  and each exactly once, and then nothing.
\<close>

lemma queue_fifo_once:
  assumes "unique_ids q"
  shows "receive_n (length (pending q) + k) q = map (Some \<circ> as_message q) (pending q) @ replicate k None"
  using assms by (rule receive_fifo)

definition two_messages :: InMemoryQueue where
  "two_messages = snd (enqueue 7 12 None (snd (enqueue 7 11 (Some ''r'') empty_queue)))"

text \<open>
  \<open>enqueue\<close> reuses message ids after an acknowledgement: with two messages queued, acknowledging
  the first and enqueuing a third gives the third the id of the second; when the second is in
  flight the third is never delivered, and acknowledging the second drops the third as well.
\<close>

lemma queue_id_reuse:
  fixes w a b c :: uuid
  defines "q2 \<equiv> snd (receive (snd (receive (snd (enqueue w b None (snd (enqueue w a None empty_queue)))))))"
  defines "q3 \<equiv> snd (enqueue w c None (snd (ack 1 q2)))"
  shows "messages q3 = [(2, w, b), (2, w, c)] \<and> fst (receive q3) = None \<and> messages (snd (ack 2 q3)) = []"
  by (simp add: q3_def q2_def ack_def receive_def enqueue_def empty_queue_def Let_def)

section \<open>The worker\<close>

definition sample_result :: ResearchResult where
  "sample_result = \<lparr>res_status = ''SUCCEEDED'', res_source_sha256 = sample_hash,
     res_artifacts = [], res_failures = []\<rparr>"

definition sample_schedule :: schedule where
  "sample_schedule = \<lparr>sch_claim = 0, sch_owner = ''w'', sch_token = 5, sch_started = [Tick 300000000 300000001],
     sch_executing = [Env 7 (OpClaim 400000000 11 ''x'' 900 6)], sch_record = 500000000, sch_recorded = []\<rparr>"

text \<open>
  C14: A run of the worker that returns a result has made it durable: whatever other processes and
  its own heartbeat did in between, the job is then in the terminal status of the result, its lease is
  gone, and the store holds a result record for the job with the manifest digest of exactly that result.
\<close>

theorem worker_success_is_recorded:
  assumes "reach store_init job_step s" and "schedule_wf sch"
    and "run_once secs sch execute ws jid (m, s) = (Inr res, m', t)"
  shows "\<exists>j rec. get_job ws jid t = Some j \<and> job_status j = result_target res
      \<and> dget (leases t) jid = None \<and> get_result ws jid t = Some rec
      \<and> rec_manifest_sha256 rec = manifest_sha256 res"
proof -
  obtain j rec cl built where run: "get_job ws jid t = Some j" "job_status j = result_target res"
    "dget (leases t) jid = None" "get_result ws jid t = Some rec"
    "build_result_record ws jid res cl (job_plan_hash j) = Inr built"
    "rec_manifest_sha256 rec = rec_manifest_sha256 built"
    using run_once_success [OF job_sys.reach_inv [OF assms(1)] assms(2,3)] by blast
  have "rec_manifest_sha256 built = manifest_sha256 res" by (rule build_result_record_Inr(3) [OF run(5)])
  with run show ?thesis by auto
qed

text \<open>The record of a well-formed result can be built for every constructed job.\<close>

lemma build_result_record_job:
  assumes "wf_job j" "wf_result r" "job_claim_uuid j = Inr cl"
  shows "\<exists>record. build_result_record ws run r cl (job_plan_hash j) = Inr record"
proof -
  have "(cl = None) = (job_plan_hash j = None)"
    using assms(1,3) by (cases "job_claim_id j"; cases cl) (auto simp: wf_job_iff job_claim_uuid_def blank_iff split: option.splits if_splits)
  moreover have "is_ok (validate_optional_sha256 (job_plan_hash j) ''plan_hash'')" using assms(1) by (simp add: wf_job_iff)
  ultimately show ?thesis using assms(2)
    by (auto simp: build_result_record_def ResearchRunResultRecord_init_def wf_result_def manifest_sha256_def
        validate_optional_sha256_def is_ok_iff split: option.splits sum.splits)
qed

text \<open>
  C39: A run completes in a quiet environment.  The conditions are: the claim is won; other processes stay
  away from the lease until it would expire and the heartbeat ticks in time; the result is recorded before
  the expiry; the executor returns a well-formed result for the source digest of the job; the claim id of
  the job, if it has one, is the text of a UUID; and if a result was stored for the job before, it has the
  same manifest digest.  Then the run returns exactly that result.
\<close>

theorem worker_run_completes:
  assumes "reach store_init job_step s" and "schedule_wf sch"
    and "claim (sch_claim sch) ws jid (sch_owner sch) secs (sch_token sch) s = (Inr l, t)"
    and "\<forall>e \<in> set (sch_started sch @ sch_executing sch @ sch_recorded sch).
        quiet_event jid (sch_token sch) (sch_claim sch + seconds secs) secs e"
    and "sch_record sch < sch_claim sch + seconds secs"
    and "execute jid (started_store secs sch ws jid t) = Inr res" and "wf_result res"
    and "res_source_sha256 res = job_source_sha256 (lease_job l)"
    and "\<And>c. job_claim_id (lease_job l) = Some c \<Longrightarrow> py_uuid c \<noteq> None"
    and "\<And>r. dget (results (snd (executing_store secs sch ws jid t))) jid = Some r
        \<Longrightarrow> rec_manifest_sha256 r = manifest_sha256 res"
  shows "\<exists>m' u. run_once secs sch execute ws jid (m, s) = (Inr res, m', u)"
proof -
  note inv = job_sys.reach_inv [OF assms(1)]
  have "store_inv t" using claim_inv [OF inv] assms(3) by (metis snd_conv)
  moreover have "dget (jobs t) jid = Some (lease_job l)" using claim_holds(1) [OF assms(3)] by (simp add: holds_lease_def)
  ultimately have "wf_job (lease_job l)" by (simp add: store_inv_job)
  moreover obtain cl where cl: "job_claim_uuid (lease_job l) = Inr cl"
  proof (cases "job_claim_id (lease_job l)")
    case (Some c)
    then obtain u where "py_uuid c = Some u" using assms(9) by blast
    then show ?thesis using that Some by (cases "c = []") (auto simp: job_claim_uuid_def)
  qed (auto simp: job_claim_uuid_def)
  ultimately obtain built where built: "build_result_record ws jid res cl (job_plan_hash (lease_job l)) = Inr built"
    using build_result_record_job [OF _ assms(7)] by blast
  show ?thesis
    using run_once_completes [where execute = execute and res = res and built = built and cl = cl and m = m,
        OF inv assms(2,3,4,5,6,8) cl built]
      assms(10) build_result_record_Inr(3) [OF built] by simp
qed

lemma sample_schedule_wf: "schedule_wf sample_schedule"
  by (simp add: schedule_wf_def events_wf_def sample_schedule_def)

lemma sample_executing: "results (snd (executing_store 900 sample_schedule 7 11 leased_store)) = []"
proof -
  have renewed: "renew 300000000 300000001 7 11 5 900 leased_store
      = (Inr \<lparr>lease_job = running_job, lease_token = 5\<rparr>, leased_store\<lparr>leases := [(11, 5, 1200000001)]\<rparr>)"
    using renew_holds [OF leased_store_holds, of 7 300000000 900 300000001]
    by (simp add: running_job_def sample_job_def leased_store_eq seconds_def)
  have "holds_lease 11 5 1200000001 running_job (leased_store\<lparr>leases := [(11, 5, 1200000001)]\<rparr>)"
    by (simp add: leased_store_eq holds_lease_def running_job_def)
  from holds_lease_claim [OF this, of 400000000 7 "''x''" 900 6] show ?thesis
    by (simp add: executing_store_def sample_schedule_def renewed) (simp add: leased_store_eq sample_store_eq)
qed

lemma sample_claim_schedule:
  "claim (sch_claim sample_schedule) 7 11 (sch_owner sample_schedule) 900 (sch_token sample_schedule) sample_store
    = (Inr \<lparr>lease_job = running_job, lease_token = 5\<rparr>, leased_store)"
  by (simp add: sample_schedule_def sample_claim leased_store_eq)

lemma sample_result_wf: "wf_result sample_result"
  by (simp add: wf_result_def sample_result_def sample_hash_ok)

theorem worker_run_completes_witness:
  "\<exists>m' u. run_once 900 sample_schedule (\<lambda>_ _. Inr sample_result) 7 11
      (\<lparr>jobs_failed_total = 0, jobs_retries_total = 0\<rparr>, sample_store) = (Inr sample_result, m', u)"
  by (rule worker_run_completes [OF sample_store_reach sample_schedule_wf sample_claim_schedule])
    (simp_all add: sample_result_wf sample_executing,
     simp_all add: sample_schedule_def seconds_def running_job_def sample_job_def sample_result_def)

lemma sample_run:
  obtains m' u where "run_once 900 sample_schedule (\<lambda>_ _. Inr sample_result) 7 11
      (\<lparr>jobs_failed_total = 0, jobs_retries_total = 0\<rparr>, sample_store) = (Inr sample_result, m', u)"
proof -
  obtain built where "build_result_record 7 11 sample_result None None = Inr built"
    using build_result_record_wf [OF sample_result_wf, of None None] by auto
  then have "\<exists>m' u. run_once 900 sample_schedule (\<lambda>_ _. Inr sample_result) 7 11
      (\<lparr>jobs_failed_total = 0, jobs_retries_total = 0\<rparr>, sample_store) = (Inr sample_result, m', u)"
    by (intro run_once_completes [OF job_sys.reach_inv [OF sample_store_reach] sample_schedule_wf sample_claim_schedule,
          where cl = None and built = built])
      (simp_all add: sample_executing, simp_all add: sample_schedule_def seconds_def running_job_def
        sample_job_def sample_result_def job_claim_uuid_def)
  then show thesis using that by blast
qed

theorem worker_success_is_recorded_witness:
  "\<exists>t j rec. get_job 7 11 t = Some j \<and> job_status j = SUCCEEDED \<and> dget (leases t) 11 = None
     \<and> get_result 7 11 t = Some rec \<and> rec_manifest_sha256 rec = manifest_sha256 sample_result"
proof -
  obtain m' u where "run_once 900 sample_schedule (\<lambda>_ _. Inr sample_result) 7 11
      (\<lparr>jobs_failed_total = 0, jobs_retries_total = 0\<rparr>, sample_store) = (Inr sample_result, m', u)"
    by (rule sample_run)
  from worker_success_is_recorded [OF sample_store_reach sample_schedule_wf this]
  show ?thesis by (auto simp: result_target_def sample_result_def)
qed

text \<open>
  A worker that lost its lease while executing does no harm: when its token is no longer in force
  at the end of the execution, the run raises, and the store is the one the other processes leave, with no
  result, status change or lease change of the run in it.
\<close>

lemma worker_fenced:
  assumes "claim (sch_claim sch) ws jid (sch_owner sch) secs (sch_token sch) s = (Inr l, t)"
    and "token_dead jid (sch_token sch) (snd (executing_store secs sch ws jid t))"
    and "\<forall>(w, opn) \<in> set (env_ops (sch_recorded sch)). \<not> redraws jid (sch_token sch) opn"
  shows "\<exists>e m'. run_once secs sch execute ws jid (m, s) = (Inl e, m',
      if is_ok (execute jid (started_store secs sch ws jid t))
      then run_ops (env_ops (sch_recorded sch)) (snd (executing_store secs sch ws jid t))
      else snd (executing_store secs sch ws jid t))"
  using assms by (rule run_once_fenced)

definition stolen_schedule :: schedule where
  "stolen_schedule = sample_schedule\<lparr>sch_started := [],
     sch_executing := [Env 7 (OpTransition 11 RUNNING QUEUED), Env 7 (OpClaim 800000000 11 ''x'' 900 6)]\<rparr>"

lemma stolen_dead: "token_dead 11 5 (snd (executing_store 900 stolen_schedule 7 11 leased_store))"
proof -
  have wf: "wf_job running_job"
    using store_inv_job [OF job_sys.reach_inv [OF leased_store_reach], of 11 running_job]
    by (simp add: leased_store_eq)
  have t: "transition 7 11 RUNNING QUEUED leased_store
      = (Inr (running_job\<lparr>job_status := QUEUED\<rparr>), leased_store\<lparr>jobs := [(11, running_job\<lparr>job_status := QUEUED\<rparr>)]\<rparr>)"
    using wf_job_replace_status(2) [OF wf, of QUEUED]
    by (simp add: transition_def leased_store_eq running_job_def sample_job_def)
  have "is_ok (fst (claim 800000000 7 11 ''x'' 900 6 (leased_store\<lparr>jobs := [(11, running_job\<lparr>job_status := QUEUED\<rparr>)]\<rparr>)))"
    using wf_job_replace [OF wf, where n = 2 and st = RUNNING and err = None]
    by (simp add: claim_def leased_store_eq blank_iff py_isspace_def running_job_def sample_job_def)
  then obtain l u where won: "claim 800000000 7 11 ''x'' 900 6 (leased_store\<lparr>jobs := [(11, running_job\<lparr>job_status := QUEUED\<rparr>)]\<rparr>) = (Inr l, u)"
    by (metis is_ok_iff prod.collapse)
  from claim_supersedes [OF won, of 5] show ?thesis
    using won by (simp add: executing_store_def stolen_schedule_def sample_schedule_def t)
qed

text \<open>
  The failure counter is exact: a run that claims its job adds one to \<open>jobs_failed_total\<close> unless
  it returns a result with status \<open>SUCCEEDED\<close>; a run that does not get its lease adds nothing.
\<close>

lemma worker_failure_count:
  "jobs_failed_total (fst (snd (run_once secs sch execute ws jid (m, s)))) = jobs_failed_total m +
     (if \<not> is_ok (fst (claim (sch_claim sch) ws jid (sch_owner sch) secs (sch_token sch) s)) then 0
      else case fst (run_once secs sch execute ws jid (m, s)) of
             Inl _ \<Rightarrow> 1
           | Inr res \<Rightarrow> if res_status res = ''SUCCEEDED'' then 0 else 1)"
  by (rule run_once_metrics)

text \<open>
  C35: The process loop acknowledges a message exactly when its job is finished: handling a queued
  message without a queue error removes it from the in-memory queue if and only if its job is then in
  a terminal status; every other message stays for redelivery.
\<close>

theorem message_acked_iff_terminal:
  assumes "reach store_init job_step s" and "schedule_wf sch" and "message_id msg \<in> set (queue_ids q)"
    and "handle_message ack execute sch msg (m, s, q) = (Inr (), m', s', q')"
  shows "message_id msg \<notin> set (queue_ids q') \<longleftrightarrow>
    (\<exists>j. get_job (msg_workspace_id msg) (msg_research_run_id msg) s' = Some j \<and> terminal_status (job_status j))"
  using memory_queue.acked_iff_terminal [OF job_sys.reach_inv [OF assms(1)] assms(2)] assms(3,4) by simp

theorem message_acked_iff_terminal_witness:
  "\<exists>s'. 1 \<notin> set (queue_ids (snd (ack 1 two_messages)))
    \<and> (\<exists>j. get_job 7 11 s' = Some j \<and> terminal_status (job_status j))"
proof -
  let ?msg = "\<lparr>message_id = 1, msg_workspace_id = 7, msg_research_run_id = 11, msg_request_id = None\<rparr>"
  obtain m' u where run: "run_once 900 sample_schedule (\<lambda>_ _. Inr sample_result) 7 11
      (\<lparr>jobs_failed_total = 0, jobs_retries_total = 0\<rparr>, sample_store) = (Inr sample_result, m', u)"
    by (rule sample_run)
  then have "handle_message ack (\<lambda>_ _ _. Inr sample_result) sample_schedule ?msg
      (\<lparr>jobs_failed_total = 0, jobs_retries_total = 0\<rparr>, sample_store, two_messages)
      = (Inr (), m', u, snd (ack 1 two_messages))"
    by (simp add: handle_message_def ack_def Let_def)
  then have "message_id ?msg \<notin> set (queue_ids (snd (ack 1 two_messages))) \<longleftrightarrow>
    (\<exists>j. get_job (msg_workspace_id ?msg) (msg_research_run_id ?msg) u = Some j \<and> terminal_status (job_status j))"
    by (intro message_acked_iff_terminal [OF sample_store_reach sample_schedule_wf])
      (auto simp: two_messages_def enqueue_def queue_ids_def empty_queue_def Let_def)
  moreover have "1 \<notin> set (queue_ids (snd (ack 1 two_messages)))"
    by (auto simp: two_messages_def enqueue_def queue_ids_def empty_queue_def ack_def Let_def)
  ultimately show ?thesis by auto
qed

end
