(* ===== verification/Access_Control.thy ===== *)
theory Access_Control
  imports Saas_Contracts Interfaces
begin

text \<open>
  The authorization contract of the API (\<open>researchos/saas/auth/permissions.py\<close>): roles, resources and
  actions, the policy table, the resolution of names and aliases, and the guard that
  \<open>require_permission\<close> puts around a handler.
\<close>

datatype Role = Role_OWNER | Role_ADMIN | Role_RESEARCHER | Role_VIEWER | Role_BILLING_ADMIN

datatype Resource =
    Res_WORKSPACE | Res_DATASET | Res_DATASET_VERSION | Res_JOB | Res_CLAIM | Res_PLAN
  | Res_EVIDENCE | Res_FINDING | Res_BILLING

datatype Action = Act_CREATE | Act_READ | Act_LIST | Act_UPDATE | Act_DELETE

fun Resource_value :: "Resource \<Rightarrow> string" where
  "Resource_value Res_WORKSPACE = ''workspace''"
| "Resource_value Res_DATASET = ''dataset''"
| "Resource_value Res_DATASET_VERSION = ''dataset_version''"
| "Resource_value Res_JOB = ''job''"
| "Resource_value Res_CLAIM = ''claim''"
| "Resource_value Res_PLAN = ''plan''"
| "Resource_value Res_EVIDENCE = ''evidence''"
| "Resource_value Res_FINDING = ''finding''"
| "Resource_value Res_BILLING = ''billing''"

fun Action_value :: "Action \<Rightarrow> string" where
  "Action_value Act_CREATE = ''create''"
| "Action_value Act_READ = ''read''"
| "Action_value Act_LIST = ''list''"
| "Action_value Act_UPDATE = ''update''"
| "Action_value Act_DELETE = ''delete''"

definition all_resources :: "Resource list" where
  "all_resources = [Res_WORKSPACE, Res_DATASET, Res_DATASET_VERSION, Res_JOB, Res_CLAIM, Res_PLAN,
     Res_EVIDENCE, Res_FINDING, Res_BILLING]"

definition all_actions :: "Action list" where
  "all_actions = [Act_CREATE, Act_READ, Act_LIST, Act_UPDATE, Act_DELETE]"

definition READ :: "Action list" where
  "READ = [Act_READ, Act_LIST]"

definition WRITE :: "Action list" where
  "WRITE = [Act_CREATE, Act_READ, Act_LIST, Act_UPDATE]"

definition MUTATE :: "Action list" where
  "MUTATE = [Act_CREATE, Act_READ, Act_LIST, Act_UPDATE, Act_DELETE]"

fun POLICY :: "Role \<Rightarrow> Resource \<Rightarrow> Action list" where
  "POLICY Role_OWNER _ = MUTATE"
| "POLICY Role_ADMIN Res_WORKSPACE = [Act_READ, Act_LIST, Act_UPDATE]"
| "POLICY Role_ADMIN Res_DATASET = MUTATE"
| "POLICY Role_ADMIN Res_DATASET_VERSION = MUTATE"
| "POLICY Role_ADMIN Res_JOB = MUTATE"
| "POLICY Role_ADMIN Res_CLAIM = WRITE"
| "POLICY Role_ADMIN Res_PLAN = WRITE"
| "POLICY Role_ADMIN Res_EVIDENCE = READ"
| "POLICY Role_ADMIN Res_FINDING = WRITE"
| "POLICY Role_ADMIN Res_BILLING = [Act_READ, Act_LIST, Act_UPDATE]"
| "POLICY Role_RESEARCHER Res_WORKSPACE = READ"
| "POLICY Role_RESEARCHER Res_DATASET = WRITE"
| "POLICY Role_RESEARCHER Res_DATASET_VERSION = WRITE"
| "POLICY Role_RESEARCHER Res_JOB = WRITE"
| "POLICY Role_RESEARCHER Res_CLAIM = WRITE"
| "POLICY Role_RESEARCHER Res_PLAN = WRITE"
| "POLICY Role_RESEARCHER Res_EVIDENCE = READ"
| "POLICY Role_RESEARCHER Res_FINDING = WRITE"
| "POLICY Role_RESEARCHER Res_BILLING = []"
| "POLICY Role_VIEWER res = (if res \<noteq> Res_BILLING then READ else [])"
| "POLICY Role_BILLING_ADMIN res = (if res \<noteq> Res_BILLING then READ else [Act_READ, Act_LIST, Act_UPDATE])"

definition RESOURCE_ALIASES :: "(string, string) dict" where
  "RESOURCE_ALIASES = [(''research-run'', ''job''), (''research_claim'', ''claim''),
     (''research-claim'', ''claim''), (''dataset-version'', ''dataset_version'')]"

text \<open>An argument that is an enum member or its name as a string.\<close>

type_synonym 'e named = "'e + string"

definition resource_of :: "Resource named \<Rightarrow> Resource result" where
  "resource_of v =
     (let raw = (case v of Inl r \<Rightarrow> Resource_value r | Inr s \<Rightarrow> py_lower (py_strip s));
          raw = (case dget RESOURCE_ALIASES raw of None \<Rightarrow> raw | Some a \<Rightarrow> a)
      in case find (\<lambda>r. Resource_value r = raw) all_resources of
           None \<Rightarrow> Inl (ValueError (''unknown authorization resource: ''
             @ (case v of Inl r \<Rightarrow> Resource_value r | Inr s \<Rightarrow> s)))
         | Some r \<Rightarrow> Inr r)"

definition canonical_resource :: "Resource named \<Rightarrow> string result" where
  "canonical_resource v = map_sum id Resource_value (resource_of v)"

definition action_of :: "Action named \<Rightarrow> Action result" where
  "action_of v =
     (let raw = (case v of Inl a \<Rightarrow> Action_value a | Inr s \<Rightarrow> py_lower (py_strip s))
      in case find (\<lambda>a. Action_value a = raw) all_actions of
           None \<Rightarrow> Inl (ValueError (''unknown authorization action: ''
             @ (case v of Inl a \<Rightarrow> Action_value a | Inr s \<Rightarrow> s)))
         | Some a \<Rightarrow> Inr a)"

fun role_from_tenant :: "WorkspaceRole \<Rightarrow> Role" where
  "role_from_tenant WorkspaceRole_OWNER = Role_OWNER"
| "role_from_tenant WorkspaceRole_ADMIN = Role_ADMIN"
| "role_from_tenant WorkspaceRole_RESEARCHER = Role_RESEARCHER"
| "role_from_tenant WorkspaceRole_VIEWER = Role_VIEWER"
| "role_from_tenant WorkspaceRole_BILLING_ADMIN = Role_BILLING_ADMIN"

text \<open>The action is resolved before the resource, so an unknown action is reported first.\<close>

definition is_allowed :: "WorkspaceRole \<Rightarrow> Resource named \<Rightarrow> Action named \<Rightarrow> bool result" where
  "is_allowed role resource action =
     (case action_of action of
        Inl e \<Rightarrow> Inl e
      | Inr a \<Rightarrow>
          (case resource_of resource of
             Inl e \<Rightarrow> Inl e
           | Inr r \<Rightarrow> Inr (a \<in> set (POLICY (role_from_tenant role) r))))"

text \<open>The 403 of \<open>_check\<close>; its detail dictionary is represented by its message.\<close>

definition forbidden :: "Resource \<Rightarrow> Action \<Rightarrow> exn" where
  "forbidden r a = HTTPException 403 (''permission denied: '' @ Resource_value r @ '':'' @ Action_value a)"

definition check_permission :: "TenantContext option \<Rightarrow> Resource \<Rightarrow> Action \<Rightarrow> bool \<Rightarrow> unit result" where
  "check_permission tenant resource action service_principal =
     (if service_principal then Inr ()
      else case tenant of
             None \<Rightarrow> Inl (forbidden resource action)
           | Some t \<Rightarrow>
               (case is_allowed (ctx_role t) (Inl resource) (Inl action) of
                  Inl e \<Rightarrow> Inl e
                | Inr ok \<Rightarrow> if ok then Inr () else Inl (forbidden resource action)))"

definition authorize :: "TenantContext \<Rightarrow> Resource named \<Rightarrow> Action named \<Rightarrow> bool \<Rightarrow> bool result" where
  "authorize tenant resource action service_principal =
     (if service_principal then Inr True
      else case is_allowed (ctx_role tenant) resource action of
             Inl e \<Rightarrow> Inl e
           | Inr ok \<Rightarrow> if \<not> ok then Inl (HTTPException 403 ''FORBIDDEN'') else Inr True)"

text \<open>
  \<open>require_permission\<close>: the names are resolved when the decorator is applied; each call of the
  wrapped handler, a function from its state to an outcome, is checked first.
\<close>

definition require_permission ::
  "Resource named \<Rightarrow> Action named \<Rightarrow> bool \<Rightarrow> ('s \<Rightarrow> ('a, 's) outcome)
    \<Rightarrow> (TenantContext option \<Rightarrow> 's \<Rightarrow> ('a, 's) outcome) result" where
  "require_permission resource action service_principal func =
     (case resource_of resource of
        Inl e \<Rightarrow> Inl e
      | Inr r \<Rightarrow>
          (case action_of action of
             Inl e \<Rightarrow> Inl e
           | Inr a \<Rightarrow>
               Inr (\<lambda>tenant s. case check_permission tenant r a service_principal of
                                 Inl e \<Rightarrow> (Inl e, s)
                               | Inr _ \<Rightarrow> func s)))"

section \<open>Names\<close>

lemma resource_of_member [simp]: "resource_of (Inl r) = Inr r"
  by (cases r) (simp_all add: resource_of_def all_resources_def RESOURCE_ALIASES_def)

lemma action_of_member [simp]: "action_of (Inl a) = Inr a"
  by (cases a) (simp_all add: action_of_def all_actions_def)

lemma resource_value_string [simp]: "resource_of (Inr (Resource_value r)) = Inr r"
proof (cases r)
qed (simp_all add: resource_of_def all_resources_def RESOURCE_ALIASES_def py_strip_def py_lower_def
    py_lower_char_def py_isspace_def Let_def, (simp_all add: char_of_def)?)

lemma find_SomeD: "find P xs = Some x \<Longrightarrow> P x \<and> x \<in> set xs"
  by (auto simp: find_Some_iff)

lemma canonical_resource_idem:
  "canonical_resource v = Inr s \<Longrightarrow> canonical_resource (Inr s) = Inr s"
  by (cases "resource_of v") (auto simp: canonical_resource_def)

section \<open>The policy\<close>

definition may :: "Role \<Rightarrow> Resource \<Rightarrow> Action set" where
  "may role r = set (POLICY role r)"

lemmas policy_sets = may_def READ_def WRITE_def MUTATE_def

lemma is_allowed_members: "is_allowed role (Inl r) (Inl a) = Inr (a \<in> may (role_from_tenant role) r)"
  by (simp add: is_allowed_def may_def)

lemma viewer_below_researcher: "may Role_VIEWER r \<subseteq> may Role_RESEARCHER r"
  by (cases r) (simp_all add: policy_sets)

lemma researcher_below_admin: "may Role_RESEARCHER r \<subseteq> may Role_ADMIN r"
  by (cases r) (simp_all add: policy_sets)

lemma billing_below_admin: "may Role_BILLING_ADMIN r \<subseteq> may Role_ADMIN r"
  by (cases r) (simp_all add: policy_sets)

lemma admin_below_owner: "may Role_ADMIN r \<subseteq> may Role_OWNER r"
  by (cases r) (auto simp: policy_sets)

lemma delete_only_managers: "Act_DELETE \<in> may role r \<Longrightarrow> role \<in> {Role_OWNER, Role_ADMIN}"
  by (cases role; cases r) (simp_all add: policy_sets)

lemma evidence_write_owner: "a \<in> may role Res_EVIDENCE \<Longrightarrow> a \<notin> set READ \<Longrightarrow> role = Role_OWNER"
  by (cases role) (simp_all add: policy_sets)

lemma billing_roles: "a \<in> may role Res_BILLING \<Longrightarrow> role \<in> {Role_OWNER, Role_ADMIN, Role_BILLING_ADMIN}"
  by (cases role) (simp_all add: policy_sets)

lemma everybody_reads: "r \<noteq> Res_BILLING \<Longrightarrow> set READ \<subseteq> may role r"
  by (cases role; cases r) (simp_all add: policy_sets)

section \<open>The guard\<close>

lemma check_permission_iff:
  "check_permission tenant r a sp = Inr () \<longleftrightarrow>
     sp \<or> (\<exists>t. tenant = Some t \<and> a \<in> may (role_from_tenant (ctx_role t)) r)"
  by (auto simp: check_permission_def is_allowed_members split: option.split)

lemma check_permission_refused:
  "check_permission tenant r a sp \<noteq> Inr () \<Longrightarrow> check_permission tenant r a sp = Inl (forbidden r a)"
  by (auto simp: check_permission_def is_allowed_members split: option.splits if_splits)

lemma guard_cases:
  assumes "require_permission resource action sp func = Inr g"
  obtains r a where "resource_of resource = Inr r" "action_of action = Inr a"
    "\<And>tenant s. g tenant s = (if check_permission tenant r a sp = Inr () then func s else (Inl (forbidden r a), s))"
proof -
  obtain r a where "resource_of resource = Inr r" "action_of action = Inr a"
    and g: "g = (\<lambda>tenant s. case check_permission tenant r a sp of Inl e \<Rightarrow> (Inl e, s) | Inr _ \<Rightarrow> func s)"
    using assms by (auto simp: require_permission_def split: sum.splits)
  moreover have "g tenant s = (if check_permission tenant r a sp = Inr () then func s else (Inl (forbidden r a), s))" for tenant s
    using check_permission_refused [of tenant r a sp] by (cases "check_permission tenant r a sp") (auto simp: g)
  ultimately show thesis by (intro that)
qed

text \<open>
  The permission guard is complete mediation: a handler wrapped by \<open>require_permission\<close> runs
  exactly when the call comes from a service principal or from a tenant whose role has the action on the
  resource in the policy table; every other call answers 403 and leaves the state as it was.
\<close>

lemma permission_guard:
  assumes "require_permission (Inl r) (Inl a) sp func = Inr g"
  shows "g tenant s =
    (if sp \<or> (\<exists>t. tenant = Some t \<and> a \<in> set (POLICY (role_from_tenant (ctx_role t)) r)) then func s
     else (Inl (forbidden r a), s))"
  using assms
proof (rule guard_cases)
  fix r' a'
  assume "resource_of (Inl r) = Inr r'" and "action_of (Inl a) = Inr a'"
    and g: "\<And>tenant s. g tenant s = (if check_permission tenant r' a' sp = Inr () then func s else (Inl (forbidden r' a'), s))"
  then have "r' = r" "a' = a" by simp_all
  then show ?thesis unfolding g check_permission_iff may_def by auto
qed

text \<open>
  The policy is a hierarchy with separated duties: viewers may do no more than researchers and
  researchers and billing administrators no more than administrators, who may do no more than owners;
  only owners and administrators delete anything, only owners write evidence, and only owners,
  administrators and billing administrators touch billing.
\<close>

lemma policy_hierarchy:
  "set (POLICY Role_VIEWER r) \<subseteq> set (POLICY Role_RESEARCHER r)
   \<and> set (POLICY Role_RESEARCHER r) \<subseteq> set (POLICY Role_ADMIN r)
   \<and> set (POLICY Role_BILLING_ADMIN r) \<subseteq> set (POLICY Role_ADMIN r)
   \<and> set (POLICY Role_ADMIN r) \<subseteq> set (POLICY Role_OWNER r)
   \<and> {role. Act_DELETE \<in> set (POLICY role r)} \<subseteq> {Role_OWNER, Role_ADMIN}
   \<and> {role. \<not> set (POLICY role Res_EVIDENCE) \<subseteq> {Act_READ, Act_LIST}} \<subseteq> {Role_OWNER}
   \<and> {role. POLICY role Res_BILLING \<noteq> []} \<subseteq> {Role_OWNER, Role_ADMIN, Role_BILLING_ADMIN}"
proof -
  have "{role. \<not> set (POLICY role Res_EVIDENCE) \<subseteq> {Act_READ, Act_LIST}} \<subseteq> {Role_OWNER}"
    using evidence_write_owner by (auto simp: may_def READ_def)
  moreover have "{role. Act_DELETE \<in> set (POLICY role r)} \<subseteq> {Role_OWNER, Role_ADMIN}"
    using delete_only_managers [of _ r] unfolding may_def by blast
  moreover have "{role. POLICY role Res_BILLING \<noteq> []} \<subseteq> {Role_OWNER, Role_ADMIN, Role_BILLING_ADMIN}"
  proof
    fix role
    assume "role \<in> {role. POLICY role Res_BILLING \<noteq> []}"
    then obtain a where "a \<in> may role Res_BILLING" by (metis (mono_tags) list.set_sel(1) may_def mem_Collect_eq)
    then show "role \<in> {Role_OWNER, Role_ADMIN, Role_BILLING_ADMIN}" by (rule billing_roles)
  qed
  ultimately show ?thesis
    using viewer_below_researcher [of r] researcher_below_admin [of r] billing_below_admin [of r]
      admin_below_owner [of r] unfolding may_def by blast
qed

end
