(* ===== verification/Request_Guards.thy ===== *)
theory Request_Guards
  imports Saas_Contracts Python_UUID Interfaces
begin

text \<open>
  The guards in front of the API handlers: idempotency records (\<open>saas/idempotency.py\<close>), the
  fixed-window rate limiter (\<open>saas/rate_limit.py\<close>), list queries and pages (\<open>saas/pagination.py\<close>) and
  first-workspace provisioning (\<open>saas/workspace.py\<close>).
\<close>

section \<open>Idempotency records\<close>

record IdempotencyRecord =
  idem_workspace_id :: uuid
  idem_key :: string
  idem_fingerprint :: string
  idem_status_code :: int
  idem_response_body :: json

definition MAX_IDEMPOTENCY_KEY_LENGTH :: nat where
  "MAX_IDEMPOTENCY_KEY_LENGTH = 128"

type_synonym idem_store = "(uuid \<times> string, IdempotencyRecord) dict"

definition idem_get :: "uuid \<Rightarrow> string \<Rightarrow> idem_store \<Rightarrow> IdempotencyRecord option" where
  "idem_get ws k s = dget s (ws, k)"

definition idem_put :: "IdempotencyRecord \<Rightarrow> idem_store \<Rightarrow> (unit, idem_store) outcome" where
  "idem_put r s =
     (if idem_key r = [] \<or> length (idem_key r) > MAX_IDEMPOTENCY_KEY_LENGTH
      then (Inl (ValueError ''invalid idempotency key''), s)
      else case dget s (idem_workspace_id r, idem_key r) of
             Some existing \<Rightarrow>
               if idem_fingerprint existing \<noteq> idem_fingerprint r
               then (Inl (Conflict ''idempotency key reused with different request''), s)
               else (Inr (), dset (idem_workspace_id r, idem_key r) r s)
           | None \<Rightarrow> (Inr (), dset (idem_workspace_id r, idem_key r) r s))"

definition idem_id :: "IdempotencyRecord \<Rightarrow> uuid \<times> string" where
  "idem_id r = (idem_workspace_id r, idem_key r)"

interpretation idem_guard: fingerprint_guard "\<lambda>s k. map_option idem_fingerprint (dget s k)"
  idem_id idem_fingerprint "\<lambda>s r. idem_put r s"
proof
  fix s t :: idem_store and r v
  assume "idem_put r s = (Inr v, t)"
  then show "(\<lambda>k. map_option idem_fingerprint (dget t k))
        = (\<lambda>k. map_option idem_fingerprint (dget s k))(idem_id r \<mapsto> idem_fingerprint r)
      \<and> map_option idem_fingerprint (dget s (idem_id r)) \<in> {None, Some (idem_fingerprint r)}"
    by (auto simp: idem_put_def idem_id_def split: if_splits option.splits)
next
  fix s t :: idem_store and r e
  assume "idem_put r s = (Inl e, t)"
  then show "t = s" by (auto simp: idem_put_def split: if_splits option.splits)
qed

text \<open>
  The Supabase store: \<open>ins\<close> of a row and \<open>look\<close> of an unexpired row are the database's.  A
  unique violation (code 23505) falls back to comparing the stored fingerprint.
\<close>

definition sb_idem_put ::
  "(IdempotencyRecord \<Rightarrow> 't \<Rightarrow> (string option + unit) \<times> 't) \<Rightarrow> (uuid \<Rightarrow> string \<Rightarrow> 't \<Rightarrow> IdempotencyRecord option)
    \<Rightarrow> IdempotencyRecord \<Rightarrow> 't \<Rightarrow> (unit, 't) outcome" where
  "sb_idem_put ins look r t =
     (if idem_key r = [] \<or> length (idem_key r) > MAX_IDEMPOTENCY_KEY_LENGTH
      then (Inl (ValueError ''invalid idempotency key''), t)
      else case ins r t of
             (Inr _, t') \<Rightarrow> (Inr (), t')
           | (Inl code, t') \<Rightarrow>
               if code \<noteq> Some ''23505'' then (Inl (RuntimeError ''insert failed''), t')
               else (case look (idem_workspace_id r) (idem_key r) t' of
                       None \<Rightarrow> (Inl (RuntimeError ''insert failed''), t')
                     | Some existing \<Rightarrow>
                         if idem_fingerprint existing \<noteq> idem_fingerprint r
                         then (Inl (Conflict ''idempotency key reused with different request''), t')
                         else (Inr (), t')))"

text \<open>
  An idempotency key belongs to its first request: once a record was stored, after any sequence
  of further \<open>put\<close> calls the key still carries the same fingerprint, and a \<open>put\<close> with another
  fingerprint for it is refused and changes nothing.
\<close>

lemma idempotency_key_reserved:
  assumes "idem_put r s = (Inr (), t)"
  shows "map_option idem_fingerprint (idem_get (idem_workspace_id r) (idem_key r) (serve_all (\<lambda>s r. idem_put r s) t rs))
      = Some (idem_fingerprint r)
    \<and> (idem_id r' = idem_id r \<and> idem_fingerprint r' \<noteq> idem_fingerprint r \<longrightarrow>
       (\<exists>e. idem_put r' (serve_all (\<lambda>s r. idem_put r s) t rs) = (Inl e, serve_all (\<lambda>s r. idem_put r s) t rs)))"
proof -
  have seen: "map_option idem_fingerprint (dget t (idem_id r)) = Some (idem_fingerprint r)"
    using idem_guard.serve_ok [OF assms] by (metis fun_upd_same)
  show ?thesis
    using idem_guard.seen_forever [OF seen, of rs] idem_guard.clash_refused [of t r' "idem_fingerprint r" rs] seen
    by (auto simp: idem_get_def idem_id_def)
qed

definition sample_idem :: "string \<Rightarrow> IdempotencyRecord" where
  "sample_idem f = \<lparr>idem_workspace_id = 7, idem_key = ''k'', idem_fingerprint = f, idem_status_code = 202,
     idem_response_body = JNull\<rparr>"

section \<open>Rate limiting\<close>

text \<open>The monotonic clock is read once per call; only differences of readings matter.\<close>

record rate_window =
  started_at :: int
  win_count :: int

type_synonym rate_windows = "(string, rate_window) dict"

definition limiter_ok :: "int \<Rightarrow> int \<Rightarrow> unit result" where
  "limiter_ok limit window_seconds =
     (if limit \<le> 0 \<or> window_seconds \<le> 0 then Inl (ValueError ''limit and window_seconds must be positive'')
      else Inr ())"

definition allow :: "int \<Rightarrow> int \<Rightarrow> int \<Rightarrow> string \<Rightarrow> rate_windows \<Rightarrow> bool \<times> rate_windows" where
  "allow limit window now key ws =
     (case dget ws key of
        None \<Rightarrow> (True, dset key \<lparr>started_at = now, win_count = 1\<rparr> ws)
      | Some w \<Rightarrow>
          if now - started_at w \<ge> window then (True, dset key \<lparr>started_at = now, win_count = 1\<rparr> ws)
          else if win_count w \<ge> limit then (False, ws)
          else (True, dset key (w\<lparr>win_count := win_count w + 1\<rparr>) ws))"

text \<open>The calls of one key that a sequence of calls lets through.\<close>

fun admitted :: "int \<Rightarrow> int \<Rightarrow> string \<Rightarrow> (int \<times> string) list \<Rightarrow> rate_windows \<Rightarrow> int" where
  "admitted limit window k [] ws = 0"
| "admitted limit window k ((now, key) # calls) ws =
     (case allow limit window now key ws of
        (ok, ws') \<Rightarrow> (if key = k \<and> ok then 1 else 0) + admitted limit window k calls ws')"

definition windows_ok :: "int \<Rightarrow> rate_windows \<Rightarrow> bool" where
  "windows_ok limit ws \<longleftrightarrow> (\<forall>k w. dget ws k = Some w \<longrightarrow> 1 \<le> win_count w \<and> win_count w \<le> limit)"

lemma allow_windows_ok: "0 < limit \<Longrightarrow> windows_ok limit ws \<Longrightarrow> windows_ok limit (snd (allow limit window now key ws))"
  by (auto simp: windows_ok_def allow_def split: option.split if_splits) fastforce+

lemma allow_frame: "key \<noteq> k \<Longrightarrow> dget (snd (allow limit window now key ws)) k = dget ws k"
  by (simp add: allow_def split: option.split)

lemma admitted_current:
  assumes "0 < limit" and "dget ws k = Some w" and "win_count w \<le> limit"
    and "\<forall>(now, key) \<in> set calls. key = k \<longrightarrow> now < started_at w + window"
  shows "admitted limit window k calls ws \<le> limit - win_count w"
  using assms
proof (induction calls arbitrary: ws w)
  case (Cons call calls)
  obtain now key where call: "call = (now, key)" by (cases call)
  show ?case
  proof (cases "key = k")
    case False
    have "admitted limit window k calls (snd (allow limit window now key ws)) \<le> limit - win_count w"
      using Cons.prems call False by (intro Cons.IH) (auto simp: allow_frame)
    then show ?thesis using call False by (simp add: case_prod_beta)
  next
    case True
    show ?thesis
    proof (cases "win_count w \<ge> limit")
      case full: True
      have "allow limit window now k ws = (False, ws)"
        using Cons.prems call True full by (simp add: allow_def)
      moreover have "admitted limit window k calls ws \<le> limit - win_count w"
        using Cons.prems by (intro Cons.IH) auto
      ultimately show ?thesis using call True by simp
    next
      case False
      let ?w = "w\<lparr>win_count := win_count w + 1\<rparr>"
      have "allow limit window now k ws = (True, dset k ?w ws)"
        using Cons.prems call True False by (simp add: allow_def)
      moreover have "admitted limit window k calls (dset k ?w ws) \<le> limit - win_count ?w"
        using Cons.prems False by (intro Cons.IH) auto
      ultimately show ?thesis using call True by simp
    qed
  qed
qed simp

lemma admitted_span:
  assumes "0 < limit" and "windows_ok limit ws"
    and "\<forall>(now, key) \<in> set calls. a \<le> now \<and> now < a + window"
  shows "admitted limit window k calls ws \<le> 2 * limit - (case dget ws k of None \<Rightarrow> limit | Some w \<Rightarrow> win_count w)"
  using assms
proof (induction calls arbitrary: ws)
  case Nil
  then show ?case by (auto simp: windows_ok_def split: option.split) force
next
  case (Cons call calls)
  obtain now key where call: "call = (now, key)" by (cases call)
  have ok': "windows_ok limit (snd (allow limit window now key ws))"
    using Cons.prems(1,2) by (rule allow_windows_ok)
  have rest: "\<forall>(now, key) \<in> set calls. a \<le> now \<and> now < a + window" using Cons.prems(3) by simp
  note IH = Cons.IH [OF Cons.prems(1) ok' rest]
  show ?case
  proof (cases "key = k")
    case False
    then show ?thesis using IH call by (simp add: case_prod_beta allow_frame)
  next
    case True
    have fresh: "admitted limit window k calls (dset k \<lparr>started_at = now, win_count = 1\<rparr> ws) \<le> limit - 1"
      using admitted_current [where w = "\<lparr>started_at = now, win_count = 1\<rparr>" and limit = limit and k = k
          and ws = "dset k \<lparr>started_at = now, win_count = 1\<rparr> ws" and calls = calls and window = window]
        Cons.prems(1,3) call by fastforce
    show ?thesis
    proof (cases "dget ws k")
      case None
      then show ?thesis using fresh call True by (simp add: allow_def)
    next
      case (Some w)
      have le: "win_count w \<le> limit" using Cons.prems(2) Some by (simp add: windows_ok_def)
      show ?thesis
      proof (cases "now - started_at w \<ge> window")
        case True
        then show ?thesis using fresh call Some \<open>key = k\<close> le by (simp add: allow_def)
      next
        case False
        then show ?thesis using IH call Some \<open>key = k\<close> by (cases "win_count w \<ge> limit") (simp_all add: allow_def)
      qed
    qed
  qed
qed

text \<open>
  The fixed-window limiter bounds bursts: in any span of one window length, whatever calls of
  whatever keys arrive in whatever order, at most twice the limit of calls of one key pass, and at most
  the limit when the key was not seen before.
\<close>

lemma rate_limit_burst_bound:
  assumes "0 < limit" and "windows_ok limit ws"
    and "\<forall>(now, key) \<in> set calls. a \<le> now \<and> now < a + window"
  shows "admitted limit window k calls ws < 2 * limit
    \<and> (dget ws k = None \<longrightarrow> admitted limit window k calls ws \<le> limit)"
  using admitted_span [OF assms, of k] assms(1,2) by (auto simp: windows_ok_def split: option.splits) force

section \<open>List queries and pages\<close>

definition DEFAULT_PAGE :: int where
  "DEFAULT_PAGE = 1"

definition DEFAULT_PAGE_SIZE :: int where
  "DEFAULT_PAGE_SIZE = 20"

definition MAX_PAGE_SIZE :: int where
  "MAX_PAGE_SIZE = 100"

definition SORT_ORDERS :: "string set" where
  "SORT_ORDERS = {''asc'', ''desc''}"

text \<open>A \<open>PaginationParameterError\<close> is a \<open>ValueError\<close> that carries a code; the code is kept in front.\<close>

definition PaginationParameterError :: "string \<Rightarrow> string \<Rightarrow> exn" where
  "PaginationParameterError message code = ValueError (code @ '': '' @ message)"

record ListQuery =
  lq_page :: int
  lq_page_size :: int
  lq_sort_by :: string
  lq_sort_order :: string
  lq_status :: "string option"
  lq_tenant_id :: "string option"

definition lq_offset :: "ListQuery \<Rightarrow> int" where
  "lq_offset q = (lq_page q - 1) * lq_page_size q"

text \<open>\<open>x.strip() or None\<close> of an optional string.\<close>

definition strip_or_none :: "string option \<Rightarrow> string option" where
  "strip_or_none v =
     (case v of None \<Rightarrow> None | Some s \<Rightarrow> if py_strip s = [] then None else Some (py_strip s))"

definition parse_list_query ::
  "string \<Rightarrow> string \<Rightarrow> string \<Rightarrow> string \<Rightarrow> string option \<Rightarrow> string option \<Rightarrow> string set \<Rightarrow> ListQuery result" where
  "parse_list_query page page_size sort_by sort_order status tenant_id allowed_sort_fields =
     (case (py_int page, py_int page_size) of
        (Some p, Some n) \<Rightarrow>
          if p < 1 then Inl (PaginationParameterError ''page must be >= 1'' ''INVALID_PAGINATION'')
          else if n < 1 \<or> n > MAX_PAGE_SIZE
          then Inl (PaginationParameterError ''page_size must be between 1 and 100'' ''INVALID_PAGINATION'')
          else if py_strip sort_by \<notin> allowed_sort_fields
          then Inl (PaginationParameterError (''invalid sort field: '' @ py_strip sort_by) ''INVALID_SORT'')
          else if py_lower (py_strip sort_order) \<notin> SORT_ORDERS
          then Inl (PaginationParameterError (''sort_order must be '' @ [CHR 0x27] @ ''asc'' @ [CHR 0x27] @ '' or '' @ [CHR 0x27] @ ''desc'' @ [CHR 0x27]) ''INVALID_SORT_ORDER'')
          else if (case tenant_id of None \<Rightarrow> False | Some t \<Rightarrow> length (py_strip t) > 128)
          then Inl (PaginationParameterError ''tenant_id filter is too long'' ''INVALID_FILTER'')
          else Inr \<lparr>lq_page = p, lq_page_size = n, lq_sort_by = py_strip sort_by,
                    lq_sort_order = py_lower (py_strip sort_order),
                    lq_status = strip_or_none status, lq_tenant_id = strip_or_none tenant_id\<rparr>
      | _ \<Rightarrow> Inl (PaginationParameterError ''page and page_size must be integers'' ''INVALID_PAGINATION''))"

fun validate_filter_keys :: "string list \<Rightarrow> string set \<Rightarrow> unit result" where
  "validate_filter_keys [] allowed = Inr ()"
| "validate_filter_keys (k # ks) allowed =
     (if k \<notin> allowed then Inl (PaginationParameterError (''invalid filter: '' @ k) ''INVALID_FILTER'')
      else validate_filter_keys ks allowed)"

record 'a page_envelope =
  env_data :: "'a list"
  env_page :: int
  env_page_size :: int
  env_total :: int
  env_total_pages :: int
  env_request_id :: "string option"

text \<open>\<open>ceil(total / page_size)\<close>: the floating-point quotient is exact enough below \<open>2^53\<close> rows.\<close>

definition pagination_envelope ::
  "'a list \<Rightarrow> int \<Rightarrow> int \<Rightarrow> int \<Rightarrow> string option \<Rightarrow> 'a page_envelope result" where
  "pagination_envelope xs page page_size total_rows request_id =
     (if page < 1 \<or> page_size < 1 \<or> page_size > MAX_PAGE_SIZE
      then Inl (PaginationParameterError ''invalid pagination'' ''INVALID_PAGINATION'')
      else if total_rows < 0
      then Inl (PaginationParameterError ''total must be non-negative'' ''INVALID_PAGINATION'')
      else Inr \<lparr>env_data = xs, env_page = page, env_page_size = page_size, env_total = total_rows,
                env_total_pages = (if total_rows \<noteq> 0 then (total_rows + page_size - 1) div page_size else 0),
                env_request_id = request_id\<rparr>)"

text \<open>\<open>getattr(item, name)\<close> is an argument; \<open>None\<close> is the \<open>AttributeError\<close>.\<close>

definition paginate ::
  "('a \<Rightarrow> string \<Rightarrow> 'k::linorder option) \<Rightarrow> 'a list \<Rightarrow> int \<Rightarrow> int \<Rightarrow> string \<Rightarrow> string \<Rightarrow> string option
    \<Rightarrow> 'a page_envelope result" where
  "paginate attr items page page_size sort_by sort_order request_id =
     (if page < 1 \<or> page_size < 1 \<or> page_size > MAX_PAGE_SIZE then Inl (HTTPException 400 ''INVALID_PAGINATION'')
      else if sort_order \<notin> SORT_ORDERS then Inl (HTTPException 400 ''INVALID_SORT'')
      else if \<exists>x \<in> set items. attr x sort_by = None then Inl (HTTPException 400 ''INVALID_SORT'')
      else
        let asc = sort_key (\<lambda>x. the (attr x sort_by)) items;
            ordered = (if sort_order = ''desc'' then rev asc else asc);
            page_items = take (nat page_size) (drop (nat ((page - 1) * page_size)) ordered)
        in pagination_envelope page_items page page_size (int (length ordered)) request_id)"

definition validate_filter_tenant_id :: "uuid option \<Rightarrow> uuid \<Rightarrow> unit result" where
  "validate_filter_tenant_id v tenant_id =
     (case v of None \<Rightarrow> Inr ()
      | Some u \<Rightarrow> if u \<noteq> tenant_id then Inl (HTTPException 400 ''INVALID_FILTER'') else Inr ())"

lemma chunks_take: "concat (map (\<lambda>i. take n (drop (i * n) xs)) [0..<m]) = take (m * n) xs"
proof (induction m)
  case (Suc m)
  have "take (m * n) xs @ take n (drop (m * n) xs) = take (m * n + n) xs"
    by (simp add: take_add)
  then show ?case using Suc by (simp add: add.commute)
qed simp

text \<open>The pages of a valid query, in order, are the whole sorted list.\<close>

lemma pages_concat:
  assumes "0 < n"
  shows "concat (map (\<lambda>i. take n (drop (i * n) xs)) [0..<(length xs + n - 1) div n]) = xs"
proof -
  have "length xs \<le> (length xs + n - 1) div n * n"
  proof -
    have "(length xs + n - 1) mod n < n" using assms by simp
    moreover have "(length xs + n - 1) div n * n + (length xs + n - 1) mod n = length xs + n - 1" by simp
    ultimately show ?thesis using assms by linarith
  qed
  then show ?thesis by (simp add: chunks_take)
qed

text \<open>
  Paging loses and repeats nothing: for a valid page size, sort field and order, every page
  from 1 to \<open>total_pages\<close> is served, and the pages put together are exactly the items, sorted by the
  field in the requested direction.
\<close>

lemma pages_cover_all_items:
  assumes "1 \<le> page_size" and "page_size \<le> 100" and "order \<in> {''asc'', ''desc''}"
    and "\<forall>x \<in> set items. attr x field \<noteq> None"
  defines "pages \<equiv> nat ((int (length items) + page_size - 1) div page_size)"
  shows "concat (map (\<lambda>p. case paginate attr items (int p + 1) page_size field order rid of
        Inl _ \<Rightarrow> [] | Inr e \<Rightarrow> env_data e) [0..<pages])
      = (if order = ''desc'' then rev (sort_key (\<lambda>x. the (attr x field)) items)
         else sort_key (\<lambda>x. the (attr x field)) items)"
proof -
  define n where "n = nat page_size"
  have n: "page_size = int n" "0 < n" using assms(1) by (simp_all add: n_def)
  let ?ordered = "if order = ''desc'' then rev (sort_key (\<lambda>x. the (attr x field)) items)
         else sort_key (\<lambda>x. the (attr x field)) items"
  have page: "(case paginate attr items (int p + 1) page_size field order rid of Inl _ \<Rightarrow> [] | Inr e \<Rightarrow> env_data e)
      = take n (drop (p * n) ?ordered)" for p
  proof -
    have "nat (int p * int n) = p * n" by (metis nat_int of_nat_mult)
    then show ?thesis using assms(1-4) n
      by (simp add: paginate_def pagination_envelope_def MAX_PAGE_SIZE_def SORT_ORDERS_def Let_def) force
  qed
  have "pages = nat (int (length items + n - 1) div int n)"
    using n(2) by (simp add: pages_def n(1))
  also have "\<dots> = (length ?ordered + n - 1) div n"
    by (simp add: zdiv_int [symmetric] flip: zdiv_int)
  finally show ?thesis using pages_concat [OF n(2), of ?ordered] by (simp add: page)
qed

lemma validate_filter_keys_iff: "validate_filter_keys ks allowed = Inr () \<longleftrightarrow> set ks \<subseteq> allowed"
  by (induction ks) auto

lemma parse_list_query_sound:
  assumes "parse_list_query p n sb so st tid allowed = Inr q"
  shows "1 \<le> lq_page q" "1 \<le> lq_page_size q" "lq_page_size q \<le> 100" "lq_sort_by q \<in> allowed"
    "lq_sort_order q \<in> {''asc'', ''desc''}" "0 \<le> lq_offset q" "lq_status q \<noteq> Some []"
  using assms by (auto simp: parse_list_query_def MAX_PAGE_SIZE_def SORT_ORDERS_def lq_offset_def strip_or_none_def
      split: option.splits if_splits)

section \<open>First-workspace provisioning\<close>

record WorkspaceProvisioningResult =
  prov_workspace_id :: uuid
  prov_role :: WorkspaceRole
  prov_plan :: Plan

record Provisioner =
  owners :: "(uuid, WorkspaceProvisioningResult) dict"
  ws_names :: "(uuid, string) dict"

text \<open>\<open>new_id\<close> is the identifier drawn from \<open>uuid4\<close>.\<close>

definition provision :: "uuid \<Rightarrow> uuid \<Rightarrow> string \<Rightarrow> Provisioner \<Rightarrow> (WorkspaceProvisioningResult, Provisioner) outcome" where
  "provision new_id user_id name s =
     (let normalized = py_strip name
      in if normalized = [] then (Inl (ValueError ''workspace name must not be empty''), s)
         else if dget (owners s) user_id \<noteq> None then (Inl (Conflict ''workspace already provisioned''), s)
         else let result = \<lparr>prov_workspace_id = new_id, prov_role = WorkspaceRole_OWNER, prov_plan = Plan_FREE\<rparr>
              in (Inr result, s\<lparr>owners := dset user_id result (owners s), ws_names := dset new_id normalized (ws_names s)\<rparr>))"

fun provision_all :: "(uuid \<times> uuid \<times> string) list \<Rightarrow> Provisioner \<Rightarrow> Provisioner" where
  "provision_all [] s = s"
| "provision_all ((i, u, n) # reqs) s = provision_all reqs (snd (provision i u n s))"

lemma provision_owner_stable: "dget (owners s) u = Some r \<Longrightarrow> dget (owners (snd (provision i v n s))) u = Some r"
  by (auto simp: provision_def Let_def)

lemma provision_all_stable: "dget (owners s) u = Some r \<Longrightarrow> dget (owners (provision_all reqs s)) u = Some r"
proof (induction reqs arbitrary: s)
  case (Cons req reqs)
  then show ?case by (cases req) (simp add: provision_owner_stable)
qed simp

text \<open>
  A user gets one workspace: the first provisioning makes the caller owner of a fresh free-plan
  workspace, and after any further requests of any users the caller still owns that one and a second
  request of the caller is refused without any change.
\<close>

lemma one_workspace_per_user:
  assumes "provision i u name s = (Inr r, t)"
  shows "prov_workspace_id r = i \<and> prov_role r = WorkspaceRole_OWNER \<and> prov_plan r = Plan_FREE
    \<and> dget (owners (provision_all reqs t)) u = Some r
    \<and> (\<exists>e. provision i' u name' (provision_all reqs t) = (Inl e, provision_all reqs t))"
proof -
  have r: "prov_workspace_id r = i" "prov_role r = WorkspaceRole_OWNER" "prov_plan r = Plan_FREE"
    "dget (owners t) u = Some r"
    using assms by (auto simp: provision_def Let_def split: if_splits)
  have "dget (owners (provision_all reqs t)) u = Some r" by (rule provision_all_stable [OF r(4)])
  moreover from this have "\<exists>e. provision i' u name' (provision_all reqs t) = (Inl e, provision_all reqs t)"
    by (auto simp: provision_def Let_def)
  ultimately show ?thesis using r by simp
qed

text \<open>The Supabase provisioner: how the answer of the procedure is read.\<close>

fun WorkspaceRole_of :: "string \<Rightarrow> WorkspaceRole option" where
  "WorkspaceRole_of s = map_of [(''owner'', WorkspaceRole_OWNER), (''admin'', WorkspaceRole_ADMIN),
     (''researcher'', WorkspaceRole_RESEARCHER), (''viewer'', WorkspaceRole_VIEWER),
     (''billing_admin'', WorkspaceRole_BILLING_ADMIN)] s"

fun Plan_of :: "string \<Rightarrow> Plan option" where
  "Plan_of s = map_of [(''free'', Plan_FREE), (''pro'', Plan_PRO), (''team'', Plan_TEAM),
     (''enterprise'', Plan_ENTERPRISE)] s"

fun json_text :: "json \<Rightarrow> string option" where
  "json_text (JStr s) = Some s"
| "json_text _ = None"

definition decode_provisioning :: "json \<Rightarrow> WorkspaceProvisioningResult result" where
  "decode_provisioning dat =
     (let rows = (if falsy dat then JList [] else dat) in
      case json_len rows of
        None \<Rightarrow> Inl (TypeError ''object has no len()'')
      | Some n \<Rightarrow>
          if n \<noteq> 1 then Inl (RuntimeError ''workspace provisioning RPC returned no unique result'')
          else (case rows of
                  JObj _ \<Rightarrow> Inl (KeyError ''0'')
                | JList [JObj row] \<Rightarrow>
                    (case (Option.bind (map_of row ''workspace_id'') json_uuid,
                           Option.bind (Option.bind (map_of row ''role'') json_text) WorkspaceRole_of,
                           Option.bind (Option.bind (map_of row ''plan'') json_text) Plan_of) of
                       (Some w, Some r, Some p) \<Rightarrow> Inr \<lparr>prov_workspace_id = w, prov_role = r, prov_plan = p\<rparr>
                     | _ \<Rightarrow> Inl (RuntimeError ''workspace provisioning RPC returned invalid state''))
                | _ \<Rightarrow> Inl (RuntimeError ''workspace provisioning RPC returned no unique result'')))"

end
