(* ===== verification/Python_Text.thy ===== *)
theory Python_Text
  imports Python_UUID
begin

unbundle bit_operations_syntax

text \<open>
  More of the standard library as the services use it: \<open>str.split\<close> and \<open>str.partition\<close> on one
  character, \<open>str(x)\<close> of a decoded JSON value, \<open>datetime.fromtimestamp(n, utc).isoformat()\<close> for whole
  seconds, and \<open>hmac.new(key, message, sha256).hexdigest()\<close>.
\<close>

section \<open>Splitting\<close>

fun py_split :: "char \<Rightarrow> string \<Rightarrow> string list" where
  "py_split d [] = [[]]"
| "py_split d (c # cs) =
     (if c = d then [] # py_split d cs
      else case py_split d cs of [] \<Rightarrow> [[c]] | w # ws \<Rightarrow> (c # w) # ws)"

text \<open>\<open>s.partition(d)\<close>: head, whether the separator occurs, tail.\<close>

definition py_partition :: "char \<Rightarrow> string \<Rightarrow> string \<times> bool \<times> string" where
  "py_partition d s =
     (takeWhile (\<lambda>c. c \<noteq> d) s, d \<in> set s, drop (Suc (length (takeWhile (\<lambda>c. c \<noteq> d) s))) s)"

definition starts_with :: "string \<Rightarrow> string \<Rightarrow> bool" where
  "starts_with p s \<longleftrightarrow> take (length p) s = p"

lemma py_split_nonempty [simp]: "py_split d s \<noteq> []"
  by (cases s) (auto split: list.splits)

lemma py_split_absent: "d \<notin> set s \<Longrightarrow> py_split d s = [s]"
  by (induction s) auto

lemma py_split_append: "d \<notin> set s \<Longrightarrow> py_split d (s @ d # t) = s # py_split d t"
  by (induction s) auto

lemma py_partition_append: "d \<notin> set s \<Longrightarrow> py_partition d (s @ d # t) = (s, True, t)"
proof -
  assume d: "d \<notin> set s"
  then have "takeWhile (\<lambda>c. c \<noteq> d) (s @ d # t) = s" by (induction s) auto
  then show ?thesis by (simp add: py_partition_def)
qed

section \<open>Text of JSON values\<close>

text \<open>\<open>repr\<close> of a string: single quotes unless only they occur in it; other characters escaped.\<close>

definition py_printable :: "nat \<Rightarrow> bool" where
  "py_printable n \<longleftrightarrow> (32 \<le> n \<and> n \<le> 126) \<or> (161 \<le> n \<and> n \<noteq> 173)"

definition py_repr_char :: "char \<Rightarrow> char \<Rightarrow> string" where
  "py_repr_char q c =
     (let n = of_char c :: nat in
      if c = q \<or> c = CHR 0x5C then [CHR 0x5C, c]
      else if n = 10 then [CHR 0x5C, CHR ''n'']
      else if n = 13 then [CHR 0x5C, CHR ''r'']
      else if n = 9 then [CHR 0x5C, CHR ''t'']
      else if py_printable n then [c]
      else [CHR 0x5C, CHR ''x''] @ hex_fixed 2 n)"

definition py_repr_string :: "string \<Rightarrow> string" where
  "py_repr_string s =
     (let q = (if CHR 0x27 \<in> set s \<and> CHR 0x22 \<notin> set s then CHR 0x22 else CHR 0x27)
      in [q] @ concat (map (py_repr_char q) s) @ [q])"

fun py_join :: "string \<Rightarrow> string list \<Rightarrow> string" where
  "py_join sep [] = []"
| "py_join sep [x] = x"
| "py_join sep (x # y # xs) = x @ sep @ py_join sep (y # xs)"

fun py_repr :: "json \<Rightarrow> string" where
  "py_repr JNull = ''None''"
| "py_repr (JBool b) = (if b then ''True'' else ''False'')"
| "py_repr (JInt i) = py_str_int i"
| "py_repr (JStr s) = py_repr_string s"
| "py_repr (JList xs) = ''['' @ py_join '', '' (map py_repr xs) @ '']''"
| "py_repr (JObj kvs) = ''{'' @ py_join '', '' (map (\<lambda>(k, v). py_repr_string k @ '': '' @ py_repr v) kvs) @ ''}''"

fun py_str :: "json \<Rightarrow> string" where
  "py_str (JStr s) = s"
| "py_str v = py_repr v"

section \<open>Timestamps\<close>

text \<open>
  The civil date of a day number (days since 1970-01-01), in the proleptic Gregorian calendar, counted
  from the first of March of year 0 in cycles of 400 years.
\<close>

definition civil_from_days :: "int \<Rightarrow> int \<times> int \<times> int" where
  "civil_from_days days =
     (let z = days + 719468;
          era = z div 146097;
          doe = z mod 146097;
          yoe = (doe - doe div 1460 + doe div 36524 - doe div 146096) div 365;
          doy = doe - (365 * yoe + yoe div 4 - yoe div 100);
          mp = (5 * doy + 2) div 153;
          d = doy - (153 * mp + 2) div 5 + 1;
          mo = (if mp < 10 then mp + 3 else mp - 9);
          y = yoe + era * 400 + (if mo \<le> 2 then 1 else 0)
      in (y, mo, d))"

definition pad_left :: "nat \<Rightarrow> string \<Rightarrow> string" where
  "pad_left k s = replicate (k - length s) CHR ''0'' @ s"

text \<open>Only years 1 to 9999 have a \<open>datetime\<close>.\<close>

definition iso_from_timestamp :: "int \<Rightarrow> string result" where
  "iso_from_timestamp t =
     (case civil_from_days (t div 86400) of
        (y, mo, d) \<Rightarrow>
          if y < 1 \<or> 9999 < y then Inl (ValueError ''year is out of range'')
          else let r = t mod 86400; num = (\<lambda>k i. pad_left k (py_str_int i))
               in Inr (num 4 y @ ''-'' @ num 2 mo @ ''-'' @ num 2 d @ ''T'' @ num 2 (r div 3600) @ '':''
                    @ num 2 (r div 60 mod 60) @ '':'' @ num 2 (r mod 60) @ ''+00:00''))"

section \<open>HMAC-SHA-256\<close>

definition xor_bytes :: "nat \<Rightarrow> char list \<Rightarrow> char list" where
  "xor_bytes k s = map (\<lambda>c. char_of (of_char c XOR k)) s"

fun unhex :: "string \<Rightarrow> char list" where
  "unhex (a # b # cs) = char_of (16 * the (hex_value a) + the (hex_value b)) # unhex cs"
| "unhex _ = []"

definition sha256_bytes :: "char list \<Rightarrow> char list" where
  "sha256_bytes m = unhex (sha256_hex m)"

definition hmac_sha256_hex :: "char list \<Rightarrow> char list \<Rightarrow> string" where
  "hmac_sha256_hex key msg =
     (let k0 = (if length key > 64 then sha256_bytes key else key);
          k = k0 @ replicate (64 - length k0) (CHR 0x00)
      in sha256_hex (xor_bytes 92 k @ sha256_bytes (xor_bytes 54 k @ msg)))"

lemma hmac_sha256_hex_shape: "set (hmac_sha256_hex key msg) \<subseteq> set hex_digits"
  "length (hmac_sha256_hex key msg) = 64"
  by (simp_all add: hmac_sha256_hex_def sha256_hex_shape Let_def)

end
