(* ===== verification/Billing.thy ===== *)
theory Billing
  imports Python_Text Interfaces
begin

text \<open>
  The billing boundary (\<open>researchos/saas/billing.py\<close>): entitlements, webhook signatures, the
  deduplicating event store and the parser of provider events.  The parser takes the decoded payload;
  HTTP calls to the provider are not modelled.
\<close>

section \<open>Entitlements\<close>

record Entitlement =
  ent_tenant_id :: uuid
  ent_plan :: string
  max_datasets :: int
  max_jobs_per_month :: int
  max_storage_mb :: int

definition allows_jobs :: "Entitlement \<Rightarrow> int \<Rightarrow> bool" where
  "allows_jobs e used \<longleftrightarrow> max_jobs_per_month e = 0 \<or> used < max_jobs_per_month e"

definition ENTITLEMENTS_BY_PLAN :: "(string, int \<times> int \<times> int) dict" where
  "ENTITLEMENTS_BY_PLAN = [(''free'', 10, 100, 1024), (''pro'', 1000, 1000, 10240),
     (''enterprise'', 0, 0, 0), (''team'', 1000, 1000, 10240)]"

type_synonym entitlement_store = "(uuid, Entitlement) dict"

definition default_entitlement :: "uuid \<Rightarrow> string \<Rightarrow> Entitlement result" where
  "default_entitlement tenant plan =
     (case dget ENTITLEMENTS_BY_PLAN plan of
        None \<Rightarrow> Inl (KeyError plan)
      | Some (d, j, s) \<Rightarrow> Inr \<lparr>ent_tenant_id = tenant, ent_plan = plan, max_datasets = d,
          max_jobs_per_month = j, max_storage_mb = s\<rparr>)"

definition entitlement_get :: "uuid \<Rightarrow> string \<Rightarrow> entitlement_store \<Rightarrow> Entitlement result" where
  "entitlement_get tenant plan s =
     (case dget s tenant of Some e \<Rightarrow> Inr e | None \<Rightarrow> default_entitlement tenant plan)"

definition entitlement_upsert :: "Entitlement \<Rightarrow> entitlement_store \<Rightarrow> Entitlement \<times> entitlement_store" where
  "entitlement_upsert e s = (e, dset (ent_tenant_id e) e s)"

text \<open>The test provider's checkout.\<close>

definition create_checkout_session :: "uuid \<Rightarrow> string \<Rightarrow> string result" where
  "create_checkout_session ws plan =
     (if plan = ''free'' then Inl (RuntimeError ''free plan does not require checkout'')
      else Inr (''https://billing.test/checkout/'' @ uuid_str ws @ ''/'' @ plan))"

section \<open>Signatures\<close>

definition signature_error :: "'a result" where
  "signature_error = Inl (ValueError ''invalid Stripe webhook signature'')"

text \<open>\<open>hmac.compare_digest\<close> of two texts, which refuses text that is not ASCII, and the search for a match.\<close>

definition ascii_text :: "string \<Rightarrow> bool" where
  "ascii_text s \<longleftrightarrow> list_all (\<lambda>c. (of_char c :: nat) < 128) s"

definition compare_digest :: "string \<Rightarrow> string \<Rightarrow> bool result" where
  "compare_digest a b =
     (if ascii_text a \<and> ascii_text b then Inr (a = b)
      else Inl (TypeError ''comparing strings with non-ASCII characters is not supported''))"

fun any_digest :: "string \<Rightarrow> string list \<Rightarrow> bool result" where
  "any_digest expected [] = Inr False"
| "any_digest expected (c # cs) = rbind (compare_digest expected c) (\<lambda>hit. if hit then Inr True else any_digest expected cs)"

text \<open>\<open>parts.setdefault(key, []).append(value)\<close> over the items of the header.\<close>

definition signature_parts :: "string \<Rightarrow> (string, string list) dict" where
  "signature_parts signature =
     foldl (\<lambda>parts item. case py_partition (CHR ''='') (py_strip item) of
         (k, sep, v) \<Rightarrow> if sep then dset k ((case dget parts k of None \<Rightarrow> [] | Some vs \<Rightarrow> vs) @ [v]) parts else parts)
       [] (py_split (CHR '','') signature)"

definition verify_stripe_signature :: "char list \<Rightarrow> string \<Rightarrow> string \<Rightarrow> int \<Rightarrow> int \<Rightarrow> unit result" where
  "verify_stripe_signature payload signature secret tolerance now =
     (let parts = signature_parts signature in
      case (Option.bind (dget parts ''t'') (\<lambda>ts. case ts of [] \<Rightarrow> None | x # _ \<Rightarrow> py_int x), dget parts ''v1'') of
        (Some timestamp, Some provided) \<Rightarrow>
          if \<bar>now - timestamp\<bar> > tolerance
          then Inl (ValueError ''Stripe webhook signature timestamp outside tolerance'')
          else rbind (any_digest (hmac_sha256_hex (utf8_encode secret)
                    (utf8_encode (py_str_int timestamp @ ''.'') @ payload)) provided) (\<lambda>hit.
            if \<not> hit then signature_error else Inr ())
      | _ \<Rightarrow> signature_error)"

definition verify_hmac_signature :: "char list \<Rightarrow> string \<Rightarrow> string \<Rightarrow> unit result" where
  "verify_hmac_signature payload signature secret =
     rbind (compare_digest (hmac_sha256_hex (utf8_encode secret) payload) (py_strip signature)) (\<lambda>hit.
       if \<not> hit then Inl (ValueError ''invalid billing webhook signature'') else Inr ())"

lemma hex_ascii: "set s \<subseteq> set hex_digits \<Longrightarrow> ascii_text s"
proof -
  assume s: "set s \<subseteq> set hex_digits"
  have "list_all (\<lambda>c. (of_char c :: nat) < 128) hex_digits" by code_simp
  then show ?thesis using s by (auto simp: ascii_text_def list_all_iff)
qed

lemma compare_digest_hmac [simp]: "compare_digest (hmac_sha256_hex k m) (hmac_sha256_hex k m) = Inr True"
  by (simp add: compare_digest_def hex_ascii [OF hmac_sha256_hex_shape(1)])

lemma any_digest_hit: "any_digest expected cs = Inr True \<Longrightarrow> expected \<in> set cs"
  by (induction cs) (auto simp: compare_digest_def rbind_Inr split: if_splits)

section \<open>Events\<close>

record BillingEvent =
  event_id :: string
  event_workspace_id :: string
  event_plan :: string
  event_status :: string
  current_period_end :: "string option"
  provider_customer_id :: "string option"
  provider_subscription_id :: "string option"
  event_created_at :: "string option"

type_synonym event_store = "(string, string \<times> BillingEvent) dict"

definition process_event :: "BillingEvent \<Rightarrow> string \<Rightarrow> event_store \<Rightarrow> (bool, event_store) outcome" where
  "process_event ev payload_sha256 s =
     (case dget s (event_id ev) of
        Some (sha, _) \<Rightarrow>
          if sha \<noteq> payload_sha256 then (Inl (Conflict ''billing event id reused with different payload''), s)
          else (Inr False, s)
      | None \<Rightarrow> (Inr True, dset (event_id ev) (payload_sha256, ev) s))"

subsection \<open>Parsing\<close>

text \<open>\<open>x.get(k)\<close>, \<open>x.get(k, default)\<close> and \<open>a or b\<close> of decoded values.\<close>

definition jget :: "json \<Rightarrow> string \<Rightarrow> json result" where
  "jget x k = (case x of JObj kvs \<Rightarrow> Inr (case map_of kvs k of None \<Rightarrow> JNull | Some v \<Rightarrow> v)
     | _ \<Rightarrow> Inl (AttributeError ''object has no attribute get''))"

definition jget_default :: "json \<Rightarrow> string \<Rightarrow> json \<Rightarrow> json result" where
  "jget_default x k dflt = (case x of JObj kvs \<Rightarrow> Inr (case map_of kvs k of None \<Rightarrow> dflt | Some v \<Rightarrow> v)
     | _ \<Rightarrow> Inl (AttributeError ''object has no attribute get''))"

definition jor :: "json result \<Rightarrow> json result \<Rightarrow> json result" where
  "jor a b = rbind a (\<lambda>v. if falsy v then b else Inr v)"

fun is_obj :: "json \<Rightarrow> bool" where
  "is_obj (JObj _) = True"
| "is_obj _ = False"

text \<open>\<open>str(value or "").strip()\<close> is non-empty.\<close>

definition present :: "json \<Rightarrow> bool" where
  "present v \<longleftrightarrow> \<not> falsy v \<and> \<not> blank (py_str v)"

definition event_time :: "json \<Rightarrow> string \<Rightarrow> string option result" where
  "event_time v message =
     (case v of
        JNull \<Rightarrow> Inr None
      | JInt n \<Rightarrow> map_sum id Some (iso_from_timestamp n)
      | JStr s \<Rightarrow> if py_strip s \<noteq> [] then Inr (Some (py_strip s)) else Inl (ValueError message)
      | _ \<Rightarrow> Inl (ValueError message))"

definition STRIPE_EVENT_TYPES :: "string set" where
  "STRIPE_EVENT_TYPES = {''customer.subscription.created'', ''customer.subscription.updated'',
     ''customer.subscription.deleted''}"

definition json_text_in :: "json \<Rightarrow> string set \<Rightarrow> bool" where
  "json_text_in v S \<longleftrightarrow> (case v of JStr s \<Rightarrow> s \<in> S | _ \<Rightarrow> False)"

text \<open>The plan of the first subscription item, by its price.\<close>

definition plan_from_price :: "json \<Rightarrow> (string, string) dict \<Rightarrow> json result" where
  "plan_from_price obj prices =
     rbind (jget obj ''items'') (\<lambda>its.
     rbind (if is_obj its then jget_default its ''data'' (JList []) else Inr (JList [])) (\<lambda>items.
       case items of
         JList (first # _) \<Rightarrow>
           if is_obj first
           then rbind (jget_default first ''price'' (JObj [])) (\<lambda>price.
                rbind (if is_obj price then jget price ''id'' else Inr JNull) (\<lambda>pid.
                  Inr (if falsy pid then JNull
                       else (case dget prices (py_str pid) of None \<Rightarrow> JNull | Some p \<Rightarrow> JStr p))))
           else Inr JNull
       | _ \<Rightarrow> Inr JNull))"

definition event_object :: "json \<Rightarrow> json result" where
  "event_object dat =
     rbind (jget dat ''data'') (\<lambda>d. if is_obj d then jget_default d ''object'' (JObj []) else Inr (JObj []))"

text \<open>A falsy plan is a missing plan, whichever falsy value it is.\<close>

definition event_plan_of :: "json \<Rightarrow> json \<Rightarrow> json \<Rightarrow> (string, string) dict \<Rightarrow> json result" where
  "event_plan_of dat obj metadata prices =
     rbind (jor (jget dat ''plan'') (jor (jget metadata ''plan'') (jget obj ''plan''))) (\<lambda>plan.
       if falsy plan \<and> is_obj obj \<and> prices \<noteq> [] then plan_from_price obj prices else Inr plan)"

definition event_status_of :: "json \<Rightarrow> json \<Rightarrow> json \<Rightarrow> string result" where
  "event_status_of dat obj event_type =
     rbind (jor (jget dat ''status'') (jget obj ''status'')) (\<lambda>st0.
       let st1 = (if falsy st0 \<and> event_type = JStr ''customer.subscription.deleted'' then JStr ''canceled'' else st0);
           st2 = (if falsy st1 then JStr ''active'' else st1)
       in Inr (if py_str st2 = ''canceled'' then ''cancelled'' else py_str st2))"

definition subscription_id_of :: "json \<Rightarrow> json \<Rightarrow> json result" where
  "subscription_id_of dat obj =
     rbind (jget dat ''provider_subscription_id'') (\<lambda>sid.
       if falsy sid \<and> is_obj obj
       then rbind (jget obj ''id'') (\<lambda>i.
         Inr (if starts_with ''sub_'' (if falsy i then [] else py_str i) then i else JNull))
       else Inr sid)"

definition optional_text :: "json \<Rightarrow> string option" where
  "optional_text v = (if falsy v then None else Some (py_str v))"

definition parse_billing_event :: "json \<Rightarrow> (string, string) dict \<Rightarrow> bool \<Rightarrow> BillingEvent result" where
  "parse_billing_event dat prices require_stripe =
     rbind (jor (jget dat ''event_id'') (jget dat ''id'')) (\<lambda>eid.
     rbind (jget dat ''type'') (\<lambda>event_type.
       if require_stripe \<and> (case event_type of JList _ \<Rightarrow> True | JObj _ \<Rightarrow> True | _ \<Rightarrow> False)
       then Inl (TypeError ''unhashable type'')
       else if require_stripe \<and> \<not> json_text_in event_type STRIPE_EVENT_TYPES
       then Inl (ValueError ''unsupported Stripe billing event type'')
       else
     rbind (event_object dat) (\<lambda>obj.
     rbind (if is_obj obj then jget_default obj ''metadata'' (JObj []) else Inr (JObj [])) (\<lambda>metadata.
     rbind (jor (jget dat ''workspace_id'') (jor (jget metadata ''workspace_id'') (jget obj ''workspace_id''))) (\<lambda>wid.
     rbind (event_plan_of dat obj metadata prices) (\<lambda>plan.
     rbind (event_status_of dat obj event_type) (\<lambda>status.
       if \<not> (present eid \<and> present wid \<and> present plan) then Inl (ValueError ''billing event missing required fields'')
       else if dget ENTITLEMENTS_BY_PLAN (py_str plan) = None then Inl (ValueError ''unsupported billing entitlement plan'')
       else
     rbind (jor (jget dat ''current_period_end'') (jget obj ''current_period_end'')) (\<lambda>raw_end.
     rbind (event_time raw_end ''invalid billing current_period_end'') (\<lambda>period_end.
     rbind (jor (jget dat ''provider_customer_id'') (jget obj ''customer'')) (\<lambda>customer.
     rbind (subscription_id_of dat obj) (\<lambda>subscription.
     rbind (jget dat ''created'') (\<lambda>raw_created.
     rbind (event_time raw_created ''invalid billing event created timestamp'') (\<lambda>created.
       if require_stripe \<and> created = None then Inl (ValueError ''Stripe billing event missing created timestamp'')
       else Inr \<lparr>event_id = py_str eid, event_workspace_id = py_str wid, event_plan = py_str plan,
                 event_status = status, current_period_end = period_end,
                 provider_customer_id = optional_text customer,
                 provider_subscription_id = optional_text subscription,
                 event_created_at = created\<rparr>)))))))))))))"

section \<open>Correctness\<close>

lemma event_status_normal:
  "event_status_of dat obj ty = Inr st \<Longrightarrow> st \<noteq> ''canceled''"
  by (auto simp: event_status_of_def rbind_Inr Let_def split: if_splits)

lemma event_built:
  "Inr \<lparr>event_id = a, event_workspace_id = b, event_plan = c, event_status = d, current_period_end = e,
     provider_customer_id = f, provider_subscription_id = g, event_created_at = h\<rparr> = (Inr ev :: BillingEvent result)
   \<Longrightarrow> event_id ev = a \<and> event_workspace_id ev = b \<and> event_plan ev = c \<and> event_status ev = d \<and> event_created_at ev = h"
  by auto

text \<open>
  Every billing event the parser accepts is usable: its event id, workspace and plan are not
  blank, the plan is one with entitlements, the provider's spelling of a cancelled subscription never
  comes through, and in the strict mode it is one of the three subscription events and carries its
  creation time.
\<close>

lemma parsed_billing_event_valid:
  assumes "parse_billing_event dat prices strict = Inr ev"
  shows "\<not> blank (event_id ev) \<and> \<not> blank (event_workspace_id ev)
    \<and> dget ENTITLEMENTS_BY_PLAN (event_plan ev) \<noteq> None \<and> event_status ev \<noteq> ''canceled''
    \<and> (strict \<longrightarrow> event_created_at ev \<noteq> None \<and> (\<exists>t. jget dat ''type'' = Inr (JStr t) \<and> t \<in> STRIPE_EVENT_TYPES))"
proof -
  obtain eid ty obj md wid plan st created where
    ev: "event_id ev = py_str eid" "event_workspace_id ev = py_str wid" "event_plan ev = py_str plan"
      "event_status ev = st" "event_created_at ev = created"
    and ty: "jget dat ''type'' = Inr ty"
    and strict: "strict \<Longrightarrow> json_text_in ty STRIPE_EVENT_TYPES \<and> created \<noteq> None"
    and st: "event_status_of dat obj ty = Inr st"
    and ok: "present eid" "present wid" "dget ENTITLEMENTS_BY_PLAN (py_str plan) \<noteq> None"
    using assms unfolding parse_billing_event_def
    by (elim rbindE guardE)
      (drule event_built, elim conjE, rule that, assumption, assumption, assumption, assumption, assumption,
       assumption, blast, assumption, blast, blast, assumption)
  have "strict \<Longrightarrow> \<exists>t. ty = JStr t \<and> t \<in> STRIPE_EVENT_TYPES"
    using strict by (auto simp: json_text_in_def split: json.splits)
  then show ?thesis using ty strict ok event_status_normal [OF st] by (auto simp: ev present_def)
qed

definition sample_event :: json where
  "sample_event = JObj [(''id'', JStr ''evt''), (''type'', JStr ''customer.subscription.deleted''),
     (''workspace_id'', JStr ''w''), (''plan'', JStr ''pro''), (''created'', JStr ''2024-01-01'')]"

lemma sample_event_parsed:
  "\<exists>ev. parse_billing_event sample_event [] True = Inr ev \<and> event_status ev = ''cancelled''"
  by (simp add: parse_billing_event_def sample_event_def rbind_def jor_def jget_def jget_default_def event_object_def
      event_plan_of_def event_status_of_def subscription_id_of_def event_time_def present_def blank_iff py_isspace_def
      json_text_in_def STRIPE_EVENT_TYPES_def ENTITLEMENTS_BY_PLAN_def starts_with_def py_strip_def)

text \<open>
  The event store answers each event once.
\<close>

interpretation billing_once: exactly_once "\<lambda>s k. map_option fst (dget s k)"
  "\<lambda>(ev, sha). event_id ev" "\<lambda>(ev, sha). sha" "\<lambda>s (ev, sha). process_event ev sha s"
  "\<lambda>s k. map_option (\<lambda>_. ()) (dget s k)" "\<lambda>_. False"
proof
  fix s t :: event_store and r :: "BillingEvent \<times> string" and v
  assume "(case r of (ev, sha) \<Rightarrow> process_event ev sha s) = (Inr v, t)"
  then show "(\<lambda>k. map_option fst (dget t k)) = (\<lambda>k. map_option fst (dget s k))
        ((case r of (ev, sha) \<Rightarrow> event_id ev) \<mapsto> (case r of (ev, sha) \<Rightarrow> sha))
      \<and> map_option fst (dget s (case r of (ev, sha) \<Rightarrow> event_id ev)) \<in> {None, Some (case r of (ev, sha) \<Rightarrow> sha)}"
    by (cases r) (auto simp: process_event_def split: option.splits if_splits)
next
  fix s t :: event_store and r :: "BillingEvent \<times> string" and e
  assume "(case r of (ev, sha) \<Rightarrow> process_event ev sha s) = (Inl e, t)"
  then show "t = s" by (cases r) (auto simp: process_event_def split: option.splits if_splits)
next
  fix s :: event_store and r :: "BillingEvent \<times> string" and v :: unit
  assume "map_option fst (dget s (case r of (ev, sha) \<Rightarrow> event_id ev)) = Some (case r of (ev, sha) \<Rightarrow> sha)"
  then show "(case r of (ev, sha) \<Rightarrow> process_event ev sha s) = (Inr False, s)"
    by (cases r) (auto simp: process_event_def)
next
  fix s :: event_store and r :: "BillingEvent \<times> string" and k and v :: unit
  assume "map_option (\<lambda>_. ()) (dget s k) = Some v"
  then show "map_option (\<lambda>_. ()) (dget (snd (case r of (ev, sha) \<Rightarrow> process_event ev sha s)) k) = Some v"
    by (cases r) (auto simp: process_event_def split: option.splits if_splits)
qed auto

abbreviation serve_event :: "event_store \<Rightarrow> BillingEvent \<times> string \<Rightarrow> (bool, event_store) outcome" where
  "serve_event \<equiv> \<lambda>s (ev, sha). process_event ev sha s"

text \<open>
  A billing event takes effect once: the first delivery of an event id is processed; after any
  further deliveries, a redelivery with the same payload is answered as already processed and one with
  another payload is refused, both without any change.
\<close>

lemma billing_event_processed_once:
  assumes "dget s (event_id ev) = None"
  shows "\<exists>t. process_event ev sha s = (Inr True, t)
    \<and> process_event ev sha (serve_all serve_event t rs) = (Inr False, serve_all serve_event t rs)
    \<and> (sha' \<noteq> sha \<longrightarrow> (\<exists>e. process_event ev sha' (serve_all serve_event t rs) = (Inl e, serve_all serve_event t rs)))"
proof -
  let ?t = "dset (event_id ev) (sha, ev) s"
  have "process_event ev sha s = (Inr True, ?t)" using assms by (simp add: process_event_def)
  moreover have "process_event ev sha (serve_all serve_event ?t rs) = (Inr False, serve_all serve_event ?t rs)"
    using billing_once.replay_after_anything [of ?t "(ev, sha)" "()" rs] by simp
  moreover have "sha' \<noteq> sha \<longrightarrow> (\<exists>e. process_event ev sha' (serve_all serve_event ?t rs) = (Inl e, serve_all serve_event ?t rs))"
    using billing_once.clash_refused [of ?t "(ev, sha')" sha rs] by simp
  ultimately show ?thesis by blast
qed

definition plain_event :: BillingEvent where
  "plain_event = \<lparr>event_id = ''e'', event_workspace_id = ''w'', event_plan = ''pro'', event_status = ''active'',
     current_period_end = None, provider_customer_id = None, provider_subscription_id = None, event_created_at = None\<rparr>"

section \<open>Signatures accept exactly the holder of the secret\<close>

definition stripe_header :: "int \<Rightarrow> string \<Rightarrow> char list \<Rightarrow> string" where
  "stripe_header t secret payload =
     ''t='' @ py_str_int t @ '',v1='' @ hmac_sha256_hex (utf8_encode secret) (utf8_encode (py_str_int t @ ''.'') @ payload)"

lemma py_str_int_chars: "c \<in> set (py_str_int i) \<Longrightarrow> c = CHR ''-'' \<or> (\<exists>d<10. c = digit_char d)"
  using nat_digits_chars by (auto simp: py_str_int_def split: if_splits)

lemma py_str_int_plain:
  assumes "c \<in> set (py_str_int i)"
  shows "c \<noteq> CHR '',''" "c \<noteq> CHR ''=''" "\<not> py_isspace c"
proof -
  have "\<forall>d \<in> set [0..<10]. digit_char d \<noteq> CHR '','' \<and> digit_char d \<noteq> CHR ''='' \<and> \<not> py_isspace (digit_char d)"
    by code_simp
  then have "\<forall>d<10. digit_char d \<noteq> CHR '','' \<and> digit_char d \<noteq> CHR ''='' \<and> \<not> py_isspace (digit_char d)" by simp
  then show "c \<noteq> CHR '',''" "c \<noteq> CHR ''=''" "\<not> py_isspace c"
    using py_str_int_chars [OF assms] by (auto simp: py_isspace_def)
qed

lemma stripe_header_parts:
  "signature_parts (stripe_header t secret payload)
    = [(''t'', [py_str_int t]), (''v1'', [hmac_sha256_hex (utf8_encode secret) (utf8_encode (py_str_int t @ ''.'') @ payload)])]"
proof -
  define h where "h = hmac_sha256_hex (utf8_encode secret) (utf8_encode (py_str_int t @ ''.'') @ payload)"
  have hex: "c \<in> set hex_digits" if "c \<in> set h" for c
    using that hmac_sha256_hex_shape(1) by (auto simp: h_def)
  have h: "CHR '','' \<notin> set h" "CHR ''='' \<notin> set h"
    using hex by (auto simp: hex_digits_def)
  have space: "\<not> py_isspace c" if "c \<in> set h" for c
    using hex [OF that] by (rule hex_digits_special(9))
  have letters: "\<not> py_isspace CHR ''t''" "\<not> py_isspace CHR ''v''" "\<not> py_isspace CHR ''1''" "\<not> py_isspace CHR ''=''"
    by (simp_all add: py_isspace_def)
  have comma: "CHR '','' \<notin> set (''t='' @ py_str_int t)" "CHR '','' \<notin> set (''v1='' @ h)"
    using py_str_int_plain(1) h(1) by auto
  have "stripe_header t secret payload = (''t='' @ py_str_int t) @ CHR '','' # (''v1='' @ h)"
    by (simp add: stripe_header_def h_def)
  then have items: "py_split (CHR '','') (stripe_header t secret payload) = [''t='' @ py_str_int t, ''v1='' @ h]"
    by (simp only: py_split_append [OF comma(1)] py_split_absent [OF comma(2)])
  have strip: "py_strip (''t='' @ py_str_int t) = ''t='' @ py_str_int t"
    by (rule py_strip_no_space) (auto simp: letters dest: py_str_int_plain(3))
  have strip_h: "py_strip (''v1='' @ h) = ''v1='' @ h"
    by (rule py_strip_no_space) (auto simp: letters space)
  have "py_partition (CHR ''='') (''t'' @ CHR ''='' # py_str_int t) = (''t'', True, py_str_int t)"
    "py_partition (CHR ''='') (''v1'' @ CHR ''='' # h) = (''v1'', True, h)"
    by (rule py_partition_append, simp)+
  then show ?thesis unfolding signature_parts_def items using strip strip_h by (simp add: h_def)
qed

text \<open>
  Webhook signatures: a header made with the secret for the payload is accepted while its
  timestamp is within the tolerance; and whatever header is accepted names a timestamp within the
  tolerance and carries the HMAC of that timestamp and the payload under the secret.
\<close>

lemma stripe_signature_sound_complete:
  "(\<bar>now - t\<bar> \<le> tol \<longrightarrow> verify_stripe_signature payload (stripe_header t secret payload) secret tol now = Inr ())
   \<and> (verify_stripe_signature payload sig secret tol now = Inr () \<longrightarrow>
      (\<exists>ts vs. \<bar>now - ts\<bar> \<le> tol \<and> dget (signature_parts sig) ''v1'' = Some vs
        \<and> hmac_sha256_hex (utf8_encode secret) (utf8_encode (py_str_int ts @ ''.'') @ payload) \<in> set vs))"
proof (intro conjI impI)
  assume "\<bar>now - t\<bar> \<le> tol"
  then show "verify_stripe_signature payload (stripe_header t secret payload) secret tol now = Inr ()"
    by (simp add: verify_stripe_signature_def stripe_header_parts)
next
  assume "verify_stripe_signature payload sig secret tol now = Inr ()"
  then show "\<exists>ts vs. \<bar>now - ts\<bar> \<le> tol \<and> dget (signature_parts sig) ''v1'' = Some vs
        \<and> hmac_sha256_hex (utf8_encode secret) (utf8_encode (py_str_int ts @ ''.'') @ payload) \<in> set vs"
    by (auto simp: verify_stripe_signature_def signature_error_def Let_def not_less rbind_Inr dest: any_digest_hit split: option.splits if_splits)
qed

end
