(* ===== verification/Dataset_Store.thy ===== *)
theory Dataset_Store
  imports Job_Store Python_Text
begin

text \<open>
  Tenant-scoped datasets with immutable, content-addressed versions (\<open>researchos/saas/datasets.py\<close>):
  the in-memory store and object storage, the canonical storage path and the streaming digest; and
  the executor that resolves a job's dataset (\<open>researchos/saas/research_executor.py\<close>).
\<close>

record Dataset =
  dset_id :: uuid
  dset_workspace_id :: uuid
  dset_name :: string
  dset_created_by :: uuid
  dset_created_at :: timestamp

record DatasetVersion =
  ver_id :: uuid
  ver_dataset_id :: uuid
  ver_no :: int
  ver_sha256 :: string
  ver_storage_path :: string
  ver_byte_size :: int
  ver_created_by :: uuid
  ver_feeds :: "string list"

record DatasetStore =
  datasets :: "(uuid, Dataset) dict"
  versions :: "(uuid, DatasetVersion) dict"

definition empty_datasets :: DatasetStore where
  "empty_datasets = \<lparr>datasets = [], versions = []\<rparr>"

section \<open>Paths and digests\<close>

definition storage_path_for :: "uuid \<Rightarrow> string \<Rightarrow> int \<Rightarrow> string result" where
  "storage_path_for ws digest version_no =
     (if version_no < 1 then Inl (ValueError ''version_no must be positive'')
      else if length digest \<noteq> 64 \<or> (\<exists>c \<in> set digest. c \<notin> set hex_digits)
      then Inl (ValueError ''digest must be a canonical SHA-256 digest'')
      else Inr (''tenant/'' @ uuid_str ws @ ''/datasets/'' @ digest @ ''/'' @ py_str_int version_no @ ''/''))"

text \<open>
  \<open>stream_sha256\<close> reads the file in chunks; \<open>digest.update\<close> on the chunks is the digest of their
  concatenation, kept here as the bytes read so far.  An empty chunk is the end of the file.
\<close>

fun stream_sha256_loop :: "int \<Rightarrow> int \<Rightarrow> char list \<Rightarrow> char list list \<Rightarrow> (string \<times> int) result" where
  "stream_sha256_loop max_bytes n acc [] = Inr (sha256_hex acc, n)"
| "stream_sha256_loop max_bytes n acc (chunk # chunks) =
     (if chunk = [] then Inr (sha256_hex acc, n)
      else let size' = n + int (length chunk)
           in if size' > max_bytes then Inl (ValueError ''dataset exceeds plan upload limit'')
              else stream_sha256_loop max_bytes size' (acc @ chunk) chunks)"

definition stream_sha256 :: "char list list \<Rightarrow> int \<Rightarrow> (string \<times> int) result" where
  "stream_sha256 chunks max_bytes = stream_sha256_loop max_bytes 0 [] chunks"

section \<open>The store\<close>

definition get_dataset :: "uuid \<Rightarrow> uuid \<Rightarrow> DatasetStore \<Rightarrow> Dataset option" where
  "get_dataset ws did s =
     (case dget (datasets s) did of
        None \<Rightarrow> None
      | Some d \<Rightarrow> if dset_workspace_id d = ws then Some d else None)"

definition get_version :: "uuid \<Rightarrow> uuid \<Rightarrow> DatasetStore \<Rightarrow> DatasetVersion option" where
  "get_version ws vid s =
     (case dget (versions s) vid of
        None \<Rightarrow> None
      | Some v \<Rightarrow> if get_dataset ws (ver_dataset_id v) s = None then None else Some v)"

definition create_dataset :: "uuid \<Rightarrow> Dataset \<Rightarrow> DatasetStore \<Rightarrow> (Dataset, DatasetStore) outcome" where
  "create_dataset ws d s =
     (if dset_workspace_id d \<noteq> ws then (Inl (ValueError ''dataset workspace does not match tenant''), s)
      else if dget (datasets s) (dset_id d) \<noteq> None then (Inl (ValueError ''dataset already exists''), s)
      else (Inr d, s\<lparr>datasets := dset (dset_id d) d (datasets s)\<rparr>))"

text \<open>\<open>needle in text\<close> for strings.\<close>

definition py_in :: "string \<Rightarrow> string \<Rightarrow> bool" where
  "py_in needle s \<longleftrightarrow> list_ex (\<lambda>i. take (length needle) (drop i s) = needle) [0..<Suc (length s)]"

definition list_datasets ::
  "uuid \<Rightarrow> int \<Rightarrow> int \<Rightarrow> string option \<Rightarrow> string \<Rightarrow> string \<Rightarrow> DatasetStore \<Rightarrow> (Dataset list \<times> int) result" where
  "list_datasets ws limit offset name_filter sort_by sort_order s =
     (if \<not> (1 \<le> limit \<and> limit \<le> 100) \<or> offset < 0 then Inl (ValueError ''invalid pagination'')
      else if sort_by \<notin> {''created_at'', ''name''} then Inl (ValueError ''invalid sort field'')
      else if sort_order \<notin> {''asc'', ''desc''} then Inl (ValueError ''invalid sort order'')
      else
        let needle = (case name_filter of None \<Rightarrow> None
                      | Some f \<Rightarrow> if f = [] then None else Some (py_lower (py_strip f)));
            selected = filter (\<lambda>d. dset_workspace_id d = ws
                \<and> (case needle of None \<Rightarrow> True | Some n \<Rightarrow> py_in n (py_lower (dset_name d)))) (dvalues (datasets s));
            desc = (sort_order = ''desc'');
            ordered = (if sort_by = ''created_at'' then py_sort (\<lambda>d. (dset_created_at d, uuid_hex (dset_id d))) desc selected
                       else py_sort (\<lambda>d. (py_lower (dset_name d), uuid_hex (dset_id d))) desc selected)
        in Inr (take (nat limit) (drop (nat offset) ordered), int (length ordered)))"

definition delete_dataset :: "uuid \<Rightarrow> uuid \<Rightarrow> DatasetStore \<Rightarrow> (unit, DatasetStore) outcome" where
  "delete_dataset ws did s =
     (case get_dataset ws did s of
        None \<Rightarrow> (Inr (), s)
      | Some _ \<Rightarrow>
          if list_ex (\<lambda>v. ver_dataset_id v = did) (dvalues (versions s))
          then (Inl (ValueError ''cannot delete dataset with versions''), s)
          else (Inr (), s\<lparr>datasets := dpop did (datasets s)\<rparr>))"

definition create_version :: "uuid \<Rightarrow> DatasetVersion \<Rightarrow> DatasetStore \<Rightarrow> (DatasetVersion, DatasetStore) outcome" where
  "create_version ws v s =
     (case storage_path_for ws (ver_sha256 v) (ver_no v) of
        Inl e \<Rightarrow> (Inl e, s)
      | Inr path \<Rightarrow>
          if ver_storage_path v \<noteq> path
          then (Inl (ValueError ''dataset storage path does not match canonical content-addressed path''), s)
          else if dget (versions s) (ver_id v) \<noteq> None then (Inl (ValueError ''dataset version already exists''), s)
          else if get_dataset ws (ver_dataset_id v) s = None then (Inl (KeyError ''dataset not found for workspace''), s)
          else if list_ex (\<lambda>v'. ver_no v' = ver_no v)
                    (filter (\<lambda>v'. ver_dataset_id v' = ver_dataset_id v) (dvalues (versions s)))
          then (Inl (ValueError ''dataset version number already exists''), s)
          else (Inr v, s\<lparr>versions := dset (ver_id v) v (versions s)\<rparr>))"

definition find_version_by_content :: "uuid \<Rightarrow> uuid \<Rightarrow> string \<Rightarrow> DatasetStore \<Rightarrow> DatasetVersion option" where
  "find_version_by_content ws did sha s =
     (if get_dataset ws did s = None then None
      else find (\<lambda>v. ver_dataset_id v = did \<and> ver_sha256 v = sha) (dvalues (versions s)))"

definition next_version_no :: "uuid \<Rightarrow> uuid \<Rightarrow> DatasetStore \<Rightarrow> int result" where
  "next_version_no ws did s =
     (if get_dataset ws did s = None then Inl (KeyError ''dataset not found for workspace'')
      else case map ver_no (filter (\<lambda>v. ver_dataset_id v = did) (dvalues (versions s))) of
             [] \<Rightarrow> Inr (0 + 1)
           | n # ns \<Rightarrow> Inr (foldl max n ns + 1))"

definition link_experiment :: "uuid \<Rightarrow> uuid \<Rightarrow> string \<Rightarrow> DatasetStore \<Rightarrow> (DatasetVersion, DatasetStore) outcome" where
  "link_experiment ws vid experiment s =
     (case get_version ws vid s of
        None \<Rightarrow> (Inl (KeyError ''dataset version not found for workspace''), s)
      | Some v \<Rightarrow>
          let updated = v\<lparr>ver_feeds := sort (remdups (ver_feeds v @ [experiment]))\<rparr>
          in (Inr updated, s\<lparr>versions := dset vid updated (versions s)\<rparr>))"

definition list_versions :: "uuid \<Rightarrow> uuid \<Rightarrow> DatasetStore \<Rightarrow> DatasetVersion list" where
  "list_versions ws did s =
     (if get_dataset ws did s = None then []
      else sort_key ver_no (filter (\<lambda>v. ver_dataset_id v = did) (dvalues (versions s))))"

definition count_datasets :: "uuid \<Rightarrow> DatasetStore \<Rightarrow> int" where
  "count_datasets ws s = int (length (filter (\<lambda>d. dset_workspace_id d = ws) (dvalues (datasets s))))"

definition storage_bytes :: "uuid \<Rightarrow> DatasetStore \<Rightarrow> int" where
  "storage_bytes ws s =
     sum_list (map ver_byte_size (filter (\<lambda>v. get_dataset ws (ver_dataset_id v) s \<noteq> None) (dvalues (versions s))))"

section \<open>Object storage\<close>

type_synonym object_storage = "(string, char list) dict"

definition tenant_path :: "uuid \<Rightarrow> string \<Rightarrow> bool" where
  "tenant_path tenant path \<longleftrightarrow> starts_with (''tenant/'' @ uuid_str tenant @ ''/'') path"

definition outside_tenant :: "uuid option \<Rightarrow> string \<Rightarrow> bool" where
  "outside_tenant tenant path \<longleftrightarrow> (case tenant of None \<Rightarrow> False | Some t \<Rightarrow> \<not> tenant_path t path)"

definition tenant_error :: "'a result" where
  "tenant_error = Inl (PermissionError ''storage path is outside tenant context'')"

definition storage_put :: "string \<Rightarrow> char list \<Rightarrow> object_storage \<Rightarrow> (unit, object_storage) outcome" where
  "storage_put path content o' =
     (if dget o' path \<noteq> None then (Inl (ValueError ''storage object already exists''), o')
      else (Inr (), dset path content o'))"

definition storage_remove :: "string \<Rightarrow> uuid option \<Rightarrow> object_storage \<Rightarrow> (unit, object_storage) outcome" where
  "storage_remove path tenant o' =
     (if outside_tenant tenant path then (tenant_error, o') else (Inr (), dpop path o'))"

definition download_verified :: "string \<Rightarrow> string \<Rightarrow> object_storage \<Rightarrow> char list result" where
  "download_verified path expected o' =
     (case dget o' path of
        None \<Rightarrow> Inl (FileNotFoundError path)
      | Some dat \<Rightarrow> if sha256_hex dat \<noteq> expected then Inl (ValueError ''dataset SHA-256 verification failed'') else Inr dat)"

definition verify_sha256 :: "string \<Rightarrow> string \<Rightarrow> uuid option \<Rightarrow> object_storage \<Rightarrow> bool result" where
  "verify_sha256 path expected tenant o' =
     (if outside_tenant tenant path then tenant_error
      else Inr (case dget o' path of None \<Rightarrow> False | Some dat \<Rightarrow> sha256_hex dat = py_lower expected))"

definition create_signed_download_url :: "string \<Rightarrow> int \<Rightarrow> uuid option \<Rightarrow> object_storage \<Rightarrow> string result" where
  "create_signed_download_url path expires_in tenant o' =
     (if outside_tenant tenant path then tenant_error
      else if dget o' path = None then Inl (FileNotFoundError path)
      else if expires_in \<noteq> 3600 then Inl (ValueError ''dataset signed URL expiry must be exactly 3600 seconds'')
      else Inr (''memory://'' @ path @ ''?expires_in=3600''))"

definition download :: "string \<Rightarrow> object_storage \<Rightarrow> char list result" where
  "download path o' = (case dget o' path of None \<Rightarrow> Inl (FileNotFoundError path) | Some c \<Rightarrow> Inr c)"

section \<open>The governed executor\<close>

definition ResearchRequest_init :: "ResearchDataset \<Rightarrow> string \<Rightarrow> unit result" where
  "ResearchRequest_init dataset workflow =
     (if workflow \<noteq> FROZEN_XAUUSD_M1_WORKFLOW
      then Inl (ValueError (''unsupported workflow_id: '' @ py_repr_string workflow))
      else if map py_upper_char (asset dataset) \<noteq> ''XAUUSD''
      then Inl (ValueError ''the frozen MVP workflow only accepts XAUUSD'')
      else if map py_upper_char (timeframe dataset) \<noteq> ''M1''
      then Inl (ValueError ''the frozen MVP workflow only accepts M1'')
      else Inr ())"

text \<open>
  \<open>GovernedResearchExecutor.execute\<close>.  The frozen runner is an argument: a function of the dataset,
  the workflow and the raw bytes its resolver hands out.
\<close>

definition governed_execute ::
  "(ResearchDataset \<Rightarrow> string \<Rightarrow> char list \<Rightarrow> ResearchResult result) \<Rightarrow> DatasetStore \<Rightarrow> object_storage \<Rightarrow> uuid
    \<Rightarrow> uuid \<Rightarrow> JobStore \<Rightarrow> ResearchResult result" where
  "governed_execute runner ds o' ws jid js =
     (case get_job ws jid js of
        None \<Rightarrow> Inl (KeyError ''research job not found for workspace'')
      | Some job \<Rightarrow>
     (case get_version ws (job_dataset_version_id job) ds of
        None \<Rightarrow> Inl (KeyError ''dataset version not found for workspace'')
      | Some v \<Rightarrow>
          if ver_sha256 v \<noteq> job_source_sha256 job
          then Inl (ValueError ''resolved dataset SHA does not match persisted job source SHA'')
          else
     (case download (ver_storage_path v) o' of
        Inl e \<Rightarrow> Inl e
      | Inr raw \<Rightarrow>
          if int (length raw) \<noteq> ver_byte_size v
          then Inl (ValueError ''materialized dataset byte size does not match dataset version'')
          else if sha256_hex raw \<noteq> ver_sha256 v
          then Inl (ValueError ''materialized dataset SHA does not match dataset version'')
          else
     (case ResearchDataset_from_content (uuid_str (ver_dataset_id v)) ''XAUUSD'' ''M1'' raw [] of
        Inl e \<Rightarrow> Inl e
      | Inr dataset \<Rightarrow>
          if content_sha256 (provenance dataset) \<noteq> job_source_sha256 job
          then Inl (ValueError ''ResearchDataset SHA does not match persisted job source SHA'')
          else
     (case ResearchRequest_init dataset (job_workflow_id job) of
        Inl e \<Rightarrow> Inl e
      | Inr _ \<Rightarrow>
     (case runner dataset (job_workflow_id job) raw of
        Inl e \<Rightarrow> Inl e
      | Inr res \<Rightarrow>
          if res_source_sha256 res \<noteq> job_source_sha256 job
          then Inl (ValueError ''ResearchResult source SHA does not match persisted job source SHA'')
          else Inr res))))))"

section \<open>Paths\<close>

lemma storage_path_ok:
  assumes "storage_path_for ws digest n = Inr p"
  shows "1 \<le> n" "is_sha256 digest"
    "p = ''tenant/'' @ uuid_str ws @ ''/datasets/'' @ digest @ ''/'' @ py_str_int n @ ''/''"
  using assms by (auto simp: storage_path_for_def is_sha256_def split: if_splits)

lemma uuid_str_length [simp]: "length (uuid_str u) = 36"
  by (simp add: uuid_str_def uuid_hex_def Let_def)

lemma py_str_int_inj: "py_str_int a = py_str_int b \<Longrightarrow> a = b"
  by (metis option.inject py_int_py_str_int)

lemma storage_path_inj:
  assumes p: "storage_path_for ws d n = Inr p" and q: "storage_path_for ws' d' n' = Inr p"
    and "valid_uuid ws" "valid_uuid ws'"
  shows "ws' = ws \<and> d' = d \<and> n' = n"
proof -
  have "uuid_str ws @ ''/datasets/'' @ d @ ''/'' @ py_str_int n @ ''/''
      = uuid_str ws' @ ''/datasets/'' @ d' @ ''/'' @ py_str_int n' @ ''/''"
    using storage_path_ok(3) [OF p] storage_path_ok(3) [OF q] by simp
  then have ws: "uuid_str ws = uuid_str ws'"
    and rest: "d @ ''/'' @ py_str_int n @ ''/'' = d' @ ''/'' @ py_str_int n' @ ''/''" by simp_all
  have "length d = length d'" using storage_path_ok(2) [OF p] storage_path_ok(2) [OF q] by (simp add: is_sha256_def)
  with rest have "d = d'" "py_str_int n = py_str_int n'" by simp_all
  then show ?thesis using uuid_str_inj [OF assms(3,4) ws] py_str_int_inj by simp
qed

lemma storage_path_tenant:
  assumes "storage_path_for ws d n = Inr p" and "valid_uuid ws" and "valid_uuid t"
  shows "tenant_path t p \<longleftrightarrow> t = ws"
proof -
  have "tenant_path t p \<longleftrightarrow> take 36 (uuid_str ws @ ''/datasets/'' @ d @ ''/'' @ py_str_int n @ ''/'') = uuid_str t"
    unfolding storage_path_ok(3) [OF assms(1)] tenant_path_def starts_with_def
    by (simp add: take_Cons' numeral_eq_Suc)
  then show ?thesis using uuid_str_inj [OF assms(2,3)] by auto
qed

text \<open>
  Storage paths are content-addressed and tenant-bound: different workspaces, digests or version
  numbers have different paths, and a path passes the tenant check of the object storage for its own
  workspace and no other.
\<close>

lemma storage_path_identifies:
  assumes "storage_path_for ws d n = Inr p" and "storage_path_for ws' d' n' = Inr p'"
    and "valid_uuid ws" and "valid_uuid ws'"
  shows "(p' = p \<longleftrightarrow> ws' = ws \<and> d' = d \<and> n' = n) \<and> (tenant_path ws' p \<longleftrightarrow> ws' = ws)"
proof -
  have "p' = p \<Longrightarrow> ws' = ws \<and> d' = d \<and> n' = n"
    using storage_path_inj [OF assms(1) _ assms(3,4)] assms(2) by blast
  moreover have "ws' = ws \<and> d' = d \<and> n' = n \<Longrightarrow> p' = p" using assms(1,2) by simp
  ultimately show ?thesis using storage_path_tenant [OF assms(1,3,4)] by blast
qed

section \<open>Streaming digests\<close>

lemma stream_loop:
  "stream_sha256_loop m n acc chunks =
     (let body = concat (takeWhile (\<lambda>c. c \<noteq> []) chunks) in
      if body \<noteq> [] \<and> n + int (length body) > m then Inl (ValueError ''dataset exceeds plan upload limit'')
      else Inr (sha256_hex (acc @ body), n + int (length body)))"
proof (induction chunks arbitrary: n acc)
  case (Cons c chunks)
  define b where "b = concat (takeWhile (\<lambda>c. c \<noteq> []) chunks)"
  have IH: "stream_sha256_loop m n acc chunks =
      (if b \<noteq> [] \<and> n + int (length b) > m then Inl (ValueError ''dataset exceeds plan upload limit'')
       else Inr (sha256_hex (acc @ b), n + int (length b)))" for n acc
    unfolding b_def using Cons.IH [of n acc] by (simp only: Let_def)
  have body: "concat (takeWhile (\<lambda>c. c \<noteq> []) (c # chunks)) = (if c = [] then [] else c @ b)"
    by (simp add: b_def)
  show ?case unfolding body by (cases "b = []") (auto simp: IH Let_def)
qed simp

text \<open>
  The streaming digest is the digest of the file: reading chunk by chunk up to the first empty
  chunk returns the SHA-256 and the size of everything read, unless that is non-empty and larger than
  the limit, which is an error.
\<close>

lemma stream_sha256_spec:
  "stream_sha256 chunks max_bytes =
     (let body = concat (takeWhile (\<lambda>c. c \<noteq> []) chunks) in
      if body \<noteq> [] \<and> int (length body) > max_bytes then Inl (ValueError ''dataset exceeds plan upload limit'')
      else Inr (sha256_hex body, int (length body)))"
  by (simp add: stream_sha256_def stream_loop Let_def)

section \<open>Invariant and tenants\<close>

datatype dataset_op =
    DsCreate Dataset
  | DsDelete uuid
  | DsVersion DatasetVersion
  | DsLink uuid string

fun dataset_exec :: "uuid \<Rightarrow> dataset_op \<Rightarrow> DatasetStore \<Rightarrow> DatasetStore" where
  "dataset_exec ws (DsCreate d) s = snd (create_dataset ws d s)"
| "dataset_exec ws (DsDelete did) s = snd (delete_dataset ws did s)"
| "dataset_exec ws (DsVersion v) s = snd (create_version ws v s)"
| "dataset_exec ws (DsLink vid e) s = snd (link_experiment ws vid e s)"

inductive dataset_step_of :: "uuid \<Rightarrow> DatasetStore \<Rightarrow> DatasetStore \<Rightarrow> bool" where
  "dataset_step_of ws s (dataset_exec ws opn s)"

definition dataset_step :: "DatasetStore \<Rightarrow> DatasetStore \<Rightarrow> bool" where
  "dataset_step s t \<longleftrightarrow> (\<exists>ws. dataset_step_of ws s t)"

definition dataset_init :: "DatasetStore \<Rightarrow> bool" where
  "dataset_init s \<longleftrightarrow> s = empty_datasets"

text \<open>A stored version belongs to a stored dataset and lies at the canonical path of its workspace.\<close>

definition version_ok :: "DatasetStore \<Rightarrow> DatasetVersion \<Rightarrow> bool" where
  "version_ok s v \<longleftrightarrow> (\<exists>d. dget (datasets s) (ver_dataset_id v) = Some d
     \<and> storage_path_for (dset_workspace_id d) (ver_sha256 v) (ver_no v) = Inr (ver_storage_path v))"

definition dataset_inv :: "DatasetStore \<Rightarrow> bool" where
  "dataset_inv s \<longleftrightarrow> wf_dict (datasets s) \<and> wf_dict (versions s)
     \<and> (\<forall>k d. dget (datasets s) k = Some d \<longrightarrow> dset_id d = k)
     \<and> (\<forall>k v. dget (versions s) k = Some v \<longrightarrow> ver_id v = k \<and> version_ok s v)
     \<and> (\<forall>k k' v v'. dget (versions s) k = Some v \<longrightarrow> dget (versions s) k' = Some v'
          \<longrightarrow> ver_dataset_id v = ver_dataset_id v' \<longrightarrow> ver_no v = ver_no v' \<longrightarrow> k = k')"

text \<open>The five effects a call can have.\<close>

inductive dataset_effect :: "uuid \<Rightarrow> DatasetStore \<Rightarrow> DatasetStore \<Rightarrow> bool" where
  same: "dataset_effect ws s s"
| added: "dget (datasets s) (dset_id d) = None \<Longrightarrow> dset_workspace_id d = ws
    \<Longrightarrow> dataset_effect ws s (s\<lparr>datasets := dset (dset_id d) d (datasets s)\<rparr>)"
| removed: "dget (datasets s) did = Some d \<Longrightarrow> dset_workspace_id d = ws
    \<Longrightarrow> \<forall>v \<in> set (dvalues (versions s)). ver_dataset_id v \<noteq> did
    \<Longrightarrow> dataset_effect ws s (s\<lparr>datasets := dpop did (datasets s)\<rparr>)"
| versioned: "dget (versions s) (ver_id v) = None \<Longrightarrow> dget (datasets s) (ver_dataset_id v) = Some d
    \<Longrightarrow> dset_workspace_id d = ws \<Longrightarrow> storage_path_for ws (ver_sha256 v) (ver_no v) = Inr (ver_storage_path v)
    \<Longrightarrow> \<forall>v' \<in> set (dvalues (versions s)). ver_dataset_id v' = ver_dataset_id v \<longrightarrow> ver_no v' \<noteq> ver_no v
    \<Longrightarrow> dataset_effect ws s (s\<lparr>versions := dset (ver_id v) v (versions s)\<rparr>)"
| linked: "dget (versions s) vid = Some v \<Longrightarrow> dget (datasets s) (ver_dataset_id v) = Some d \<Longrightarrow> dset_workspace_id d = ws
    \<Longrightarrow> dataset_effect ws s (s\<lparr>versions := dset vid (v\<lparr>ver_feeds := fs\<rparr>) (versions s)\<rparr>)"

lemma create_dataset_effect: "dataset_effect ws s (snd (create_dataset ws d s))"
  by (auto simp: create_dataset_def intro: dataset_effect.intros)

lemma delete_dataset_effect: "dataset_effect ws s (snd (delete_dataset ws did s))"
  by (auto simp: delete_dataset_def get_dataset_def list_ex_iff intro: dataset_effect.same
      intro!: dataset_effect.removed split: option.split)

lemma create_version_effect: "dataset_effect ws s (snd (create_version ws v s))"
proof (cases "snd (create_version ws v s) = s")
  case True
  then show ?thesis by (simp add: dataset_effect.same)
next
  case False
  then obtain path d where "storage_path_for ws (ver_sha256 v) (ver_no v) = Inr path" "ver_storage_path v = path"
    "dget (versions s) (ver_id v) = None" "dget (datasets s) (ver_dataset_id v) = Some d" "dset_workspace_id d = ws"
    "\<forall>v' \<in> set (dvalues (versions s)). ver_dataset_id v' = ver_dataset_id v \<longrightarrow> ver_no v' \<noteq> ver_no v"
    "snd (create_version ws v s) = s\<lparr>versions := dset (ver_id v) v (versions s)\<rparr>"
    by (auto simp: create_version_def get_dataset_def list_ex_iff split: sum.splits option.splits if_splits)
  then show ?thesis by (auto intro: dataset_effect.versioned)
qed

lemma link_experiment_effect: "dataset_effect ws s (snd (link_experiment ws vid e s))"
  by (auto simp: link_experiment_def get_version_def get_dataset_def Let_def intro: dataset_effect.intros
      split: option.split)

lemma dataset_step_effect: "dataset_step_of ws s t \<Longrightarrow> dataset_effect ws s t"
proof (induction rule: dataset_step_of.induct)
  case (1 ws s opn)
  then show ?case
    by (cases opn) (simp_all add: create_dataset_effect delete_dataset_effect create_version_effect link_experiment_effect)
qed

lemma dataset_effect_inv:
  assumes "dataset_effect ws s t" and "dataset_inv s"
  shows "dataset_inv t"
  using assms
proof (induction rule: dataset_effect.induct)
  case (removed s did d ws)
  then have "ver_dataset_id v \<noteq> did" if "dget (versions s) k = Some v" for k v
    using that by (auto simp: dvalues_iff dataset_inv_def)
  then show ?case using removed(4) by (auto simp: dataset_inv_def version_ok_def)
next
  case (versioned s v d ws)
  have fresh: "ver_dataset_id v' = ver_dataset_id v \<Longrightarrow> ver_no v' \<noteq> ver_no v" if "dget (versions s) k = Some v'" for k v'
    using that versioned(5,6) by (auto simp: dvalues_iff dataset_inv_def)
  have "version_ok (s\<lparr>versions := dset (ver_id v) v (versions s)\<rparr>) v'"
    if "dget (dset (ver_id v) v (versions s)) k = Some v'" for k v'
    using that versioned by (auto simp: dataset_inv_def version_ok_def split: if_splits)
  then show ?case using versioned(6) fresh unfolding dataset_inv_def
    by simp (metis option.inject)
next
  case (linked s vid v d ws fs)
  have old: "version_ok s v0" if "dget (versions s) k = Some v0" for k v0
    using linked(4) that by (simp add: dataset_inv_def)
  have "version_ok (s\<lparr>versions := dset vid (v\<lparr>ver_feeds := fs\<rparr>) (versions s)\<rparr>) v'"
    if "dget (dset vid (v\<lparr>ver_feeds := fs\<rparr>) (versions s)) k = Some v'" for k v'
    using that old [OF linked(1)] old [of k v'] by (auto simp: version_ok_def split: if_splits)
  then show ?case using linked(1,4) unfolding dataset_inv_def
    by (auto split: if_splits)
next
  case (added s d ws)
  then have "dget (versions s) k = Some v \<Longrightarrow> ver_dataset_id v \<noteq> dset_id d" for k v
    by (force simp: dataset_inv_def version_ok_def)
  then show ?case using added(3) by (auto simp: dataset_inv_def version_ok_def)
qed simp

interpretation dataset_sys: invariant_system dataset_init dataset_step dataset_inv
proof
  show "dataset_init s \<Longrightarrow> dataset_inv s" for s
    by (simp add: dataset_init_def empty_datasets_def dataset_inv_def)
  show "dataset_inv s \<Longrightarrow> dataset_step s t \<Longrightarrow> dataset_inv t" for s t
    unfolding dataset_step_def by (blast intro: dataset_effect_inv dataset_step_effect)
qed

text \<open>What a workspace sees: its datasets and the versions in them.\<close>

definition dataset_view :: "uuid \<Rightarrow> DatasetStore \<Rightarrow> (uuid \<Rightarrow> Dataset option) \<times> (uuid \<Rightarrow> DatasetVersion option)" where
  "dataset_view w s = ((\<lambda>k. get_dataset w k s), (\<lambda>k. get_version w k s))"

lemma dataset_effect_get_dataset:
  assumes "dataset_effect ws s t" and "w \<noteq> ws"
  shows "get_dataset w k t = get_dataset w k s"
  using assms by (induction rule: dataset_effect.induct) (auto simp: get_dataset_def)

lemma dataset_effect_get_version:
  assumes "dataset_effect ws s t" and "w \<noteq> ws" and "dataset_inv s"
  shows "get_version w k t = get_version w k s"
proof -
  have ds: "get_dataset w k' t = get_dataset w k' s" for k'
    by (rule dataset_effect_get_dataset [OF assms(1,2)])
  from assms(1) have "dget (versions t) k = dget (versions s) k
      \<or> (\<exists>v d. dget (versions t) k = Some v \<and> dget (datasets s) (ver_dataset_id v) = Some d \<and> dset_workspace_id d = ws
          \<and> (dget (versions s) k = None \<or> (\<exists>v0. dget (versions s) k = Some v0 \<and> ver_dataset_id v0 = ver_dataset_id v)))"
    by (induction rule: dataset_effect.induct) auto
  then show ?thesis
    using assms(2) by (elim disjE exE conjE)
      (auto simp: get_version_def ds split: option.split, auto simp: get_dataset_def)
qed

interpretation dataset_tenants: tenant_scoped dataset_inv dataset_step_of dataset_view
proof
  show "dataset_inv s \<Longrightarrow> dataset_step_of w s t \<Longrightarrow> dataset_inv t" for s w t
    by (blast intro: dataset_effect_inv dataset_step_effect)
  show "dataset_inv s \<Longrightarrow> dataset_step_of w s t \<Longrightarrow> w' \<noteq> w \<Longrightarrow> dataset_view w' t = dataset_view w' s" for s w t w'
    using dataset_effect_get_dataset [OF dataset_step_effect] dataset_effect_get_version [OF dataset_step_effect]
    by (auto simp: dataset_view_def)
qed

text \<open>
  In every reachable state of the dataset store, datasets and versions are stored under their
  ids, every version belongs to an existing dataset and lies at the canonical content-addressed path of
  the workspace that owns it, and no dataset has two versions with the same number.
\<close>

lemma dataset_store_invariant: "reach dataset_init dataset_step s \<Longrightarrow> dataset_inv s"
  by (rule dataset_sys.reach_inv)

text \<open>
  Datasets are tenant-isolated: no sequence of calls on behalf of other workspaces changes the
  datasets or the versions a workspace can read.
\<close>

lemma dataset_tenant_isolation:
  assumes "reach dataset_init dataset_step s" and "(others dataset_step_of w)\<^sup>*\<^sup>* s t"
  shows "get_dataset w k t = get_dataset w k s \<and> get_version w k t = get_version w k s"
proof -
  have "dataset_view w t = dataset_view w s"
    using dataset_tenants.others_run [OF assms(2) dataset_sys.reach_inv [OF assms(1)]] by simp
  then show ?thesis unfolding dataset_view_def by (metis prod.inject)
qed

definition sample_dataset :: Dataset where
  "sample_dataset = \<lparr>dset_id = 21, dset_workspace_id = 7, dset_name = ''d'', dset_created_by = 3, dset_created_at = 0\<rparr>"

lemma sample_dataset_reach: "reach dataset_init dataset_step (dataset_exec 7 (DsCreate sample_dataset) empty_datasets)"
  by (rule reach.reach_next [OF reach.reach_start])
    (auto simp: dataset_init_def dataset_step_def intro: dataset_step_of.intros simp del: dataset_exec.simps)

section \<open>Version numbers\<close>

lemma foldl_max_start: "n \<le> foldl max n ns" for n :: int
proof (induction ns arbitrary: n)
  case (Cons a ns)
  have "max n a \<le> foldl max (max n a) ns" by (rule Cons.IH)
  then show ?case by simp
qed simp

lemma foldl_max_ge: "x \<in> set (n # ns) \<Longrightarrow> x \<le> foldl max n ns" for n :: int
proof (induction ns arbitrary: n)
  case (Cons a ns)
  show ?case
  proof (cases "x \<in> set ns")
    case True
    then show ?thesis using Cons.IH [of "max n a"] by simp
  next
    case False
    then have "x \<le> max n a" using Cons.prems by auto
    also have "\<dots> \<le> foldl max (max n a) ns" by (rule foldl_max_start)
    finally show ?thesis by simp
  qed
qed simp

lemma next_version_no_above:
  assumes "next_version_no ws did s = Inr n" and "v \<in> set (dvalues (versions s))" and "ver_dataset_id v = did"
  shows "ver_no v < n"
proof -
  define ns where "ns = map ver_no (filter (\<lambda>v. ver_dataset_id v = did) (dvalues (versions s)))"
  have "ver_no v \<in> set ns" using assms(2,3) by (auto simp: ns_def)
  then obtain a as where "ns = a # as" by (cases ns) auto
  then show ?thesis
    using assms(1) foldl_max_ge [of "ver_no v" a as] \<open>ver_no v \<in> set ns\<close>
    by (auto simp: next_version_no_def ns_def [symmetric] split: if_splits)
qed

lemma sort_key_snoc:
  assumes "\<forall>x \<in> set xs. f x < f y"
  shows "sort_key f (xs @ [y]) = sort_key f xs @ [y]"
proof (rule properties_for_sort_key)
  show "mset (sort_key f xs @ [y]) = mset (xs @ [y])" by simp
  show "sorted (map f (sort_key f xs @ [y]))" using assms by (auto simp: sorted_append less_imp_le)
  show "filter (\<lambda>z. f k = f z) (sort_key f xs @ [y]) = filter (\<lambda>z. f k = f z) (xs @ [y])"
    if "k \<in> set (sort_key f xs @ [y])" for k
    using sort_key_stable [of f "f k" xs] by (simp add: eq_commute)
qed

text \<open>
  Version numbering: the number \<open>next_version_no\<close> hands out is larger than that of every
  version of the dataset, so a new version with that number and its canonical path is accepted, and the
  version history, listed by number, grows at its end.
\<close>

lemma next_version_accepted:
  assumes "reach dataset_init dataset_step s" and "next_version_no ws (ver_dataset_id v) s = Inr (ver_no v)"
    and "storage_path_for ws (ver_sha256 v) (ver_no v) = Inr (ver_storage_path v)"
    and "dget (versions s) (ver_id v) = None"
  shows "\<exists>t. create_version ws v s = (Inr v, t)
    \<and> list_versions ws (ver_dataset_id v) t = list_versions ws (ver_dataset_id v) s @ [v]"
proof -
  let ?mine = "filter (\<lambda>v'. ver_dataset_id v' = ver_dataset_id v) (dvalues (versions s))"
  have less: "\<forall>x \<in> set ?mine. ver_no x < ver_no v"
    using next_version_no_above [OF assms(2)] by auto
  have ds: "get_dataset ws (ver_dataset_id v) s \<noteq> None"
    using assms(2) by (auto simp: next_version_no_def split: if_splits)
  let ?t = "s\<lparr>versions := dset (ver_id v) v (versions s)\<rparr>"
  have "create_version ws v s = (Inr v, ?t)"
    using assms(3,4) ds less by (auto simp: create_version_def list_ex_iff)
  moreover have "list_versions ws (ver_dataset_id v) ?t = list_versions ws (ver_dataset_id v) s @ [v]"
  proof -
    have "get_dataset ws (ver_dataset_id v) ?t \<noteq> None" using ds by (simp add: get_dataset_def)
    then show ?thesis using ds sort_key_snoc [OF less]
      by (auto simp: list_versions_def dset_fresh [OF assms(4)] dvalues_def)
  qed
  ultimately show ?thesis by blast
qed

definition sample_version :: DatasetVersion where
  "sample_version = \<lparr>ver_id = 31, ver_dataset_id = 21, ver_no = 1, ver_sha256 = sha256_hex ''x'',
     ver_storage_path = ''tenant/'' @ uuid_str 7 @ ''/datasets/'' @ sha256_hex ''x'' @ ''/'' @ py_str_int 1 @ ''/'',
     ver_byte_size = 1, ver_created_by = 3, ver_feeds = []\<rparr>"

lemma sample_version_path:
  "storage_path_for 7 (sha256_hex ''x'') 1 = Inr (ver_storage_path sample_version)"
  using sha256_hex_shape [of "''x''"] by (auto simp: storage_path_for_def sample_version_def)

section \<open>The executor runs on the job's bytes\<close>

text \<open>
  A result of the governed executor is about the job's dataset: the job and its dataset version
  belong to the workspace, the bytes given to the runner have exactly the digest the job names (so has
  the dataset it sees), the workflow is the frozen one, and the result declares that digest.
\<close>

lemma governed_execution_provenance:
  assumes "governed_execute runner ds os ws jid js = Inr res"
  shows "\<exists>job v raw dataset. get_job ws jid js = Some job \<and> get_version ws (job_dataset_version_id job) ds = Some v
    \<and> dget os (ver_storage_path v) = Some raw \<and> sha256_hex raw = job_source_sha256 job
    \<and> int (length raw) = ver_byte_size v \<and> content_sha256 (provenance dataset) = sha256_hex raw
    \<and> job_workflow_id job = FROZEN_XAUUSD_M1_WORKFLOW
    \<and> runner dataset (job_workflow_id job) raw = Inr res \<and> res_source_sha256 res = job_source_sha256 job"
  using assms unfolding governed_execute_def download_def ResearchRequest_init_def
  by (auto split: option.splits sum.splits if_splits)

definition governed_job :: ResearchJob where
  "governed_job = \<lparr>job_id = 11, job_workspace_id = 7, job_dataset_version_id = 31,
     job_workflow_id = FROZEN_XAUUSD_M1_WORKFLOW, job_status = RUNNING, job_source_sha256 = sha256_hex ''x'',
     job_created_by = None, job_claim_id = None, job_plan_hash = None,
     job_attempt_count = 1, job_max_attempts = 3, job_error_code = None\<rparr>"

definition governed_result :: ResearchResult where
  "governed_result = \<lparr>res_status = ''SUCCEEDED'', res_source_sha256 = sha256_hex ''x'', res_artifacts = [], res_failures = []\<rparr>"

lemma uuid_str_not_blank: "\<not> blank (uuid_str u)"
proof -
  obtain c where c: "c \<in> set (uuid_str u)" using uuid_str_length [of u] by (cases "uuid_str u") auto
  have "\<not> py_isspace CHR ''-''" by (simp add: py_isspace_def)
  then have "\<not> py_isspace c" using uuid_str_chars [OF c] hex_digits_special(9) by blast
  then show ?thesis using c by (auto simp: blank_iff)
qed

lemma governed_sample:
  "governed_execute (\<lambda>_ _ _. Inr governed_result) \<lparr>datasets = [(21, sample_dataset)], versions = [(31, sample_version)]\<rparr>
     [(ver_storage_path sample_version, ''x'')] 7 11 (empty_store\<lparr>jobs := [(11, governed_job)]\<rparr>) = Inr governed_result"
proof -
  have "\<not> blank (uuid_str 21)" by (rule uuid_str_not_blank)
  moreover have "\<not> blank ''XAUUSD''" "\<not> blank ''M1''" by (simp_all add: blank_iff py_isspace_def)
  moreover have "map py_upper_char ''XAUUSD'' = ''XAUUSD''" "map py_upper_char ''M1'' = ''M1''"
    by (simp_all add: py_upper_char_def)
  ultimately show ?thesis
    by (simp add: governed_execute_def get_job_def governed_job_def get_version_def get_dataset_def sample_dataset_def
        sample_version_def download_def ResearchDataset_from_content_def provenance_from_content ResearchDataset_init_def
        canonical_rows_sha256_def ResearchRequest_init_def governed_result_def empty_store_def)
qed

end
