(* ===== verification/Retention.thy ===== *)
theory Retention
  imports Python_Text Interfaces
begin

text \<open>
  Fail-closed retention: eligibility and the gated, audited deletion (\<open>researchos/saas/retention.py\<close>), the
  durable state machine of a deletion operation (\<open>researchos/saas/retention_reconciliation.py\<close>), its
  governed completion (\<open>researchos/saas/retention_recovery.py\<close>) and the audit events it writes
  (\<open>researchos/saas/audit.py\<close>, \<open>researchos/saas/retention_audit.py\<close>).
\<close>

section \<open>Eligibility\<close>

datatype RetentionDecision = ELIGIBLE | RETAIN

text \<open>A \<open>datetime\<close> with its awareness flag: naive datetimes are rejected.\<close>

record datetime =
  dt_instant :: timestamp
  dt_aware :: bool

record DeletionCandidate =
  cand_type :: string
  cand_id :: string
  cand_created_at :: datetime
  cand_references :: int
  cand_legal_hold :: bool

definition DeletionCandidate_init :: "DeletionCandidate \<Rightarrow> DeletionCandidate result" where
  "DeletionCandidate_init c =
     (if blank (cand_type c) then Inl (ValueError ''resource_type must not be empty'')
      else if blank (cand_id c) then Inl (ValueError ''resource_id must not be empty'')
      else if \<not> dt_aware (cand_created_at c) then Inl (ValueError ''created_at must be timezone-aware'')
      else if cand_references c < 0 then Inl (ValueError ''reference_count must be non-negative'')
      else Inr c)"

record RetentionPolicy =
  pol_min_age :: int
  pol_deletable :: "string list"

definition RetentionPolicy_init :: "RetentionPolicy \<Rightarrow> RetentionPolicy result" where
  "RetentionPolicy_init p =
     (if pol_min_age p < 0 then Inl (ValueError ''min_age must be non-negative'')
      else if pol_deletable p = [] then Inl (ValueError ''at least one deletable resource type is required'')
      else Inr p)"

definition default_policy :: RetentionPolicy where
  "default_policy = \<lparr>pol_min_age = seconds (30 * 86400), pol_deletable = [''dataset'', ''dataset_version'', ''artifact'']\<rparr>"

definition evaluate :: "RetentionPolicy \<Rightarrow> DeletionCandidate \<Rightarrow> datetime \<Rightarrow> (RetentionDecision \<times> string) result" where
  "evaluate p c now =
     (if \<not> dt_aware now then Inl (ValueError ''now must be timezone-aware'')
      else if cand_type c \<notin> set (pol_deletable p) then Inr (RETAIN, ''resource_type_not_deletable'')
      else if cand_legal_hold c then Inr (RETAIN, ''legal_hold'')
      else if cand_references c \<noteq> 0 then Inr (RETAIN, ''active_references'')
      else if dt_instant (cand_created_at c) + pol_min_age p > dt_instant now then Inr (RETAIN, ''retention_window_active'')
      else Inr (ELIGIBLE, ''retention_window_elapsed''))"

definition evaluate_deletion :: "DeletionCandidate \<Rightarrow> datetime \<Rightarrow> RetentionPolicy option \<Rightarrow> (RetentionDecision \<times> string) result" where
  "evaluate_deletion c now policy = evaluate (case policy of None \<Rightarrow> default_policy | Some p \<Rightarrow> p) c now"

section \<open>Deletion operations\<close>

datatype DeletionOperationState = APPROVED | DELETE_ATTEMPTED | COMPLETED | RECONCILIATION_REQUIRED

fun DeletionOperationState_value :: "DeletionOperationState \<Rightarrow> string" where
  "DeletionOperationState_value APPROVED = ''APPROVED''"
| "DeletionOperationState_value DELETE_ATTEMPTED = ''DELETE_ATTEMPTED''"
| "DeletionOperationState_value COMPLETED = ''COMPLETED''"
| "DeletionOperationState_value RECONCILIATION_REQUIRED = ''RECONCILIATION_REQUIRED''"

fun ALLOWED_TRANSITIONS :: "DeletionOperationState \<Rightarrow> DeletionOperationState list" where
  "ALLOWED_TRANSITIONS APPROVED = [DELETE_ATTEMPTED, RECONCILIATION_REQUIRED]"
| "ALLOWED_TRANSITIONS DELETE_ATTEMPTED = [COMPLETED, RECONCILIATION_REQUIRED]"
| "ALLOWED_TRANSITIONS COMPLETED = []"
| "ALLOWED_TRANSITIONS RECONCILIATION_REQUIRED = [COMPLETED]"

record DeletionOperation =
  op_workspace_id :: uuid
  op_id :: string
  op_resource_type :: string
  op_resource_id :: string
  op_state :: DeletionOperationState

definition DeletionOperation_init :: "DeletionOperation \<Rightarrow> DeletionOperation result" where
  "DeletionOperation_init o' =
     (if blank (op_id o') then Inl (ValueError ''operation_id must not be empty'')
      else if blank (op_resource_type o') then Inl (ValueError ''resource_type must not be empty'')
      else if blank (op_resource_id o') then Inl (ValueError ''resource_id must not be empty'')
      else Inr o')"

definition transition_to :: "DeletionOperationState \<Rightarrow> DeletionOperation \<Rightarrow> DeletionOperation result" where
  "transition_to st o' =
     (if st = op_state o' then Inr o'
      else if st \<notin> set (ALLOWED_TRANSITIONS (op_state o'))
      then Inl (ValueError (''invalid deletion operation transition: '' @ DeletionOperationState_value (op_state o')
             @ '' -> '' @ DeletionOperationState_value st))
      else DeletionOperation_init (o'\<lparr>op_state := st\<rparr>))"

type_synonym operation_store = "(uuid \<times> string, DeletionOperation) dict"

definition op_get :: "uuid \<Rightarrow> string \<Rightarrow> operation_store \<Rightarrow> DeletionOperation option" where
  "op_get ws oid s = dget s (ws, oid)"

definition op_put :: "DeletionOperation \<Rightarrow> operation_store \<Rightarrow> operation_store" where
  "op_put o' s = dset (op_workspace_id o', op_id o') o' s"

definition op_transition ::
  "uuid \<Rightarrow> string \<Rightarrow> string \<Rightarrow> string \<Rightarrow> DeletionOperationState \<Rightarrow> operation_store
    \<Rightarrow> (DeletionOperation, operation_store) outcome" where
  "op_transition ws oid rtype rid st s =
     (case op_get ws oid s of
        None \<Rightarrow> (Inl (KeyError ''retention operation not found''), s)
      | Some current \<Rightarrow>
          if op_resource_type current \<noteq> rtype \<or> op_resource_id current \<noteq> rid
          then (Inl (ValueError ''retention operation resource identity mismatch''), s)
          else (case transition_to st current of
                  Inl e \<Rightarrow> (Inl e, s)
                | Inr updated \<Rightarrow> (Inr updated, op_put updated s)))"

definition require_reconciliation_after_delete ::
  "uuid \<Rightarrow> string \<Rightarrow> string \<Rightarrow> string \<Rightarrow> operation_store \<Rightarrow> (DeletionOperation, operation_store) outcome" where
  "require_reconciliation_after_delete ws oid rtype rid s = op_transition ws oid rtype rid RECONCILIATION_REQUIRED s"

definition complete_reconciliation ::
  "uuid \<Rightarrow> string \<Rightarrow> string \<Rightarrow> string \<Rightarrow> operation_store \<Rightarrow> (DeletionOperation, operation_store) outcome" where
  "complete_reconciliation ws oid rtype rid s = op_transition ws oid rtype rid COMPLETED s"

text \<open>\<open>_operation_from_row\<close> of the Supabase adapter.\<close>

fun DeletionOperationState_of :: "string \<Rightarrow> DeletionOperationState option" where
  "DeletionOperationState_of s = map_of [(''APPROVED'', APPROVED), (''DELETE_ATTEMPTED'', DELETE_ATTEMPTED),
     (''COMPLETED'', COMPLETED), (''RECONCILIATION_REQUIRED'', RECONCILIATION_REQUIRED)] s"

definition operation_from_row :: "json \<Rightarrow> DeletionOperation result" where
  "operation_from_row dat =
     (case dat of
        JObj row \<Rightarrow>
          (case (Option.bind (map_of row ''workspace_id'') json_uuid, map_of row ''operation_id'',
                 map_of row ''resource_type'', map_of row ''resource_id'',
                 Option.bind (map_of row ''state'') (\<lambda>v. DeletionOperationState_of (py_str v))) of
             (Some ws, Some oid, Some rt, Some rid, Some st) \<Rightarrow>
               (case DeletionOperation_init \<lparr>op_workspace_id = ws, op_id = py_str oid, op_resource_type = py_str rt,
                   op_resource_id = py_str rid, op_state = st\<rparr> of
                  Inl _ \<Rightarrow> Inl (RuntimeError ''retention operation row is malformed'')
                | Inr o' \<Rightarrow> Inr o')
           | _ \<Rightarrow> Inl (RuntimeError ''retention operation row is malformed''))
      | _ \<Rightarrow> Inl (RuntimeError ''retention operation row is invalid''))"

definition sb_op_response :: "string \<Rightarrow> json \<Rightarrow> DeletionOperation result" where
  "sb_op_response what dat =
     (case (case dat of JList [x] \<Rightarrow> Inr x
              | JList _ \<Rightarrow> Inl (RuntimeError (''retention '' @ what @ '' RPC returned no unique operation''))
              | _ \<Rightarrow> Inr dat) of
        Inl e \<Rightarrow> Inl e
      | Inr (JObj row) \<Rightarrow> operation_from_row (JObj row)
      | Inr _ \<Rightarrow> Inl (RuntimeError (''retention '' @ what @ '' RPC returned invalid operation'')))"

section \<open>Execution\<close>

record DeletionExecution =
  exe_decision :: RetentionDecision
  exe_reason :: string
  exe_deleted :: bool

text \<open>
  The side effects of a deletion, in order and with their arguments: calls of the audit sink, of the delete
  operation and of the operation store.
\<close>

datatype effect =
    Audited DeletionCandidate string
  | Deleted DeletionCandidate
  | Moved string string DeletionOperationState

text \<open>
  The callbacks: the two checks answer or raise; the audit sink and the delete operation raise or
  return, each call being recorded; \<open>move\<close> is the operation store's \<open>transition\<close> for the workspace and the
  operation at hand, with the type and the id of the resource as arguments.
\<close>

record 's callbacks =
  cb_authorize :: "(DeletionCandidate \<Rightarrow> bool result) option"
  cb_dependency_check :: "(DeletionCandidate \<Rightarrow> bool result) option"
  cb_audit :: "(DeletionCandidate \<Rightarrow> string \<Rightarrow> exn option) option"
  cb_delete :: "(DeletionCandidate \<Rightarrow> exn option) option"
  cb_move :: "(string \<Rightarrow> string \<Rightarrow> DeletionOperationState \<Rightarrow> 's \<Rightarrow> (DeletionOperation, 's) outcome) option"

definition retain :: "string \<Rightarrow> 's \<Rightarrow> effect list \<Rightarrow> (DeletionExecution, 's \<times> effect list) outcome" where
  "retain reason s tr = (Inr \<lparr>exe_decision = RETAIN, exe_reason = reason, exe_deleted = False\<rparr>, s, tr)"

text \<open>From the first audit on: the destructive part.\<close>

definition after_gates ::
  "DeletionCandidate \<Rightarrow> (DeletionCandidate \<Rightarrow> string \<Rightarrow> exn option) \<Rightarrow> (DeletionCandidate \<Rightarrow> exn option)
    \<Rightarrow> (string \<Rightarrow> string \<Rightarrow> DeletionOperationState \<Rightarrow> 's \<Rightarrow> (DeletionOperation, 's) outcome)
    \<Rightarrow> 's \<Rightarrow> (DeletionExecution, 's \<times> effect list) outcome" where
  "after_gates c audit delete move s =
     (let transition = move (cand_type c) (cand_id c); moved = Moved (cand_type c) (cand_id c);
          tr0 = [Audited c ''deletion_approved''] in
      case audit c ''deletion_approved'' of
        Some e \<Rightarrow> (Inl e, s, tr0)
      | None \<Rightarrow>
     (case transition DELETE_ATTEMPTED s of
        (Inl e, s1) \<Rightarrow> (Inl e, s1, tr0 @ [moved DELETE_ATTEMPTED])
      | (Inr _, s1) \<Rightarrow>
     (let tr1 = tr0 @ [moved DELETE_ATTEMPTED, Deleted c] in
      case delete c of
        Some e \<Rightarrow>
          (case transition RECONCILIATION_REQUIRED s1 of
             (Inl e', s2) \<Rightarrow> (Inl e', s2, tr1 @ [moved RECONCILIATION_REQUIRED])
           | (Inr _, s2) \<Rightarrow> (Inl e, s2, tr1 @ [moved RECONCILIATION_REQUIRED]))
      | None \<Rightarrow>
     (let tr2 = tr1 @ [Audited c ''deletion_completed''] in
      case audit c ''deletion_completed'' of
        Some _ \<Rightarrow>
          (case transition RECONCILIATION_REQUIRED s1 of
             (Inl e', s2) \<Rightarrow> (Inl e', s2, tr2 @ [moved RECONCILIATION_REQUIRED])
           | (Inr _, s2) \<Rightarrow> (Inr \<lparr>exe_decision = ELIGIBLE, exe_reason = ''reconciliation_required'', exe_deleted = True\<rparr>,
                             s2, tr2 @ [moved RECONCILIATION_REQUIRED]))
      | None \<Rightarrow>
     (case transition COMPLETED s1 of
        (Inr _, s2) \<Rightarrow> (Inr \<lparr>exe_decision = ELIGIBLE, exe_reason = ''deletion_completed'', exe_deleted = True\<rparr>,
                        s2, tr2 @ [moved COMPLETED])
      | (Inl _, s2) \<Rightarrow>
          (case transition RECONCILIATION_REQUIRED s2 of
             (Inl _, s3) \<Rightarrow> (Inl (RuntimeError ''durable_completion_and_reconciliation_failed''),
                            s3, tr2 @ [moved COMPLETED, moved RECONCILIATION_REQUIRED])
           | (Inr _, s3) \<Rightarrow> (Inl (RuntimeError ''durable_completion_state_persist_failed''),
                            s3, tr2 @ [moved COMPLETED, moved RECONCILIATION_REQUIRED])))))))"

definition execute_deletion ::
  "DeletionCandidate \<Rightarrow> datetime \<Rightarrow> RetentionPolicy option \<Rightarrow> bool \<Rightarrow> bool \<Rightarrow> 's callbacks \<Rightarrow> 's
    \<Rightarrow> (DeletionExecution, 's \<times> effect list) outcome" where
  "execute_deletion c now policy approved enabled cb s =
     (case evaluate_deletion c now policy of
        Inl e \<Rightarrow> (Inl e, s, [])
      | Inr (decision, reason) \<Rightarrow>
          if decision \<noteq> ELIGIBLE
          then (Inr \<lparr>exe_decision = decision, exe_reason = reason, exe_deleted = False\<rparr>, s, [])
          else if \<not> enabled then retain ''production_destructive_deletion_disabled'' s []
          else if \<not> approved then retain ''approval_required'' s []
          else
     (case cb_authorize cb of
        None \<Rightarrow> retain ''tenant_authorization_required'' s []
      | Some authorize \<Rightarrow>
     (case authorize c of
        Inl e \<Rightarrow> (Inl e, s, [])
      | Inr False \<Rightarrow> retain ''tenant_authorization_denied'' s []
      | Inr True \<Rightarrow>
     (case cb_dependency_check cb of
        None \<Rightarrow> retain ''dependency_check_required'' s []
      | Some dependency_check \<Rightarrow>
     (case dependency_check c of
        Inl e \<Rightarrow> (Inl e, s, [])
      | Inr False \<Rightarrow> retain ''active_dependencies'' s []
      | Inr True \<Rightarrow>
     (case cb_audit cb of
        None \<Rightarrow> retain ''audit_sink_required'' s []
      | Some audit \<Rightarrow>
     (case cb_delete cb of
        None \<Rightarrow> retain ''delete_operation_required'' s []
      | Some delete \<Rightarrow>
     (case cb_move cb of
        None \<Rightarrow> retain ''durable_operation_required'' s []
      | Some move \<Rightarrow> after_gates c audit delete move s))))))))"

section \<open>Audit events\<close>

record AuditEvent =
  aud_id :: uuid
  aud_workspace_id :: uuid
  aud_action :: string
  aud_resource_type :: string
  aud_resource_id :: "string option"
  aud_actor :: "uuid option"
  aud_request_id :: "string option"
  aud_metadata :: "(string \<times> json) list"
  aud_created_at :: datetime

definition too_long :: "nat \<Rightarrow> string option \<Rightarrow> bool" where
  "too_long n v \<longleftrightarrow> (case v of None \<Rightarrow> False | Some s \<Rightarrow> length s > n)"

definition AuditEvent_init :: "AuditEvent \<Rightarrow> AuditEvent result" where
  "AuditEvent_init e =
     (if aud_action e = [] then Inl (ValueError ''action must not be empty'')
      else if aud_resource_type e = [] then Inl (ValueError ''resource_type must not be empty'')
      else if \<not> dt_aware (aud_created_at e) then Inl (ValueError ''created_at must be timezone-aware'')
      else if length (aud_action e) > 128 then Inl (ValueError ''action exceeds maximum length'')
      else if length (aud_resource_type e) > 128 then Inl (ValueError ''resource_type exceeds maximum length'')
      else if too_long 256 (aud_resource_id e) then Inl (ValueError ''resource_id exceeds maximum length'')
      else if too_long 128 (aud_request_id e) then Inl (ValueError ''request_id exceeds maximum length'')
      else Inr e)"

text \<open>\<open>AuditEvent.create\<close>: the fresh id and the time are drawn by the call.\<close>

definition AuditEvent_create ::
  "uuid \<Rightarrow> timestamp \<Rightarrow> uuid \<Rightarrow> string \<Rightarrow> string \<Rightarrow> string option \<Rightarrow> uuid option \<Rightarrow> string option
    \<Rightarrow> (string \<times> json) list \<Rightarrow> AuditEvent result" where
  "AuditEvent_create new_id now ws action rtype rid actor request_id metadata =
     AuditEvent_init \<lparr>aud_id = new_id, aud_workspace_id = ws, aud_action = py_strip action,
       aud_resource_type = py_strip rtype, aud_resource_id = rid, aud_actor = actor, aud_request_id = request_id,
       aud_metadata = metadata, aud_created_at = \<lparr>dt_instant = now, dt_aware = True\<rparr>\<rparr>"

definition audit_append :: "AuditEvent \<Rightarrow> AuditEvent list \<Rightarrow> AuditEvent list" where
  "audit_append e events = events @ [e]"

definition audit_list :: "uuid \<Rightarrow> AuditEvent list \<Rightarrow> AuditEvent list" where
  "audit_list ws events = filter (\<lambda>e. aud_workspace_id e = ws) events"

definition retention_audit ::
  "uuid \<Rightarrow> uuid option \<Rightarrow> string option \<Rightarrow> uuid \<Rightarrow> timestamp \<Rightarrow> DeletionCandidate \<Rightarrow> string \<Rightarrow> AuditEvent list
    \<Rightarrow> (unit, AuditEvent list) outcome" where
  "retention_audit ws actor request_id new_id now c action events =
     (case AuditEvent_create new_id now ws action (cand_type c) (Some (cand_id c)) actor request_id
        [(''reference_count'', JInt (cand_references c)), (''legal_hold'', JBool (cand_legal_hold c))] of
        Inl e \<Rightarrow> (Inl e, events)
      | Inr ev \<Rightarrow> (Inr (), audit_append ev events))"

lemma retention_audit_scope:
  assumes "retention_audit ws actor rq i now c action events = (Inr (), events')" and "w \<noteq> ws"
  shows "audit_list w events' = audit_list w events" "length (audit_list ws events') = Suc (length (audit_list ws events))"
  using assms by (auto simp: retention_audit_def AuditEvent_create_def AuditEvent_init_def audit_append_def audit_list_def
      split: sum.splits if_splits)

section \<open>Gates\<close>

lemma evaluate_eligible:
  "evaluate p c now = Inr (ELIGIBLE, r) \<longleftrightarrow>
     r = ''retention_window_elapsed'' \<and> dt_aware now \<and> cand_type c \<in> set (pol_deletable p) \<and> \<not> cand_legal_hold c
     \<and> cand_references c = 0 \<and> dt_instant (cand_created_at c) + pol_min_age p \<le> dt_instant now"
  by (auto simp: evaluate_def)

text \<open>What must hold before anything destructive happens.\<close>

definition gates_open ::
  "DeletionCandidate \<Rightarrow> datetime \<Rightarrow> RetentionPolicy option \<Rightarrow> bool \<Rightarrow> bool \<Rightarrow> 's callbacks \<Rightarrow> bool" where
  "gates_open c now policy approved enabled cb \<longleftrightarrow>
     (let p = (case policy of None \<Rightarrow> default_policy | Some p \<Rightarrow> p)
      in dt_aware now \<and> cand_type c \<in> set (pol_deletable p) \<and> \<not> cand_legal_hold c \<and> cand_references c = 0
         \<and> dt_instant (cand_created_at c) + pol_min_age p \<le> dt_instant now) \<and> approved \<and> enabled
     \<and> (\<exists>f. cb_authorize cb = Some f \<and> f c = Inr True)
     \<and> (\<exists>f. cb_dependency_check cb = Some f \<and> f c = Inr True)
     \<and> cb_audit cb \<noteq> None \<and> cb_delete cb \<noteq> None \<and> cb_move cb \<noteq> None"

lemma gates_open_eligible:
  "gates_open c now policy approved enabled cb \<longleftrightarrow>
     evaluate_deletion c now policy = Inr (ELIGIBLE, ''retention_window_elapsed'') \<and> approved \<and> enabled
     \<and> (\<exists>f. cb_authorize cb = Some f \<and> f c = Inr True)
     \<and> (\<exists>f. cb_dependency_check cb = Some f \<and> f c = Inr True)
     \<and> cb_audit cb \<noteq> None \<and> cb_delete cb \<noteq> None \<and> cb_move cb \<noteq> None"
  by (auto simp: gates_open_def evaluate_deletion_def evaluate_eligible Let_def)

lemma execute_deletion_gated:
  "(gates_open c now policy approved enabled cb \<and> (\<exists>audit delete move. cb_audit cb = Some audit \<and> cb_delete cb = Some delete
      \<and> cb_move cb = Some move \<and> execute_deletion c now policy approved enabled cb s = after_gates c audit delete move s))
   \<or> (snd (execute_deletion c now policy approved enabled cb s) = (s, [])
      \<and> \<not> gates_open c now policy approved enabled cb
      \<and> (\<forall>x. fst (execute_deletion c now policy approved enabled cb s) = Inr x \<longrightarrow> \<not> exe_deleted x))"
proof (cases "evaluate_deletion c now policy")
  case (Inl e)
  then show ?thesis by (simp add: execute_deletion_def gates_open_eligible)
next
  case (Inr dr)
  obtain d r where dr: "dr = (d, r)" by (cases dr)
  show ?thesis
  proof (cases "d = ELIGIBLE \<and> enabled \<and> approved")
    case False
    then show ?thesis using Inr dr by (auto simp: execute_deletion_def gates_open_eligible retain_def)
  next
    case True
    then have r: "r = ''retention_window_elapsed''"
      using Inr dr by (simp add: evaluate_deletion_def evaluate_eligible)
    show ?thesis
    proof (cases "(\<exists>f. cb_authorize cb = Some f \<and> f c = Inr True)")
      case False
      then show ?thesis using Inr dr True
        by (auto simp: execute_deletion_def gates_open_eligible retain_def split: option.split sum.split bool.split)
    next
      case auth: True
      show ?thesis
      proof (cases "(\<exists>f. cb_dependency_check cb = Some f \<and> f c = Inr True)")
        case False
        then show ?thesis using Inr dr True auth
          by (auto simp: execute_deletion_def gates_open_eligible retain_def split: option.split sum.split bool.split)
      next
        case dep: True
        then show ?thesis using Inr dr True auth r
          by (auto simp: execute_deletion_def gates_open_eligible retain_def split: option.split)
      qed
    qed
  qed
qed

text \<open>What a trace with a deletion must look like, and what its remainder may hold.\<close>

definition deletion_trace ::
  "DeletionCandidate \<Rightarrow> (DeletionCandidate \<Rightarrow> string \<Rightarrow> exn option) \<Rightarrow> (DeletionCandidate \<Rightarrow> exn option)
    \<Rightarrow> (string \<Rightarrow> string \<Rightarrow> DeletionOperationState \<Rightarrow> 's \<Rightarrow> (DeletionOperation, 's) outcome) \<Rightarrow> 's \<Rightarrow> effect list \<Rightarrow> bool" where
  "deletion_trace c audit delete move s tr \<longleftrightarrow>
     audit c ''deletion_approved'' = None \<and> is_ok (fst (move (cand_type c) (cand_id c) DELETE_ATTEMPTED s))
     \<and> take 3 tr = [Audited c ''deletion_approved'', Moved (cand_type c) (cand_id c) DELETE_ATTEMPTED, Deleted c]
     \<and> list_all (\<lambda>e. case e of
          Deleted _ \<Rightarrow> False
        | Audited d m \<Rightarrow> d = c \<and> m = ''deletion_completed'' \<and> delete c = None
        | Moved t i st \<Rightarrow> t = cand_type c \<and> i = cand_id c
            \<and> (st = RECONCILIATION_REQUIRED
               \<or> st = COMPLETED \<and> delete c = None \<and> audit c ''deletion_completed'' = None)) (drop 3 tr)"

lemma after_gates_trace:
  assumes "Deleted d \<in> set (snd (snd (after_gates c audit delete move s)))"
  shows "deletion_trace c audit delete move s (snd (snd (after_gates c audit delete move s)))"
  using assms unfolding after_gates_def deletion_trace_def Let_def
  by (auto split: option.splits sum.splits prod.splits)

lemma after_gates_deleted:
  "fst (after_gates c audit delete move s) = Inr x \<Longrightarrow>
   exe_deleted x \<and> Deleted c \<in> set (snd (snd (after_gates c audit delete move s))) \<and> delete c = None"
  unfolding after_gates_def Let_def by (auto split: option.splits sum.splits prod.splits)

text \<open>
  C23: Deletion is fail-closed: the delete operation is called only when every gate is open (the
  candidate is eligible under the policy, deletion is enabled and approved, the tenant is authorised,
  no dependency is active, and an audit sink, a delete operation and a durable operation are given),
  only after the audit sink accepted the approval and the operation store durably marked this resource as
  attempted, only for this candidate and at most once.  Completion is requested from the store only when
  the delete operation returned and its audit succeeded, and a deletion is reported only when it took place.
  When a gate is closed nothing at all is called.
\<close>

theorem deletion_fail_closed:
  "(\<forall>d. Deleted d \<in> set (snd (snd (execute_deletion c now policy approved enabled cb s))) \<longrightarrow>
      gates_open c now policy approved enabled cb
      \<and> (\<exists>audit delete move. cb_audit cb = Some audit \<and> cb_delete cb = Some delete \<and> cb_move cb = Some move
          \<and> deletion_trace c audit delete move s (snd (snd (execute_deletion c now policy approved enabled cb s)))))
   \<and> (\<forall>x. fst (execute_deletion c now policy approved enabled cb s) = Inr x \<and> exe_deleted x \<longrightarrow>
      Deleted c \<in> set (snd (snd (execute_deletion c now policy approved enabled cb s))) \<and> the (cb_delete cb) c = None)
   \<and> (\<not> gates_open c now policy approved enabled cb \<longrightarrow>
      snd (execute_deletion c now policy approved enabled cb s) = (s, []))"
proof (cases "gates_open c now policy approved enabled cb")
  case True
  then obtain audit delete move where cbs: "cb_audit cb = Some audit" "cb_delete cb = Some delete" "cb_move cb = Some move"
    and run: "execute_deletion c now policy approved enabled cb s = after_gates c audit delete move s"
    using execute_deletion_gated [of c now policy approved enabled cb s] by blast
  show ?thesis unfolding run using True cbs after_gates_trace after_gates_deleted by (metis option.sel)
next
  case False
  then show ?thesis using execute_deletion_gated [of c now policy approved enabled cb s] by auto
qed

definition open_callbacks :: "unit callbacks" where
  "open_callbacks = \<lparr>cb_authorize = Some (\<lambda>_. Inr True), cb_dependency_check = Some (\<lambda>_. Inr True),
     cb_audit = Some (\<lambda>_ _. None), cb_delete = Some (\<lambda>_. None),
     cb_move = Some (\<lambda>t i st s. (Inr \<lparr>op_workspace_id = 7, op_id = ''o'', op_resource_type = t, op_resource_id = i,
       op_state = st\<rparr>, s))\<rparr>"

definition sample_candidate :: DeletionCandidate where
  "sample_candidate = \<lparr>cand_type = ''dataset'', cand_id = ''d'', cand_created_at = \<lparr>dt_instant = 0, dt_aware = True\<rparr>,
     cand_references = 0, cand_legal_hold = False\<rparr>"

lemma sample_deletion:
  "Deleted sample_candidate \<in> set (snd (snd (execute_deletion sample_candidate \<lparr>dt_instant = seconds (31 * 86400), dt_aware = True\<rparr> None
      True True open_callbacks ())))"
  by (simp add: execute_deletion_def evaluate_deletion_def evaluate_def default_policy_def sample_candidate_def
      open_callbacks_def after_gates_def seconds_def Let_def)

theorem deletion_fail_closed_witness:
  "gates_open sample_candidate \<lparr>dt_instant = seconds (31 * 86400), dt_aware = True\<rparr> None True True open_callbacks
   \<and> take 3 (snd (snd (execute_deletion sample_candidate \<lparr>dt_instant = seconds (31 * 86400), dt_aware = True\<rparr> None True True
        open_callbacks ())))
     = [Audited sample_candidate ''deletion_approved'', Moved ''dataset'' ''d'' DELETE_ATTEMPTED, Deleted sample_candidate]"
  using deletion_fail_closed [THEN conjunct1, THEN spec, THEN mp, OF sample_deletion]
  by (auto simp: deletion_trace_def) (simp_all add: sample_candidate_def)

section \<open>The operation state machine\<close>

lemma transition_to_Inr:
  "transition_to st o' = Inr o'' \<Longrightarrow> o'' = o'\<lparr>op_state := st\<rparr> \<and> (st = op_state o' \<or> st \<in> set (ALLOWED_TRANSITIONS (op_state o')))"
  by (auto simp: transition_to_def DeletionOperation_init_def split: if_splits)

definition operation_wf :: "DeletionOperation \<Rightarrow> bool" where
  "operation_wf o' \<longleftrightarrow> DeletionOperation_init o' = Inr o'"

lemma transition_to_ok:
  "operation_wf o' \<Longrightarrow> st = op_state o' \<or> st \<in> set (ALLOWED_TRANSITIONS (op_state o')) \<Longrightarrow> transition_to st o' = Inr (o'\<lparr>op_state := st\<rparr>)"
  by (auto simp: transition_to_def operation_wf_def DeletionOperation_init_def split: if_splits)

text \<open>Operations are stored under their own identity.\<close>

definition ops_keyed :: "operation_store \<Rightarrow> bool" where
  "ops_keyed s \<longleftrightarrow> (\<forall>k o'. dget s k = Some o' \<longrightarrow> k = (op_workspace_id o', op_id o') \<and> operation_wf o')"

lemma ops_keyed_transition: "ops_keyed s \<Longrightarrow> ops_keyed (snd (op_transition w i rt rid st s))"
proof -
  assume keyed: "ops_keyed s"
  have "operation_wf u" if "transition_to st c = Inr u" "operation_wf c" for c u
    using that by (auto simp: transition_to_def operation_wf_def DeletionOperation_init_def split: if_splits)
  then show ?thesis using keyed
    by (auto simp: op_transition_def op_get_def op_put_def ops_keyed_def split: option.split sum.split)
qed

lemma op_transition_get:
  assumes "op_get ws oid s = Some o'" and "ops_keyed s"
  shows "\<exists>st'. op_get ws oid (snd (op_transition w i rt rid st s)) = Some (o'\<lparr>op_state := st'\<rparr>)
    \<and> (st' = op_state o' \<or> st' \<in> set (ALLOWED_TRANSITIONS (op_state o')))"
proof (cases "snd (op_transition w i rt rid st s) = s")
  case True
  then show ?thesis using assms(1) by (intro exI [of _ "op_state o'"]) simp
next
  case False
  then obtain c u where cu: "op_get w i s = Some c" "transition_to st c = Inr u"
    "snd (op_transition w i rt rid st s) = op_put u s"
    by (auto simp: op_transition_def split: option.splits if_splits sum.splits)
  have u: "u = c\<lparr>op_state := st\<rparr>" "st = op_state c \<or> st \<in> set (ALLOWED_TRANSITIONS (op_state c))"
    using transition_to_Inr [OF cu(2)] by auto
  have key: "(op_workspace_id u, op_id u) = (w, i)"
    using assms(2) cu(1) u(1) by (auto simp: ops_keyed_def op_get_def)
  show ?thesis
  proof (cases "(w, i) = (ws, oid)")
    case True
    then have "c = o'" using cu(1) assms(1) by simp
    then show ?thesis using u cu(3) key True by (intro exI [of _ st]) (auto simp: op_get_def op_put_def)
  next
    case False
    then show ?thesis using assms(1) cu(3) key by (intro exI [of _ "op_state o'"]) (auto simp: op_get_def op_put_def)
  qed
qed

type_synonym op_call = "uuid \<times> string \<times> string \<times> string \<times> DeletionOperationState"

fun op_calls :: "op_call list \<Rightarrow> operation_store \<Rightarrow> operation_store" where
  "op_calls [] s = s"
| "op_calls ((w, i, rt, rid, st) # cs) s = op_calls cs (snd (op_transition w i rt rid st s))"

text \<open>The abstract machine of one operation and its order of progress.\<close>

definition op_moves :: "DeletionOperationState \<Rightarrow> DeletionOperationState \<Rightarrow> bool" where
  "op_moves a b \<longleftrightarrow> b \<in> set (ALLOWED_TRANSITIONS a)"

fun op_rank :: "DeletionOperationState \<Rightarrow> nat" where
  "op_rank APPROVED = 0"
| "op_rank DELETE_ATTEMPTED = 1"
| "op_rank RECONCILIATION_REQUIRED = 2"
| "op_rank COMPLETED = 3"

lemma op_moves_rank: "op_moves a b \<Longrightarrow> op_rank a < op_rank b"
  by (cases a) (auto simp: op_moves_def)

lemma op_moves_run_rank: "op_moves\<^sup>*\<^sup>* a b \<Longrightarrow> op_rank a \<le> op_rank b"
  by (induction rule: rtranclp_induct) (auto dest: op_moves_rank)

lemma op_calls_refine:
  assumes "op_get ws oid s = Some o'" and "ops_keyed s"
  shows "\<exists>st'. op_get ws oid (op_calls cs s) = Some (o'\<lparr>op_state := st'\<rparr>) \<and> op_moves\<^sup>*\<^sup>* (op_state o') st'"
  using assms
proof (induction cs arbitrary: s o')
  case Nil
  then show ?case by (intro exI [of _ "op_state o'"]) simp
next
  case (Cons c cs)
  obtain w i rt rid st where c: "c = (w, i, rt, rid, st)" by (cases c)
  let ?s = "snd (op_transition w i rt rid st s)"
  obtain st1 where st1: "op_get ws oid ?s = Some (o'\<lparr>op_state := st1\<rparr>)" "op_moves\<^sup>*\<^sup>* (op_state o') st1"
    using op_transition_get [OF Cons.prems, of w i rt rid st]
    by (metis op_moves_def r_into_rtranclp rtranclp.rtrancl_refl)
  from Cons.IH [OF st1(1) ops_keyed_transition [OF Cons.prems(2)]] st1(2) c show ?case
    by (auto intro: rtranclp_trans)
qed

text \<open>
  Deletion operations only move forward: whatever sequence of transitions is requested, of this
  or other operations, an operation keeps its identity and its state follows the allowed transitions, so
  it never returns to an earlier state and a completed operation stays completed.
\<close>

lemma deletion_operation_progress:
  assumes "op_get ws oid s = Some o'" and "ops_keyed s"
  shows "\<exists>st'. op_get ws oid (op_calls cs s) = Some (o'\<lparr>op_state := st'\<rparr>)
    \<and> op_moves\<^sup>*\<^sup>* (op_state o') st' \<and> op_rank (op_state o') \<le> op_rank st'
    \<and> (op_state o' = COMPLETED \<longrightarrow> st' = COMPLETED)"
proof -
  obtain st' where st': "op_get ws oid (op_calls cs s) = Some (o'\<lparr>op_state := st'\<rparr>)" "op_moves\<^sup>*\<^sup>* (op_state o') st'"
    using op_calls_refine [OF assms] by blast
  have "op_state o' = COMPLETED \<Longrightarrow> st' = COMPLETED"
    using op_moves_run_rank [OF st'(2)] by (cases st') auto
  then show ?thesis using st' op_moves_run_rank by blast
qed

definition sample_operation :: "DeletionOperationState \<Rightarrow> DeletionOperation" where
  "sample_operation st = \<lparr>op_workspace_id = 7, op_id = ''o'', op_resource_type = ''dataset'', op_resource_id = ''d'', op_state = st\<rparr>"

lemma sample_operation_wf: "operation_wf (sample_operation st)"
  by (simp add: operation_wf_def DeletionOperation_init_def sample_operation_def blank_iff py_isspace_def)

lemma sample_ops_keyed: "ops_keyed [((7, ''o''), sample_operation st)]"
  using sample_operation_wf by (auto simp: ops_keyed_def sample_operation_def split: if_splits)

section \<open>Execution on the operation store\<close>

lemma op_transition_ok:
  assumes "op_get ws oid s = Some o'" and "ops_keyed s" and "op_resource_type o' = rt" and "op_resource_id o' = rid"
    and "st = op_state o' \<or> st \<in> set (ALLOWED_TRANSITIONS (op_state o'))"
  shows "op_transition ws oid rt rid st s = (Inr (o'\<lparr>op_state := st\<rparr>), op_put (o'\<lparr>op_state := st\<rparr>) s)"
    and "op_get ws oid (op_put (o'\<lparr>op_state := st\<rparr>) s) = Some (o'\<lparr>op_state := st\<rparr>)"
    and "ops_keyed (op_put (o'\<lparr>op_state := st\<rparr>) s)"
proof -
  have o: "operation_wf o'" "op_workspace_id o' = ws" "op_id o' = oid"
    using assms(1,2) by (auto simp: ops_keyed_def op_get_def)
  show "op_transition ws oid rt rid st s = (Inr (o'\<lparr>op_state := st\<rparr>), op_put (o'\<lparr>op_state := st\<rparr>) s)"
    using assms transition_to_ok [OF o(1)] by (simp add: op_transition_def)
  then show "ops_keyed (op_put (o'\<lparr>op_state := st\<rparr>) s)"
    using ops_keyed_transition [OF assms(2), of ws oid rt rid st] by simp
  show "op_get ws oid (op_put (o'\<lparr>op_state := st\<rparr>) s) = Some (o'\<lparr>op_state := st\<rparr>)"
    using o by (simp add: op_get_def op_put_def)
qed

text \<open>
  No deletion is forgotten: when an approved operation of the in-memory store is executed with
  all gates open, then whatever the audit sink and the delete operation do, the operation ends either
  untouched because the approval audit failed, or completed because everything succeeded, or marked for
  reconciliation; it is reported as completed exactly when it is.
\<close>

lemma deletion_ends_accounted:
  fixes audit :: "DeletionCandidate \<Rightarrow> string \<Rightarrow> exn option" and delete :: "DeletionCandidate \<Rightarrow> exn option"
  assumes "op_get ws oid s = Some o'" and "ops_keyed s" and "op_state o' = APPROVED"
    and "op_resource_type o' = cand_type c" and "op_resource_id o' = cand_id c"
  defines "run \<equiv> after_gates c audit delete (op_transition ws oid) s"
  shows "\<exists>st. op_get ws oid (fst (snd run)) = Some (o'\<lparr>op_state := st\<rparr>)
    \<and> st = (if audit c ''deletion_approved'' \<noteq> None then APPROVED
            else if delete c = None \<and> audit c ''deletion_completed'' = None then COMPLETED
            else RECONCILIATION_REQUIRED)
    \<and> (st = COMPLETED \<longleftrightarrow> fst run = Inr \<lparr>exe_decision = ELIGIBLE, exe_reason = ''deletion_completed'', exe_deleted = True\<rparr>)"
proof (cases "audit c ''deletion_approved''")
  case (Some e)
  then show ?thesis using assms(1,3) by (intro exI [of _ APPROVED]) (simp add: run_def after_gates_def)
next
  case None
  let ?a = "o'\<lparr>op_state := DELETE_ATTEMPTED\<rparr>"
  note t1 = op_transition_ok [OF assms(1,2,4,5), of DELETE_ATTEMPTED]
  have s1: "op_get ws oid (op_put ?a s) = Some ?a" "ops_keyed (op_put ?a s)"
    using t1 assms(3) by simp_all
  have t2: "op_transition ws oid (cand_type c) (cand_id c) st (op_put ?a s)
      = (Inr (o'\<lparr>op_state := st\<rparr>), op_put (o'\<lparr>op_state := st\<rparr>) (op_put ?a s))"
    and g2: "op_get ws oid (op_put (o'\<lparr>op_state := st\<rparr>) (op_put ?a s)) = Some (o'\<lparr>op_state := st\<rparr>)"
    if "st \<in> {COMPLETED, RECONCILIATION_REQUIRED}" for st
    using op_transition_ok [OF s1, of "cand_type c" "cand_id c" st] that assms(4,5) by auto
  have t1': "op_transition ws oid (cand_type c) (cand_id c) DELETE_ATTEMPTED s = (Inr ?a, op_put ?a s)"
    using t1(1) assms(3) by simp
  show ?thesis
    using None by (cases "delete c"; cases "audit c ''deletion_completed''")
      (simp_all add: run_def after_gates_def t1' t2 g2 Let_def)
qed

text \<open>
  \<open>complete_reconciliation\<close> is documented to record completion only from an operation that
  requires reconciliation; it also completes an operation whose delete was merely attempted, and accepts
  one that is already completed.
\<close>

lemma complete_reconciliation_too_permissive:
  assumes "op_get ws oid s = Some o'" and "ops_keyed s" and "op_state o' \<in> {DELETE_ATTEMPTED, COMPLETED}"
  shows "complete_reconciliation ws oid (op_resource_type o') (op_resource_id o') s
    = (Inr (o'\<lparr>op_state := COMPLETED\<rparr>), op_put (o'\<lparr>op_state := COMPLETED\<rparr>) s)"
  unfolding complete_reconciliation_def
  by (rule op_transition_ok(1) [OF assms(1,2)]) (use assms(3) in auto)

end
