(* ===== verification/Json_Text.thy ===== *)
theory Json_Text
  imports Python_Text
begin

text \<open>
  The canonical JSON text determines the value: two values with the same text are equal up to the
  order of object entries.  Digests over canonical text therefore identify contents up to a collision
  of SHA-256 itself.
\<close>

section \<open>Codes\<close>

text \<open>
  A code that can be read from left to right: no code word is empty and the first code word of a text
  is unique.
\<close>

locale prefix_code =
  fixes enc :: "'a \<Rightarrow> 'b list"
  assumes enc_nonempty: "enc c \<noteq> []"
    and enc_unique: "enc c @ x = enc d @ y \<Longrightarrow> c = d \<and> x = y"
begin

lemma decode_unique: "concat (map enc s) = concat (map enc t) \<Longrightarrow> s = t"
proof (induction s arbitrary: t)
  case Nil
  then show ?case using enc_nonempty by (cases t) auto
next
  case (Cons c s)
  show ?case
  proof (cases t)
    case Nil
    then show ?thesis using Cons.prems enc_nonempty by simp
  next
    case (Cons d u)
    then have "c = d \<and> concat (map enc s) = concat (map enc u)" using Cons.prems enc_unique by simp
    with Cons.IH Cons show ?thesis by simp
  qed
qed

lemma decode_terminated:
  assumes "\<And>c. hd (enc c) \<noteq> stop"
  shows "concat (map enc s) @ stop # x = concat (map enc t) @ stop # y \<Longrightarrow> s = t \<and> x = y"
proof (induction s arbitrary: t)
  case Nil
  show ?case
  proof (cases t)
    case (Cons d u)
    have "hd (enc d @ concat (map enc u) @ stop # y) = hd (enc d)" by (simp add: enc_nonempty)
    with Cons Nil assms [of d] show ?thesis by (metis append_Nil append_assoc concat.simps(2) list.map(1,2) concat.simps(1) list.sel(1))
  qed (use Nil in simp)
next
  case (Cons c s)
  show ?case
  proof (cases t)
    case Nil
    have "hd (enc c @ concat (map enc s) @ stop # x) = hd (enc c)" by (simp add: enc_nonempty)
    with Nil Cons.prems assms [of c] show ?thesis by simp
  next
    case (Cons d u)
    then have "c = d \<and> concat (map enc s) @ stop # x = concat (map enc u) @ stop # y"
      using Cons.prems enc_unique by simp
    with Cons.IH Cons show ?thesis by simp
  qed
qed

end

section \<open>Strings\<close>

lemma hex_char_inj: "0 \<le> a \<Longrightarrow> a < 16 \<Longrightarrow> 0 \<le> b \<Longrightarrow> b < 16 \<Longrightarrow> hex_char a = hex_char b \<longleftrightarrow> a = b"
proof -
  assume ab: "0 \<le> a" "a < 16" "0 \<le> b" "b < 16"
  have "distinct hex_digits" "length hex_digits = 16" by (simp_all add: hex_digits_def)
  then have "hex_char a = hex_char b \<longleftrightarrow> nat a = nat b"
    using ab by (simp add: hex_char_def nth_eq_iff_index_eq)
  then show ?thesis using ab by auto
qed

lemma hex4_inj:
  assumes "0 \<le> a" "a < 256" "0 \<le> b" "b < 256" "hex4 a = hex4 b"
  shows "a = b"
proof -
  have "hex_char (a div 16 mod 16) = hex_char (b div 16 mod 16)" "hex_char (a mod 16) = hex_char (b mod 16)"
    using assms(5) by (simp_all add: hex4_def upt_rec)
  then have "a div 16 mod 16 = b div 16 mod 16" "a mod 16 = b mod 16"
    by (simp_all add: hex_char_inj)
  moreover have "a div 16 < 16" "b div 16 < 16" using assms by simp_all
  ultimately have "a div 16 = b div 16" "a mod 16 = b mod 16" using assms by simp_all
  then show ?thesis by (metis div_mult_mod_eq)
qed

lemma of_char_bound: "0 \<le> (of_char c :: int)" "(of_char c :: int) < 256"
proof -
  have "(of_char c :: int) = of_char c mod 256" by (metis char_of_char of_char_of)
  then show "0 \<le> (of_char c :: int)" "(of_char c :: int) < 256"
    by (metis pos_mod_sign pos_mod_bound zero_less_numeral)+
qed

lemma of_char_control:
  "(of_char c :: int) = 10 \<longleftrightarrow> c = CHR 0x0A" "(of_char c :: int) = 13 \<longleftrightarrow> c = CHR 0x0D"
  "(of_char c :: int) = 9 \<longleftrightarrow> c = CHR 0x09" "(of_char c :: int) = 12 \<longleftrightarrow> c = CHR 0x0C"
  "(of_char c :: int) = 8 \<longleftrightarrow> c = CHR 0x08"
  using of_char_eq_iff [of c "CHR 0x0A", where 'a = int] of_char_eq_iff [of c "CHR 0x0D", where 'a = int]
    of_char_eq_iff [of c "CHR 0x09", where 'a = int] of_char_eq_iff [of c "CHR 0x0C", where 'a = int]
    of_char_eq_iff [of c "CHR 0x08", where 'a = int]
  by simp_all

text \<open>The words of the escape code: the first two characters determine the length.\<close>

lemma escape_cases:
  obtains (plain) "json_escape_char a c = [c]" "c \<noteq> CHR 0x22" "c \<noteq> CHR 0x5C"
  | (short) e where "json_escape_char a c = [CHR 0x5C, e]"
      "(e, c) \<in> {(CHR 0x22, CHR 0x22), (CHR 0x5C, CHR 0x5C), (CHR ''n'', CHR 0x0A), (CHR ''r'', CHR 0x0D),
         (CHR ''t'', CHR 0x09), (CHR ''f'', CHR 0x0C), (CHR ''b'', CHR 0x08)}"
  | (long) "json_escape_char a c = CHR 0x5C # CHR ''u'' # hex4 (of_char c)"
proof (cases "c \<in> {CHR 0x22, CHR 0x5C, CHR 0x0A, CHR 0x0D, CHR 0x09, CHR 0x0C, CHR 0x08}")
  case True
  then show ?thesis
    using short [of "CHR 0x22"] short [of "CHR 0x5C"] short [of "CHR ''n''"] short [of "CHR ''r''"]
      short [of "CHR ''t''"] short [of "CHR ''f''"] short [of "CHR ''b''"]
    by (elim insertE emptyE) (simp_all add: json_escape_char_def Let_def)
next
  case False
  then have "json_escape_char a c
      = (if (of_char c :: int) < 32 \<or> (a \<and> 126 < (of_char c :: int)) then CHR 0x5C # CHR ''u'' # hex4 (of_char c) else [c])"
    by (simp add: json_escape_char_def Let_def of_char_control)
  with False show ?thesis by (cases "(of_char c :: int) < 32 \<or> (a \<and> 126 < (of_char c :: int))") (auto intro: plain long)
qed

lemma hex4_length [simp]: "length (hex4 n) = 4"
  by (simp add: hex4_def)

interpretation json_code: prefix_code "json_escape_char a" for a
proof
  show "json_escape_char a c \<noteq> []" for c by (rule escape_cases [of a c]) simp_all
  show "c = d \<and> x = y" if eq: "json_escape_char a c @ x = json_escape_char a d @ y" for c d x y
  proof (rule escape_cases [of a c]; rule escape_cases [of a d])
    assume "json_escape_char a c = CHR 0x5C # CHR ''u'' # hex4 (of_char c)"
      "json_escape_char a d = CHR 0x5C # CHR ''u'' # hex4 (of_char d)"
    with eq have "hex4 (of_char c) @ x = hex4 (of_char d) @ y" by simp
    then have h: "hex4 (of_char c) = hex4 (of_char d)" "x = y" by (simp_all add: append_eq_append_conv)
    from hex4_inj [OF of_char_bound of_char_bound h(1)] have "c = d" by simp
    with h(2) show ?thesis by simp
  qed (use eq in auto)
qed

lemma json_string_unique:
  "json_string a s @ x = json_string a t @ y \<Longrightarrow> s = t \<and> x = y"
proof -
  assume eq: "json_string a s @ x = json_string a t @ y"
  have "hd (json_escape_char a c) \<noteq> CHR 0x22" for c by (rule escape_cases [of a c]) simp_all
  from json_code.decode_terminated [OF this, of s x t y] eq show ?thesis by (simp add: json_string_def)
qed

section \<open>Values\<close>

text \<open>What may follow a value in a text: nothing, or a separator or closing bracket.\<close>

definition delim :: "string \<Rightarrow> bool" where
  "delim x \<longleftrightarrow> x = [] \<or> hd x \<in> {CHR '','', CHR '']'', CHR ''}''}"

lemma delim_simps [simp]: "delim []" "delim (CHR '','' # x)" "delim (CHR '']'' # x)" "delim (CHR ''}'' # x)"
  by (simp_all add: delim_def)

definition wf_format :: "json_format \<Rightarrow> bool" where
  "wf_format f \<longleftrightarrow> item_sep f \<noteq> [] \<and> hd (item_sep f) = CHR '',''"

lemma int_text_unique:
  assumes "delim x" "delim y" "py_str_int i @ x = py_str_int j @ y"
  shows "i = j \<and> x = y"
proof -
  define P where "P = (\<lambda>c. c = CHR ''-'' \<or> (\<exists>d<10. c = digit_char d))"
  have chars: "\<forall>c \<in> set (py_str_int k). P c" for k
    using nat_digits_chars by (auto simp: P_def py_str_int_def)
  have digit: "digit_char d \<noteq> c" if "d < 10" "c \<in> {CHR '','', CHR '']'', CHR ''}''}" for d c
  proof
    assume "digit_char d = c"
    then have "(of_char c :: nat) = 48 + d" using of_char_digit [OF that(1)] by simp
    with that show False by auto
  qed
  have stop: "\<not> P (hd z)" if "delim z" "z \<noteq> []" for z
  proof -
    have "hd z \<in> {CHR '','', CHR '']'', CHR ''}''}" using that by (auto simp: delim_def)
    then have "hd z \<noteq> CHR ''-''" "\<And>d. d < 10 \<Longrightarrow> digit_char d \<noteq> hd z" using digit by auto
    then show ?thesis unfolding P_def by metis
  qed
  have "takeWhile P (py_str_int k @ z) = py_str_int k" if "delim z" for k z
    using chars [of k] stop [OF that] by (cases z) (auto simp: takeWhile_append)
  then have same: "py_str_int i = py_str_int j" using assms(1,2) arg_cong [OF assms(3), of "takeWhile P"] by simp
  then have "Some i = Some j" by (metis py_int_py_str_int)
  with same assms(3) show ?thesis by simp
qed

lemma join_unique:
  assumes sep: "sep \<noteq> []" "hd sep = CHR '',''" and stop: "stop = CHR '']'' \<or> stop = CHR ''}''"
    and item: "\<And>a b x y. a \<in> set xs \<Longrightarrow> delim x \<Longrightarrow> delim y \<Longrightarrow> p a @ x = p b @ y \<Longrightarrow> q a = q b \<and> x = y"
    and start: "\<And>b. p b \<noteq> [] \<and> hd (p b) \<noteq> stop"
  shows "join_with sep (map p xs) @ stop # x = join_with sep (map p ys) @ stop # y \<Longrightarrow> map q xs = map q ys \<and> x = y"
  using item
proof (induction xs arbitrary: ys)
  case Nil
  have "hd (join_with sep (map p (b # bs)) @ stop # y) = hd (p b)" for b bs
    using start [of b] by (cases bs) simp_all
  then have "ys = []" using Nil.prems(1) start by (cases ys) (metis append_Nil join_with.simps(1) list.map(1) list.sel(1))+
  with Nil.prems(1) show ?case by simp
next
  case (Cons a as)
  define rest where "rest = (\<lambda>us z. if us = [] then stop # z else sep @ join_with sep (map p us) @ stop # z)"
  have split: "join_with sep (map p (c # us)) @ stop # z = p c @ rest us z" for c us z
    by (cases us) (simp_all add: rest_def)
  have delim: "delim (rest us z)" for us z
    using sep stop by (cases sep) (auto simp: rest_def)
  show ?case
  proof (cases ys)
    case Nil
    have "hd (p a @ rest as x) = hd (p a)" using start [of a] by simp
    with Nil Cons.prems(1) start [of a] show ?thesis by (metis append_Nil join_with.simps(1) list.map(1) list.sel(1) split)
  next
    case ys: (Cons b bs)
    have "p a @ rest as x = p b @ rest bs y" using Cons.prems(1) by (simp only: ys split)
    then have head: "q a = q b" and tails: "rest as x = rest bs y"
      using Cons.prems(2) [of a "rest as x" "rest bs y" b] delim by auto
    have "map q as = map q bs \<and> x = y"
    proof (cases "as = [] \<or> bs = []")
      case True
      have "hd (stop # z) \<noteq> hd (sep @ z')" for z z' using sep stop by auto
      with True tails show ?thesis by (auto simp: rest_def split: if_splits) (metis list.sel(1))+
    next
      case False
      with tails have "join_with sep (map p as) @ stop # x = join_with sep (map p bs) @ stop # y" by (simp add: rest_def)
      then show ?thesis by (rule Cons.IH) (rule Cons.prems(2); simp)
    qed
    with head ys show ?thesis by simp
  qed
qed

lemma int_text_start: "hd (py_str_int i) \<notin> set ''ntf[{}]'' \<and> hd (py_str_int i) \<noteq> CHR 0x22"
proof -
  have "digit_char d \<notin> set ''ntf[{}]'' \<and> digit_char d \<noteq> CHR 0x22" if "d < 10" for d
    using of_char_digit [OF that] that by auto
  moreover have "\<exists>d<10. hd (nat_digits n) = digit_char d" for n
    using nat_digits_chars [of "hd (nat_digits n)" n] by simp
  ultimately have "hd (nat_digits n) \<notin> set ''ntf[{}]'' \<and> hd (nat_digits n) \<noteq> CHR 0x22" for n by metis
  then show ?thesis by (simp add: py_str_int_def)
qed

text \<open>The first character of the text separates the kinds of values.\<close>

definition first_char :: "json \<Rightarrow> char" where
  "first_char v = (case v of JNull \<Rightarrow> CHR ''n'' | JBool b \<Rightarrow> (if b then CHR ''t'' else CHR ''f'') | JInt i \<Rightarrow> hd (py_str_int i)
     | JStr s \<Rightarrow> CHR 0x22 | JList xs \<Rightarrow> CHR ''['' | JObj kvs \<Rightarrow> CHR ''{'')"

lemma json_dumps_start: "json_dumps f v \<noteq> [] \<and> hd (json_dumps f v) = first_char v"
  by (cases v) (auto simp: json_string_def py_str_int_def first_char_def)

lemma json_dumps_not_close: "json_dumps f v \<noteq> [] \<and> hd (json_dumps f v) \<noteq> CHR '']''"
  using int_text_start json_dumps_start [of f v] by (cases v) (simp_all add: first_char_def)

lemma json_dumps_same_start: "json_dumps f v @ x = json_dumps f w @ y \<Longrightarrow> first_char v = first_char w"
  using json_dumps_start [of f v] json_dumps_start [of f w] by (metis hd_append2)

lemma json_entry_unique:
  assumes "\<And>x y. delim x \<Longrightarrow> delim y \<Longrightarrow> json_dumps f v @ x = json_dumps f w @ y \<Longrightarrow> json_canon v = json_canon w \<and> x = y"
    and "delim x" "delim y"
    and "(json_string e k @ sep @ json_dumps f v) @ x = (json_string e k' @ sep @ json_dumps f w) @ y"
  shows "(k, json_canon v) = (k', json_canon w) \<and> x = y"
proof -
  have "json_string e k @ (sep @ json_dumps f v @ x) = json_string e k' @ (sep @ json_dumps f w @ y)" using assms(4) by simp
  from json_string_unique [OF this] have "k = k'" "json_dumps f v @ x = json_dumps f w @ y" by simp_all
  with assms(1) [OF assms(2,3)] show ?thesis by simp
qed

lemma json_dumps_unique:
  assumes "wf_format f"
  shows "delim x \<Longrightarrow> delim y \<Longrightarrow> json_dumps f v @ x = json_dumps f w @ y \<Longrightarrow> json_canon v = json_canon w \<and> x = y"
proof (induction v arbitrary: w x y)
  case JNull
  then show ?case using json_dumps_same_start [OF JNull(3)] int_text_start by (cases w) (auto simp: first_char_def split: if_splits)
next
  case (JBool b)
  then show ?case using json_dumps_same_start [OF JBool(3)] int_text_start by (cases w) (auto simp: first_char_def split: if_splits)
next
  case (JInt i)
  obtain j where "w = JInt j"
    using json_dumps_same_start [OF JInt(3)] int_text_start [of i] by (cases w) (auto simp: first_char_def split: if_splits)
  then show ?case using JInt int_text_unique [of x y i j] by simp
next
  case (JStr s)
  obtain t where "w = JStr t"
    using json_dumps_same_start [OF JStr(3)] int_text_start by (cases w) (auto simp: first_char_def split: if_splits)
  then show ?case using JStr json_string_unique [of _ s x t y] by simp
next
  case (JList vs)
  obtain ws where w: "w = JList ws"
    using json_dumps_same_start [OF JList(4)] int_text_start by (cases w) (auto simp: first_char_def split: if_splits)
  have "map json_canon vs = map json_canon ws \<and> x = y"
  proof (rule join_unique [of "item_sep f" "CHR '']''"])
    show "join_with (item_sep f) (map (json_dumps f) vs) @ CHR '']'' # x
        = join_with (item_sep f) (map (json_dumps f) ws) @ CHR '']'' # y"
      using JList(4) w by simp
    show "json_dumps f b \<noteq> [] \<and> hd (json_dumps f b) \<noteq> CHR '']''" for b by (rule json_dumps_not_close)
  qed (use assms JList(1) in \<open>auto simp: wf_format_def\<close>)
  with w show ?case by simp
next
  case (JObj kvs)
  obtain kws where w: "w = JObj kws"
    using json_dumps_same_start [OF JObj(4)] int_text_start by (cases w) (auto simp: first_char_def split: if_splits)
  let ?p = "\<lambda>(k, v). json_string (ensure_ascii f) k @ key_sep f @ json_dumps f v"
  let ?q = "\<lambda>(k, v). (k, json_canon v)"
  have dumps: "json_dumps f (JObj us) @ z = ''{'' @ join_with (item_sep f) (map ?p (sort_key fst us)) @ CHR ''}'' # z" for us z
  proof -
    have "map (\<lambda>(k, t). json_string (ensure_ascii f) k @ key_sep f @ t) (map (\<lambda>(k, v). (k, json_dumps f v)) vs)
        = map ?p vs" for vs by auto
    then show ?thesis by (simp only: json_dumps.simps sort_key_fst_map append_assoc append_Cons append_Nil)
  qed
  have "map ?q (sort_key fst kvs) = map ?q (sort_key fst kws) \<and> x = y"
  proof (rule join_unique [of "item_sep f" "CHR ''}''" _ ?p])
    show "join_with (item_sep f) (map ?p (sort_key fst kvs)) @ CHR ''}'' # x
        = join_with (item_sep f) (map ?p (sort_key fst kws)) @ CHR ''}'' # y"
      using JObj(4) unfolding w dumps by simp
    show "?p b \<noteq> [] \<and> hd (?p b) \<noteq> CHR ''}''" for b by (cases b) (simp add: json_string_def)
    show "?q a = ?q b \<and> x = y"
      if "a \<in> set (sort_key fst kvs)" "delim x" "delim y" "?p a @ x = ?p b @ y" for a b x y
    proof -
      obtain k v k' u where ab: "a = (k, v)" "b = (k', u)" by (cases a, cases b)
      have mem: "(k, v) \<in> set kvs" "v \<in> Basic_BNFs.snds (k, v)" using that(1) ab by (simp_all add: snds.simps)
      have "(k, json_canon v) = (k', json_canon u) \<and> x = y"
        by (rule json_entry_unique [OF JObj(1) [OF mem] that(2,3)]) (use that(4) in \<open>simp_all only: ab case_prod_conv\<close>)
      then show ?thesis by (simp only: ab case_prod_conv)
    qed
  qed (use assms in \<open>auto simp: wf_format_def\<close>)
  with w show ?case by (simp add: sort_key_fst_map)
qed

lemma json_dumps_inj:
  assumes "wf_format f" "json_dumps f v = json_dumps f w"
  shows "json_canon v = json_canon w"
  using json_dumps_unique [OF assms(1), of "[]" "[]" v w] assms(2) by simp

lemma wf_formats [simp]: "wf_format fmt_default" "wf_format fmt_compact" "wf_format fmt_ascii"
  by (simp_all add: wf_format_def fmt_default_def fmt_compact_def fmt_ascii_def)

section \<open>Bytes\<close>

interpretation utf8: prefix_code utf8_char
proof
  show "utf8_char c \<noteq> []" for c by (simp add: utf8_char_def Let_def)
  show "c = d \<and> x = y" if eq: "utf8_char c @ x = utf8_char d @ y" for c d x y
  proof -
    let ?n = "of_char c :: nat" and ?m = "of_char d :: nat"
    have nat: "?n < 256" "?m < 256" using of_char_bound [of c] of_char_bound [of d]
      by (metis of_nat_less_iff of_nat_numeral of_nat_of_char)+
    have lead: "(of_char (char_of (192 + k div 64 :: nat)) :: nat) = 192 + k div 64"
      "(of_char (char_of (128 + k mod 64 :: nat)) :: nat) = 128 + k mod 64" if "k < 256" for k :: nat
      using that by simp_all
    have code: "?n = ?m" if "char_of (192 + ?n div 64) = (char_of (192 + ?m div 64) :: char)"
      "char_of (128 + ?n mod 64) = (char_of (128 + ?m mod 64) :: char)"
    proof -
      have "192 + ?n div 64 = 192 + ?m div 64" "128 + ?n mod 64 = 128 + ?m mod 64"
        using that lead nat by metis+
      then show ?thesis by (metis add_left_cancel div_mult_mod_eq)
    qed
    have mixed: "char_of (192 + k div 64) \<noteq> e" if "(of_char e :: nat) < 128" "k < 256" for e :: char and k :: nat
      using lead(1) [OF that(2)] that by auto
    show ?thesis
      using eq nat code mixed by (cases "?n < 128"; cases "?m < 128") (auto simp: utf8_char_def Let_def)
  qed
qed

lemma utf8_encode_inj: "utf8_encode s = utf8_encode t \<Longrightarrow> s = t"
  using utf8.decode_unique by (simp add: utf8_encode_def)

section \<open>Digests\<close>

text \<open>A collision of the digest itself: two different byte strings with one SHA-256 value.\<close>

definition sha256_collision :: "char list \<Rightarrow> char list \<Rightarrow> bool" where
  "sha256_collision m m' \<longleftrightarrow> m \<noteq> m' \<and> sha256_hex m = sha256_hex m'"

lemma json_sha256_inj:
  assumes "wf_format f" "json_sha256 f v = json_sha256 f w"
  shows "json_canon v = json_canon w
    \<or> sha256_collision (utf8_encode (json_dumps f v)) (utf8_encode (json_dumps f w))"
  using assms json_dumps_inj utf8_encode_inj unfolding json_sha256_def sha256_collision_def by metis

text \<open>Two records written with the same keys and flat values are equal once their canonical forms are.\<close>

lemma json_canon_record:
  assumes "json_canon (JObj kvs) = json_canon (JObj kvs')" "map fst kvs = map fst kvs'" "distinct (map fst kvs)"
    and "\<And>k v. (k, v) \<in> set kvs \<union> set kvs' \<Longrightarrow> json_canon v = v"
  shows "kvs = kvs'"
proof -
  have same: "map (\<lambda>(k, v). (k, json_canon v)) us = us" if "set us \<subseteq> set kvs \<union> set kvs'" for us
    using assms(4) that by (intro map_idI) auto
  have "set (sort_key fst (map (\<lambda>(k, v). (k, json_canon v)) kvs))
      = set (sort_key fst (map (\<lambda>(k, v). (k, json_canon v)) kvs'))" using assms(1) by simp
  then have "set kvs = set kvs'" unfolding set_sort using same [of kvs] same [of kvs'] by simp
  then have "kvs ! i = kvs' ! i" if "i < length kvs" for i
  proof -
    have len: "length kvs = length kvs'" using assms(2) by (metis length_map)
    then have "fst (kvs ! i) = fst (kvs' ! i)" using assms(2) that by (metis nth_map)
    moreover have "kvs ! i \<in> set kvs" "kvs' ! i \<in> set kvs" using that len \<open>set kvs = set kvs'\<close> by (metis nth_mem)+
    ultimately show ?thesis using eq_key_imp_eq_value [OF assms(3)] by (metis prod.collapse)
  qed
  then show ?thesis using assms(2) by (metis length_map nth_equalityI)
qed

end
