(* ===== verification/Core_Objects.thy ===== *)
theory Core_Objects
  imports Python_Text Interfaces
begin

unbundle bit_operations_syntax

text \<open>
  The core of the object model (\<open>researchos/core\<close>): deterministic identities and digests
  (\<open>identity.py\<close>), life cycles (\<open>lifecycle.py\<close>), versions (\<open>versioning.py\<close>) and the base object
  (\<open>base_object.py\<close>).  A \<open>datetime\<close> of these modules is only written out, so it is represented by its
  \<open>isoformat()\<close> text, and the value of \<open>utc_now()\<close> is an argument.  Reading objects back
  (\<open>from_dict\<close>, which parses timestamps) is not modelled.
\<close>

section \<open>Identity\<close>

text \<open>\<open>uuid.uuid5(uuid.NAMESPACE_DNS, seed)\<close>: SHA-1 of the namespace bytes and the name.\<close>

type_synonym sha1_state = "w32 \<times> w32 \<times> w32 \<times> w32 \<times> w32"

definition sha1_init :: sha1_state where
  "sha1_init = (1732584193, 4023233417, 2562383102, 271733878, 3285377520)"

definition rotl :: "nat \<Rightarrow> w32 \<Rightarrow> w32" where
  "rotl n x = push_bit n x OR drop_bit (32 - n) x"

fun sha1_extend :: "nat \<Rightarrow> w32 list \<Rightarrow> w32 list" where
  "sha1_extend 0 ws = ws"
| "sha1_extend (Suc n) ws =
     (let t = length ws
      in sha1_extend n (ws @ [rotl 1 (ws ! (t - 3) XOR ws ! (t - 8) XOR ws ! (t - 14) XOR ws ! (t - 16))]))"

definition sha1_mix :: "nat \<Rightarrow> w32 \<Rightarrow> w32 \<Rightarrow> w32 \<Rightarrow> w32" where
  "sha1_mix t b c d =
     (if t < 20 then ((b AND c) OR (NOT b AND d)) + 1518500249
      else if t < 40 then (b XOR c XOR d) + 1859775393
      else if t < 60 then ((b AND c) OR (b AND d) OR (c AND d)) + 2400959708
      else (b XOR c XOR d) + 3395469782)"

fun sha1_round :: "sha1_state \<Rightarrow> nat \<times> w32 \<Rightarrow> sha1_state" where
  "sha1_round (a, b, c, d, e) (t, w) = (rotl 5 a + sha1_mix t b c d + e + w, a, rotl 30 b, c, d)"

fun sha1_add :: "sha1_state \<Rightarrow> sha1_state \<Rightarrow> sha1_state" where
  "sha1_add (a, b, c, d, e) (a', b', c', d', e') = (a + a', b + b', c + c', d + d', e + e')"

definition sha1_block :: "sha1_state \<Rightarrow> char list \<Rightarrow> sha1_state" where
  "sha1_block st blk =
     (let ws = sha1_extend 64 (map sha_word (sha_chunks 4 blk))
      in sha1_add st (foldl sha1_round st (zip [0..<80] ws)))"

fun sha1_int :: "sha1_state \<Rightarrow> int" where
  "sha1_int (a, b, c, d, e) = foldl (\<lambda>n w. 4294967296 * n + uint w) 0 [a, b, c, d, e]"

definition NAMESPACE_DNS :: int where
  "NAMESPACE_DNS = 143098242404177361603877621312831893704"

definition uuid5_dns :: "string \<Rightarrow> uuid" where
  "uuid5_dns name =
     (let h = sha1_int (foldl sha1_block sha1_init
                (sha_chunks 64 (sha_pad (sha_be_bytes 16 NAMESPACE_DNS @ utf8_encode name)))) div 2 ^ 32;
          high = h div 2 ^ 80 mod 2 ^ 48;
          mid = h div 2 ^ 64 mod 2 ^ 12;
          low = h mod 2 ^ 62
      in nat (high * 2 ^ 80 + 5 * 2 ^ 76 + mid * 2 ^ 64 + 2 ^ 63 + low))"

definition generate_id :: "string \<Rightarrow> string result" where
  "generate_id seed =
     (if seed = []
      then Inl (ValueError (''generate_id() requires a deterministic seed. ResearchOS does not allow ''
        @ ''random identity generation. Provide a content-based seed string.''))
      else Inr (uuid_str (uuid5_dns seed)))"

definition deterministic_hash :: "json \<Rightarrow> string" where
  "deterministic_hash content = json_sha256 fmt_default content"

definition generate_observation_id :: "string \<Rightarrow> string \<Rightarrow> json \<Rightarrow> string result" where
  "generate_observation_id source timestamp v =
     generate_id (source @ ''|'' @ timestamp @ ''|'' @ py_str v)"

lemma uuid5_dns_valid: "valid_uuid (uuid5_dns name)"
proof -
  define h where "h = sha1_int (foldl sha1_block sha1_init
      (sha_chunks 64 (sha_pad (sha_be_bytes 16 NAMESPACE_DNS @ utf8_encode name)))) div 2 ^ 32"
  define high mid low where "high = h div 2 ^ 80 mod 2 ^ 48" and "mid = h div 2 ^ 64 mod 2 ^ 12"
    and "low = h mod 2 ^ 62"
  have "0 \<le> high" "high \<le> 2 ^ 48 - 1" "0 \<le> mid" "mid \<le> 2 ^ 12 - 1" "0 \<le> low" "low \<le> 2 ^ 62 - 1"
    by (simp_all add: high_def mid_def low_def zle_diff1_eq)
  then have "high * 2 ^ 80 + 5 * 2 ^ 76 + mid * 2 ^ 64 + 2 ^ 63 + low < 2 ^ 128"
    by simp
  then have "nat (high * 2 ^ 80 + 5 * 2 ^ 76 + mid * 2 ^ 64 + 2 ^ 63 + low) < 2 ^ 128"
    by (simp add: nat_less_iff)
  then show ?thesis
    by (simp only: valid_uuid_def uuid5_dns_def Let_def h_def high_def mid_def low_def)
qed

text \<open>Identities parse as UUIDs.\<close>

lemma generate_id_parses: "generate_id seed = Inr i \<Longrightarrow> py_uuid i = Some (uuid5_dns seed)"
  by (auto simp: generate_id_def uuid5_dns_valid split: if_splits)

lemma deterministic_hash_order:
  "distinct (map fst kvs) \<Longrightarrow> distinct (map fst kvs') \<Longrightarrow> set kvs = set kvs'
    \<Longrightarrow> deterministic_hash (JObj kvs) = deterministic_hash (JObj kvs')"
  unfolding deterministic_hash_def json_sha256_def
  by (rule arg_cong [where f = "\<lambda>t. sha256_hex (utf8_encode t)"], rule json_dumps_order_independent)

section \<open>Life cycles\<close>

datatype LifecycleStage =
    Stage_CREATED | Stage_VALIDATED | Stage_ACTIVE | Stage_IN_PROGRESS | Stage_COMPLETE
  | Stage_FINALIZED | Stage_SUPerseded | Stage_INVALIDATED | Stage_RESOLVED | Stage_RETIRED
  | Stage_ARCHIVED | Stage_DRAFT | Stage_FINAL | Stage_INITIATED | Stage_VERIFIED
  | Stage_DETECTED | Stage_TRACKED | Stage_MITIGATED | Stage_ASSESSED | Stage_COMPLETED
  | Stage_ANALYZED | Stage_STARTED | Stage_UPDATED | Stage_CALIBRATED | Stage_RESOLVED_ESCALATED

fun LifecycleStage_value :: "LifecycleStage \<Rightarrow> string" where
  "LifecycleStage_value Stage_CREATED = ''Created''"
| "LifecycleStage_value Stage_VALIDATED = ''Validated''"
| "LifecycleStage_value Stage_ACTIVE = ''Active''"
| "LifecycleStage_value Stage_IN_PROGRESS = ''In Progress''"
| "LifecycleStage_value Stage_COMPLETE = ''Complete''"
| "LifecycleStage_value Stage_FINALIZED = ''Finalized''"
| "LifecycleStage_value Stage_SUPerseded = ''Superseded''"
| "LifecycleStage_value Stage_INVALIDATED = ''Invalidated''"
| "LifecycleStage_value Stage_RESOLVED = ''Resolved''"
| "LifecycleStage_value Stage_RETIRED = ''Retired''"
| "LifecycleStage_value Stage_ARCHIVED = ''Archived''"
| "LifecycleStage_value Stage_DRAFT = ''Draft''"
| "LifecycleStage_value Stage_FINAL = ''Final''"
| "LifecycleStage_value Stage_INITIATED = ''Initiated''"
| "LifecycleStage_value Stage_VERIFIED = ''Verified''"
| "LifecycleStage_value Stage_DETECTED = ''Detected''"
| "LifecycleStage_value Stage_TRACKED = ''Tracked''"
| "LifecycleStage_value Stage_MITIGATED = ''Mitigated''"
| "LifecycleStage_value Stage_ASSESSED = ''Assessed''"
| "LifecycleStage_value Stage_COMPLETED = ''Completed''"
| "LifecycleStage_value Stage_ANALYZED = ''Analyzed''"
| "LifecycleStage_value Stage_STARTED = ''Started''"
| "LifecycleStage_value Stage_UPDATED = ''Updated''"
| "LifecycleStage_value Stage_CALIBRATED = ''Calibrated''"
| "LifecycleStage_value Stage_RESOLVED_ESCALATED = ''Resolved/Escalated''"

record LifecycleTransition =
  lt_stage :: LifecycleStage
  lt_timestamp :: string
  lt_reason :: "string option"

text \<open>A \<open>Lifecycle\<close> is its list of transitions, oldest first.\<close>

type_synonym Lifecycle = "LifecycleTransition list"

definition Lifecycle_init :: "LifecycleStage \<Rightarrow> string \<Rightarrow> Lifecycle" where
  "Lifecycle_init initial_stage now =
     [\<lparr>lt_stage = initial_stage, lt_timestamp = now, lt_reason = Some ''Object created''\<rparr>]"

definition current_stage :: "Lifecycle \<Rightarrow> LifecycleStage result" where
  "current_stage l =
     (if l = [] then Inl (IndexError ''list index out of range'') else Inr (lt_stage (last l)))"

definition lifecycle_transition ::
  "LifecycleStage \<Rightarrow> string option \<Rightarrow> string \<Rightarrow> Lifecycle \<Rightarrow> (unit, Lifecycle) outcome" where
  "lifecycle_transition stage reason now l =
     (case current_stage l of
        Inl e \<Rightarrow> (Inl e, l)
      | Inr c \<Rightarrow>
          if c \<in> {Stage_FINALIZED, Stage_ARCHIVED}
          then (Inl (RuntimeError (''Cannot transition from terminal stage '' @ LifecycleStage_value c)), l)
          else (Inr (), l @ [\<lparr>lt_stage = stage, lt_timestamp = now, lt_reason = reason\<rparr>]))"

definition is_terminal :: "Lifecycle \<Rightarrow> bool result" where
  "is_terminal l = map_sum id (\<lambda>c. c \<in> {Stage_ARCHIVED, Stage_RETIRED}) (current_stage l)"

definition LifecycleTransition_to_dict :: "LifecycleTransition \<Rightarrow> json" where
  "LifecycleTransition_to_dict t =
     JObj [(''stage'', JStr (LifecycleStage_value (lt_stage t))), (''timestamp'', JStr (lt_timestamp t)),
       (''reason'', case lt_reason t of None \<Rightarrow> JNull | Some r \<Rightarrow> JStr r)]"

definition Lifecycle_to_dict :: "Lifecycle \<Rightarrow> json result" where
  "Lifecycle_to_dict l =
     map_sum id (\<lambda>c. JObj [(''current_stage'', JStr (LifecycleStage_value c)),
       (''transitions'', JList (map LifecycleTransition_to_dict l))]) (current_stage l)"

text \<open>
  Life cycles as a step system: the first entry and all recorded transitions are permanent, and
  nothing follows a finalized or archived entry.
\<close>

definition lifecycle_step :: "Lifecycle \<Rightarrow> Lifecycle \<Rightarrow> bool" where
  "lifecycle_step l l' \<longleftrightarrow> (\<exists>stage reason now. l' = snd (lifecycle_transition stage reason now l))"

definition lifecycle_ok :: "Lifecycle \<Rightarrow> bool" where
  "lifecycle_ok l \<longleftrightarrow> l \<noteq> [] \<and> (\<forall>t \<in> set (butlast l). lt_stage t \<notin> {Stage_FINALIZED, Stage_ARCHIVED})"

interpretation lifecycle: monotone_system "\<lambda>l. \<exists>stage now. l = Lifecycle_init stage now"
  lifecycle_step lifecycle_ok "\<lambda>l l'. \<exists>more. l' = l @ more"
proof
  show "lifecycle_ok l" if "\<exists>stage now. l = Lifecycle_init stage now" for l
    using that by (auto simp: lifecycle_ok_def Lifecycle_init_def)
next
  fix l l'
  assume "lifecycle_ok l" "lifecycle_step l l'"
  then show "lifecycle_ok l'"
    by (cases l rule: rev_cases)
      (auto simp: lifecycle_ok_def lifecycle_step_def lifecycle_transition_def current_stage_def
        butlast_append split: if_splits)
next
  show "\<exists>more. l' = l @ more" if "lifecycle_step l l'" for l l'
    using that by (cases "current_stage l") (auto simp: lifecycle_step_def lifecycle_transition_def)
qed auto

lemma lifecycle_history_permanent:
  "lifecycle_step\<^sup>*\<^sup>* (Lifecycle_init stage now) l \<Longrightarrow>
    l \<noteq> [] \<and> hd l = hd (Lifecycle_init stage now)
    \<and> (\<forall>t \<in> set (butlast l). lt_stage t \<notin> {Stage_FINALIZED, Stage_ARCHIVED})"
  using lifecycle.reach_run_rel [of "Lifecycle_init stage now" l]
    lifecycle.run_inv [of "Lifecycle_init stage now" l] lifecycle.inv_init [of "Lifecycle_init stage now"]
  by (force simp: lifecycle_ok_def Lifecycle_init_def intro: reach_start)

text \<open>
  \<open>is_terminal\<close> and the guard of \<open>transition\<close> disagree in both directions: a retired object counts as
  terminal but still accepts transitions, a finalized one does not count as terminal but refuses them.
\<close>

lemma lifecycle_terminal_mismatch:
  "is_terminal (l @ [\<lparr>lt_stage = Stage_RETIRED, lt_timestamp = t, lt_reason = r\<rparr>]) = Inr True
   \<and> is_ok (fst (lifecycle_transition stage reason now
        (l @ [\<lparr>lt_stage = Stage_RETIRED, lt_timestamp = t, lt_reason = r\<rparr>])))
   \<and> is_terminal (l @ [\<lparr>lt_stage = Stage_FINALIZED, lt_timestamp = t, lt_reason = r\<rparr>]) = Inr False
   \<and> \<not> is_ok (fst (lifecycle_transition stage reason now
        (l @ [\<lparr>lt_stage = Stage_FINALIZED, lt_timestamp = t, lt_reason = r\<rparr>])))"
  by (simp add: is_terminal_def current_stage_def lifecycle_transition_def)

section \<open>Versions\<close>

record Version =
  major :: int
  minor :: int
  patch :: int

definition Version_str :: "Version \<Rightarrow> string" where
  "Version_str v = py_str_int (major v) @ ''.'' @ py_str_int (minor v) @ ''.'' @ py_str_int (patch v)"

definition Version_lt :: "Version \<Rightarrow> Version \<Rightarrow> bool" where
  "Version_lt v w \<longleftrightarrow> major v < major w
     \<or> major v = major w \<and> (minor v < minor w \<or> minor v = minor w \<and> patch v < patch w)"

definition bump_major :: "Version \<Rightarrow> Version" where
  "bump_major v = \<lparr>major = major v + 1, minor = 0, patch = 0\<rparr>"

definition bump_minor :: "Version \<Rightarrow> Version" where
  "bump_minor v = \<lparr>major = major v, minor = minor v + 1, patch = 0\<rparr>"

definition bump_patch :: "Version \<Rightarrow> Version" where
  "bump_patch v = \<lparr>major = major v, minor = minor v, patch = patch v + 1\<rparr>"

record VersionEntry =
  ve_version :: string
  ve_timestamp :: string
  ve_reason :: string
  ve_author :: "string option"

definition add_version ::
  "Version \<Rightarrow> string \<Rightarrow> string option \<Rightarrow> string \<Rightarrow> VersionEntry list \<Rightarrow> VersionEntry list" where
  "add_version v reason author now vs =
     vs @ [\<lparr>ve_version = Version_str v, ve_timestamp = now, ve_reason = reason, ve_author = author\<rparr>]"

definition VersionHistory_init :: "Version option \<Rightarrow> string \<Rightarrow> VersionEntry list" where
  "VersionHistory_init initial now =
     (case initial of None \<Rightarrow> [] | Some v \<Rightarrow> add_version v ''Initial version'' None now [])"

definition current_version :: "VersionEntry list \<Rightarrow> Version option result" where
  "current_version vs =
     (if vs = [] then Inr None
      else case py_split (CHR ''.'') (ve_version (last vs)) of
             a # b # c # _ \<Rightarrow>
               (case (py_int a, py_int b, py_int c) of
                  (Some x, Some y, Some z) \<Rightarrow> Inr (Some \<lparr>major = x, minor = y, patch = z\<rparr>)
                | _ \<Rightarrow> Inl (ValueError ''invalid literal for int()''))
           | _ \<Rightarrow> Inl (IndexError ''list index out of range''))"

lemma py_str_int_no_dot: "CHR ''.'' \<notin> set (py_str_int i)"
proof -
  have "CHR ''.'' \<notin> set (nat_digits n)" for n
    using nat_digits_chars [of "CHR ''.''" n] digit_char_neq(4) by metis
  then show ?thesis by (simp add: py_str_int_def)
qed

lemma current_version_added [simp]: "current_version (add_version v reason author now vs) = Inr (Some v)"
  by (simp add: current_version_def add_version_def Version_str_def py_split_append py_split_absent
      py_str_int_no_dot)

text \<open>Every bump is a later version, and the order is the lexicographic one.\<close>

lemma Version_bumps: "Version_lt v (bump_major v)" "Version_lt v (bump_minor v)" "Version_lt v (bump_patch v)"
  by (simp_all add: Version_lt_def bump_major_def bump_minor_def bump_patch_def)

lemma Version_lt_total: "Version_lt v w \<or> v = w \<or> Version_lt w v"
  by (cases v, cases w) (auto simp: Version_lt_def)

lemma Version_lt_trans: "Version_lt u v \<Longrightarrow> Version_lt v w \<Longrightarrow> Version_lt u w"
  by (auto simp: Version_lt_def)

lemma Version_lt_irrefl: "\<not> Version_lt v v"
  by (simp add: Version_lt_def)

section \<open>Base objects\<close>

text \<open>The constructors read the clock several times: \<open>clock n\<close> is the \<open>n\<close>-th reading.\<close>

record BaseObject =
  bo_id :: string
  bo_created_at :: string
  bo_ontology_tags :: "string list"
  bo_lifecycle :: Lifecycle

definition BaseObject_init ::
  "string \<Rightarrow> string option \<Rightarrow> string option \<Rightarrow> string list \<Rightarrow> (nat \<Rightarrow> string) \<Rightarrow> BaseObject result" where
  "BaseObject_init cls i created_at tags clock =
     map_sum id (\<lambda>i. \<lparr>bo_id = i, bo_created_at = (case created_at of None \<Rightarrow> clock 0 | Some t \<Rightarrow> t),
        bo_ontology_tags = tags, bo_lifecycle = Lifecycle_init Stage_CREATED (clock 1)\<rparr>)
       (case i of
          Some i \<Rightarrow> Inr i
        | None \<Rightarrow> let seed = join_with ''|'' (sort tags) in generate_id (if seed = [] then cls else seed))"

text \<open>
  \<open>to_dict\<close> of a class with the given \<open>_to_hashable_dict()\<close>; subclasses append their own entries.
\<close>

definition BaseObject_to_dict :: "string \<Rightarrow> json \<Rightarrow> 'a BaseObject_scheme \<Rightarrow> (string \<times> json) list result" where
  "BaseObject_to_dict cls hashable b =
     map_sum id (\<lambda>lc. [(''object_type'', JStr cls), (''id'', JStr (bo_id b)),
        (''created_at'', JStr (bo_created_at b)), (''ontology_tags'', JList (map JStr (bo_ontology_tags b))),
        (''lifecycle'', lc), (''hash'', JStr (deterministic_hash hashable))])
       (Lifecycle_to_dict (bo_lifecycle b))"

lemma BaseObject_to_dict_ok:
  "bo_lifecycle b \<noteq> [] \<Longrightarrow> \<exists>d. BaseObject_to_dict cls h b = Inr d"
  by (simp add: BaseObject_to_dict_def Lifecycle_to_dict_def current_stage_def)

end
