(* ===== verification/Research_DB.thy ===== *)
theory Research_DB
  imports Json_Text Core_Objects
begin

text \<open>
  The SQLite repository (\<open>researchos/storage/repository.py\<close>): the generic object table, and the
  hash-chained audit log of \<open>AuditEntry\<close> objects (\<open>researchos/objects/process.py\<close>) with its
  verification and tamper reports.

  A table is the list of its rows in \<open>rowid\<close> order; columns that hold JSON text hold the decoded value
  here.  A transaction that raises leaves the tables as they were.  Lock contention, retries, schema
  migrations and the legacy \<open>cycles\<close> table are not modelled, and the class registry behind
  \<open>load_object\<close> is not.
\<close>

section \<open>Tables\<close>

record object_row =
  or_type :: string
  or_created_at :: string
  or_data :: "(string \<times> json) list"

record audit_row =
  ar_rowid :: int
  ar_id :: string
  ar_timestamp :: string
  ar_actor :: string
  ar_action :: string
  ar_object_id :: string
  ar_object_type :: string
  ar_before_state :: string
  ar_after_state :: string
  ar_previous_entry :: string
  ar_entry_hash :: string
  ar_reasoning_chain_id :: "string option"
  ar_ontology_tags :: "string list option"

record research_db =
  objects :: "(string, object_row) dict"
  audit_logs :: "audit_row list"

section \<open>The object table\<close>

text \<open>A Python value bound to a \<open>TEXT NOT NULL\<close> column.\<close>

fun sql_text :: "json \<Rightarrow> string result" where
  "sql_text (JStr s) = Inr s"
| "sql_text (JInt i) = Inr (py_str_int i)"
| "sql_text (JBool b) = Inr (if b then ''1'' else ''0'')"
| "sql_text JNull = Inl (IntegrityError ''NOT NULL constraint failed'')"
| "sql_text _ = Inl (DatabaseError ''Error binding parameter: type is not supported'')"

text \<open>\<open>INSERT OR REPLACE\<close>: the old row goes, the new one is inserted last.\<close>

definition insert_or_replace :: "'k \<Rightarrow> 'v \<Rightarrow> ('k, 'v) dict \<Rightarrow> ('k, 'v) dict" where
  "insert_or_replace k v d = dpop k d @ [(k, v)]"

definition data_get :: "(string \<times> json) list \<Rightarrow> string \<Rightarrow> json \<Rightarrow> json" where
  "data_get data k v0 = (case dget data k of None \<Rightarrow> v0 | Some v \<Rightarrow> v)"

definition save_object ::
  "string \<Rightarrow> string \<Rightarrow> (string \<times> json) list \<Rightarrow> string \<Rightarrow> 'a research_db_scheme \<Rightarrow> (unit, 'a research_db_scheme) outcome" where
  "save_object cls i data now db =
     (case sql_text (data_get data ''object_type'' (JStr cls)) of
        Inl e \<Rightarrow> (Inl e, db)
      | Inr object_type \<Rightarrow>
          (case sql_text (data_get data ''created_at'' (JStr now)) of
             Inl e \<Rightarrow> (Inl e, db)
           | Inr created_at \<Rightarrow>
               (Inr (), db\<lparr>objects := insert_or_replace i
                  \<lparr>or_type = object_type, or_created_at = created_at, or_data = data\<rparr> (objects db)\<rparr>)))"

definition load_by_id :: "string \<Rightarrow> 'a research_db_scheme \<Rightarrow> (string \<times> json) list option" where
  "load_by_id i db = map_option or_data (dget (objects db) i)"

definition load_by_type :: "string \<Rightarrow> 'a research_db_scheme \<Rightarrow> (string \<times> json) list list" where
  "load_by_type t db =
     map or_data (sort_key or_created_at (filter (\<lambda>r. or_type r = t) (dvalues (objects db))))"

definition delete_object :: "string \<Rightarrow> 'a research_db_scheme \<Rightarrow> 'a research_db_scheme" where
  "delete_object i db = db\<lparr>objects := dpop i (objects db)\<rparr>"

definition object_count :: "string option \<Rightarrow> 'a research_db_scheme \<Rightarrow> int" where
  "object_count object_type db =
     (case object_type of
        None \<Rightarrow> int (length (objects db))
      | Some t \<Rightarrow> if t = [] then int (length (objects db))
                  else int (length (filter (\<lambda>r. or_type r = t) (dvalues (objects db)))))"

text \<open>The \<open>delete\<close> of the repository interface reports whether a row was removed.\<close>

definition db_delete :: "string \<Rightarrow> 'a research_db_scheme \<Rightarrow> bool \<times> 'a research_db_scheme" where
  "db_delete i db = (dget (objects db) i \<noteq> None, db\<lparr>objects := dpop i (objects db)\<rparr>)"

lemma insert_or_replace_get [simp, dict_simps]:
  "dget (insert_or_replace k v d) k' = (if k' = k then Some v else dget d k')"
  by (simp add: insert_or_replace_def map_add_def split: option.splits)

lemma wf_dict_insert_or_replace [simp, dict_simps]: "wf_dict d \<Longrightarrow> wf_dict (insert_or_replace k v d)"
  using distinct_delete [of d k] by (auto simp: wf_dict_def insert_or_replace_def delete_keys)

interpretation object_table: keyed_store "map_of :: (string, object_row) dict \<Rightarrow> _" insert_or_replace dpop
  by unfold_locales simp_all

lemma save_object_frame [simp]:
  "audit_logs (snd (save_object cls i data now db)) = audit_logs db"
  "research_db.more (snd (save_object cls i data now db)) = research_db.more db"
  by (simp_all add: save_object_def split: sum.splits)

lemma save_object_Inr:
  "save_object cls i data now db = (Inr u, db') \<Longrightarrow> dget (objects db') i' =
    (if i' = i then Some \<lparr>or_type = projr (sql_text (data_get data ''object_type'' (JStr cls))),
       or_created_at = projr (sql_text (data_get data ''created_at'' (JStr now))), or_data = data\<rparr>
     else dget (objects db) i')"
  by (auto simp: save_object_def split: sum.splits)

lemma save_object_text:
  assumes "dget data ''object_type'' = Some (JStr t)" and "dget data ''created_at'' = Some (JStr c)"
  shows "save_object cls i data now db = (Inr (), db\<lparr>objects := insert_or_replace i
    \<lparr>or_type = t, or_created_at = c, or_data = data\<rparr> (objects db)\<rparr>)"
  using assms by (simp add: save_object_def data_get_def)

section \<open>Audit entries\<close>

record AuditEntry = BaseObject +
  ae_timestamp :: string
  ae_actor :: string
  ae_action :: string
  ae_object_id :: string
  ae_object_type :: string
  ae_before_state :: string
  ae_after_state :: string
  ae_reasoning_chain_id :: string
  ae_previous_entry :: string
  ae_entry_hash :: string

definition or_empty :: "string option \<Rightarrow> string" where
  "or_empty x = (case x of None \<Rightarrow> [] | Some s \<Rightarrow> s)"

definition audit_entry_seed :: "string \<Rightarrow> string \<Rightarrow> string \<Rightarrow> string \<Rightarrow> string" where
  "audit_entry_seed actor action object_id object_type =
     ''AuditEntry|'' @ actor @ ''|'' @ action @ ''|'' @ object_id @ ''|'' @ object_type"

definition AuditEntry_init ::
  "string \<Rightarrow> string \<Rightarrow> string \<Rightarrow> string \<Rightarrow> string option \<Rightarrow> string option \<Rightarrow> string option \<Rightarrow> string option
    \<Rightarrow> string list \<Rightarrow> string option \<Rightarrow> (nat \<Rightarrow> string) \<Rightarrow> AuditEntry result" where
  "AuditEntry_init actor action object_id object_type before after chain previous tags i clock =
     (case (case i of Some i \<Rightarrow> Inr i
            | None \<Rightarrow> generate_id (audit_entry_seed actor action object_id object_type)) of
        Inl e \<Rightarrow> Inl e
      | Inr i \<Rightarrow>
     (case BaseObject_init ''AuditEntry'' (Some i) None tags clock of
        Inl e \<Rightarrow> Inl e
      | Inr b \<Rightarrow>
     (case lifecycle_transition Stage_CREATED (Some (''Audit entry created: '' @ action @ '' on ''
             @ object_type @ '':'' @ object_id)) (clock 3) (bo_lifecycle b) of
        (Inl e, _) \<Rightarrow> Inl e
      | (Inr _, l) \<Rightarrow> Inr
          \<lparr>bo_id = bo_id b, bo_created_at = bo_created_at b, bo_ontology_tags = bo_ontology_tags b,
           bo_lifecycle = l, ae_timestamp = clock 2, ae_actor = actor, ae_action = action,
           ae_object_id = object_id, ae_object_type = object_type, ae_before_state = or_empty before,
           ae_after_state = or_empty after, ae_reasoning_chain_id = or_empty chain,
           ae_previous_entry = or_empty previous, ae_entry_hash = []\<rparr>)))"

definition is_chain_intact :: "AuditEntry \<Rightarrow> string \<Rightarrow> bool" where
  "is_chain_intact e previous_entry_hash =
     (if ae_previous_entry e \<noteq> [] then ae_previous_entry e = previous_entry_hash else True)"

definition AuditEntry_hashable :: "AuditEntry \<Rightarrow> (string \<times> json) list" where
  "AuditEntry_hashable e =
     [(''timestamp'', JStr (ae_timestamp e)), (''actor'', JStr (ae_actor e)), (''action'', JStr (ae_action e)),
      (''object_id'', JStr (ae_object_id e)), (''object_type'', JStr (ae_object_type e)),
      (''before_state'', JStr (ae_before_state e)), (''after_state'', JStr (ae_after_state e)),
      (''reasoning_chain_id'', JStr (ae_reasoning_chain_id e)),
      (''previous_entry'', JStr (ae_previous_entry e)),
      (''ontology_tags'', JList (map JStr (sort (bo_ontology_tags e))))]"

definition AuditEntry_to_dict :: "AuditEntry \<Rightarrow> (string \<times> json) list result" where
  "AuditEntry_to_dict e =
     map_sum id (\<lambda>base. fold (\<lambda>(k, v). dset k v)
       [(''timestamp'', JStr (ae_timestamp e)), (''actor'', JStr (ae_actor e)), (''action'', JStr (ae_action e)),
        (''object_id'', JStr (ae_object_id e)), (''affected_object_type'', JStr (ae_object_type e)),
        (''before_state'', JStr (ae_before_state e)), (''after_state'', JStr (ae_after_state e)),
        (''reasoning_chain_id'', JStr (ae_reasoning_chain_id e)),
        (''previous_entry'', JStr (ae_previous_entry e)), (''entry_hash'', JStr (ae_entry_hash e))] base)
       (BaseObject_to_dict ''AuditEntry'' (JObj (AuditEntry_hashable e)) e)"

section \<open>The audit chain\<close>

definition genesis_hash :: string where
  "genesis_hash = replicate 64 (CHR ''0'')"

text \<open>\<open>SELECT entry_hash FROM audit_logs ORDER BY rowid DESC LIMIT 1\<close>, the hash of the predecessor.\<close>

definition chain_tip :: "string \<Rightarrow> audit_row list \<Rightarrow> string" where
  "chain_tip h rs = (if rs = [] then h else ar_entry_hash (last rs))"

text \<open>The row inserted for an entry; SQLite numbers rows one above the largest \<open>rowid\<close>.\<close>

definition next_rowid :: "audit_row list \<Rightarrow> int" where
  "next_rowid rs = (if rs = [] then 1 else ar_rowid (last rs) + 1)"

definition audit_row_of :: "int \<Rightarrow> string \<Rightarrow> AuditEntry \<Rightarrow> audit_row" where
  "audit_row_of rowid prev_hash entry =
     (let hashable = dset ''previous_entry'' (JStr prev_hash) (AuditEntry_hashable entry);
          entry_hash = deterministic_hash (JObj hashable)
      in \<lparr>ar_rowid = rowid, ar_id = bo_id entry, ar_timestamp = ae_timestamp entry,
          ar_actor = ae_actor entry, ar_action = ae_action entry, ar_object_id = ae_object_id entry,
          ar_object_type = ae_object_type entry, ar_before_state = ae_before_state entry,
          ar_after_state = ae_after_state entry, ar_previous_entry = prev_hash,
          ar_entry_hash = entry_hash, ar_reasoning_chain_id = Some (ae_reasoning_chain_id entry),
          ar_ontology_tags = Some (sort (bo_ontology_tags entry))\<rparr>)"

definition save_audit_entry ::
  "AuditEntry \<Rightarrow> string \<Rightarrow> 'a research_db_scheme \<Rightarrow> (unit, 'a research_db_scheme) outcome" where
  "save_audit_entry entry now db =
     (if bo_id entry \<in> set (map ar_id (audit_logs db))
      then (Inl (IntegrityError ''UNIQUE constraint failed: audit_logs.id''), db)
      else
        let db' = db\<lparr>audit_logs := audit_logs db @
              [audit_row_of (next_rowid (audit_logs db)) (chain_tip genesis_hash (audit_logs db)) entry]\<rparr>
        in case AuditEntry_to_dict entry of
             Inl e \<Rightarrow> (Inl e, db')
           | Inr data \<Rightarrow> save_object ''AuditEntry'' (bo_id entry) data now db')"

text \<open>The dictionary both checkers rebuild from a row.\<close>

definition row_hashable :: "audit_row \<Rightarrow> json" where
  "row_hashable r =
     JObj [(''timestamp'', JStr (ar_timestamp r)), (''actor'', JStr (ar_actor r)), (''action'', JStr (ar_action r)),
       (''object_id'', JStr (ar_object_id r)), (''object_type'', JStr (ar_object_type r)),
       (''before_state'', JStr (ar_before_state r)), (''after_state'', JStr (ar_after_state r)),
       (''reasoning_chain_id'', JStr (or_empty (ar_reasoning_chain_id r))),
       (''previous_entry'', JStr (ar_previous_entry r)),
       (''ontology_tags'', JList (map JStr (sort (case ar_ontology_tags r of None \<Rightarrow> [] | Some ts \<Rightarrow> ts))))]"

fun verify_chain_from :: "int \<Rightarrow> string \<Rightarrow> audit_row list \<Rightarrow> bool" where
  "verify_chain_from prev_rowid expected_prev_hash [] = True"
| "verify_chain_from prev_rowid expected_prev_hash (r # rs) =
     (if ar_rowid r \<noteq> prev_rowid + 1 then False
      else if ar_previous_entry r \<noteq> expected_prev_hash then False
      else if deterministic_hash (row_hashable r) \<noteq> ar_entry_hash r then False
      else verify_chain_from (ar_rowid r) (ar_entry_hash r) rs)"

definition verify_audit_chain :: "'a research_db_scheme \<Rightarrow> bool" where
  "verify_audit_chain db = verify_chain_from 0 genesis_hash (audit_logs db)"

datatype tamper_issue =
    rowid_gap int int int
  | broken_link int string string
  | hash_mismatch int string string

fun tampering_from :: "int \<Rightarrow> string \<Rightarrow> audit_row list \<Rightarrow> tamper_issue list" where
  "tampering_from prev_rowid expected_prev_hash [] = []"
| "tampering_from prev_rowid expected_prev_hash (r # rs) =
     (if ar_rowid r \<noteq> prev_rowid + 1
      then rowid_gap (ar_rowid r) (prev_rowid + 1) (ar_rowid r)
             # tampering_from (ar_rowid r) expected_prev_hash rs
      else (if ar_previous_entry r \<noteq> expected_prev_hash
            then [broken_link (ar_rowid r) expected_prev_hash (ar_previous_entry r)] else [])
         @ (let computed = deterministic_hash (row_hashable r)
            in if computed \<noteq> ar_entry_hash r then [hash_mismatch (ar_rowid r) computed (ar_entry_hash r)] else [])
         @ tampering_from (ar_rowid r) (ar_entry_hash r) rs)"

definition detect_tampering :: "'a research_db_scheme \<Rightarrow> tamper_issue list" where
  "detect_tampering db = tampering_from 0 genesis_hash (audit_logs db)"

definition verify_dual_storage_consistency :: "'a research_db_scheme \<Rightarrow> string list" where
  "verify_dual_storage_consistency db =
     (let audit_ids = map ar_id (audit_logs db);
          object_ids = map fst (filter (\<lambda>(i, r). or_type r = ''AuditEntry'') (objects db))
      in map (\<lambda>i. ''AuditEntry '' @ i @ '' exists in audit_logs but not in objects'')
           (sort (remdups (filter (\<lambda>i. i \<notin> set object_ids) audit_ids)))
       @ map (\<lambda>i. ''AuditEntry '' @ i @ '' exists in objects but not in audit_logs'')
           (sort (remdups (filter (\<lambda>i. i \<notin> set audit_ids) object_ids))))"

definition load_audit_row :: "(nat \<Rightarrow> string) \<Rightarrow> audit_row \<Rightarrow> AuditEntry result" where
  "load_audit_row clock r =
     map_sum id (\<lambda>e. e\<lparr>ae_timestamp := (if ar_timestamp r \<noteq> [] then ar_timestamp r else ae_timestamp e),
                        ae_entry_hash := ar_entry_hash r\<rparr>)
       (AuditEntry_init (ar_actor r) (ar_action r) (ar_object_id r) (ar_object_type r)
          (Some (ar_before_state r)) (Some (ar_after_state r)) (Some (or_empty (ar_reasoning_chain_id r)))
          (Some (ar_previous_entry r)) [] (Some (ar_id r)) clock)"

definition load_audit_entries :: "(nat \<Rightarrow> nat \<Rightarrow> string) \<Rightarrow> 'a research_db_scheme \<Rightarrow> AuditEntry list result" where
  "load_audit_entries clocks db =
     sequence_results (map (\<lambda>(n, r). load_audit_row (clocks n) r) (List.enumerate 0 (audit_logs db)))"

lemmas research_db_defs = save_object_def delete_object_def db_delete_def save_audit_entry_def

section \<open>Correctness of the chain\<close>

lemma verify_iff_no_issue:
  "verify_chain_from n h rs \<longleftrightarrow> tampering_from n h rs = []"
  by (induction n h rs rule: verify_chain_from.induct) (simp_all add: Let_def)

lemma verify_chain_append:
  "verify_chain_from n h (rs @ rs') \<longleftrightarrow> verify_chain_from n h rs
    \<and> verify_chain_from (n + int (length rs)) (chain_tip h rs) rs'"
  by (induction n h rs rule: verify_chain_from.induct) (auto simp: algebra_simps chain_tip_def)

lemma verify_chain_rowid:
  "verify_chain_from 0 h rs \<Longrightarrow> next_rowid rs = int (length rs) + 1"
proof -
  have "rs \<noteq> [] \<Longrightarrow> ar_rowid (last rs) = n + int (length rs)" if "verify_chain_from n h rs" for n
    using that by (induction n h rs rule: verify_chain_from.induct) (auto split: if_splits)
  then show "verify_chain_from 0 h rs \<Longrightarrow> next_rowid rs = int (length rs) + 1"
    by (fastforce simp: next_rowid_def)
qed

text \<open>The dictionary hashed at insertion is the one rebuilt from the inserted row.\<close>

lemma audit_row_of_hash [simp]:
  "deterministic_hash (row_hashable (audit_row_of n h e)) = ar_entry_hash (audit_row_of n h e)"
  by (simp add: AuditEntry_hashable_def row_hashable_def audit_row_of_def or_empty_def)

lemma audit_row_of_fields [simp]:
  "ar_rowid (audit_row_of n h e) = n" "ar_previous_entry (audit_row_of n h e) = h"
  "ar_id (audit_row_of n h e) = bo_id e"
  by (simp_all add: audit_row_of_def Let_def)

lemma save_audit_entry_logs:
  "audit_logs (snd (save_audit_entry e now db)) = audit_logs db @
    (if bo_id e \<in> set (map ar_id (audit_logs db)) then []
     else [audit_row_of (next_rowid (audit_logs db)) (chain_tip genesis_hash (audit_logs db)) e])"
  by (simp add: save_audit_entry_def Let_def split: sum.splits)

lemma save_audit_entry_verifies:
  "verify_audit_chain db \<Longrightarrow> verify_audit_chain (snd (save_audit_entry e now db))"
  by (simp add: verify_audit_chain_def save_audit_entry_logs verify_chain_append verify_chain_rowid)

text \<open>
  The calls that write the two tables; any component that shares the database makes such steps.
\<close>

inductive db_step :: "'a research_db_scheme \<Rightarrow> 'a research_db_scheme \<Rightarrow> bool" where
  step_save: "db' = snd (save_object cls i data now db) \<Longrightarrow> db_step db db'"
| step_delete: "db' = delete_object i db \<Longrightarrow> db_step db db'"
| step_db_delete: "db' = snd (db_delete i db) \<Longrightarrow> db_step db db'"
| step_audit: "db' = snd (save_audit_entry e now db) \<Longrightarrow> db_step db db'"

definition empty_db :: research_db where
  "empty_db = \<lparr>objects = [], audit_logs = []\<rparr>"

definition audit_ok :: "'a research_db_scheme \<Rightarrow> bool" where
  "audit_ok db \<longleftrightarrow> verify_audit_chain db \<and> distinct (map ar_id (audit_logs db))"

interpretation audit_log: monotone_system "\<lambda>db. audit_logs db = []" db_step audit_ok
  "\<lambda>db db'. \<exists>more. audit_logs db' = audit_logs db @ more"
proof
  show "audit_ok db" if "audit_logs db = []" for db :: "'a research_db_scheme"
    using that by (simp add: audit_ok_def verify_audit_chain_def)
next
  fix db db' :: "'a research_db_scheme"
  assume "audit_ok db" "db_step db db'"
  then show "audit_ok db'"
    by (elim db_step.cases)
      (auto simp: audit_ok_def save_audit_entry_logs verify_audit_chain_def verify_chain_append
        verify_chain_rowid delete_object_def db_delete_def)
next
  fix db db' :: "'a research_db_scheme"
  assume "db_step db db'"
  then show "\<exists>more. audit_logs db' = audit_logs db @ more"
    by cases (auto simp: save_audit_entry_logs delete_object_def db_delete_def)
qed auto

text \<open>
  C15: From an empty audit log, after any sequence of calls that write the database, the audit chain
  verifies, the tamper report is empty, the ids are distinct, and whatever is written later only
  appends to the log.
\<close>

theorem audit_chain_verifies:
  assumes "audit_logs db0 = []" and "db_step\<^sup>*\<^sup>* db0 db" and "db_step\<^sup>*\<^sup>* db db'"
  shows "verify_audit_chain db \<and> detect_tampering db = [] \<and> distinct (map ar_id (audit_logs db))
    \<and> (\<exists>more. audit_logs db' = audit_logs db @ more)"
proof -
  have reach: "reach (\<lambda>db. audit_logs db = []) db_step db"
    using assms(1,2) by (blast intro: reach_run reach_start)
  then have "audit_ok db" by (rule audit_log.reach_inv)
  then show ?thesis
    using audit_log.reach_run_rel [OF reach assms(3)]
    by (simp add: audit_ok_def verify_audit_chain_def detect_tampering_def verify_iff_no_issue)
qed

text \<open>
  What verification pins down.  Two verified logs with the same last hash agree on
  every hashed content or differ at a row where two different contents have the same digest.
\<close>

lemma verify_chain_unique:
  "verify_chain_from n h rs \<Longrightarrow> verify_chain_from n h rs' \<Longrightarrow> length rs = length rs'
   \<Longrightarrow> chain_tip h rs = chain_tip h rs'
   \<Longrightarrow> (\<And>i. i < length rs \<Longrightarrow> deterministic_hash (row_hashable (rs ! i)) = deterministic_hash (row_hashable (rs' ! i))
         \<Longrightarrow> row_hashable (rs ! i) = row_hashable (rs' ! i))
   \<Longrightarrow> map row_hashable rs = map row_hashable rs' \<and> map ar_entry_hash rs = map ar_entry_hash rs'
     \<and> map ar_rowid rs = map ar_rowid rs'"
proof (induction rs arbitrary: rs' rule: rev_induct)
  case Nil
  then show ?case by simp
next
  case (snoc r rs)
  then obtain us u where rs': "rs' = us @ [u]" by (cases rs' rule: rev_cases) auto
  have len: "length rs = length us" using snoc.prems(3) rs' by simp
  have v: "verify_chain_from n h rs" "verify_chain_from n h us"
    "ar_previous_entry r = chain_tip h rs" "ar_previous_entry u = chain_tip h us"
    "deterministic_hash (row_hashable r) = ar_entry_hash r" "deterministic_hash (row_hashable u) = ar_entry_hash u"
    "ar_rowid r = n + int (length rs) + 1" "ar_rowid u = n + int (length us) + 1"
    using snoc.prems(1,2) rs' by (auto simp: verify_chain_append split: if_splits)
  have hash: "ar_entry_hash r = ar_entry_hash u"
    using snoc.prems(4) rs' by (simp add: chain_tip_def)
  have row: "row_hashable r = row_hashable u"
    using snoc.prems(5) [of "length rs"] rs' len v hash by (simp add: nth_append)
  then have "chain_tip h rs = chain_tip h us" using v(3,4) by (simp add: row_hashable_def)
  moreover have "row_hashable (rs ! i) = row_hashable (us ! i)"
    if "i < length rs" "deterministic_hash (row_hashable (rs ! i)) = deterministic_hash (row_hashable (us ! i))" for i
    using snoc.prems(5) [of i] that rs' len by (simp add: nth_append)
  ultimately show ?case using snoc.IH [OF v(1,2) len] row hash v(7,8) rs' len by simp
qed

text \<open>What a row's digest is computed over determines its audited content, up to a collision of SHA-256.\<close>

definition audit_bytes :: "audit_row \<Rightarrow> char list" where
  "audit_bytes r = utf8_encode (json_dumps fmt_default (row_hashable r))"

lemma row_hashable_unique:
  assumes "deterministic_hash (row_hashable r) = deterministic_hash (row_hashable r')"
  shows "row_hashable r = row_hashable r' \<or> sha256_collision (audit_bytes r) (audit_bytes r')"
proof -
  have "row_hashable r = row_hashable r'" if same: "json_canon (row_hashable r) = json_canon (row_hashable r')"
  proof -
    have flat: "json_canon v = v" if "v \<in> range JStr \<union> JList ` range (map JStr)" for v
      using that by auto
    obtain kvs kvs' where rows: "row_hashable r = JObj kvs" "row_hashable r' = JObj kvs'" "map fst kvs = map fst kvs'"
      "distinct (map fst kvs)" "snd ` (set kvs \<union> set kvs') \<subseteq> range JStr \<union> JList ` range (map JStr)"
      by (simp add: row_hashable_def)
    show ?thesis
      using json_canon_record [OF same [unfolded rows(1,2)] rows(3,4)] flat rows(1,2,5) by force
  qed
  then show ?thesis
    using assms json_sha256_inj [of fmt_default "row_hashable r" "row_hashable r'"]
    unfolding deterministic_hash_def audit_bytes_def by auto
qed

text \<open>
  The chain is tamper evident: if two audit logs of the same length both verify and end in the
  same entry hash, then either all their rows carry the same audited content, hashes and row ids, or
  two rows at the same position exhibit a collision of SHA-256: two different byte strings, the UTF-8
  texts the hashes are computed over, with one digest.  The canonical text adds no ambiguity of its own.
\<close>

lemma audit_log_tamper_evident:
  assumes "verify_audit_chain db" and "verify_audit_chain db'"
    and "length (audit_logs db) = length (audit_logs db')"
    and "chain_tip genesis_hash (audit_logs db) = chain_tip genesis_hash (audit_logs db')"
  shows "(map row_hashable (audit_logs db) = map row_hashable (audit_logs db')
      \<and> map ar_entry_hash (audit_logs db) = map ar_entry_hash (audit_logs db')
      \<and> map ar_rowid (audit_logs db) = map ar_rowid (audit_logs db'))
    \<or> (\<exists>r r'. (r, r') \<in> set (zip (audit_logs db) (audit_logs db')) \<and> sha256_collision (audit_bytes r) (audit_bytes r'))"
proof (rule disjCI)
  assume "\<not> (\<exists>r r'. (r, r') \<in> set (zip (audit_logs db) (audit_logs db')) \<and> sha256_collision (audit_bytes r) (audit_bytes r'))"
  then have "row_hashable (audit_logs db ! i) = row_hashable (audit_logs db' ! i)"
    if "i < length (audit_logs db)"
      "deterministic_hash (row_hashable (audit_logs db ! i)) = deterministic_hash (row_hashable (audit_logs db' ! i))" for i
    using that assms(3) row_hashable_unique by (metis in_set_zip fst_conv snd_conv)
  then show "map row_hashable (audit_logs db) = map row_hashable (audit_logs db')
      \<and> map ar_entry_hash (audit_logs db) = map ar_entry_hash (audit_logs db')
      \<and> map ar_rowid (audit_logs db) = map ar_rowid (audit_logs db')"
    using verify_chain_unique [of 0 genesis_hash "audit_logs db" "audit_logs db'"] assms
    by (simp add: verify_audit_chain_def)
qed

section \<open>Limits of the chain\<close>

lemma AuditEntry_init_id:
  assumes "AuditEntry_init actor action object_id object_type before after chain previous tags None clock = Inr e"
  shows "bo_id e = uuid_str (uuid5_dns (audit_entry_seed actor action object_id object_type))"
  using assms
  by (auto simp: AuditEntry_init_def generate_id_def BaseObject_init_def audit_entry_seed_def
      split: sum.splits prod.splits if_splits)

lemma AuditEntry_init_ok:
  "\<exists>e. AuditEntry_init actor action object_id object_type before after chain previous tags i clock = Inr e
    \<and> bo_ontology_tags e = tags \<and> (\<forall>j. i = Some j \<longrightarrow> bo_id e = j) \<and> bo_lifecycle e \<noteq> []"
  by (auto simp: AuditEntry_init_def generate_id_def BaseObject_init_def audit_entry_seed_def
      lifecycle_transition_def current_stage_def Lifecycle_init_def split: option.splits)

lemma AuditEntry_to_dict_ok:
  "bo_lifecycle e \<noteq> [] \<Longrightarrow> \<exists>d. AuditEntry_to_dict e = Inr d \<and> dget d ''object_type'' = Some (JStr ''AuditEntry'')
    \<and> dget d ''created_at'' = Some (JStr (bo_created_at e))"
  by (auto simp: AuditEntry_to_dict_def BaseObject_to_dict_def Lifecycle_to_dict_def current_stage_def)

lemma save_audit_entry_Inr: "save_audit_entry e now db = (Inr u, db') \<Longrightarrow> bo_id e \<in> set (map ar_id (audit_logs db'))"
  using save_audit_entry_logs [of e now db] by auto

lemma save_audit_entry_ok:
  assumes "bo_lifecycle e \<noteq> []" and "bo_id e \<notin> set (map ar_id (audit_logs db))"
  shows "fst (save_audit_entry e now db) = Inr ()"
  using assms AuditEntry_to_dict_ok [OF assms(1)]
  by (auto simp: save_audit_entry_def Let_def save_object_text)

text \<open>
  The default identity of an audit entry is derived from the actor, the action and the object
  only.  Once an entry has been saved, a later entry of the same actor for the same action on the same
  object, whatever its states, chain or tags, is refused with an integrity error and leaves no record,
  after any further calls.
\<close>

lemma audit_repeat_refused:
  assumes "AuditEntry_init actor action object_id object_type before after chain previous tags None clock = Inr e"
    and "save_audit_entry e now db0 = (Inr u, db1)" and "db_step\<^sup>*\<^sup>* db1 db"
    and "AuditEntry_init actor action object_id object_type before' after' chain' previous' tags' None clock' = Inr e'"
  shows "save_audit_entry e' now' db = (Inl (IntegrityError ''UNIQUE constraint failed: audit_logs.id''), db)"
proof -
  have prefix: "\<exists>more. audit_logs db = audit_logs db1 @ more"
    using assms(3)
  proof (induction rule: rtranclp_induct)
    case (step y z)
    then obtain more where "audit_logs y = audit_logs db1 @ more" by blast
    with step(2) show ?case
      by (auto elim!: db_step.cases simp: save_audit_entry_logs delete_object_def db_delete_def)
  qed simp
  moreover have "bo_id e \<in> set (map ar_id (audit_logs db1))"
    using assms(2) by (rule save_audit_entry_Inr)
  ultimately have "bo_id e' \<in> set (map ar_id (audit_logs db))"
    using AuditEntry_init_id [OF assms(1)] AuditEntry_init_id [OF assms(4)] by auto
  then show ?thesis by (simp add: save_audit_entry_def)
qed

text \<open>Deleting the most recent rows leaves a log that verifies: only gaps before the end are seen.\<close>

lemma audit_truncation_undetected:
  "verify_audit_chain db \<Longrightarrow> verify_audit_chain (db\<lparr>audit_logs := take n (audit_logs db)\<rparr>)"
  using verify_chain_append [of 0 genesis_hash "take n (audit_logs db)" "drop n (audit_logs db)"]
  by (simp add: verify_audit_chain_def)

text \<open>The id column is not part of the hashed content.\<close>

lemma audit_id_not_covered:
  "verify_audit_chain (db\<lparr>audit_logs := map (\<lambda>r. r\<lparr>ar_id := f r\<rparr>) (audit_logs db)\<rparr>) = verify_audit_chain db"
proof -
  have "verify_chain_from n h (map (\<lambda>r. r\<lparr>ar_id := f r\<rparr>) rs) = verify_chain_from n h rs" for n h rs
    by (induction n h rs rule: verify_chain_from.induct) (auto simp: row_hashable_def)
  then show ?thesis by (simp add: verify_audit_chain_def)
qed

text \<open>Entries read back from the log have lost their ontology tags.\<close>

lemma load_audit_entries_drops_tags:
  "\<exists>es. load_audit_entries clocks db = Inr es \<and> length es = length (audit_logs db)
    \<and> (\<forall>e \<in> set es. bo_ontology_tags e = [])"
proof -
  have "\<exists>e. load_audit_row clock r = Inr e \<and> bo_ontology_tags e = []" for clock r
  proof -
    obtain e where "AuditEntry_init (ar_actor r) (ar_action r) (ar_object_id r) (ar_object_type r)
        (Some (ar_before_state r)) (Some (ar_after_state r)) (Some (or_empty (ar_reasoning_chain_id r)))
        (Some (ar_previous_entry r)) [] (Some (ar_id r)) clock = Inr e" "bo_ontology_tags e = []"
      using AuditEntry_init_ok by blast
    then show ?thesis by (simp add: load_audit_row_def)
  qed
  then have "\<exists>e. r = Inr e \<and> bo_ontology_tags e = []"
    if "r \<in> set (map (\<lambda>(n, r). load_audit_row (clocks n) r) (List.enumerate 0 (audit_logs db)))" for r
    using that by auto
  then show ?thesis
    unfolding load_audit_entries_def
    using sequence_results_ok [of "map (\<lambda>(n, r). load_audit_row (clocks n) r) (List.enumerate 0 (audit_logs db))"
        "\<lambda>e. bo_ontology_tags e = []"] by (metis length_map length_enumerate)
qed

section \<open>Witnesses\<close>

definition example_entry :: "string \<Rightarrow> AuditEntry" where
  "example_entry after = projr (AuditEntry_init ''analyst'' ''update'' ''obj-1'' ''Hypothesis'' None
     (Some after) None None [''gold''] None (\<lambda>n. ''2026-01-01T00:00:00+00:00''))"

definition example_db :: research_db where
  "example_db = snd (save_audit_entry (example_entry ''v1'') ''now'' empty_db)"

lemma example_entry_init:
  "AuditEntry_init ''analyst'' ''update'' ''obj-1'' ''Hypothesis'' None (Some after) None None [''gold''] None
    (\<lambda>n. ''2026-01-01T00:00:00+00:00'') = Inr (example_entry after)"
  using AuditEntry_init_ok [of "''analyst''" "''update''" "''obj-1''" "''Hypothesis''" None "Some after" None None
      "[''gold'']" None "\<lambda>n. ''2026-01-01T00:00:00+00:00''"]
  by (auto simp: example_entry_def)

lemma example_save: "save_audit_entry (example_entry ''v1'') ''now'' empty_db = (Inr (), example_db)"
proof -
  have "bo_lifecycle (example_entry ''v1'') \<noteq> []"
    using AuditEntry_init_ok [of "''analyst''" "''update''" "''obj-1''" "''Hypothesis''" None "Some ''v1''" None None
      "[''gold'']" None "\<lambda>n. ''2026-01-01T00:00:00+00:00''"] by (auto simp: example_entry_init)
  then show ?thesis
    using save_audit_entry_ok [of "example_entry ''v1''" empty_db "''now''"]
    by (simp add: example_db_def empty_db_def prod_eq_iff)
qed

lemma example_step: "db_step empty_db example_db"
  by (auto simp: example_db_def intro: step_audit)

theorem audit_chain_verifies_witness:
  "verify_audit_chain example_db \<and> detect_tampering example_db = [] \<and> distinct (map ar_id (audit_logs example_db))
    \<and> (\<exists>more. audit_logs (delete_object ''x'' example_db) = audit_logs example_db @ more)"
  by (rule audit_chain_verifies [of empty_db])
    (auto simp: empty_db_def intro: example_step [unfolded empty_db_def] step_delete)

end
