(* ===== verification/Evidence_Store.thy ===== *)
theory Evidence_Store
  imports Research_DB
begin

text \<open>
  Evidence artifacts: the immutable envelope with its content and lineage hashes
  (\<open>researchos/evidence/envelope.py\<close>) and the append-only repository of envelopes and lineage edges
  (\<open>researchos/evidence/repository.py\<close>) on top of the shared database.

  Payloads are JSON values without floats, so the type check of \<open>_validate_payload\<close> has nothing left to
  reject.  The JSON text columns hold the decoded values.
\<close>

section \<open>Envelopes\<close>

definition ARTIFACT_TYPES :: "string list" where
  "ARTIFACT_TYPES = [''Dataset'', ''Feature'', ''QuoteSnapshot'', ''Experiment'', ''Run'', ''Result'',
     ''Validation'', ''Finding'', ''Model'']"

definition LINEAGE_RELATIONS :: "string list" where
  "LINEAGE_RELATIONS = [''feeds'', ''executes'', ''produces'', ''validates'', ''derives'', ''trains'',
     ''contradicts'', ''replicates'']"

definition HASH_SCHEME_VERSION :: string where
  "HASH_SCHEME_VERSION = ''2''"

definition compute_artifact_hash :: "string \<Rightarrow> string \<Rightarrow> json \<Rightarrow> string" where
  "compute_artifact_hash artifact_type version payload =
     json_sha256 fmt_default (JObj [(''scheme'', JStr HASH_SCHEME_VERSION),
       (''artifact_type'', JStr artifact_type), (''version'', JStr version), (''payload'', payload)])"

definition compute_lineage_hash :: "string \<Rightarrow> string \<Rightarrow> json \<Rightarrow> string list \<Rightarrow> string" where
  "compute_lineage_hash artifact_type version payload parent_hashes =
     json_sha256 fmt_default (JObj [(''scheme'', JStr HASH_SCHEME_VERSION),
       (''artifact_type'', JStr artifact_type), (''version'', JStr version), (''payload'', payload),
       (''parent_hashes'', JList (map JStr (sort parent_hashes)))])"

record EvidenceEnvelope =
  ev_type :: string
  ev_hash :: string
  ev_payload :: json
  ev_version :: string
  ev_created_at :: string
  ev_parents :: "string list"
  ev_lineage_hash :: string

text \<open>The error text for a name outside a tuple of names.\<close>

definition unknown_name :: "string \<Rightarrow> string \<Rightarrow> string list \<Rightarrow> exn" where
  "unknown_name what name allowed =
     ValueError (''Unknown '' @ what @ '' '' @ [CHR 0x27] @ name @ [CHR 0x27] @ ''. Expected one of (''
       @ join_with '', '' (map py_repr_string allowed) @ '').'')"

definition EvidenceEnvelope_init :: "EvidenceEnvelope \<Rightarrow> EvidenceEnvelope result" where
  "EvidenceEnvelope_init e =
     (if ev_type e \<notin> set ARTIFACT_TYPES then Inl (unknown_name ''artifact_type'' (ev_type e) ARTIFACT_TYPES)
      else if ev_hash e = [] then Inl (ValueError ''artifact_hash is required'')
      else Inr (e\<lparr>ev_parents := sort (ev_parents e)\<rparr>))"

definition envelope_to_dict :: "EvidenceEnvelope \<Rightarrow> (string \<times> json) list" where
  "envelope_to_dict e =
     [(''artifact_type'', JStr (ev_type e)), (''artifact_hash'', JStr (ev_hash e)),
      (''version'', JStr (ev_version e)), (''created_at'', JStr (ev_created_at e)),
      (''payload'', ev_payload e), (''parent_hashes'', JList (map JStr (ev_parents e))),
      (''lineage_hash'', JStr (ev_lineage_hash e))]"

definition verify :: "EvidenceEnvelope \<Rightarrow> bool" where
  "verify e =
     (if ev_lineage_hash e = [] then True
      else ev_lineage_hash e = compute_lineage_hash (ev_type e) (ev_version e) (ev_payload e) (ev_parents e))"

definition legacy_verify :: "EvidenceEnvelope \<Rightarrow> bool" where
  "legacy_verify e =
     (if ev_lineage_hash e = [] then True
      else ev_lineage_hash e = json_sha256 fmt_default
        (JObj [(''payload'', ev_payload e), (''parent_hashes'', JList (map JStr (sort (ev_parents e))))]))"

definition build_envelope ::
  "string \<Rightarrow> json \<Rightarrow> string \<Rightarrow> string \<Rightarrow> string list option \<Rightarrow> string option \<Rightarrow> EvidenceEnvelope result" where
  "build_envelope artifact_type payload version created_at parent_hashes artifact_hash =
     (let h = (case artifact_hash of None \<Rightarrow> compute_artifact_hash artifact_type version payload | Some h \<Rightarrow> h);
          parents = (case parent_hashes of None \<Rightarrow> [] | Some ps \<Rightarrow> ps)
      in EvidenceEnvelope_init \<lparr>ev_type = artifact_type, ev_hash = h, ev_payload = payload,
           ev_version = version, ev_created_at = created_at, ev_parents = parents,
           ev_lineage_hash = compute_lineage_hash artifact_type version payload parents\<rparr>)"

text \<open>What the constructor guarantees of every envelope object.\<close>

definition wf_envelope :: "EvidenceEnvelope \<Rightarrow> bool" where
  "wf_envelope e \<longleftrightarrow> ev_type e \<in> set ARTIFACT_TYPES \<and> ev_hash e \<noteq> [] \<and> sorted (ev_parents e)"

lemma EvidenceEnvelope_init_Inr: "EvidenceEnvelope_init e = Inr e' \<Longrightarrow> wf_envelope e'"
  by (auto simp: EvidenceEnvelope_init_def wf_envelope_def split: if_splits)

lemma EvidenceEnvelope_init_wf [simp]: "wf_envelope e \<Longrightarrow> EvidenceEnvelope_init e = Inr e"
  by (simp add: EvidenceEnvelope_init_def wf_envelope_def sorted_sort_id)

text \<open>Both hashes of an envelope are those of its content.\<close>

definition content_addressed :: "EvidenceEnvelope \<Rightarrow> bool" where
  "content_addressed e \<longleftrightarrow> ev_hash e = compute_artifact_hash (ev_type e) (ev_version e) (ev_payload e)
     \<and> ev_lineage_hash e = compute_lineage_hash (ev_type e) (ev_version e) (ev_payload e) (ev_parents e)"

lemma lineage_hash_sort [simp]:
  "compute_lineage_hash t v p (sort ps) = compute_lineage_hash t v p ps"
  by (simp add: compute_lineage_hash_def)

lemma build_envelope_content:
  assumes "build_envelope t p v c ps h = Inr e"
  shows "wf_envelope e \<and> verify e \<and> ev_lineage_hash e \<noteq> [] \<and> (h = None \<longrightarrow> content_addressed e)"
proof -
  have "wf_envelope e" using assms by (auto simp: build_envelope_def Let_def dest: EvidenceEnvelope_init_Inr)
  then show ?thesis using assms
    by (auto simp: build_envelope_def EvidenceEnvelope_init_def Let_def verify_def content_addressed_def
        compute_lineage_hash_def json_sha256_def split: if_splits)
qed

lemma build_envelope_fields:
  assumes "build_envelope t p v c ps h = Inr e"
  shows "ev_type e = t" "ev_payload e = p" "ev_version e = v" "ev_created_at e = c"
    "ev_parents e = sort (case ps of None \<Rightarrow> [] | Some ps \<Rightarrow> ps)"
    "ev_hash e = (case h of None \<Rightarrow> compute_artifact_hash t v p | Some h \<Rightarrow> h)"
  using assms by (auto simp: build_envelope_def EvidenceEnvelope_init_def Let_def split: if_splits)

lemma content_addressed_verify: "content_addressed e \<Longrightarrow> verify e"
  by (simp add: content_addressed_def verify_def)

section \<open>The repository\<close>

record lineage_row =
  le_parent :: string
  le_child :: string
  le_relation :: string
  le_created_at :: string

record evidence_db = research_db +
  evidence :: "EvidenceEnvelope list"
  lineage :: "lineage_row list"

definition default_relation :: "string \<Rightarrow> string" where
  "default_relation artifact_type =
     (case dget [(''Feature'', ''feeds''), (''Experiment'', ''feeds''), (''Run'', ''executes''),
        (''Result'', ''produces''), (''Validation'', ''validates''), (''Finding'', ''derives''),
        (''Model'', ''trains''), (''Dataset'', ''feeds'')] artifact_type of
        Some r \<Rightarrow> r | None \<Rightarrow> ''feeds'')"

text \<open>\<open>SELECT ... FROM evidence WHERE artifact_hash = ?\<close> on the primary key.\<close>

definition find_evidence :: "string \<Rightarrow> 'a evidence_db_scheme \<Rightarrow> EvidenceEnvelope option" where
  "find_evidence h db = find (\<lambda>e. ev_hash e = h) (evidence db)"

definition insert_edge :: "string \<Rightarrow> string \<Rightarrow> string \<Rightarrow> string \<Rightarrow> lineage_row list \<Rightarrow> lineage_row list" where
  "insert_edge parent child relation now ls =
     (if list_ex (\<lambda>l. le_parent l = parent \<and> le_child l = child \<and> le_relation l = relation) ls then ls
      else ls @ [\<lparr>le_parent = parent, le_child = child, le_relation = relation, le_created_at = now\<rparr>])"

definition insert_evidence_mirror ::
  "EvidenceEnvelope \<Rightarrow> 'a evidence_db_scheme \<Rightarrow> (unit, 'a evidence_db_scheme) outcome" where
  "insert_evidence_mirror e db =
     (let data = envelope_to_dict e @ [(''object_type'', JStr ''EvidenceEnvelope'')] in
      case dget (objects db) (ev_hash e) of
        Some r \<Rightarrow>
          if or_type r \<noteq> ''EvidenceEnvelope'' \<or> \<not> json_eq (JObj (or_data r)) (JObj data)
          then (Inl (ValueError (''Object id '' @ ev_hash e @ '' already exists with conflicting content'')), db)
          else (Inr (), db)
      | None \<Rightarrow> (Inr (), db\<lparr>objects := objects db @
          [(ev_hash e, \<lparr>or_type = ''EvidenceEnvelope'', or_created_at = ev_created_at e, or_data = data\<rparr>)]\<rparr>))"

text \<open>The parents an envelope declares without being stored.\<close>

definition missing_parents :: "EvidenceEnvelope \<Rightarrow> 'a evidence_db_scheme \<Rightarrow> string list" where
  "missing_parents e db = filter (\<lambda>p. find_evidence p db = None) (ev_parents e)"

definition append_artifact ::
  "EvidenceEnvelope \<Rightarrow> string \<Rightarrow> 'a evidence_db_scheme \<Rightarrow> (EvidenceEnvelope, 'a evidence_db_scheme) outcome" where
  "append_artifact e now db =
     (if \<not> verify e
      then (Inl (ValueError (''EvidenceEnvelope lineage_hash mismatch for artifact '' @ ev_hash e)), db)
      else case find_evidence (ev_hash e) db of
        Some x \<Rightarrow>
          if ev_type x \<noteq> ev_type e \<or> ev_version x \<noteq> ev_version e \<or> \<not> json_eq (ev_payload x) (ev_payload e)
             \<or> ev_parents x \<noteq> ev_parents e \<or> ev_lineage_hash x \<noteq> ev_lineage_hash e
          then (Inl (ValueError (''Evidence artifact '' @ ev_hash e @ '' is immutable and cannot be overwritten'')), db)
          else (EvidenceEnvelope_init (x\<lparr>ev_hash := ev_hash e\<rparr>), db)
      | None \<Rightarrow>
          (case missing_parents e db of
             p # _ \<Rightarrow> (Inl (ValueError (''Cannot append artifact '' @ ev_hash e @ '': parent evidence '' @ p
               @ '' does not exist'')), db)
           | [] \<Rightarrow>
               (case insert_evidence_mirror e (db\<lparr>evidence := evidence db @ [e]\<rparr>) of
                  (Inl err, _) \<Rightarrow> (Inl err, db)
                | (Inr _, db') \<Rightarrow>
                    (Inr e, db'\<lparr>lineage := fold (\<lambda>p. insert_edge p (ev_hash e) (default_relation (ev_type e)) now)
                       (ev_parents e) (lineage db')\<rparr>))))"

definition add_lineage_edge ::
  "string \<Rightarrow> string \<Rightarrow> string \<Rightarrow> string \<Rightarrow> 'a evidence_db_scheme \<Rightarrow> (unit, 'a evidence_db_scheme) outcome" where
  "add_lineage_edge parent child relation now db =
     (if relation \<notin> set LINEAGE_RELATIONS
      then (Inl (unknown_name ''lineage relation'' relation LINEAGE_RELATIONS), db)
      else if find_evidence parent db = None
      then (Inl (ValueError (''Cannot add lineage edge: parent evidence '' @ parent @ '' does not exist'')), db)
      else if find_evidence child db = None
      then (Inl (ValueError (''Cannot add lineage edge: child evidence '' @ child @ '' does not exist'')), db)
      else (Inr (), db\<lparr>lineage := insert_edge parent child relation now (lineage db)\<rparr>))"

definition get_artifact :: "string \<Rightarrow> 'a evidence_db_scheme \<Rightarrow> EvidenceEnvelope option result" where
  "get_artifact h db =
     (case find_evidence h db of None \<Rightarrow> Inr None | Some x \<Rightarrow> map_sum id Some (EvidenceEnvelope_init x))"

definition get_children :: "string \<Rightarrow> 'a evidence_db_scheme \<Rightarrow> string list" where
  "get_children h db = sort (remdups (map le_child (filter (\<lambda>l. le_parent l = h) (lineage db))))"

definition get_parents :: "string \<Rightarrow> 'a evidence_db_scheme \<Rightarrow> string list" where
  "get_parents h db = sort (remdups (map le_parent (filter (\<lambda>l. le_child l = h) (lineage db))))"

definition allowed_relations :: "EvidenceEnvelope \<Rightarrow> string list" where
  "allowed_relations x = [default_relation (ev_type x), ''contradicts'', ''replicates'']"

definition row_verified :: "string list \<Rightarrow> EvidenceEnvelope \<Rightarrow> bool" where
  "row_verified evidence_hashes x \<longleftrightarrow>
     compute_artifact_hash (ev_type x) (ev_version x) (ev_payload x) = ev_hash x
     \<and> compute_lineage_hash (ev_type x) (ev_version x) (ev_payload x) (ev_parents x) = ev_lineage_hash x
     \<and> list_all (\<lambda>p. p \<in> set evidence_hashes) (ev_parents x)"

definition edge_verified :: "EvidenceEnvelope list \<Rightarrow> lineage_row \<Rightarrow> bool" where
  "edge_verified rows l \<longleftrightarrow>
     le_parent l \<in> set (map ev_hash rows) \<and> le_child l \<in> set (map ev_hash rows)
     \<and> le_relation l \<in> set LINEAGE_RELATIONS
     \<and> (case find (\<lambda>x. ev_hash x = le_child l) rows of
          None \<Rightarrow> False
        | Some child \<Rightarrow> le_parent l \<in> set (ev_parents child) \<and> le_relation l \<in> set (allowed_relations child))"

definition parents_linked :: "lineage_row list \<Rightarrow> EvidenceEnvelope \<Rightarrow> bool" where
  "parents_linked edges x \<longleftrightarrow>
     list_all (\<lambda>p. list_ex (\<lambda>r. list_ex (\<lambda>l. le_parent l = p \<and> le_child l = ev_hash x \<and> le_relation l = r) edges)
       (allowed_relations x)) (ev_parents x)"

text \<open>
  \<open>verify_evidence\<close>: the row checks, the edge checks (which the code makes twice, the second time
  against a dictionary of the rows by hash) and the completeness of the edges.
\<close>

definition verify_evidence :: "'a evidence_db_scheme \<Rightarrow> bool" where
  "verify_evidence db \<longleftrightarrow>
     list_all (row_verified (map ev_hash (evidence db))) (evidence db)
     \<and> list_all (edge_verified (evidence db)) (lineage db)
     \<and> list_all (\<lambda>l. case map_of (rev (map (\<lambda>x. (ev_hash x, x)) (evidence db))) (le_child l) of
            None \<Rightarrow> False
          | Some child \<Rightarrow> le_parent l \<in> set (ev_parents child) \<and> le_relation l \<in> set (allowed_relations child))
         (lineage db)
     \<and> list_all (parents_linked (lineage db)) (evidence db)"

definition count_artifacts :: "'a evidence_db_scheme \<Rightarrow> int" where
  "count_artifacts db = int (length (evidence db))"

definition count_edges :: "'a evidence_db_scheme \<Rightarrow> int" where
  "count_edges db = int (length (lineage db))"

section \<open>What the operations do\<close>

abbreviation hashes :: "'a evidence_db_scheme \<Rightarrow> string list" where
  "hashes db \<equiv> map ev_hash (evidence db)"

lemma find_evidence_None: "find_evidence h db = None \<longleftrightarrow> h \<notin> set (hashes db)"
  by (auto simp: find_evidence_def find_None_iff)

lemma find_evidence_Some: "find_evidence h db = Some x \<Longrightarrow> x \<in> set (evidence db) \<and> ev_hash x = h"
  by (auto simp: find_evidence_def find_Some_iff)

lemma find_unique:
  "distinct (map ev_hash xs) \<Longrightarrow> x \<in> set xs \<Longrightarrow> find (\<lambda>y. ev_hash y = ev_hash x) xs = Some x"
  by (induction xs) auto

lemma find_evidence_iff:
  "distinct (hashes db) \<Longrightarrow> find_evidence h db = Some x \<longleftrightarrow> x \<in> set (evidence db) \<and> ev_hash x = h"
  using find_evidence_Some [of h db x] find_unique [of "evidence db" x] by (auto simp: find_evidence_def)

lemma map_of_rev_hashes:
  "distinct (map ev_hash xs) \<Longrightarrow> map_of (rev (map (\<lambda>x. (ev_hash x, x)) xs)) h = find (\<lambda>x. ev_hash x = h) xs"
proof (induction xs)
  case (Cons x xs)
  have "find (\<lambda>y. ev_hash y = ev_hash x) xs = None" using Cons.prems by (auto simp: find_None_iff) (metis image_eqI)
  with Cons show ?case by (auto simp: map_add_def split: option.splits)
qed simp

lemma insert_edge_set:
  "set (insert_edge p c r now ls) \<subseteq> set ls \<union> {\<lparr>le_parent = p, le_child = c, le_relation = r, le_created_at = now\<rparr>}"
  by (auto simp: insert_edge_def)

lemma insert_edge_prefix: "\<exists>more. insert_edge p c r now ls = ls @ more"
  by (auto simp: insert_edge_def)

lemma insert_edge_present:
  "\<exists>l \<in> set (insert_edge p c r now ls). le_parent l = p \<and> le_child l = c \<and> le_relation l = r"
  by (auto simp: insert_edge_def list_ex_iff)

text \<open>The edges written for the parents of one artifact.\<close>

definition parent_edges :: "EvidenceEnvelope \<Rightarrow> string \<Rightarrow> lineage_row list \<Rightarrow> lineage_row list" where
  "parent_edges e now ls =
     fold (\<lambda>p. insert_edge p (ev_hash e) (default_relation (ev_type e)) now) (ev_parents e) ls"

lemma fold_insert_edge:
  "(\<exists>more. fold (\<lambda>p. insert_edge p c r now) ps ls = ls @ more
     \<and> (\<forall>l \<in> set more. le_parent l \<in> set ps \<and> le_child l = c \<and> le_relation l = r))
   \<and> (\<forall>p \<in> set ps. \<exists>l \<in> set (fold (\<lambda>p. insert_edge p c r now) ps ls). le_parent l = p \<and> le_child l = c \<and> le_relation l = r)"
proof (induction ps arbitrary: ls)
  case (Cons p ps)
  let ?ls = "insert_edge p c r now ls"
  obtain m1 where m1: "?ls = ls @ m1" "\<forall>l \<in> set m1. le_parent l = p \<and> le_child l = c \<and> le_relation l = r"
    by (cases "list_ex (\<lambda>l. le_parent l = p \<and> le_child l = c \<and> le_relation l = r) ls")
      (auto simp: insert_edge_def)
  obtain m2 where m2: "fold (\<lambda>p. insert_edge p c r now) ps ?ls = ?ls @ m2"
    "\<forall>l \<in> set m2. le_parent l \<in> set ps \<and> le_child l = c \<and> le_relation l = r"
    using Cons.IH by blast
  moreover have "\<exists>l \<in> set (fold (\<lambda>p. insert_edge p c r now) ps ?ls). le_parent l = p \<and> le_child l = c \<and> le_relation l = r"
    unfolding m2(1) using insert_edge_present [of p c r now ls] by auto
  moreover have "fold (\<lambda>p. insert_edge p c r now) (p # ps) ls = ls @ (m1 @ m2)" using m1 m2 by simp
  ultimately show ?case using Cons.IH [of ?ls] m1(2) by fastforce
qed simp

lemma insert_evidence_mirror_frame:
  "insert_evidence_mirror e db = (r, db') \<Longrightarrow> evidence db' = evidence db \<and> lineage db' = lineage db
    \<and> audit_logs db' = audit_logs db"
  by (auto simp: insert_evidence_mirror_def Let_def split: option.splits if_splits)

text \<open>The three outcomes of \<open>append_artifact\<close>: refused, already stored, stored now.\<close>

lemma append_artifact_cases:
  obtains (refused) err where "append_artifact e now db = (Inl err, db)"
  | (known) x where "append_artifact e now db = (Inr (x\<lparr>ev_parents := sort (ev_parents x)\<rparr>), db)"
      "find_evidence (ev_hash e) db = Some x" "verify e" "ev_type x = ev_type e" "ev_version x = ev_version e"
      "json_eq (ev_payload x) (ev_payload e)" "ev_parents x = ev_parents e" "ev_lineage_hash x = ev_lineage_hash e"
  | (stored) db' where "append_artifact e now db = (Inr e, db')" "verify e"
      "find_evidence (ev_hash e) db = None" "set (ev_parents e) \<subseteq> set (hashes db)"
      "evidence db' = evidence db @ [e]" "lineage db' = parent_edges e now (lineage db)"
      "audit_logs db' = audit_logs db"
proof (cases "verify e")
  case False
  then show ?thesis by (intro refused) (simp add: append_artifact_def)
next
  case True
  show ?thesis
  proof (cases "find_evidence (ev_hash e) db")
    case (Some x)
    then have "ev_hash x = ev_hash e" by (auto dest: find_evidence_Some)
    then have x: "x\<lparr>ev_hash := ev_hash e\<rparr> = x" by simp
    show ?thesis
    proof (cases "append_artifact e now db")
      case (Pair r t)
      with Some True x show ?thesis
        using refused known [of x]
        by (cases r) (auto simp: append_artifact_def EvidenceEnvelope_init_def split: if_splits)
    qed
  next
    case None
    show ?thesis
    proof (cases "missing_parents e db")
      case (Cons p ps)
      with None True show ?thesis by (intro refused) (simp add: append_artifact_def)
    next
      case Nil
      then have parents: "set (ev_parents e) \<subseteq> set (hashes db)"
        by (auto simp: missing_parents_def filter_empty_conv find_evidence_None)
      obtain r db1 where mirror: "insert_evidence_mirror e (db\<lparr>evidence := evidence db @ [e]\<rparr>) = (r, db1)"
        by (cases "insert_evidence_mirror e (db\<lparr>evidence := evidence db @ [e]\<rparr>)")
      show ?thesis
      proof (cases r)
        case (Inl err)
        with None True Nil mirror show ?thesis by (intro refused) (simp add: append_artifact_def)
      next
        case (Inr u)
        with None True Nil mirror parents insert_evidence_mirror_frame [OF mirror] show ?thesis
          by (intro stored [of "db1\<lparr>lineage := parent_edges e now (lineage db)\<rparr>"])
            (simp_all add: append_artifact_def parent_edges_def)
      qed
    qed
  qed
qed

section \<open>Invariants\<close>

inductive ev_step :: "'a evidence_db_scheme \<Rightarrow> 'a evidence_db_scheme \<Rightarrow> bool" where
  ev_append: "wf_envelope e \<Longrightarrow> ev_step db (snd (append_artifact e now db))"
| ev_edge: "ev_step db (snd (add_lineage_edge parent child relation now db))"
| ev_other: "db_step db db' \<Longrightarrow> ev_step db db'"

definition empty_evidence :: "'a evidence_db_scheme \<Rightarrow> bool" where
  "empty_evidence db \<longleftrightarrow> evidence db = [] \<and> lineage db = []"

definition row_ok :: "EvidenceEnvelope list \<Rightarrow> lineage_row list \<Rightarrow> EvidenceEnvelope \<Rightarrow> bool" where
  "row_ok rows edges x \<longleftrightarrow> wf_envelope x \<and> verify x \<and> set (ev_parents x) \<subseteq> set (map ev_hash rows)
     \<and> (\<forall>p \<in> set (ev_parents x). \<exists>l \<in> set edges. le_parent l = p \<and> le_child l = ev_hash x
           \<and> le_relation l = default_relation (ev_type x))"

definition edge_ok :: "EvidenceEnvelope list \<Rightarrow> lineage_row \<Rightarrow> bool" where
  "edge_ok rows l \<longleftrightarrow> le_parent l \<in> set (map ev_hash rows) \<and> le_child l \<in> set (map ev_hash rows)
     \<and> le_relation l \<in> set LINEAGE_RELATIONS"

definition evidence_ok :: "'a evidence_db_scheme \<Rightarrow> bool" where
  "evidence_ok db \<longleftrightarrow> distinct (hashes db)
     \<and> (\<forall>x \<in> set (evidence db). row_ok (evidence db) (lineage db) x)
     \<and> (\<forall>l \<in> set (lineage db). edge_ok (evidence db) l)"

definition evidence_extends :: "'a evidence_db_scheme \<Rightarrow> 'a evidence_db_scheme \<Rightarrow> bool" where
  "evidence_extends db db' \<longleftrightarrow> (\<exists>xs ls. evidence db' = evidence db @ xs \<and> lineage db' = lineage db @ ls)"

lemma parent_edge:
  assumes "evidence_ok db" "x \<in> set (evidence db)" "p \<in> set (ev_parents x)"
  obtains l where "l \<in> set (lineage db)" "le_parent l = p" "le_child l = ev_hash x"
proof -
  have "row_ok (evidence db) (lineage db) x" using assms(1,2) by (simp add: evidence_ok_def)
  then show ?thesis using assms(3) that by (auto simp: row_ok_def)
qed

lemma row_ok_mono: "row_ok rows edges x \<Longrightarrow> row_ok (rows @ rows') (edges @ edges') x"
  by (fastforce simp: row_ok_def)

lemma edge_ok_mono: "edge_ok rows l \<Longrightarrow> edge_ok (rows @ rows') l"
  by (auto simp: edge_ok_def)

lemma default_relation_known: "default_relation t \<in> set LINEAGE_RELATIONS"
  by (auto simp: default_relation_def LINEAGE_RELATIONS_def)

lemma db_step_evidence: "db_step db db' \<Longrightarrow> evidence db' = evidence db \<and> lineage db' = lineage db"
  by (elim db_step.cases)
    (auto simp: save_object_def delete_object_def db_delete_def save_audit_entry_def Let_def split: sum.splits if_splits)

lemma parent_edges_split:
  obtains more where "parent_edges e now ls = ls @ more"
    "\<forall>l \<in> set more. le_parent l \<in> set (ev_parents e) \<and> le_child l = ev_hash e \<and> le_relation l = default_relation (ev_type e)"
    "\<forall>p \<in> set (ev_parents e). \<exists>l \<in> set (ls @ more). le_parent l = p \<and> le_child l = ev_hash e \<and> le_relation l = default_relation (ev_type e)"
  using fold_insert_edge [of "ev_hash e" "default_relation (ev_type e)" now "ev_parents e" ls]
  unfolding parent_edges_def by (metis (no_types, lifting))

lemma append_ok:
  assumes "evidence_ok db" and "wf_envelope e"
  shows "evidence_ok (snd (append_artifact e now db)) \<and> evidence_extends db (snd (append_artifact e now db))"
proof (cases rule: append_artifact_cases [of e now db])
  case (stored db')
  obtain more where more: "parent_edges e now (lineage db) = lineage db @ more"
    "\<forall>l \<in> set more. le_parent l \<in> set (ev_parents e) \<and> le_child l = ev_hash e \<and> le_relation l = default_relation (ev_type e)"
    "\<forall>p \<in> set (ev_parents e). \<exists>l \<in> set (lineage db @ more). le_parent l = p \<and> le_child l = ev_hash e \<and> le_relation l = default_relation (ev_type e)"
    by (rule parent_edges_split)
  have "row_ok (evidence db @ [e]) (lineage db @ more) x" if "x \<in> set (evidence db)" for x
    using assms(1) that by (auto simp: evidence_ok_def intro: row_ok_mono)
  moreover have "row_ok (evidence db @ [e]) (lineage db @ more) e"
    using assms(2) stored(2,4) more(3) by (auto simp: row_ok_def)
  moreover have "edge_ok (evidence db @ [e]) l" if "l \<in> set (lineage db @ more)" for l
    using assms(1) that more(2) stored(4) default_relation_known
    by (auto simp: evidence_ok_def edge_ok_def)
  moreover have "distinct (map ev_hash (evidence db @ [e]))"
    using assms(1) stored(3) by (auto simp: evidence_ok_def find_evidence_None)
  ultimately show ?thesis
    using stored more(1) by (simp add: evidence_ok_def evidence_extends_def)
qed (use assms in \<open>simp_all add: evidence_extends_def\<close>)

lemma add_edge_ok:
  assumes "evidence_ok db"
  shows "evidence_ok (snd (add_lineage_edge p c r now db)) \<and> evidence_extends db (snd (add_lineage_edge p c r now db))"
proof -
  obtain more where "insert_edge p c r now (lineage db) = lineage db @ more"
    "\<forall>l \<in> set more. le_parent l = p \<and> le_child l = c \<and> le_relation l = r"
    using fold_insert_edge [of c r now "[p]" "lineage db"] by auto
  then show ?thesis
    using assms row_ok_mono [of "evidence db" "lineage db" _ "[]" more]
    by (auto simp: add_lineage_edge_def evidence_ok_def evidence_extends_def find_evidence_None edge_ok_def)
qed

lemma ev_step_ok: "evidence_ok db \<Longrightarrow> ev_step db db' \<Longrightarrow> evidence_ok db' \<and> evidence_extends db db'"
proof (elim ev_step.cases)
  fix a b
  assume "evidence_ok db" "db = a" "db' = b" "db_step a b"
  then show ?thesis using db_step_evidence [of a b] by (simp add: evidence_ok_def evidence_extends_def)
qed (simp_all add: append_ok add_edge_ok)

interpretation evidence_log: monotone_system empty_evidence ev_step evidence_ok evidence_extends
proof
  show "evidence_ok db" if "empty_evidence db" for db :: "'a evidence_db_scheme"
    using that by (simp add: empty_evidence_def evidence_ok_def)
next
  fix db db' :: "'a evidence_db_scheme"
  assume "evidence_ok db" "ev_step db db'"
  then show "evidence_ok db'" "evidence_extends db db'"
    using ev_step_ok [of db db'] by simp_all
next
  show "evidence_extends s t \<Longrightarrow> evidence_extends t u \<Longrightarrow> evidence_extends s u" for s t u :: "'a evidence_db_scheme"
    by (auto simp: evidence_extends_def)
qed (simp add: evidence_extends_def)

section \<open>Properties\<close>

lemma find_evidence_extends:
  "evidence_extends db db' \<Longrightarrow> find_evidence h db = Some x \<Longrightarrow> find_evidence h db' = Some x"
  by (auto simp: evidence_extends_def find_evidence_def find_Some_iff nth_append)

lemma get_artifact_ok:
  "evidence_ok db \<Longrightarrow> get_artifact h db = Inr (find_evidence h db)"
  using find_evidence_Some [of h db]
  by (auto simp: get_artifact_def evidence_ok_def row_ok_def split: option.splits)

text \<open>
  The evidence repository is append-only.  From an empty repository, whatever artifacts, edges,
  objects and audit entries are written, an artifact that can be read is read back unchanged forever,
  and parents and children once recorded stay recorded.
\<close>

lemma evidence_append_only:
  assumes "empty_evidence db0" and "ev_step\<^sup>*\<^sup>* db0 db" and "ev_step\<^sup>*\<^sup>* db db'"
    and "get_artifact h db = Inr (Some x)"
  shows "get_artifact h db' = Inr (Some x) \<and> ev_hash x = h
    \<and> set (get_parents h db) \<subseteq> set (get_parents h db') \<and> set (get_children h db) \<subseteq> set (get_children h db')"
proof -
  have ok: "evidence_ok db" and ext: "evidence_extends db db'" and ok': "evidence_ok db'"
    using evidence_log.inv_init [OF assms(1)] assms(2,3)
    by (auto intro: evidence_log.run_inv evidence_log.run_rel)
  have found: "find_evidence h db = Some x" using assms(4) ok by (simp add: get_artifact_ok)
  then have "find_evidence h db' = Some x" using ext by (auto intro: find_evidence_extends)
  moreover have "ev_hash x = h" using found by (auto dest: find_evidence_Some)
  moreover have "set (get_parents h db) \<subseteq> set (get_parents h db')" "set (get_children h db) \<subseteq> set (get_children h db')"
    using ext by (auto simp: evidence_extends_def get_parents_def get_children_def)
  ultimately show ?thesis using ok' by (simp add: get_artifact_ok)
qed

text \<open>
  C12: In every reachable state the evidence graph is closed: artifact hashes are unique, every artifact
  is well formed, passes its own lineage check and has all its declared parents stored and linked to it
  by an edge of its default relation, and every edge connects stored artifacts by a known relation.
\<close>

theorem evidence_graph_closed:
  assumes "empty_evidence db0" and "ev_step\<^sup>*\<^sup>* db0 db"
  shows "distinct (map ev_hash (evidence db))
    \<and> (\<forall>x \<in> set (evidence db). wf_envelope x \<and> verify x
         \<and> (\<forall>p \<in> set (ev_parents x). find_evidence p db \<noteq> None \<and> p \<in> set (get_parents (ev_hash x) db)
              \<and> ev_hash x \<in> set (get_children p db)))
    \<and> (\<forall>l \<in> set (lineage db). find_evidence (le_parent l) db \<noteq> None \<and> find_evidence (le_child l) db \<noteq> None
         \<and> le_relation l \<in> set LINEAGE_RELATIONS)"
proof -
  have ok: "evidence_ok db"
    using evidence_log.inv_init [OF assms(1)] assms(2) by (rule evidence_log.run_inv [rotated])
  have "p \<in> set (get_parents (ev_hash x) db) \<and> ev_hash x \<in> set (get_children p db)"
    if x: "x \<in> set (evidence db)" "p \<in> set (ev_parents x)" for x p
  proof -
    obtain l where "l \<in> set (lineage db)" "le_parent l = p" "le_child l = ev_hash x"
      using ok x by (rule parent_edge)
    then show ?thesis by (force simp: get_parents_def get_children_def)
  qed
  then show ?thesis
    using ok by (auto simp: evidence_ok_def row_ok_def edge_ok_def find_evidence_None subset_iff)
qed

text \<open>An edge that its child declares, with the child's default relation or an annotation.\<close>

definition declared_edge :: "'a evidence_db_scheme \<Rightarrow> lineage_row \<Rightarrow> bool" where
  "declared_edge db l \<longleftrightarrow> (\<exists>x \<in> set (evidence db). ev_hash x = le_child l \<and> le_parent l \<in> set (ev_parents x)
     \<and> le_relation l \<in> set (allowed_relations x))"

text \<open>
  In every reachable state \<open>verify_evidence\<close> answers exactly whether every artifact is content
  addressed, by its artifact hash and its lineage hash, and every edge is declared by its child.
  In particular it accepts a repository into which only envelopes of \<open>build_envelope\<close> with computed
  hashes were appended, and rejects one with a caller-chosen hash or an undeclared edge.
\<close>

lemma evidence_verification_exact:
  assumes "empty_evidence db0" and "ev_step\<^sup>*\<^sup>* db0 db"
  shows "verify_evidence db \<longleftrightarrow>
    (\<forall>x \<in> set (evidence db). content_addressed x) \<and> (\<forall>l \<in> set (lineage db). declared_edge db l)"
proof -
  have ok: "evidence_ok db"
    using evidence_log.inv_init [OF assms(1)] assms(2) by (rule evidence_log.run_inv [rotated])
  then have dist: "distinct (map ev_hash (evidence db))" by (simp add: evidence_ok_def)
  have rows: "list_all (row_verified (map ev_hash (evidence db))) (evidence db)
      \<longleftrightarrow> (\<forall>x \<in> set (evidence db). content_addressed x)"
    using ok by (auto simp: list_all_iff row_verified_def content_addressed_def evidence_ok_def row_ok_def)
  have "parents_linked (lineage db) x" if "x \<in> set (evidence db)" for x
    using ok that by (fastforce simp: evidence_ok_def row_ok_def parents_linked_def allowed_relations_def
        list_all_iff list_ex_iff)
  then have linked: "list_all (parents_linked (lineage db)) (evidence db)" by (simp add: list_all_iff)
  have child: "(case find (\<lambda>x. ev_hash x = le_child l) (evidence db) of None \<Rightarrow> False
      | Some child \<Rightarrow> le_parent l \<in> set (ev_parents child) \<and> le_relation l \<in> set (allowed_relations child))
      \<longleftrightarrow> declared_edge db l" for l
  proof (cases "find (\<lambda>x. ev_hash x = le_child l) (evidence db)")
    case None
    then have "ev_hash x \<noteq> le_child l" if "x \<in> set (evidence db)" for x using that by (auto simp: find_None_iff)
    with None show ?thesis by (auto simp: declared_edge_def)
  next
    case (Some y)
    then have "x \<in> set (evidence db) \<and> ev_hash x = le_child l \<longleftrightarrow> x = y" for x
      using find_evidence_iff [OF dist, of "le_child l" x] by (auto simp: find_evidence_def)
    then show ?thesis unfolding declared_edge_def Some by (simp only: option.case) metis
  qed
  have "edge_verified (evidence db) l \<longleftrightarrow> declared_edge db l" if "l \<in> set (lineage db)" for l
    using ok that child by (auto simp: edge_verified_def evidence_ok_def edge_ok_def)
  then show ?thesis
    using rows linked child
    by (auto simp: verify_evidence_def map_of_rev_hashes [OF dist] list_all_iff)
qed

section \<open>Acyclicity\<close>

text \<open>The position of a hash in the evidence table; edges written by \<open>append_artifact\<close> point forward.\<close>

definition position :: "string \<Rightarrow> EvidenceEnvelope list \<Rightarrow> nat" where
  "position h xs = length (takeWhile (\<lambda>x. ev_hash x \<noteq> h) xs)"

definition forward :: "'a evidence_db_scheme \<Rightarrow> bool" where
  "forward db \<longleftrightarrow> (\<forall>l \<in> set (lineage db). le_child l \<in> set (hashes db)
     \<and> position (le_parent l) (evidence db) < position (le_child l) (evidence db))"

definition lineage_rel :: "'a evidence_db_scheme \<Rightarrow> (string \<times> string) set" where
  "lineage_rel db = {(le_parent l, le_child l) | l. l \<in> set (lineage db)}"

inductive append_step :: "'a evidence_db_scheme \<Rightarrow> 'a evidence_db_scheme \<Rightarrow> bool" where
  append_only: "wf_envelope e \<Longrightarrow> append_step db (snd (append_artifact e now db))"
| append_other: "db_step db db' \<Longrightarrow> append_step db db'"

lemma append_step_ev: "append_step db db' \<Longrightarrow> ev_step db db'"
  by (auto elim!: append_step.cases intro: ev_step.intros)

lemma position_append: "h \<in> set (map ev_hash xs) \<Longrightarrow> position h (xs @ ys) = position h xs"
  by (auto simp: position_def takeWhile_append)

lemma position_less: "h \<in> set (map ev_hash xs) \<Longrightarrow> position h xs < length xs"
  by (induction xs) (auto simp: position_def)

lemma position_fresh: "ev_hash x \<notin> set (map ev_hash xs) \<Longrightarrow> position (ev_hash x) (xs @ [x]) = length xs"
  by (induction xs) (auto simp: position_def)

lemma append_forward:
  assumes "evidence_ok db" "forward db"
  shows "forward (snd (append_artifact e now db))"
proof (cases rule: append_artifact_cases [of e now db])
  case (stored db')
  have fresh: "ev_hash e \<notin> set (hashes db)" using stored(3) by (simp add: find_evidence_None)
  obtain more where more: "parent_edges e now (lineage db) = lineage db @ more"
    "\<forall>l \<in> set more. le_parent l \<in> set (ev_parents e) \<and> le_child l = ev_hash e \<and> le_relation l = default_relation (ev_type e)"
    by (rule parent_edges_split)
  have old: "position (le_parent l) (evidence db @ [e]) < position (le_child l) (evidence db @ [e])"
    if "l \<in> set (lineage db)" for l
    using assms that by (simp add: forward_def evidence_ok_def edge_ok_def position_append)
  have new: "position (le_parent l) (evidence db @ [e]) < position (le_child l) (evidence db @ [e])"
    if "l \<in> set more" for l
  proof -
    have "le_parent l \<in> set (hashes db)" "le_child l = ev_hash e" using that more(2) stored(4) by auto
    then show ?thesis using position_less [of "le_parent l" "evidence db"] position_fresh [OF fresh]
      by (simp add: position_append)
  qed
  show ?thesis
    using stored more assms(2) old new by (auto simp: forward_def)
qed (use assms in simp_all)

interpretation append_log: invariant_system empty_evidence append_step "\<lambda>db. evidence_ok db \<and> forward db"
proof
  show "evidence_ok db \<and> forward db" if "empty_evidence db" for db :: "'a evidence_db_scheme"
    using that evidence_log.inv_init [OF that] by (simp add: empty_evidence_def forward_def)
next
  fix db db' :: "'a evidence_db_scheme"
  assume inv: "evidence_ok db \<and> forward db" and step: "append_step db db'"
  have "evidence_ok db'" using ev_step_ok inv append_step_ev [OF step] by blast
  moreover have "forward db'" using step inv
  proof cases
    case append_other
    then show ?thesis using inv db_step_evidence [of db db'] by (simp add: forward_def)
  qed (simp add: append_forward)
  ultimately show "evidence_ok db' \<and> forward db'" by simp
qed

text \<open>
  Appending artifacts keeps the lineage graph acyclic: after any sequence of \<open>append_artifact\<close>
  calls and unrelated writes no artifact is its own ancestor, and every edge leads from an artifact
  that was stored earlier to one that was stored later.
\<close>

lemma evidence_append_acyclic:
  assumes "empty_evidence db0" and "append_step\<^sup>*\<^sup>* db0 db"
  shows "acyclic (lineage_rel db)
    \<and> (\<forall>l \<in> set (lineage db). position (le_parent l) (evidence db) < position (le_child l) (evidence db))"
proof -
  have fw: "forward db" using append_log.run_inv [OF assms(2)] append_log.inv_init [OF assms(1)] by simp
  then have "lineage_rel db \<subseteq> measure (\<lambda>h. position h (evidence db))"
    by (auto simp: lineage_rel_def forward_def)
  then have "acyclic (lineage_rel db)" by (rule acyclic_subset [OF wf_acyclic [OF wf_measure]])
  with fw show ?thesis by (simp add: forward_def)
qed

text \<open>
  \<open>add_lineage_edge\<close> does not keep the lineage graph acyclic, although the query layer assumes a
  graph that is acyclic by construction: any stored artifact can be made its own parent, in any
  reachable state, and from then on \<open>verify_evidence\<close> fails for good.
\<close>

lemma lineage_cycle_possible:
  assumes "empty_evidence db0" and "append_step\<^sup>*\<^sup>* db0 db" and "find_evidence h db \<noteq> None"
    and "db1 = snd (add_lineage_edge h h ''feeds'' now db)" and "ev_step\<^sup>*\<^sup>* db1 db'"
  shows "fst (add_lineage_edge h h ''feeds'' now db) = Inr () \<and> h \<in> set (get_parents h db')
    \<and> \<not> acyclic (lineage_rel db') \<and> \<not> verify_evidence db'"
proof -
  have inv: "evidence_ok db" "forward db"
    using append_log.run_inv [OF assms(2)] append_log.inv_init [OF assms(1)] by simp_all
  have res: "fst (add_lineage_edge h h ''feeds'' now db) = Inr ()"
    and l1: "lineage db1 = insert_edge h h ''feeds'' now (lineage db)" and e1: "evidence db1 = evidence db"
    using assms(3,4) by (auto simp: add_lineage_edge_def LINEAGE_RELATIONS_def)
  have ok1: "evidence_ok db1" using add_edge_ok [OF inv(1)] assms(4) by simp
  have ext: "evidence_extends db1 db'" using evidence_log.run_rel [OF assms(5) ok1] .
  have ok': "evidence_ok db'" using evidence_log.run_inv [OF assms(5) ok1] .
  have "\<exists>l \<in> set (lineage db1). le_parent l = h \<and> le_child l = h"
    unfolding l1 using insert_edge_present [of h h "''feeds''" now "lineage db"] by blast
  moreover have "set (lineage db1) \<subseteq> set (lineage db')" using ext by (auto simp: evidence_extends_def)
  ultimately obtain l where l: "l \<in> set (lineage db')" "le_parent l = h" "le_child l = h" by blast
  obtain x where x: "find_evidence h db = Some x" using assms(3) by auto
  have x': "find_evidence h db' = Some x" using x ext e1
    by (auto intro: find_evidence_extends simp: find_evidence_def [of h db1] find_evidence_def [of h db])
  have "h \<notin> set (ev_parents x)"
  proof
    assume "h \<in> set (ev_parents x)"
    moreover have "x \<in> set (evidence db)" "ev_hash x = h" using x by (auto dest: find_evidence_Some)
    ultimately obtain k where "k \<in> set (lineage db)" "le_parent k = h" "le_child k = h"
      using parent_edge [OF inv(1), of x h] by metis
    with inv(2) show False by (auto simp: forward_def)
  qed
  then have "\<not> edge_verified (evidence db') l"
    using l x' by (simp add: edge_verified_def find_evidence_def)
  then have "\<not> verify_evidence db'" using l(1) by (auto simp: verify_evidence_def list_all_iff)
  moreover have "(h, h) \<in> lineage_rel db'" using l by (force simp: lineage_rel_def)
  then have "\<not> acyclic (lineage_rel db')" by (auto simp: acyclic_def)
  moreover have "h \<in> set (get_parents h db')" using l by (force simp: get_parents_def)
  ultimately show ?thesis using res by simp
qed

section \<open>Immutability\<close>

text \<open>What \<open>append_artifact\<close> compares before it accepts an artifact that is already stored.\<close>

definition ev_print :: "EvidenceEnvelope \<Rightarrow> string \<times> string \<times> json \<times> string list \<times> string" where
  "ev_print e = (ev_type e, ev_version e, json_norm (ev_payload e), ev_parents e, ev_lineage_hash e)"

definition append_request ::
  "'a evidence_db_scheme \<Rightarrow> EvidenceEnvelope \<times> string \<Rightarrow> (EvidenceEnvelope, 'a evidence_db_scheme) outcome" where
  "append_request db r = append_artifact (fst r) (snd r) db"

definition seen_print :: "'a evidence_db_scheme \<Rightarrow> string \<Rightarrow> (string \<times> string \<times> json \<times> string list \<times> string) option" where
  "seen_print db h = map_option ev_print (find_evidence h db)"

lemma find_evidence_append:
  "evidence db' = evidence db @ [e] \<Longrightarrow> find_evidence (ev_hash e) db = None
    \<Longrightarrow> find_evidence h db' = (if h = ev_hash e then Some e else find_evidence h db)"
proof -
  have "find P (xs @ [x]) = (case find P xs of None \<Rightarrow> if P x then Some x else None | Some y \<Rightarrow> Some y)"
    for P and xs :: "EvidenceEnvelope list" and x
    by (induction xs) auto
  then show "evidence db' = evidence db @ [e] \<Longrightarrow> find_evidence (ev_hash e) db = None
    \<Longrightarrow> find_evidence h db' = (if h = ev_hash e then Some e else find_evidence h db)"
    by (auto simp: find_evidence_def split: option.splits)
qed

interpretation evidence_guard: fingerprint_guard seen_print "\<lambda>r. ev_hash (fst r)" "\<lambda>r. ev_print (fst r)" append_request
proof
  fix db t :: "'a evidence_db_scheme" and r v
  assume "append_request db r = (Inr v, t)"
  then show "seen_print t = (seen_print db)(ev_hash (fst r) \<mapsto> ev_print (fst r))
      \<and> seen_print db (ev_hash (fst r)) \<in> {None, Some (ev_print (fst r))}"
    unfolding append_request_def
  proof (cases rule: append_artifact_cases [of "fst r" "snd r" db])
    case (known x)
    then have "seen_print db (ev_hash (fst r)) = Some (ev_print (fst r))"
      by (simp add: seen_print_def ev_print_def json_eq_def)
    with known \<open>append_request db r = (Inr v, t)\<close> show ?thesis by (auto simp: append_request_def)
  next
    case (stored db')
    with \<open>append_request db r = (Inr v, t)\<close> have "t = db'" by (simp add: append_request_def)
    with stored find_evidence_append [OF stored(5) stored(3)] show ?thesis
      by (auto simp: seen_print_def fun_eq_iff)
  qed (use \<open>append_request db r = (Inr v, t)\<close> in \<open>simp add: append_request_def\<close>)
next
  fix db t :: "'a evidence_db_scheme" and r e
  assume "append_request db r = (Inl e, t)"
  then show "t = db" unfolding append_request_def
    by (cases rule: append_artifact_cases [of "fst r" "snd r" db]) auto
qed

text \<open>
  Stored evidence is immutable.  Once an artifact is stored under its hash, then after any further
  append requests a request with the same hash and another type, version, payload, parents or lineage
  hash is refused and changes nothing.
\<close>

lemma evidence_immutable:
  assumes "find_evidence (ev_hash e) db = Some x" and "ev_print x \<noteq> ev_print e"
  shows "\<exists>err. append_artifact e now (serve_all append_request db rs) = (Inl err, serve_all append_request db rs)"
  using evidence_guard.clash_refused [of db "(e, now)" "ev_print x" rs] assms
  by (simp add: seen_print_def append_request_def)

section \<open>Witnesses\<close>

definition ex_dataset :: EvidenceEnvelope where
  "ex_dataset = projr (build_envelope ''Dataset'' (JObj [(''rows'', JInt 3)]) ''1'' ''2026'' None None)"

definition ex_run :: EvidenceEnvelope where
  "ex_run = projr (build_envelope ''Run'' (JObj []) ''1'' ''2026'' (Some [ev_hash ex_dataset]) (Some ''run''))"

definition ex_empty :: evidence_db where
  "ex_empty = \<lparr>objects = [], audit_logs = [], evidence = [], lineage = []\<rparr>"

definition ex_db1 :: evidence_db where
  "ex_db1 = snd (append_artifact ex_dataset ''now'' ex_empty)"

definition ex_db2 :: evidence_db where
  "ex_db2 = snd (append_artifact ex_run ''now'' ex_db1)"

lemma ex_empty_evidence: "empty_evidence ex_empty"
  by (simp add: empty_evidence_def ex_empty_def)

lemma ex_dataset_build: "build_envelope ''Dataset'' (JObj [(''rows'', JInt 3)]) ''1'' ''2026'' None None = Inr ex_dataset"
  by (simp add: ex_dataset_def build_envelope_def EvidenceEnvelope_init_def ARTIFACT_TYPES_def Let_def
      compute_artifact_hash_def json_sha256_def)

lemma ex_run_build:
  "build_envelope ''Run'' (JObj []) ''1'' ''2026'' (Some [ev_hash ex_dataset]) (Some ''run'') = Inr ex_run"
  by (simp add: ex_run_def build_envelope_def EvidenceEnvelope_init_def ARTIFACT_TYPES_def Let_def)

lemmas ex_wf = build_envelope_content [OF ex_dataset_build] build_envelope_content [OF ex_run_build]

lemma ex_fields: "ev_parents ex_dataset = []" "ev_parents ex_run = [ev_hash ex_dataset]" "ev_hash ex_run = ''run''"
  "ev_hash ex_dataset = compute_artifact_hash ''Dataset'' ''1'' (JObj [(''rows'', JInt 3)])"
  "ev_type ex_dataset = ''Dataset''" "ev_type ex_run = ''Run''" "ev_version ex_run = ''1''"
  using build_envelope_fields [OF ex_dataset_build] build_envelope_fields [OF ex_run_build] by simp_all

lemma ex_hash_neq: "ev_hash ex_dataset \<noteq> ''run''"
proof -
  have "length (ev_hash ex_dataset) = 64"
    by (simp only: ex_fields(4) compute_artifact_hash_def json_sha256_def sha256_hex_shape)
  then show ?thesis by auto
qed

lemma ex_db1: "evidence ex_db1 = [ex_dataset]" "lineage ex_db1 = []" "objects ex_db1 = [(ev_hash ex_dataset,
    \<lparr>or_type = ''EvidenceEnvelope'', or_created_at = ev_created_at ex_dataset,
     or_data = envelope_to_dict ex_dataset @ [(''object_type'', JStr ''EvidenceEnvelope'')]\<rparr>)]"
  using ex_wf by (simp_all add: ex_db1_def append_artifact_def ex_empty_def find_evidence_def missing_parents_def
      ex_fields(1-3,5-6) insert_evidence_mirror_def Let_def)

lemma ex_db2: "evidence ex_db2 = [ex_dataset, ex_run]"
  "lineage ex_db2 = [\<lparr>le_parent = ev_hash ex_dataset, le_child = ''run'', le_relation = ''executes'', le_created_at = ''now''\<rparr>]"
  using ex_wf ex_hash_neq
  by (simp_all add: ex_db2_def append_artifact_def find_evidence_def missing_parents_def ex_db1
      ex_fields(1-3,5-6) insert_evidence_mirror_def Let_def insert_edge_def default_relation_def)

lemma ex_run_steps: "append_step\<^sup>*\<^sup>* ex_empty ex_db1" "append_step\<^sup>*\<^sup>* ex_empty ex_db2"
proof -
  show one: "append_step\<^sup>*\<^sup>* ex_empty ex_db1"
    using ex_wf unfolding ex_db1_def by (blast intro: append_only)
  have "append_step ex_db1 ex_db2" using ex_wf unfolding ex_db2_def by (blast intro: append_only)
  with one show "append_step\<^sup>*\<^sup>* ex_empty ex_db2" by (rule rtranclp.rtrancl_into_rtrancl)
qed

lemma ex_steps: "ev_step\<^sup>*\<^sup>* ex_empty ex_db1" "ev_step\<^sup>*\<^sup>* ex_empty ex_db2" "ev_step\<^sup>*\<^sup>* ex_db1 ex_db2"
proof -
  have "append_step \<le> (ev_step :: evidence_db \<Rightarrow> _)" by (auto intro: append_step_ev)
  from rtranclp_mono [OF this] show "ev_step\<^sup>*\<^sup>* ex_empty ex_db1" "ev_step\<^sup>*\<^sup>* ex_empty ex_db2"
    using ex_run_steps by blast+
  show "ev_step\<^sup>*\<^sup>* ex_db1 ex_db2" using ex_wf unfolding ex_db2_def by (blast intro: ev_append)
qed

theorem evidence_graph_closed_witness:
  "distinct (map ev_hash (evidence ex_db2)) \<and> length (evidence ex_db2) = 2
    \<and> find_evidence (ev_hash ex_dataset) ex_db2 \<noteq> None \<and> ev_hash ex_dataset \<in> set (get_parents ''run'' ex_db2)"
  using evidence_graph_closed [OF ex_empty_evidence ex_steps(2)] by (simp add: ex_db2 ex_fields(1-3))

end
