(* ===== verification/Lineage.thy ===== *)
theory Lineage
  imports Evidence_Store "HOL-Library.Product_Lexorder"
begin

text \<open>
  The read-only lineage queries over the evidence repository (\<open>researchos/evidence/lineage.py\<close>):
  recursive ancestors and descendants, paths, explanations, trees, payload references and the full
  chain of a result.  Every query may raise what \<open>get_artifact\<close> raises on a corrupt row.
\<close>

section \<open>Traversal\<close>

datatype direction = Upstream | Downstream

fun neighbours :: "direction \<Rightarrow> string \<Rightarrow> 'a evidence_db_scheme \<Rightarrow> string list" where
  "neighbours Upstream h db = sort (get_parents h db)"
| "neighbours Downstream h db = sort (get_children h db)"

definition endpoints :: "'a evidence_db_scheme \<Rightarrow> string set" where
  "endpoints db = le_parent ` set (lineage db) \<union> le_child ` set (lineage db)"

lemma endpoints_finite [simp]: "finite (endpoints db)"
  by (simp add: endpoints_def)

lemma neighbours_set:
  "set (neighbours Upstream h db) = {p. (p, h) \<in> lineage_rel db}"
  "set (neighbours Downstream h db) = {c. (h, c) \<in> lineage_rel db}"
  by (auto simp: get_parents_def get_children_def lineage_rel_def image_iff)

lemma neighbours_endpoints: "set (neighbours d h db) \<subseteq> endpoints db"
  by (cases d) (auto simp: get_parents_def get_children_def endpoints_def)

declare neighbours.simps [simp del]

definition pending :: "'a evidence_db_scheme \<Rightarrow> string list \<Rightarrow> string list \<Rightarrow> nat" where
  "pending db visited queue = card ((endpoints db \<union> set queue) - set visited)"

lemma pending_skip: "pending db visited rest \<le> pending db visited (current # rest)"
  unfolding pending_def by (rule card_mono) auto

lemma pending_visit:
  assumes "current \<notin> set visited" and "set queue \<subseteq> endpoints db \<union> set rest"
  shows "pending db (current # visited) queue < pending db visited (current # rest)"
  unfolding pending_def by (rule psubset_card_mono) (use assms in auto)

text \<open>
  The worklist loop the traversals share: pop the first hash, skip it when it was visited, otherwise
  look it up and, when it is stored, record it and queue its neighbours.  A cycle ends because every
  hash is expanded at most once.
\<close>

function worklist ::
  "direction \<Rightarrow> 'a evidence_db_scheme \<Rightarrow> string list \<Rightarrow> string list \<Rightarrow> (string \<times> EvidenceEnvelope) list result" where
  "worklist d db visited queue =
     (case queue of
        [] \<Rightarrow> Inr []
      | current # rest \<Rightarrow>
          if current \<in> set visited then worklist d db visited rest
          else case get_artifact current db of
                 Inl e \<Rightarrow> Inl e
               | Inr None \<Rightarrow> worklist d db (current # visited) rest
               | Inr (Some env) \<Rightarrow>
                   map_sum id (\<lambda>found. (current, env) # found)
                     (worklist d db (current # visited) (rest @ neighbours d current db)))"
  by pat_completeness auto
termination
proof (relation "(\<lambda>(d, db, visited, queue). pending db visited queue) <*mlex*> measure (\<lambda>(d, db, visited, queue). length queue)")
  show "wf ((\<lambda>(d, db, visited, queue). pending db visited queue) <*mlex*> measure (\<lambda>(d, db, visited, queue). length queue))"
    by (rule wf_mlex) simp
qed (use neighbours_endpoints in \<open>fastforce intro: mlex_leq mlex_less pending_skip pending_visit\<close>)+

declare worklist.simps [simp del]

definition edge_rel :: "direction \<Rightarrow> 'a evidence_db_scheme \<Rightarrow> (string \<times> string) set" where
  "edge_rel d db = {(x, y). y \<in> set (neighbours d x db)}"

text \<open>
  What the loop returns: envelopes not visited before, each once, closed under neighbours up to the
  visited ones, and all reachable from the queue.
\<close>

definition explored :: "direction \<Rightarrow> 'a evidence_db_scheme \<Rightarrow> string list \<Rightarrow> string list
    \<Rightarrow> (string \<times> EvidenceEnvelope) list \<Rightarrow> bool" where
  "explored d db visited queue found \<longleftrightarrow> distinct (map fst found)
     \<and> set (map fst found) \<inter> set visited = {}
     \<and> (\<forall>(h, x) \<in> set found. find_evidence h db = Some x)
     \<and> set queue \<subseteq> set visited \<union> set (map fst found)
     \<and> (\<forall>h \<in> set (map fst found). set (neighbours d h db) \<subseteq> set visited \<union> set (map fst found))"

definition reached :: "direction \<Rightarrow> 'a evidence_db_scheme \<Rightarrow> string list \<Rightarrow> (string \<times> EvidenceEnvelope) list \<Rightarrow> bool" where
  "reached d db queue found \<longleftrightarrow> (\<forall>h \<in> set (map fst found). \<exists>q \<in> set queue. (q, h) \<in> (edge_rel d db)\<^sup>*)"

lemma explored_visit:
  assumes "explored d db (current # visited) (rest @ neighbours d current db) found"
    and "current \<notin> set visited" and "find_evidence current db = Some env"
  shows "explored d db visited (current # rest) ((current, env) # found)"
  using assms by (auto simp: explored_def)

lemma reached_visit:
  assumes "reached d db (rest @ neighbours d current db) found"
  shows "reached d db (current # rest) ((current, env) # found)"
proof -
  have "\<exists>q \<in> set (current # rest). (q, h) \<in> (edge_rel d db)\<^sup>*" if h: "h \<in> set (map fst found)" for h
  proof -
    obtain q where q: "q \<in> set (rest @ neighbours d current db)" "(q, h) \<in> (edge_rel d db)\<^sup>*"
      using assms h unfolding reached_def by blast
    then show ?thesis
    proof (cases "q \<in> set rest")
      case False
      with q have "(current, q) \<in> edge_rel d db" by (simp add: edge_rel_def)
      with q(2) show ?thesis by (auto intro: converse_rtrancl_into_rtrancl)
    qed auto
  qed
  then show ?thesis by (auto simp: reached_def)
qed

lemma explored_skip:
  "explored d db visited rest found \<Longrightarrow> current \<in> set visited \<Longrightarrow> explored d db visited (current # rest) found"
  by (auto simp: explored_def)

lemma reached_skip: "reached d db rest found \<Longrightarrow> reached d db (current # rest) found"
  unfolding reached_def by (meson list.set_intros(2))

lemma endpoints_stored: "evidence_ok db \<Longrightarrow> endpoints db \<subseteq> set (hashes db)"
  by (auto simp: endpoints_def evidence_ok_def edge_ok_def)

lemma worklist_explores:
  assumes "evidence_ok db" and "set queue \<subseteq> set (hashes db)"
  shows "\<exists>found. worklist d db visited queue = Inr found \<and> explored d db visited queue found
    \<and> reached d db queue found"
  using assms
proof (induction d db visited queue rule: worklist.induct)
  case (1 d db visited queue)
  show ?case
  proof (cases queue)
    case Nil
    then show ?thesis by (simp add: worklist.simps explored_def reached_def)
  next
    case (Cons current rest)
    show ?thesis
    proof (cases "current \<in> set visited")
      case True
      then have "\<exists>found. worklist d db visited rest = Inr found \<and> explored d db visited rest found
          \<and> reached d db rest found"
        using "1.IH"(1) [OF Cons True] "1.prems" Cons by simp
      with True Cons show ?thesis by (subst worklist.simps) (auto intro: explored_skip reached_skip)
    next
      case False
      obtain env where env: "find_evidence current db = Some env"
        using "1.prems"(2) Cons find_evidence_None [of current db] by (cases "find_evidence current db") auto
      have get: "get_artifact current db = Inr (Some env)"
        using "1.prems"(1) env by (simp add: get_artifact_ok)
      have "set (rest @ neighbours d current db) \<subseteq> set (hashes db)"
        using "1.prems" Cons endpoints_stored neighbours_endpoints [of d current db] by fastforce
      then obtain found where "worklist d db (current # visited) (rest @ neighbours d current db) = Inr found"
        "explored d db (current # visited) (rest @ neighbours d current db) found"
        "reached d db (rest @ neighbours d current db) found"
        using "1.IH"(3) [OF Cons False get refl] "1.prems"(1) by blast
      with False Cons get show ?thesis
        using explored_visit [of d db current visited rest found env] env
          reached_visit [of d db rest current found env] by (subst worklist.simps) simp
    qed
  qed
qed

lemma explored_closure:
  assumes "explored d db [] (neighbours d h db) found" and "reached d db (neighbours d h db) found"
  shows "set (map fst found) = (edge_rel d db)\<^sup>+ `` {h}"
proof
  have "(h, y) \<in> (edge_rel d db)\<^sup>+" if y: "y \<in> set (map fst found)" for y
  proof -
    obtain q where "q \<in> set (neighbours d h db)" "(q, y) \<in> (edge_rel d db)\<^sup>*"
      using assms(2) y unfolding reached_def by blast
    then show ?thesis by (intro rtrancl_into_trancl2 [of h q]) (simp_all add: edge_rel_def)
  qed
  then show "set (map fst found) \<subseteq> (edge_rel d db)\<^sup>+ `` {h}" by blast
  have "y \<in> set (map fst found)" if "(h, y) \<in> (edge_rel d db)\<^sup>+" for y
    using that
  proof (induction rule: trancl_induct)
    case (base y)
    then show ?case using assms(1) by (auto simp: explored_def edge_rel_def)
  next
    case (step y z)
    then have "set (neighbours d y db) \<subseteq> set (map fst found)" using assms(1) step(3) by (auto simp: explored_def)
    with step(2) show ?case by (auto simp: edge_rel_def)
  qed
  then show "(edge_rel d db)\<^sup>+ `` {h} \<subseteq> set (map fst found)" by auto
qed

lemma edge_rel_lineage: "edge_rel Downstream db = lineage_rel db" "edge_rel Upstream db = (lineage_rel db)\<inverse>"
  by (auto simp: edge_rel_def neighbours_set)

section \<open>Ancestors and descendants\<close>

definition lineage_closure :: "direction \<Rightarrow> string \<Rightarrow> 'a evidence_db_scheme \<Rightarrow> EvidenceEnvelope list result" where
  "lineage_closure d h db =
     (case get_artifact h db of
        Inl e \<Rightarrow> Inl e
      | Inr None \<Rightarrow> Inr []
      | Inr (Some _) \<Rightarrow> map_sum id (\<lambda>found. map snd (sort_key fst found)) (worklist d db [] (neighbours d h db)))"

definition ancestors :: "string \<Rightarrow> 'a evidence_db_scheme \<Rightarrow> EvidenceEnvelope list result" where
  "ancestors h db = lineage_closure Upstream h db"

definition descendants :: "string \<Rightarrow> 'a evidence_db_scheme \<Rightarrow> EvidenceEnvelope list result" where
  "descendants h db = lineage_closure Downstream h db"

lemma lineage_closure_spec:
  assumes "evidence_ok db" and "find_evidence h db \<noteq> None"
  obtains es where "lineage_closure d h db = Inr es" "sorted (map ev_hash es)" "distinct (map ev_hash es)"
    "set (map ev_hash es) = (edge_rel d db)\<^sup>+ `` {h}" "set es \<subseteq> set (evidence db)"
proof -
  have "set (neighbours d h db) \<subseteq> set (hashes db)"
    using neighbours_endpoints endpoints_stored [OF assms(1)] by blast
  from worklist_explores [OF assms(1) this] obtain found where
    found: "worklist d db [] (neighbours d h db) = Inr found" "explored d db [] (neighbours d h db) found"
    "reached d db (neighbours d h db) found" by blast
  have key: "ev_hash x = k \<and> x \<in> set (evidence db)" if "(k, x) \<in> set found" for k x
    using found(2) that by (auto simp: explored_def dest!: bspec dest: find_evidence_Some)
  define es where "es = map snd (sort_key fst found)"
  have keys: "map ev_hash es = map fst (sort_key fst found)"
    using key by (auto simp: es_def)
  have "lineage_closure d h db = Inr es"
    using assms found(1) by (auto simp: lineage_closure_def get_artifact_ok es_def)
  moreover have "sorted (map ev_hash es)" by (simp add: keys)
  moreover have "distinct (map ev_hash es)"
  proof -
    have "mset (map fst (sort_key fst found)) = mset (map fst found)" by simp
    then have "distinct (map fst (sort_key fst found))"
      using found(2) by (metis explored_def mset_eq_imp_distinct_iff)
    then show ?thesis by (simp add: keys)
  qed
  moreover have "set (map ev_hash es) = (edge_rel d db)\<^sup>+ `` {h}"
    using explored_closure [OF found(2,3)] by (simp add: keys)
  moreover have "set es \<subseteq> set (evidence db)" using key by (auto simp: es_def)
  ultimately show ?thesis by (rule that)
qed

text \<open>
  C24: The recursive queries terminate on every lineage graph, cyclic ones included, and are exact:
  for a stored artifact \<open>ancestors\<close> and \<open>descendants\<close> return the stored envelopes of exactly the
  artifacts connected to it by one or more edges, each once and in the order of their hashes; for an
  unknown hash they return nothing.
\<close>

theorem lineage_queries_exact:
  assumes "empty_evidence db0" and "ev_step\<^sup>*\<^sup>* db0 db"
  shows "\<exists>up down. ancestors h db = Inr up \<and> descendants h db = Inr down
    \<and> set up \<union> set down \<subseteq> set (evidence db)
    \<and> sorted (map ev_hash up) \<and> distinct (map ev_hash up) \<and> sorted (map ev_hash down) \<and> distinct (map ev_hash down)
    \<and> set (map ev_hash up) = (if find_evidence h db = None then {} else {p. (p, h) \<in> (lineage_rel db)\<^sup>+})
    \<and> set (map ev_hash down) = (if find_evidence h db = None then {} else {c. (h, c) \<in> (lineage_rel db)\<^sup>+})"
proof -
  have ok: "evidence_ok db"
    using evidence_log.inv_init [OF assms(1)] assms(2) by (rule evidence_log.run_inv [rotated])
  show ?thesis
  proof (cases "find_evidence h db = None")
    case True
    then show ?thesis
      using ok by (simp add: ancestors_def descendants_def lineage_closure_def get_artifact_ok)
  next
    case False
    obtain up where up: "lineage_closure Upstream h db = Inr up" "sorted (map ev_hash up)" "distinct (map ev_hash up)"
      "set (map ev_hash up) = (edge_rel Upstream db)\<^sup>+ `` {h}" "set up \<subseteq> set (evidence db)"
      using ok False by (rule lineage_closure_spec)
    obtain down where down: "lineage_closure Downstream h db = Inr down" "sorted (map ev_hash down)"
      "distinct (map ev_hash down)" "set (map ev_hash down) = (edge_rel Downstream db)\<^sup>+ `` {h}"
      "set down \<subseteq> set (evidence db)"
      using ok False by (rule lineage_closure_spec)
    have "(edge_rel Upstream db)\<^sup>+ `` {h} = {p. (p, h) \<in> (lineage_rel db)\<^sup>+}"
      "(edge_rel Downstream db)\<^sup>+ `` {h} = {c. (h, c) \<in> (lineage_rel db)\<^sup>+}"
      by (auto simp: edge_rel_lineage trancl_converse)
    then show ?thesis using up down False by (auto simp: ancestors_def descendants_def)
  qed
qed

section \<open>Explanations and chains\<close>

definition CHAIN_ORDER :: "string list" where
  "CHAIN_ORDER = [''Dataset'', ''Experiment'', ''Run'', ''Result'', ''Validation'']"

record LineageNode =
  ln_artifact :: EvidenceEnvelope
  ln_hash :: string
  ln_type :: string
  ln_verified :: bool

definition from_envelope :: "EvidenceEnvelope \<Rightarrow> LineageNode" where
  "from_envelope e = \<lparr>ln_artifact = e, ln_hash = ev_hash e, ln_type = ev_type e, ln_verified = verify e\<rparr>"

record LineageExplanation =
  lx_artifact :: EvidenceEnvelope
  lx_type :: string
  lx_parents :: "LineageNode list"
  lx_children :: "LineageNode list"
  lx_path :: "string list"

definition chain_rank :: "string \<Rightarrow> nat" where
  "chain_rank t = length (takeWhile (\<lambda>u. u \<noteq> t) CHAIN_ORDER)"

text \<open>\<open>_lineage_path_hashes\<close>: the ancestors and the artifact itself by chain position and hash.\<close>

definition lineage_path_hashes :: "string \<Rightarrow> 'a evidence_db_scheme \<Rightarrow> string list result" where
  "lineage_path_hashes h db =
     rbind (ancestors h db) (\<lambda>up.
     rbind (get_artifact h db) (\<lambda>self.
       let known = fold (\<lambda>a. dset (ev_hash a) a) up [];
           all = (case self of None \<Rightarrow> known | Some e \<Rightarrow> dset h e known)
       in Inr (map ev_hash (sort_key (\<lambda>e. (chain_rank (ev_type e), ev_hash e)) (dvalues all)))))"

definition stored_nodes :: "string list \<Rightarrow> 'a evidence_db_scheme \<Rightarrow> LineageNode list result" where
  "stored_nodes hs db =
     rbind (sequence_results (map (\<lambda>h. get_artifact h db) hs))
       (\<lambda>es. Inr (map from_envelope (List.map_filter id es)))"

definition explain :: "string \<Rightarrow> 'a evidence_db_scheme \<Rightarrow> LineageExplanation option result" where
  "explain h db =
     rbind (get_artifact h db) (\<lambda>r. case r of
        None \<Rightarrow> Inr None
      | Some env \<Rightarrow>
          rbind (stored_nodes (neighbours Upstream h db) db) (\<lambda>parents.
          rbind (stored_nodes (neighbours Downstream h db) db) (\<lambda>children.
          rbind (lineage_path_hashes h db) (\<lambda>path.
            Inr (Some \<lparr>lx_artifact = env, lx_type = ev_type env, lx_parents = parents,
              lx_children = children, lx_path = path\<rparr>)))))"

text \<open>
  \<open>_find_parent_of_type\<close>, \<open>_find_child_of_type\<close> and \<open>_find_reference_by_type\<close>: the first direct
  neighbour of the wanted type, otherwise the first ancestor or descendant of it.
\<close>

fun first_of_type :: "string \<Rightarrow> string list \<Rightarrow> 'a evidence_db_scheme \<Rightarrow> EvidenceEnvelope option result" where
  "first_of_type t [] db = Inr None"
| "first_of_type t (h # hs) db =
     rbind (get_artifact h db) (\<lambda>r. case r of
        Some e \<Rightarrow> if ev_type e = t then Inr (Some e) else first_of_type t hs db
      | None \<Rightarrow> first_of_type t hs db)"

definition find_of_type ::
  "direction \<Rightarrow> string \<Rightarrow> string \<Rightarrow> 'a evidence_db_scheme \<Rightarrow> EvidenceEnvelope option result" where
  "find_of_type d h t db =
     rbind (first_of_type t (neighbours d h db) db) (\<lambda>r. case r of
        Some e \<Rightarrow> Inr (Some e)
      | None \<Rightarrow> rbind (lineage_closure d h db) (\<lambda>es. Inr (find (\<lambda>e. ev_type e = t) es)))"

record FullChain =
  fc_dataset :: "EvidenceEnvelope option"
  fc_experiment :: "EvidenceEnvelope option"
  fc_run :: "EvidenceEnvelope option"
  fc_result :: "EvidenceEnvelope option"
  fc_validation :: "EvidenceEnvelope option"

text \<open>One link of the chain: nothing when the previous member is missing.\<close>

definition chain_link ::
  "EvidenceEnvelope option \<Rightarrow> string \<Rightarrow> 'a evidence_db_scheme \<Rightarrow> EvidenceEnvelope option result" where
  "chain_link r t db = (case r of None \<Rightarrow> Inr None | Some e \<Rightarrow> find_of_type Upstream (ev_hash e) t db)"

definition resolve_full_chain :: "string \<Rightarrow> 'a evidence_db_scheme \<Rightarrow> FullChain option result" where
  "resolve_full_chain h db =
     rbind (get_artifact h db) (\<lambda>r. case r of
        None \<Rightarrow> Inr None
      | Some res \<Rightarrow>
          if ev_type res \<noteq> ''Result'' then Inr None
          else
            rbind (find_of_type Upstream h ''Run'' db) (\<lambda>run.
            rbind (chain_link run ''Experiment'' db) (\<lambda>experiment.
            rbind (chain_link experiment ''Dataset'' db) (\<lambda>dataset.
            rbind (find_of_type Downstream h ''Validation'' db) (\<lambda>validation.
              Inr (Some \<lparr>fc_dataset = dataset, fc_experiment = experiment, fc_run = run,
                fc_result = Some res, fc_validation = validation\<rparr>))))))"

section \<open>Payload references\<close>

datatype reference = RefNone | RefText string | RefArtifact EvidenceEnvelope

definition type_by_key :: "(string, string) dict" where
  "type_by_key = [(''experiment_hash'', ''Experiment''), (''run_hash'', ''Run''),
     (''result_hash'', ''Result''), (''validation_hash'', ''Validation'')]"

definition resolve_typed ::
  "EvidenceEnvelope \<Rightarrow> (string \<times> json) list \<Rightarrow> string \<Rightarrow> string \<Rightarrow> 'a evidence_db_scheme \<Rightarrow> reference result" where
  "resolve_typed env payload key t db =
     (let raw = (case dget payload key of None \<Rightarrow> JNull | Some v \<Rightarrow> v) in
      rbind (if falsy raw then Inr None else get_artifact (py_str raw) db) (\<lambda>direct.
        case direct of
          Some e \<Rightarrow> if ev_type e = t then Inr (RefArtifact e)
                    else rbind (find_of_type (if t \<noteq> ''Validation'' then Upstream else Downstream) (ev_hash env) t db)
                           (\<lambda>r. Inr (case r of None \<Rightarrow> RefNone | Some e \<Rightarrow> RefArtifact e))
        | None \<Rightarrow> rbind (find_of_type (if t \<noteq> ''Validation'' then Upstream else Downstream) (ev_hash env) t db)
                     (\<lambda>r. Inr (case r of None \<Rightarrow> RefNone | Some e \<Rightarrow> RefArtifact e))))"

definition dataset_reference :: "EvidenceEnvelope \<Rightarrow> (string \<times> json) list \<Rightarrow> reference" where
  "dataset_reference env payload =
     (case (if ev_type env = ''Dataset'' then dget payload ''version'' else None) of
        Some v \<Rightarrow> RefText (py_str v)
      | None \<Rightarrow> (case dget payload ''dataset_version'' of
                   Some raw \<Rightarrow> if falsy raw then RefNone else RefText (py_str raw)
                 | None \<Rightarrow> RefNone))"

definition resolve_reference :: "string \<Rightarrow> 'a evidence_db_scheme \<Rightarrow> (string, reference) dict result" where
  "resolve_reference h db =
     rbind (get_artifact h db) (\<lambda>r. case r of
        None \<Rightarrow> Inr []
      | Some env \<Rightarrow>
          (case ev_payload env of
             JObj payload \<Rightarrow>
               rbind (sequence_results (map (\<lambda>(key, t). resolve_typed env payload key t db) type_by_key)) (\<lambda>refs.
                 Inr ((''dataset_version'', dataset_reference env payload) # zip (map fst type_by_key) refs))
           | _ \<Rightarrow> Inr []))"

lemma first_of_type_spec:
  assumes "evidence_ok db"
  obtains r where "first_of_type t hs db = Inr r"
    "\<And>e. r = Some e \<Longrightarrow> ev_type e = t \<and> e \<in> set (evidence db) \<and> ev_hash e \<in> set hs"
proof -
  have "\<exists>r. first_of_type t hs db = Inr r
      \<and> (\<forall>e. r = Some e \<longrightarrow> ev_type e = t \<and> e \<in> set (evidence db) \<and> ev_hash e \<in> set hs)"
  proof (induction hs)
    case (Cons h hs)
    then show ?case
      using assms find_evidence_Some [of h db]
      by (cases "find_evidence h db") (auto simp: get_artifact_ok)
  qed simp
  then show ?thesis using that by blast
qed

lemma find_of_type_spec:
  assumes "evidence_ok db" and "find_evidence h db \<noteq> None"
  obtains r where "find_of_type d h t db = Inr r"
    "\<And>e. r = Some e \<Longrightarrow> ev_type e = t \<and> e \<in> set (evidence db) \<and> (h, ev_hash e) \<in> (edge_rel d db)\<^sup>+"
    "r = None \<Longrightarrow> \<forall>e \<in> set (evidence db). (h, ev_hash e) \<in> (edge_rel d db)\<^sup>+ \<longrightarrow> ev_type e \<noteq> t"
proof -
  obtain r where r: "first_of_type t (neighbours d h db) db = Inr r"
    "\<And>e. r = Some e \<Longrightarrow> ev_type e = t \<and> e \<in> set (evidence db) \<and> ev_hash e \<in> set (neighbours d h db)"
    by (rule first_of_type_spec [OF assms(1), where t = t and hs = "neighbours d h db"]) blast
  obtain es where es: "lineage_closure d h db = Inr es" "set (map ev_hash es) = (edge_rel d db)\<^sup>+ `` {h}"
    "set es \<subseteq> set (evidence db)"
    using assms by (rule lineage_closure_spec)
  show ?thesis
  proof (cases r)
    case (Some e)
    then have "(h, ev_hash e) \<in> edge_rel d db" using r(2) by (simp add: edge_rel_def)
    with Some r show ?thesis by (intro that [of "Some e"]) (auto simp: find_of_type_def)
  next
    case None
    have dist: "distinct (hashes db)" using assms(1) by (simp add: evidence_ok_def)
    have mem: "e \<in> set es \<longleftrightarrow> e \<in> set (evidence db) \<and> (h, ev_hash e) \<in> (edge_rel d db)\<^sup>+" for e
    proof
      assume e: "e \<in> set (evidence db) \<and> (h, ev_hash e) \<in> (edge_rel d db)\<^sup>+"
      then have "ev_hash e \<in> set (map ev_hash es)" using es(2) by simp
      then obtain e' where "e' \<in> set es" "ev_hash e' = ev_hash e" by auto
      moreover then have "e' = e" using dist e es(3) by (auto simp: distinct_map inj_on_def)
      ultimately show "e \<in> set es" by simp
    qed (use es in auto)
    have "find_of_type d h t db = Inr (find (\<lambda>e. ev_type e = t) es)"
      using None r(1) es(1) by (simp add: find_of_type_def)
    moreover have "ev_type e = t \<and> e \<in> set es" if "find (\<lambda>e. ev_type e = t) es = Some e" for e
      using that by (auto simp: find_Some_iff)
    moreover have "ev_type e \<noteq> t" if "find (\<lambda>e. ev_type e = t) es = None" "e \<in> set es" for e
      using that by (auto simp: find_None_iff)
    ultimately show ?thesis
      using mem by (intro that [of "find (\<lambda>e. ev_type e = t) es"]) (blast | metis)+
  qed
qed

text \<open>
  A chain member found upstream of an artifact: of the given type and connected to it, or nothing
  when no such artifact exists.
\<close>

definition nearest :: "'a evidence_db_scheme \<Rightarrow> (string \<times> string) set \<Rightarrow> string \<Rightarrow> string \<Rightarrow> EvidenceEnvelope option \<Rightarrow> bool" where
  "nearest db R h t r \<longleftrightarrow> (case r of
     Some e \<Rightarrow> e \<in> set (evidence db) \<and> ev_type e = t \<and> (h, ev_hash e) \<in> R
   | None \<Rightarrow> \<forall>e \<in> set (evidence db). (h, ev_hash e) \<in> R \<longrightarrow> ev_type e \<noteq> t)"

lemma find_of_type_nearest:
  assumes "evidence_ok db" and "find_evidence h db \<noteq> None"
  obtains r where "find_of_type d h t db = Inr r" "nearest db ((edge_rel d db)\<^sup>+) h t r"
proof -
  obtain r where r: "find_of_type d h t db = Inr r"
    "\<And>e. r = Some e \<Longrightarrow> ev_type e = t \<and> e \<in> set (evidence db) \<and> (h, ev_hash e) \<in> (edge_rel d db)\<^sup>+"
    "r = None \<Longrightarrow> \<forall>e \<in> set (evidence db). (h, ev_hash e) \<in> (edge_rel d db)\<^sup>+ \<longrightarrow> ev_type e \<noteq> t"
    by (rule find_of_type_spec [OF assms, where d = d and t = t]) blast
  then show ?thesis by (intro that [of r]) (auto simp: nearest_def split: option.splits)
qed

lemma chain_link_nearest:
  assumes "evidence_ok db" and "\<And>e. r = Some e \<Longrightarrow> e \<in> set (evidence db)"
  obtains q where "chain_link r t db = Inr q"
    "case r of None \<Rightarrow> q = None | Some e \<Rightarrow> nearest db ((edge_rel Upstream db)\<^sup>+) (ev_hash e) t q"
proof (cases r)
  case None
  then show ?thesis using that by (simp add: chain_link_def)
next
  case (Some e)
  then have "find_evidence (ev_hash e) db \<noteq> None" using assms(2) by (auto simp: find_evidence_None)
  from find_of_type_nearest [OF assms(1) this] obtain q where
    "find_of_type Upstream (ev_hash e) t db = Inr q" "nearest db ((edge_rel Upstream db)\<^sup>+) (ev_hash e) t q" by metis
  with Some show ?thesis using that by (simp add: chain_link_def)
qed

text \<open>
  The full chain of a stored result is sound and complete: each member has its type and is linked
  upstream to the member before it (the validation downstream of the result), and a missing member
  means that no artifact of that type is so linked.
\<close>

lemma full_chain_sound_complete:
  assumes "empty_evidence db0" and "ev_step\<^sup>*\<^sup>* db0 db"
    and "find_evidence h db = Some res" and "ev_type res = ''Result''"
  shows "\<exists>c. resolve_full_chain h db = Inr (Some c) \<and> fc_result c = Some res
    \<and> nearest db (((lineage_rel db)\<^sup>+)\<inverse>) h ''Run'' (fc_run c)
    \<and> (case fc_run c of None \<Rightarrow> fc_experiment c = None
        | Some run \<Rightarrow> nearest db (((lineage_rel db)\<^sup>+)\<inverse>) (ev_hash run) ''Experiment'' (fc_experiment c))
    \<and> (case fc_experiment c of None \<Rightarrow> fc_dataset c = None
        | Some ex \<Rightarrow> nearest db (((lineage_rel db)\<^sup>+)\<inverse>) (ev_hash ex) ''Dataset'' (fc_dataset c))
    \<and> nearest db ((lineage_rel db)\<^sup>+) h ''Validation'' (fc_validation c)"
proof -
  have ok: "evidence_ok db"
    using evidence_log.inv_init [OF assms(1)] assms(2) by (rule evidence_log.run_inv [rotated])
  have up: "(edge_rel Upstream db)\<^sup>+ = ((lineage_rel db)\<^sup>+)\<inverse>" and down: "edge_rel Downstream db = lineage_rel db"
    by (simp_all add: edge_rel_lineage trancl_converse)
  have h: "find_evidence h db \<noteq> None" using assms(3) by simp
  obtain run where run: "find_of_type Upstream h ''Run'' db = Inr run"
    "nearest db (((lineage_rel db)\<^sup>+)\<inverse>) h ''Run'' run"
    using find_of_type_nearest [OF ok h, of Upstream] unfolding up by metis
  obtain ex where ex: "chain_link run ''Experiment'' db = Inr ex"
    "case run of None \<Rightarrow> ex = None | Some e \<Rightarrow> nearest db (((lineage_rel db)\<^sup>+)\<inverse>) (ev_hash e) ''Experiment'' ex"
    using chain_link_nearest [OF ok, of run] run(2) unfolding up by (auto simp: nearest_def split: option.splits)
  obtain ds where ds: "chain_link ex ''Dataset'' db = Inr ds"
    "case ex of None \<Rightarrow> ds = None | Some e \<Rightarrow> nearest db (((lineage_rel db)\<^sup>+)\<inverse>) (ev_hash e) ''Dataset'' ds"
    using chain_link_nearest [OF ok, of ex] ex(2) unfolding up by (auto simp: nearest_def split: option.splits)
  obtain val where val: "find_of_type Downstream h ''Validation'' db = Inr val"
    "nearest db ((lineage_rel db)\<^sup>+) h ''Validation'' val"
    using find_of_type_nearest [OF ok h, of Downstream] unfolding down by metis
  show ?thesis
    using run ex ds val assms(3,4) ok
    by (cases run; cases ex) (simp_all add: resolve_full_chain_def get_artifact_ok)
qed

section \<open>Paths\<close>

text \<open>
  \<open>path\<close> first collects the adjacency of everything connected to the two artifacts, then searches
  breadth first from the first one and reads the path off the predecessor table.
\<close>

definition both_sides :: "string \<Rightarrow> 'a evidence_db_scheme \<Rightarrow> string list" where
  "both_sides h db = neighbours Upstream h db @ neighbours Downstream h db"

definition adj_get :: "(string, string list) dict \<Rightarrow> string \<Rightarrow> string list" where
  "adj_get adj u = (case dget adj u of None \<Rightarrow> [] | Some vs \<Rightarrow> vs)"

definition add_adj :: "string \<Rightarrow> (string, string list) dict \<Rightarrow> string \<Rightarrow> (string, string list) dict" where
  "add_adj u adj v = dset u (adj_get adj u @ [v]) adj"

lemma both_sides_endpoints: "set (both_sides h db) \<subseteq> endpoints db"
  using neighbours_endpoints [of _ h db] by (simp add: both_sides_def)

function collect_adj ::
  "'a evidence_db_scheme \<Rightarrow> string list \<Rightarrow> (string, string list) dict \<Rightarrow> string list \<Rightarrow> (string, string list) dict" where
  "collect_adj db visited adj frontier =
     (case frontier of
        [] \<Rightarrow> adj
      | cur # rest \<Rightarrow>
          if cur \<in> set visited then collect_adj db visited adj rest
          else collect_adj db (cur # visited) (foldl (add_adj cur) adj (both_sides cur db))
                 (rest @ filter (\<lambda>n. n \<notin> set (cur # visited)) (both_sides cur db)))"
  by pat_completeness auto
termination
proof (relation "(\<lambda>(db, visited, adj, frontier). pending db visited frontier)
    <*mlex*> measure (\<lambda>(db, visited, adj, frontier). length frontier)")
  show "wf ((\<lambda>(db, visited, adj, frontier). pending db visited frontier)
    <*mlex*> measure (\<lambda>(db, visited, adj, frontier). length frontier))"
    by (rule wf_mlex) simp
qed (use both_sides_endpoints in \<open>fastforce intro: mlex_leq mlex_less pending_skip pending_visit\<close>)+

declare collect_adj.simps [simp del]

lemma collect_adj_eqs:
  "collect_adj db visited adj [] = adj"
  "cur \<in> set visited \<Longrightarrow> collect_adj db visited adj (cur # rest) = collect_adj db visited adj rest"
  "cur \<notin> set visited \<Longrightarrow> collect_adj db visited adj (cur # rest)
     = collect_adj db (cur # visited) (foldl (add_adj cur) adj (both_sides cur db))
         (rest @ filter (\<lambda>n. n \<notin> set (cur # visited)) (both_sides cur db))"
  by (subst collect_adj.simps; simp)+

definition visit_next ::
  "string \<Rightarrow> (string, string) dict \<times> string list \<times> string list \<Rightarrow> string \<Rightarrow> (string, string) dict \<times> string list \<times> string list" where
  "visit_next cur st nxt =
     (case st of (prev, seen, queue) \<Rightarrow>
        if nxt \<in> set seen then st else (dset nxt cur prev, nxt # seen, queue @ [nxt]))"

lemma visit_next_eqs:
  "n \<in> set seen \<Longrightarrow> visit_next cur (prev, seen, queue) n = (prev, seen, queue)"
  "n \<notin> set seen \<Longrightarrow> visit_next cur (prev, seen, queue) n = (dset n cur prev, n # seen, queue @ [n])"
  by (simp_all add: visit_next_def)

definition adj_nodes :: "(string, string list) dict \<Rightarrow> string set" where
  "adj_nodes adj = \<Union> (set ` snd ` set adj)"

definition unseen :: "(string, string list) dict \<Rightarrow> string list \<Rightarrow> nat" where
  "unseen adj seen = card (adj_nodes adj - set seen)"

lemma adj_get_nodes: "set (adj_get adj u) \<subseteq> adj_nodes adj"
proof (cases "dget adj u")
  case (Some vs)
  then have "(u, vs) \<in> set adj" by (rule map_of_SomeD)
  with Some show ?thesis by (force simp: adj_get_def adj_nodes_def)
qed (simp add: adj_get_def)

lemma adj_nodes_finite [simp]: "finite (adj_nodes adj)"
  by (simp add: adj_nodes_def)

lemma visit_next_measure:
  assumes "set ns \<subseteq> adj_nodes adj" and "foldl (visit_next cur) (prev, seen, queue) ns = (prev', seen', queue')"
  shows "2 * unseen adj seen' + length queue' \<le> 2 * unseen adj seen + length queue"
  using assms
proof (induction ns arbitrary: prev seen queue)
  case (Cons n ns)
  show ?case
  proof (cases "n \<in> set seen")
    case True
    then show ?thesis using Cons by (simp add: visit_next_def)
  next
    case False
    have "unseen adj (n # seen) < unseen adj seen"
      unfolding unseen_def by (rule psubset_card_mono) (use False Cons.prems(1) in auto)
    moreover have "2 * unseen adj seen' + length queue' \<le> 2 * unseen adj (n # seen) + length (queue @ [n])"
      using Cons.prems False by (intro Cons.IH) (auto simp: visit_next_def)
    ultimately show ?thesis by simp
  qed
qed simp

function bfs ::
  "string \<Rightarrow> (string, string list) dict \<Rightarrow> (string, string) dict \<Rightarrow> string list \<Rightarrow> string list \<Rightarrow> (string, string) dict option" where
  "bfs child adj prev seen queue =
     (case queue of
        [] \<Rightarrow> None
      | cur # rest \<Rightarrow>
          if cur = child then Some prev
          else case foldl (visit_next cur) (prev, seen, rest) (adj_get adj cur) of
                 (prev', seen', queue') \<Rightarrow> bfs child adj prev' seen' queue')"
  by pat_completeness auto
termination
proof (relation "measure (\<lambda>(child, adj, prev, seen, queue). 2 * unseen adj seen + length queue)", goal_cases)
  case (2 child adj prev seen queue cur rest prev' y seen' queue')
  then have "foldl (visit_next cur) (prev, seen, rest) (adj_get adj cur) = (prev', seen', queue')" by metis
  from visit_next_measure [OF adj_get_nodes this] 2(1) show ?case by simp
qed simp

declare bfs.simps [simp del]

lemma bfs_eqs:
  "bfs child adj prev seen [] = None"
  "bfs child adj prev seen (child # rest) = Some prev"
  "cur \<noteq> child \<Longrightarrow> foldl (visit_next cur) (prev, seen, rest) (adj_get adj cur) = (prev', seen', queue')
     \<Longrightarrow> bfs child adj prev seen (cur # rest) = bfs child adj prev' seen' queue'"
  by (subst bfs.simps; simp)+

text \<open>
  Reading the path back: \<open>None\<close> is a missing predecessor or exhausted fuel.  The predecessor table has
  at most one entry per step, so its length bounds the number of steps.
\<close>

fun walk_back :: "nat \<Rightarrow> string \<Rightarrow> (string, string) dict \<Rightarrow> string \<Rightarrow> string list \<Rightarrow> string list option" where
  "walk_back n parent prev cur path =
     (if cur = parent then Some path
      else case n of
             0 \<Rightarrow> None
           | Suc k \<Rightarrow> (case dget prev cur of
                         None \<Rightarrow> None
                       | Some p \<Rightarrow> walk_back k parent prev p (p # path)))"

declare walk_back.simps [simp del]

definition lineage_path :: "string \<Rightarrow> string \<Rightarrow> 'a evidence_db_scheme \<Rightarrow> string list result" where
  "lineage_path parent child db =
     rbind (get_artifact parent db) (\<lambda>p.
     if p = None then Inr []
     else rbind (get_artifact child db) (\<lambda>c.
       if c = None then Inr []
       else if parent = child then Inr [parent]
       else
         let adj = collect_adj db [] [] [parent, child]
         in case bfs child adj [] [parent] [parent] of
              None \<Rightarrow> Inr []
            | Some prev \<Rightarrow>
                (case walk_back (length prev) parent prev child [child] of
                   Some path \<Rightarrow> Inr path
                 | None \<Rightarrow> Inl (KeyError child))))"

subsection \<open>The search is exact\<close>

definition adj_rel :: "(string, string list) dict \<Rightarrow> (string \<times> string) set" where
  "adj_rel adj = {(u, v). v \<in> set (adj_get adj u)}"

lemma adj_get_dset: "adj_get (dset u vs adj) v = (if v = u then vs else adj_get adj v)"
  by (simp add: adj_get_def)

lemma adj_get_add: "adj_get (foldl (add_adj u) adj ns) v = (if v = u then adj_get adj u @ ns else adj_get adj v)"
  by (induction ns arbitrary: adj) (auto simp: add_adj_def adj_get_dset)

definition collected :: "'a evidence_db_scheme \<Rightarrow> string list \<Rightarrow> (string, string list) dict \<Rightarrow> string list
    \<Rightarrow> (string, string list) dict \<Rightarrow> string set \<Rightarrow> bool" where
  "collected db visited adj frontier adj' V \<longleftrightarrow>
     set frontier \<subseteq> V \<union> set visited \<and> V \<inter> set visited = {}
     \<and> (\<forall>v \<in> V. set (both_sides v db) \<subseteq> V \<union> set visited \<and> adj_get adj' v = both_sides v db)
     \<and> (\<forall>v. v \<notin> V \<longrightarrow> adj_get adj' v = adj_get adj v)"

lemma collect_adj_spec:
  assumes "\<forall>v. v \<notin> set visited \<longrightarrow> adj_get adj v = []"
  shows "\<exists>V. collected db visited adj frontier (collect_adj db visited adj frontier) V"
  using assms
proof (induction db visited adj frontier rule: collect_adj.induct)
  case (1 db visited adj frontier)
  show ?case
  proof (cases frontier)
    case Nil
    then show ?thesis by (intro exI [of _ "{}"]) (simp add: collected_def collect_adj_eqs)
  next
    case (Cons cur rest)
    show ?thesis
    proof (cases "cur \<in> set visited")
      case True
      then obtain V where "collected db visited adj rest (collect_adj db visited adj rest) V"
        using "1.IH"(1) [OF Cons True "1.prems"] by blast
      with True Cons show ?thesis by (intro exI [of _ V]) (simp add: collected_def collect_adj_eqs(2))
    next
      case False
      let ?adj = "foldl (add_adj cur) adj (both_sides cur db)"
      let ?rest = "rest @ filter (\<lambda>n. n \<notin> set (cur # visited)) (both_sides cur db)"
      have "\<forall>v. v \<notin> set (cur # visited) \<longrightarrow> adj_get ?adj v = []"
        using "1.prems" by (simp add: adj_get_add)
      then obtain V where V: "collected db (cur # visited) ?adj ?rest (collect_adj db (cur # visited) ?adj ?rest) V"
        using "1.IH"(2) [OF Cons False] by blast
      have eq: "collect_adj db visited adj frontier = collect_adj db (cur # visited) ?adj ?rest"
        using Cons False by (simp only: collect_adj_eqs(3) not_False_eq_True)
      have "cur \<notin> V" using V by (auto simp: collected_def)
      moreover have "adj_get ?adj cur = both_sides cur db" using "1.prems" False by (simp add: adj_get_add)
      ultimately show ?thesis
        unfolding eq using V False Cons
        by (intro exI [of _ "insert cur V"]) (auto simp: collected_def adj_get_add)
    qed
  qed
qed

text \<open>The predecessor table, newest entry first, is a tree below the root.\<close>

fun tree_ok :: "string \<Rightarrow> (string \<times> string) set \<Rightarrow> (string \<times> string) list \<Rightarrow> bool" where
  "tree_ok root R [] = True"
| "tree_ok root R ((x, p) # ps) \<longleftrightarrow> x \<noteq> root \<and> x \<notin> fst ` set ps \<and> (p = root \<or> p \<in> fst ` set ps)
     \<and> (p, x) \<in> R \<and> tree_ok root R ps"

lemma walk_back_tree:
  assumes "tree_ok root R ps" and "\<And>k. k \<in> fst ` set ps \<Longrightarrow> dget prev k = map_of ps k"
    and "x = root \<or> x \<in> fst ` set ps" and "length ps \<le> n"
  shows "\<exists>ws. walk_back n root prev x (x # acc) = Some (ws @ acc) \<and> ws \<noteq> [] \<and> hd ws = root \<and> last ws = x
    \<and> successively (\<lambda>a b. (a, b) \<in> R) ws"
  using assms
proof (induction ps arbitrary: x n acc)
  case Nil
  then show ?case by (intro exI [of _ "[root]"]) (simp add: walk_back.simps)
next
  case (Cons yp ps)
  obtain y p where yp: "yp = (y, p)" by (cases yp)
  have old: "dget prev k = map_of ps k" if "k \<in> fst ` set ps" for k
  proof -
    have "dget prev k = map_of ((y, p) # ps) k" using Cons.prems(2) [of k] that yp by simp
    moreover have "y \<noteq> k" using Cons.prems(1) that yp by auto
    ultimately show ?thesis by simp
  qed
  have tree: "tree_ok root R ps" using Cons.prems(1) yp by simp
  show ?case
  proof (cases "x = y")
    case False
    then show ?thesis using Cons.IH [OF tree old, of x n acc] Cons.prems(3,4) yp by auto
  next
    case True
    then have prev: "dget prev x = Some p" "x \<noteq> root" "p = root \<or> p \<in> fst ` set ps" "(p, x) \<in> R"
      using Cons.prems(1,2) yp by auto
    obtain k where n: "n = Suc k" "length ps \<le> k" using Cons.prems(4) by (cases n) auto
    obtain ws where ws: "walk_back k root prev p (p # x # acc) = Some (ws @ x # acc)" "ws \<noteq> []" "hd ws = root"
      "last ws = p" "successively (\<lambda>a b. (a, b) \<in> R) ws"
      using Cons.IH [OF tree old prev(3) n(2), of "x # acc"] by blast
    have "walk_back n root prev x (x # acc) = walk_back k root prev p (p # x # acc)"
      using prev n by (subst walk_back.simps) simp
    with ws prev show ?thesis
      by (intro exI [of _ "ws @ [x]"]) (auto simp: successively_append_iff)
  qed
qed

lemma distinct_tree_ok: "tree_ok root R ps \<Longrightarrow> distinct (map fst ps)"
  by (induction root R ps rule: tree_ok.induct) auto

lemma map_of_rev_distinct: "distinct (map fst ps) \<Longrightarrow> map_of (rev ps) k = map_of ps k"
  by (simp add: map_of_inject_set [of "rev ps" ps, THEN iffD2] rev_map [symmetric])

lemma successively_rtrancl: "successively (\<lambda>a b. (a, b) \<in> R) ws \<Longrightarrow> ws \<noteq> [] \<Longrightarrow> (hd ws, last ws) \<in> R\<^sup>*"
  by (induction ws rule: induct_list012) (auto intro: converse_rtrancl_into_rtrancl)

definition bfs_ok :: "string \<Rightarrow> (string, string list) dict \<Rightarrow> (string, string) dict \<Rightarrow> string list \<Rightarrow> bool" where
  "bfs_ok root adj prev seen \<longleftrightarrow> tree_ok root (adj_rel adj) (rev prev) \<and> set seen = insert root (fst ` set prev)"

lemma visit_next_ok:
  assumes "foldl (visit_next cur) (prev, seen, queue) ns = (prev', seen', queue')"
    and "bfs_ok root adj prev seen" and "cur \<in> set seen" and "set ns \<subseteq> set (adj_get adj cur)"
  shows "bfs_ok root adj prev' seen' \<and> set seen' = set seen \<union> set ns
    \<and> set queue' = set queue \<union> (set seen' - set seen)"
  using assms
proof (induction ns arbitrary: prev seen queue)
  case (Cons n ns)
  show ?case
  proof (cases "n \<in> set seen")
    case True
    then show ?thesis using Cons.IH [of prev seen queue] Cons.prems by (simp add: visit_next_eqs) blast
  next
    case False
    have "dget prev n = None" using False Cons.prems(2) by (auto simp: bfs_ok_def map_of_eq_None_iff)
    then have snoc: "dset n cur prev = prev @ [(n, cur)]" by (rule dset_fresh)
    have "bfs_ok root adj (dset n cur prev) (n # seen)"
      using Cons.prems(2-4) False unfolding snoc by (auto simp: bfs_ok_def adj_rel_def)
    moreover have "foldl (visit_next cur) (dset n cur prev, n # seen, queue @ [n]) ns = (prev', seen', queue')"
      using Cons.prems(1) False by (simp add: visit_next_eqs)
    ultimately have "bfs_ok root adj prev' seen' \<and> set seen' = set (n # seen) \<union> set ns
        \<and> set queue' = set (queue @ [n]) \<union> (set seen' - set (n # seen))"
      using Cons.prems(3,4) by (intro Cons.IH) auto
    then show ?thesis using False by auto
  qed
qed auto

lemma bfs_exact:
  assumes "bfs_ok root adj prev seen" and "set queue \<subseteq> set seen"
    and "\<forall>s \<in> set seen - set queue. set (adj_get adj s) \<subseteq> set seen" and "child \<notin> set seen - set queue"
  shows "case bfs child adj prev seen queue of
      Some prev' \<Rightarrow> tree_ok root (adj_rel adj) (rev prev') \<and> (child = root \<or> child \<in> fst ` set prev')
    | None \<Rightarrow> (root, child) \<notin> (adj_rel adj)\<^sup>*"
  using assms
proof (induction child adj prev seen queue rule: bfs.induct)
  case (1 child adj prev seen queue)
  show ?case
  proof (cases queue)
    case Nil
    have "v \<in> set seen" if "(root, v) \<in> (adj_rel adj)\<^sup>*" for v
      using that
    proof (induction rule: rtrancl_induct)
      case base
      then show ?case using "1.prems"(1) by (simp add: bfs_ok_def)
    next
      case (step y z)
      then show ?case using "1.prems"(3) Nil by (auto simp: adj_rel_def)
    qed
    with Nil "1.prems"(4) show ?thesis by (auto simp: bfs_eqs)
  next
    case (Cons cur rest)
    show ?thesis
    proof (cases "cur = child")
      case True
      then have "child \<in> set seen" using "1.prems"(2) Cons by auto
      with True Cons "1.prems"(1) show ?thesis by (simp add: bfs_eqs bfs_ok_def)
    next
      case False
      obtain prev' seen' queue' where
        f: "foldl (visit_next cur) (prev, seen, rest) (adj_get adj cur) = (prev', seen', queue')"
        by (cases "foldl (visit_next cur) (prev, seen, rest) (adj_get adj cur)")
      have cur: "cur \<in> set seen" using "1.prems"(2) Cons by auto
      have v: "bfs_ok root adj prev' seen'" "set seen' = set seen \<union> set (adj_get adj cur)"
        "set queue' = set rest \<union> (set seen' - set seen)"
        using visit_next_ok [OF f "1.prems"(1) cur] by auto
      have "bfs child adj prev seen queue = bfs child adj prev' seen' queue'"
        using Cons bfs_eqs(3) [OF False f] by simp
      moreover have "set queue' \<subseteq> set seen'" using v "1.prems"(2) Cons by auto
      moreover have "\<forall>s \<in> set seen' - set queue'. set (adj_get adj s) \<subseteq> set seen'"
      proof
        fix s
        assume "s \<in> set seen' - set queue'"
        then have "s \<in> set seen" "s \<notin> set rest" using v by auto
        then show "set (adj_get adj s) \<subseteq> set seen'"
          using v(2) "1.prems"(3) Cons by (cases "s = cur") auto
      qed
      moreover have "child \<notin> set seen' - set queue'" using v "1.prems"(4) Cons False by auto
      ultimately show ?thesis using "1.IH" [OF Cons False f [symmetric] refl v(1)] by simp
    qed
  qed
qed

section \<open>Trees\<close>

datatype LineageTreeNode = TreeNode LineageNode "LineageTreeNode list" "LineageTreeNode list"

fun tree_root :: "LineageTreeNode \<Rightarrow> LineageNode" where
  "tree_root (TreeNode n ps cs) = n"

text \<open>
  \<open>_tree_nodes\<close>: a hash already on the path from the root is left out, so the recursion ends although
  it follows edges in both directions.
\<close>

function tree_nodes :: "'a evidence_db_scheme \<Rightarrow> string list \<Rightarrow> string list \<Rightarrow> LineageTreeNode list result" where
  "tree_nodes db visited hs =
     (case hs of
        [] \<Rightarrow> Inr []
      | h # rest \<Rightarrow>
          if h \<in> set visited then tree_nodes db visited rest
          else case get_artifact h db of
                 Inl e \<Rightarrow> Inl e
               | Inr None \<Rightarrow> tree_nodes db visited rest
               | Inr (Some env) \<Rightarrow>
                   (case tree_nodes db (h # visited) (neighbours Upstream h db) of
                      Inl e \<Rightarrow> Inl e
                    | Inr parents \<Rightarrow>
                        (case tree_nodes db (h # visited) (neighbours Downstream h db) of
                           Inl e \<Rightarrow> Inl e
                         | Inr children \<Rightarrow>
                             map_sum id (\<lambda>out. TreeNode (from_envelope env) parents children # out)
                               (tree_nodes db visited rest))))"
  by pat_completeness auto
termination
proof (relation "(\<lambda>(db, visited, hs). pending db visited hs) <*mlex*> measure (\<lambda>(db, visited, hs). length hs)")
  show "wf ((\<lambda>(db, visited, hs). pending db visited hs) <*mlex*> measure (\<lambda>(db, visited, hs). length hs))"
    by (rule wf_mlex) simp
qed (use neighbours_endpoints in \<open>fastforce intro: mlex_leq mlex_less pending_skip pending_visit\<close>)+

declare tree_nodes.simps [simp del]

definition lineage_tree :: "string \<Rightarrow> 'a evidence_db_scheme \<Rightarrow> LineageTreeNode option result" where
  "lineage_tree h db =
     rbind (get_artifact h db) (\<lambda>r. case r of
        None \<Rightarrow> Inr None
      | Some env \<Rightarrow>
          rbind (tree_nodes db [h] (neighbours Upstream h db)) (\<lambda>parents.
          rbind (tree_nodes db [h] (neighbours Downstream h db)) (\<lambda>children.
            Inr (Some (TreeNode (from_envelope env) parents children)))))"

text \<open>
  A tree whose nodes are stored artifacts, whose branches carry each hash at most once, and whose
  parents and children are connected by edges.
\<close>

inductive tree_valid :: "'a evidence_db_scheme \<Rightarrow> string list \<Rightarrow> LineageTreeNode \<Rightarrow> bool" for db where
  "find_evidence h db = Some env \<Longrightarrow> h \<notin> set upper
   \<Longrightarrow> (\<And>t. t \<in> set ps \<Longrightarrow> tree_valid db (h # upper) t \<and> (ln_hash (tree_root t), h) \<in> lineage_rel db)
   \<Longrightarrow> (\<And>t. t \<in> set cs \<Longrightarrow> tree_valid db (h # upper) t \<and> (h, ln_hash (tree_root t)) \<in> lineage_rel db)
   \<Longrightarrow> tree_valid db upper (TreeNode (from_envelope env) ps cs)"

lemma tree_nodes_valid:
  assumes "evidence_ok db"
  shows "\<exists>ts. tree_nodes db visited hs = Inr ts
    \<and> (\<forall>t \<in> set ts. tree_valid db visited t \<and> ln_hash (tree_root t) \<in> set hs)"
  using assms
proof (induction db visited hs rule: tree_nodes.induct)
  case (1 db visited hs)
  show ?case
  proof (cases hs)
    case Nil
    then show ?thesis by (simp add: tree_nodes.simps)
  next
    case (Cons h rest)
    show ?thesis
    proof (cases "h \<in> set visited")
      case True
      with "1.IH"(1) [OF Cons True "1.prems"] Cons show ?thesis
        by (subst tree_nodes.simps) auto
    next
      case False
      show ?thesis
      proof (cases "find_evidence h db")
        case None
        then have get: "get_artifact h db = Inr None" using "1.prems" by (simp add: get_artifact_ok)
        with "1.IH"(2) [OF Cons False get refl "1.prems"] Cons False show ?thesis
          by (subst tree_nodes.simps) auto
      next
        case (Some env)
        then have get: "get_artifact h db = Inr (Some env)" using "1.prems" by (simp add: get_artifact_ok)
        obtain ps where ps: "tree_nodes db (h # visited) (neighbours Upstream h db) = Inr ps"
          "\<forall>t \<in> set ps. tree_valid db (h # visited) t \<and> ln_hash (tree_root t) \<in> set (neighbours Upstream h db)"
          using "1.IH"(3) [OF Cons False get refl "1.prems"] by blast
        obtain cs where cs: "tree_nodes db (h # visited) (neighbours Downstream h db) = Inr cs"
          "\<forall>t \<in> set cs. tree_valid db (h # visited) t \<and> ln_hash (tree_root t) \<in> set (neighbours Downstream h db)"
          using "1.IH"(4) [OF Cons False get refl ps(1) "1.prems"] by blast
        obtain ts where ts: "tree_nodes db visited rest = Inr ts"
          "\<forall>t \<in> set ts. tree_valid db visited t \<and> ln_hash (tree_root t) \<in> set rest"
          using "1.IH"(5) [OF Cons False get refl ps(1) cs(1) "1.prems"] by blast
        have hash: "ev_hash env = h" using Some by (auto dest: find_evidence_Some)
        have "tree_valid db visited (TreeNode (from_envelope env) ps cs)"
          using ps(2) cs(2) by (intro tree_valid.intros [OF Some False]) (auto simp: neighbours_set)
        then show ?thesis using Cons False get ps(1) cs(1) ts hash
          by (subst tree_nodes.simps) (auto simp: from_envelope_def)
      qed
    qed
  qed
qed

text \<open>The tree of a stored artifact exists, is rooted at it and is valid.\<close>

lemma lineage_tree_valid:
  assumes "evidence_ok db" and "find_evidence h db = Some env"
  shows "\<exists>t. lineage_tree h db = Inr (Some t) \<and> tree_valid db [] t \<and> tree_root t = from_envelope env"
proof -
  obtain ps where ps: "tree_nodes db [h] (neighbours Upstream h db) = Inr ps"
    "\<forall>t \<in> set ps. tree_valid db [h] t \<and> ln_hash (tree_root t) \<in> set (neighbours Upstream h db)"
    using tree_nodes_valid [OF assms(1)] by blast
  obtain cs where cs: "tree_nodes db [h] (neighbours Downstream h db) = Inr cs"
    "\<forall>t \<in> set cs. tree_valid db [h] t \<and> ln_hash (tree_root t) \<in> set (neighbours Downstream h db)"
    using tree_nodes_valid [OF assms(1)] by blast
  have "tree_valid db [] (TreeNode (from_envelope env) ps cs)"
    using ps(2) cs(2) by (intro tree_valid.intros [OF assms(2)]) (auto simp: neighbours_set)
  then show ?thesis using ps(1) cs(1) assms by (simp add: lineage_tree_def get_artifact_ok)
qed

section \<open>Path queries\<close>

text \<open>
  \<open>path\<close> is exact and always returns: for two stored artifacts it yields a list of hashes from the
  first to the second in which neighbours are joined by an edge in one direction or the other, or the
  empty tuple exactly when the artifacts are not connected; for an unknown artifact it is empty.
\<close>

lemma lineage_path_exact:
  assumes "empty_evidence db0" and "ev_step\<^sup>*\<^sup>* db0 db"
  shows "\<exists>ws. lineage_path p c db = Inr ws
    \<and> (if find_evidence p db = None \<or> find_evidence c db = None
           \<or> (p, c) \<notin> (lineage_rel db \<union> (lineage_rel db)\<inverse>)\<^sup>*
       then ws = []
       else ws \<noteq> [] \<and> hd ws = p \<and> last ws = c
         \<and> successively (\<lambda>a b. (a, b) \<in> lineage_rel db \<or> (b, a) \<in> lineage_rel db) ws)"
proof -
  have ok: "evidence_ok db"
    using evidence_log.inv_init [OF assms(1)] assms(2) by (rule evidence_log.run_inv [rotated])
  define S where "S = lineage_rel db \<union> (lineage_rel db)\<inverse>"
  have sides: "(u, v) \<in> S \<longleftrightarrow> v \<in> set (both_sides u db)" for u v
    by (auto simp: S_def both_sides_def neighbours_set)
  let ?adj = "collect_adj db [] [] [p, c]"
  obtain V where V: "collected db [] [] [p, c] ?adj V"
    using collect_adj_spec [of "[]" "[]" db "[p, c]"] by (auto simp: adj_get_def)
  have "adj_get ?adj u = (if u \<in> V then both_sides u db else [])" for u
    using V by (auto simp: collected_def adj_get_def [of "[]"])
  then have sub: "adj_rel ?adj \<subseteq> S" by (auto simp: adj_rel_def sides split: if_splits)
  have conn: "(p, v) \<in> (adj_rel ?adj)\<^sup>* \<and> v \<in> V" if "(p, v) \<in> S\<^sup>*" for v
    using that
  proof (induction rule: rtrancl_induct)
    case base
    then show ?case using V by (simp add: collected_def)
  next
    case (step y z)
    then have "z \<in> set (both_sides y db)" "y \<in> V" by (simp_all add: sides)
    then have "z \<in> V" "(y, z) \<in> adj_rel ?adj" using V by (auto simp: collected_def adj_rel_def)
    with step show ?case by (meson rtrancl.rtrancl_into_rtrancl)
  qed
  show ?thesis
  proof (cases "find_evidence p db = None \<or> find_evidence c db = None \<or> p = c")
    case True
    then show ?thesis using ok by (auto simp: lineage_path_def get_artifact_ok)
  next
    case False
    have start: "case bfs c ?adj [] [p] [p] of
        Some prev' \<Rightarrow> tree_ok p (adj_rel ?adj) (rev prev') \<and> (c = p \<or> c \<in> fst ` set prev')
      | None \<Rightarrow> (p, c) \<notin> (adj_rel ?adj)\<^sup>*"
      by (rule bfs_exact) (simp_all add: bfs_ok_def)
    show ?thesis
    proof (cases "bfs c ?adj [] [p] [p]")
      case None
      then have "(p, c) \<notin> S\<^sup>*" using start conn by auto
      then show ?thesis using False None ok by (simp add: lineage_path_def get_artifact_ok S_def)
    next
      case (Some prev)
      then have tree: "tree_ok p (adj_rel ?adj) (rev prev)" and c: "c = p \<or> c \<in> fst ` set (rev prev)"
        using start by auto
      have look: "dget prev k = map_of (rev prev) k" for k
        using map_of_rev_distinct [OF distinct_tree_ok [OF tree]] by simp
      obtain ws where ws: "walk_back (length prev) p prev c [c] = Some ws" "ws \<noteq> []" "hd ws = p" "last ws = c"
        "successively (\<lambda>a b. (a, b) \<in> adj_rel ?adj) ws"
        using walk_back_tree [OF tree look c, of "length prev" "[]"] by auto
      have succ: "successively (\<lambda>a b. (a, b) \<in> S) ws"
        using ws(5) sub by (auto elim!: successively_mono)
      then have "(hd ws, last ws) \<in> S\<^sup>*" using ws(2) by (rule successively_rtrancl)
      with ws succ False Some ok show ?thesis
        by (auto simp: lineage_path_def get_artifact_ok S_def Let_def elim!: successively_mono)
    qed
  qed
qed

section \<open>Witnesses\<close>

definition plain_envelope :: "string \<Rightarrow> string \<Rightarrow> string list \<Rightarrow> EvidenceEnvelope" where
  "plain_envelope t h ps = \<lparr>ev_type = t, ev_hash = h, ev_payload = JObj [], ev_version = ''1'',
     ev_created_at = ''2026'', ev_parents = ps, ev_lineage_hash = []\<rparr>"

definition ex_chain1 :: evidence_db where
  "ex_chain1 = snd (append_artifact (plain_envelope ''Run'' ''run'' []) ''now'' ex_empty)"

definition ex_chain2 :: evidence_db where
  "ex_chain2 = snd (append_artifact (plain_envelope ''Result'' ''res'' [''run'']) ''now'' ex_chain1)"

lemma ex_chain2: "evidence ex_chain2 = [plain_envelope ''Run'' ''run'' [], plain_envelope ''Result'' ''res'' [''run'']]"
  "lineage ex_chain2 = [\<lparr>le_parent = ''run'', le_child = ''res'', le_relation = ''produces'', le_created_at = ''now''\<rparr>]"
  by (simp_all add: ex_chain2_def ex_chain1_def append_artifact_def verify_def plain_envelope_def ex_empty_def
      find_evidence_def missing_parents_def insert_evidence_mirror_def Let_def insert_edge_def default_relation_def)

lemma ex_chain_steps: "ev_step\<^sup>*\<^sup>* ex_empty ex_chain2"
proof -
  have "wf_envelope (plain_envelope ''Run'' ''run'' [])" "wf_envelope (plain_envelope ''Result'' ''res'' [''run''])"
    by (simp_all add: wf_envelope_def plain_envelope_def ARTIFACT_TYPES_def)
  then have "ev_step ex_empty ex_chain1" "ev_step ex_chain1 ex_chain2"
    by (auto simp: ex_chain1_def ex_chain2_def intro: ev_append)
  then show ?thesis by (meson converse_rtranclp_into_rtranclp rtranclp.rtrancl_refl)
qed

lemma ex_chain_facts: "lineage_rel ex_chain2 = {(''run'', ''res'')}"
  "find_evidence ''res'' ex_chain2 = Some (plain_envelope ''Result'' ''res'' [''run''])"
  "find_evidence ''run'' ex_chain2 = Some (plain_envelope ''Run'' ''run'' [])"
  by (auto simp: lineage_rel_def ex_chain2 find_evidence_def plain_envelope_def)

theorem lineage_queries_exact_witness:
  "\<exists>up. ancestors ''res'' ex_chain2 = Inr up \<and> set (map ev_hash up) = {''run''} \<and> sorted (map ev_hash up)"
proof -
  have "(p, ''res'') \<in> {(''run'', ''res'')}\<^sup>+ \<longleftrightarrow> p = ''run''" for p
    by (auto elim: trancl.cases converse_tranclE)
  then show ?thesis
    using lineage_queries_exact [OF ex_empty_evidence ex_chain_steps, of "''res''"] by (auto simp: ex_chain_facts)
qed

end
