(* ===== verification/Claims.thy ===== *)
theory Claims
  imports Lineage
begin

text \<open>
  Research claims (\<open>researchos/claims/claim.py\<close>): the analysis plan, the claim object with its plan
  lock, and the bridge from claims into the evidence graph (\<open>researchos/claims/evidence_graph.py\<close>).
  Reading claims back from storage (\<open>from_dict\<close>) is not modelled.
\<close>

section \<open>Plans\<close>

datatype ResearchClaimType = Claim_EMPIRICAL | Claim_CAUSAL | Claim_PREDICTIVE | Claim_DESCRIPTIVE | Claim_ROBUSTNESS

fun ResearchClaimType_value :: "ResearchClaimType \<Rightarrow> string" where
  "ResearchClaimType_value Claim_EMPIRICAL = ''empirical''"
| "ResearchClaimType_value Claim_CAUSAL = ''causal''"
| "ResearchClaimType_value Claim_PREDICTIVE = ''predictive''"
| "ResearchClaimType_value Claim_DESCRIPTIVE = ''descriptive''"
| "ResearchClaimType_value Claim_ROBUSTNESS = ''robustness''"

datatype EvidenceState =
    State_UNTESTED | State_TESTED | State_INCONCLUSIVE | State_CONTRADICTED | State_CANDIDATE
  | State_ROBUSTNESS | State_REPLICATION | State_SUPPORTED | State_REJECTED

fun EvidenceState_value :: "EvidenceState \<Rightarrow> string" where
  "EvidenceState_value State_UNTESTED = ''UNTESTED''"
| "EvidenceState_value State_TESTED = ''TESTED''"
| "EvidenceState_value State_INCONCLUSIVE = ''INCONCLUSIVE''"
| "EvidenceState_value State_CONTRADICTED = ''CONTRADICTED''"
| "EvidenceState_value State_CANDIDATE = ''CANDIDATE''"
| "EvidenceState_value State_ROBUSTNESS = ''ROBUSTNESS''"
| "EvidenceState_value State_REPLICATION = ''REPLICATION''"
| "EvidenceState_value State_SUPPORTED = ''SUPPORTED''"
| "EvidenceState_value State_REJECTED = ''REJECTED''"

definition all_claim_types :: "ResearchClaimType list" where
  "all_claim_types = [Claim_EMPIRICAL, Claim_CAUSAL, Claim_PREDICTIVE, Claim_DESCRIPTIVE, Claim_ROBUSTNESS]"

definition all_evidence_states :: "EvidenceState list" where
  "all_evidence_states = [State_UNTESTED, State_TESTED, State_INCONCLUSIVE, State_CONTRADICTED, State_CANDIDATE,
     State_ROBUSTNESS, State_REPLICATION, State_SUPPORTED, State_REJECTED]"

text \<open>\<open>ResearchClaimType(value)\<close> and \<open>EvidenceState(value)\<close>.\<close>

definition parse_claim_type :: "string \<Rightarrow> ResearchClaimType result" where
  "parse_claim_type s = (case find (\<lambda>t. ResearchClaimType_value t = s) all_claim_types of
     Some t \<Rightarrow> Inr t | None \<Rightarrow> Inl (ValueError (s @ '' is not a valid ResearchClaimType'')))"

definition parse_evidence_state :: "string \<Rightarrow> EvidenceState result" where
  "parse_evidence_state s = (case find (\<lambda>t. EvidenceState_value t = s) all_evidence_states of
     Some t \<Rightarrow> Inr t | None \<Rightarrow> Inl (ValueError (s @ '' is not a valid EvidenceState'')))"

lemma parse_claim_type_value [simp]: "parse_claim_type (ResearchClaimType_value t) = Inr t"
  by (cases t) (simp_all add: parse_claim_type_def all_claim_types_def)

lemma parse_evidence_state_value [simp]: "parse_evidence_state (EvidenceState_value t) = Inr t"
  by (cases t) (simp_all add: parse_evidence_state_def all_evidence_states_def)

record ResearchPlan =
  hypothesis :: string
  sample_definition :: string
  features :: "string list"
  labels :: "string list"
  train_validation_test :: string
  exclusions :: "string list"
  costs_slippage :: string
  statistical_tests :: "string list"
  plan_metrics :: "string list"
  stopping_rules :: "string list"
  multiple_testing_policy :: string
  replication_policy :: string

definition ResearchPlan_init :: "ResearchPlan \<Rightarrow> ResearchPlan result" where
  "ResearchPlan_init p =
     (case find (\<lambda>(name, v). blank v)
        [(''hypothesis'', hypothesis p), (''sample_definition'', sample_definition p),
         (''train_validation_test'', train_validation_test p), (''costs_slippage'', costs_slippage p),
         (''multiple_testing_policy'', multiple_testing_policy p), (''replication_policy'', replication_policy p)] of
        Some (name, _) \<Rightarrow> Inl (ValueError (''ResearchPlan.'' @ name @ '' is required''))
      | None \<Rightarrow>
          if features p = [] then Inl (ValueError ''ResearchPlan.features must not be empty'')
          else if plan_metrics p = [] then Inl (ValueError ''ResearchPlan.metrics must not be empty'')
          else Inr p)"

definition jstrs :: "string list \<Rightarrow> json" where
  "jstrs ss = JList (map JStr ss)"

definition ResearchPlan_to_dict :: "ResearchPlan \<Rightarrow> (string \<times> json) list" where
  "ResearchPlan_to_dict p =
     [(''hypothesis'', JStr (hypothesis p)), (''sample_definition'', JStr (sample_definition p)),
      (''features'', jstrs (features p)), (''labels'', jstrs (labels p)),
      (''train_validation_test'', JStr (train_validation_test p)), (''exclusions'', jstrs (exclusions p)),
      (''costs_slippage'', JStr (costs_slippage p)), (''statistical_tests'', jstrs (statistical_tests p)),
      (''metrics'', jstrs (plan_metrics p)), (''stopping_rules'', jstrs (stopping_rules p)),
      (''multiple_testing_policy'', JStr (multiple_testing_policy p)),
      (''replication_policy'', JStr (replication_policy p))]"

definition content_hash :: "ResearchPlan \<Rightarrow> string" where
  "content_hash p = json_sha256 fmt_default (JObj (ResearchPlan_to_dict p))"

text \<open>\<open>from_dict\<close>: \<open>str\<close> of every entry, a missing list is empty, a missing text is a \<open>KeyError\<close>.\<close>

definition text_field :: "(string \<times> json) list \<Rightarrow> string \<Rightarrow> string result" where
  "text_field data k = (case dget data k of None \<Rightarrow> Inl (KeyError k) | Some v \<Rightarrow> Inr (py_str v))"

definition list_field :: "(string \<times> json) list \<Rightarrow> string \<Rightarrow> string list result" where
  "list_field data k =
     (case dget data k of
        None \<Rightarrow> Inr []
      | Some (JList vs) \<Rightarrow> Inr (map py_str vs)
      | Some (JStr s) \<Rightarrow> Inr (map (\<lambda>c. [c]) s)
      | Some (JObj kvs) \<Rightarrow> Inr (map fst kvs)
      | Some _ \<Rightarrow> Inl (TypeError ''object is not iterable''))"

definition ResearchPlan_from_dict :: "(string \<times> json) list \<Rightarrow> ResearchPlan result" where
  "ResearchPlan_from_dict data =
     rbind (text_field data ''hypothesis'') (\<lambda>hyp.
     rbind (text_field data ''sample_definition'') (\<lambda>sd.
     rbind (list_field data ''features'') (\<lambda>fs.
     rbind (list_field data ''labels'') (\<lambda>ls.
     rbind (text_field data ''train_validation_test'') (\<lambda>tvt.
     rbind (list_field data ''exclusions'') (\<lambda>ex.
     rbind (text_field data ''costs_slippage'') (\<lambda>cs.
     rbind (list_field data ''statistical_tests'') (\<lambda>st.
     rbind (list_field data ''metrics'') (\<lambda>ms.
     rbind (list_field data ''stopping_rules'') (\<lambda>sr.
     rbind (text_field data ''multiple_testing_policy'') (\<lambda>mtp.
     rbind (text_field data ''replication_policy'') (\<lambda>rp.
       ResearchPlan_init \<lparr>hypothesis = hyp, sample_definition = sd, features = fs, labels = ls,
         train_validation_test = tvt, exclusions = ex, costs_slippage = cs, statistical_tests = st,
         plan_metrics = ms, stopping_rules = sr, multiple_testing_policy = mtp, replication_policy = rp\<rparr>))))))))))))"

lemma jstrs_field [simp]: "map py_str (map JStr ss) = ss"
  by (induction ss) auto

text \<open>A plan survives serialisation.\<close>

lemma plan_roundtrip:
  assumes "ResearchPlan_init p = Inr q"
  shows "ResearchPlan_from_dict (ResearchPlan_to_dict p) = Inr p"
proof -
  have "q = p" using assms by (auto simp: ResearchPlan_init_def split: option.splits if_splits)
  with assms show ?thesis
    by (cases p) (simp add: ResearchPlan_from_dict_def ResearchPlan_to_dict_def text_field_def list_field_def
        jstrs_def comp_def)
qed

section \<open>Claims\<close>

record ResearchClaim = BaseObject +
  statement :: string
  claim_type :: ResearchClaimType
  target_population :: string
  instrument :: string
  horizon :: string
  timestamp_policy :: string
  economic_rationale :: string
  falsification_conditions :: "string list"
  primary_metrics :: "string list"
  minimum_evidence_requirements :: "string list"
  creator :: string
  claim_workspace_id :: string
  research_id :: "string option"
  claim_version :: int
  parent_claim_id :: "string option"
  evidence_state :: EvidenceState
  research_plan :: "ResearchPlan option"
  plan_locked_at :: "string option"
  claim_plan_hash :: "string option"
  experiment_ids :: "string list"
  evidence_hashes :: "string list"
  plan_lock_active :: bool

record claim_args =
  arg_statement :: string
  arg_claim_type :: string
  arg_target_population :: string
  arg_instrument :: string
  arg_horizon :: string
  arg_timestamp_policy :: string
  arg_economic_rationale :: string
  arg_falsification_conditions :: "string list"
  arg_primary_metrics :: "string list"
  arg_minimum_evidence_requirements :: "string list"
  arg_creator :: string
  arg_workspace_id :: string
  arg_research_id :: "string option"
  arg_ontology_tags :: "string list"
  arg_id :: "string option"
  arg_version :: int
  arg_parent_claim_id :: "string option"

definition claim_seed :: "claim_args \<Rightarrow> ResearchClaimType \<Rightarrow> string" where
  "claim_seed a t = ''ResearchClaim|'' @ arg_workspace_id a @ ''|'' @ arg_statement a @ ''|''
     @ ResearchClaimType_value t @ ''|'' @ py_str_int (arg_version a) @ ''|'' @ or_empty (arg_parent_claim_id a)"

definition ResearchClaim_init :: "claim_args \<Rightarrow> (nat \<Rightarrow> string) \<Rightarrow> ResearchClaim result" where
  "ResearchClaim_init a clock =
     (if blank (arg_statement a) then Inl (ValueError ''ResearchClaim.statement is required'')
      else if arg_version a < 1 then Inl (ValueError ''ResearchClaim.version must be >= 1'')
      else if arg_version a = 1 \<and> arg_parent_claim_id a \<noteq> None
      then Inl (ValueError ''version 1 cannot have parent_claim_id'')
      else if arg_version a > 1 \<and> or_empty (arg_parent_claim_id a) = []
      then Inl (ValueError ''version > 1 requires parent_claim_id'')
      else
        rbind (parse_claim_type (arg_claim_type a)) (\<lambda>t.
        rbind (case arg_id a of Some i \<Rightarrow> Inr i | None \<Rightarrow> generate_id (claim_seed a t)) (\<lambda>i.
        rbind (BaseObject_init ''ResearchClaim'' (Some i) None (arg_ontology_tags a) clock) (\<lambda>b.
          Inr \<lparr>bo_id = bo_id b, bo_created_at = bo_created_at b, bo_ontology_tags = bo_ontology_tags b,
            bo_lifecycle = bo_lifecycle b, statement = py_strip (arg_statement a), claim_type = t,
            target_population = py_strip (arg_target_population a), instrument = py_strip (arg_instrument a),
            horizon = py_strip (arg_horizon a), timestamp_policy = py_strip (arg_timestamp_policy a),
            economic_rationale = py_strip (arg_economic_rationale a),
            falsification_conditions = arg_falsification_conditions a,
            primary_metrics = arg_primary_metrics a,
            minimum_evidence_requirements = arg_minimum_evidence_requirements a,
            creator = py_strip (arg_creator a), claim_workspace_id = py_strip (arg_workspace_id a),
            research_id = arg_research_id a, claim_version = arg_version a,
            parent_claim_id = arg_parent_claim_id a, evidence_state = State_UNTESTED, research_plan = None,
            plan_locked_at = None, claim_plan_hash = None, experiment_ids = [], evidence_hashes = [],
            plan_lock_active = False\<rparr>))))"

text \<open>
  Assignments of the public attributes and the guard of \<open>__setattr__\<close>.  The private flag
  \<open>_plan_lock_active\<close>, which Python lets any caller assign, is assigned by \<open>lock_plan\<close> only.
\<close>

datatype claim_update =
    Set_statement string
  | Set_claim_type ResearchClaimType
  | Set_target_population string
  | Set_instrument string
  | Set_horizon string
  | Set_timestamp_policy string
  | Set_economic_rationale string
  | Set_falsification_conditions "string list"
  | Set_primary_metrics "string list"
  | Set_minimum_evidence_requirements "string list"
  | Set_creator string
  | Set_workspace_id string
  | Set_research_id "string option"
  | Set_version int
  | Set_parent_claim_id "string option"
  | Set_research_plan "ResearchPlan option"
  | Set_plan_hash "string option"
  | Set_evidence_state EvidenceState
  | Set_plan_locked_at "string option"
  | Set_experiment_ids "string list"
  | Set_evidence_hashes "string list"
  | Set_ontology_tags "string list"
  | Set_created_at string
  | Set_id string

fun update_name :: "claim_update \<Rightarrow> string" where
  "update_name (Set_statement _) = ''statement''"
| "update_name (Set_claim_type _) = ''claim_type''"
| "update_name (Set_target_population _) = ''target_population''"
| "update_name (Set_instrument _) = ''instrument''"
| "update_name (Set_horizon _) = ''horizon''"
| "update_name (Set_timestamp_policy _) = ''timestamp_policy''"
| "update_name (Set_economic_rationale _) = ''economic_rationale''"
| "update_name (Set_falsification_conditions _) = ''falsification_conditions''"
| "update_name (Set_primary_metrics _) = ''primary_metrics''"
| "update_name (Set_minimum_evidence_requirements _) = ''minimum_evidence_requirements''"
| "update_name (Set_creator _) = ''creator''"
| "update_name (Set_workspace_id _) = ''workspace_id''"
| "update_name (Set_research_id _) = ''research_id''"
| "update_name (Set_version _) = ''version''"
| "update_name (Set_parent_claim_id _) = ''parent_claim_id''"
| "update_name (Set_research_plan _) = ''research_plan''"
| "update_name (Set_plan_hash _) = ''plan_hash''"
| "update_name (Set_evidence_state _) = ''evidence_state''"
| "update_name (Set_plan_locked_at _) = ''plan_locked_at''"
| "update_name (Set_experiment_ids _) = ''experiment_ids''"
| "update_name (Set_evidence_hashes _) = ''evidence_hashes''"
| "update_name (Set_ontology_tags _) = ''ontology_tags''"
| "update_name (Set_created_at _) = ''created_at''"
| "update_name (Set_id _) = ''id''"

fun apply_update :: "claim_update \<Rightarrow> ResearchClaim \<Rightarrow> ResearchClaim" where
  "apply_update (Set_statement x) c = c\<lparr>statement := x\<rparr>"
| "apply_update (Set_claim_type x) c = c\<lparr>claim_type := x\<rparr>"
| "apply_update (Set_target_population x) c = c\<lparr>target_population := x\<rparr>"
| "apply_update (Set_instrument x) c = c\<lparr>instrument := x\<rparr>"
| "apply_update (Set_horizon x) c = c\<lparr>horizon := x\<rparr>"
| "apply_update (Set_timestamp_policy x) c = c\<lparr>timestamp_policy := x\<rparr>"
| "apply_update (Set_economic_rationale x) c = c\<lparr>economic_rationale := x\<rparr>"
| "apply_update (Set_falsification_conditions x) c = c\<lparr>falsification_conditions := x\<rparr>"
| "apply_update (Set_primary_metrics x) c = c\<lparr>primary_metrics := x\<rparr>"
| "apply_update (Set_minimum_evidence_requirements x) c = c\<lparr>minimum_evidence_requirements := x\<rparr>"
| "apply_update (Set_creator x) c = c\<lparr>creator := x\<rparr>"
| "apply_update (Set_workspace_id x) c = c\<lparr>claim_workspace_id := x\<rparr>"
| "apply_update (Set_research_id x) c = c\<lparr>research_id := x\<rparr>"
| "apply_update (Set_version x) c = c\<lparr>claim_version := x\<rparr>"
| "apply_update (Set_parent_claim_id x) c = c\<lparr>parent_claim_id := x\<rparr>"
| "apply_update (Set_research_plan x) c = c\<lparr>research_plan := x\<rparr>"
| "apply_update (Set_plan_hash x) c = c\<lparr>claim_plan_hash := x\<rparr>"
| "apply_update (Set_evidence_state x) c = c\<lparr>evidence_state := x\<rparr>"
| "apply_update (Set_plan_locked_at x) c = c\<lparr>plan_locked_at := x\<rparr>"
| "apply_update (Set_experiment_ids x) c = c\<lparr>experiment_ids := x\<rparr>"
| "apply_update (Set_evidence_hashes x) c = c\<lparr>evidence_hashes := x\<rparr>"
| "apply_update (Set_ontology_tags x) c = c\<lparr>bo_ontology_tags := x\<rparr>"
| "apply_update (Set_created_at x) c = c\<lparr>bo_created_at := x\<rparr>"
| "apply_update (Set_id x) c = c\<lparr>bo_id := x\<rparr>"

definition SEMANTIC_FIELDS :: "string list" where
  "SEMANTIC_FIELDS = [''statement'', ''claim_type'', ''target_population'', ''instrument'', ''horizon'',
     ''timestamp_policy'', ''economic_rationale'', ''falsification_conditions'',
     ''primary_metrics'', ''minimum_evidence_requirements'', ''creator'', ''workspace_id'',
     ''research_id'', ''version'', ''parent_claim_id'', ''research_plan'', ''plan_hash'']"

definition claim_setattr :: "claim_update \<Rightarrow> ResearchClaim \<Rightarrow> (unit, ResearchClaim) outcome" where
  "claim_setattr u c =
     (if update_name u \<in> set SEMANTIC_FIELDS \<and> plan_lock_active c
      then (Inl (AttributeError (''ResearchClaim.'' @ update_name u
        @ '' is immutable after plan lock; fork a new claim version'')), c)
      else (Inr (), apply_update u c))"

definition is_plan_locked :: "ResearchClaim \<Rightarrow> bool" where
  "is_plan_locked c \<longleftrightarrow> plan_locked_at c \<noteq> None"

text \<open>\<open>lock_plan\<close> assigns through \<open>__setattr__\<close>: the plan, its hash, the time, then the lock itself.\<close>

definition lock_plan :: "ResearchPlan \<Rightarrow> string \<Rightarrow> ResearchClaim \<Rightarrow> (string, ResearchClaim) outcome" where
  "lock_plan plan now c =
     (if is_plan_locked c
      then if claim_plan_hash c = Some (content_hash plan) then (Inr (content_hash plan), c)
           else (Inl (ValueError ''Research plan is already locked and cannot be replaced''), c)
      else case claim_setattr (Set_research_plan (Some plan)) c of
             (Inl e, c1) \<Rightarrow> (Inl e, c1)
           | (Inr _, c1) \<Rightarrow>
               (case claim_setattr (Set_plan_hash (Some (content_hash plan))) c1 of
                  (Inl e, c2) \<Rightarrow> (Inl e, c2)
                | (Inr _, c2) \<Rightarrow>
                    (Inr (content_hash plan), c2\<lparr>plan_locked_at := Some now, plan_lock_active := True\<rparr>)))"

definition add_experiment :: "string \<Rightarrow> ResearchClaim \<Rightarrow> (unit, ResearchClaim) outcome" where
  "add_experiment i c =
     (if blank i then (Inl (ValueError ''experiment_id is required''), c)
      else if i \<in> set (experiment_ids c) then (Inr (), c)
      else (Inr (), c\<lparr>experiment_ids := experiment_ids c @ [i]\<rparr>))"

definition add_evidence :: "string \<Rightarrow> ResearchClaim \<Rightarrow> (unit, ResearchClaim) outcome" where
  "add_evidence h c =
     (if blank h then (Inl (ValueError ''evidence_hash is required''), c)
      else if h \<in> set (evidence_hashes c) then (Inr (), c)
      else (Inr (), c\<lparr>evidence_hashes := evidence_hashes c @ [h]\<rparr>))"

definition set_evidence_state :: "string \<Rightarrow> ResearchClaim \<Rightarrow> (unit, ResearchClaim) outcome" where
  "set_evidence_state s c =
     (case parse_evidence_state s of
        Inl e \<Rightarrow> (Inl e, c)
      | Inr st \<Rightarrow> (Inr (), c\<lparr>evidence_state := st\<rparr>))"

definition fork_version :: "string option \<Rightarrow> (nat \<Rightarrow> string) \<Rightarrow> ResearchClaim \<Rightarrow> ResearchClaim result" where
  "fork_version new_statement clock c =
     ResearchClaim_init
       \<lparr>arg_statement = (if or_empty new_statement = [] then statement c else or_empty new_statement),
        arg_claim_type = ResearchClaimType_value (claim_type c), arg_target_population = target_population c,
        arg_instrument = instrument c, arg_horizon = horizon c, arg_timestamp_policy = timestamp_policy c,
        arg_economic_rationale = economic_rationale c,
        arg_falsification_conditions = falsification_conditions c, arg_primary_metrics = primary_metrics c,
        arg_minimum_evidence_requirements = minimum_evidence_requirements c, arg_creator = creator c,
        arg_workspace_id = claim_workspace_id c, arg_research_id = research_id c,
        arg_ontology_tags = bo_ontology_tags c, arg_id = None, arg_version = claim_version c + 1,
        arg_parent_claim_id = Some (bo_id c)\<rparr> clock"

definition claim_hashable :: "ResearchClaim \<Rightarrow> json" where
  "claim_hashable c =
     JObj [(''statement'', JStr (statement c)), (''claim_type'', JStr (ResearchClaimType_value (claim_type c))),
       (''target_population'', JStr (target_population c)), (''instrument'', JStr (instrument c)),
       (''horizon'', JStr (horizon c)), (''timestamp_policy'', JStr (timestamp_policy c)),
       (''economic_rationale'', JStr (economic_rationale c)),
       (''falsification_conditions'', jstrs (sort (falsification_conditions c))),
       (''primary_metrics'', jstrs (sort (primary_metrics c))),
       (''minimum_evidence_requirements'', jstrs (sort (minimum_evidence_requirements c))),
       (''creator'', JStr (creator c)), (''workspace_id'', JStr (claim_workspace_id c)),
       (''research_id'', JStr (or_empty (research_id c))), (''version'', JInt (claim_version c)),
       (''parent_claim_id'', JStr (or_empty (parent_claim_id c))),
       (''plan_hash'', JStr (or_empty (claim_plan_hash c))),
       (''experiment_ids'', jstrs (sort (experiment_ids c))),
       (''evidence_hashes'', jstrs (sort (evidence_hashes c))),
       (''evidence_state'', JStr (EvidenceState_value (evidence_state c))),
       (''ontology_tags'', jstrs (sort (bo_ontology_tags c)))]"

definition claim_hash :: "ResearchClaim \<Rightarrow> string" where
  "claim_hash c = deterministic_hash (claim_hashable c)"

definition jopt :: "string option \<Rightarrow> json" where
  "jopt x = (case x of None \<Rightarrow> JNull | Some s \<Rightarrow> JStr s)"

definition claim_to_dict :: "ResearchClaim \<Rightarrow> (string \<times> json) list result" where
  "claim_to_dict c =
     map_sum id (\<lambda>base. fold (\<lambda>(k, v). dset k v)
       [(''statement'', JStr (statement c)), (''claim_type'', JStr (ResearchClaimType_value (claim_type c))),
        (''target_population'', JStr (target_population c)), (''instrument'', JStr (instrument c)),
        (''horizon'', JStr (horizon c)), (''timestamp_policy'', JStr (timestamp_policy c)),
        (''economic_rationale'', JStr (economic_rationale c)),
        (''falsification_conditions'', jstrs (falsification_conditions c)),
        (''primary_metrics'', jstrs (primary_metrics c)),
        (''minimum_evidence_requirements'', jstrs (minimum_evidence_requirements c)),
        (''creator'', JStr (creator c)), (''workspace_id'', JStr (claim_workspace_id c)),
        (''research_id'', jopt (research_id c)), (''version'', JInt (claim_version c)),
        (''parent_claim_id'', jopt (parent_claim_id c)),
        (''evidence_state'', JStr (EvidenceState_value (evidence_state c))),
        (''research_plan'', case research_plan c of None \<Rightarrow> JNull | Some p \<Rightarrow> JObj (ResearchPlan_to_dict p)),
        (''plan_locked_at'', jopt (plan_locked_at c)), (''plan_hash'', jopt (claim_plan_hash c)),
        (''experiment_ids'', jstrs (experiment_ids c)), (''evidence_hashes'', jstrs (evidence_hashes c))] base)
       (BaseObject_to_dict ''ResearchClaim'' (claim_hashable c) c)"

section \<open>The plan lock\<close>

text \<open>A new claim is untested, without plan and unlocked; a fork is a new claim, one version later.\<close>

lemma ResearchClaim_init_fresh:
  assumes "ResearchClaim_init a clock = Inr c"
  shows "plan_locked_at c = None" "\<not> plan_lock_active c" "research_plan c = None" "evidence_hashes c = []"
    "evidence_state c = State_UNTESTED" "claim_version c = arg_version a" "parent_claim_id c = arg_parent_claim_id a"
    "arg_id a = Some i \<Longrightarrow> bo_id c = i" "bo_lifecycle c \<noteq> []" "1 \<le> claim_version c"
    "claim_version c = 1 \<longleftrightarrow> parent_claim_id c = None"
  using assms unfolding ResearchClaim_init_def
  by (auto elim!: guardE rbindE simp: BaseObject_init_def Lifecycle_init_def or_empty_def split: option.splits)

lemma fork_version_fresh:
  assumes "fork_version s clock c = Inr c'"
  shows "claim_version c' = claim_version c + 1" "parent_claim_id c' = Some (bo_id c)" "\<not> plan_lock_active c'"
    "research_plan c' = None" "evidence_state c' = State_UNTESTED"
  using ResearchClaim_init_fresh [OF assms [unfolded fork_version_def]] by simp_all

text \<open>The part of a claim that its plan lock protects.\<close>

definition semantics :: "ResearchClaim \<Rightarrow> _" where
  "semantics c = (statement c, claim_type c, target_population c, instrument c, horizon c, timestamp_policy c,
     economic_rationale c, falsification_conditions c, primary_metrics c, minimum_evidence_requirements c,
     creator c, claim_workspace_id c, research_id c, claim_version c, parent_claim_id c, research_plan c,
     claim_plan_hash c)"

inductive claim_step :: "ResearchClaim \<Rightarrow> ResearchClaim \<Rightarrow> bool" where
  step_setattr: "claim_step c (snd (claim_setattr u c))"
| step_lock: "claim_step c (snd (lock_plan plan now c))"
| step_experiment: "claim_step c (snd (add_experiment i c))"
| step_evidence: "claim_step c (snd (add_evidence h c))"
| step_state: "claim_step c (snd (set_evidence_state s c))"

lemma apply_update_semantics: "update_name u \<notin> set SEMANTIC_FIELDS \<Longrightarrow> semantics (apply_update u c) = semantics c
    \<and> plan_lock_active (apply_update u c) = plan_lock_active c"
  by (cases u) (simp_all add: SEMANTIC_FIELDS_def semantics_def)

lemma lock_plan_locked: "plan_lock_active c \<Longrightarrow> snd (lock_plan plan now c) = c
    \<and> (fst (lock_plan plan now c) = Inr h \<longrightarrow> h = content_hash plan \<and> claim_plan_hash c = Some h)"
  by (auto simp: lock_plan_def claim_setattr_def SEMANTIC_FIELDS_def)

interpretation plan_lock: monotone_system "\<lambda>c. True" claim_step "\<lambda>c. True"
  "\<lambda>c c'. plan_lock_active c \<longrightarrow> plan_lock_active c' \<and> semantics c' = semantics c"
proof
  fix c c'
  assume "claim_step c c'"
  then show "plan_lock_active c \<longrightarrow> plan_lock_active c' \<and> semantics c' = semantics c"
  proof cases
    case (step_setattr u)
    then show ?thesis using apply_update_semantics [of u c] by (auto simp: claim_setattr_def)
  next
    case (step_lock plan now)
    then show ?thesis using lock_plan_locked by auto
  next
    case (step_state s)
    then show ?thesis by (auto simp: set_evidence_state_def semantics_def split: sum.splits)
  qed (auto simp: add_experiment_def add_evidence_def semantics_def)
qed auto

text \<open>
  C16: The plan of a claim is locked exactly once.  Locking a fresh claim records the plan, its digest and
  the time; from then on, after any sequence of attribute assignments, lock attempts and other calls, all
  semantic fields are as they were, assigning to one raises an attribute error, locking the same plan
  again changes nothing, and locking a plan with another digest fails.
\<close>

theorem claim_plan_locked_once:
  assumes "\<not> is_plan_locked c0" and "\<not> plan_lock_active c0" and "lock_plan plan now c0 = (Inr h, c1)"
    and "claim_step\<^sup>*\<^sup>* c1 c"
  shows "h = content_hash plan \<and> research_plan c = Some plan \<and> claim_plan_hash c = Some h
    \<and> semantics c = semantics c1
    \<and> (\<forall>u. update_name u \<in> set SEMANTIC_FIELDS \<longrightarrow> \<not> is_ok (fst (claim_setattr u c)) \<and> snd (claim_setattr u c) = c)
    \<and> (\<forall>plan' now'. snd (lock_plan plan' now' c) = c
         \<and> (content_hash plan' \<noteq> content_hash plan \<longrightarrow> \<not> is_ok (fst (lock_plan plan' now' c))))"
proof -
  have c1: "h = content_hash plan" "research_plan c1 = Some plan" "claim_plan_hash c1 = Some h" "plan_lock_active c1"
    using assms(1-3) by (auto simp: lock_plan_def claim_setattr_def)
  then have lock: "plan_lock_active c" and sem: "semantics c = semantics c1"
    using plan_lock.run_rel [OF assms(4)] by auto
  then have "research_plan c = Some plan" "claim_plan_hash c = Some h" using c1 by (simp_all add: semantics_def)
  moreover have "\<not> is_ok (fst (lock_plan plan' now' c))" if "content_hash plan' \<noteq> content_hash plan" for plan' now'
    using lock_plan_locked [OF lock] that calculation(2) c1(1) by (cases "fst (lock_plan plan' now' c)") auto
  ultimately show ?thesis
    using lock sem c1(1) lock_plan_locked [OF lock] by (auto simp: claim_setattr_def)
qed

section \<open>Claims in the evidence graph\<close>

record ClaimEvidenceGraph =
  ceg_claim_id :: string
  ceg_claim_hash :: string
  ceg_plan_hash :: string
  ceg_evidence_hashes :: "string list"

definition graph_object_id :: "string \<Rightarrow> string" where
  "graph_object_id claim_id = ''claim-evidence:'' @ claim_id"

definition graph_to_dict :: "ClaimEvidenceGraph \<Rightarrow> (string \<times> json) list" where
  "graph_to_dict g =
     [(''object_type'', JStr ''ClaimEvidenceGraph''), (''claim_id'', JStr (ceg_claim_id g)),
      (''claim_hash'', JStr (ceg_claim_hash g)), (''plan_hash'', JStr (ceg_plan_hash g)),
      (''evidence_hashes'', jstrs (ceg_evidence_hashes g)), (''id'', JStr (graph_object_id (ceg_claim_id g))),
      (''created_at'', JStr [])]"

fun require_artifacts :: "string list \<Rightarrow> 'a evidence_db_scheme \<Rightarrow> unit result" where
  "require_artifacts [] db = Inr ()"
| "require_artifacts (h # hs) db =
     rbind (get_artifact h db) (\<lambda>r. case r of
        None \<Rightarrow> Inl (ValueError (''Evidence artifact '' @ h @ '' does not exist''))
      | Some _ \<Rightarrow> require_artifacts hs db)"

fun add_all_evidence :: "string list \<Rightarrow> ResearchClaim \<Rightarrow> ResearchClaim result" where
  "add_all_evidence [] c = Inr c"
| "add_all_evidence (h # hs) c =
     (case add_evidence h c of (Inl e, _) \<Rightarrow> Inl e | (Inr _, c') \<Rightarrow> add_all_evidence hs c')"

definition attach ::
  "ResearchClaim \<Rightarrow> string list \<Rightarrow> string \<Rightarrow> 'a evidence_db_scheme \<Rightarrow> (ClaimEvidenceGraph, 'a evidence_db_scheme) outcome" where
  "attach c hs now db =
     (if \<not> is_plan_locked c
      then (Inl (ValueError ''ResearchClaim plan must be locked before evidence can be attached''), db)
      else if or_empty (claim_plan_hash c) = [] then (Inl (ValueError ''ResearchClaim has no plan_hash''), db)
      else
        let normalized = sort (remdups hs) in
        case require_artifacts normalized db of
          Inl e \<Rightarrow> (Inl e, db)
        | Inr _ \<Rightarrow>
            (case add_all_evidence normalized c of
               Inl e \<Rightarrow> (Inl e, db)
             | Inr copy \<Rightarrow>
                 (case claim_to_dict copy of
                    Inl e \<Rightarrow> (Inl e, db)
                  | Inr data \<Rightarrow>
                      (case save_object ''ResearchClaim'' (bo_id copy) data now db of
                         (Inl e, db1) \<Rightarrow> (Inl e, db1)
                       | (Inr _, db1) \<Rightarrow>
                           let g = \<lparr>ceg_claim_id = bo_id copy, ceg_claim_hash = claim_hash copy,
                                 ceg_plan_hash = or_empty (claim_plan_hash copy), ceg_evidence_hashes = normalized\<rparr>
                           in (case save_object ''_GraphObject'' (graph_object_id (ceg_claim_id g)) (graph_to_dict g) now db1 of
                                 (Inl e, db2) \<Rightarrow> (Inl e, db2)
                               | (Inr _, db2) \<Rightarrow> (Inr g, db2))))))"

text \<open>
  \<open>get\<close>: missing entries raise \<open>KeyError\<close>.  A row whose entries are not texts, which \<open>attach\<close> never
  writes, is reported as a \<open>TypeError\<close> here.
\<close>

definition required_text :: "(string \<times> json) list \<Rightarrow> string \<Rightarrow> string result" where
  "required_text data k = (case dget data k of
     None \<Rightarrow> Inl (KeyError k) | Some (JStr s) \<Rightarrow> Inr s | Some _ \<Rightarrow> Inl (TypeError k))"

fun json_text :: "json \<Rightarrow> string result" where
  "json_text (JStr s) = Inr s"
| "json_text _ = Inl (TypeError ''evidence_hashes'')"

definition graph_get :: "string \<Rightarrow> 'a evidence_db_scheme \<Rightarrow> ClaimEvidenceGraph option result" where
  "graph_get claim_id db =
     (case load_by_id (graph_object_id claim_id) db of
        None \<Rightarrow> Inr None
      | Some data \<Rightarrow>
          rbind (required_text data ''claim_id'') (\<lambda>i.
          rbind (required_text data ''claim_hash'') (\<lambda>ch.
          rbind (required_text data ''plan_hash'') (\<lambda>ph.
          rbind (case data_get data ''evidence_hashes'' (JList []) of
                   JList vs \<Rightarrow> sequence_results (map json_text vs) | _ \<Rightarrow> Inl (TypeError ''evidence_hashes''))
            (\<lambda>hs. Inr (Some \<lparr>ceg_claim_id = i, ceg_claim_hash = ch, ceg_plan_hash = ph, ceg_evidence_hashes = hs\<rparr>))))))"

record trace_node =
  tn_hash :: string
  tn_type :: string
  tn_version :: string
  tn_parents :: "string list"
  tn_children :: "string list"

text \<open>
  \<open>trace\<close>: the worklist loop of the lineage queries, downstream from the attached evidence, keeping
  the wanted types.
\<close>

definition trace ::
  "string \<Rightarrow> string list option \<Rightarrow> 'a evidence_db_scheme \<Rightarrow> (ClaimEvidenceGraph \<times> trace_node list) result" where
  "trace claim_id artifact_types db =
     rbind (graph_get claim_id db) (\<lambda>r. case r of
        None \<Rightarrow> Inl (KeyError (''Unknown claim '' @ claim_id))
      | Some g \<Rightarrow>
          rbind (worklist Downstream db [] (ceg_evidence_hashes g)) (\<lambda>found.
            let nodes = map (\<lambda>(h, e). \<lparr>tn_hash = ev_hash e, tn_type = ev_type e, tn_version = ev_version e,
                    tn_parents = get_parents h db, tn_children = get_children h db\<rparr>)
                  (filter (\<lambda>(h, e). case artifact_types of None \<Rightarrow> True | Some ts \<Rightarrow> ev_type e \<in> set ts) found)
            in Inr (g, sort_key (\<lambda>n. (tn_type n, tn_hash n)) nodes)))"

definition trace_artifact_type ::
  "string \<Rightarrow> string \<Rightarrow> 'a evidence_db_scheme \<Rightarrow> (ClaimEvidenceGraph \<times> trace_node list) result" where
  "trace_artifact_type claim_id t db = trace claim_id (Some [t]) db"

fun missing_artifacts :: "string list \<Rightarrow> 'a evidence_db_scheme \<Rightarrow> string list result" where
  "missing_artifacts [] db = Inr []"
| "missing_artifacts (h # hs) db =
     rbind (get_artifact h db) (\<lambda>r. rbind (missing_artifacts hs db) (\<lambda>ms. Inr (if r = None then h # ms else ms)))"

record integrity_report =
  ir_valid :: bool
  ir_claim_id :: string
  ir_orphaned :: "string list"
  ir_broken :: "(string \<times> string) list"
  ir_node_count :: "nat option"

definition broken_edges_of :: "trace_node \<Rightarrow> 'a evidence_db_scheme \<Rightarrow> (string \<times> string) list result" where
  "broken_edges_of n db =
     rbind (missing_artifacts (tn_parents n) db) (\<lambda>ps.
     rbind (missing_artifacts (tn_children n) db) (\<lambda>cs.
       Inr (map (\<lambda>p. (p, tn_hash n)) ps @ map (\<lambda>c. (tn_hash n, c)) cs)))"

definition integrity :: "string \<Rightarrow> 'a evidence_db_scheme \<Rightarrow> integrity_report result" where
  "integrity claim_id db =
     rbind (graph_get claim_id db) (\<lambda>r. case r of
        None \<Rightarrow> Inr \<lparr>ir_valid = False, ir_claim_id = claim_id, ir_orphaned = [], ir_broken = [], ir_node_count = None\<rparr>
      | Some g \<Rightarrow>
          rbind (missing_artifacts (ceg_evidence_hashes g) db) (\<lambda>orphaned.
          rbind (trace claim_id None db) (\<lambda>(_, nodes).
          rbind (sequence_results (map (\<lambda>n. broken_edges_of n db) nodes)) (\<lambda>broken.
            Inr \<lparr>ir_valid = (orphaned = [] \<and> concat broken = [] \<and> verify_evidence db), ir_claim_id = claim_id,
              ir_orphaned = sort orphaned, ir_broken = sort (remdups (concat broken)),
              ir_node_count = Some (length nodes)\<rparr>))))"

fun all_stored :: "string list \<Rightarrow> 'a evidence_db_scheme \<Rightarrow> bool result" where
  "all_stored [] db = Inr True"
| "all_stored (h # hs) db = rbind (get_artifact h db) (\<lambda>r. if r = None then Inr False else all_stored hs db)"

definition graph_verify :: "string \<Rightarrow> 'a evidence_db_scheme \<Rightarrow> bool result" where
  "graph_verify claim_id db =
     rbind (graph_get claim_id db) (\<lambda>r. case r of
        None \<Rightarrow> Inr False
      | Some g \<Rightarrow>
          (case load_by_id claim_id db of
             None \<Rightarrow> Inr False
           | Some data \<Rightarrow>
               if dget data ''object_type'' \<noteq> Some (JStr ''ResearchClaim'') then Inr False
               else if dget data ''plan_hash'' \<noteq> Some (JStr (ceg_plan_hash g)) then Inr False
               else all_stored (ceg_evidence_hashes g) db))"

subsection \<open>Correctness of the bridge\<close>

lemma require_artifacts_ok:
  "evidence_ok db \<Longrightarrow> require_artifacts hs db = Inr u \<longleftrightarrow> set hs \<subseteq> set (hashes db)"
  by (induction hs) (auto simp: get_artifact_ok find_evidence_None split: option.splits dest!: find_evidence_Some)

lemma all_stored_ok: "evidence_ok db \<Longrightarrow> all_stored hs db = Inr (set hs \<subseteq> set (hashes db))"
  by (induction hs) (auto simp: get_artifact_ok find_evidence_None)

lemma missing_artifacts_ok:
  "evidence_ok db \<Longrightarrow> missing_artifacts hs db = Inr (filter (\<lambda>h. h \<notin> set (hashes db)) hs)"
  by (induction hs) (auto simp: get_artifact_ok find_evidence_None)

lemma add_all_evidence_frame:
  "add_all_evidence hs c = Inr c' \<Longrightarrow> bo_id c' = bo_id c \<and> claim_plan_hash c' = claim_plan_hash c
    \<and> bo_lifecycle c' = bo_lifecycle c \<and> semantics c' = semantics c
    \<and> set (evidence_hashes c') = set (evidence_hashes c) \<union> set hs"
proof (induction hs c rule: add_all_evidence.induct)
  case (2 h hs c)
  then show ?case
    by (auto simp: add_evidence_def semantics_def split: if_splits)
qed simp

lemma claim_to_dict_fields:
  "claim_to_dict c = Inr data \<Longrightarrow> dget data ''object_type'' = Some (JStr ''ResearchClaim'')
    \<and> dget data ''created_at'' = Some (JStr (bo_created_at c)) \<and> dget data ''plan_hash'' = Some (jopt (claim_plan_hash c))"
  by (cases "Lifecycle_to_dict (bo_lifecycle c)") (auto simp: claim_to_dict_def BaseObject_to_dict_def)

lemma claim_to_dict_ok: "bo_lifecycle c \<noteq> [] \<Longrightarrow> \<exists>d. claim_to_dict c = Inr d"
proof -
  assume "bo_lifecycle c \<noteq> []"
  then obtain b where "BaseObject_to_dict ''ResearchClaim'' (claim_hashable c) c = Inr b"
    using BaseObject_to_dict_ok by blast
  then show ?thesis unfolding claim_to_dict_def by (simp only: map_sum.simps) blast
qed

lemma graph_to_dict_fields:
  "dget (graph_to_dict g) ''object_type'' = Some (JStr ''ClaimEvidenceGraph'')"
  "dget (graph_to_dict g) ''created_at'' = Some (JStr [])"
  by (simp_all add: graph_to_dict_def)

lemma sequence_json_text [simp]: "sequence_results (map json_text (map JStr ss)) = Inr ss"
  by (induction ss) auto

lemma graph_get_stored:
  "load_by_id (graph_object_id i) db = Some (graph_to_dict g) \<Longrightarrow> graph_get i db = Inr (Some g)"
  by (simp add: graph_get_def graph_to_dict_def required_text_def data_get_def jstrs_def del: map_map)

text \<open>The two objects \<open>attach\<close> leaves behind, and what it leaves alone.\<close>

lemma attach_stores:
  assumes "attach c hs now db = (Inr g, db')"
  obtains data where "load_by_id (bo_id c) db' = Some data" "dget data ''object_type'' = Some (JStr ''ResearchClaim'')"
    "dget data ''plan_hash'' = Some (JStr (ceg_plan_hash g))"
    "load_by_id (graph_object_id (bo_id c)) db' = Some (graph_to_dict g)" "ceg_claim_id g = bo_id c"
    "ceg_evidence_hashes g = sort (remdups hs)" "claim_plan_hash c = Some (ceg_plan_hash g)"
    "require_artifacts (sort (remdups hs)) db = Inr ()"
    "evidence db' = evidence db" "lineage db' = lineage db" "audit_logs db' = audit_logs db"
proof -
  let ?n = "sort (remdups hs)"
  have plan: "claim_plan_hash c = Some (or_empty (claim_plan_hash c))"
    using assms by (cases "claim_plan_hash c") (auto simp: attach_def or_empty_def split: if_splits)
  have req: "require_artifacts ?n db = Inr ()"
    using assms by (auto simp: attach_def Let_def split: if_splits sum.splits)
  obtain copy where copy: "add_all_evidence ?n c = Inr copy"
    using assms by (auto simp: attach_def Let_def split: if_splits sum.splits)
  obtain data where data: "claim_to_dict copy = Inr data"
    using assms copy by (auto simp: attach_def Let_def split: if_splits sum.splits)
  have frame: "bo_id copy = bo_id c" "claim_plan_hash copy = claim_plan_hash c"
    using add_all_evidence_frame [OF copy] by simp_all
  define row where "row = \<lparr>or_type = ''ResearchClaim'', or_created_at = bo_created_at copy, or_data = data\<rparr>"
  define row' where "row' = \<lparr>or_type = ''ClaimEvidenceGraph'', or_created_at = [], or_data = graph_to_dict g\<rparr>"
  have saved: "save_object ''ResearchClaim'' (bo_id copy) data now db
      = (Inr (), db\<lparr>objects := insert_or_replace (bo_id copy) row (objects db)\<rparr>)"
    using claim_to_dict_fields [OF data] by (simp add: save_object_text row_def)
  have g: "g = \<lparr>ceg_claim_id = bo_id copy, ceg_claim_hash = claim_hash copy,
      ceg_plan_hash = or_empty (claim_plan_hash copy), ceg_evidence_hashes = ?n\<rparr>"
    using assms copy data saved req
    by (auto simp: attach_def Let_def save_object_text [OF graph_to_dict_fields] split: if_splits sum.splits)
  have db': "db' = db\<lparr>objects := insert_or_replace (graph_object_id (bo_id c)) row'
      (insert_or_replace (bo_id c) row (objects db))\<rparr>"
    using assms copy data saved req g frame
    by (auto simp: attach_def Let_def save_object_text [OF graph_to_dict_fields] row'_def split: if_splits sum.splits)
  have neq: "bo_id c \<noteq> graph_object_id (bo_id c)"
    using arg_cong [where f = length] by (fastforce simp: graph_object_id_def)
  show ?thesis
  proof (rule that)
    show "load_by_id (bo_id c) db' = Some data" using neq by (simp add: load_by_id_def db' row_def)
    show "dget data ''object_type'' = Some (JStr ''ResearchClaim'')" using claim_to_dict_fields [OF data] by simp
    show "dget data ''plan_hash'' = Some (JStr (ceg_plan_hash g))"
      using claim_to_dict_fields [OF data] plan frame g by (metis ClaimEvidenceGraph.select_convs(3) jopt_def option.simps(5))
    show "load_by_id (graph_object_id (bo_id c)) db' = Some (graph_to_dict g)" by (simp add: load_by_id_def db' row'_def)
  qed (use g frame plan req db' in simp_all)
qed

text \<open>Later evidence writes leave stored objects alone: the mirror never overwrites.\<close>

inductive evidence_write :: "'a evidence_db_scheme \<Rightarrow> 'a evidence_db_scheme \<Rightarrow> bool" where
  write_append: "wf_envelope e \<Longrightarrow> evidence_write db (snd (append_artifact e now db))"
| write_edge: "evidence_write db (snd (add_lineage_edge parent child relation now db))"

lemma mirror_keeps_objects:
  "insert_evidence_mirror e db = (r, db') \<Longrightarrow> dget (objects db) i = Some x \<Longrightarrow> dget (objects db') i = Some x"
  by (auto simp: insert_evidence_mirror_def Let_def map_add_def split: option.splits if_splits)

lemma append_keeps_objects:
  assumes "dget (objects db) i = Some x"
  shows "dget (objects (snd (append_artifact e now db))) i = Some x"
proof (cases "insert_evidence_mirror e (db\<lparr>evidence := evidence db @ [e]\<rparr>)")
  case (Pair r db1)
  then have "dget (objects db1) i = Some x" using mirror_keeps_objects [OF Pair] assms by simp
  with Pair assms show ?thesis
    by (auto simp: append_artifact_def split: option.splits list.splits sum.splits)
qed

lemma evidence_write_objects:
  "evidence_write\<^sup>*\<^sup>* db db' \<Longrightarrow> load_by_id i db = Some d \<Longrightarrow> load_by_id i db' = Some d"
proof (induction rule: rtranclp_induct)
  case (step y z)
  then have "load_by_id i y = Some d" by simp
  with step(2) show ?case
    by (auto elim!: evidence_write.cases simp: load_by_id_def append_keeps_objects add_lineage_edge_def)
qed simp

lemma evidence_write_ev: "evidence_write\<^sup>*\<^sup>* db db' \<Longrightarrow> ev_step\<^sup>*\<^sup>* db db'"
  by (erule rtranclp_mono [THEN predicate2D, rotated])
    (auto elim!: evidence_write.cases intro: ev_append ev_edge)

lemma attach_facts:
  assumes "empty_evidence db0" and "ev_step\<^sup>*\<^sup>* db0 db" and "attach c hs now db = (Inr g, db1)"
    and "evidence_write\<^sup>*\<^sup>* db1 db'"
  shows "is_plan_locked c \<and> set hs \<subseteq> set (map ev_hash (evidence db))
    \<and> evidence db1 = evidence db \<and> lineage db1 = lineage db \<and> audit_logs db1 = audit_logs db
    \<and> ceg_evidence_hashes g = sort (remdups hs) \<and> claim_plan_hash c = Some (ceg_plan_hash g)
    \<and> graph_get (bo_id c) db' = Inr (Some g) \<and> graph_verify (bo_id c) db' = Inr True
    \<and> evidence_ok db' \<and> evidence_extends db1 db'"
proof -
  have ok: "evidence_ok db"
    using evidence_log.inv_init [OF assms(1)] assms(2) by (rule evidence_log.run_inv [rotated])
  obtain data where st: "load_by_id (bo_id c) db1 = Some data" "dget data ''object_type'' = Some (JStr ''ResearchClaim'')"
    "dget data ''plan_hash'' = Some (JStr (ceg_plan_hash g))"
    "load_by_id (graph_object_id (bo_id c)) db1 = Some (graph_to_dict g)" "ceg_claim_id g = bo_id c"
    "ceg_evidence_hashes g = sort (remdups hs)" "claim_plan_hash c = Some (ceg_plan_hash g)"
    "require_artifacts (sort (remdups hs)) db = Inr ()"
    "evidence db1 = evidence db" "lineage db1 = lineage db" "audit_logs db1 = audit_logs db"
    using assms(3) by (rule attach_stores)
  have ok1: "evidence_ok db1" using ok st(9,10) by (simp add: evidence_ok_def)
  have ok': "evidence_ok db'" and ext: "evidence_extends db1 db'"
    using evidence_write_ev [OF assms(4)] ok1 by (auto intro: evidence_log.run_inv evidence_log.run_rel)
  have hs: "set hs \<subseteq> set (hashes db)" using st(8) require_artifacts_ok [OF ok, of "sort (remdups hs)" "()"] by simp
  then have stored: "set (ceg_evidence_hashes g) \<subseteq> set (hashes db')"
    using st(6,9) ext by (auto simp: evidence_extends_def)
  have get: "graph_get (bo_id c) db' = Inr (Some g)"
    by (rule graph_get_stored) (rule evidence_write_objects [OF assms(4) st(4)])
  moreover have "graph_verify (bo_id c) db' = Inr True"
    using get st(2,3) evidence_write_objects [OF assms(4) st(1)] stored all_stored_ok [OF ok']
    by (simp add: graph_verify_def)
  moreover have "is_plan_locked c" using assms(3) by (auto simp: attach_def split: if_splits)
  ultimately show ?thesis using hs st ok' ext by simp
qed

text \<open>
  Attaching evidence to a claim.  A successful \<open>attach\<close> needs a locked plan and stored artifacts,
  leaves evidence, lineage and audit log as they were, records the distinct hashes in order, and from
  then on, after any number of further evidence writes, the claim's graph is read back unchanged and
  \<open>verify\<close> holds.
\<close>

lemma claim_attach_verified:
  assumes "empty_evidence db0" and "ev_step\<^sup>*\<^sup>* db0 db" and "attach c hs now db = (Inr g, db1)"
    and "evidence_write\<^sup>*\<^sup>* db1 db'"
  shows "is_plan_locked c \<and> set hs \<subseteq> set (map ev_hash (evidence db))
    \<and> evidence db1 = evidence db \<and> lineage db1 = lineage db \<and> audit_logs db1 = audit_logs db
    \<and> ceg_evidence_hashes g = sort (remdups hs) \<and> claim_plan_hash c = Some (ceg_plan_hash g)
    \<and> graph_get (bo_id c) db' = Inr (Some g) \<and> graph_verify (bo_id c) db' = Inr True"
  using attach_facts [OF assms] by simp

lemma explored_star:
  assumes "explored d db [] queue found" and "reached d db queue found"
  shows "set (map fst found) = (edge_rel d db)\<^sup>* `` set queue"
proof
  show "set (map fst found) \<subseteq> (edge_rel d db)\<^sup>* `` set queue"
    using assms(2) by (auto simp: reached_def)
  have "y \<in> set (map fst found)" if "q \<in> set queue" "(q, y) \<in> (edge_rel d db)\<^sup>*" for q y
    using that(2)
  proof (induction rule: rtrancl_induct)
    case base
    then show ?case using assms(1) that(1) by (auto simp: explored_def)
  next
    case (step y z)
    then have "set (neighbours d y db) \<subseteq> set (map fst found)" using assms(1) by (auto simp: explored_def)
    with step(2) show ?case by (auto simp: edge_rel_def)
  qed
  then show "(edge_rel d db)\<^sup>* `` set queue \<subseteq> set (map fst found)" by blast
qed

text \<open>
  The trace of a claim is exact: after evidence has been attached and more evidence written, it lists
  exactly the artifacts of the wanted types that are attached or downstream of an attached one, each
  once, ordered by type and hash, with their current parents and children.
\<close>

lemma claim_trace_exact:
  assumes "empty_evidence db0" and "ev_step\<^sup>*\<^sup>* db0 db" and "attach c hs now db = (Inr g, db1)"
    and "evidence_write\<^sup>*\<^sup>* db1 db'"
  shows "\<exists>nodes. trace (bo_id c) types db' = Inr (g, nodes)
    \<and> distinct (map tn_hash nodes) \<and> sorted (map (\<lambda>n. (tn_type n, tn_hash n)) nodes)
    \<and> set (map tn_hash nodes) = {ev_hash e | e. e \<in> set (evidence db')
         \<and> (\<exists>h \<in> set hs. (h, ev_hash e) \<in> (lineage_rel db')\<^sup>*)
         \<and> (case types of None \<Rightarrow> True | Some ts \<Rightarrow> ev_type e \<in> set ts)}"
proof -
  note facts = attach_facts [OF assms]
  then have ok: "evidence_ok db'" and get: "graph_get (bo_id c) db' = Inr (Some g)"
    and hs: "ceg_evidence_hashes g = sort (remdups hs)" by simp_all
  have "set (ceg_evidence_hashes g) \<subseteq> set (hashes db')" using facts by (auto simp: evidence_extends_def)
  from worklist_explores [OF ok this] obtain found where
    found: "worklist Downstream db' [] (ceg_evidence_hashes g) = Inr found"
      "explored Downstream db' [] (ceg_evidence_hashes g) found" "reached Downstream db' (ceg_evidence_hashes g) found"
    by blast
  have key: "ev_hash x = k \<and> x \<in> set (evidence db')" if "(k, x) \<in> set found" for k x
    using found(2) that by (auto simp: explored_def dest!: bspec dest: find_evidence_Some)
  have keys: "set (map fst found) = (lineage_rel db')\<^sup>* `` set hs"
    using explored_star [OF found(2,3)] by (simp add: edge_rel_lineage hs)
  let ?want = "\<lambda>(h, e). case types of None \<Rightarrow> True | Some ts \<Rightarrow> ev_type e \<in> set ts"
  let ?node = "\<lambda>(h, e). \<lparr>tn_hash = ev_hash e, tn_type = ev_type e, tn_version = ev_version e,
      tn_parents = get_parents h db', tn_children = get_children h db'\<rparr>"
  let ?nodes = "sort_key (\<lambda>n. (tn_type n, tn_hash n)) (map ?node (filter ?want found))"
  have tr: "trace (bo_id c) types db' = Inr (g, ?nodes)"
    using get found(1) by (simp add: trace_def Let_def)
  have hash: "map tn_hash (map ?node (filter ?want found)) = map fst (filter ?want found)"
    using key by auto
  have "mset (map tn_hash ?nodes) = mset (map tn_hash (map ?node (filter ?want found)))"
    by (simp only: mset_map mset_sort)
  then have perm: "mset (map tn_hash ?nodes) = mset (map fst (filter ?want found))" by (simp only: hash)
  have "distinct (map fst (filter ?want found))"
    using found(2) by (auto simp: explored_def intro: distinct_map_filter)
  then have "distinct (map tn_hash ?nodes)" using mset_eq_imp_distinct_iff [OF perm] by blast
  moreover note mset_eq_setD [OF perm]
  moreover have "set (map fst (filter ?want found)) = {ev_hash e | e. e \<in> set (evidence db')
      \<and> (\<exists>h \<in> set hs. (h, ev_hash e) \<in> (lineage_rel db')\<^sup>*)
      \<and> (case types of None \<Rightarrow> True | Some ts \<Rightarrow> ev_type e \<in> set ts)}" (is "?L = ?R")
  proof
    show "?L \<subseteq> ?R"
    proof
      fix k
      assume "k \<in> ?L"
      then obtain x where x: "(k, x) \<in> set found" "?want (k, x)" by auto
      then have "k \<in> set (map fst found)" by force
      then have "\<exists>h \<in> set hs. (h, k) \<in> (lineage_rel db')\<^sup>*" unfolding keys by blast
      with x key [OF x(1)] show "k \<in> ?R" by auto
    qed
    show "?R \<subseteq> ?L"
    proof
      fix k
      assume "k \<in> ?R"
      then obtain e where e: "k = ev_hash e" "e \<in> set (evidence db')"
        "ev_hash e \<in> (lineage_rel db')\<^sup>* `` set hs"
        "case types of None \<Rightarrow> True | Some ts \<Rightarrow> ev_type e \<in> set ts" by auto
      then have "ev_hash e \<in> set (map fst found)" using keys by simp
      then obtain x where x: "(ev_hash e, x) \<in> set found" by auto
      then have "x = e" using key [OF x] e(2) ok by (auto simp: evidence_ok_def distinct_map inj_on_def)
      then show "k \<in> ?L" using x e by force
    qed
  qed
  ultimately show ?thesis using tr by (intro exI [of _ ?nodes]) simp
qed

section \<open>Witnesses\<close>

definition ex_plan :: ResearchPlan where
  "ex_plan = \<lparr>hypothesis = ''momentum'', sample_definition = ''M1'', features = [''close''], labels = [],
     train_validation_test = ''60/20/20'', exclusions = [], costs_slippage = ''2bp'', statistical_tests = [],
     plan_metrics = [''sharpe''], stopping_rules = [], multiple_testing_policy = ''none'',
     replication_policy = ''none''\<rparr>"

definition ex_args :: claim_args where
  "ex_args = \<lparr>arg_statement = ''gold trends'', arg_claim_type = ''empirical'', arg_target_population = [],
     arg_instrument = ''XAUUSD'', arg_horizon = [], arg_timestamp_policy = [], arg_economic_rationale = [],
     arg_falsification_conditions = [], arg_primary_metrics = [], arg_minimum_evidence_requirements = [],
     arg_creator = [], arg_workspace_id = ''w'', arg_research_id = None, arg_ontology_tags = [],
     arg_id = Some ''c1'', arg_version = 1, arg_parent_claim_id = None\<rparr>"

definition ex_claim :: ResearchClaim where
  "ex_claim = projr (ResearchClaim_init ex_args (\<lambda>n. ''t''))"

definition ex_locked :: ResearchClaim where
  "ex_locked = snd (lock_plan ex_plan ''t'' ex_claim)"

lemma ex_claim_init: "ResearchClaim_init ex_args (\<lambda>n. ''t'') = Inr ex_claim"
proof -
  have "\<not> blank ''gold trends''" by code_simp
  moreover have "parse_claim_type ''empirical'' = Inr Claim_EMPIRICAL" by code_simp
  ultimately show ?thesis
    by (simp add: ex_claim_def ResearchClaim_init_def ex_args_def BaseObject_init_def)
qed

lemma ex_claim_fields: "plan_locked_at ex_claim = None" "plan_lock_active ex_claim = False" "bo_id ex_claim = ''c1''"
  "bo_lifecycle ex_claim \<noteq> []" "evidence_hashes ex_claim = []"
  using ResearchClaim_init_fresh [OF ex_claim_init] by (simp_all add: ex_args_def)

lemma ex_lock: "lock_plan ex_plan ''t'' ex_claim = (Inr (content_hash ex_plan), ex_locked)"
  by (simp add: ex_locked_def lock_plan_def claim_setattr_def ex_claim_fields is_plan_locked_def)

theorem claim_plan_locked_once_witness:
  "research_plan (snd (add_experiment ''e'' ex_locked)) = Some ex_plan
   \<and> \<not> is_ok (fst (claim_setattr (Set_horizon ''1d'') (snd (add_experiment ''e'' ex_locked))))"
  using claim_plan_locked_once [OF _ _ ex_lock r_into_rtranclp [where r = claim_step, OF step_experiment [of ex_locked "''e''"]]]
  by (simp add: ex_claim_fields is_plan_locked_def SEMANTIC_FIELDS_def)

lemma ex_locked_fields: "plan_locked_at ex_locked = Some ''t''" "claim_plan_hash ex_locked = Some (content_hash ex_plan)"
  "bo_id ex_locked = ''c1''" "bo_lifecycle ex_locked \<noteq> []" "evidence_hashes ex_locked = []"
  by (simp_all add: ex_locked_def lock_plan_def claim_setattr_def ex_claim_fields is_plan_locked_def)

lemma content_hash_nonempty: "content_hash p \<noteq> []"
  by (simp add: content_hash_def json_sha256_def)

lemma ex_attach:
  "\<exists>g. attach ex_locked [''run''] ''t'' ex_chain2 = (Inr g, snd (attach ex_locked [''run''] ''t'' ex_chain2))"
proof -
  have ok: "evidence_ok ex_chain2"
    using evidence_log.inv_init [OF ex_empty_evidence] ex_chain_steps by (rule evidence_log.run_inv [rotated])
  have req: "require_artifacts [''run''] ex_chain2 = Inr ()"
    using require_artifacts_ok [OF ok, of "[''run'']" "()"] by (simp add: ex_chain2 plain_envelope_def)
  have nb: "\<not> blank ''run''" by code_simp
  define c where "c = ex_locked\<lparr>evidence_hashes := [''run'']\<rparr>"
  have add: "add_all_evidence [''run''] ex_locked = Inr c"
    using nb by (simp add: add_evidence_def ex_locked_fields c_def)
  obtain data where data: "claim_to_dict c = Inr data"
    using claim_to_dict_ok [of c] ex_locked_fields(4) by (auto simp: c_def)
  show ?thesis
    using req add data claim_to_dict_fields [OF data] content_hash_nonempty [of ex_plan]
    by (simp add: attach_def ex_locked_fields is_plan_locked_def or_empty_def save_object_text
        save_object_text [OF graph_to_dict_fields] Let_def)
qed

end
