(* ===== verification/Walk_Forward.thy ===== *)
theory Walk_Forward
  imports Complex_Main Python_Text
begin

text \<open>
  Chronological validation: the walk-forward splitter of \<open>quant_engine/validation/splitter.py\<close> and the
  expanding-window evaluation of \<open>orchestration/purged_walk_forward.py\<close>, which drops every training
  row whose label window reaches into the validation block.

  The classifier that is fitted on a fold (\<open>fit_evaluate_logistic\<close>: NumPy linear algebra) is an
  argument; the results hold for every classifier, including one that raises.  The averages of the
  fold metrics at the end of the evaluation are floating-point sums and are left out.
\<close>

section \<open>The walk-forward splitter\<close>

definition DEFAULT_MAX_FOLDS :: nat where
  "DEFAULT_MAX_FOLDS = 10000"

record Fold =
  fold_id :: int
  train_start :: int
  train_end :: int
  validation_start :: int
  validation_end :: int

definition train_range :: "Fold \<Rightarrow> int \<times> int" where
  "train_range f = (train_start f, train_end f)"

definition validation_range :: "Fold \<Rightarrow> int \<times> int" where
  "validation_range f = (validation_start f, validation_end f)"

definition fold_train_size :: "Fold \<Rightarrow> int" where
  "fold_train_size f = train_end f - train_start f + 1"

definition fold_validation_size :: "Fold \<Rightarrow> int" where
  "fold_validation_size f = validation_end f - validation_start f + 1"

record WalkForwardSplitter =
  train_size :: int
  validation_size :: int
  step_size :: int

definition WalkForwardSplitter_init :: "int \<Rightarrow> int \<Rightarrow> int \<Rightarrow> WalkForwardSplitter result" where
  "WalkForwardSplitter_init train validation step =
     (if train \<le> 0 then Inl (ValidationError ''train_size must be a positive integer'')
      else if validation \<le> 0 then Inl (ValidationError ''validation_size must be a positive integer'')
      else if step \<le> 0 then Inl (ValidationError ''step_size must be a positive integer'')
      else Inr \<lparr>train_size = train, validation_size = validation, step_size = step\<rparr>)"

definition validate_length :: "int \<Rightarrow> unit result" where
  "validate_length n =
     (if n < 0 then Inl (ValidationError ''dataset_length must be a non-negative integer'') else Inr ())"

definition fold_at :: "WalkForwardSplitter \<Rightarrow> int \<Rightarrow> Fold" where
  "fold_at w k =
     (let start = train_size w + k * step_size w in
      \<lparr>fold_id = k + 1, train_start = k * step_size w, train_end = start - 1,
       validation_start = start, validation_end = start + validation_size w - 1\<rparr>)"

text \<open>The loop over \<open>range(DEFAULT_MAX_FOLDS)\<close>; the last argument counts the iterations left.\<close>

fun split_loop :: "WalkForwardSplitter \<Rightarrow> int \<Rightarrow> int \<Rightarrow> nat \<Rightarrow> Fold list" where
  "split_loop w n k 0 = []"
| "split_loop w n k (Suc left) =
     (let f = fold_at w k in
      if validation_end f \<ge> n then [] else f # split_loop w n (k + 1) left)"

definition split_folds :: "WalkForwardSplitter \<Rightarrow> int \<Rightarrow> Fold list result" where
  "split_folds w n =
     rbind (validate_length n) (\<lambda>_.
       if n < train_size w + validation_size w
       then Inl (ValidationError ''dataset too small: need at least train_size + validation_size samples to form a single fold'')
       else let folds = split_loop w n 0 DEFAULT_MAX_FOLDS in
            if folds = [] then Inl (ValidationError ''no folds could be constructed'') else Inr folds)"

section \<open>Purged walk-forward evaluation\<close>

text \<open>
  A row is a dictionary; the keys the modules read are fields (\<^const>\<open>JNull\<close> when the key is missing,
  as \<open>row.get\<close> returns \<open>None\<close>), and the features and the label go to the classifier unseen.
\<close>

record 'f cv_row =
  row_timestamp :: json
  row_label_end :: json
  row_event_id :: json
  row_features :: 'f

datatype pyfloat = Finite rat | PosInf | NegInf | NaN

fun is_finite :: "pyfloat \<Rightarrow> bool" where
  "is_finite (Finite q) = True"
| "is_finite _ = False"

fun negative :: "pyfloat \<Rightarrow> bool" where
  "negative (Finite q) = (q < 0)"
| "negative NegInf = True"
| "negative _ = False"

record 'x fit_result =
  fit_status :: "string option"
  fit_holdout_metrics :: "(string, 'x) dict option"
  fit_baseline_metrics :: "(string, 'x) dict option"

type_synonym ('f, 'x) classifier = "'f cv_row list \<Rightarrow> 'f cv_row list \<Rightarrow> pyfloat \<Rightarrow> 'x fit_result result"

record 'x wf_fold =
  wf_fold :: nat
  wf_status :: string
  wf_train_n :: nat
  wf_test_n :: nat
  wf_purged_n :: nat
  wf_validation_start :: string
  wf_validation_end :: "string option"
  wf_holdout_metrics :: "(string, 'x) dict option"
  wf_baseline_metrics :: "(string, 'x) dict option"

datatype 'x wf_report =
    WfInsufficient nat "(nat \<times> nat) option"
  | WfEvaluated string nat int nat "'x wf_fold list"

fun is_str :: "json \<Rightarrow> bool" where
  "is_str (JStr s) = True"
| "is_str _ = False"

fun the_str :: "json \<Rightarrow> string" where
  "the_str (JStr s) = s"
| "the_str _ = ''''"

abbreviation row_start :: "'f cv_row \<Rightarrow> string" where
  "row_start r \<equiv> the_str (row_timestamp r)"

abbreviation row_end :: "'f cv_row \<Rightarrow> string" where
  "row_end r \<equiv> the_str (row_label_end r)"

text \<open>The body of the loop over the folds, once the training and validation rows are cut out.\<close>

definition evaluate_fold ::
  "('f, 'x) classifier \<Rightarrow> int \<Rightarrow> pyfloat \<Rightarrow> nat \<Rightarrow> nat \<Rightarrow> 'f cv_row list \<Rightarrow> 'f cv_row list
    \<Rightarrow> 'x wf_fold result" where
  "evaluate_fold fit min_train_rows l2 k candidates train test =
     (let fold = \<lparr>wf_fold = k + 1, wf_status = ''INSUFFICIENT_TRAIN_AFTER_PURGE'',
                  wf_train_n = length train, wf_test_n = length test,
                  wf_purged_n = candidates - length train,
                  wf_validation_start = row_start (hd test), wf_validation_end = None,
                  wf_holdout_metrics = None, wf_baseline_metrics = None\<rparr>
      in if int (length train) < min_train_rows then Inr fold
         else rbind (fit train test l2) (\<lambda>r.
           case fit_status r of
             None \<Rightarrow> Inl (KeyError ''status'')
           | Some st \<Rightarrow> Inr (fold\<lparr>wf_status := st, wf_validation_end := Some (row_start (last test)),
               wf_holdout_metrics := fit_holdout_metrics r,
               wf_baseline_metrics := fit_baseline_metrics r\<rparr>)))"

definition purged_fold ::
  "('f, 'x) classifier \<Rightarrow> int \<Rightarrow> pyfloat \<Rightarrow> 'f cv_row list \<Rightarrow> nat \<Rightarrow> nat \<Rightarrow> nat \<Rightarrow> 'x wf_fold result" where
  "purged_fold fit min_train_rows l2 ordered initial test_size k =
     (let start = initial + k * test_size;
          test = take test_size (drop start ordered);
          candidate_train = take start ordered;
          train = filter (\<lambda>r. row_end r < row_start (hd test)) candidate_train
      in evaluate_fold fit min_train_rows l2 k (length candidate_train) train test)"

definition fold_valid :: "'x wf_fold \<Rightarrow> bool" where
  "fold_valid f \<longleftrightarrow> wf_status f = ''FITTED_TRAIN_EVALUATED_HOLDOUT''
     \<and> wf_holdout_metrics f \<noteq> None \<and> wf_holdout_metrics f \<noteq> Some []"

definition purged_walk_forward_evaluate ::
  "('f, 'x) classifier \<Rightarrow> 'f cv_row list \<Rightarrow> int \<Rightarrow> int \<Rightarrow> pyfloat \<Rightarrow> 'x wf_report result" where
  "purged_walk_forward_evaluate fit rows n_splits min_train_rows l2 =
     (if n_splits < 2 \<or> min_train_rows < 20 \<or> \<not> is_finite l2 \<or> negative l2
      then Inl (ValueError ''n_splits >= 2, min_train_rows >= 20, and finite l2 >= 0 required'')
      else if \<exists>r \<in> set rows. \<not> is_str (row_timestamp r) \<or> \<not> is_str (row_label_end r)
      then Inl (ValueError ''every row requires ISO timestamp and label_end_timestamp strings'')
      else if \<exists>i < length rows - 1. row_start (rows ! i) \<ge> row_start (rows ! (i + 1))
      then Inl (ValueError ''event timestamps must be strictly increasing and unique; refusing to reorder source rows'')
      else if rows = [] then Inr (WfInsufficient 0 None)
      else
        let n = length rows;
            test_size = n div (nat n_splits + 1);
            initial = n - test_size * nat n_splits
        in if test_size < 1 \<or> int initial < min_train_rows
           then Inr (WfInsufficient n (Some (initial, test_size)))
           else rbind (sequence_results
                  (map (purged_fold fit min_train_rows l2 rows initial test_size) [0..<nat n_splits])) (\<lambda>folds.
             let valid = length (filter fold_valid folds)
             in Inr (WfEvaluated (if valid > 0 then ''COMPLETED'' else ''INSUFFICIENT_VALID_FOLDS'')
                  n n_splits valid folds)))"

section \<open>Results\<close>

subsection \<open>The splitter\<close>

text \<open>How many validation windows of the given shape fit in \<open>n\<close> samples.\<close>

definition window_count :: "WalkForwardSplitter \<Rightarrow> int \<Rightarrow> nat" where
  "window_count w n = nat ((n - train_size w - validation_size w) div step_size w + 1)"

definition wf_splitter :: "WalkForwardSplitter \<Rightarrow> bool" where
  "wf_splitter w \<longleftrightarrow> 0 < train_size w \<and> 0 < validation_size w \<and> 0 < step_size w"

lemma splitter_init_wf: "WalkForwardSplitter_init t v s = Inr w \<Longrightarrow> wf_splitter w"
  by (auto simp: WalkForwardSplitter_init_def wf_splitter_def split: if_splits)

lemma le_div_iff_int: "k \<le> a div b \<longleftrightarrow> k * b \<le> a" if "0 < b" for a b k :: int
proof
  assume "k \<le> a div b"
  then have "k * b \<le> a div b * b" using that by (simp add: mult_right_mono)
  also have "\<dots> \<le> a" using that by (simp add: minus_mod_eq_div_mult [symmetric])
  finally show "k * b \<le> a" .
next
  assume "k * b \<le> a"
  then have "k * b div b \<le> a div b" using that by (rule zdiv_mono1)
  then show "k \<le> a div b" using that by simp
qed

lemma fold_fits_iff:
  assumes "wf_splitter w"
  shows "validation_end (fold_at w k) < n \<longleftrightarrow> k < (n - train_size w - validation_size w) div step_size w + 1"
proof -
  have "validation_end (fold_at w k) < n \<longleftrightarrow> k * step_size w \<le> n - train_size w - validation_size w"
    by (auto simp: fold_at_def Let_def)
  also have "\<dots> \<longleftrightarrow> k \<le> (n - train_size w - validation_size w) div step_size w"
    using assms by (simp add: wf_splitter_def le_div_iff_int)
  finally show ?thesis by linarith
qed

lemma split_loop_exact:
  assumes "wf_splitter w"
  shows "split_loop w n (int k) left
    = map (\<lambda>i. fold_at w (int i)) [k ..< min (k + left) (max k (window_count w n))]"
proof (induction left arbitrary: k)
  case (Suc left)
  show ?case
  proof (cases "validation_end (fold_at w (int k)) < n")
    case True
    then have less: "k < window_count w n"
      using fold_fits_iff [OF assms, of "int k" n] by (simp add: window_count_def)
    then have "[k ..< min (k + Suc left) (max k (window_count w n))]
        = k # [Suc k ..< min (Suc k + left) (max (Suc k) (window_count w n))]"
      by (simp add: upt_conv_Cons)
    with True Suc.IH [of "Suc k"] show ?thesis by (simp add: Let_def add.commute)
  next
    case False
    then have "\<not> k < window_count w n"
      using fold_fits_iff [OF assms, of "int k" n] by (simp add: window_count_def)
    with False show ?thesis by (simp add: Let_def)
  qed
qed simp

text \<open>
  \<open>WalkForwardSplitter.split\<close> returns exactly the windows that fit, in order, at most
  \<open>DEFAULT_MAX_FOLDS\<close> of them: fold \<open>i\<close> trains on \<open>train_size\<close> samples from \<open>i * step_size\<close> on and validates on
  the \<open>validation_size\<close> samples that follow; every other input is refused with the error of the first
  check that fails.
\<close>

lemma walk_forward_split_exact:
  "rbind (WalkForwardSplitter_init t v s) (\<lambda>w. split_folds w n) =
    (if t \<le> 0 then Inl (ValidationError ''train_size must be a positive integer'')
     else if v \<le> 0 then Inl (ValidationError ''validation_size must be a positive integer'')
     else if s \<le> 0 then Inl (ValidationError ''step_size must be a positive integer'')
     else if n < 0 then Inl (ValidationError ''dataset_length must be a non-negative integer'')
     else if n < t + v
     then Inl (ValidationError ''dataset too small: need at least train_size + validation_size samples to form a single fold'')
     else Inr (map (\<lambda>i. \<lparr>fold_id = int i + 1, train_start = int i * s, train_end = int i * s + t - 1,
                          validation_start = int i * s + t, validation_end = int i * s + t + v - 1\<rparr>)
            [0 ..< min DEFAULT_MAX_FOLDS (nat ((n - t - v) div s + 1))]))"
proof (cases "0 < t \<and> 0 < v \<and> 0 < s \<and> t + v \<le> n")
  case True
  define w where "w = \<lparr>train_size = t, validation_size = v, step_size = s\<rparr>"
  have w: "WalkForwardSplitter_init t v s = Inr w" "wf_splitter w"
    using True by (simp_all add: WalkForwardSplitter_init_def w_def wf_splitter_def)
  have "0 \<le> (n - t - v) div s" using True by (simp add: pos_imp_zdiv_nonneg_iff)
  then have some: "0 < window_count w n" by (simp add: window_count_def w_def)
  have loop: "split_loop w n 0 DEFAULT_MAX_FOLDS
      = map (\<lambda>i. fold_at w (int i)) [0 ..< min DEFAULT_MAX_FOLDS (window_count w n)]"
    using split_loop_exact [OF w(2), of n 0 DEFAULT_MAX_FOLDS] by simp
  moreover have "split_loop w n 0 DEFAULT_MAX_FOLDS \<noteq> []"
    using some unfolding loop by (simp add: DEFAULT_MAX_FOLDS_def)
  ultimately show ?thesis
    using True by (auto simp: w(1) split_folds_def validate_length_def Let_def w_def fold_at_def
        window_count_def algebra_simps)
next
  case False
  then show ?thesis
    by (auto simp: WalkForwardSplitter_init_def split_folds_def validate_length_def)
qed

subsection \<open>The purged evaluation\<close>

lemma sequence_results_Inr:
  "sequence_results rs = Inr xs \<Longrightarrow> length xs = length rs \<and> (\<forall>i < length rs. rs ! i = Inr (xs ! i))"
proof (induction rs arbitrary: xs)
  case (Cons r rs)
  then obtain x ys where "r = Inr x" "sequence_results rs = Inr ys" "xs = x # ys"
    by (auto split: sum.splits) (metis map_sum.simps sum.collapse(2) obj_sumE sum.distinct(1) sum.inject(2))
  with Cons.IH [of ys] show ?case by (auto simp: nth_Cons split: nat.splits)
qed simp

text \<open>Adjacent increase is increase between any two positions.\<close>

lemma adjacent_increasing:
  fixes f :: "nat \<Rightarrow> 'a :: order"
  assumes "\<And>i. i + 1 < n \<Longrightarrow> f i < f (i + 1)" and "i < j" "j < n"
  shows "f i < f j"
  using assms(2,3)
proof (induction j)
  case (Suc j)
  then show ?case using assms(1) [of j] by (cases "i = j") (auto intro: less_trans)
qed simp

lemma strictly_increasing_slices:
  fixes f :: "'a \<Rightarrow> 'b :: order"
  assumes inc: "\<And>i j. i < j \<Longrightarrow> j < length xs \<Longrightarrow> f (xs ! i) < f (xs ! j)"
    and test: "ys = take m (drop start xs)" "ys \<noteq> []"
  shows "r \<in> set (take start xs) \<Longrightarrow> u \<in> set ys \<Longrightarrow> f r < f u"
    and "u \<in> set ys \<Longrightarrow> f (hd ys) \<le> f u"
proof -
  have start: "start < length xs" using test by (cases "start < length xs") auto
  have at: "\<exists>j. start \<le> j \<and> j < length xs \<and> u = xs ! j" if "u \<in> set ys" for u
    using that start unfolding test(1)
    by (metis (no_types, lifting) add.commute in_set_conv_nth in_set_takeD le_add1 length_drop
        less_diff_conv nth_drop less_imp_le)
  show "f r < f u" if "r \<in> set (take start xs)" "u \<in> set ys"
    using at [OF that(2)] that(1) inc by (auto simp: in_set_conv_nth)
  have "hd ys = xs ! start" using test start by (cases m) (auto simp: hd_drop_conv_nth)
  then show "f (hd ys) \<le> f u" if "u \<in> set ys"
    using at [OF that] inc by (metis le_less order_refl)
qed

text \<open>
  C25: When the purged walk-forward evaluation runs its folds, there is one per split; the validation
  blocks are consecutive, of equal size and end with the last row; fold \<open>k\<close> is computed by the
  classifier from its validation block and from exactly those earlier rows whose label window ends
  before every validation row starts.  No training row starts or has its label decided at or after
  the start of a validation row.
\<close>

theorem purged_walk_forward_no_leakage:
  fixes rows :: "'f cv_row list"
  assumes "purged_walk_forward_evaluate fit rows n_splits min_train l2 = Inr (WfEvaluated st n s v folds)"
  shows "\<exists>initial m. 0 < m \<and> initial + nat n_splits * m = length rows \<and> length folds = nat n_splits
    \<and> (\<forall>k < nat n_splits. \<exists>train test.
        test = take m (drop (initial + k * m) rows) \<and> length test = m
      \<and> train = filter (\<lambda>r. \<forall>u \<in> set test. row_end r < row_start u) (take (initial + k * m) rows)
      \<and> (\<forall>r \<in> set train. \<forall>u \<in> set test. row_start r < row_start u \<and> row_end r < row_start u)
      \<and> evaluate_fold fit min_train l2 k (initial + k * m) train test = Inr (folds ! k))"
proof -
  define m where "m = length rows div (nat n_splits + 1)"
  define initial where "initial = length rows - m * nat n_splits"
  have m: "0 < m" and sorted: "\<And>i. i + 1 < length rows \<Longrightarrow> row_start (rows ! i) < row_start (rows ! (i + 1))"
    and seq: "sequence_results (map (purged_fold fit min_train l2 rows initial m) [0..<nat n_splits]) = Inr folds"
    using assms unfolding purged_walk_forward_evaluate_def m_def initial_def
    by (auto simp: Let_def rbind_Inr not_le less_diff_conv split: if_splits)
  have inc: "row_start (rows ! i) < row_start (rows ! j)" if "i < j" "j < length rows" for i j
    using adjacent_increasing [of "length rows" "\<lambda>i. row_start (rows ! i)", OF sorted that] .
  have "m * (nat n_splits + 1) \<le> length rows" unfolding m_def by (rule div_times_less_eq_dividend)
  then have total: "initial + nat n_splits * m = length rows" by (simp add: initial_def algebra_simps)
  have fold: "\<exists>train test. test = take m (drop (initial + k * m) rows) \<and> length test = m
      \<and> train = filter (\<lambda>r. \<forall>u \<in> set test. row_end r < row_start u) (take (initial + k * m) rows)
      \<and> (\<forall>r \<in> set train. \<forall>u \<in> set test. row_start r < row_start u \<and> row_end r < row_start u)
      \<and> evaluate_fold fit min_train l2 k (initial + k * m) train test = Inr (folds ! k)"
    if k: "k < nat n_splits" for k
  proof -
    define start test where "start = initial + k * m" and "test = take m (drop start rows)"
    define train where "train = filter (\<lambda>r. row_end r < row_start (hd test)) (take start rows)"
    have "Suc k * m \<le> nat n_splits * m" using k by (intro mult_right_mono) simp_all
    then have fits: "start + m \<le> length rows" using total by (simp add: start_def)
    then have len: "length test = m" "test \<noteq> []" using m by (auto simp: test_def)
    note slices = strictly_increasing_slices [of rows row_start test m start, OF inc test_def len(2)]
    have "(row_end r < row_start (hd test)) = (\<forall>u \<in> set test. row_end r < row_start u)" for r :: "'f cv_row"
      using slices(2) len(2) by (meson hd_in_set order_less_le_trans)
    then have train: "train = filter (\<lambda>r. \<forall>u \<in> set test. row_end r < row_start u) (take start rows)"
      by (simp add: train_def)
    have "purged_fold fit min_train l2 rows initial m k = Inr (folds ! k)"
      using sequence_results_Inr [OF seq] k by simp
    then have "evaluate_fold fit min_train l2 k start train test = Inr (folds ! k)"
      using fits by (simp add: purged_fold_def Let_def start_def test_def train_def min_absorb2)
    with len train slices(1) show ?thesis
      unfolding start_def test_def by (intro exI [of _ train] exI [of _ test]) (auto simp: start_def test_def)
  qed
  with m total sequence_results_Inr [OF seq] show ?thesis by auto
qed

text \<open>Sixty-three events whose label windows each reach the start of the next one.\<close>

definition sample_time :: "nat \<Rightarrow> json" where
  "sample_time i = JStr [digit_char (i div 10), digit_char (i mod 10)]"

definition sample_rows :: "unit cv_row list" where
  "sample_rows = map (\<lambda>i. \<lparr>row_timestamp = sample_time i, row_label_end = sample_time (i + 1),
     row_event_id = JNull, row_features = ()\<rparr>) [0..<63]"

definition sample_fit :: "(unit, nat) classifier" where
  "sample_fit train test l2 = Inr \<lparr>fit_status = Some ''FITTED_TRAIN_EVALUATED_HOLDOUT'',
     fit_holdout_metrics = Some [(''n'', length train)], fit_baseline_metrics = None\<rparr>"

lemma sample_evaluation:
  "purged_walk_forward_evaluate sample_fit sample_rows 2 20 (Finite 1)
    = Inr (WfEvaluated ''COMPLETED'' 63 2 2
       [\<lparr>wf_fold = 1, wf_status = ''FITTED_TRAIN_EVALUATED_HOLDOUT'', wf_train_n = 20, wf_test_n = 21,
         wf_purged_n = 1, wf_validation_start = ''21'', wf_validation_end = Some ''41'',
         wf_holdout_metrics = Some [(''n'', 20)], wf_baseline_metrics = None\<rparr>,
        \<lparr>wf_fold = 2, wf_status = ''FITTED_TRAIN_EVALUATED_HOLDOUT'', wf_train_n = 41, wf_test_n = 21,
         wf_purged_n = 1, wf_validation_start = ''42'', wf_validation_end = Some ''62'',
         wf_holdout_metrics = Some [(''n'', 41)], wf_baseline_metrics = None\<rparr>])"
  by code_simp

theorem purged_walk_forward_no_leakage_witness:
  "\<exists>initial m. 0 < m \<and> initial + 2 * m = length sample_rows"
  using purged_walk_forward_no_leakage [OF sample_evaluation] by auto

end
