(* ===== verification/Combinatorial_CV.thy ===== *)
theory Combinatorial_CV
  imports Walk_Forward "HOL-Library.Product_Lexorder"
begin

text \<open>
  Combinatorial purged cross-validation, \<open>orchestration/combinatorial_purged_cv.py\<close>: every choice of
  test groups, the purge of training events whose label window meets a test event (found by a binary
  search in the merged test intervals), the time-based embargo after each test block, and the record
  of each split.

  \<open>datetime.fromisoformat\<close> is an argument (the parser of ISO-8601 text), as is the classifier; the
  results hold for all of them.  A \<open>datetime\<close> is its wall-clock microseconds and its UTC offset.  The
  distribution statistics over the finished splits are floating-point summaries and are left out.
\<close>

section \<open>Dates\<close>

record datetime =
  wall_us :: int
  utcoffset :: "int option"

text \<open>The point in time two datetimes of the same awareness are compared by.\<close>

definition instant :: "datetime \<Rightarrow> int" where
  "instant d = wall_us d - (case utcoffset d of None \<Rightarrow> 0 | Some off \<Rightarrow> off)"

text \<open>\<open>datetime.min\<close> and \<open>datetime.max\<close>, in microseconds from 1970-01-01.\<close>

definition datetime_min :: int where
  "datetime_min = - 719162 * 86400 * 1000000"

definition datetime_max :: int where
  "datetime_max = 2932897 * 86400 * 1000000 - 1"

text \<open>\<open>datetime + timedelta\<close>.\<close>

definition datetime_add :: "datetime \<Rightarrow> int \<Rightarrow> datetime result" where
  "datetime_add d us =
     (let u = wall_us d + us in
      if u < datetime_min \<or> datetime_max < u then Inl (OverflowError ''date value out of range'')
      else Inr (d\<lparr>wall_us := u\<rparr>))"

text \<open>\<open>max\<close> of datetimes keeps the first of equal ones.\<close>

fun max_datetime :: "datetime \<Rightarrow> datetime list \<Rightarrow> datetime" where
  "max_datetime m [] = m"
| "max_datetime m (d # ds) = max_datetime (if instant m < instant d then d else m) ds"

section \<open>Splits\<close>

type_synonym iso_parser = "string \<Rightarrow> datetime option"

definition replace_Z :: "string \<Rightarrow> string" where
  "replace_Z s = concat (map (\<lambda>c. if c = CHR ''Z'' then ''+00:00'' else [c]) s)"

definition parse_time :: "iso_parser \<Rightarrow> json \<Rightarrow> string \<Rightarrow> nat \<Rightarrow> datetime result" where
  "parse_time fromisoformat v field i =
     (case v of
        JStr s \<Rightarrow>
          (case fromisoformat (replace_Z s) of
             None \<Rightarrow> Inl (ValueError (''row '' @ nat_digits i @ '': invalid ISO-8601 '' @ field))
           | Some d \<Rightarrow> Inr d)
      | _ \<Rightarrow> Inl (ValueError (''row '' @ nat_digits i @ '': '' @ field @ '' must be an ISO-8601 string'')))"

definition time_id :: "'f cv_row \<Rightarrow> nat \<Rightarrow> string" where
  "time_id row i = (if row_event_id row \<noteq> JNull then py_str (row_event_id row) else nat_digits i)"

text \<open>\<open>itertools.combinations\<close>.\<close>

fun combinations :: "'a list \<Rightarrow> nat \<Rightarrow> 'a list list" where
  "combinations xs 0 = [[]]"
| "combinations [] (Suc k) = []"
| "combinations (x # xs) (Suc k) = map (\<lambda>c. x # c) (combinations xs k) @ combinations xs (Suc k)"

text \<open>\<open>bisect.bisect_left\<close>: the binary search between \<open>lo\<close> and \<open>hi\<close>.\<close>

function bisect_between :: "int list \<Rightarrow> int \<Rightarrow> nat \<Rightarrow> nat \<Rightarrow> nat" where
  "bisect_between xs x lo hi =
     (if lo < hi then
        let mid = (lo + hi) div 2 in
        if xs ! mid < x then bisect_between xs x (mid + 1) hi else bisect_between xs x lo mid
      else lo)"
  by pat_completeness auto
termination by (relation "measure (\<lambda>(xs, x, lo, hi). hi - lo)") auto

declare bisect_between.simps [simp del]

definition bisect_left :: "int list \<Rightarrow> int \<Rightarrow> nat" where
  "bisect_left xs x = bisect_between xs x 0 (length xs)"

definition merge_step :: "(int \<times> int) list \<Rightarrow> int \<times> int \<Rightarrow> (int \<times> int) list" where
  "merge_step merged = (\<lambda>(s, e).
     if merged \<noteq> [] \<and> s \<le> snd (last merged)
     then butlast merged @ [(fst (last merged), max (snd (last merged)) e)]
     else merged @ [(s, e)])"

definition merge_intervals :: "(int \<times> int) list \<Rightarrow> (int \<times> int) list" where
  "merge_intervals ivs = foldl merge_step [] ivs"

definition has_overlap :: "(int \<times> int) list \<Rightarrow> int \<Rightarrow> int \<Rightarrow> bool" where
  "has_overlap merged s e =
     (let p = bisect_left (map snd merged) s
      in p < length merged \<and> fst (merged ! p) \<le> e)"

definition cv_groups :: "nat \<Rightarrow> nat \<Rightarrow> nat list list" where
  "cv_groups n n_groups = map (\<lambda>g. [g * n div n_groups ..< (g + 1) * n div n_groups]) [0..<n_groups]"

text \<open>
  The groups that embargo an event: \<open>block_end + embargo\<close> is computed only for blocks that end before
  the event starts.
\<close>

fun embargoed_by :: "int \<Rightarrow> datetime \<Rightarrow> (nat \<times> datetime) list \<Rightarrow> nat list result" where
  "embargoed_by embargo start [] = Inr []"
| "embargoed_by embargo start ((g, block_end) # blocks) =
     (if instant block_end < instant start
      then rbind (datetime_add block_end embargo) (\<lambda>limit.
             rbind (embargoed_by embargo start blocks) (\<lambda>gs.
               Inr (if instant start \<le> instant limit then g # gs else gs)))
      else embargoed_by embargo start blocks)"

record membership =
  purged_indices :: "nat list"
  embargo_indices :: "nat list"
  train_indices :: "nat list"
  purge_reasons :: "(string, nat list) dict"
  embargo_reasons :: "(string, nat list) dict"

fun assign_rows ::
  "datetime list \<Rightarrow> datetime list \<Rightarrow> int \<Rightarrow> nat list \<Rightarrow> (int \<times> int) list \<Rightarrow> (nat \<times> datetime) list
    \<Rightarrow> nat list \<Rightarrow> membership \<Rightarrow> membership result" where
  "assign_rows starts ends embargo test merged blocks [] m = Inr m"
| "assign_rows starts ends embargo test merged blocks (i # is) m =
     (let overlaps =
        (if has_overlap merged (instant (starts ! i)) (instant (ends ! i))
         then filter (\<lambda>t. instant (starts ! i) \<le> instant (ends ! t)
                        \<and> instant (starts ! t) \<le> instant (ends ! i)) test
         else [])
      in if overlaps \<noteq> []
         then assign_rows starts ends embargo test merged blocks is
                (m\<lparr>purged_indices := purged_indices m @ [i],
                   purge_reasons := dset (nat_digits i) overlaps (purge_reasons m)\<rparr>)
         else rbind (embargoed_by embargo (starts ! i) blocks) (\<lambda>gs.
                if gs \<noteq> []
                then assign_rows starts ends embargo test merged blocks is
                       (m\<lparr>embargo_indices := embargo_indices m @ [i],
                          embargo_reasons := dset (nat_digits i) gs (embargo_reasons m)\<rparr>)
                else assign_rows starts ends embargo test merged blocks is
                       (m\<lparr>train_indices := train_indices m @ [i]\<rparr>)))"

record 'x cv_split =
  split_number :: nat
  test_group_ids :: "nat list"
  test_indices :: "nat list"
  test_event_ids :: "string list"
  candidate_train_n :: nat
  members :: membership
  train_event_ids :: "string list"
  purged_event_ids :: "string list"
  embargo_event_ids :: "string list"
  test_start :: datetime
  test_end :: datetime
  split_status :: string
  split_metrics :: "(string, 'x) dict option"
  split_baseline_metrics :: "(string, 'x) dict option"

text \<open>The body of the loop over the combinations of test groups.\<close>

definition cv_split_of ::
  "('f, 'x) classifier \<Rightarrow> 'f cv_row list \<Rightarrow> datetime list \<Rightarrow> datetime list \<Rightarrow> nat list list \<Rightarrow> int
    \<Rightarrow> int \<Rightarrow> pyfloat \<Rightarrow> nat \<times> nat list \<Rightarrow> 'x cv_split result" where
  "cv_split_of fit rows starts ends groups embargo min_train_rows l2 = (\<lambda>(number, ids).
     let n = length rows;
         test = sort (concat (map (\<lambda>g. groups ! g) ids));
         merged = merge_intervals (sort (map (\<lambda>i. (instant (starts ! i), instant (ends ! i))) test));
         block_end = (\<lambda>g. max_datetime (ends ! hd (groups ! g)) (map (\<lambda>i. ends ! i) (tl (groups ! g))));
         candidates = filter (\<lambda>i. i \<notin> set test) [0..<n]
     in rbind (assign_rows starts ends embargo test merged (map (\<lambda>g. (g, block_end g)) ids) candidates
                \<lparr>purged_indices = [], embargo_indices = [], train_indices = [],
                 purge_reasons = [], embargo_reasons = []\<rparr>) (\<lambda>m.
        let ids_of = map (\<lambda>i. time_id (rows ! i) i);
            split = \<lparr>split_number = number, test_group_ids = ids, test_indices = test,
              test_event_ids = ids_of test, candidate_train_n = length candidates, members = m,
              train_event_ids = ids_of (train_indices m), purged_event_ids = ids_of (purged_indices m),
              embargo_event_ids = ids_of (embargo_indices m),
              test_start = starts ! hd test,
              test_end = max_datetime (ends ! hd test) (map (\<lambda>i. ends ! i) (tl test)),
              split_status = ''INSUFFICIENT_TRAIN_AFTER_PURGE_EMBARGO'',
              split_metrics = None, split_baseline_metrics = None\<rparr>
        in if int (length (train_indices m)) < min_train_rows then Inr split
           else rbind (fit (map (\<lambda>i. rows ! i) (train_indices m)) (map (\<lambda>i. rows ! i) test) l2) (\<lambda>r.
             Inr (split\<lparr>split_status := (case fit_status r of None \<Rightarrow> ''UNKNOWN'' | Some s \<Rightarrow> s),
                        split_metrics := fit_holdout_metrics r,
                        split_baseline_metrics := fit_baseline_metrics r\<rparr>))))"

datatype 'x cv_report = CvInsufficient | CvSplits "'x cv_split list"

definition combinatorial_purged_cv_evaluate ::
  "iso_parser \<Rightarrow> ('f, 'x) classifier \<Rightarrow> 'f cv_row list \<Rightarrow> int \<Rightarrow> int \<Rightarrow> int \<Rightarrow> int \<Rightarrow> pyfloat
    \<Rightarrow> 'x cv_report result" where
  "combinatorial_purged_cv_evaluate fromisoformat fit rows n_groups n_test_groups embargo min_train_rows l2 =
     (if rows = [] then Inr CvInsufficient
      else if n_groups < 3 then Inl (ValueError ''n_groups must be an integer >= 3'')
      else if \<not> (1 \<le> n_test_groups \<and> n_test_groups < n_groups)
      then Inl (ValueError ''n_test_groups must be between 1 and n_groups-1'')
      else if embargo < 0 then Inl (ValueError ''embargo must be a nonnegative timedelta'')
      else if min_train_rows < 20 then Inl (ValueError ''min_train_rows must be an integer >= 20'')
      else if \<not> is_finite l2 \<or> negative l2 then Inl (ValueError ''l2 must be finite and >= 0'')
      else
        rbind (sequence_results (map (\<lambda>(i, r). parse_time fromisoformat (row_timestamp r) ''timestamp'' i)
                 (enumerate 0 rows))) (\<lambda>starts.
        rbind (sequence_results (map (\<lambda>(i, r). parse_time fromisoformat (row_label_end r) ''label_end_timestamp'' i)
                 (enumerate 0 rows))) (\<lambda>ends.
        if length (remdups (map (\<lambda>d. utcoffset d \<noteq> None) (starts @ ends))) > 1
        then Inl (ValueError ''timestamps must use a consistent timezone convention'')
        else if \<exists>i < length starts - 1. instant (starts ! i) \<ge> instant (starts ! (i + 1))
        then Inl (ValueError ''event timestamps must be strictly increasing and unique; refusing to reorder'')
        else if \<exists>i < length rows. instant (ends ! i) < instant (starts ! i)
        then Inl (ValueError ''label_end_timestamp must be >= timestamp'')
        else if length (remdups (map (\<lambda>(i, r). time_id r i) (enumerate 0 rows))) \<noteq> length rows
        then Inl (ValueError ''event_id values must be unique when supplied'')
        else if int (length rows) < n_groups
        then Inl (ValueError ''n_groups cannot exceed event count'')
        else
          let groups = cv_groups (length rows) (nat n_groups);
              combos = combinations [0..<nat n_groups] (nat n_test_groups)
          in rbind (sequence_results
               (map (cv_split_of fit rows starts ends groups embargo min_train_rows l2) (enumerate 1 combos)))
               (\<lambda>splits. Inr (CvSplits splits)))))"

section \<open>Interval search\<close>

lemma bisect_between_correct:
  assumes "sorted xs" "lo \<le> hi" "hi \<le> length xs"
    and "\<And>i. i < lo \<Longrightarrow> xs ! i < x" and "\<And>i. hi \<le> i \<Longrightarrow> i < length xs \<Longrightarrow> x \<le> xs ! i"
  shows "bisect_between xs x lo hi \<le> length xs"
    and "i < bisect_between xs x lo hi \<Longrightarrow> xs ! i < x"
    and "bisect_between xs x lo hi \<le> i \<Longrightarrow> i < length xs \<Longrightarrow> x \<le> xs ! i"
proof -
  have "(bisect_between xs x lo hi \<le> length xs)
      \<and> (\<forall>i. (i < bisect_between xs x lo hi \<longrightarrow> xs ! i < x)
         \<and> (bisect_between xs x lo hi \<le> i \<longrightarrow> i < length xs \<longrightarrow> x \<le> xs ! i))"
    using assms
  proof (induction xs x lo hi rule: bisect_between.induct)
    case (1 xs x lo hi)
    define mid where "mid = (lo + hi) div 2"
    show ?case
    proof (cases "lo < hi")
      case False
      then have "bisect_between xs x lo hi = lo" by (subst bisect_between.simps) simp
      with False "1.prems" show ?thesis by auto
    next
      case less: True
      then have mid: "lo \<le> mid" "mid < hi" by (auto simp: mid_def)
      show ?thesis
      proof (cases "xs ! mid < x")
        case True
        have "xs ! i < x" if "i < mid + 1" for i
          using True sorted_nth_mono [OF "1.prems"(1), of i mid] that mid "1.prems"(3) by fastforce
        moreover have "bisect_between xs x lo hi = bisect_between xs x (mid + 1) hi"
          using less True by (subst bisect_between.simps) (simp add: mid_def Let_def)
        ultimately show ?thesis
          using "1.IH"(1) [OF less mid_def True "1.prems"(1) _ "1.prems"(3)] "1.prems"(5) mid by simp
      next
        case False
        have up: "x \<le> xs ! i" if "mid \<le> i" "i < length xs" for i
          using False sorted_nth_mono [OF "1.prems"(1) that] by simp
        have "mid \<le> length xs" using mid "1.prems"(3) by simp
        note IH = "1.IH"(2) [OF less mid_def False "1.prems"(1) mid(1) this "1.prems"(4) up]
        have "bisect_between xs x lo hi = bisect_between xs x lo mid"
          using less False by (subst bisect_between.simps) (simp add: mid_def Let_def)
        then show ?thesis using IH by simp
      qed
    qed
  qed
  then show "bisect_between xs x lo hi \<le> length xs"
    and "i < bisect_between xs x lo hi \<Longrightarrow> xs ! i < x"
    and "bisect_between xs x lo hi \<le> i \<Longrightarrow> i < length xs \<Longrightarrow> x \<le> xs ! i"
    by blast+
qed

lemma bisect_left_correct:
  assumes "sorted xs"
  shows "i < bisect_left xs x \<Longrightarrow> xs ! i < x"
    and "bisect_left xs x \<le> i \<Longrightarrow> i < length xs \<Longrightarrow> x \<le> xs ! i"
  unfolding bisect_left_def
  by (rule bisect_between_correct(2) [OF assms, of 0 "length xs"]; simp)
    (rule bisect_between_correct(3) [OF assms, of 0 "length xs"]; simp)

text \<open>A list of intervals, as the set of points it covers; intervals that are separated and in order.\<close>

definition covers :: "(int \<times> int) list \<Rightarrow> int set" where
  "covers ivs = (\<Union>(s, e) \<in> set ivs. {s..e})"

definition separated :: "(int \<times> int) list \<Rightarrow> bool" where
  "separated ivs \<longleftrightarrow> sorted_wrt (\<lambda>a b. snd a < fst b) ivs \<and> (\<forall>a \<in> set ivs. fst a \<le> snd a)"

lemma covers_simps [simp]:
  "covers [] = {}" "covers (iv # ivs) = {fst iv..snd iv} \<union> covers ivs" "covers (xs @ ys) = covers xs \<union> covers ys"
  by (auto simp: covers_def)

lemma covers_meets:
  assumes "\<forall>a \<in> set ivs. fst a \<le> snd a" "s \<le> e"
  shows "covers ivs \<inter> {s..e} \<noteq> {} \<longleftrightarrow> (\<exists>(a, b) \<in> set ivs. s \<le> b \<and> a \<le> e)"
proof -
  have "{a..b} \<inter> {s..e} \<noteq> {} \<longleftrightarrow> s \<le> b \<and> a \<le> e" if "a \<le> b" for a b :: int
    using that assms(2) by (auto simp: Int_atLeastAtMost)
  then have "({fst iv..snd iv} \<inter> {s..e} \<noteq> {}) = (s \<le> snd iv \<and> fst iv \<le> e)" if "iv \<in> set ivs" for iv
    using assms(1) that by blast
  moreover have "covers ivs \<inter> {s..e} \<noteq> {} \<longleftrightarrow> (\<exists>iv \<in> set ivs. {fst iv..snd iv} \<inter> {s..e} \<noteq> {})"
    by (induction ivs) (auto simp: Int_Un_distrib2)
  ultimately show ?thesis by (simp add: case_prod_beta cong: bex_cong)
qed

lemma merge_step_correct:
  assumes "separated acc" "s \<le> e" "acc \<noteq> [] \<Longrightarrow> fst (last acc) \<le> s"
  shows "separated (merge_step acc (s, e))" (is ?sep)
    and "covers (merge_step acc (s, e)) = covers acc \<union> {s..e}" (is ?cov)
    and "merge_step acc (s, e) \<noteq> [] \<and> fst (last (merge_step acc (s, e))) \<le> s" (is ?last)
proof -
  have "?sep \<and> ?cov \<and> ?last"
  proof (cases acc rule: rev_cases)
    case (snoc bs iv)
    obtain a b where iv: "iv = (a, b)" by (cases iv)
    have facts: "a \<le> b" "a \<le> s" "separated bs" "\<And>x. x \<in> set bs \<Longrightarrow> snd x < a"
      using assms by (auto simp: snoc iv separated_def sorted_wrt_append)
    have ?sep using facts assms(2)
      by (fastforce simp: snoc iv merge_step_def separated_def sorted_wrt_append)
    moreover have ?cov using facts assms(2) by (auto simp: snoc iv merge_step_def)
    moreover have ?last using facts by (auto simp: snoc iv merge_step_def)
    ultimately show ?thesis by blast
  qed (use assms in \<open>simp add: merge_step_def separated_def\<close>)
  then show ?sep ?cov ?last by blast+
qed

lemma merge_foldl_correct:
  assumes "separated acc" "sorted (map fst ivs)" "\<forall>a \<in> set ivs. fst a \<le> snd a"
    and "acc \<noteq> [] \<Longrightarrow> \<forall>a \<in> set ivs. fst (last acc) \<le> fst a"
  shows "separated (foldl merge_step acc ivs) \<and> covers (foldl merge_step acc ivs) = covers acc \<union> covers ivs"
  using assms
proof (induction ivs arbitrary: acc)
  case (Cons iv ivs)
  obtain s e where iv: "iv = (s, e)" by (cases iv)
  have step: "separated (merge_step acc (s, e))" "covers (merge_step acc (s, e)) = covers acc \<union> {s..e}"
    "fst (last (merge_step acc (s, e))) \<le> s"
    using merge_step_correct [of acc s e] Cons.prems by (auto simp: iv)
  have "separated (foldl merge_step (merge_step acc (s, e)) ivs)
      \<and> covers (foldl merge_step (merge_step acc (s, e)) ivs) = covers (merge_step acc (s, e)) \<union> covers ivs"
    using step Cons.prems by (intro Cons.IH) (fastforce simp: iv)+
  then show ?case by (auto simp: iv step(2))
qed simp

lemma sorted_intervals_starts: "sorted ivs \<Longrightarrow> sorted (map fst ivs)" for ivs :: "(int \<times> int) list"
  by (auto simp: sorted_iff_nth_mono less_eq_prod_def) (meson less_imp_le)

lemma merge_intervals_correct:
  assumes "\<forall>a \<in> set ivs. fst a \<le> snd a"
  shows "separated (merge_intervals (sort ivs))" and "covers (merge_intervals (sort ivs)) = covers ivs"
proof -
  have "covers (sort ivs) = covers ivs" by (simp add: covers_def)
  then show "separated (merge_intervals (sort ivs))" and "covers (merge_intervals (sort ivs)) = covers ivs"
    using merge_foldl_correct [of "[]" "sort ivs"] assms
    by (auto simp: merge_intervals_def separated_def sorted_intervals_starts)
qed

lemma has_overlap_separated:
  assumes "separated ivs" "s \<le> e"
  shows "has_overlap ivs s e \<longleftrightarrow> (\<exists>(a, b) \<in> set ivs. s \<le> b \<and> a \<le> e)"
proof -
  have order: "snd (ivs ! i) < fst (ivs ! j)" if "i < j" "j < length ivs" for i j
    using assms(1) that by (simp add: separated_def sorted_wrt_iff_nth_less)
  have wf: "fst (ivs ! i) \<le> snd (ivs ! i)" if "i < length ivs" for i
    using assms(1) that by (simp add: separated_def)
  have sorted: "sorted (map snd ivs)"
  proof (intro sorted_wrt_iff_nth_less [THEN iffD2] allI impI)
    fix i j assume "i < j" "j < length (map snd ivs)"
    with order [of i j] wf [of j] show "map snd ivs ! i \<le> map snd ivs ! j" by simp
  qed
  define p where "p = bisect_left (map snd ivs) s"
  have below: "\<And>i. i < p \<Longrightarrow> i < length ivs \<Longrightarrow> snd (ivs ! i) < s"
    and above: "\<And>i. p \<le> i \<Longrightarrow> i < length ivs \<Longrightarrow> s \<le> snd (ivs ! i)"
    using bisect_left_correct [OF sorted] by (force simp: p_def)+
  show ?thesis
  proof
    assume "has_overlap ivs s e"
    then have "p < length ivs" "fst (ivs ! p) \<le> e" by (auto simp: has_overlap_def Let_def p_def)
    then show "\<exists>(a, b) \<in> set ivs. s \<le> b \<and> a \<le> e"
      using above [of p] by (intro bexI [of _ "ivs ! p"]) auto
  next
    assume "\<exists>(a, b) \<in> set ivs. s \<le> b \<and> a \<le> e"
    then obtain j where j: "j < length ivs" "s \<le> snd (ivs ! j)" "fst (ivs ! j) \<le> e"
      by (auto simp: in_set_conv_nth)
    then have "p \<le> j" using below [of j] by (meson not_le)
    moreover have "fst (ivs ! p) \<le> e"
      using order [of p j] wf [of p] j \<open>p \<le> j\<close> by (cases "p = j") auto
    ultimately show "has_overlap ivs s e" using j by (simp add: has_overlap_def Let_def p_def)
  qed
qed

lemma merged_search_exact:
  assumes "\<forall>a \<in> set ivs. fst a \<le> snd a" "s \<le> e"
  shows "has_overlap (merge_intervals (sort ivs)) s e \<longleftrightarrow> (\<exists>(a, b) \<in> set ivs. s \<le> b \<and> a \<le> e)"
proof -
  note merged = merge_intervals_correct [OF assms(1)]
  have "has_overlap (merge_intervals (sort ivs)) s e \<longleftrightarrow> covers (merge_intervals (sort ivs)) \<inter> {s..e} \<noteq> {}"
    using has_overlap_separated [OF merged(1) assms(2)]
      covers_meets [OF _ assms(2), of "merge_intervals (sort ivs)"] merged(1) by (simp add: separated_def)
  then show ?thesis using covers_meets [OF assms] by (simp add: merged(2))
qed

section \<open>Groups and combinations\<close>

lemma combinations_length: "length (combinations xs k) = length xs choose k"
  by (induction xs k rule: combinations.induct) simp_all

lemma combinations_subsets:
  "c \<in> set (combinations xs k) \<Longrightarrow> length c = k \<and> set c \<subseteq> set xs"
  by (induction xs k arbitrary: c rule: combinations.induct) fastforce+

lemma combinations_distinct:
  "distinct xs \<Longrightarrow> c \<in> set (combinations xs k) \<Longrightarrow> distinct c"
proof (induction xs k arbitrary: c rule: combinations.induct)
  case (3 x xs k)
  have xs: "distinct xs" using "3.prems"(1) by simp
  from "3.prems"(2) consider d where "c = x # d" "d \<in> set (combinations xs k)"
    | "c \<in> set (combinations xs (Suc k))" by auto
  then show ?case
  proof cases
    case 1
    then have "x \<notin> set d" using combinations_subsets [of d xs k] "3.prems"(1) by auto
    with "3.IH"(1) [OF xs 1(2)] 1(1) show ?thesis by simp
  next
    case 2
    then show ?thesis by (rule "3.IH"(2) [OF xs])
  qed
qed simp_all

lemma combinations_every_subset:
  "distinct xs \<Longrightarrow> A \<subseteq> set xs \<Longrightarrow> card A = k \<Longrightarrow> \<exists>c \<in> set (combinations xs k). set c = A"
proof (induction xs k arbitrary: A rule: combinations.induct)
  case (1 xs)
  then have "finite A" by (meson finite_set finite_subset)
  with "1.prems" show ?case by simp
next
  case (3 x xs k)
  show ?case
  proof (cases "x \<in> A")
    case True
    have "finite A" using "3.prems"(2) finite_subset by blast
    then have "A - {x} \<subseteq> set xs" "card (A - {x}) = k" using "3.prems" True by auto
    then obtain c where "c \<in> set (combinations xs k)" "set c = A - {x}"
      using "3.IH"(1) [of "A - {x}"] "3.prems"(1) by auto
    with True show ?thesis by (intro bexI [of _ "x # c"]) auto
  next
    case False
    then have "A \<subseteq> set xs" using "3.prems" by auto
    then obtain c where "c \<in> set (combinations xs (Suc k))" "set c = A"
      using "3.IH"(2) [of A] "3.prems" by auto
    then show ?thesis by (intro bexI [of _ c]) auto
  qed
qed auto

lemma combinations_containing:
  "distinct xs \<Longrightarrow> x \<in> set xs \<Longrightarrow>
    length (filter (\<lambda>c. x \<in> set c) (combinations xs (Suc k))) = (length xs - 1) choose k"
proof (induction xs arbitrary: k)
  case (Cons y xs)
  have own: "filter (\<lambda>c. y \<in> set c) (combinations xs j) = []" for j
    using combinations_subsets Cons.prems(1) by (fastforce simp: filter_empty_conv)
  show ?case
  proof (cases "x = y")
    case True
    then show ?thesis using own by (simp add: filter_map comp_def combinations_length)
  next
    case False
    then have x: "x \<in> set xs" "distinct xs" using Cons.prems by auto
    then obtain n where n: "length xs = Suc n" by (cases xs) auto
    show ?thesis
    proof (cases k)
      case 0
      then show ?thesis using False Cons.IH [OF x(2,1), of 0] n by (simp add: filter_map comp_def)
    next
      case (Suc j)
      then show ?thesis using False Cons.IH [OF x(2,1)] n by (simp add: filter_map comp_def)
    qed
  qed
qed simp

lemma concat_ranges:
  fixes f :: "nat \<Rightarrow> nat"
  assumes "mono f"
  shows "concat (map (\<lambda>g. [f g..<f (Suc g)]) [0..<k]) = [f 0..<f k]"
proof (induction k)
  case (Suc k)
  have "f 0 \<le> f k" "f k \<le> f (Suc k)" using assms by (auto simp: mono_def)
  then have "[f 0..<f k] @ [f k..<f (Suc k)] = [f 0..<f (Suc k)]"
    by (metis le_add_diff_inverse upt_add_eq_append)
  with Suc show ?case by simp
qed simp

lemma group_bounds_mono: "mono (\<lambda>g. g * n div G)" for n G :: nat
  by (intro monoI div_le_mono mult_right_mono) simp_all

lemma cv_groups_cover: "0 < G \<Longrightarrow> concat (cv_groups n G) = [0..<n]"
  using concat_ranges [OF group_bounds_mono, of n G G] by (simp add: cv_groups_def)

lemma cv_groups_nth: "g < G \<Longrightarrow> cv_groups n G ! g = [g * n div G ..< Suc g * n div G]"
  by (simp add: cv_groups_def)

lemma cv_groups_nonempty:
  assumes "g < G" "G \<le> n"
  shows "cv_groups n G ! g \<noteq> []"
proof -
  have "g * n div G + 1 = (g * n + G) div G" using assms by simp
  also have "\<dots> \<le> Suc g * n div G" using assms(2) by (intro div_le_mono) simp
  finally show ?thesis by (simp add: cv_groups_nth [OF assms(1)])
qed

lemma cv_groups_bound:
  assumes "g < G" "i \<in> set (cv_groups n G ! g)"
  shows "i < n"
proof -
  have "cv_groups n G ! g \<in> set (cv_groups n G)" using assms(1) by (simp add: cv_groups_def)
  then have "i \<in> set (concat (cv_groups n G))" using assms(2) by auto
  then show ?thesis using assms(1) by (simp add: cv_groups_cover)
qed

text \<open>Each row is in exactly one group.\<close>

lemma row_in_group:
  assumes "i < n" "0 < G"
  obtains g where "g < G" "i \<in> set (cv_groups n G ! g)"
    "\<And>h. h < G \<Longrightarrow> i \<in> set (cv_groups n G ! h) \<Longrightarrow> h = g"
proof -
  have "i \<in> set (concat (cv_groups n G))" using assms by (simp add: cv_groups_cover)
  then obtain g where g: "g < G" "i \<in> set (cv_groups n G ! g)"
    by (auto simp: in_set_conv_nth cv_groups_def)
  have "h = g" if "h < G" "i \<in> set (cv_groups n G ! h)" for h
  proof (rule ccontr)
    assume "h \<noteq> g"
    then consider "Suc h \<le> g" | "Suc g \<le> h" by linarith
    then show False
    proof cases
      case 1
      then have "Suc h * n div G \<le> g * n div G" using group_bounds_mono by (rule monoD [rotated])
      with g that show False by (simp add: cv_groups_nth)
    next
      case 2
      then have "Suc g * n div G \<le> h * n div G" using group_bounds_mono by (rule monoD [rotated])
      with g that show False by (simp add: cv_groups_nth)
    qed
  qed
  with g show ?thesis using that by blast
qed

section \<open>Membership of a split\<close>

definition overlapping :: "datetime list \<Rightarrow> datetime list \<Rightarrow> nat \<Rightarrow> nat \<Rightarrow> bool" where
  "overlapping starts ends i t \<longleftrightarrow>
     instant (starts ! i) \<le> instant (ends ! t) \<and> instant (starts ! t) \<le> instant (ends ! i)"

definition embargoes :: "int \<Rightarrow> datetime \<Rightarrow> nat \<times> datetime \<Rightarrow> bool" where
  "embargoes embargo start block \<longleftrightarrow>
     instant (snd block) < instant start \<and> instant start \<le> instant (snd block) + embargo"

lemma datetime_add_instant: "datetime_add d us = Inr d' \<Longrightarrow> instant d' = instant d + us"
  by (auto simp: datetime_add_def instant_def Let_def split: if_splits)

lemma embargoed_by_exact:
  "embargoed_by embargo start blocks = Inr gs \<Longrightarrow> gs = map fst (filter (embargoes embargo start) blocks)"
  by (induction embargo start blocks arbitrary: gs rule: embargoed_by.induct)
    (auto simp: rbind_Inr embargoes_def datetime_add_instant split: if_splits)

lemma nat_digits_inj: "nat_digits i = nat_digits j \<longleftrightarrow> i = j"
proof
  assume "nat_digits i = nat_digits j"
  then have "py_str_int (int i) = py_str_int (int j)" by (simp add: py_str_int_def)
  then have "py_int (py_str_int (int i)) = py_int (py_str_int (int j))" by simp
  then show "i = j" by simp
qed simp

text \<open>
  The loop over the candidate rows, when the interval search answers as the comparison with every
  test row does: the three lists and the reasons are filters of the candidates.
\<close>

lemma assign_rows_exact:
  assumes "\<And>i. i \<in> set is \<Longrightarrow>
      has_overlap merged (instant (starts ! i)) (instant (ends ! i)) \<longleftrightarrow> (\<exists>t \<in> set test. overlapping starts ends i t)"
    and "assign_rows starts ends embargo test merged blocks is m0 = Inr m"
    and "distinct is"
    and "\<And>i. i \<in> set is \<Longrightarrow> nat_digits i \<notin> fst ` set (purge_reasons m0) \<union> fst ` set (embargo_reasons m0)"
  defines "hit \<equiv> \<lambda>i. \<exists>t \<in> set test. overlapping starts ends i t"
    and "emb \<equiv> \<lambda>i. \<exists>b \<in> set blocks. embargoes embargo (starts ! i) b"
  shows "m = \<lparr>purged_indices = purged_indices m0 @ filter hit is,
     embargo_indices = embargo_indices m0 @ filter (\<lambda>i. \<not> hit i \<and> emb i) is,
     train_indices = train_indices m0 @ filter (\<lambda>i. \<not> hit i \<and> \<not> emb i) is,
     purge_reasons = purge_reasons m0
       @ map (\<lambda>i. (nat_digits i, filter (overlapping starts ends i) test)) (filter hit is),
     embargo_reasons = embargo_reasons m0
       @ map (\<lambda>i. (nat_digits i, map fst (filter (embargoes embargo (starts ! i)) blocks)))
             (filter (\<lambda>i. \<not> hit i \<and> emb i) is)\<rparr>"
  using assms(1-4)
proof (induction "is" arbitrary: m0)
  case (Cons i js)
  define ov where "ov = filter (overlapping starts ends i) test"
  have fresh: "dget (purge_reasons m0) (nat_digits i) = None" "dget (embargo_reasons m0) (nat_digits i) = None"
    using Cons.prems(4) [of i] by (auto simp: map_of_eq_None_iff)
  have js: "distinct js" using Cons.prems(3) by simp
  have search: "has_overlap merged (instant (starts ! j)) (instant (ends ! j)) \<longleftrightarrow> (\<exists>t \<in> set test. overlapping starts ends j t)"
    if "j \<in> set js" for j using that Cons.prems(1) [of j] by simp
  have later: "nat_digits j \<noteq> nat_digits i \<and> nat_digits j \<notin> fst ` set (purge_reasons m0) \<union> fst ` set (embargo_reasons m0)"
    if "j \<in> set js" for j
    using that Cons.prems(3) Cons.prems(4) [of j] by (auto simp: nat_digits_inj)
  have ov: "(if has_overlap merged (instant (starts ! i)) (instant (ends ! i))
         then filter (\<lambda>t. instant (starts ! i) \<le> instant (ends ! t)
                        \<and> instant (starts ! t) \<le> instant (ends ! i)) test else []) = ov"
    "ov \<noteq> [] \<longleftrightarrow> hit i"
    using Cons.prems(1) [of i] by (auto simp: ov_def hit_def filter_empty_conv overlapping_def intro: filter_cong)
  have body: "assign_rows starts ends embargo test merged blocks (i # js) m0 =
     (if ov \<noteq> [] then assign_rows starts ends embargo test merged blocks js
        (m0\<lparr>purged_indices := purged_indices m0 @ [i], purge_reasons := purge_reasons m0 @ [(nat_digits i, ov)]\<rparr>)
      else rbind (embargoed_by embargo (starts ! i) blocks) (\<lambda>gs.
        if gs \<noteq> [] then assign_rows starts ends embargo test merged blocks js
          (m0\<lparr>embargo_indices := embargo_indices m0 @ [i], embargo_reasons := embargo_reasons m0 @ [(nat_digits i, gs)]\<rparr>)
        else assign_rows starts ends embargo test merged blocks js
          (m0\<lparr>train_indices := train_indices m0 @ [i]\<rparr>)))"
    unfolding assign_rows.simps ov(1) Let_def dset_fresh [OF fresh(1)] dset_fresh [OF fresh(2)] by (rule refl)
  show ?case
  proof (cases "ov \<noteq> []")
    case True
    then have hit: "hit i" using ov(2) by simp
    have run: "assign_rows starts ends embargo test merged blocks js (m0\<lparr>purged_indices := purged_indices m0 @ [i],
        purge_reasons := purge_reasons m0 @ [(nat_digits i, ov)]\<rparr>) = Inr m"
      using Cons.prems(2) True unfolding body by simp
    show ?thesis
      by (subst Cons.IH [OF search run js]) (use later hit in \<open>simp_all add: ov_def\<close>)
  next
    case False
    then have miss: "\<not> hit i" using ov(2) by simp
    obtain gs where gs: "embargoed_by embargo (starts ! i) blocks = Inr gs"
      using Cons.prems(2) False unfolding body by (auto simp: rbind_Inr)
    note exact = embargoed_by_exact [OF gs]
    then have emb: "gs \<noteq> [] \<longleftrightarrow> emb i" by (auto simp: emb_def filter_empty_conv)
    show ?thesis
    proof (cases "gs \<noteq> []")
      case True
      have run: "assign_rows starts ends embargo test merged blocks js (m0\<lparr>embargo_indices := embargo_indices m0 @ [i],
          embargo_reasons := embargo_reasons m0 @ [(nat_digits i, gs)]\<rparr>) = Inr m"
        using Cons.prems(2) False True unfolding body by (simp add: gs)
      show ?thesis
        by (subst Cons.IH [OF search run js]) (use later miss emb True in \<open>simp_all add: exact\<close>)
    next
      case none: False
      have run: "assign_rows starts ends embargo test merged blocks js
          (m0\<lparr>train_indices := train_indices m0 @ [i]\<rparr>) = Inr m"
        using Cons.prems(2) False none unfolding body by (simp add: gs)
      show ?thesis
        by (subst Cons.IH [OF search run js]) (use later miss emb none in simp_all)
    qed
  qed
qed simp

lemma max_datetime_instant: "instant (max_datetime m ds) = Max (instant ` set (m # ds))"
proof (induction m ds rule: max_datetime.induct)
  case (2 m d ds)
  then show ?case by (cases "ds = []") (auto simp: max_def Max_insert)
qed simp

text \<open>The end of a test block: the latest label end of its rows.\<close>

definition block_end :: "datetime list \<Rightarrow> nat list \<Rightarrow> int" where
  "block_end ends block = Max ((\<lambda>i. instant (ends ! i)) ` set block)"

lemma block_end_max:
  "block \<noteq> [] \<Longrightarrow>
    instant (max_datetime (ends ! hd block) (map (\<lambda>i. ends ! i) (tl block))) = block_end ends block"
  by (cases block) (simp_all add: max_datetime_instant block_end_def image_image)

text \<open>What the record of a split has to say about its rows.\<close>

definition split_sound ::
  "datetime list \<Rightarrow> datetime list \<Rightarrow> nat list list \<Rightarrow> int \<Rightarrow> 'x cv_split \<Rightarrow> bool" where
  "split_sound starts ends groups embargo sp \<longleftrightarrow>
     (let test = test_indices sp; m = members sp;
          rows = test @ purged_indices m @ embargo_indices m @ train_indices m;
          hit = (\<lambda>i. \<exists>t \<in> set test. overlapping starts ends i t);
          late = (\<lambda>i. \<exists>g \<in> set (test_group_ids sp). block_end ends (groups ! g) < instant (starts ! i)
                      \<and> instant (starts ! i) \<le> block_end ends (groups ! g) + embargo)
      in set test = (\<Union>g \<in> set (test_group_ids sp). set (groups ! g))
       \<and> distinct rows \<and> set rows = {..<length starts}
       \<and> (\<forall>i \<in> set (purged_indices m). hit i)
       \<and> (\<forall>i \<in> set (embargo_indices m). \<not> hit i \<and> late i)
       \<and> (\<forall>i \<in> set (train_indices m). \<not> hit i \<and> \<not> late i))"

lemma cv_split_of_fields:
  assumes "cv_split_of fit rows starts ends groups embargo min_train l2 (k, ids) = Inr sp"
  shows "split_number sp = k" "test_group_ids sp = ids"
    "test_indices sp = sort (concat (map (\<lambda>g. groups ! g) ids))"
    "assign_rows starts ends embargo (test_indices sp)
       (merge_intervals (sort (map (\<lambda>i. (instant (starts ! i), instant (ends ! i))) (test_indices sp))))
       (map (\<lambda>g. (g, max_datetime (ends ! hd (groups ! g)) (map (\<lambda>i. ends ! i) (tl (groups ! g))))) ids)
       (filter (\<lambda>i. i \<notin> set (test_indices sp)) [0..<length rows])
       \<lparr>purged_indices = [], embargo_indices = [], train_indices = [], purge_reasons = [], embargo_reasons = []\<rparr>
      = Inr (members sp)"
  using assms by (auto simp: cv_split_of_def Let_def rbind_Inr split: if_splits)

lemma concat_groups_distinct:
  assumes "distinct ids" "set ids \<subseteq> {..<G}"
  shows "distinct (concat (map (\<lambda>g. cv_groups n G ! g) ids))"
  using assms
proof (induction ids)
  case (Cons g ids)
  have "set (cv_groups n G ! g) \<inter> set (cv_groups n G ! h) = {}" if "h \<in> set ids" for h
  proof -
    have "h < G" "g < G" "g \<noteq> h" using Cons.prems that by auto
    then show ?thesis using row_in_group [of _ n G] cv_groups_bound [of g G _ n]
      by (metis disjoint_iff gr_implies_not0 neq0_conv)
  qed
  with Cons show ?case by (auto simp: cv_groups_nth)
qed simp

lemma cv_split_sound:
  assumes split: "cv_split_of fit rows starts ends groups embargo min_train l2 (k, ids) = Inr sp"
    and len: "length starts = length rows" "length ends = length rows"
    and wf: "\<And>i. i < length rows \<Longrightarrow> instant (starts ! i) \<le> instant (ends ! i)"
    and groups: "groups = cv_groups (length rows) G" "G \<le> length rows"
    and ids: "distinct ids" "set ids \<subseteq> {..<G}"
  shows "split_sound starts ends groups embargo sp"
proof -
  note f = cv_split_of_fields [OF split]
  define test where "test = test_indices sp"
  define candidates where "candidates = filter (\<lambda>i. i \<notin> set test) [0..<length rows]"
  have test: "distinct test" "set test = (\<Union>g \<in> set ids. set (groups ! g))"
    using concat_groups_distinct [OF ids] by (simp_all add: test_def f(3) groups(1))
  have bound: "i < length rows" if "g < G" "i \<in> set (groups ! g)" for g i
    using that cv_groups_bound by (simp add: groups(1))
  then have small: "set test \<subseteq> {..<length rows}" using ids(2) by (auto simp: test(2))
  have search: "has_overlap (merge_intervals (sort (map (\<lambda>i. (instant (starts ! i), instant (ends ! i))) test)))
      (instant (starts ! i)) (instant (ends ! i)) \<longleftrightarrow> (\<exists>t \<in> set test. overlapping starts ends i t)"
    if "i \<in> set candidates" for i
    using that wf small by (subst merged_search_exact) (auto simp: candidates_def overlapping_def)
  have block: "embargoes embargo (starts ! i) (g, max_datetime (ends ! hd (groups ! g)) (map (\<lambda>i. ends ! i) (tl (groups ! g))))
      \<longleftrightarrow> block_end ends (groups ! g) < instant (starts ! i) \<and> instant (starts ! i) \<le> block_end ends (groups ! g) + embargo"
    if "g \<in> set ids" for g i
    using that ids(2) cv_groups_nonempty [OF _ groups(2)] by (auto simp: embargoes_def block_end_max groups(1))
  have "distinct candidates" by (simp add: candidates_def)
  note exact = assign_rows_exact [OF search f(4) [folded test_def, folded candidates_def] this]
  define hit where "hit = (\<lambda>i. \<exists>t \<in> set test. overlapping starts ends i t)"
  define late where "late = (\<lambda>i. \<exists>g \<in> set ids. block_end ends (groups ! g) < instant (starts ! i)
      \<and> instant (starts ! i) \<le> block_end ends (groups ! g) + embargo)"
  have emb: "(\<exists>b \<in> set (map (\<lambda>g. (g, max_datetime (ends ! hd (groups ! g)) (map (\<lambda>i. ends ! i) (tl (groups ! g))))) ids).
      embargoes embargo (starts ! i) b) = late i" for i
    by (simp add: block late_def cong: bex_cong)
  have parts: "purged_indices (members sp) = filter hit candidates"
    "embargo_indices (members sp) = filter (\<lambda>i. \<not> hit i \<and> late i) candidates"
    "train_indices (members sp) = filter (\<lambda>i. \<not> hit i \<and> \<not> late i) candidates"
    using exact unfolding emb hit_def by (simp_all del: set_map)
  show ?thesis
    unfolding split_sound_def Let_def f(2) test_def [symmetric] hit_def [symmetric] late_def [symmetric] parts
    using test small by (auto simp: candidates_def len hit_def)
qed

lemma cv_split_fitted:
  assumes "cv_split_of fit rows starts ends groups embargo min_train l2 (k, ids) = Inr sp"
    and "min_train \<le> int (length (train_indices (members sp)))"
  shows "\<exists>r. fit (map (\<lambda>i. rows ! i) (train_indices (members sp))) (map (\<lambda>i. rows ! i) (test_indices sp)) l2 = Inr r
    \<and> split_metrics sp = fit_holdout_metrics r \<and> split_baseline_metrics sp = fit_baseline_metrics r"
  using assms by (auto simp: cv_split_of_def Let_def rbind_Inr split: if_splits)

lemma combinations_distinct_sets:
  assumes "distinct xs"
  shows "distinct (map set (combinations xs k))"
    and "set (map set (combinations xs k)) = {A. A \<subseteq> set xs \<and> card A = k}"
proof -
  show sets: "set (map set (combinations xs k)) = {A. A \<subseteq> set xs \<and> card A = k}"
  proof (intro subset_antisym subsetI)
    fix A assume "A \<in> set (map set (combinations xs k))"
    then obtain c where "c \<in> set (combinations xs k)" "A = set c" by auto
    then show "A \<in> {A. A \<subseteq> set xs \<and> card A = k}"
      using combinations_subsets [of c xs k] combinations_distinct [OF assms, of c k]
      by (simp add: distinct_card)
  next
    fix A assume "A \<in> {A. A \<subseteq> set xs \<and> card A = k}"
    then show "A \<in> set (map set (combinations xs k))"
      using combinations_every_subset [OF assms, of A k] by auto
  qed
  have "card (set (map set (combinations xs k))) = length (map set (combinations xs k))"
    unfolding sets by (simp add: n_subsets combinations_length distinct_card [OF assms])
  then show "distinct (map set (combinations xs k))" by (rule card_distinct)
qed

text \<open>What a run that reaches the splits has checked.\<close>

lemma cpcv_run:
  assumes "combinatorial_purged_cv_evaluate parse fit rows n_groups n_test embargo min_train l2 = Inr (CvSplits splits)"
  obtains starts ends where
    "3 \<le> n_groups" "1 \<le> n_test" "n_test < n_groups" "nat n_groups \<le> length rows"
    "length starts = length rows" "length ends = length rows"
    "\<And>i. i < length rows \<Longrightarrow> parse_time parse (row_timestamp (rows ! i)) ''timestamp'' i = Inr (starts ! i)"
    "\<And>i. i < length rows \<Longrightarrow> parse_time parse (row_label_end (rows ! i)) ''label_end_timestamp'' i = Inr (ends ! i)"
    "\<And>i. i < length rows \<Longrightarrow> instant (starts ! i) \<le> instant (ends ! i)"
    "length splits = length (combinations [0..<nat n_groups] (nat n_test))"
    "\<And>j. j < length splits \<Longrightarrow>
       cv_split_of fit rows starts ends (cv_groups (length rows) (nat n_groups)) embargo min_train l2
         (Suc j, combinations [0..<nat n_groups] (nat n_test) ! j) = Inr (splits ! j)"
proof -
  have rows: "rows \<noteq> []" using assms by (auto simp: combinatorial_purged_cv_evaluate_def)
  obtain starts ends where
    guards: "\<not> n_groups < 3" "\<not> \<not> (1 \<le> n_test \<and> n_test < n_groups)" "\<not> int (length rows) < n_groups"
      "\<not> (\<exists>i < length rows. instant (ends ! i) < instant (starts ! i))"
    and starts: "sequence_results (map (\<lambda>(i, r). parse_time parse (row_timestamp r) ''timestamp'' i) (enumerate 0 rows)) = Inr starts"
    and ends: "sequence_results (map (\<lambda>(i, r). parse_time parse (row_label_end r) ''label_end_timestamp'' i) (enumerate 0 rows)) = Inr ends"
    and splits: "sequence_results (map (cv_split_of fit rows starts ends (cv_groups (length rows) (nat n_groups)) embargo min_train l2)
      (enumerate 1 (combinations [0..<nat n_groups] (nat n_test)))) = Inr splits"
    using assms unfolding combinatorial_purged_cv_evaluate_def Let_def if_not_P [OF rows]
    by (elim guardE rbindE) (simp only: sum.inject cv_report.inject, blast)
  note s = sequence_results_Inr [OF starts] and e = sequence_results_Inr [OF ends]
    and p = sequence_results_Inr [OF splits]
  have len: "length starts = length rows" "length ends = length rows"
    "length splits = length (combinations [0..<nat n_groups] (nat n_test))"
    using s e p by simp_all
  have at: "parse_time parse (row_timestamp (rows ! i)) ''timestamp'' i = Inr (starts ! i)"
    "parse_time parse (row_label_end (rows ! i)) ''label_end_timestamp'' i = Inr (ends ! i)"
    "instant (starts ! i) \<le> instant (ends ! i)" if "i < length rows" for i
  proof -
    show "instant (starts ! i) \<le> instant (ends ! i)" using that guards(4) by (meson not_less)
  qed (use that s e in \<open>simp_all add: nth_enumerate_eq\<close>)
  have split: "cv_split_of fit rows starts ends (cv_groups (length rows) (nat n_groups)) embargo min_train l2
      (Suc j, combinations [0..<nat n_groups] (nat n_test) ! j) = Inr (splits ! j)" if "j < length splits" for j
    using that p by (simp add: nth_enumerate_eq)
  have "3 \<le> n_groups" "1 \<le> n_test" "n_test < n_groups" "nat n_groups \<le> length rows"
    using guards by simp_all
  from that [OF this len(1,2) at len(3) split] show ?thesis .
qed

lemma group_ids_ok:
  assumes "j < length (combinations [0..<G] k)"
  shows "distinct (combinations [0..<G] k ! j)" "set (combinations [0..<G] k ! j) \<subseteq> {..<G}"
  using combinations_distinct [of "[0..<G]" _ k] combinations_subsets [of _ "[0..<G]" k] nth_mem [OF assms]
  by (auto simp: lessThan_atLeast0)

section \<open>Results\<close>

text \<open>Four events in three groups, one test group, an embargo of three ticks.\<close>

definition sample_iso :: iso_parser where
  "sample_iso s = map_option (\<lambda>i. \<lparr>wall_us = i, utcoffset = None\<rparr>) (py_int s)"

definition sample_events :: "unit cv_row list" where
  "sample_events = map (\<lambda>(s, e). \<lparr>row_timestamp = JStr s, row_label_end = JStr e, row_event_id = JNull, row_features = ()\<rparr>)
     [(''1'', ''4''), (''3'', ''5''), (''7'', ''8''), (''9'', ''9'')]"

definition sample_splits :: "nat cv_split list" where
  "sample_splits =
    [\<lparr>split_number = 1, test_group_ids = [0], test_indices = [0], test_event_ids = [''0''], candidate_train_n = 3,
      members = \<lparr>purged_indices = [1], embargo_indices = [2], train_indices = [3], purge_reasons = [(''1'', [0])], embargo_reasons = [(''2'', [0])]\<rparr>,
      train_event_ids = [''3''], purged_event_ids = [''1''], embargo_event_ids = [''2''],
      test_start = \<lparr>wall_us = 1, utcoffset = None\<rparr>, test_end = \<lparr>wall_us = 4, utcoffset = None\<rparr>,
      split_status = ''INSUFFICIENT_TRAIN_AFTER_PURGE_EMBARGO'', split_metrics = None, split_baseline_metrics = None\<rparr>,
     \<lparr>split_number = 2, test_group_ids = [1], test_indices = [1], test_event_ids = [''1''], candidate_train_n = 3,
      members = \<lparr>purged_indices = [0], embargo_indices = [2], train_indices = [3], purge_reasons = [(''0'', [1])], embargo_reasons = [(''2'', [1])]\<rparr>,
      train_event_ids = [''3''], purged_event_ids = [''0''], embargo_event_ids = [''2''],
      test_start = \<lparr>wall_us = 3, utcoffset = None\<rparr>, test_end = \<lparr>wall_us = 5, utcoffset = None\<rparr>,
      split_status = ''INSUFFICIENT_TRAIN_AFTER_PURGE_EMBARGO'', split_metrics = None, split_baseline_metrics = None\<rparr>,
     \<lparr>split_number = 3, test_group_ids = [2], test_indices = [2, 3], test_event_ids = [''2'', ''3''], candidate_train_n = 2,
      members = \<lparr>purged_indices = [], embargo_indices = [], train_indices = [0, 1], purge_reasons = [], embargo_reasons = []\<rparr>,
      train_event_ids = [''0'', ''1''], purged_event_ids = [], embargo_event_ids = [],
      test_start = \<lparr>wall_us = 7, utcoffset = None\<rparr>, test_end = \<lparr>wall_us = 9, utcoffset = None\<rparr>,
      split_status = ''INSUFFICIENT_TRAIN_AFTER_PURGE_EMBARGO'', split_metrics = None, split_baseline_metrics = None\<rparr>]"

lemma sample_cv:
  "combinatorial_purged_cv_evaluate sample_iso sample_fit sample_events 3 1 3 20 (Finite 1) = Inr (CvSplits sample_splits)"
  by code_simp

text \<open>
  C26: The interval search of the purge (sort, merge, binary search) answers exactly as the comparison
  of the event with every test interval.
\<close>

theorem purge_search_exact:
  assumes "\<forall>iv \<in> set ivs. fst iv \<le> snd iv" "s \<le> e"
  shows "has_overlap (merge_intervals (sort ivs)) s e \<longleftrightarrow> (\<exists>(a, b) \<in> set ivs. s \<le> b \<and> a \<le> e)"
  using assms by (rule merged_search_exact)

theorem purge_search_exact_witness:
  "has_overlap (merge_intervals (sort [(10, 14), (1, 3), (2, 6)])) 5 9"
  using purge_search_exact [of "[(10, 14), (1, 3), (2, 6)]" 5 9] by simp

text \<open>
  C17: Combinatorial purged cross-validation does not leak: in every split the test, purged, embargoed
  and training rows partition the events; the test rows are those of the chosen groups; the purged
  rows are exactly the other rows whose label window meets a test window, the embargoed ones exactly
  the rest that start within the embargo after the end of a test block; and the classifier is fitted
  on the training rows and evaluated on the test rows.
\<close>

theorem cpcv_no_leakage:
  assumes "combinatorial_purged_cv_evaluate parse fit rows n_groups n_test embargo min_train l2 = Inr (CvSplits splits)"
  shows "\<exists>starts ends. length starts = length rows \<and> length ends = length rows
    \<and> (\<forall>i < length rows. parse_time parse (row_timestamp (rows ! i)) ''timestamp'' i = Inr (starts ! i)
         \<and> parse_time parse (row_label_end (rows ! i)) ''label_end_timestamp'' i = Inr (ends ! i))
    \<and> (\<forall>sp \<in> set splits. split_sound starts ends (cv_groups (length rows) (nat n_groups)) embargo sp
         \<and> (min_train \<le> int (length (train_indices (members sp))) \<longrightarrow>
             (\<exists>r. fit (map (\<lambda>i. rows ! i) (train_indices (members sp))) (map (\<lambda>i. rows ! i) (test_indices sp)) l2 = Inr r
               \<and> split_metrics sp = fit_holdout_metrics r \<and> split_baseline_metrics sp = fit_baseline_metrics r)))"
proof -
  obtain starts ends where run: "nat n_groups \<le> length rows" "length starts = length rows" "length ends = length rows"
    "\<And>i. i < length rows \<Longrightarrow> parse_time parse (row_timestamp (rows ! i)) ''timestamp'' i = Inr (starts ! i)"
    "\<And>i. i < length rows \<Longrightarrow> parse_time parse (row_label_end (rows ! i)) ''label_end_timestamp'' i = Inr (ends ! i)"
    "\<And>i. i < length rows \<Longrightarrow> instant (starts ! i) \<le> instant (ends ! i)"
    "length splits = length (combinations [0..<nat n_groups] (nat n_test))"
    "\<And>j. j < length splits \<Longrightarrow> cv_split_of fit rows starts ends (cv_groups (length rows) (nat n_groups)) embargo min_train l2
         (Suc j, combinations [0..<nat n_groups] (nat n_test) ! j) = Inr (splits ! j)"
    by (rule cpcv_run [OF assms]) blast
  have "split_sound starts ends (cv_groups (length rows) (nat n_groups)) embargo (splits ! j)" if "j < length splits" for j
    using that run(7) group_ids_ok [of j "nat n_groups" "nat n_test"]
    by (intro cv_split_sound [OF run(8) [OF that] run(2,3,6) refl run(1)]) simp_all
  moreover note cv_split_fitted [OF run(8)]
  ultimately show ?thesis using run(2-5) by (intro exI [of _ starts] exI [of _ ends]) (auto simp: in_set_conv_nth)
qed

theorem cpcv_no_leakage_witness:
  "\<exists>starts ends. list_all (split_sound starts ends (cv_groups (length sample_events) 3) 3) sample_splits"
  using cpcv_no_leakage [OF sample_cv] by (auto simp: list_all_iff)

text \<open>
  Every choice of test groups is evaluated exactly once, in the order of \<open>itertools.combinations\<close>,
  and every event is a test event in the same number of splits.
\<close>

lemma cpcv_every_combination:
  assumes "combinatorial_purged_cv_evaluate parse fit rows n_groups n_test embargo min_train l2 = Inr (CvSplits splits)"
  shows "length splits = nat n_groups choose nat n_test
    \<and> map test_group_ids splits = combinations [0..<nat n_groups] (nat n_test)
    \<and> distinct (map (\<lambda>sp. set (test_group_ids sp)) splits)
    \<and> (\<lambda>sp. set (test_group_ids sp)) ` set splits = {A. A \<subseteq> {..<nat n_groups} \<and> card A = nat n_test}
    \<and> (\<forall>i < length rows. length (filter (\<lambda>sp. i \<in> set (test_indices sp)) splits)
         = (nat n_groups - 1) choose (nat n_test - 1))"
proof -
  define G k where "G = nat n_groups" and "k = nat n_test"
  obtain starts ends where run: "3 \<le> n_groups" "1 \<le> n_test" "length splits = length (combinations [0..<G] k)"
    "\<And>j. j < length splits \<Longrightarrow> cv_split_of fit rows starts ends (cv_groups (length rows) G) embargo min_train l2
         (Suc j, combinations [0..<G] k ! j) = Inr (splits ! j)"
    by (rule cpcv_run [OF assms]) (auto simp: G_def k_def)
  have ids: "map test_group_ids splits = combinations [0..<G] k"
    using run(3) cv_split_of_fields(2) [OF run(4)] by (intro nth_equalityI) simp_all
  have sets: "map (\<lambda>sp. set (test_group_ids sp)) splits = map set (combinations [0..<G] k)"
    by (simp add: ids [symmetric] comp_def)
  have uses: "(i \<in> set (test_indices sp)) = (g \<in> set (test_group_ids sp))"
    if i: "i < length rows" and g: "g < G" "i \<in> set (cv_groups (length rows) G ! g)"
      "\<And>h. h < G \<Longrightarrow> i \<in> set (cv_groups (length rows) G ! h) \<Longrightarrow> h = g" and sp: "sp \<in> set splits" for i g sp
  proof -
    obtain j where j: "j < length splits" "sp = splits ! j" using sp by (auto simp: in_set_conv_nth)
    note f = cv_split_of_fields [OF run(4) [OF j(1)], folded j(2)]
    have sub: "set (test_group_ids sp) \<subseteq> {..<G}" using group_ids_ok(2) [of j G k] j(1) run(3) by (simp add: f(2))
    have "i \<in> set (test_indices sp) \<longleftrightarrow> (\<exists>h \<in> set (test_group_ids sp). i \<in> set (cv_groups (length rows) G ! h))"
      by (simp add: f(2,3))
    with g sub show ?thesis by blast
  qed
  have count: "length (filter (\<lambda>sp. i \<in> set (test_indices sp)) splits) = (G - 1) choose (k - 1)"
    if i: "i < length rows" for i
  proof -
    have "0 < G" using run(1) by (simp add: G_def)
    then obtain g where g: "g < G" "i \<in> set (cv_groups (length rows) G ! g)"
      "\<And>h. h < G \<Longrightarrow> i \<in> set (cv_groups (length rows) G ! h) \<Longrightarrow> h = g"
      using row_in_group [OF i] by blast
    have "length (filter (\<lambda>sp. i \<in> set (test_indices sp)) splits)
        = length (filter (\<lambda>c. g \<in> set c) (map test_group_ids splits))"
      using uses [OF i g] by (simp add: filter_map comp_def cong: filter_cong)
    also have "\<dots> = (G - 1) choose (k - 1)"
      using combinations_containing [of "[0..<G]" g "k - 1"] g(1) run(2) by (simp add: ids k_def)
    finally show ?thesis .
  qed
  have "length splits = G choose k" by (simp add: run(3) combinations_length)
  moreover have "distinct (map (\<lambda>sp. set (test_group_ids sp)) splits)"
    unfolding sets by (rule combinations_distinct_sets) simp
  moreover have "(\<lambda>sp. set (test_group_ids sp)) ` set splits = {A. A \<subseteq> {..<G} \<and> card A = k}"
    using combinations_distinct_sets(2) [of "[0..<G]" k] unfolding sets [symmetric] by (simp add: lessThan_atLeast0)
  ultimately show ?thesis using ids count by (simp add: G_def k_def)
qed

end
