(* ===== verification/Parallel_Waves.thy ===== *)
theory Parallel_Waves
  imports Python_Text
begin

text \<open>
  Parallel research waves, \<open>orchestration/parallel.py\<close>: branches of one wave run concurrently on a
  frozen snapshot of the context, waves run one after the other, and a failure stops the plan.

  A branch is a function of the snapshot that returns a value or raises; an exception is its type name
  and its text.  The order in which \<open>concurrent.futures.as_completed\<close> yields the futures of a wave is an
  argument: any order in which each future occurs once.  The state the model records is the log of
  \<open>executor.submit\<close> calls, that is, which branches may have run at all.
\<close>

section \<open>Frozen snapshots\<close>

datatype 'a pyval =
    PAtom 'a
  | PDict "(string \<times> 'a pyval) list"
  | PProxy "(string \<times> 'a pyval) list"
  | PList "'a pyval list"
  | PTuple "'a pyval list"
  | PSet "'a pyval list"
  | PFrozenset "'a pyval list"

fun freeze_value :: "'a pyval \<Rightarrow> 'a pyval" where
  "freeze_value (PDict kvs) = PProxy (map (\<lambda>(k, v). (k, freeze_value v)) kvs)"
| "freeze_value (PProxy kvs) = PProxy (map (\<lambda>(k, v). (k, freeze_value v)) kvs)"
| "freeze_value (PList vs) = PTuple (map freeze_value vs)"
| "freeze_value (PTuple vs) = PTuple (map freeze_value vs)"
| "freeze_value (PSet vs) = PFrozenset (map freeze_value vs)"
| "freeze_value (PFrozenset vs) = PFrozenset (map freeze_value vs)"
| "freeze_value (PAtom a) = PAtom a"

definition freeze_mapping :: "(string \<times> 'a pyval) list \<Rightarrow> 'a pyval" where
  "freeze_mapping kvs = freeze_value (PDict kvs)"

text \<open>No mutable container anywhere.\<close>

fun frozen :: "'a pyval \<Rightarrow> bool" where
  "frozen (PProxy kvs) = list_all (\<lambda>(k, v). frozen v) kvs"
| "frozen (PTuple vs) = list_all frozen vs"
| "frozen (PFrozenset vs) = list_all frozen vs"
| "frozen (PAtom a) = True"
| "frozen _ = False"

lemma freeze_value_frozen: "frozen (freeze_value v)"
  by (induction v rule: freeze_value.induct) (auto simp: list_all_iff)

lemma freeze_value_id: "frozen v \<Longrightarrow> freeze_value v = v"
  by (induction v rule: frozen.induct) (auto simp: list_all_iff intro!: map_idI)

section \<open>Branches and waves\<close>

record ('a, 'v) ResearchBranch =
  branch_id :: string
  branch_run :: "'a pyval \<Rightarrow> (string \<times> string) + 'v"
  branch_metadata :: "'a pyval"

record ('a, 'v) ResearchWave =
  wave_id :: string
  branches :: "('a, 'v) ResearchBranch list"

record 'v ParallelBranchResult =
  result_branch :: string
  result_value :: "'v option"

record 'v ParallelResearchResult =
  result_waves :: "'v ParallelBranchResult list list"
  result_wave_ids :: "string list"

definition ResearchBranch_init ::
  "string \<Rightarrow> ('a pyval \<Rightarrow> (string \<times> string) + 'v) \<Rightarrow> (string \<times> 'a pyval) list \<Rightarrow> ('a, 'v) ResearchBranch result" where
  "ResearchBranch_init bid run metadata =
     (if blank bid then Inl (ValueError ''branch_id must be a non-empty string'')
      else Inr \<lparr>branch_id = py_strip bid, branch_run = run, branch_metadata = freeze_mapping metadata\<rparr>)"

definition ResearchWave_init :: "string \<Rightarrow> ('a, 'v) ResearchBranch list \<Rightarrow> ('a, 'v) ResearchWave result" where
  "ResearchWave_init wid bs =
     (if blank wid then Inl (ValueError ''wave_id must be a non-empty string'')
      else if bs = [] then Inl (ValueError ''a research wave must contain at least one branch'')
      else if \<not> distinct (map branch_id bs) then Inl (ValueError ''branch_id values must be unique inside a wave'')
      else Inr \<lparr>wave_id = py_strip wid, branches = bs\<rparr>)"

definition ParallelResearchResult_init ::
  "'v ParallelBranchResult list list \<Rightarrow> string list \<Rightarrow> 'v ParallelResearchResult result" where
  "ParallelResearchResult_init ws ids =
     (if ids \<noteq> [] \<and> length ids \<noteq> length ws
      then Inl (ValueError ''wave_ids must align one-to-one with completed waves'')
      else Inr \<lparr>result_waves = ws, result_wave_ids = ids\<rparr>)"

definition by_wave_id :: "'v ParallelResearchResult \<Rightarrow> (string, 'v ParallelBranchResult list) dict" where
  "by_wave_id r =
     (if result_wave_ids r \<noteq> []
      then fold (\<lambda>(k, w). dset k w) (zip (result_wave_ids r) (result_waves r)) []
      else map (\<lambda>(i, w). (nat_digits i, w)) (enumerate 0 (result_waves r)))"

fun collect_branches :: "'v ParallelBranchResult list \<Rightarrow> (string, 'v option) dict \<Rightarrow> (string, 'v option) dict result" where
  "collect_branches [] d = Inr d"
| "collect_branches (b # bs) d =
     (if dget d (result_branch b) \<noteq> None
      then Inl (OrchestrationError (''duplicate branch result: '' @ result_branch b))
      else collect_branches bs (dset (result_branch b) (result_value b) d))"

definition by_branch_id :: "'v ParallelResearchResult \<Rightarrow> (string, 'v option) dict result" where
  "by_branch_id r = collect_branches (concat (result_waves r)) []"

section \<open>The executor\<close>

definition ParallelResearchExecutor_init :: "int option \<Rightarrow> int option result" where
  "ParallelResearchExecutor_init max_workers =
     (case max_workers of
        Some n \<Rightarrow> if n < 1 then Inl (ValueError ''max_workers must be >= 1'') else Inr (Some n)
      | None \<Rightarrow> Inr None)"

text \<open>
  The loop over the completed futures of a wave: values are stored at the index of their branch, the
  first failure is recorded and ends the loop.
\<close>

fun observe ::
  "('a, 'v) ResearchBranch list \<Rightarrow> 'a pyval \<Rightarrow> nat list \<Rightarrow> 'v option list
    \<Rightarrow> 'v option list \<times> (string \<times> string \<times> string) list" where
  "observe bs snapshot [] vals = (vals, [])"
| "observe bs snapshot (i # order) vals =
     (case branch_run (bs ! i) snapshot of
        Inl exc \<Rightarrow> (vals, [(branch_id (bs ! i), exc)])
      | Inr v \<Rightarrow> observe bs snapshot order (vals[i := Some v]))"

definition failure_message :: "string \<Rightarrow> (string \<times> string \<times> string) list \<Rightarrow> string" where
  "failure_message wid failures =
     ''wave '' @ py_repr_string wid @ '' failed; no later wave may run: ''
     @ py_join ''; '' (map (\<lambda>(b, t, e). b @ '': '' @ t @ '': '' @ e) failures)"

definition run_wave ::
  "(string \<Rightarrow> nat list) \<Rightarrow> 'a pyval \<Rightarrow> ('a, 'v) ResearchWave \<Rightarrow> 'v ParallelBranchResult list result" where
  "run_wave as_completed snapshot w =
     (let (vals, failures) = observe (branches w) snapshot (as_completed (wave_id w))
                                 (replicate (length (branches w)) None)
      in if failures \<noteq> [] then Inl (OrchestrationError (failure_message (wave_id w) failures))
         else Inr (map (\<lambda>(b, v). \<lparr>result_branch = branch_id b, result_value = v\<rparr>) (zip (branches w) vals)))"

fun run_waves ::
  "(string \<Rightarrow> nat list) \<Rightarrow> 'a pyval \<Rightarrow> ('a, 'v) ResearchWave list \<Rightarrow> 'v ParallelBranchResult list list
    \<Rightarrow> string list \<Rightarrow> 'v ParallelBranchResult list list result \<times> string list" where
  "run_waves as_completed snapshot [] completed log = (Inr completed, log)"
| "run_waves as_completed snapshot (w # ws) completed log =
     (let log' = log @ map branch_id (branches w)
      in case run_wave as_completed snapshot w of
           Inl e \<Rightarrow> (Inl e, log')
         | Inr rs \<Rightarrow> run_waves as_completed snapshot ws (completed @ [rs]) log')"

definition run_plan ::
  "(string \<Rightarrow> nat list) \<Rightarrow> ('a, 'v) ResearchWave list \<Rightarrow> (string \<times> 'a pyval) list option
    \<Rightarrow> ('v ParallelResearchResult, string list) outcome" where
  "run_plan as_completed waves ctx =
     (if waves = [] then (Inl (ValueError ''at least one research wave is required''), [])
      else if \<not> distinct (map wave_id waves)
      then (Inl (ValueError ''wave_id values must be unique across the research plan''), [])
      else if \<not> distinct (map branch_id (concat (map branches waves)))
      then (Inl (ValueError ''branch_id values must be unique across the research plan''), [])
      else
        let snapshot = freeze_mapping (case ctx of None \<Rightarrow> [] | Some kvs \<Rightarrow> kvs);
            (r, log) = run_waves as_completed snapshot waves [] []
        in (rbind r (\<lambda>ws. ParallelResearchResult_init ws (map wave_id waves)), log))"

section \<open>Results\<close>

text \<open>\<open>as_completed\<close> yields every future of every wave once.\<close>

definition yields_each_once :: "(string \<Rightarrow> nat list) \<Rightarrow> ('a, 'v) ResearchWave list \<Rightarrow> bool" where
  "yields_each_once as_completed waves \<longleftrightarrow>
     list_all (\<lambda>w. distinct (as_completed (wave_id w))
       \<and> set (as_completed (wave_id w)) = {..<length (branches w)}) waves"

definition succeeds :: "'a pyval \<Rightarrow> ('a, 'v) ResearchBranch \<Rightarrow> bool" where
  "succeeds snapshot b \<longleftrightarrow> \<not> isl (branch_run b snapshot)"

definition declared_results :: "'a pyval \<Rightarrow> ('a, 'v) ResearchWave \<Rightarrow> 'v ParallelBranchResult list" where
  "declared_results snapshot w =
     map (\<lambda>b. \<lparr>result_branch = branch_id b, result_value = Some (projr (branch_run b snapshot))\<rparr>) (branches w)"

lemma observe_success:
  assumes "\<And>i. i \<in> set order \<Longrightarrow> succeeds snapshot (bs ! i)" "\<And>i. i \<in> set order \<Longrightarrow> i < length vals"
  shows "snd (observe bs snapshot order vals) = []
    \<and> length (fst (observe bs snapshot order vals)) = length vals
    \<and> (\<forall>j < length vals. fst (observe bs snapshot order vals) ! j =
         (if j \<in> set order then Some (projr (branch_run (bs ! j) snapshot)) else vals ! j))"
  using assms
proof (induction order arbitrary: vals)
  case (Cons i order)
  obtain v where "branch_run (bs ! i) snapshot = Inr v"
    using Cons.prems(1) [of i] by (cases "branch_run (bs ! i) snapshot") (auto simp: succeeds_def)
  moreover from Cons.IH [of "vals[i := Some v]"] Cons.prems
  have "snd (observe bs snapshot order (vals[i := Some v])) = []
    \<and> length (fst (observe bs snapshot order (vals[i := Some v]))) = length vals
    \<and> (\<forall>j < length vals. fst (observe bs snapshot order (vals[i := Some v])) ! j =
         (if j \<in> set order then Some (projr (branch_run (bs ! j) snapshot)) else vals[i := Some v] ! j))"
    by simp
  ultimately show ?case using Cons.prems(2) [of i] by (auto simp: nth_list_update)
qed simp

lemma observe_failure:
  assumes "i \<in> set order" "\<not> succeeds snapshot (bs ! i)"
  shows "\<exists>j exc. j \<in> set order \<and> branch_run (bs ! j) snapshot = Inl exc
    \<and> snd (observe bs snapshot order vals) = [(branch_id (bs ! j), exc)]"
  using assms
proof (induction order arbitrary: vals)
  case (Cons k order)
  show ?case
  proof (cases "branch_run (bs ! k) snapshot")
    case (Inr v)
    then have "i \<in> set order" using Cons.prems by (auto simp: succeeds_def)
    with Cons.IH [of "vals[k := Some v]"] Cons.prems(2) Inr show ?thesis by auto
  qed auto
qed simp

lemma run_wave_success:
  assumes order: "set (as_completed (wave_id w)) = {..<length (branches w)}"
    and ok: "list_all (succeeds snapshot) (branches w)"
  shows "run_wave as_completed snapshot w = Inr (declared_results snapshot w)"
proof -
  define obs where "obs = observe (branches w) snapshot (as_completed (wave_id w)) (replicate (length (branches w)) None)"
  have "snd obs = [] \<and> length (fst obs) = length (branches w)
      \<and> (\<forall>j < length (branches w). fst obs ! j = Some (projr (branch_run (branches w ! j) snapshot)))"
    using observe_success [of "as_completed (wave_id w)" snapshot "branches w" "replicate (length (branches w)) None"]
      order ok by (simp add: obs_def list_all_length)
  then have "snd obs = []" "map (\<lambda>(b, v). \<lparr>result_branch = branch_id b, result_value = v\<rparr>) (zip (branches w) (fst obs))
      = declared_results snapshot w"
    by (auto simp: declared_results_def intro!: nth_equalityI)
  then show ?thesis by (simp add: run_wave_def obs_def [symmetric] case_prod_beta)
qed

lemma run_wave_failure:
  assumes order: "set (as_completed (wave_id w)) = {..<length (branches w)}"
    and bad: "\<not> list_all (succeeds snapshot) (branches w)"
  shows "\<exists>b t e. b \<in> set (branches w) \<and> branch_run b snapshot = Inl (t, e)
    \<and> run_wave as_completed snapshot w = Inl (OrchestrationError (failure_message (wave_id w) [(branch_id b, t, e)]))"
proof -
  obtain i where "i < length (branches w)" "\<not> succeeds snapshot (branches w ! i)"
    using bad by (auto simp: list_all_length)
  then obtain j exc where "j < length (branches w)" "branch_run (branches w ! j) snapshot = Inl exc"
    "snd (observe (branches w) snapshot (as_completed (wave_id w)) (replicate (length (branches w)) None))
      = [(branch_id (branches w ! j), exc)]"
    using observe_failure [of i "as_completed (wave_id w)" snapshot "branches w"] order by blast
  then show ?thesis
    by (intro exI [of _ "branches w ! j"] exI [of _ "fst exc"] exI [of _ "snd exc"])
      (simp add: run_wave_def case_prod_beta)
qed

lemma run_waves_success:
  assumes "yields_each_once as_completed ws" "list_all (\<lambda>w. list_all (succeeds snapshot) (branches w)) ws"
  shows "run_waves as_completed snapshot ws completed log
    = (Inr (completed @ map (declared_results snapshot) ws), log @ map branch_id (concat (map branches ws)))"
  using assms
  by (induction ws arbitrary: completed log) (simp_all add: yields_each_once_def run_wave_success)

lemma run_waves_stops:
  assumes "yields_each_once as_completed (pre @ w # post)"
    and "list_all (\<lambda>v. list_all (succeeds snapshot) (branches v)) pre"
    and "\<not> list_all (succeeds snapshot) (branches w)"
  shows "\<exists>b t e. b \<in> set (branches w) \<and> branch_run b snapshot = Inl (t, e)
    \<and> run_waves as_completed snapshot (pre @ w # post) completed log
      = (Inl (OrchestrationError (failure_message (wave_id w) [(branch_id b, t, e)])),
         log @ map branch_id (concat (map branches (pre @ [w]))))"
  using assms
proof (induction pre arbitrary: completed log)
  case Nil
  then show ?case using run_wave_failure [of as_completed w snapshot] by (auto simp: yields_each_once_def)
next
  case (Cons v pre)
  then have "run_wave as_completed snapshot v = Inr (declared_results snapshot v)"
    by (simp add: run_wave_success yields_each_once_def)
  with Cons.IH [of "completed @ [declared_results snapshot v]" "log @ map branch_id (branches v)"] Cons.prems
  show ?case by (simp add: yields_each_once_def)
qed

lemma collect_branches_distinct:
  assumes "distinct (map fst d @ map result_branch bs)"
  shows "collect_branches bs d = Inr (d @ map (\<lambda>b. (result_branch b, result_value b)) bs)"
  using assms
proof (induction bs arbitrary: d)
  case (Cons b bs)
  then have "dget d (result_branch b) = None" by (auto simp: map_of_eq_None_iff)
  with Cons show ?case by (simp add: dset_fresh)
qed simp

text \<open>
  C27: When no branch fails, a plan with distinct wave and branch identifiers returns its results in
  declared order, whatever the order of completion: the value of each branch is its value on the
  frozen snapshot of the context, every branch is submitted once, and the mapping by branch
  identifier gives each branch its value.
\<close>

theorem parallel_run_deterministic:
  fixes ctx :: "(string \<times> 'a pyval) list"
  defines "snapshot \<equiv> freeze_mapping ctx"
  assumes "waves \<noteq> []" "distinct (map wave_id waves)" "distinct (map branch_id (concat (map branches waves)))"
    and "yields_each_once as_completed waves"
    and "list_all (\<lambda>w. list_all (succeeds snapshot) (branches w)) waves"
  shows "\<exists>r. run_plan as_completed waves (Some ctx) = (Inr r, map branch_id (concat (map branches waves)))
    \<and> result_wave_ids r = map wave_id waves \<and> result_waves r = map (declared_results snapshot) waves
    \<and> by_branch_id r = Inr (map (\<lambda>b. (branch_id b, Some (projr (branch_run b snapshot)))) (concat (map branches waves)))
    \<and> frozen snapshot"
proof -
  define r where "r = \<lparr>result_waves = map (declared_results snapshot) waves, result_wave_ids = map wave_id waves\<rparr>"
  have "run_plan as_completed waves (Some ctx) = (Inr r, map branch_id (concat (map branches waves)))"
    using assms(2-4) run_waves_success [OF assms(5,6), of "[]" "[]"]
    by (simp add: run_plan_def snapshot_def ParallelResearchResult_init_def r_def)
  moreover have results: "concat (map (declared_results snapshot) waves)
      = map (\<lambda>b. \<lparr>result_branch = branch_id b, result_value = Some (projr (branch_run b snapshot))\<rparr>)
          (concat (map branches waves))"
    by (simp add: declared_results_def [abs_def] map_concat comp_def)
  then have "by_branch_id r = Inr (map (\<lambda>b. (branch_id b, Some (projr (branch_run b snapshot)))) (concat (map branches waves)))"
    using assms(4) unfolding by_branch_id_def r_def
    by (simp add: results collect_branches_distinct comp_def map_concat)
  moreover have "frozen snapshot" by (simp only: snapshot_def freeze_mapping_def freeze_value_frozen)
  ultimately show ?thesis by (intro exI [of _ r]) (simp add: r_def)
qed

text \<open>
  A failure stops the plan: when the first wave with a failing branch is \<open>w\<close>, the run raises the
  orchestration error that names \<open>w\<close> and a branch of it that failed, with its exception, and no branch
  of a later wave is ever submitted.
\<close>

lemma parallel_failure_stops_plan:
  fixes ctx :: "(string \<times> 'a pyval) list"
  defines "snapshot \<equiv> freeze_mapping ctx"
  assumes "distinct (map wave_id (pre @ w # post))" "distinct (map branch_id (concat (map branches (pre @ w # post))))"
    and "yields_each_once as_completed (pre @ w # post)"
    and "list_all (\<lambda>v. list_all (succeeds snapshot) (branches v)) pre"
    and "\<not> list_all (succeeds snapshot) (branches w)"
  shows "\<exists>b t e. b \<in> set (branches w) \<and> branch_run b snapshot = Inl (t, e)
    \<and> run_plan as_completed (pre @ w # post) (Some ctx)
      = (Inl (OrchestrationError (failure_message (wave_id w) [(branch_id b, t, e)])),
         map branch_id (concat (map branches (pre @ [w]))))"
proof -
  from run_waves_stops [OF assms(4-6), of "[]" "[]"] obtain b t e where
    "b \<in> set (branches w)" "branch_run b snapshot = Inl (t, e)"
    and run: "run_waves as_completed snapshot (pre @ w # post) [] []
      = (Inl (OrchestrationError (failure_message (wave_id w) [(branch_id b, t, e)])),
         map branch_id (concat (map branches (pre @ [w]))))" by auto
  moreover have "run_plan as_completed (pre @ w # post) (Some ctx)
      = (Inl (OrchestrationError (failure_message (wave_id w) [(branch_id b, t, e)])),
         map branch_id (concat (map branches (pre @ [w]))))"
    using assms(2,3) run [unfolded snapshot_def] unfolding run_plan_def Let_def by (simp del: map_append)
  ultimately show ?thesis by blast
qed

text \<open>Two waves; the second branch of the first one completes first.\<close>

definition sample_branch :: "string \<Rightarrow> (nat pyval \<Rightarrow> (string \<times> string) + nat) \<Rightarrow> (nat, nat) ResearchBranch" where
  "sample_branch b run = \<lparr>branch_id = b, branch_run = run, branch_metadata = PProxy []\<rparr>"

definition sample_plan :: "(nat, nat) ResearchWave list" where
  "sample_plan =
    [\<lparr>wave_id = ''w1'', branches = [sample_branch ''a'' (\<lambda>_. Inr 1), sample_branch ''b'' (\<lambda>_. Inr 2)]\<rparr>,
     \<lparr>wave_id = ''w2'', branches = [sample_branch ''c'' (\<lambda>_. Inr 3)]\<rparr>]"

definition sample_failing_wave :: "(nat, nat) ResearchWave" where
  "sample_failing_wave = \<lparr>wave_id = ''w1'',
     branches = [sample_branch ''a'' (\<lambda>_. Inr 1), sample_branch ''b'' (\<lambda>_. Inl (''ValueError'', ''bad''))]\<rparr>"

definition sample_order :: "string \<Rightarrow> nat list" where
  "sample_order w = (if w = ''w1'' then [1, 0] else [0])"

lemmas sample_defs = sample_plan_def sample_failing_wave_def sample_branch_def sample_order_def
  yields_each_once_def succeeds_def

theorem parallel_run_deterministic_witness:
  "snd (run_plan sample_order sample_plan (Some [(''x'', PList [PAtom 0])])) = [''a'', ''b'', ''c'']"
  using parallel_run_deterministic [of sample_plan sample_order "[(''x'', PList [PAtom 0])]"]
  by (auto simp: sample_defs lessThan_Suc)

end
