(* ===== verification/Backend_Scheduler.thy ===== *)
theory Backend_Scheduler
  imports Complex_Main Python_Text "HOL-Library.Product_Lexorder"
begin

text \<open>
  Capability declarations of computation backends (\<open>quant_engine/capabilities.py\<close>) and the
  profile-driven scheduler that picks one of them (\<open>quant_engine/scheduler.py\<close>).

  Runtimes are finite floats, modelled as rationals that are only compared and stored; recalibration,
  which averages them, and the rounding in the \<open>to_dict\<close> methods are left out.  What the size
  heuristic can see of an argument (a list or tuple, a \<open>prices\<close> attribute, a length) is a
  datatype.
\<close>

section \<open>Capabilities\<close>

definition QUANT_OPERATIONS :: "string list" where
  "QUANT_OPERATIONS = [''calculate_returns'', ''calculate_volatility'', ''calculate_drawdown'',
     ''calculate_statistics'', ''calculate_metrics'', ''calculate_performance_analytics'', ''run_simulation'']"

record BackendCapabilities =
  backend_name :: string
  backend_version :: string
  supported_operations :: "string list"
  deterministic :: bool
  stateless :: bool
  no_timestamps :: bool
  no_randomness :: bool
  explicit_typing :: bool

definition BackendCapabilities_init :: "BackendCapabilities \<Rightarrow> BackendCapabilities result" where
  "BackendCapabilities_init c =
     (if blank (backend_name c) then Inl (ValidationError ''backend_name must be a non-empty string'')
      else if blank (backend_version c) then Inl (ValidationError ''version must be a non-empty string'')
      else Inr c)"

definition supports :: "BackendCapabilities \<Rightarrow> string \<Rightarrow> bool" where
  "supports c operation \<longleftrightarrow> operation \<in> set (supported_operations c)"

definition capabilities_to_dict :: "BackendCapabilities \<Rightarrow> (string, json) dict" where
  "capabilities_to_dict c =
     [(''backend_name'', JStr (backend_name c)), (''version'', JStr (backend_version c)),
      (''supported_operations'', JList (map JStr (sort (supported_operations c)))),
      (''deterministic'', JBool (deterministic c)), (''stateless'', JBool (stateless c)),
      (''no_timestamps'', JBool (no_timestamps c)), (''no_randomness'', JBool (no_randomness c)),
      (''explicit_typing'', JBool (explicit_typing c))]"

definition trust_boundary_ok :: "BackendCapabilities \<Rightarrow> bool" where
  "trust_boundary_ok c \<longleftrightarrow>
     deterministic c \<and> stateless c \<and> no_timestamps c \<and> no_randomness c \<and> explicit_typing c"

definition default_capabilities :: "string \<Rightarrow> string \<Rightarrow> BackendCapabilities result" where
  "default_capabilities class_name version = BackendCapabilities_init
     \<lparr>backend_name = class_name, backend_version = version, supported_operations = QUANT_OPERATIONS,
      deterministic = True, stateless = True, no_timestamps = True, no_randomness = True,
      explicit_typing = True\<rparr>"

section \<open>Sizes and complexity\<close>

definition DEFAULT_SIZE_THRESHOLDS :: "int \<times> int" where
  "DEFAULT_SIZE_THRESHOLDS = (1000, 10000)"

definition POLICY_VERSION :: string where
  "POLICY_VERSION = ''1.0.0''"

datatype DatasetSizeClass = SMALL | MEDIUM | LARGE

fun size_value :: "DatasetSizeClass \<Rightarrow> string" where
  "size_value SMALL = ''small''"
| "size_value MEDIUM = ''medium''"
| "size_value LARGE = ''large''"

datatype OperationComplexity = LIGHT | STANDARD | HEAVY

definition OPERATION_COMPLEXITY :: "(string, OperationComplexity) dict" where
  "OPERATION_COMPLEXITY =
     [(''calculate_returns'', LIGHT), (''calculate_volatility'', STANDARD), (''calculate_drawdown'', STANDARD),
      (''calculate_statistics'', STANDARD), (''calculate_metrics'', HEAVY),
      (''calculate_performance_analytics'', STANDARD), (''run_simulation'', HEAVY)]"

definition classify_size :: "int option \<Rightarrow> int \<times> int \<Rightarrow> DatasetSizeClass" where
  "classify_size n thresholds =
     (case n of
        None \<Rightarrow> SMALL
      | Some c \<Rightarrow>
          if c \<le> fst thresholds then SMALL
          else if c \<le> snd thresholds then MEDIUM else LARGE)"

definition operation_complexity :: "string \<Rightarrow> OperationComplexity" where
  "operation_complexity operation =
     (case dget OPERATION_COMPLEXITY operation of None \<Rightarrow> STANDARD | Some c \<Rightarrow> c)"

text \<open>
  An argument of an operation: a list or tuple with its length and whether its first element is a
  number, or another object with its \<open>prices\<close> attribute and its length, if it has them (the inner
  option says whether taking the length succeeds).
\<close>

datatype shape =
    Sequence nat bool
  | Object "nat option option" "nat option option"

record 'p arg =
  arg_shape :: shape
  arg_value :: 'p

type_synonym 'p inputs = "(string \<times> 'p arg) list"

fun estimate_dataset_size :: "'p inputs \<Rightarrow> int option" where
  "estimate_dataset_size [] = None"
| "estimate_dataset_size ((k, a) # rest) =
     (case arg_shape a of
        Sequence n numeric \<Rightarrow> if 0 < n \<and> numeric then Some (int n) else None
      | Object prices sized \<Rightarrow>
          (case prices of
             Some (Some n) \<Rightarrow> Some (int n)
           | _ \<Rightarrow>
               (case sized of
                  Some (Some n) \<Rightarrow> if n \<le> 10000000 then Some (int n) else estimate_dataset_size rest
                | _ \<Rightarrow> estimate_dataset_size rest)))"

section \<open>Profiles and decisions\<close>

record PerformanceStat =
  mean_ms :: rat
  stat_count :: int
  last_ms :: rat

definition from_measurement :: "rat \<Rightarrow> PerformanceStat" where
  "from_measurement elapsed_ms = \<lparr>mean_ms = elapsed_ms, stat_count = 1, last_ms = elapsed_ms\<rparr>"

record CertifiedPerformanceProfile =
  profile_stats :: "(string \<times> string \<times> string, PerformanceStat) dict"
  profile_thresholds :: "int \<times> int"
  profile_version :: string
  profile_source :: string

definition estimate_ms :: "CertifiedPerformanceProfile \<Rightarrow> string \<Rightarrow> string \<Rightarrow> DatasetSizeClass \<Rightarrow> rat option" where
  "estimate_ms p backend operation sz =
     map_option mean_ms (dget (profile_stats p) (backend, operation, size_value sz))"

definition faster_than :: "CertifiedPerformanceProfile \<Rightarrow> string \<Rightarrow> DatasetSizeClass \<Rightarrow> string \<Rightarrow> string \<Rightarrow> bool" where
  "faster_than p operation sz a b =
     (case (estimate_ms p a operation sz, estimate_ms p b operation sz) of
        (Some ea, Some eb) \<Rightarrow> ea < eb
      | _ \<Rightarrow> False)"

definition profile_measured :: "CertifiedPerformanceProfile \<Rightarrow> nat" where
  "profile_measured p = length (profile_stats p)"

definition profile_add ::
  "string \<Rightarrow> string \<Rightarrow> DatasetSizeClass \<Rightarrow> PerformanceStat \<Rightarrow> CertifiedPerformanceProfile
    \<Rightarrow> CertifiedPerformanceProfile" where
  "profile_add backend operation sz stat p =
     p\<lparr>profile_stats := dset (backend, operation, size_value sz) stat (profile_stats p)\<rparr>"

text \<open>
  The reasons for the candidates that were not selected are rendered from their estimate and the
  best one; the decision keeps the two numbers.
\<close>

record SchedulerDecision =
  selected_backend :: "string option"
  rationale :: string
  decision_policy :: string
  decision_profile :: string
  candidates_considered :: "string list"
  rejected_reasons :: "(string \<times> rat \<times> rat) list"

record BackendScheduler =
  scheduler_profile :: "CertifiedPerformanceProfile option"
  policy_version :: string

definition BackendScheduler_init :: "CertifiedPerformanceProfile option \<Rightarrow> BackendScheduler" where
  "BackendScheduler_init p = \<lparr>scheduler_profile = p, policy_version = POLICY_VERSION\<rparr>"

definition set_profile :: "CertifiedPerformanceProfile option \<Rightarrow> BackendScheduler \<Rightarrow> BackendScheduler" where
  "set_profile p s = s\<lparr>scheduler_profile := p\<rparr>"

definition scheduler_profile_version :: "BackendScheduler \<Rightarrow> string" where
  "scheduler_profile_version s = (case scheduler_profile s of None \<Rightarrow> '''' | Some p \<Rightarrow> profile_version p)"

definition scheduler_thresholds :: "BackendScheduler \<Rightarrow> int \<times> int" where
  "scheduler_thresholds s =
     (case scheduler_profile s of None \<Rightarrow> DEFAULT_SIZE_THRESHOLDS | Some p \<Rightarrow> profile_thresholds p)"

definition measured_candidates ::
  "CertifiedPerformanceProfile \<Rightarrow> string \<Rightarrow> DatasetSizeClass \<Rightarrow> string list \<Rightarrow> (string \<times> rat) list" where
  "measured_candidates p operation sz names =
     List.map_filter (\<lambda>n. map_option (Pair n) (estimate_ms p n operation sz)) names"

definition decide :: "BackendScheduler \<Rightarrow> string \<Rightarrow> 'p inputs \<Rightarrow> string list \<Rightarrow> SchedulerDecision" where
  "decide s operation inputs names =
     (if names = [] then
        \<lparr>selected_backend = None, rationale = ''no eligible candidate; reference backend will run'',
         decision_policy = policy_version s, decision_profile = scheduler_profile_version s,
         candidates_considered = [], rejected_reasons = []\<rparr>
      else
        let sz = classify_size (estimate_dataset_size inputs) (scheduler_thresholds s) in
        case scheduler_profile s of
          None \<Rightarrow>
            \<lparr>selected_backend = Some (hd names),
             rationale = ''no certified performance profile; first eligible candidate selected (''
               @ size_value sz @ '' dataset)'',
             decision_policy = policy_version s, decision_profile = '''',
             candidates_considered = names, rejected_reasons = []\<rparr>
        | Some p \<Rightarrow>
            (case sort_key (\<lambda>(n, e). (e, n)) (measured_candidates p operation sz names) of
               [] \<Rightarrow>
                 \<lparr>selected_backend = Some (hd names),
                  rationale = ''no profile measurements for '' @ operation @ '' at '' @ size_value sz
                    @ ''; selected first eligible candidate ('' @ hd names @ '')'',
                  decision_policy = policy_version s, decision_profile = scheduler_profile_version s,
                  candidates_considered = names, rejected_reasons = []\<rparr>
             | (best, best_ms) # others \<Rightarrow>
                 \<lparr>selected_backend = Some best,
                  rationale = ''certified performance profile chose '' @ best @ '' for '' @ operation
                    @ '' at '' @ size_value sz @ '' dataset size'',
                  decision_policy = policy_version s, decision_profile = scheduler_profile_version s,
                  candidates_considered = names,
                  rejected_reasons = map (\<lambda>(n, e). (n, e, best_ms)) others\<rparr>))"

section \<open>Telemetry\<close>

record ExecutionRecord =
  rec_operation :: string
  rec_backend :: string
  rec_size_class :: string
  rec_duration_ms :: rat
  rec_validation_status :: string
  rec_error_code :: string
  rec_fallback_count :: nat

type_synonym ExecutionHistory = "ExecutionRecord list"

definition history_record :: "ExecutionRecord \<Rightarrow> ExecutionHistory \<Rightarrow> ExecutionHistory" where
  "history_record entry h = h @ [entry]"

section \<open>Results\<close>

lemma measured_candidates_iff:
  "(n, e) \<in> set (measured_candidates p operation sz names) \<longleftrightarrow> n \<in> set names \<and> estimate_ms p n operation sz = Some e"
  by (induction names) (auto simp: measured_candidates_def List.map_filter_simps split: option.splits)

text \<open>The backend that is selected is one of the candidates.\<close>

lemma decide_selects_candidate:
  assumes "names \<noteq> []"
  shows "\<exists>n \<in> set names. selected_backend (decide s operation inputs names) = Some n"
proof -
  let ?sz = "classify_size (estimate_dataset_size inputs) (scheduler_thresholds s)"
  have measured: "fst x \<in> set names"
    if "sort_key (\<lambda>(n, e). (e, n)) (measured_candidates p operation ?sz names) = x # xs" for p x xs
  proof -
    have "x \<in> set (measured_candidates p operation ?sz names)" using that by (metis list.set_intros(1) set_sort)
    then show ?thesis
      using measured_candidates_iff [of "fst x" "snd x" p operation ?sz names] by simp
  qed
  show ?thesis
    using assms measured
    by (auto simp: decide_def Let_def split: option.splits list.splits)
qed

text \<open>
  The scheduler decides as its profile says: without a measurement for the operation at this size
  the first candidate is chosen, otherwise the chosen candidate is measured, no measured candidate has
  a smaller estimate, ties go to the smaller name, and exactly the other measurements are listed as
  rejected.
\<close>

lemma scheduler_choice_exact:
  fixes inputs :: "'p inputs" and operation :: string
  assumes "names \<noteq> []" "distinct names" "scheduler_profile s = Some p"
  defines "sz \<equiv> classify_size (estimate_dataset_size inputs) (profile_thresholds p)"
    and "d \<equiv> decide s operation inputs names"
  shows "candidates_considered d = names
    \<and> (if \<forall>n \<in> set names. estimate_ms p n operation sz = None
       then selected_backend d = Some (hd names) \<and> rejected_reasons d = []
       else \<exists>best e. selected_backend d = Some best \<and> best \<in> set names \<and> estimate_ms p best operation sz = Some e
         \<and> (\<forall>n e'. n \<in> set names \<longrightarrow> estimate_ms p n operation sz = Some e' \<longrightarrow> (e, best) \<le> (e', n))
         \<and> set (rejected_reasons d)
           = {(n, e', e) | n e'. n \<in> set names - {best} \<and> estimate_ms p n operation sz = Some e'})"
proof -
  define ms where "ms = measured_candidates p operation sz names"
  have thr: "scheduler_thresholds s = profile_thresholds p" using assms(3) by (simp add: scheduler_thresholds_def)
  have considered: "candidates_considered d = names"
    using assms(1,3) by (auto simp: d_def decide_def Let_def split: list.splits)
  show ?thesis
  proof (cases "sort_key (\<lambda>(n, e). (e, n)) ms")
    case Nil
    then have "ms = []" by (metis length_0_conv length_sort)
    then have none: "\<forall>n \<in> set names. estimate_ms p n operation sz = None"
      using measured_candidates_iff [of _ _ p operation sz names] by (auto simp: ms_def) (metis option.exhaust)
    show ?thesis using Nil none considered assms(1,3)
      by (simp add: d_def decide_def Let_def thr sz_def [symmetric] ms_def [symmetric])
  next
    case (Cons x rest)
    obtain best e where x: "x = (best, e)" by (cases x)
    have elems: "set ms = insert (best, e) (set rest)" using Cons x by (metis list.set(2) set_sort)
    have "(best, e) \<in> set ms" by (simp add: elems)
    then have best: "best \<in> set names" "estimate_ms p best operation sz = Some e"
      by (simp_all add: ms_def measured_candidates_iff)
    have sorted: "sorted (map (\<lambda>(n, e). (e, n)) (sort_key (\<lambda>(n, e). (e, n)) ms))" by simp
    have least: "(e, best) \<le> (e', n)" if "n \<in> set names" "estimate_ms p n operation sz = Some e'" for n e'
    proof -
      have "(n, e') \<in> insert (best, e) (set rest)"
        using that by (simp add: elems [symmetric] ms_def measured_candidates_iff)
      then show ?thesis using sorted by (auto simp: Cons x)
    qed
    have "distinct ms" using assms(2) unfolding ms_def measured_candidates_def
      by (induction names) (auto simp: List.map_filter_simps List.map_filter_def split: option.splits)
    then have "distinct (x # rest)" using Cons by (metis distinct_sort)
    then have rest: "set rest = set ms - {(best, e)}" by (auto simp: elems x)
    have d: "selected_backend d = Some best" "rejected_reasons d = map (\<lambda>(n, e'). (n, e', e)) rest"
      using assms(1,3) Cons
      by (simp_all add: d_def decide_def Let_def thr sz_def [symmetric] ms_def [symmetric] x)
    have "set (rejected_reasons d) = {(n, e', e) | n e'. n \<in> set names - {best} \<and> estimate_ms p n operation sz = Some e'}"
      using best by (auto simp: d(2) rest ms_def measured_candidates_iff image_iff)
    moreover have "\<not> (\<forall>n \<in> set names. estimate_ms p n operation sz = None)" using best by auto
    ultimately show ?thesis using considered d(1) best least by auto
  qed
qed

definition sample_profile :: CertifiedPerformanceProfile where
  "sample_profile =
     profile_add ''cpp'' ''run_simulation'' SMALL (from_measurement 3)
      (profile_add ''python'' ''run_simulation'' SMALL (from_measurement 9)
        \<lparr>profile_stats = [], profile_thresholds = DEFAULT_SIZE_THRESHOLDS, profile_version = ''1'', profile_source = ''''\<rparr>)"

definition sample_scheduler :: BackendScheduler where
  "sample_scheduler = BackendScheduler_init (Some sample_profile)"

end
