(* ===== verification/Backend_Router.thy ===== *)
theory Backend_Router
  imports Backend_Scheduler
begin

text \<open>
  The certification router, \<open>quant_engine/router.py\<close>: eligibility of candidate backends, the scheduled
  attempt order, validation of every candidate output, the fallback to the reference backend, planned
  execution without substitution, and the record of each execution.

  A backend is an object with an identity, a class name, a fixed capability declaration (\<open>None\<close> when
  asking for it fails) and the operations it has; a call returns a value or raises, and may depend on
  how many calls were made before, so that nothing is assumed about hidden state.  The numerical
  comparator (floating point) and the canonical JSON form of inputs and outputs are arguments; values
  returned by backends are not \<open>None\<close>.
\<close>

section \<open>Backends and errors\<close>

datatype router_error =
    RouterError string
  | CapabilityError string
  | ExecutionError string
  | ValidationFailure string
  | ComparisonError string
  | BackendRaised string

record ('p, 'v) backend =
  backend_ref :: nat
  class_name :: string
  declared :: "BackendCapabilities option"
  operations :: "string list"
  call :: "nat \<Rightarrow> string \<Rightarrow> 'p inputs \<Rightarrow> string + 'v"

text \<open>
  The comparator: \<open>compare\<close> raises \<open>NumericalComparisonError\<close> (\<open>Inl\<close>) when a value is not a numeric
  structure, and so does \<open>compare_structural\<close> for invalid tolerances; \<open>Inr\<close> says whether the outputs
  agree.
\<close>

record ('p, 'v) services =
  compare :: "'v \<Rightarrow> 'v \<Rightarrow> string + bool"
  compare_structural :: "'v \<Rightarrow> 'v \<Rightarrow> string + bool"
  is_mapping :: "'v \<Rightarrow> bool"
  canonical_output :: "'v \<Rightarrow> json"
  canonical_inputs :: "'p inputs \<Rightarrow> json"

record BackendExecutionMetadata =
  md_operation :: string
  md_backend :: string
  md_version :: string
  md_fallback_used :: bool
  md_validation_status :: string
  md_execution_time_ms :: rat
  md_result_hash :: string
  md_error_code :: string
  md_execution_timestamp :: string
  md_capability_profile :: "BackendCapabilities option"
  md_scheduler_decision :: "SchedulerDecision option"
  md_policy_version :: string
  md_profile_version :: string
  md_fallback_count :: nat
  md_attempted_backends :: "string list"

record 'v BackendExecutionResult =
  metadata :: BackendExecutionMetadata
  result_output :: 'v

record ('p, 'v) BackendRouter =
  reference :: "('p, 'v) backend"
  candidates :: "('p, 'v) backend list"
  scheduler :: "BackendScheduler option"
  history :: ExecutionHistory

definition ERROR_OK :: string where "ERROR_OK = ''ok''"
definition ERROR_NO_CANDIDATE :: string where "ERROR_NO_CANDIDATE = ''unavailable''"
definition ERROR_EXECUTION_FAILED :: string where "ERROR_EXECUTION_FAILED = ''execution_failed''"
definition ERROR_VALIDATION_FAILED :: string where "ERROR_VALIDATION_FAILED = ''validation_failed''"
definition ERROR_TRUST_BOUNDARY :: string where "ERROR_TRUST_BOUNDARY = ''trust_boundary_violation''"

definition VALIDATION_MODES :: "string list" where
  "VALIDATION_MODES = [''auto'', ''numeric'', ''structural'']"

section \<open>Digests\<close>

definition HASH_VERSION :: string where
  "HASH_VERSION = ''1.0.0''"

text \<open>\<open>json.dumps(v, sort_keys=True)\<close>.\<close>

definition fmt_plain :: json_format where
  "fmt_plain = \<lparr>item_sep = '', '', key_sep = '': '', ensure_ascii = True\<rparr>"

definition compute_input_hash :: "('p, 'v) services \<Rightarrow> 'p inputs \<Rightarrow> string" where
  "compute_input_hash sv inputs = json_sha256 fmt_plain (JObj [(''inputs'', canonical_inputs sv inputs)])"

definition compute_backend_result_hash ::
  "('p, 'v) services \<Rightarrow> string \<Rightarrow> string \<Rightarrow> string \<Rightarrow> string \<Rightarrow> 'v \<Rightarrow> string" where
  "compute_backend_result_hash sv operation backend version input_hash out =
     json_sha256 fmt_ascii (JObj
       [(''hash_version'', JStr HASH_VERSION), (''operation'', JStr operation), (''backend'', JStr backend),
        (''version'', JStr version), (''input_hash'', JStr input_hash), (''output'', canonical_output sv out)])"

section \<open>Configuration\<close>

definition BackendRouter_init ::
  "('p, 'v) backend \<Rightarrow> ('p, 'v) backend list \<Rightarrow> BackendScheduler option \<Rightarrow> ExecutionHistory \<Rightarrow> ('p, 'v) BackendRouter" where
  "BackendRouter_init ref cands s h = \<lparr>reference = ref, candidates = cands, scheduler = s, history = h\<rparr>"

definition set_reference :: "('p, 'v) backend \<Rightarrow> ('p, 'v) BackendRouter \<Rightarrow> ('p, 'v) BackendRouter" where
  "set_reference b r = r\<lparr>reference := b\<rparr>"

definition register_backend :: "('p, 'v) backend \<Rightarrow> ('p, 'v) BackendRouter \<Rightarrow> ('p, 'v) BackendRouter" where
  "register_backend b r =
     (if backend_ref b \<in> backend_ref ` set (candidates r) then r
      else r\<lparr>candidates := candidates r @ [b]\<rparr>)"

definition list_candidates :: "('p, 'v) BackendRouter \<Rightarrow> BackendCapabilities list" where
  "list_candidates r = List.map_filter declared (candidates r)"

definition set_scheduler :: "BackendScheduler option \<Rightarrow> ('p, 'v) BackendRouter \<Rightarrow> ('p, 'v) BackendRouter" where
  "set_scheduler s r = r\<lparr>scheduler := s\<rparr>"

definition set_scheduler_profile ::
  "CertifiedPerformanceProfile option \<Rightarrow> ('p, 'v) BackendRouter \<Rightarrow> ('p, 'v) BackendRouter" where
  "set_scheduler_profile p r =
     (case (scheduler r, p) of
        (None, None) \<Rightarrow> r
      | (None, Some _) \<Rightarrow> r\<lparr>scheduler := Some (set_profile p (BackendScheduler_init None))\<rparr>
      | (Some s, _) \<Rightarrow> r\<lparr>scheduler := Some (set_profile p s)\<rparr>)"

section \<open>Internals\<close>

definition invoke :: "('p, 'v) backend \<Rightarrow> nat \<Rightarrow> string \<Rightarrow> 'p inputs \<Rightarrow> string + 'v" where
  "invoke b n operation inputs =
     (if operation \<in> set (operations b) then call b n operation inputs
      else Inl (''backend '' @ py_repr_string (class_name b) @ '' has no callable '' @ py_repr_string operation))"

definition reported_name :: "('p, 'v) backend \<Rightarrow> string" where
  "reported_name b = (case declared b of Some c \<Rightarrow> backend_name c | None \<Rightarrow> class_name b)"

definition reported_version :: "('p, 'v) backend \<Rightarrow> string" where
  "reported_version b = (case declared b of Some c \<Rightarrow> backend_version c | None \<Rightarrow> ''unknown'')"

definition reference_name :: "('p, 'v) BackendRouter \<Rightarrow> string" where
  "reference_name r = reported_name (reference r)"

definition eligible_for :: "string \<Rightarrow> ('p, 'v) backend \<Rightarrow> bool" where
  "eligible_for operation b =
     (case declared b of None \<Rightarrow> False | Some c \<Rightarrow> supports c operation \<and> trust_boundary_ok c)"

definition trust_rejected_for :: "string \<Rightarrow> ('p, 'v) backend \<Rightarrow> bool" where
  "trust_rejected_for operation b =
     (case declared b of None \<Rightarrow> False | Some c \<Rightarrow> supports c operation \<and> \<not> trust_boundary_ok c)"

definition eligible_candidates ::
  "('p, 'v) BackendRouter \<Rightarrow> string \<Rightarrow> (string \<times> ('p, 'v) backend) list \<times> bool" where
  "eligible_candidates r operation =
     (map (\<lambda>b. (reported_name b, b)) (filter (eligible_for operation) (candidates r)),
      list_ex (trust_rejected_for operation) (candidates r))"

definition router_decide ::
  "('p, 'v) BackendRouter \<Rightarrow> string \<Rightarrow> 'p inputs \<Rightarrow> (string \<times> ('p, 'v) backend) list \<Rightarrow> SchedulerDecision option" where
  "router_decide r operation inputs eligible =
     (case scheduler r of
        None \<Rightarrow> None
      | Some s \<Rightarrow>
          let names = map fst eligible;
              schedulable = (if reference_name r \<in> set names then names else names @ [reference_name r])
          in Some (decide s operation inputs schedulable))"

definition attempt_order ::
  "SchedulerDecision option \<Rightarrow> (string \<times> ('p, 'v) backend) list \<Rightarrow> ('p, 'v) backend list" where
  "attempt_order decision eligible =
     (case decision of
        None \<Rightarrow> map snd eligible
      | Some d \<Rightarrow>
          (case selected_backend d of
             None \<Rightarrow> map snd eligible
           | Some selected \<Rightarrow>
               foldl (\<lambda>ordered (n, b). if n = selected then b # ordered else ordered @ [b]) [] eligible))"

definition validate_output :: "('p, 'v) services \<Rightarrow> string \<Rightarrow> 'v \<Rightarrow> 'v \<Rightarrow> string + bool" where
  "validate_output sv mode expected actual =
     (if mode = ''numeric'' then compare sv expected actual
      else if mode = ''structural'' then compare_structural sv expected actual
      else if is_mapping sv expected \<and> is_mapping sv actual then compare_structural sv expected actual
      else case compare sv expected actual of
             Inr ok \<Rightarrow> Inr ok
           | Inl _ \<Rightarrow> compare_structural sv expected actual)"

definition build_metadata ::
  "string \<Rightarrow> string \<Rightarrow> string \<Rightarrow> bool \<Rightarrow> string \<Rightarrow> rat \<times> string \<Rightarrow> string \<Rightarrow> string \<Rightarrow> BackendCapabilities option
    \<Rightarrow> SchedulerDecision option \<Rightarrow> string list \<Rightarrow> nat \<Rightarrow> BackendExecutionMetadata" where
  "build_metadata operation backend version fallback_used status clock hash error caps decision attempted fallbacks =
     \<lparr>md_operation = operation, md_backend = backend, md_version = version, md_fallback_used = fallback_used,
      md_validation_status = status, md_execution_time_ms = fst clock, md_result_hash = hash,
      md_error_code = error, md_execution_timestamp = snd clock, md_capability_profile = caps,
      md_scheduler_decision = decision,
      md_policy_version = (case decision of None \<Rightarrow> '''' | Some d \<Rightarrow> decision_policy d),
      md_profile_version = (case decision of None \<Rightarrow> '''' | Some d \<Rightarrow> decision_profile d),
      md_fallback_count = fallbacks, md_attempted_backends = attempted\<rparr>"

definition execution_record ::
  "('p, 'v) BackendRouter \<Rightarrow> 'p inputs \<Rightarrow> BackendExecutionMetadata \<Rightarrow> ExecutionRecord" where
  "execution_record r inputs m =
     \<lparr>rec_operation = md_operation m, rec_backend = md_backend m,
      rec_size_class = size_value (classify_size (estimate_dataset_size inputs)
        (case scheduler r of None \<Rightarrow> DEFAULT_SIZE_THRESHOLDS | Some s \<Rightarrow> scheduler_thresholds s)),
      rec_duration_ms = md_execution_time_ms m, rec_validation_status = md_validation_status m,
      rec_error_code = md_error_code m, rec_fallback_count = md_fallback_count m\<rparr>"

text \<open>Every path that returns builds the metadata, appends the record and returns both.\<close>

definition deliver ::
  "('p, 'v) services \<Rightarrow> ('p, 'v) BackendRouter \<Rightarrow> string \<Rightarrow> 'p inputs \<Rightarrow> ('p, 'v) backend \<Rightarrow> 'v \<Rightarrow> bool \<Rightarrow> string
    \<Rightarrow> rat \<times> string \<Rightarrow> string \<Rightarrow> SchedulerDecision option \<Rightarrow> string list \<Rightarrow> nat
    \<Rightarrow> (router_error + 'v BackendExecutionResult) \<times> ('p, 'v) BackendRouter" where
  "deliver sv r operation inputs b out fallback_used status clock error decision attempted fallbacks =
     (let hash = compute_backend_result_hash sv operation (reported_name b) (reported_version b)
                   (compute_input_hash sv inputs) out;
          m = build_metadata operation (reported_name b) (reported_version b) fallback_used status clock hash
                error (declared b) decision attempted fallbacks
      in (Inr \<lparr>metadata = m, result_output = out\<rparr>,
          r\<lparr>history := history_record (execution_record r inputs m) (history r)\<rparr>))"

section \<open>Execution\<close>

record 'v attempt_state =
  calls :: nat
  expected_output :: "'v option"
  attempted :: "string list"
  fallback_count :: nat
  last_error :: string

datatype ('p, 'v) attempt =
    Aborted router_error
  | Accepted "('p, 'v) backend" 'v "'v attempt_state"
  | Exhausted "'v attempt_state"

text \<open>The output to validate against: given, or produced once by the reference backend.\<close>

definition expected_of ::
  "('p, 'v) backend \<Rightarrow> string \<Rightarrow> 'p inputs \<Rightarrow> 'v attempt_state \<Rightarrow> string + 'v \<times> 'v attempt_state" where
  "expected_of ref operation inputs st =
     (case expected_output st of
        Some e \<Rightarrow> Inr (e, st)
      | None \<Rightarrow>
          (case invoke ref (calls st) operation inputs of
             Inl msg \<Rightarrow> Inl (''reference backend failed for '' @ py_repr_string operation @ '': '' @ msg)
           | Inr e \<Rightarrow> Inr (e, st\<lparr>calls := calls st + 1, expected_output := Some e\<rparr>)))"

fun attempt_candidates ::
  "('p, 'v) services \<Rightarrow> ('p, 'v) backend \<Rightarrow> string \<Rightarrow> 'p inputs \<Rightarrow> string \<Rightarrow> ('p, 'v) backend list
    \<Rightarrow> 'v attempt_state \<Rightarrow> ('p, 'v) attempt" where
  "attempt_candidates sv ref operation inputs mode [] st = Exhausted st"
| "attempt_candidates sv ref operation inputs mode (b # bs) st =
     (case invoke b (calls st) operation inputs of
        Inl _ \<Rightarrow>
          attempt_candidates sv ref operation inputs mode bs
            (st\<lparr>calls := calls st + 1, attempted := attempted st @ [reported_name b],
                fallback_count := fallback_count st + 1, last_error := ERROR_EXECUTION_FAILED\<rparr>)
      | Inr out \<Rightarrow>
          (case expected_of ref operation inputs (st\<lparr>calls := calls st + 1\<rparr>) of
             Inl msg \<Rightarrow> Aborted (ExecutionError msg)
           | Inr (e, st') \<Rightarrow>
               (case validate_output sv mode e out of
                  Inl msg \<Rightarrow> Aborted (ComparisonError msg)
                | Inr True \<Rightarrow> Accepted b out st'
                | Inr False \<Rightarrow>
                    attempt_candidates sv ref operation inputs mode bs
                      (st'\<lparr>attempted := attempted st' @ [reported_name b],
                           fallback_count := fallback_count st' + 1,
                           last_error := ERROR_VALIDATION_FAILED\<rparr>))))"

definition deliberate_reference ::
  "('p, 'v) services \<Rightarrow> ('p, 'v) BackendRouter \<Rightarrow> string \<Rightarrow> 'p inputs \<Rightarrow> rat \<times> string \<Rightarrow> SchedulerDecision
    \<Rightarrow> (router_error + 'v BackendExecutionResult) \<times> ('p, 'v) BackendRouter" where
  "deliberate_reference sv r operation inputs clock decision =
     (case invoke (reference r) 0 operation inputs of
        Inl msg \<Rightarrow> (Inl (BackendRaised msg), r)
      | Inr out \<Rightarrow>
          deliver sv r operation inputs (reference r) out True ''not_required'' clock ERROR_OK (Some decision) [] 0)"

definition fallback ::
  "('p, 'v) services \<Rightarrow> ('p, 'v) BackendRouter \<Rightarrow> string \<Rightarrow> 'p inputs \<Rightarrow> string \<Rightarrow> rat \<times> string \<Rightarrow> SchedulerDecision option
    \<Rightarrow> 'v attempt_state \<Rightarrow> (router_error + 'v BackendExecutionResult) \<times> ('p, 'v) BackendRouter" where
  "fallback sv r operation inputs mode clock decision st =
     (case invoke (reference r) (calls st) operation inputs of
        Inl msg \<Rightarrow>
          (Inl (ExecutionError (''no backend available for '' @ py_repr_string operation @ ''; reference failed: '' @ msg)), r)
      | Inr out \<Rightarrow>
          (case (case expected_output st of
                   None \<Rightarrow> Inr ''not_required''
                 | Some e \<Rightarrow> map_sum id (\<lambda>ok. if ok then ''passed'' else ''failed'') (validate_output sv mode e out)) of
             Inl msg \<Rightarrow> (Inl (ComparisonError msg), r)
           | Inr status \<Rightarrow>
               deliver sv r operation inputs (reference r) out True status clock (last_error st) decision
                 (attempted st) (fallback_count st)))"

definition mode_error :: "string \<Rightarrow> router_error" where
  "mode_error mode = RouterError
     (''validation must be one of ('' @ py_join '', '' (map py_repr_string VALIDATION_MODES) @ ''), got '' @ py_repr_string mode)"

text \<open>The attempts in order, then the reference backend.\<close>

definition route_candidates ::
  "('p, 'v) services \<Rightarrow> ('p, 'v) BackendRouter \<Rightarrow> string \<Rightarrow> 'p inputs \<Rightarrow> 'v option \<Rightarrow> string \<Rightarrow> rat \<times> string
    \<Rightarrow> SchedulerDecision option \<Rightarrow> (string \<times> ('p, 'v) backend) list \<Rightarrow> bool
    \<Rightarrow> (router_error + 'v BackendExecutionResult) \<times> ('p, 'v) BackendRouter" where
  "route_candidates sv r operation inputs expected mode clock decision eligible trust_rejected =
     (case attempt_candidates sv (reference r) operation inputs mode (attempt_order decision eligible)
             \<lparr>calls = 0, expected_output = expected, attempted = [], fallback_count = 0,
              last_error = ERROR_NO_CANDIDATE\<rparr> of
        Aborted e \<Rightarrow> (Inl e, r)
      | Accepted b out st \<Rightarrow>
          deliver sv r operation inputs b out False ''passed'' clock ERROR_OK decision (attempted st) (fallback_count st)
      | Exhausted st \<Rightarrow>
          fallback sv r operation inputs mode clock decision
            (if attempted st = [] \<and> trust_rejected then st\<lparr>last_error := ERROR_TRUST_BOUNDARY\<rparr> else st))"

definition execute ::
  "('p, 'v) services \<Rightarrow> ('p, 'v) BackendRouter \<Rightarrow> string \<Rightarrow> 'p inputs \<Rightarrow> 'v option \<Rightarrow> string \<Rightarrow> rat \<times> string
    \<Rightarrow> (router_error + 'v BackendExecutionResult) \<times> ('p, 'v) BackendRouter" where
  "execute sv r operation inputs expected mode clock =
     (if mode \<notin> set VALIDATION_MODES then (Inl (mode_error mode), r)
      else
        let (eligible, trust_rejected) = eligible_candidates r operation;
            decision = router_decide r operation inputs eligible
        in case decision of
             Some d \<Rightarrow>
               if selected_backend d = Some (reference_name r)
               then deliberate_reference sv r operation inputs clock d
               else route_candidates sv r operation inputs expected mode clock decision eligible trust_rejected
           | None \<Rightarrow> route_candidates sv r operation inputs expected mode clock decision eligible trust_rejected)"

definition planned_target :: "('p, 'v) BackendRouter \<Rightarrow> string \<Rightarrow> string \<Rightarrow> (('p, 'v) backend \<times> BackendCapabilities) option" where
  "planned_target r name version =
     List.find (\<lambda>(b, c). backend_name c = name \<and> backend_version c = version)
       (List.map_filter (\<lambda>b. map_option (Pair b) (declared b)) (reference r # candidates r))"

definition execute_planned ::
  "('p, 'v) services \<Rightarrow> ('p, 'v) BackendRouter \<Rightarrow> string \<Rightarrow> 'p inputs \<Rightarrow> string \<Rightarrow> string \<Rightarrow> 'v option \<Rightarrow> string
    \<Rightarrow> rat \<times> string \<Rightarrow> (router_error + 'v BackendExecutionResult) \<times> ('p, 'v) BackendRouter" where
  "execute_planned sv r operation inputs required_backend required_version expected mode clock =
     (if blank required_backend \<or> blank required_version
      then (Inl (RouterError ''planned execution requires backend and version''), r)
      else if mode \<notin> set VALIDATION_MODES then (Inl (mode_error mode), r)
      else case planned_target r required_backend required_version of
        None \<Rightarrow> (Inl (ExecutionError (''planned backend unavailable: '' @ required_backend @ ''@'' @ required_version)), r)
      | Some (target, caps) \<Rightarrow>
          if \<not> supports caps operation
          then (Inl (CapabilityError (''planned backend does not support operation '' @ py_repr_string operation @ '': ''
                 @ required_backend @ ''@'' @ required_version)), r)
          else if \<not> trust_boundary_ok caps
          then (Inl (CapabilityError (''planned backend violates the trust boundary: ''
                 @ required_backend @ ''@'' @ required_version)), r)
          else case invoke target 0 operation inputs of
            Inl msg \<Rightarrow> (Inl (ExecutionError (''planned backend failed for '' @ py_repr_string operation @ '': '' @ msg)), r)
          | Inr out \<Rightarrow>
              (case expected of
                 None \<Rightarrow> deliver sv r operation inputs target out False ''not_required'' clock ERROR_OK None [] 0
               | Some e \<Rightarrow>
                   (case validate_output sv mode e out of
                      Inl msg \<Rightarrow> (Inl (ComparisonError msg), r)
                    | Inr ok \<Rightarrow>
                        if ok then deliver sv r operation inputs target out False ''passed'' clock ERROR_OK None [] 0
                        else (Inl (ValidationFailure (''planned backend output failed validation for ''
                               @ py_repr_string operation)), r))))"

section \<open>Results\<close>

text \<open>What every delivered result says, and how the router changes.\<close>

lemma deliver_result:
  assumes "deliver sv r operation inputs b out fb status clock error decision att k = (Inr res, r')"
  shows "result_output res = out" "md_backend (metadata res) = reported_name b" "md_version (metadata res) = reported_version b"
    "md_fallback_used (metadata res) = fb" "md_validation_status (metadata res) = status" "md_error_code (metadata res) = error"
    "md_attempted_backends (metadata res) = att" "md_fallback_count (metadata res) = k"
    "r' = r\<lparr>history := history r @ [execution_record r inputs (metadata res)]\<rparr>"
  using assms by (auto simp: deliver_def Let_def build_metadata_def history_record_def)

lemma deliver_Inr: "\<exists>res r'. deliver sv r operation inputs b out fb status clock error decision att k = (Inr res, r')"
  by (simp add: deliver_def Let_def)

lemma attempt_order_set: "set (attempt_order decision eligible) = snd ` set eligible"
proof -
  have "set (foldl (\<lambda>ordered (n, b). if n = sel then b # ordered else ordered @ [b]) acc eligible)
      = set acc \<union> snd ` set eligible" for sel acc
    unfolding case_prod_beta by (induction eligible arbitrary: acc) auto
  then show ?thesis by (auto simp: attempt_order_def split: option.splits)
qed

lemma eligible_set:
  "snd ` set (fst (eligible_candidates r operation)) = {b \<in> set (candidates r). eligible_for operation b}"
  by (force simp: eligible_candidates_def)

lemma expected_of_Inr:
  assumes "expected_of ref operation inputs st = Inr (e, st')"
  shows "expected_output st' = Some e" "attempted st' = attempted st" "fallback_count st' = fallback_count st"
    "expected_output st = Some e \<or> expected_output st = None \<and> (\<exists>n. invoke ref n operation inputs = Inr e)"
  using assms by (auto simp: expected_of_def split: option.splits sum.splits)

lemma attempt_accepted:
  assumes "attempt_candidates sv ref operation inputs mode bs st = Accepted b out st'"
  shows "b \<in> set bs \<and> (\<exists>n. invoke b n operation inputs = Inr out)
    \<and> (\<exists>e. validate_output sv mode e out = Inr True
         \<and> (expected_output st = Some e \<or> expected_output st = None \<and> (\<exists>n. invoke ref n operation inputs = Inr e)))"
  using assms
proof (induction bs arbitrary: st)
  case (Cons c bs)
  show ?case
  proof (cases "invoke c (calls st) operation inputs")
    case (Inl msg)
    then have "attempt_candidates sv ref operation inputs mode bs
        (st\<lparr>calls := calls st + 1, attempted := attempted st @ [reported_name c],
            fallback_count := fallback_count st + 1, last_error := ERROR_EXECUTION_FAILED\<rparr>) = Accepted b out st'"
      using Cons.prems by simp
    from Cons.IH [OF this] show ?thesis by simp
  next
    case (Inr v)
    obtain e st1 where e: "expected_of ref operation inputs (st\<lparr>calls := calls st + 1\<rparr>) = Inr (e, st1)"
      using Cons.prems Inr by (auto split: sum.splits)
    note ex = expected_of_Inr [OF e]
    obtain ok where ok: "validate_output sv mode e v = Inr ok"
      using Cons.prems Inr e by (auto split: sum.splits)
    show ?thesis
    proof (cases ok)
      case True
      then show ?thesis using Cons.prems Inr e ok ex(4) by auto
    next
      case False
      then have "attempt_candidates sv ref operation inputs mode bs
        (st1\<lparr>attempted := attempted st1 @ [reported_name c], fallback_count := fallback_count st1 + 1,
             last_error := ERROR_VALIDATION_FAILED\<rparr>) = Accepted b out st'"
        using Cons.prems Inr e ok by simp
      from Cons.IH [OF this] show ?thesis using ex by auto
    qed
  qed
qed simp

fun attempt_end :: "('p, 'v) attempt \<Rightarrow> 'v attempt_state option" where
  "attempt_end (Aborted e) = None"
| "attempt_end (Accepted b out st) = Some st"
| "attempt_end (Exhausted st) = Some st"

lemma attempt_counts:
  assumes "attempt_end (attempt_candidates sv ref operation inputs mode bs st) = Some st'"
    and "fallback_count st = length (attempted st)"
  shows "fallback_count st' = length (attempted st')"
  using assms
proof (induction bs arbitrary: st)
  case (Cons c bs)
  show ?case
  proof (cases "invoke c (calls st) operation inputs")
    case (Inl msg)
    then have "attempt_end (attempt_candidates sv ref operation inputs mode bs
        (st\<lparr>calls := calls st + 1, attempted := attempted st @ [reported_name c],
            fallback_count := fallback_count st + 1, last_error := ERROR_EXECUTION_FAILED\<rparr>)) = Some st'"
      using Cons.prems(1) by simp
    from Cons.IH [OF this] Cons.prems(2) show ?thesis by simp
  next
    case (Inr v)
    obtain e st1 where e: "expected_of ref operation inputs (st\<lparr>calls := calls st + 1\<rparr>) = Inr (e, st1)"
      using Cons.prems(1) Inr by (auto split: sum.splits)
    have counts: "fallback_count st1 = length (attempted st1)"
      using expected_of_Inr(2,3) [OF e] Cons.prems(2) by simp
    obtain ok where ok: "validate_output sv mode e v = Inr ok"
      using Cons.prems(1) Inr e by (auto split: sum.splits)
    show ?thesis
    proof (cases ok)
      case True
      then show ?thesis using Cons.prems(1) Inr e ok counts by simp
    next
      case False
      then have "attempt_end (attempt_candidates sv ref operation inputs mode bs
        (st1\<lparr>attempted := attempted st1 @ [reported_name c], fallback_count := fallback_count st1 + 1,
             last_error := ERROR_VALIDATION_FAILED\<rparr>)) = Some st'"
        using Cons.prems(1) Inr e ok by simp
      from Cons.IH [OF this] counts show ?thesis by simp
    qed
  qed
qed simp

lemma attempt_not_aborted:
  assumes "\<And>n. \<exists>v. invoke ref n operation inputs = Inr v" "\<And>e a. \<exists>ok. validate_output sv mode e a = Inr ok"
  shows "attempt_candidates sv ref operation inputs mode bs st \<noteq> Aborted e"
proof (induction bs arbitrary: st)
  case (Cons b bs)
  have "expected_of ref operation inputs st' \<noteq> Inl t" for st' t
    using assms(1) [of "calls st'"] by (auto simp: expected_of_def split: option.splits)
  moreover have "\<And>x a. validate_output sv mode x a \<noteq> Inl t" for t using assms(2) by (metis sum.distinct(1))
  ultimately show ?case using Cons.IH
    by (auto split: sum.splits option.splits bool.splits)
qed simp

text \<open>
  C34: The trust boundary: an output that \<open>execute\<close> returns is the output of the reference backend, or
  the output of a registered candidate that declares the operation and all guarantees of the compute
  contract and whose output passed validation against the expected output of the caller or, without
  one, the output of the reference backend.  The metadata says which, the failed attempts are
  counted, and exactly one record is appended to the history.
\<close>

theorem router_trust_boundary:
  assumes "execute sv r operation inputs expected mode clock = (Inr res, r')"
  shows "r' = r\<lparr>history := history r @ [execution_record r inputs (metadata res)]\<rparr>
    \<and> md_fallback_count (metadata res) = length (md_attempted_backends (metadata res))
    \<and> (if md_fallback_used (metadata res)
       then md_backend (metadata res) = reference_name r \<and> (\<exists>n. invoke (reference r) n operation inputs = Inr (result_output res))
       else \<exists>b c n e. b \<in> set (candidates r) \<and> declared b = Some c \<and> supports c operation \<and> trust_boundary_ok c
         \<and> md_backend (metadata res) = backend_name c \<and> md_version (metadata res) = backend_version c
         \<and> md_validation_status (metadata res) = ''passed''
         \<and> invoke b n operation inputs = Inr (result_output res) \<and> validate_output sv mode e (result_output res) = Inr True
         \<and> (expected = Some e \<or> expected = None \<and> (\<exists>m. invoke (reference r) m operation inputs = Inr e)))"
proof -
  obtain eligible rejected where elig: "eligible_candidates r operation = (eligible, rejected)" by fastforce
  define decision where "decision = router_decide r operation inputs eligible"
  have mode: "mode \<in> set VALIDATION_MODES" using assms by (auto simp: execute_def split: if_splits)
  have fb: ?thesis if "deliver sv r operation inputs (reference r) out True status clock err dec att k = (Inr res, r')"
    "invoke (reference r) n operation inputs = Inr out" "k = length att" for out status err dec att k n
    using deliver_result [OF that(1)] that(2,3) by (auto simp: reference_name_def)
  consider d where "decision = Some d" "deliberate_reference sv r operation inputs clock d = (Inr res, r')"
    | "route_candidates sv r operation inputs expected mode clock decision eligible rejected = (Inr res, r')"
    using assms mode elig by (auto simp: execute_def decision_def [symmetric] split: option.splits if_splits)
  then show ?thesis
  proof cases
    case 1
    then obtain out where out: "invoke (reference r) 0 operation inputs = Inr out"
      by (auto simp: deliberate_reference_def split: sum.splits)
    then have "deliver sv r operation inputs (reference r) out True ''not_required'' clock ERROR_OK (Some d) [] 0 = (Inr res, r')"
      using 1(2) by (simp add: deliberate_reference_def)
    then show ?thesis by (rule fb [OF _ out]) simp
  next
    case 2
    define st0 where "st0 = \<lparr>calls = 0, expected_output = expected, attempted = [], fallback_count = 0,
        last_error = ERROR_NO_CANDIDATE\<rparr>"
    define att where "att = attempt_candidates sv (reference r) operation inputs mode (attempt_order decision eligible) st0"
    have route: "(case att of Aborted e \<Rightarrow> (Inl e, r)
      | Accepted b out st \<Rightarrow>
          deliver sv r operation inputs b out False ''passed'' clock ERROR_OK decision (attempted st) (fallback_count st)
      | Exhausted st \<Rightarrow> fallback sv r operation inputs mode clock decision
            (if attempted st = [] \<and> rejected then st\<lparr>last_error := ERROR_TRUST_BOUNDARY\<rparr> else st)) = (Inr res, r')"
      using 2 by (simp add: route_candidates_def att_def st0_def)
    show ?thesis
    proof (cases att)
      case (Aborted e)
      with route show ?thesis by simp
    next
      case (Accepted b out st)
      then have run: "deliver sv r operation inputs b out False ''passed'' clock ERROR_OK decision (attempted st) (fallback_count st) = (Inr res, r')"
        using route by simp
      have "attempt_end (attempt_candidates sv (reference r) operation inputs mode (attempt_order decision eligible) st0) = Some st"
        using Accepted by (simp add: att_def)
      from attempt_counts [OF this] have count: "fallback_count st = length (attempted st)" by (simp add: st0_def)
      have acc: "b \<in> set (attempt_order decision eligible)" "\<exists>n. invoke b n operation inputs = Inr out"
        "\<exists>e. validate_output sv mode e out = Inr True
          \<and> (expected = Some e \<or> expected = None \<and> (\<exists>m. invoke (reference r) m operation inputs = Inr e))"
        using attempt_accepted [OF Accepted [unfolded att_def]] by (simp_all add: st0_def)
      have "b \<in> {b \<in> set (candidates r). eligible_for operation b}"
        using acc(1) eligible_set [of r operation] by (simp add: attempt_order_set elig)
      then obtain c where "b \<in> set (candidates r)" "declared b = Some c" "supports c operation" "trust_boundary_ok c"
        by (auto simp: eligible_for_def split: option.splits)
      then show ?thesis using deliver_result [OF run] acc(2,3) count
        by (simp add: reported_name_def reported_version_def) blast
    next
      case (Exhausted st)
      define st' where "st' = (if attempted st = [] \<and> rejected then st\<lparr>last_error := ERROR_TRUST_BOUNDARY\<rparr> else st)"
      have run: "fallback sv r operation inputs mode clock decision st' = (Inr res, r')"
        using route Exhausted by (simp add: st'_def)
      have "attempt_end (attempt_candidates sv (reference r) operation inputs mode (attempt_order decision eligible) st0) = Some st"
        using Exhausted by (simp add: att_def)
      from attempt_counts [OF this] have count: "fallback_count st' = length (attempted st')"
        by (simp add: st'_def st0_def)
      obtain out where out: "invoke (reference r) (calls st') operation inputs = Inr out"
        using run by (auto simp: fallback_def split: sum.splits)
      then obtain status where "deliver sv r operation inputs (reference r) out True status clock (last_error st') decision
          (attempted st') (fallback_count st') = (Inr res, r')"
        using run by (auto simp: fallback_def split: sum.splits)
      then show ?thesis by (rule fb [OF _ out count])
    qed
  qed
qed

lemma execute_answers:
  assumes "mode \<in> set VALIDATION_MODES" "\<And>n. \<exists>v. invoke (reference r) n operation inputs = Inr v"
    and "\<And>e a. \<exists>ok. validate_output sv mode e a = Inr ok"
  shows "\<exists>res r'. execute sv r operation inputs expected mode clock = (Inr res, r')"
proof -
  obtain eligible rejected where elig: "eligible_candidates r operation = (eligible, rejected)" by fastforce
  have "\<exists>res r'. deliberate_reference sv r operation inputs clock d = (Inr res, r')" for d
    using assms(2) [of 0] deliver_Inr by (fastforce simp: deliberate_reference_def)
  moreover have fb: "\<exists>res r'. fallback sv r operation inputs mode clock dec st = (Inr res, r')" for dec st
  proof -
    obtain v where v: "invoke (reference r) (calls st) operation inputs = Inr v" using assms(2) by blast
    show ?thesis
    proof (cases "expected_output st")
      case (Some e)
      obtain ok where "validate_output sv mode e v = Inr ok" using assms(3) by blast
      with v Some show ?thesis by (simp add: fallback_def deliver_Inr)
    qed (simp add: fallback_def v deliver_Inr)
  qed
  have "\<exists>res r'. route_candidates sv r operation inputs expected mode clock dec eligible rejected = (Inr res, r')" for dec
  proof (cases "attempt_candidates sv (reference r) operation inputs mode (attempt_order dec eligible)
      \<lparr>calls = 0, expected_output = expected, attempted = [], fallback_count = 0, last_error = ERROR_NO_CANDIDATE\<rparr>")
    case (Aborted e)
    then show ?thesis using attempt_not_aborted [OF assms(2,3)] by blast
  next
    case (Accepted b out st)
    then show ?thesis by (simp add: route_candidates_def deliver_Inr)
  next
    case (Exhausted st)
    then show ?thesis using fb by (simp add: route_candidates_def)
  qed
  ultimately show ?thesis using assms(1) by (auto simp: execute_def elig Let_def split: option.splits)
qed

text \<open>
  The router always answers: as long as the reference backend returns and the comparator does not
  raise, every request in a known validation mode gets a result, whatever the candidates do.
\<close>

lemma router_always_answers:
  assumes "mode \<in> set VALIDATION_MODES" "\<And>n. \<exists>v. invoke (reference r) n operation inputs = Inr v"
    and "\<And>e a. \<exists>ok. validate_output sv mode e a = Inr ok"
  shows "\<exists>res r'. execute sv r operation inputs expected mode clock = (Inr res, r')"
  using assms by (rule execute_answers)

lemma find_Some_mem: "List.find P xs = Some x \<Longrightarrow> x \<in> set xs \<and> P x"
  by (induction xs) (auto split: if_splits)

lemma planned_target_Some:
  assumes "planned_target r name version = Some (b, c)"
  shows "b \<in> set (reference r # candidates r)" "declared b = Some c" "backend_name c = name" "backend_version c = version"
  using find_Some_mem [OF assms [unfolded planned_target_def]]
  by (auto simp: List.map_filter_def split: if_splits)

text \<open>
  Planned execution never substitutes: a result of \<open>execute_planned\<close> is the output of a registered
  backend with exactly the required name and version, which declares the operation and every guarantee
  of the compute contract, and it passed validation when an expected output was given; a refusal leaves
  the router as it was.
\<close>

lemma planned_execution_exact:
  assumes "execute_planned sv r operation inputs name version expected mode clock = (out, r')"
  shows "case out of
      Inl _ \<Rightarrow> r' = r
    | Inr res \<Rightarrow> \<exists>b c. b \<in> set (reference r # candidates r) \<and> declared b = Some c
        \<and> backend_name c = name \<and> backend_version c = version \<and> supports c operation \<and> trust_boundary_ok c
        \<and> invoke b 0 operation inputs = Inr (result_output res) \<and> \<not> md_fallback_used (metadata res)
        \<and> md_backend (metadata res) = name \<and> md_version (metadata res) = version
        \<and> (expected = None \<or> (\<exists>e. expected = Some e \<and> validate_output sv mode e (result_output res) = Inr True))
        \<and> r' = r\<lparr>history := history r @ [execution_record r inputs (metadata res)]\<rparr>"
proof (cases out)
  case (Inl e)
  then show ?thesis using assms
    by (auto simp: execute_planned_def deliver_def Let_def split: if_splits option.splits sum.splits)
next
  case (Inr res)
  then obtain b c where target: "planned_target r name version = Some (b, c)" and caps: "supports c operation" "trust_boundary_ok c"
    using assms by (auto simp: execute_planned_def split: if_splits option.splits prod.splits)
  note b = planned_target_Some [OF target]
  obtain v where v: "invoke b 0 operation inputs = Inr v"
    using assms Inr target caps by (auto simp: execute_planned_def split: if_splits sum.splits)
  obtain status where run: "deliver sv r operation inputs b v False status clock ERROR_OK None [] 0 = (Inr res, r')"
    and ok: "expected = None \<or> (\<exists>e. expected = Some e \<and> validate_output sv mode e v = Inr True)"
    using assms Inr target caps v
    by (auto simp: execute_planned_def split: if_splits option.splits sum.splits)
  show ?thesis
    using deliver_result [OF run] b caps v ok by (auto simp: Inr reported_name_def reported_version_def)
qed

text \<open>
  With a scheduler, a trust violation is not reported: when no candidate is eligible the reference is
  the only schedulable backend, is selected deliberately, and the error code is \<open>ok\<close>.  Without one, the
  same situation is reported as a trust-boundary violation.
\<close>

lemma scheduler_masks_trust_violation:
  assumes "mode \<in> set VALIDATION_MODES" "fst (eligible_candidates r operation) = []" "snd (eligible_candidates r operation)"
    and "\<And>n. invoke (reference r) n operation inputs = Inr v"
  shows "\<exists>res. fst (execute sv (r\<lparr>scheduler := Some s\<rparr>) operation inputs None mode clock) = Inr res
      \<and> md_error_code (metadata res) = ERROR_OK"
    and "\<exists>res. fst (execute sv (r\<lparr>scheduler := None\<rparr>) operation inputs None mode clock) = Inr res
      \<and> md_error_code (metadata res) = ERROR_TRUST_BOUNDARY"
proof -
  have elig: "eligible_candidates (r\<lparr>scheduler := x\<rparr>) operation = ([], True)" for x
    using assms(2,3) by (cases "eligible_candidates r operation") (simp add: eligible_candidates_def)
  have "selected_backend (decide s operation inputs [reference_name r]) = Some (reference_name r)"
    using decide_selects_candidate [of "[reference_name r]" s operation inputs] by simp
  then show "\<exists>res. fst (execute sv (r\<lparr>scheduler := Some s\<rparr>) operation inputs None mode clock) = Inr res
      \<and> md_error_code (metadata res) = ERROR_OK"
    using assms(1,4)
    by (simp add: execute_def elig router_decide_def reference_name_def deliberate_reference_def deliver_def Let_def build_metadata_def)
  show "\<exists>res. fst (execute sv (r\<lparr>scheduler := None\<rparr>) operation inputs None mode clock) = Inr res
      \<and> md_error_code (metadata res) = ERROR_TRUST_BOUNDARY"
    using assms(1,4)
    by (simp add: execute_def elig router_decide_def route_candidates_def attempt_order_def fallback_def deliver_def Let_def build_metadata_def)
qed

text \<open>A router whose first candidate lies, whose second one agrees, and whose third one is not trusted.\<close>

definition sample_backend :: "nat \<Rightarrow> string \<Rightarrow> bool \<Rightarrow> nat \<Rightarrow> (unit, nat) backend" where
  "sample_backend i name trusted v =
     \<lparr>backend_ref = i, class_name = name,
      declared = Some \<lparr>backend_name = name, backend_version = ''1'', supported_operations = [''run_simulation''],
        deterministic = trusted, stateless = True, no_timestamps = True, no_randomness = True, explicit_typing = True\<rparr>,
      operations = [''run_simulation''], call = (\<lambda>_ _ _. Inr v)\<rparr>"

definition sample_router :: "(unit, nat) BackendRouter" where
  "sample_router = BackendRouter_init (sample_backend 0 ''python'' True 7)
     [sample_backend 1 ''fast'' True 8, sample_backend 2 ''cpp'' True 7, sample_backend 3 ''odd'' False 7] None []"

definition sample_services :: "(unit, nat) services" where
  "sample_services = \<lparr>compare = (\<lambda>a b. Inr (a = b)), compare_structural = (\<lambda>a b. Inr (a = b)), is_mapping = (\<lambda>_. False),
     canonical_output = (\<lambda>v. JInt (int v)), canonical_inputs = (\<lambda>_. JNull)\<rparr>"

lemmas sample_router_defs = sample_router_def sample_services_def sample_backend_def BackendRouter_init_def

lemma sample_reference: "\<exists>v. invoke (reference sample_router) n ''run_simulation'' [] = Inr v"
  by (simp add: sample_router_defs invoke_def)

lemma sample_compare: "\<exists>ok. validate_output sample_services ''auto'' e a = Inr ok"
  by (simp add: sample_services_def validate_output_def)

lemma sample_mode: "''auto'' \<in> set VALIDATION_MODES"
  by (simp add: VALIDATION_MODES_def)

theorem router_trust_boundary_witness:
  "\<exists>res r'. execute sample_services sample_router ''run_simulation'' [] None ''auto'' (5, ''t'') = (Inr res, r')
    \<and> length (history r') = 1 \<and> md_fallback_count (metadata res) = length (md_attempted_backends (metadata res))"
proof -
  obtain res r' where run: "execute sample_services sample_router ''run_simulation'' [] None ''auto'' (5, ''t'') = (Inr res, r')"
    using execute_answers [OF sample_mode sample_reference sample_compare] by blast
  from router_trust_boundary [OF run] run show ?thesis
    by (intro exI [of _ res] exI [of _ r']) (simp add: sample_router_def BackendRouter_init_def)
qed

end
