(* ===== verification/Api_Boundary.thy ===== *)
theory Api_Boundary
  imports Access_Control Request_Guards Billing Dataset_Store
begin

text \<open>
  The HTTP boundary of the SaaS service (\<open>saas/api.py\<close>, \<open>saas/api_middleware.py\<close>): the request
  context, the error envelope, the state the handlers share and the guards they call.

  A handler is a function from its inputs and the shared state to a result and a new state.  The
  framework's part (routing, parsing of typed parameters, threads) is not modelled: a handler gets the
  authenticated tenant, its parsed arguments, the clock and fresh identifiers as arguments.
\<close>

section \<open>Request context\<close>

definition MAX_REQUEST_ID_LENGTH :: nat where
  "MAX_REQUEST_ID_LENGTH = 128"

text \<open>\<open>request.state.request_id\<close> and the \<open>X-Correlation-ID\<close> header.\<close>

record request =
  rq_request_id :: string
  rq_correlation :: "string option"

definition safe_char :: "char \<Rightarrow> char" where
  "safe_char c = (let n = of_char c :: nat in if 32 \<le> n \<and> n \<noteq> 127 then c else CHR ''-'')"

definition request_context_id :: "string option \<Rightarrow> uuid \<Rightarrow> string" where
  "request_context_id header new_id =
     (let supplied = py_strip (case header of None \<Rightarrow> [] | Some h \<Rightarrow> h);
          rid = (if supplied \<noteq> [] then take MAX_REQUEST_ID_LENGTH supplied else uuid_str new_id)
      in map safe_char rid)"

section \<open>Errors\<close>

text \<open>What a handler raises: an \<open>HTTPException\<close> with its status and detail, or anything else.\<close>

datatype api_exn = Http nat json | Unhandled exn

definition as_api :: "exn \<Rightarrow> api_exn" where
  "as_api e = (case e of HTTPException n s \<Rightarrow> Http n (JStr s) | _ \<Rightarrow> Unhandled e)"

definition error_codes :: "(nat, string) dict" where
  "error_codes = [(400, ''bad_request''), (401, ''unauthorized''), (402, ''payment_required''), (403, ''forbidden''),
     (404, ''not_found''), (409, ''conflict''), (413, ''payload_too_large''), (422, ''validation_error''),
     (429, ''rate_limited''), (500, ''internal_error''), (503, ''service_unavailable'')]"

definition error_code :: "nat \<Rightarrow> string" where
  "error_code status_code = (case dget error_codes status_code of None \<Rightarrow> ''http_error'' | Some c \<Rightarrow> c)"

definition code_and_message :: "nat \<Rightarrow> json \<Rightarrow> string \<times> string" where
  "code_and_message status_code detail =
     (case (case detail of JObj kvs \<Rightarrow> map_of kvs ''code'' | _ \<Rightarrow> None) of
        Some (JStr c) \<Rightarrow>
          (c, case detail of JObj kvs \<Rightarrow> (case map_of kvs ''message'' of None \<Rightarrow> ''request failed'' | Some m \<Rightarrow> py_str m)
              | _ \<Rightarrow> ''request failed'')
      | _ \<Rightarrow>
          (case detail of
             JStr s \<Rightarrow> (if starts_with ''INVALID_'' s then s else error_code status_code, s)
           | _ \<Rightarrow> (error_code status_code, ''request failed'')))"

definition correlation_id :: "request \<Rightarrow> string" where
  "correlation_id rq =
     (case rq_correlation rq of Some c \<Rightarrow> if c \<noteq> [] then c else rq_request_id rq | None \<Rightarrow> rq_request_id rq)"

definition error_payload :: "request \<Rightarrow> nat \<Rightarrow> json \<Rightarrow> (string, json) dict" where
  "error_payload rq status_code detail =
     (case code_and_message status_code detail of (code, message) \<Rightarrow>
        [(''code'', JStr code), (''message'', JStr message), (''request_id'', JStr (rq_request_id rq)),
         (''correlation_id'', JStr (correlation_id rq))])"

text \<open>\<open>http_exception_handler\<close>, \<open>validation_exception_handler\<close> and \<open>internal_exception_handler\<close>.\<close>

definition http_exception_handler :: "request \<Rightarrow> nat \<Rightarrow> json \<Rightarrow> nat \<times> json" where
  "http_exception_handler rq status_code detail = (status_code, JObj (error_payload rq status_code detail))"

definition validation_exception_handler :: "request \<Rightarrow> nat \<times> json" where
  "validation_exception_handler rq =
     (400, JObj [(''code'', JStr ''validation_error''), (''message'', JStr ''Request validation failed''),
        (''request_id'', JStr (rq_request_id rq)), (''correlation_id'', JStr (correlation_id rq))])"

definition internal_exception_handler :: "request \<Rightarrow> exn \<Rightarrow> nat \<times> json" where
  "internal_exception_handler rq e = (500, JObj (error_payload rq 500 (JStr ''Internal error'')))"

fun answer :: "request \<Rightarrow> nat \<Rightarrow> api_exn + json \<Rightarrow> nat \<times> json" where
  "answer rq ok (Inr body) = (ok, body)"
| "answer rq ok (Inl (Http n detail)) = http_exception_handler rq n detail"
| "answer rq ok (Inl (Unhandled e)) = internal_exception_handler rq e"

section \<open>Shared state\<close>

text \<open>
  The collaborators that \<open>create_app\<close> receives and the model leaves open: the queue, the limiter, the
  entitlement lookup and the tenant persistence.  The job store, the dataset store and the object
  storage are the in-memory ones, its defaults.
\<close>

record ('q, 'l, 'p) api_services =
  svc_enqueue :: "uuid \<Rightarrow> uuid \<Rightarrow> string option \<Rightarrow> 'q \<Rightarrow> (int, 'q) outcome"
  svc_allow :: "string \<Rightarrow> 'l \<Rightarrow> (bool, 'l) outcome"
  svc_entitlement :: "uuid \<Rightarrow> string \<Rightarrow> Entitlement result"
  svc_deleted :: "uuid \<Rightarrow> 'p \<Rightarrow> bool result"

record ('q, 'l, 'p) app =
  app_jobs :: JobStore
  app_datasets :: DatasetStore
  app_objects :: object_storage
  app_queue :: 'q
  app_limiter :: 'l
  app_plan_limiters :: "(Plan, 'l) dict"
  app_persistence :: 'p

type_synonym ('a, 'q, 'l, 'p) handled = "(api_exn + 'a) \<times> ('q, 'l, 'p) app"

section \<open>Guards\<close>

text \<open>The body of a handler decorated with \<open>require_permission\<close>.\<close>

definition permission_denied :: "request \<Rightarrow> Resource \<Rightarrow> Action \<Rightarrow> api_exn" where
  "permission_denied rq r a = Http 403 (JObj [(''code'', JStr ''FORBIDDEN''),
     (''message'', JStr (''permission denied: '' @ Resource_value r @ '':'' @ Action_value a)),
     (''request_id'', JStr (rq_request_id rq))])"

definition guarded ::
  "request \<Rightarrow> TenantContext \<Rightarrow> Resource \<Rightarrow> Action \<Rightarrow> ('s \<Rightarrow> (api_exn + 'a) \<times> 's)
    \<Rightarrow> 's \<Rightarrow> (api_exn + 'a) \<times> 's" where
  "guarded rq tenant r a body s =
     (case check_permission (Some tenant) r a False of
        Inl _ \<Rightarrow> (Inl (permission_denied rq r a), s)
      | Inr _ \<Rightarrow> body s)"

definition require_role :: "TenantContext \<Rightarrow> WorkspaceRole list \<Rightarrow> api_exn + unit" where
  "require_role tenant allowed =
     (if ctx_role tenant \<notin> set allowed then Inl (Http 403 (JStr ''workspace role is not authorized'')) else Inr ())"

definition require_active_workspace ::
  "('q, 'l, 'p) api_services \<Rightarrow> TenantContext \<Rightarrow> ('q, 'l, 'p) app \<Rightarrow> api_exn + unit" where
  "require_active_workspace sv tenant s =
     (case svc_deleted sv (ctx_workspace_id tenant) (app_persistence s) of
        Inl _ \<Rightarrow> Inl (Http 503 (JStr ''workspace lifecycle state unavailable''))
      | Inr deleted \<Rightarrow> if deleted then Inl (Http 410 (JStr ''workspace is deleted'')) else Inr ())"

definition require_rate_limit_principal ::
  "('q, 'l, 'p) api_services \<Rightarrow> string \<Rightarrow> 'l \<Rightarrow> (api_exn + unit) \<times> 'l" where
  "require_rate_limit_principal sv key l =
     (case svc_allow sv key l of
        (Inl _, l') \<Rightarrow> (Inl (Http 503 (JStr ''rate limiting service unavailable'')), l')
      | (Inr allowed, l') \<Rightarrow> (if allowed then Inr () else Inl (Http 429 (JStr ''rate limit exceeded'')), l'))"

definition tenant_principal :: "TenantContext \<Rightarrow> string" where
  "tenant_principal tenant = sha256_hex (utf8_encode (''workspace:'' @ uuid_str (ctx_workspace_id tenant)))"

definition require_rate_limit ::
  "('q, 'l, 'p) api_services \<Rightarrow> TenantContext \<Rightarrow> ('q, 'l, 'p) app \<Rightarrow> (unit, 'q, 'l, 'p) handled" where
  "require_rate_limit sv tenant s =
     (case dget (app_plan_limiters s) (ctx_plan tenant) of
        Some l \<Rightarrow>
          (case require_rate_limit_principal sv (tenant_principal tenant) l of
             (r, l') \<Rightarrow> (r, s\<lparr>app_plan_limiters := dset (ctx_plan tenant) l' (app_plan_limiters s)\<rparr>))
      | None \<Rightarrow>
          (case require_rate_limit_principal sv (tenant_principal tenant) (app_limiter s) of
             (r, l') \<Rightarrow> (r, s\<lparr>app_limiter := l'\<rparr>)))"

definition request_fingerprint :: "json \<Rightarrow> string" where
  "request_fingerprint payload = json_sha256 fmt_ascii payload"

text \<open>\<open>_validate_dataset_name\<close>.\<close>

definition validate_dataset_name :: "string \<Rightarrow> api_exn + string" where
  "validate_dataset_name nm =
     (let normalized = py_strip nm in
      if normalized = [] \<or> CHR ''/'' \<in> set normalized \<or> CHR 0x5C \<in> set normalized \<or> py_in ''..'' normalized
      then Inl (Http 400 (JStr ''INVALID_PATH'')) else Inr normalized)"

text \<open>The \<open>except PaginationParameterError\<close> of the list endpoints.\<close>

definition pagination_http :: "exn \<Rightarrow> api_exn" where
  "pagination_http e =
     (case e of
        ValueError s \<Rightarrow>
          let code = takeWhile (\<lambda>c. c \<noteq> CHR '':'') s
          in Http 400 (JObj [(''code'', JStr code), (''message'', JStr (drop (length code + 2) s))])
      | _ \<Rightarrow> as_api e)"

section \<open>What the guards leave alone\<close>

text \<open>Everything but the limiters.\<close>

definition stores_of :: "('q, 'l, 'p) app \<Rightarrow> JobStore \<times> DatasetStore \<times> object_storage \<times> 'q \<times> 'p" where
  "stores_of s = (app_jobs s, app_datasets s, app_objects s, app_queue s, app_persistence s)"

lemma require_rate_limit_stores [simp]: "stores_of (snd (require_rate_limit sv tenant s)) = stores_of s"
  by (auto simp: require_rate_limit_def stores_of_def split: option.split prod.split)

lemma require_rate_limit_cases:
  obtains e s' where "require_rate_limit sv tenant s = (Inl e, s')" "stores_of s' = stores_of s"
  | s' where "require_rate_limit sv tenant s = (Inr (), s')" "stores_of s' = stores_of s"
proof -
  obtain r s' where r: "require_rate_limit sv tenant s = (r, s')" by (metis prod.exhaust)
  moreover have "stores_of s' = stores_of s" using require_rate_limit_stores [of sv tenant s] r by simp
  ultimately show ?thesis using that by (cases r) auto
qed

lemma guarded_cases:
  obtains (denied) "guarded rq tenant r a body s = (Inl (permission_denied rq r a), s)"
      "a \<notin> may (role_from_tenant (ctx_role tenant)) r"
  | (granted) "guarded rq tenant r a body s = body s" "a \<in> may (role_from_tenant (ctx_role tenant)) r"
  using that by (cases "a \<in> may (role_from_tenant (ctx_role tenant)) r")
    (simp_all add: guarded_def check_permission_def is_allowed_members)

text \<open>
  Request identifiers are bounded, never empty and free of control characters, whatever header the
  client sends.
\<close>

lemma safe_char_printable: "32 \<le> (of_char (safe_char c) :: nat) \<and> (of_char (safe_char c) :: nat) \<noteq> 127"
  by (simp add: safe_char_def Let_def)

lemma request_id_bounded:
  "length (request_context_id header new_id) \<le> 128 \<and> request_context_id header new_id \<noteq> []
   \<and> (\<forall>c \<in> set (request_context_id header new_id). 32 \<le> (of_char c :: nat) \<and> (of_char c :: nat) \<noteq> 127)"
proof -
  have "uuid_str new_id \<noteq> []" by (metis list.size(3) uuid_str_length zero_neq_numeral)
  then show ?thesis
    by (auto simp: request_context_id_def Let_def MAX_REQUEST_ID_LENGTH_def safe_char_printable)
qed

text \<open>
  The two identifiers of an error differ when the client sends its own correlation header.
\<close>

lemma correlation_differs:
  "\<exists>rq :: request. error_payload rq 404 (JStr ''x'') =
     [(''code'', JStr ''not_found''), (''message'', JStr ''x''), (''request_id'', JStr ''a''), (''correlation_id'', JStr ''b'')]"
  by (rule exI [of _ "\<lparr>rq_request_id = ''a'', rq_correlation = Some ''b''\<rparr>"])
    (simp add: error_payload_def code_and_message_def starts_with_def error_code_def error_codes_def correlation_id_def)

end
