(* ===== verification/Api_Datasets.thy ===== *)
theory Api_Datasets
  imports Api_Boundary
begin

text \<open>
  The dataset endpoints of \<open>saas/api.py\<close>: uploads with their clean-up on failure, further versions,
  listings and download links, over the in-memory dataset store and object storage.
\<close>

section \<open>Uploads\<close>

text \<open>The file is its bytes; \<open>file.read(1024 * 1024)\<close> yields them in chunks.\<close>

definition read_chunks :: "char list \<Rightarrow> char list list" where
  "read_chunks content = sha_chunks 1048576 content"

fun plan_value :: "Plan \<Rightarrow> string" where
  "plan_value Plan_FREE = ''free''"
| "plan_value Plan_PRO = ''pro''"
| "plan_value Plan_TEAM = ''team''"
| "plan_value Plan_ENTERPRISE = ''enterprise''"

text \<open>The digest and size of an upload within the plan's limit.\<close>

definition measured_upload :: "Plan \<Rightarrow> char list \<Rightarrow> (string \<times> int) result" where
  "measured_upload plan content =
     (let policy = DEFAULT_USAGE_POLICIES plan in
      case stream_sha256 (read_chunks content) (max_dataset_bytes policy) of
        Inl e \<Rightarrow> Inl e
      | Inr (digest, sz) \<Rightarrow>
          if \<not> allows_dataset policy sz then Inl (ValueError ''dataset exceeds plan upload limit'')
          else Inr (digest, sz))"

text \<open>\<open>if not storage.exists(path): storage.put(path, file)\<close>, with the flag \<open>object_created\<close>.\<close>

definition ensure_object :: "string \<Rightarrow> char list \<Rightarrow> object_storage \<Rightarrow> (bool, object_storage) outcome" where
  "ensure_object path content o' =
     (if dget o' path \<noteq> None then (Inr False, o')
      else case storage_put path content o' of
             (Inl e, o'') \<Rightarrow> (Inl e, o'')
           | (Inr _, o'') \<Rightarrow> (Inr True, o''))"

definition discard_object :: "bool \<Rightarrow> string \<Rightarrow> object_storage \<Rightarrow> (unit, object_storage) outcome" where
  "discard_object created path o' = (if created then storage_remove path None o' else (Inr (), o'))"

definition persist_version_try ::
  "TenantContext \<Rightarrow> uuid \<Rightarrow> char list \<Rightarrow> uuid \<Rightarrow> ('q, 'l, 'p) app \<Rightarrow> DatasetVersion result \<times> ('q, 'l, 'p) app" where
  "persist_version_try tenant did content new_id s =
     (let ws = ctx_workspace_id tenant in
      case measured_upload (ctx_plan tenant) content of
        Inl e \<Rightarrow> (Inl e, s)
      | Inr (digest, sz) \<Rightarrow>
     (let existing = list_versions ws did (app_datasets s) in
      case find (\<lambda>v. ver_sha256 v = digest) existing of
        Some duplicate \<Rightarrow> (Inr duplicate, s)
      | None \<Rightarrow>
     (let next_version = (case map ver_no existing of [] \<Rightarrow> 0 | n # ns \<Rightarrow> foldl max n ns) + 1 in
      case storage_path_for ws digest next_version of
        Inl e \<Rightarrow> (Inl e, s)
      | Inr path \<Rightarrow>
     (case ensure_object path content (app_objects s) of
        (Inl e, o') \<Rightarrow> (Inl e, s\<lparr>app_objects := o'\<rparr>)
      | (Inr created, o') \<Rightarrow>
     (case create_version ws
             \<lparr>ver_id = new_id, ver_dataset_id = did, ver_no = next_version, ver_sha256 = digest,
              ver_storage_path = path, ver_byte_size = sz, ver_created_by = ctx_user_id tenant, ver_feeds = []\<rparr>
             (app_datasets s) of
        (Inr v, ds) \<Rightarrow> (Inr v, s\<lparr>app_objects := o', app_datasets := ds\<rparr>)
      | (Inl e, ds) \<Rightarrow>
          (case discard_object created path o' of
             (Inl e', o'') \<Rightarrow> (Inl e', s\<lparr>app_objects := o'', app_datasets := ds\<rparr>)
           | (Inr _, o'') \<Rightarrow> (Inl e, s\<lparr>app_objects := o'', app_datasets := ds\<rparr>)))))))"

definition version_http :: "exn \<Rightarrow> api_exn" where
  "version_http e =
     (case e of
        PermissionError _ \<Rightarrow> Http 403 (JStr ''tenant storage authorization failed'')
      | ValueError m \<Rightarrow> Http 413 (JStr m)
      | HTTPException n m \<Rightarrow> Http n (JStr m)
      | _ \<Rightarrow> Unhandled (RuntimeError ''dataset version persistence failed''))"

definition persist_version ::
  "TenantContext \<Rightarrow> uuid \<Rightarrow> char list \<Rightarrow> uuid \<Rightarrow> ('q, 'l, 'p) app \<Rightarrow> (DatasetVersion, 'q, 'l, 'p) handled" where
  "persist_version tenant did content new_id s =
     (case persist_version_try tenant did content new_id s of
        (Inl e, s') \<Rightarrow> (Inl (version_http e), s')
      | (Inr v, s') \<Rightarrow> (Inr v, s'))"

definition upload_dataset_version ::
  "request \<Rightarrow> TenantContext \<Rightarrow> uuid \<Rightarrow> char list \<Rightarrow> uuid \<Rightarrow> ('q, 'l, 'p) app
    \<Rightarrow> (DatasetVersion, 'q, 'l, 'p) handled" where
  "upload_dataset_version rq tenant did content new_id =
     guarded rq tenant Res_DATASET_VERSION Act_CREATE (\<lambda>s.
       if get_dataset (ctx_workspace_id tenant) did (app_datasets s) = None
       then (Inl (Http 404 (JStr ''dataset not found'')), s)
       else persist_version tenant did content new_id s)"

section \<open>New datasets\<close>

text \<open>The dataset and its first version; a failure of either removes what was written before it.\<close>

definition register_dataset ::
  "uuid \<Rightarrow> Dataset \<Rightarrow> DatasetVersion \<Rightarrow> bool \<Rightarrow> DatasetStore \<times> object_storage
    \<Rightarrow> (Dataset \<times> DatasetVersion) result \<times> DatasetStore \<times> object_storage" where
  "register_dataset ws d v created = (\<lambda>(ds, o').
     let (r, ds1) = (case create_dataset ws d ds of
           (Inl e, ds1) \<Rightarrow> (Inl e, ds1)
         | (Inr d', ds1) \<Rightarrow>
             (case create_version ws v ds1 of
                (Inl e, ds2) \<Rightarrow> (Inl e, ds2)
              | (Inr v', ds2) \<Rightarrow> (Inr (d', v'), ds2)))
     in case r of
          Inr dv \<Rightarrow> (Inr dv, ds1, o')
        | Inl e \<Rightarrow>
            (case delete_dataset ws (dset_id d) ds1 of
               (deleted, ds2) \<Rightarrow>
                 (case discard_object created (ver_storage_path v) o' of
                    (Inl e'', o'') \<Rightarrow> (Inl e'', ds2, o'')
                  | (Inr _, o'') \<Rightarrow>
                      (case deleted of Inl e' \<Rightarrow> (Inl e', ds2, o'') | Inr _ \<Rightarrow> (Inl e, ds2, o'')))))"

definition upload_try ::
  "TenantContext \<Rightarrow> Dataset \<Rightarrow> char list \<Rightarrow> uuid \<Rightarrow> ('q, 'l, 'p) app
    \<Rightarrow> (Dataset \<times> DatasetVersion) result \<times> ('q, 'l, 'p) app" where
  "upload_try tenant d content new_id s =
     (let ws = ctx_workspace_id tenant in
      case measured_upload (ctx_plan tenant) content of
        Inl e \<Rightarrow> (Inl e, s)
      | Inr (digest, sz) \<Rightarrow>
     (case storage_path_for ws digest 1 of
        Inl e \<Rightarrow> (Inl e, s)
      | Inr path \<Rightarrow>
     (case ensure_object path content (app_objects s) of
        (Inl e, o') \<Rightarrow> (Inl e, s\<lparr>app_objects := o'\<rparr>)
      | (Inr created, o') \<Rightarrow>
     (case register_dataset ws d
             \<lparr>ver_id = new_id, ver_dataset_id = dset_id d, ver_no = 1, ver_sha256 = digest,
              ver_storage_path = path, ver_byte_size = sz, ver_created_by = ctx_user_id tenant, ver_feeds = []\<rparr>
             created (app_datasets s, o') of
        (r, ds, o'') \<Rightarrow> (r, s\<lparr>app_objects := o'', app_datasets := ds\<rparr>)))))"

definition upload_http :: "exn \<Rightarrow> api_exn" where
  "upload_http e =
     (case e of
        ValueError m \<Rightarrow> Http 413 (JStr m)
      | _ \<Rightarrow> Unhandled (RuntimeError ''dataset persistence failed''))"

definition entitlement_exceeded :: "string \<Rightarrow> api_exn" where
  "entitlement_exceeded message = Http 402 (JObj [(''code'', JStr ''ENTITLEMENT_EXCEEDED''), (''message'', JStr message),
     (''upgrade_url'', JStr ''https://qros.ai/upgrade'')])"

record DatasetResponse =
  dr_dataset :: Dataset
  dr_version :: "DatasetVersion option"

definition upload_dataset ::
  "('q, 'l, 'p) api_services \<Rightarrow> request \<Rightarrow> TenantContext \<Rightarrow> string \<Rightarrow> char list \<Rightarrow> timestamp \<Rightarrow> uuid \<Rightarrow> uuid
    \<Rightarrow> ('q, 'l, 'p) app \<Rightarrow> (DatasetResponse, 'q, 'l, 'p) handled" where
  "upload_dataset sv rq tenant nm content now new_dataset new_version =
     guarded rq tenant Res_DATASET Act_CREATE (\<lambda>s.
       case validate_dataset_name nm of
         Inl e \<Rightarrow> (Inl e, s)
       | Inr nm' \<Rightarrow>
      (let ws = ctx_workspace_id tenant;
           d = \<lparr>dset_id = new_dataset, dset_workspace_id = ws, dset_name = nm', dset_created_by = ctx_user_id tenant,
                dset_created_at = now\<rparr>
       in case svc_entitlement sv ws (plan_value (ctx_plan tenant)) of
         Inl _ \<Rightarrow> (Inl (Http 503 (JStr ''entitlement service unavailable'')), s)
       | Inr ent \<Rightarrow>
           if max_datasets ent > 0 \<and> count_datasets ws (app_datasets s) \<ge> max_datasets ent
           then (Inl (entitlement_exceeded ''dataset entitlement exceeded''), s)
           else
             (case upload_try tenant d content new_version s of
                (Inl e, s') \<Rightarrow> (Inl (upload_http e), s')
              | (Inr (d', v), s') \<Rightarrow> (Inr \<lparr>dr_dataset = d', dr_version = Some v\<rparr>, s'))))"

section \<open>Listings and links\<close>

text \<open>The \<open>filter[...]\<close> parameters of a query, without the brackets.\<close>

definition filter_names :: "string list \<Rightarrow> string list" where
  "filter_names params = remdups (map (\<lambda>k.
     let k' = drop (length ''filter['') k in if k' \<noteq> [] \<and> last k' = CHR '']'' then butlast k' else k')
     (filter (starts_with ''filter['') params))"

definition list_datasets_rows ::
  "TenantContext \<Rightarrow> string list \<Rightarrow> string \<Rightarrow> string \<Rightarrow> string \<Rightarrow> string \<Rightarrow> string option \<Rightarrow> string option \<Rightarrow> DatasetStore
    \<Rightarrow> api_exn + ListQuery \<times> Dataset list \<times> int" where
  "list_datasets_rows tenant params page page_size sort_by sort_order nm tenant_filter ds =
     (let ws = ctx_workspace_id tenant in
      case validate_filter_keys (filter_names params) {''tenant_id''} of
        Inl e \<Rightarrow> Inl (pagination_http e)
      | Inr _ \<Rightarrow>
     (case parse_list_query page page_size sort_by sort_order None tenant_filter {''created_at'', ''name''} of
        Inl e \<Rightarrow> Inl (pagination_http e)
      | Inr q \<Rightarrow>
          if (case nm of None \<Rightarrow> False | Some n \<Rightarrow> \<not> (1 \<le> length (py_strip n) \<and> length (py_strip n) \<le> 256))
          then Inl (pagination_http (PaginationParameterError ''name filter must be between 1 and 256 characters'' ''INVALID_PAGINATION''))
          else if tenant_filter \<noteq> None \<and> tenant_filter \<noteq> Some (uuid_str ws) then Inr (q, [], 0)
          else (case list_datasets ws (lq_page_size q) (lq_offset q) nm (lq_sort_by q) (lq_sort_order q) ds of
                  Inl e \<Rightarrow> Inl (as_api e)
                | Inr (found, total_rows) \<Rightarrow> Inr (q, found, total_rows))))"

definition latest_version :: "uuid \<Rightarrow> uuid \<Rightarrow> DatasetStore \<Rightarrow> DatasetVersion option" where
  "latest_version ws did ds =
     (case sort_key ver_no (list_versions ws did ds) of [] \<Rightarrow> None | v # vs \<Rightarrow> Some (last (v # vs)))"

definition list_datasets_page ::
  "('q, 'l, 'p) api_services \<Rightarrow> request \<Rightarrow> TenantContext \<Rightarrow> string list \<Rightarrow> string \<Rightarrow> string \<Rightarrow> string \<Rightarrow> string
    \<Rightarrow> string option \<Rightarrow> string option \<Rightarrow> ('q, 'l, 'p) app \<Rightarrow> (DatasetResponse page_envelope, 'q, 'l, 'p) handled" where
  "list_datasets_page sv rq tenant params page page_size sort_by sort_order nm tenant_filter =
     guarded rq tenant Res_DATASET Act_LIST (\<lambda>s.
       case require_active_workspace sv tenant s of
         Inl e \<Rightarrow> (Inl e, s)
       | Inr _ \<Rightarrow>
      (case list_datasets_rows tenant params page page_size sort_by sort_order nm tenant_filter (app_datasets s) of
         Inl e \<Rightarrow> (Inl e, s)
       | Inr (q, found, total_rows) \<Rightarrow>
      (case pagination_envelope
              (map (\<lambda>d. \<lparr>dr_dataset = d, dr_version = latest_version (ctx_workspace_id tenant) (dset_id d) (app_datasets s)\<rparr>) found)
              (lq_page q) (lq_page_size q) total_rows (Some (rq_request_id rq)) of
         Inl e \<Rightarrow> (Inl (as_api e), s)
       | Inr env \<Rightarrow> (Inr env, s))))"

text \<open>\<open>getattr(version, field)\<close> for the fields that can be sorted by, in one ordered type.\<close>

definition version_field :: "DatasetVersion \<Rightarrow> string \<Rightarrow> (int \<times> string) option" where
  "version_field v field =
     (if field = ''version_no'' then Some (ver_no v, [])
      else if field = ''content_sha256'' then Some (0, ver_sha256 v)
      else if field = ''byte_size'' then Some (ver_byte_size v, []) else None)"

definition list_dataset_versions ::
  "request \<Rightarrow> TenantContext \<Rightarrow> uuid \<Rightarrow> int \<Rightarrow> int \<Rightarrow> string \<Rightarrow> string \<Rightarrow> string option \<Rightarrow> uuid option
    \<Rightarrow> ('q, 'l, 'p) app \<Rightarrow> (DatasetVersion page_envelope, 'q, 'l, 'p) handled" where
  "list_dataset_versions rq tenant did page page_size sort_by sort_order filter_status filter_tenant =
     guarded rq tenant Res_DATASET_VERSION Act_LIST (\<lambda>s.
       if page < 1 \<or> page_size < 1 \<or> page_size > 100 then (Inl (Http 400 (JStr ''INVALID_PAGINATION'')), s)
       else case validate_filter_tenant_id filter_tenant (ctx_workspace_id tenant) of
         Inl e \<Rightarrow> (Inl (as_api e), s)
       | Inr _ \<Rightarrow>
           if filter_status \<noteq> None then (Inl (Http 400 (JStr ''INVALID_FILTER'')), s)
           else if sort_order \<notin> {''asc'', ''desc''} then (Inl (Http 400 (JStr ''INVALID_SORT'')), s)
           else
             let items = list_versions (ctx_workspace_id tenant) did (app_datasets s) in
             if sort_by \<notin> {''version_no'', ''content_sha256'', ''byte_size''}
             then (Inl (Http 400 (JStr ''INVALID_SORT'')), s)
             else (case paginate version_field items page page_size sort_by sort_order (Some (rq_request_id rq)) of
                     Inl e \<Rightarrow> (Inl (as_api e), s)
                   | Inr env \<Rightarrow> (Inr env, s)))"

definition create_dataset_download_url ::
  "request \<Rightarrow> TenantContext \<Rightarrow> uuid \<Rightarrow> uuid \<Rightarrow> ('q, 'l, 'p) app \<Rightarrow> (string, 'q, 'l, 'p) handled" where
  "create_dataset_download_url rq tenant did vid =
     guarded rq tenant Res_DATASET_VERSION Act_READ (\<lambda>s.
       case get_version (ctx_workspace_id tenant) vid (app_datasets s) of
         None \<Rightarrow> (Inl (Http 404 (JStr ''dataset version not found'')), s)
       | Some v \<Rightarrow>
           if ver_dataset_id v \<noteq> did then (Inl (Http 404 (JStr ''dataset version not found'')), s)
           else (case create_signed_download_url (ver_storage_path v) 3600 None (app_objects s) of
                   Inr url \<Rightarrow> (Inr url, s)
                 | Inl (FileNotFoundError _) \<Rightarrow> (Inl (Http 404 (JStr ''dataset object not found'')), s)
                 | Inl (ValueError m) \<Rightarrow> (Inl (Http 400 (JStr m)), s)
                 | Inl _ \<Rightarrow> (Inl (Http 503 (JStr ''dataset download service unavailable'')), s)))"

section \<open>The upload limit\<close>

lemma read_chunks_body: "concat (takeWhile (\<lambda>c. c \<noteq> []) (read_chunks content)) = content"
proof -
  have "concat (takeWhile (\<lambda>c. c \<noteq> []) (sha_chunks k xs)) = xs" if "0 < k" for k :: nat and xs :: "char list"
    using that
  proof (induction k xs rule: sha_chunks.induct)
    case (1 k xs)
    then show ?case by (subst sha_chunks.simps) auto
  qed
  then show ?thesis by (simp add: read_chunks_def)
qed

lemma upload_limit_nonneg: "0 \<le> max_dataset_bytes (DEFAULT_USAGE_POLICIES plan)"
  by (cases plan) simp_all

lemma measured_upload_spec:
  "measured_upload plan content =
     (if content \<noteq> [] \<and> int (length content) > max_dataset_bytes (DEFAULT_USAGE_POLICIES plan)
      then Inl (ValueError ''dataset exceeds plan upload limit'')
      else Inr (sha256_hex content, int (length content)))"
  using upload_limit_nonneg [of plan]
  by (auto simp: measured_upload_def stream_sha256_spec read_chunks_body allows_dataset_def Let_def)

lemma measured_upload_Inr: "measured_upload plan content = Inr (digest, sz) \<Longrightarrow> digest = sha256_hex content \<and> sz = int (length content)"
  by (simp add: measured_upload_spec split: if_splits)

lemma canonical_path: "1 \<le> n \<Longrightarrow> \<exists>p. storage_path_for ws (sha256_hex content) n = Inr p"
  using sha256_hex_shape [of content] by (auto simp: storage_path_for_def)

section \<open>Clean-up\<close>

lemma dpop_dset_fresh: "dget d k = None \<Longrightarrow> dpop k (dset k v d) = d"
proof (induction d)
  case (Cons x d)
  then have "fst x \<noteq> k" "dget d k = None" by (auto split: if_splits)
  then show ?case using Cons.IH delete_id [of k d] by (cases x) (auto simp: dom_map_of_conv_image_fst)
qed simp

lemma create_version_error: "create_version ws v s = (Inl e, t) \<Longrightarrow> t = s"
  by (auto simp: create_version_def split: sum.splits option.splits if_splits)

lemma create_version_added:
  assumes "create_version ws v s = (Inr v', t)"
  shows "v' = v" "t = s\<lparr>versions := dset (ver_id v) v (versions s)\<rparr>" "dget (versions s) (ver_id v) = None"
    "get_dataset ws (ver_dataset_id v) s \<noteq> None"
    "storage_path_for ws (ver_sha256 v) (ver_no v) = Inr (ver_storage_path v)"
  using assms by (auto simp: create_version_def split: sum.splits option.splits if_splits)

lemma create_dataset_error: "create_dataset ws d s = (Inl e, t) \<Longrightarrow> t = s"
  by (auto simp: create_dataset_def split: if_splits)

lemma create_dataset_added:
  assumes "create_dataset ws d s = (Inr d', t)"
  shows "d' = d" "t = s\<lparr>datasets := dset (dset_id d) d (datasets s)\<rparr>" "dget (datasets s) (dset_id d) = None"
    "dset_workspace_id d = ws"
  using assms by (auto simp: create_dataset_def split: if_splits)

lemma ensure_object_ok: "\<exists>created. ensure_object path content o' = (Inr created, if created then dset path content o' else o')
    \<and> (created \<longleftrightarrow> dget o' path = None)"
  by (auto simp: ensure_object_def storage_put_def)

lemma discard_object_ok: "discard_object created path o' = (Inr (), if created then dpop path o' else o')"
  by (simp add: discard_object_def storage_remove_def outside_tenant_def)

lemma delete_restores:
  assumes "dget (datasets s) (dset_id d) = None" "dset_workspace_id d = ws" "\<forall>v \<in> set (dvalues (versions s)). ver_dataset_id v \<noteq> dset_id d"
  shows "delete_dataset ws (dset_id d) (s\<lparr>datasets := dset (dset_id d) d (datasets s)\<rparr>) = (Inr (), s)"
  using assms by (auto simp: delete_dataset_def get_dataset_def list_ex_iff dpop_dset_fresh)

text \<open>A fresh dataset identifier: not in use, and no version refers to it.\<close>

definition fresh_dataset :: "uuid \<Rightarrow> DatasetStore \<Rightarrow> bool" where
  "fresh_dataset did s \<longleftrightarrow> dget (datasets s) did = None"

lemma fresh_no_versions: "dataset_inv s \<Longrightarrow> fresh_dataset did s \<Longrightarrow> \<forall>v \<in> set (dvalues (versions s)). ver_dataset_id v \<noteq> did"
  unfolding dataset_inv_def version_ok_def fresh_dataset_def by (metis dvalues_iff option.distinct(1))

lemma register_dataset_fresh:
  assumes "dataset_inv ds" "fresh_dataset (dset_id d) ds" "dset_workspace_id d = ws"
    and "storage_path_for ws (ver_sha256 v) (ver_no v) = Inr (ver_storage_path v)" "ver_dataset_id v = dset_id d"
  shows "register_dataset ws d v created (ds, o') =
     (if dget (versions ds) (ver_id v) = None
      then (Inr (d, v), ds\<lparr>datasets := dset (dset_id d) d (datasets ds), versions := dset (ver_id v) v (versions ds)\<rparr>, o')
      else (Inl (ValueError ''dataset version already exists''), ds, if created then dpop (ver_storage_path v) o' else o'))"
proof -
  note nov = fresh_no_versions [OF assms(1,2)]
  have new: "create_dataset ws d ds = (Inr d, ds\<lparr>datasets := dset (dset_id d) d (datasets ds)\<rparr>)"
    using assms(2,3) by (simp add: create_dataset_def fresh_dataset_def)
  let ?ds = "ds\<lparr>datasets := dset (dset_id d) d (datasets ds)\<rparr>"
  have ver: "create_version ws v ?ds =
      (if dget (versions ds) (ver_id v) = None then (Inr v, ?ds\<lparr>versions := dset (ver_id v) v (versions ds)\<rparr>)
       else (Inl (ValueError ''dataset version already exists''), ?ds))"
    using nov assms(3-5) by (auto simp: create_version_def get_dataset_def list_ex_iff)
  have "delete_dataset ws (dset_id d) ?ds = (Inr (), ds)"
    by (rule delete_restores) (use assms(2,3) nov in \<open>simp_all add: fresh_dataset_def\<close>)
  then show ?thesis by (simp add: register_dataset_def new ver discard_object_ok)
qed

text \<open>
  What an upload does when the new dataset identifier is fresh: it stores the dataset, its first
  version and, unless it is already there, the object; or it changes nothing.
\<close>

lemma upload_try_outcome:
  fixes s :: "('q, 'l, 'p) app"
  assumes "dataset_inv (app_datasets s)" "fresh_dataset (dset_id d) (app_datasets s)" "dset_workspace_id d = ctx_workspace_id tenant"
    and "upload_try tenant d content new_id s = (r, s')"
  shows "case r of
      Inl e \<Rightarrow> s' = s
    | Inr (d', v) \<Rightarrow> d' = d \<and> ver_id v = new_id \<and> ver_dataset_id v = dset_id d \<and> ver_no v = 1
        \<and> ver_sha256 v = sha256_hex content \<and> ver_byte_size v = int (length content)
        \<and> storage_path_for (ctx_workspace_id tenant) (sha256_hex content) 1 = Inr (ver_storage_path v)
        \<and> dget (versions (app_datasets s)) new_id = None
        \<and> s' = s\<lparr>app_datasets := (app_datasets s)\<lparr>datasets := dset (dset_id d) d (datasets (app_datasets s)),
                    versions := dset new_id v (versions (app_datasets s))\<rparr>,
                  app_objects := if dget (app_objects s) (ver_storage_path v) = None
                                 then dset (ver_storage_path v) content (app_objects s) else app_objects s\<rparr>"
proof (cases "measured_upload (ctx_plan tenant) content")
  case (Inl e)
  then show ?thesis using assms(4) by (auto simp: upload_try_def)
next
  case (Inr m)
  then have m: "measured_upload (ctx_plan tenant) content = Inr (sha256_hex content, int (length content))"
    using measured_upload_Inr by (cases m) blast
  obtain path where path: "storage_path_for (ctx_workspace_id tenant) (sha256_hex content) 1 = Inr path"
    using canonical_path [of 1 "ctx_workspace_id tenant" content] by auto
  obtain created where obj: "ensure_object path content (app_objects s)
      = (Inr created, if created then dset path content (app_objects s) else app_objects s)"
    and created: "created \<longleftrightarrow> dget (app_objects s) path = None"
    using ensure_object_ok [of path content "app_objects s"] by blast
  let ?v = "\<lparr>ver_id = new_id, ver_dataset_id = dset_id d, ver_no = 1, ver_sha256 = sha256_hex content,
              ver_storage_path = path, ver_byte_size = int (length content), ver_created_by = ctx_user_id tenant, ver_feeds = []\<rparr>"
  have reg: "register_dataset (ctx_workspace_id tenant) d ?v c (app_datasets s, o') =
     (if dget (versions (app_datasets s)) new_id = None
      then (Inr (d, ?v), (app_datasets s)\<lparr>datasets := dset (dset_id d) d (datasets (app_datasets s)),
             versions := dset new_id ?v (versions (app_datasets s))\<rparr>, o')
      else (Inl (ValueError ''dataset version already exists''), app_datasets s, if c then dpop path o' else o'))" for c o'
    using register_dataset_fresh [OF assms(1-3), of ?v c o'] path by simp
  show ?thesis
    using assms(4) created
    by (auto simp: upload_try_def Let_def m path obj reg dpop_dset_fresh split: if_splits)
qed

text \<open>Likewise for a further version of an existing dataset.\<close>

lemma persist_version_outcome:
  assumes "persist_version_try tenant did content new_id s = (r, s')"
  shows "(s' = s \<and> (case r of Inl e \<Rightarrow> True | Inr v \<Rightarrow> ver_sha256 v = sha256_hex content
        \<and> v \<in> set (list_versions (ctx_workspace_id tenant) did (app_datasets s))))
    \<or> (\<exists>v. r = Inr v \<and> ver_id v = new_id \<and> ver_dataset_id v = did \<and> ver_sha256 v = sha256_hex content
        \<and> ver_byte_size v = int (length content)
        \<and> (\<forall>v' \<in> set (list_versions (ctx_workspace_id tenant) did (app_datasets s)). ver_no v' < ver_no v)
        \<and> create_version (ctx_workspace_id tenant) v (app_datasets s) = (Inr v, app_datasets s')
        \<and> s' = s\<lparr>app_datasets := app_datasets s', app_objects := if dget (app_objects s) (ver_storage_path v) = None
                   then dset (ver_storage_path v) content (app_objects s) else app_objects s\<rparr>)"
proof (cases "measured_upload (ctx_plan tenant) content")
  case (Inl e)
  then show ?thesis using assms by (auto simp: persist_version_try_def)
next
  case (Inr m)
  then have m: "measured_upload (ctx_plan tenant) content = Inr (sha256_hex content, int (length content))"
    using measured_upload_Inr by (cases m) blast
  define existing where "existing = list_versions (ctx_workspace_id tenant) did (app_datasets s)"
  show ?thesis
  proof (cases "find (\<lambda>v. ver_sha256 v = sha256_hex content) existing")
    case (Some v)
    then have "ver_sha256 v = sha256_hex content" "v \<in> set existing"
      by (auto simp: find_Some_iff)
    then show ?thesis using assms Some by (auto simp: persist_version_try_def Let_def m existing_def)
  next
    case None
    define n where "n = (case map ver_no existing of [] \<Rightarrow> 0 | k # ns \<Rightarrow> foldl max k ns) + 1"
    have larger: "\<forall>v \<in> set existing. ver_no v < n"
    proof (cases existing)
      case (Cons v vs)
      then show ?thesis using foldl_max_ge [of _ "ver_no v" "map ver_no vs"] by (force simp: n_def)
    qed simp
    show ?thesis
    proof (cases "storage_path_for (ctx_workspace_id tenant) (sha256_hex content) n")
      case (Inl e)
      then show ?thesis using assms None by (auto simp: persist_version_try_def Let_def m existing_def [symmetric] n_def [symmetric])
    next
      case (Inr path)
      obtain created where obj: "ensure_object path content (app_objects s)
          = (Inr created, if created then dset path content (app_objects s) else app_objects s)"
        and created: "created \<longleftrightarrow> dget (app_objects s) path = None"
        using ensure_object_ok [of path content "app_objects s"] by blast
      let ?v = "\<lparr>ver_id = new_id, ver_dataset_id = did, ver_no = n, ver_sha256 = sha256_hex content,
              ver_storage_path = path, ver_byte_size = int (length content), ver_created_by = ctx_user_id tenant, ver_feeds = []\<rparr>"
      obtain cr ds where cv: "create_version (ctx_workspace_id tenant) ?v (app_datasets s) = (cr, ds)" by (metis prod.exhaust)
      show ?thesis
      proof (cases cr)
        case (Inl e)
        then show ?thesis
          using assms None Inr cv create_version_error [of _ ?v "app_datasets s" e ds] created
          by (auto simp: persist_version_try_def Let_def m existing_def [symmetric] n_def [symmetric] obj
              discard_object_ok dpop_dset_fresh)
      next
        case (Inr v)
        then have "v = ?v" using create_version_added(1) cv by blast
        then show ?thesis
          using assms None \<open>storage_path_for _ _ n = Inr path\<close> cv Inr created larger
          by (auto simp: persist_version_try_def Let_def m existing_def [symmetric] n_def [symmetric] obj)
      qed
    qed
  qed
qed

section \<open>Content-addressed objects\<close>

text \<open>
  Every object lies at a path of its own digest, every version's object is there, and workspaces have
  128-bit identifiers.
\<close>

definition objects_inv :: "DatasetStore \<Rightarrow> object_storage \<Rightarrow> bool" where
  "objects_inv ds o' \<longleftrightarrow>
     (\<forall>p c. dget o' p = Some c \<longrightarrow> (\<exists>ws n. valid_uuid ws \<and> storage_path_for ws (sha256_hex c) n = Inr p))
     \<and> (\<forall>k v. dget (versions ds) k = Some v \<longrightarrow> dget o' (ver_storage_path v) \<noteq> None)
     \<and> (\<forall>k d. dget (datasets ds) k = Some d \<longrightarrow> valid_uuid (dset_workspace_id d))"

lemma dataset_inv_version: "dataset_inv s \<Longrightarrow> dget (versions s) k = Some v \<Longrightarrow> ver_id v = k \<and> version_ok s v"
  by (simp add: dataset_inv_def)

lemma version_object:
  assumes "dataset_inv ds" "objects_inv ds o'" "dget (versions ds) k = Some v"
  shows "\<exists>c. dget o' (ver_storage_path v) = Some c \<and> sha256_hex c = ver_sha256 v"
proof -
  obtain c where c: "dget o' (ver_storage_path v) = Some c" using assms(2,3) unfolding objects_inv_def by (meson not_Some_eq)
  obtain d where d: "dget (datasets ds) (ver_dataset_id v) = Some d"
    "storage_path_for (dset_workspace_id d) (ver_sha256 v) (ver_no v) = Inr (ver_storage_path v)"
    using dataset_inv_version [OF assms(1,3)] by (auto simp: version_ok_def)
  obtain ws n where p: "valid_uuid ws" "storage_path_for ws (sha256_hex c) n = Inr (ver_storage_path v)"
    using assms(2) c unfolding objects_inv_def by meson
  have "valid_uuid (dset_workspace_id d)" using assms(2) d(1) unfolding objects_inv_def by meson
  from storage_path_inj [OF d(2) p(2) this p(1)] c show ?thesis by auto
qed

lemma objects_inv_put:
  assumes "objects_inv ds o'" "valid_uuid ws" "storage_path_for ws (sha256_hex content) n = Inr path"
  shows "objects_inv ds (if dget o' path = None then dset path content o' else o')"
  using assms unfolding objects_inv_def by (auto split: if_splits)

lemma objects_inv_version:
  assumes "objects_inv ds o'" "dget o' (ver_storage_path v) \<noteq> None"
  shows "objects_inv (ds\<lparr>versions := dset k v (versions ds)\<rparr>) o'"
  using assms unfolding objects_inv_def by (auto split: if_splits)

lemma objects_inv_dataset:
  assumes "objects_inv ds o'" "valid_uuid (dset_workspace_id d)"
  shows "objects_inv (ds\<lparr>datasets := dset k d (datasets ds)\<rparr>) o'"
  using assms unfolding objects_inv_def by (auto split: if_splits)

definition data_inv :: "('q, 'l, 'p) app \<Rightarrow> bool" where
  "data_inv s \<longleftrightarrow> dataset_inv (app_datasets s) \<and> objects_inv (app_datasets s) (app_objects s)"

lemma upload_try_inv:
  assumes "data_inv s" "fresh_dataset (dset_id d) (app_datasets s)" "dset_workspace_id d = ctx_workspace_id tenant"
    "valid_uuid (ctx_workspace_id tenant)"
  shows "data_inv (snd (upload_try tenant d content new_id s))"
proof -
  obtain r s' where run: "upload_try tenant d content new_id s = (r, s')" by (metis prod.exhaust)
  have inv: "dataset_inv (app_datasets s)" "objects_inv (app_datasets s) (app_objects s)"
    using assms(1) by (simp_all add: data_inv_def)
  note out = upload_try_outcome [OF inv(1) assms(2,3) run]
  show ?thesis
  proof (cases r)
    case (Inl e)
    then show ?thesis using out assms(1) run by simp
  next
    case (Inr dv)
    then obtain d' v where r: "r = Inr (d', v)" by (cases dv) simp
    let ?ds1 = "(app_datasets s)\<lparr>datasets := dset (dset_id d) d (datasets (app_datasets s))\<rparr>"
    let ?o = "if dget (app_objects s) (ver_storage_path v) = None
                 then dset (ver_storage_path v) content (app_objects s) else app_objects s"
    have v: "ver_id v = new_id" "ver_dataset_id v = dset_id d" "ver_sha256 v = sha256_hex content" "ver_no v = 1"
      "storage_path_for (ctx_workspace_id tenant) (sha256_hex content) 1 = Inr (ver_storage_path v)"
      "dget (versions (app_datasets s)) new_id = None"
      "app_datasets s' = ?ds1\<lparr>versions := dset (ver_id v) v (versions ?ds1)\<rparr>" "app_objects s' = ?o"
      using out unfolding r by simp_all
    have "dataset_effect (ctx_workspace_id tenant) (app_datasets s) ?ds1"
      using assms(2,3) by (intro dataset_effect.added) (simp_all add: fresh_dataset_def)
    then have one: "dataset_inv ?ds1" using inv(1) by (rule dataset_effect_inv)
    have "dataset_effect (ctx_workspace_id tenant) ?ds1 (?ds1\<lparr>versions := dset (ver_id v) v (versions ?ds1)\<rparr>)"
      using v assms(3) fresh_no_versions [OF inv(1) assms(2)] by (intro dataset_effect.versioned [where d = d]) simp_all
    then have two: "dataset_inv (app_datasets s')" unfolding v(7) using one by (rule dataset_effect_inv)
    have "objects_inv (app_datasets s') (app_objects s')"
      unfolding v(7,8) using assms(3,4)
      by (intro objects_inv_version objects_inv_dataset objects_inv_put [OF inv(2) assms(4) v(5)]) auto
    with two show ?thesis by (simp add: run data_inv_def)
  qed
qed

lemma persist_version_try_inv:
  assumes "data_inv s" "valid_uuid (ctx_workspace_id tenant)"
  shows "data_inv (snd (persist_version_try tenant did content new_id s))"
proof -
  obtain r s' where run: "persist_version_try tenant did content new_id s = (r, s')" by (metis prod.exhaust)
  have inv: "dataset_inv (app_datasets s)" "objects_inv (app_datasets s) (app_objects s)"
    using assms(1) by (simp_all add: data_inv_def)
  from persist_version_outcome [OF run] show ?thesis
  proof (elim disjE conjE exE)
    fix v assume v: "ver_sha256 v = sha256_hex content"
      "create_version (ctx_workspace_id tenant) v (app_datasets s) = (Inr v, app_datasets s')"
      "s' = s\<lparr>app_datasets := app_datasets s', app_objects := if dget (app_objects s) (ver_storage_path v) = None
                   then dset (ver_storage_path v) content (app_objects s) else app_objects s\<rparr>"
    have "app_objects s' = (if dget (app_objects s) (ver_storage_path v) = None
        then dset (ver_storage_path v) content (app_objects s) else app_objects s)" by (subst v(3)) simp
    note o = this
    note add = create_version_added [OF v(2)]
    have path: "storage_path_for (ctx_workspace_id tenant) (sha256_hex content) (ver_no v) = Inr (ver_storage_path v)"
      using add(5) v(1) by simp
    have "dataset_inv (snd (create_version (ctx_workspace_id tenant) v (app_datasets s)))"
      using create_version_effect inv(1) by (rule dataset_effect_inv)
    then have "dataset_inv (app_datasets s')" by (simp add: v(2))
    moreover have "objects_inv (app_datasets s') (app_objects s')"
      unfolding add(2) o by (intro objects_inv_version objects_inv_put [OF inv(2) assms(2) path]) auto
    ultimately show ?thesis by (simp add: run data_inv_def)
  qed (use run assms(1) in simp)
qed

section \<open>Uploads are all or nothing\<close>

lemma upload_try_accepts:
  assumes "dataset_inv (app_datasets s)" "fresh_dataset (dset_id d) (app_datasets s)" "dset_workspace_id d = ctx_workspace_id tenant"
    and "dget (versions (app_datasets s)) new_id = None"
    and "content = [] \<or> int (length content) \<le> max_dataset_bytes (DEFAULT_USAGE_POLICIES (ctx_plan tenant))"
  shows "\<exists>v s'. upload_try tenant d content new_id s = (Inr (d, v), s')"
proof -
  obtain path where path: "storage_path_for (ctx_workspace_id tenant) (sha256_hex content) 1 = Inr path"
    using canonical_path [of 1 "ctx_workspace_id tenant" content] by auto
  obtain created where obj: "ensure_object path content (app_objects s)
      = (Inr created, if created then dset path content (app_objects s) else app_objects s)"
    using ensure_object_ok [of path content "app_objects s"] by blast
  let ?v = "\<lparr>ver_id = new_id, ver_dataset_id = dset_id d, ver_no = 1, ver_sha256 = sha256_hex content,
              ver_storage_path = path, ver_byte_size = int (length content), ver_created_by = ctx_user_id tenant, ver_feeds = []\<rparr>"
  have "register_dataset (ctx_workspace_id tenant) d ?v created (app_datasets s, o')
      = (Inr (d, ?v), (app_datasets s)\<lparr>datasets := dset (dset_id d) d (datasets (app_datasets s)),
             versions := dset new_id ?v (versions (app_datasets s))\<rparr>, o')" for o'
    using register_dataset_fresh [OF assms(1-3), of ?v created o'] path assms(4) by simp
  then show ?thesis using assms(5) by (auto simp: upload_try_def Let_def measured_upload_spec path obj not_less)
qed

text \<open>Whether an upload is accepted.\<close>

definition upload_allowed ::
  "('q, 'l, 'p) api_services \<Rightarrow> TenantContext \<Rightarrow> string \<Rightarrow> char list \<Rightarrow> uuid \<Rightarrow> ('q, 'l, 'p) app \<Rightarrow> bool" where
  "upload_allowed sv tenant nm content vid s \<longleftrightarrow>
     Act_CREATE \<in> may (role_from_tenant (ctx_role tenant)) Res_DATASET
     \<and> (\<exists>nm'. validate_dataset_name nm = Inr nm')
     \<and> (\<exists>ent. svc_entitlement sv (ctx_workspace_id tenant) (plan_value (ctx_plan tenant)) = Inr ent
          \<and> (max_datasets ent \<le> 0 \<or> count_datasets (ctx_workspace_id tenant) (app_datasets s) < max_datasets ent))
     \<and> (content = [] \<or> int (length content) \<le> max_dataset_bytes (DEFAULT_USAGE_POLICIES (ctx_plan tenant)))
     \<and> dget (versions (app_datasets s)) vid = None"

lemma upload_dataset_body:
  assumes "upload_dataset sv rq tenant nm content now did vid s = (r, s')"
  shows "(\<exists>e. r = Inl e \<and> s' = s \<and> \<not> upload_allowed sv tenant nm content vid s)
    \<or> (\<exists>d u. upload_try tenant d content vid s = (u, s') \<and> dset_id d = did \<and> dset_workspace_id d = ctx_workspace_id tenant
         \<and> dset_name d = py_strip nm \<and> (upload_allowed sv tenant nm content vid s \<longleftrightarrow>
             (content = [] \<or> int (length content) \<le> max_dataset_bytes (DEFAULT_USAGE_POLICIES (ctx_plan tenant)))
             \<and> dget (versions (app_datasets s)) vid = None)
         \<and> r = (case u of Inl e \<Rightarrow> Inl (upload_http e) | Inr (d', v) \<Rightarrow> Inr \<lparr>dr_dataset = d', dr_version = Some v\<rparr>))"
proof (rule guarded_cases [of rq tenant Res_DATASET Act_CREATE _ s])
  fix body
  assume "Act_CREATE \<notin> may (role_from_tenant (ctx_role tenant)) Res_DATASET"
  then show ?thesis using assms by (auto simp: upload_dataset_def guarded_def upload_allowed_def check_permission_def is_allowed_members)
next
  assume may: "Act_CREATE \<in> may (role_from_tenant (ctx_role tenant)) Res_DATASET"
  note grant = may [unfolded] assms [unfolded upload_dataset_def guarded_def check_permission_def is_allowed_members]
  show ?thesis
  proof (cases "validate_dataset_name nm")
    case (Inl e)
    then show ?thesis using grant by (auto simp: upload_allowed_def)
  next
    case name: (Inr nm')
    then have nm': "nm' = py_strip nm" by (auto simp: validate_dataset_name_def Let_def split: if_splits)
    show ?thesis
    proof (cases "svc_entitlement sv (ctx_workspace_id tenant) (plan_value (ctx_plan tenant))")
      case (Inl e)
      then show ?thesis using grant name by (auto simp: upload_allowed_def)
    next
      case ent: (Inr ent)
      show ?thesis
      proof (cases "max_datasets ent > 0 \<and> count_datasets (ctx_workspace_id tenant) (app_datasets s) \<ge> max_datasets ent")
        case True
        then show ?thesis using grant name ent by (auto simp: upload_allowed_def)
      next
        case False
        define d where "d = \<lparr>dset_id = did, dset_workspace_id = ctx_workspace_id tenant, dset_name = nm',
          dset_created_by = ctx_user_id tenant, dset_created_at = now\<rparr>"
        obtain u t where u: "upload_try tenant d content vid s = (u, t)" by (metis prod.exhaust)
        have "(r, s') = (case u of Inl e \<Rightarrow> (Inl (upload_http e), t) | Inr (d', v) \<Rightarrow> (Inr \<lparr>dr_dataset = d', dr_version = Some v\<rparr>, t))"
          using grant name ent False u by (auto simp: d_def split: sum.splits)
        then have "t = s'" "r = (case u of Inl e \<Rightarrow> Inl (upload_http e) | Inr (d', v) \<Rightarrow> Inr \<lparr>dr_dataset = d', dr_version = Some v\<rparr>)"
          by (auto split: sum.splits)
        moreover have "upload_allowed sv tenant nm content vid s \<longleftrightarrow>
             (content = [] \<or> int (length content) \<le> max_dataset_bytes (DEFAULT_USAGE_POLICIES (ctx_plan tenant)))
             \<and> dget (versions (app_datasets s)) vid = None"
          using may name ent False by (auto simp: upload_allowed_def)
        ultimately show ?thesis using u nm' by (intro disjI2 exI [of _ d] exI [of _ u]) (simp add: d_def)
      qed
    qed
  qed
qed

text \<open>
  C32: An upload is all or nothing: it is accepted exactly when the role may create datasets, the name
  is not path-like, the entitlement leaves room, the bytes fit the plan and the version identifier is
  new.  An accepted upload is visible to its workspace, with version 1 of the SHA-256 of the bytes and
  an object with that digest at its path, and everything stored before is still there; a refused or
  failed one leaves the whole state as it was.
\<close>

theorem upload_dataset_atomic:
  assumes "data_inv s" "valid_uuid (ctx_workspace_id tenant)" "fresh_dataset did (app_datasets s)"
    and "upload_dataset sv rq tenant nm content now did vid s = (r, s')"
  shows "if upload_allowed sv tenant nm content vid s
    then \<exists>d v c. r = Inr \<lparr>dr_dataset = d, dr_version = Some v\<rparr>
      \<and> get_dataset (ctx_workspace_id tenant) did (app_datasets s') = Some d \<and> dset_name d = py_strip nm
      \<and> get_version (ctx_workspace_id tenant) vid (app_datasets s') = Some v \<and> ver_no v = 1 \<and> ver_dataset_id v = did
      \<and> ver_sha256 v = sha256_hex content \<and> ver_byte_size v = int (length content)
      \<and> dget (app_objects s') (ver_storage_path v) = Some c \<and> sha256_hex c = sha256_hex content
      \<and> (\<forall>p x. dget (app_objects s) p = Some x \<longrightarrow> dget (app_objects s') p = Some x)
      \<and> (\<forall>k. k \<noteq> vid \<longrightarrow> dget (versions (app_datasets s')) k = dget (versions (app_datasets s)) k)
      \<and> app_jobs s' = app_jobs s \<and> app_queue s' = app_queue s \<and> data_inv s'
    else s' = s \<and> (\<exists>e. r = Inl e)"
  using upload_dataset_body [OF assms(4)]
proof (elim disjE exE conjE)
  fix d u
  assume run: "upload_try tenant d content vid s = (u, s')" and d: "dset_id d = did" "dset_workspace_id d = ctx_workspace_id tenant"
    "dset_name d = py_strip nm"
    and allowed: "upload_allowed sv tenant nm content vid s \<longleftrightarrow>
             (content = [] \<or> int (length content) \<le> max_dataset_bytes (DEFAULT_USAGE_POLICIES (ctx_plan tenant)))
             \<and> dget (versions (app_datasets s)) vid = None"
    and r: "r = (case u of Inl e \<Rightarrow> Inl (upload_http e) | Inr (d', v) \<Rightarrow> Inr \<lparr>dr_dataset = d', dr_version = Some v\<rparr>)"
  have inv: "dataset_inv (app_datasets s)" using assms(1) by (simp add: data_inv_def)
  have fresh: "fresh_dataset (dset_id d) (app_datasets s)" using assms(3) d(1) by simp
  note out = upload_try_outcome [OF inv fresh d(2) run]
  show ?thesis
  proof (cases u)
    case (Inl e)
    then have "\<not> upload_allowed sv tenant nm content vid s"
      using upload_try_accepts [OF inv fresh d(2), of vid content] run allowed by auto
    then show ?thesis using out r Inl by simp
  next
    case (Inr dv)
    then obtain d' v where dv: "u = Inr (d', v)" by (cases dv) simp
    have "content = [] \<or> int (length content) \<le> max_dataset_bytes (DEFAULT_USAGE_POLICIES (ctx_plan tenant))"
      using run dv by (auto simp: upload_try_def measured_upload_spec Let_def split: if_splits)
    then have "upload_allowed sv tenant nm content vid s" using out allowed unfolding dv by simp
    moreover have inv': "data_inv s'" using upload_try_inv [OF assms(1) fresh d(2) assms(2), of content vid] run by simp
    have v: "dget (versions (app_datasets s')) vid = Some v" using out unfolding dv by simp
    obtain c where "dget (app_objects s') (ver_storage_path v) = Some c" "sha256_hex c = ver_sha256 v"
      using version_object [OF _ _ v] inv' by (auto simp: data_inv_def)
    ultimately show ?thesis using out r d v inv' unfolding dv
      by (auto simp: get_dataset_def get_version_def)
  qed
qed simp

definition sample_app :: "(unit, unit, unit) app" where
  "sample_app = \<lparr>app_jobs = empty_store, app_datasets = empty_datasets, app_objects = [], app_queue = (),
     app_limiter = (), app_plan_limiters = [], app_persistence = ()\<rparr>"

definition sample_api :: "(unit, unit, unit) api_services" where
  "sample_api = \<lparr>svc_enqueue = \<lambda>_ _ _ q. (Inr 1, q), svc_allow = \<lambda>_ l. (Inr True, l),
     svc_entitlement = \<lambda>ws plan. entitlement_get ws plan [], svc_deleted = \<lambda>_ _. Inr False\<rparr>"

definition sample_tenant :: TenantContext where
  "sample_tenant = \<lparr>ctx_user_id = 3, ctx_workspace_id = 7, ctx_plan = Plan_FREE, ctx_role = WorkspaceRole_OWNER\<rparr>"

definition sample_request :: request where
  "sample_request = \<lparr>rq_request_id = ''r'', rq_correlation = None\<rparr>"

lemma sample_data_inv: "data_inv sample_app"
  by (simp add: data_inv_def sample_app_def dataset_inv_def objects_inv_def empty_datasets_def)

lemma sample_name: "validate_dataset_name ''d'' = Inr ''d''"
  by (simp add: validate_dataset_name_def py_in_def starts_with_def py_strip_def py_isspace_def upt_rec Let_def)

lemma sample_upload_allowed: "upload_allowed sample_api sample_tenant ''d'' ''x'' 31 sample_app"
  using sample_name
  by (auto simp: upload_allowed_def sample_api_def sample_tenant_def sample_app_def may_def MUTATE_def entitlement_get_def
      default_entitlement_def ENTITLEMENTS_BY_PLAN_def count_datasets_def empty_datasets_def dvalues_def)

theorem upload_dataset_atomic_witness:
  "\<exists>d v s'. upload_dataset sample_api sample_request sample_tenant ''d'' ''x'' 0 21 31 sample_app
      = (Inr \<lparr>dr_dataset = d, dr_version = Some v\<rparr>, s')
    \<and> get_version 7 31 (app_datasets s') = Some v \<and> ver_sha256 v = sha256_hex ''x''"
proof -
  obtain r s' where run: "upload_dataset sample_api sample_request sample_tenant ''d'' ''x'' 0 21 31 sample_app = (r, s')"
    by (metis prod.exhaust)
  have "valid_uuid (ctx_workspace_id sample_tenant)" "fresh_dataset 21 (app_datasets sample_app)"
    by (simp_all add: sample_tenant_def valid_uuid_def fresh_dataset_def sample_app_def empty_datasets_def)
  from upload_dataset_atomic [OF sample_data_inv this run] show ?thesis
    using run sample_upload_allowed by (auto simp: sample_tenant_def)
qed

text \<open>
  The plan without an upload limit (a zero means unlimited) accepts no upload of even one byte: the
  streaming digest compares with the limit before \<open>allows_dataset\<close> reads zero as unlimited.
\<close>

lemma enterprise_upload_refused:
  assumes "ctx_plan tenant = Plan_ENTERPRISE" "content \<noteq> []"
  shows "allows_dataset (DEFAULT_USAGE_POLICIES (ctx_plan tenant)) (int (length content))"
    and "upload_try tenant d content vid s = (Inl (ValueError ''dataset exceeds plan upload limit''), s)"
    and "persist_version tenant did content vid s = (Inl (Http 413 (JStr ''dataset exceeds plan upload limit'')), s)"
  using assms by (simp_all add: allows_dataset_def upload_try_def persist_version_def persist_version_try_def
      measured_upload_spec version_http_def Let_def)

end
