(* ===== verification/Api_Runs.thy ===== *)
theory Api_Runs
  imports Api_Datasets Jobs_Correctness
begin

text \<open>
  The research-run endpoints of \<open>saas/api.py\<close>: creation with its entitlement, concurrency and
  idempotency checks, listing, logs, results.
\<close>

section \<open>Responses\<close>

text \<open>\<open>_research_job_response(job).model_dump(mode="json")\<close>.\<close>

definition research_job_response :: "ResearchJob \<Rightarrow> json" where
  "research_job_response job =
     JObj [(''id'', JStr (uuid_str (job_id job))), (''workspace_id'', JStr (uuid_str (job_workspace_id job))),
       (''dataset_version_id'', JStr (uuid_str (job_dataset_version_id job))), (''workflow_id'', JStr (job_workflow_id job)),
       (''status'', JStr (ResearchJobStatus_value (job_status job)))]"

definition result_response :: "ResearchRunResultRecord \<Rightarrow> json" where
  "result_response r =
     JObj [(''workspace_id'', JStr (uuid_str (rec_workspace_id r))), (''research_run_id'', JStr (uuid_str (rec_research_run_id r))),
       (''claim_id'', case rec_claim_id r of None \<Rightarrow> JNull | Some c \<Rightarrow> JStr (uuid_str c)),
       (''plan_hash'', case rec_plan_hash r of None \<Rightarrow> JNull | Some h \<Rightarrow> JStr h),
       (''source_dataset_sha256'', JStr (rec_source_sha256 r)), (''status'', JStr (rec_status r)),
       (''manifest_sha256'', JStr (rec_manifest_sha256 r)),
       (''artifacts'', JList (map (\<lambda>a. JObj [(''artifact_id'', JStr (artifact_id a)), (''kind'', JStr (art_kind a)),
          (''content_sha256'', JStr (art_sha256 a))]) (rec_artifacts r))),
       (''failures'', JList (map JStr (rec_failures r)))]"

section \<open>Creation\<close>

text \<open>The header checks: present, and non-empty and bounded once stripped.\<close>

definition idempotency_header :: "string option \<Rightarrow> api_exn + string" where
  "idempotency_header key =
     (case key of
        None \<Rightarrow> Inl (Http 400 (JStr ''Idempotency-Key header is required''))
      | Some k \<Rightarrow>
          if k = [] then Inl (Http 400 (JStr ''Idempotency-Key header is required''))
          else if py_strip k = [] \<or> length (py_strip k) > MAX_IDEMPOTENCY_KEY_LENGTH
          then Inl (Http 400 (JStr ''invalid Idempotency-Key'')) else Inr (py_strip k))"

definition run_fingerprint :: "uuid \<Rightarrow> string \<Rightarrow> string" where
  "run_fingerprint version_id workflow =
     request_fingerprint (JObj [(''dataset_version_id'', JStr (uuid_str version_id)), (''workflow_id'', JStr workflow)])"

text \<open>The checks before the job is built, in the order of the code; the answer is the dataset version.\<close>

definition admit_run ::
  "('q, 'l, 'p) api_services \<Rightarrow> TenantContext \<Rightarrow> uuid \<Rightarrow> timestamp \<Rightarrow> ('q, 'l, 'p) app \<Rightarrow> api_exn + DatasetVersion" where
  "admit_run sv tenant version_id now s =
     (let ws = ctx_workspace_id tenant in
      case svc_entitlement sv ws (plan_value (ctx_plan tenant)) of
        Inl _ \<Rightarrow> Inl (Http 503 (JStr ''entitlement service unavailable''))
      | Inr entitlement \<Rightarrow>
          if \<not> allows_jobs entitlement (count_monthly now ws (app_jobs s))
          then Inl (entitlement_exceeded ''monthly job entitlement exceeded'')
          else if \<not> allows_concurrency (DEFAULT_USAGE_POLICIES (ctx_plan tenant)) (count_active ws (app_jobs s))
          then Inl (Http 429 (JStr ''concurrent research run limit reached''))
          else (case get_version ws version_id (app_datasets s) of
                  None \<Rightarrow> Inl (Http 404 (JStr ''dataset version not found''))
                | Some v \<Rightarrow> Inr v))"

definition new_run :: "TenantContext \<Rightarrow> DatasetVersion \<Rightarrow> string \<Rightarrow> uuid \<Rightarrow> ResearchJob" where
  "new_run tenant v workflow new_id =
     \<lparr>job_id = new_id, job_workspace_id = ctx_workspace_id tenant, job_dataset_version_id = ver_id v,
      job_workflow_id = workflow, job_status = QUEUED, job_source_sha256 = ver_sha256 v,
      job_created_by = Some (ctx_user_id tenant), job_claim_id = None, job_plan_hash = None,
      job_attempt_count = 0, job_max_attempts = 3, job_error_code = None\<rparr>"

definition create_http :: "exn \<Rightarrow> api_exn" where
  "create_http e =
     (case e of ValueError m \<Rightarrow> if py_in ''idempotency key reused'' m then Http 409 (JStr m) else Unhandled e
      | _ \<Rightarrow> Unhandled e)"

text \<open>The reservation in the store, then the queue.\<close>

definition submit_run ::
  "('q, 'l, 'p) api_services \<Rightarrow> request \<Rightarrow> TenantContext \<Rightarrow> ResearchJob \<Rightarrow> string \<Rightarrow> string \<Rightarrow> timestamp \<Rightarrow> ('q, 'l, 'p) app
    \<Rightarrow> (json, 'q, 'l, 'p) handled" where
  "submit_run sv rq tenant job key fingerprint now s =
     (case create_idempotent now (ctx_workspace_id tenant) job key fingerprint (app_jobs s) of
        (Inl e, js) \<Rightarrow> (Inl (create_http e), s\<lparr>app_jobs := js\<rparr>)
      | (Inr (created, replayed), js) \<Rightarrow>
          if replayed then (Inr (research_job_response created), s\<lparr>app_jobs := js\<rparr>)
          else (case svc_enqueue sv (ctx_workspace_id tenant) (job_id created) (Some (rq_request_id rq)) (app_queue s) of
                  (Inl _, q) \<Rightarrow> (Inl (Unhandled (RuntimeError ''research job queue unavailable'')), s\<lparr>app_jobs := js, app_queue := q\<rparr>)
                | (Inr _, q) \<Rightarrow> (Inr (research_job_response job), s\<lparr>app_jobs := js, app_queue := q\<rparr>)))"

definition create_research_run ::
  "('q, 'l, 'p) api_services \<Rightarrow> request \<Rightarrow> TenantContext \<Rightarrow> uuid \<Rightarrow> string \<Rightarrow> string option \<Rightarrow> timestamp \<Rightarrow> uuid
    \<Rightarrow> ('q, 'l, 'p) app \<Rightarrow> (json, 'q, 'l, 'p) handled" where
  "create_research_run sv rq tenant version_id workflow key now new_id =
     guarded rq tenant Res_JOB Act_CREATE (\<lambda>s.
       case require_rate_limit sv tenant s of
         (Inl e, s1) \<Rightarrow> (Inl e, s1)
       | (Inr _, s1) \<Rightarrow>
           if workflow \<noteq> FROZEN_XAUUSD_M1_WORKFLOW then (Inl (Http 400 (JStr ''unsupported workflow'')), s1)
           else (case idempotency_header key of
                   Inl e \<Rightarrow> (Inl e, s1)
                 | Inr k \<Rightarrow>
                (case admit_run sv tenant version_id now s1 of
                   Inl e \<Rightarrow> (Inl e, s1)
                 | Inr v \<Rightarrow>
                (case ResearchJob_init (new_run tenant v workflow new_id) of
                   Inl e \<Rightarrow> (Inl (as_api e), s1)
                 | Inr job \<Rightarrow> submit_run sv rq tenant job k (run_fingerprint version_id workflow) now s1))))"

section \<open>Reading\<close>

definition get_research_run ::
  "request \<Rightarrow> TenantContext \<Rightarrow> uuid \<Rightarrow> ('q, 'l, 'p) app \<Rightarrow> (json, 'q, 'l, 'p) handled" where
  "get_research_run rq tenant jid =
     guarded rq tenant Res_JOB Act_READ (\<lambda>s.
       case get_job (ctx_workspace_id tenant) jid (app_jobs s) of
         None \<Rightarrow> (Inl (Http 404 (JStr ''research run not found'')), s)
       | Some job \<Rightarrow> (Inr (research_job_response job), s))"

definition get_research_run_logs ::
  "request \<Rightarrow> TenantContext \<Rightarrow> uuid \<Rightarrow> int \<Rightarrow> int \<Rightarrow> ('q, 'l, 'p) app
    \<Rightarrow> ((string \<times> json) list list, 'q, 'l, 'p) handled" where
  "get_research_run_logs rq tenant jid page page_size =
     guarded rq tenant Res_JOB Act_READ (\<lambda>s.
       if page < 1 \<or> page_size < 1 \<or> page_size > 100 then (Inl (Http 400 (JStr ''INVALID_PAGINATION'')), s)
       else if get_job (ctx_workspace_id tenant) jid (app_jobs s) = None
       then (Inl (Http 404 (JStr ''research run not found'')), s)
       else (Inr (logs (ctx_workspace_id tenant) jid (app_jobs s)), s))"

definition get_research_run_result ::
  "request \<Rightarrow> TenantContext \<Rightarrow> uuid \<Rightarrow> ('q, 'l, 'p) app \<Rightarrow> (json, 'q, 'l, 'p) handled" where
  "get_research_run_result rq tenant jid =
     guarded rq tenant Res_JOB Act_READ (\<lambda>s.
       case get_result (ctx_workspace_id tenant) jid (app_jobs s) of
         None \<Rightarrow> (Inl (Http 404 (JStr ''research result not found'')), s)
       | Some r \<Rightarrow> (Inr (result_response r), s))"

definition status_of_value :: "string \<Rightarrow> ResearchJobStatus option" where
  "status_of_value x = find (\<lambda>st. ResearchJobStatus_value st = x) [QUEUED, RUNNING, SUCCEEDED, FAILED, CANCELLED]"

definition list_runs_query ::
  "string list \<Rightarrow> string \<Rightarrow> string \<Rightarrow> string \<Rightarrow> string \<Rightarrow> string option \<Rightarrow> string option
    \<Rightarrow> (ListQuery \<times> ResearchJobStatus option \<times> string option) result" where
  "list_runs_query params page page_size sort_by sort_order filter_status filter_workflow =
     (case validate_filter_keys (filter_names params) {''status'', ''workflow_id''} of
        Inl e \<Rightarrow> Inl e
      | Inr _ \<Rightarrow>
     (case parse_list_query page page_size sort_by sort_order None None {''created_at'', ''status'', ''workflow_id''} of
        Inl e \<Rightarrow> Inl e
      | Inr q \<Rightarrow>
     (case (case filter_status of None \<Rightarrow> Inr None
            | Some x \<Rightarrow> (case status_of_value x of
                           None \<Rightarrow> Inl (PaginationParameterError ''invalid status filter'' ''INVALID_PAGINATION'')
                         | Some st \<Rightarrow> Inr (Some st))) of
        Inl e \<Rightarrow> Inl e
      | Inr st \<Rightarrow>
          if map_option py_strip filter_workflow = Some []
          then Inl (PaginationParameterError ''workflow_id filter must not be empty'' ''INVALID_PAGINATION'')
          else Inr (q, st, map_option py_strip filter_workflow))))"

definition list_research_runs ::
  "request \<Rightarrow> TenantContext \<Rightarrow> string list \<Rightarrow> string \<Rightarrow> string \<Rightarrow> string \<Rightarrow> string \<Rightarrow> string option \<Rightarrow> string option
    \<Rightarrow> ('q, 'l, 'p) app \<Rightarrow> (json page_envelope, 'q, 'l, 'p) handled" where
  "list_research_runs rq tenant params page page_size sort_by sort_order filter_status filter_workflow =
     guarded rq tenant Res_JOB Act_LIST (\<lambda>s.
       case list_runs_query params page page_size sort_by sort_order filter_status filter_workflow of
         Inl e \<Rightarrow> (Inl (pagination_http e), s)
       | Inr (q, st, flow) \<Rightarrow>
      (case list_jobs (ctx_workspace_id tenant) (lq_page_size q) (lq_offset q) st flow (lq_sort_by q) (lq_sort_order q) (app_jobs s) of
         Inl e \<Rightarrow> (Inl (as_api e), s)
       | Inr (found, total_rows) \<Rightarrow>
      (case pagination_envelope (map research_job_response found) (lq_page q) (lq_page_size q) total_rows
              (Some (rq_request_id rq)) of
         Inl e \<Rightarrow> (Inl (as_api e), s)
       | Inr env \<Rightarrow> (Inr env, s))))"

section \<open>What a creation does\<close>

text \<open>Everything the endpoint checks before it reserves the key.\<close>

definition run_admitted ::
  "('q, 'l, 'p) api_services \<Rightarrow> TenantContext \<Rightarrow> uuid \<Rightarrow> string \<Rightarrow> string option \<Rightarrow> timestamp \<Rightarrow> ('q, 'l, 'p) app
    \<Rightarrow> string \<Rightarrow> DatasetVersion \<Rightarrow> bool" where
  "run_admitted sv tenant version_id workflow key now s k v \<longleftrightarrow>
     Act_CREATE \<in> may (role_from_tenant (ctx_role tenant)) Res_JOB
     \<and> fst (require_rate_limit sv tenant s) = Inr () \<and> workflow = FROZEN_XAUUSD_M1_WORKFLOW
     \<and> idempotency_header key = Inr k
     \<and> (\<exists>ent. svc_entitlement sv (ctx_workspace_id tenant) (plan_value (ctx_plan tenant)) = Inr ent
          \<and> allows_jobs ent (count_monthly now (ctx_workspace_id tenant) (app_jobs s)))
     \<and> allows_concurrency (DEFAULT_USAGE_POLICIES (ctx_plan tenant)) (count_active (ctx_workspace_id tenant) (app_jobs s))
     \<and> get_version (ctx_workspace_id tenant) version_id (app_datasets s) = Some v"

lemma admit_run_Inr:
  "admit_run sv tenant version_id now s = Inr v \<longleftrightarrow>
     (\<exists>ent. svc_entitlement sv (ctx_workspace_id tenant) (plan_value (ctx_plan tenant)) = Inr ent
        \<and> allows_jobs ent (count_monthly now (ctx_workspace_id tenant) (app_jobs s)))
     \<and> allows_concurrency (DEFAULT_USAGE_POLICIES (ctx_plan tenant)) (count_active (ctx_workspace_id tenant) (app_jobs s))
     \<and> get_version (ctx_workspace_id tenant) version_id (app_datasets s) = Some v"
  by (auto simp: admit_run_def Let_def split: sum.splits option.splits if_splits)

lemma admit_run_stores: "stores_of s' = stores_of s \<Longrightarrow> admit_run sv tenant version_id now s' = admit_run sv tenant version_id now s"
  unfolding admit_run_def stores_of_def prod.inject by (elim conjE) (simp only:)

lemma frozen_not_blank: "\<not> blank FROZEN_XAUUSD_M1_WORKFLOW"
  by (simp add: FROZEN_XAUUSD_M1_WORKFLOW_def blank_iff py_isspace_def)

lemma new_run_wf:
  assumes "is_sha256 (ver_sha256 v)"
  shows "ResearchJob_init (new_run tenant v FROZEN_XAUUSD_M1_WORKFLOW new_id) = Inr (new_run tenant v FROZEN_XAUUSD_M1_WORKFLOW new_id)"
proof -
  have "wf_job (new_run tenant v FROZEN_XAUUSD_M1_WORKFLOW new_id)"
    using assms by (simp add: wf_job_iff new_run_def frozen_not_blank validate_optional_sha256_def)
  then show ?thesis by (simp add: wf_job_def)
qed

lemma version_of:
  assumes "dataset_inv ds" "get_version ws vid ds = Some v"
  shows "ver_id v = vid" "is_sha256 (ver_sha256 v)" "dget (versions ds) vid = Some v"
    "get_dataset ws (ver_dataset_id v) ds \<noteq> None"
proof -
  show v: "dget (versions ds) vid = Some v" "get_dataset ws (ver_dataset_id v) ds \<noteq> None"
    using assms(2) by (auto simp: get_version_def split: option.splits if_splits)
  show "ver_id v = vid" "is_sha256 (ver_sha256 v)"
    using dataset_inv_version [OF assms(1) v(1)] storage_path_ok(2) by (auto simp: version_ok_def)
qed

text \<open>The body after the guards.\<close>

lemma create_run_admitted:
  assumes "dataset_inv (app_datasets s)" "run_admitted sv tenant version_id workflow key now s k v"
  shows "create_research_run sv rq tenant version_id workflow key now new_id s
    = submit_run sv rq tenant (new_run tenant v workflow new_id) k (run_fingerprint version_id workflow) now
        (snd (require_rate_limit sv tenant s))"
proof -
  obtain s1 where lim: "require_rate_limit sv tenant s = (Inr (), s1)" "stores_of s1 = stores_of s"
    using assms(2) by (cases rule: require_rate_limit_cases [of sv tenant s]) (auto simp: run_admitted_def)
  have "admit_run sv tenant version_id now s1 = Inr v"
    using assms(2) admit_run_stores [OF lim(2)] by (simp add: admit_run_Inr run_admitted_def)
  moreover have "is_sha256 (ver_sha256 v)"
    using assms by (auto simp: run_admitted_def dest: version_of(2))
  ultimately show ?thesis
    using assms(2) lim(1)
    by (auto simp: create_research_run_def guarded_def check_permission_def is_allowed_members run_admitted_def new_run_wf)
qed

lemma create_run_refused:
  assumes "dataset_inv (app_datasets s)" "\<And>k v. \<not> run_admitted sv tenant version_id workflow key now s k v"
  shows "\<exists>e s'. create_research_run sv rq tenant version_id workflow key now new_id s = (Inl e, s') \<and> stores_of s' = stores_of s"
proof (cases "Act_CREATE \<in> may (role_from_tenant (ctx_role tenant)) Res_JOB")
  case False
  then show ?thesis by (simp add: create_research_run_def guarded_def check_permission_def is_allowed_members)
next
  case may: True
  show ?thesis
  proof (cases rule: require_rate_limit_cases [of sv tenant s])
    case (1 e s')
    then show ?thesis using may by (simp add: create_research_run_def guarded_def check_permission_def is_allowed_members)
  next
    case (2 s1)
    then have "workflow = FROZEN_XAUUSD_M1_WORKFLOW \<Longrightarrow> idempotency_header key = Inr k \<Longrightarrow> admit_run sv tenant version_id now s1 \<noteq> Inr v" for k v
      using assms(2) [of k v] may admit_run_stores [OF 2(2)] by (auto simp: run_admitted_def admit_run_Inr)
    then show ?thesis using may 2
      by (auto simp: create_research_run_def guarded_def check_permission_def is_allowed_members split: sum.split)
  qed
qed

lemma submit_run_new:
  assumes "dget (idempotency (app_jobs s)) (ctx_workspace_id tenant, k) = None" "dget (jobs (app_jobs s)) (job_id job) = None"
    "job_workspace_id job = ctx_workspace_id tenant"
  shows "submit_run sv rq tenant job k f now s =
    (let s1 = s\<lparr>app_jobs := (app_jobs s)\<lparr>jobs := dset (job_id job) job (jobs (app_jobs s)),
              created_at := dset (job_id job) now (created_at (app_jobs s)),
              idempotency := dset (ctx_workspace_id tenant, k) (f, job) (idempotency (app_jobs s))\<rparr>\<rparr>
     in case svc_enqueue sv (ctx_workspace_id tenant) (job_id job) (Some (rq_request_id rq)) (app_queue s) of
          (Inl _, q) \<Rightarrow> (Inl (Unhandled (RuntimeError ''research job queue unavailable'')), s1\<lparr>app_queue := q\<rparr>)
        | (Inr _, q) \<Rightarrow> (Inr (research_job_response job), s1\<lparr>app_queue := q\<rparr>))"
  using assms by (simp add: submit_run_def create_idempotent_def Let_def split: prod.split sum.split)

lemma submit_run_known:
  assumes "dget (idempotency (app_jobs s)) (ctx_workspace_id tenant, k) = Some (f', job')" "job_workspace_id job = ctx_workspace_id tenant"
  shows "submit_run sv rq tenant job k f now s =
    (if f' = f then (Inr (research_job_response job'), s)
     else (Inl (Http 409 (JStr ''idempotency key reused with different request'')), s))"
  using assms by (simp add: submit_run_def create_idempotent_def create_http_def py_in_def upt_rec)

lemma submit_run_clash:
  assumes "dget (idempotency (app_jobs s)) (ctx_workspace_id tenant, k) = None" "dget (jobs (app_jobs s)) (job_id job) \<noteq> None"
    "job_workspace_id job = ctx_workspace_id tenant"
  shows "\<exists>e. submit_run sv rq tenant job k f now s = (Inl e, s)"
  using assms by (auto simp: submit_run_def create_idempotent_def)

text \<open>The job store after a new run was reserved.\<close>

definition reserved_run :: "timestamp \<Rightarrow> ResearchJob \<Rightarrow> string \<Rightarrow> string \<Rightarrow> JobStore \<Rightarrow> JobStore" where
  "reserved_run now job k f js =
     js\<lparr>jobs := dset (job_id job) job (jobs js), created_at := dset (job_id job) now (created_at js),
        idempotency := dset (job_workspace_id job, k) (f, job) (idempotency js)\<rparr>"

definition run_outcome ::
  "('q, 'l, 'p) api_services \<Rightarrow> request \<Rightarrow> TenantContext \<Rightarrow> ResearchJob \<Rightarrow> string \<Rightarrow> string \<Rightarrow> timestamp \<Rightarrow> JobStore \<Rightarrow> 'q
    \<Rightarrow> (api_exn + json) \<Rightarrow> JobStore \<Rightarrow> 'q \<Rightarrow> bool" where
  "run_outcome sv rq tenant job k f now js q r js' q' \<longleftrightarrow>
     (case dget (idempotency js) (ctx_workspace_id tenant, k) of
        Some (f', job') \<Rightarrow>
          js' = js \<and> q' = q
          \<and> r = (if f' = f then Inr (research_job_response job') else Inl (Http 409 (JStr ''idempotency key reused with different request'')))
      | None \<Rightarrow>
          if dget (jobs js) (job_id job) \<noteq> None then js' = js \<and> q' = q \<and> (\<exists>e. r = Inl e)
          else js' = reserved_run now job k f js
            \<and> (case svc_enqueue sv (ctx_workspace_id tenant) (job_id job) (Some (rq_request_id rq)) q of
                 (Inl _, q1) \<Rightarrow> q' = q1 \<and> r = Inl (Unhandled (RuntimeError ''research job queue unavailable''))
               | (Inr _, q1) \<Rightarrow> q' = q1 \<and> r = Inr (research_job_response job)))"

lemma submit_run_outcome:
  assumes "job_workspace_id job = ctx_workspace_id tenant" "submit_run sv rq tenant job k f now s = (r, s')"
  shows "run_outcome sv rq tenant job k f now (app_jobs s) (app_queue s) r (app_jobs s') (app_queue s')
    \<and> app_datasets s' = app_datasets s \<and> app_objects s' = app_objects s"
proof (cases "dget (idempotency (app_jobs s)) (ctx_workspace_id tenant, k)")
  case (Some e)
  obtain f' job' where e: "e = (f', job')" by (cases e)
  have "s' = s" "r = (if f' = f then Inr (research_job_response job') else Inl (Http 409 (JStr ''idempotency key reused with different request'')))"
    using assms(2) submit_run_known [OF Some [unfolded e] assms(1), of sv rq f now] by (auto split: if_splits)
  then show ?thesis by (simp add: run_outcome_def Some e)
next
  case None
  show ?thesis
  proof (cases "dget (jobs (app_jobs s)) (job_id job) = None")
    case True
    then show ?thesis using assms submit_run_new [OF None True assms(1), of sv rq f now]
      by (auto simp: run_outcome_def None reserved_run_def Let_def split: prod.splits sum.splits)
  next
    case False
    then show ?thesis using assms submit_run_clash [OF None False assms(1), of sv rq f now]
      by (auto simp: run_outcome_def None)
  qed
qed

lemma create_run_admitted_outcome:
  assumes "data_inv s" "run_admitted sv tenant version_id workflow key now s k v"
    and "create_research_run sv rq tenant version_id workflow key now new_id s = (r, s')"
  shows "run_outcome sv rq tenant (new_run tenant v workflow new_id) k (run_fingerprint version_id workflow) now
      (app_jobs s) (app_queue s) r (app_jobs s') (app_queue s')"
    and "app_datasets s' = app_datasets s" "app_objects s' = app_objects s"
proof -
  have inv: "dataset_inv (app_datasets s)" using assms(1) by (simp add: data_inv_def)
  define s1 where "s1 = snd (require_rate_limit sv tenant s)"
  have "stores_of s1 = stores_of s" by (simp add: s1_def)
  then have s1: "app_jobs s1 = app_jobs s" "app_queue s1 = app_queue s" "app_datasets s1 = app_datasets s"
    "app_objects s1 = app_objects s" by (simp_all add: stores_of_def)
  have "submit_run sv rq tenant (new_run tenant v workflow new_id) k (run_fingerprint version_id workflow) now s1 = (r, s')"
    using create_run_admitted [OF inv assms(2), of rq new_id] assms(3) by (simp add: s1_def)
  from submit_run_outcome [OF _ this] s1
  show "run_outcome sv rq tenant (new_run tenant v workflow new_id) k (run_fingerprint version_id workflow) now
      (app_jobs s) (app_queue s) r (app_jobs s') (app_queue s')"
    and "app_datasets s' = app_datasets s" "app_objects s' = app_objects s" by (simp_all add: new_run_def)
qed

lemma create_run_not_admitted:
  assumes "data_inv s" "\<nexists>k v. run_admitted sv tenant version_id workflow key now s k v"
    and "create_research_run sv rq tenant version_id workflow key now new_id s = (r, s')"
  shows "\<exists>e. r = Inl e" "stores_of s' = stores_of s"
  using create_run_refused [of s sv tenant version_id workflow key now rq new_id] assms
  by (auto simp: data_inv_def)

text \<open>
  C31: Creating a run: the request is answered with an error and changes neither jobs nor queue unless
  the role may create jobs, the limiter lets it pass, the workflow is the frozen one, the key is valid,
  the monthly entitlement and the concurrency limit of the plan have room, and the dataset version is
  visible to the workspace.  If so, a known key is answered with the reserved job when the request is
  the same and with 409 when it is not, again without a change; a new key stores exactly one queued
  job bound to the digest of that version, reserves the key for it and hands it to the queue once.
\<close>

theorem run_creation_exact:
  assumes "data_inv s" "create_research_run sv rq tenant version_id workflow key now new_id s = (r, s')"
  shows "app_datasets s' = app_datasets s \<and> app_objects s' = app_objects s
    \<and> (if \<exists>k v. run_admitted sv tenant version_id workflow key now s k v
       then \<exists>k v. run_admitted sv tenant version_id workflow key now s k v
         \<and> run_outcome sv rq tenant (new_run tenant v workflow new_id) k (run_fingerprint version_id workflow) now
              (app_jobs s) (app_queue s) r (app_jobs s') (app_queue s')
       else (\<exists>e. r = Inl e) \<and> app_jobs s' = app_jobs s \<and> app_queue s' = app_queue s)"
proof (cases "\<exists>k v. run_admitted sv tenant version_id workflow key now s k v")
  case True
  then show ?thesis using create_run_admitted_outcome [OF assms(1) _ assms(2)] by meson
next
  case False
  then show ?thesis using create_run_not_admitted [OF assms(1) False assms(2)] by (simp add: stores_of_def)
qed

lemma uploaded_app:
  "\<exists>s v. data_inv (s :: (unit, unit, unit) app) \<and> get_version 7 31 (app_datasets s) = Some v \<and> app_jobs s = empty_store
     \<and> app_plan_limiters s = [] \<and> ver_id v = 31"
proof -
  have fresh: "fresh_dataset (dset_id sample_dataset) (app_datasets sample_app)" "dset_workspace_id sample_dataset = ctx_workspace_id sample_tenant"
    "dget (versions (app_datasets sample_app)) 31 = None" "valid_uuid (ctx_workspace_id sample_tenant)"
    by (simp_all add: fresh_dataset_def sample_app_def empty_datasets_def sample_dataset_def sample_tenant_def valid_uuid_def)
  have inv: "dataset_inv (app_datasets sample_app)" using sample_data_inv by (simp add: data_inv_def)
  obtain v s where up: "upload_try sample_tenant sample_dataset [] 31 sample_app = (Inr (sample_dataset, v), s)"
    using upload_try_accepts [OF inv fresh(1,2,3), of "[]"] by auto
  have "data_inv s" using upload_try_inv [OF sample_data_inv fresh(1,2,4), of "[]" 31] up by simp
  moreover have "get_version 7 31 (app_datasets s) = Some v" "app_jobs s = empty_store" "app_plan_limiters s = []" "ver_id v = 31"
    using upload_try_outcome [OF inv fresh(1,2) up] by (auto simp: get_version_def get_dataset_def sample_dataset_def sample_app_def)
  ultimately show ?thesis by blast
qed

lemma sample_key: "idempotency_header (Some ''k'') = Inr ''k''"
  by (simp add: idempotency_header_def py_strip_def py_isspace_def MAX_IDEMPOTENCY_KEY_LENGTH_def)

lemma sample_run_admitted:
  assumes "get_version 7 31 (app_datasets s) = Some v" "app_jobs s = empty_store" "app_plan_limiters s = []"
  shows "run_admitted sample_api sample_tenant 31 FROZEN_XAUUSD_M1_WORKFLOW (Some ''k'') 0 s k u \<longleftrightarrow> k = ''k'' \<and> u = v"
  using assms sample_key
  by (auto simp: run_admitted_def sample_api_def sample_tenant_def may_def MUTATE_def require_rate_limit_def
      require_rate_limit_principal_def entitlement_get_def default_entitlement_def ENTITLEMENTS_BY_PLAN_def
      allows_jobs_def count_monthly_def allows_concurrency_def count_active_def empty_store_def dvalues_def)

theorem run_creation_exact_witness:
  "\<exists>s v r s'. create_research_run sample_api sample_request sample_tenant 31 FROZEN_XAUUSD_M1_WORKFLOW (Some ''k'') 0 11 s = (r, s')
    \<and> get_version 7 31 (app_datasets s) = Some v
    \<and> r = Inr (research_job_response (new_run sample_tenant v FROZEN_XAUUSD_M1_WORKFLOW 11))
    \<and> dget (jobs (app_jobs s')) 11 = Some (new_run sample_tenant v FROZEN_XAUUSD_M1_WORKFLOW 11)"
proof -
  obtain s :: "(unit, unit, unit) app" and v where s: "data_inv s" "get_version 7 31 (app_datasets s) = Some v"
    "app_jobs s = empty_store" "app_plan_limiters s = []" using uploaded_app by blast
  obtain r s' where run: "create_research_run sample_api sample_request sample_tenant 31 FROZEN_XAUUSD_M1_WORKFLOW (Some ''k'') 0 11 s = (r, s')"
    by (metis prod.exhaust)
  have enq: "svc_enqueue sample_api ws j rid q = (Inr 1, q)" for ws j rid q
    by (simp add: sample_api_def)
  have "run_outcome sample_api sample_request sample_tenant (new_run sample_tenant v FROZEN_XAUUSD_M1_WORKFLOW 11) ''k''
      (run_fingerprint 31 FROZEN_XAUUSD_M1_WORKFLOW) 0 empty_store (app_queue s) r (app_jobs s') (app_queue s')"
    using run_creation_exact [OF s(1) run] sample_run_admitted [OF s(2-4)] by (simp add: s(3))
  then have "r = Inr (research_job_response (new_run sample_tenant v FROZEN_XAUUSD_M1_WORKFLOW 11))"
    "dget (jobs (app_jobs s')) 11 = Some (new_run sample_tenant v FROZEN_XAUUSD_M1_WORKFLOW 11)"
    by (simp_all add: run_outcome_def empty_store_def enq reserved_run_def) (simp_all add: new_run_def)
  then show ?thesis using run s(2) by blast
qed

section \<open>Where creation falls short\<close>

text \<open>
  When the queue fails after the reservation, the client gets a 500; a retry with the same key is
  answered 202 as a replay and the job is still not handed to the queue.
\<close>

lemma run_lost_after_queue_failure:
  assumes "data_inv s" "run_admitted sv tenant version_id workflow key now s k v"
    and "dget (idempotency (app_jobs s)) (ctx_workspace_id tenant, k) = None" "dget (jobs (app_jobs s)) new_id = None"
    and "svc_enqueue sv (ctx_workspace_id tenant) new_id (Some (rq_request_id rq)) (app_queue s) = (Inl e, q)"
    and "create_research_run sv rq tenant version_id workflow key now new_id s = (r, t)"
    and "run_admitted sv tenant version_id workflow key now' t k v'"
    and "create_research_run sv rq' tenant version_id workflow key now' new_id' t = (r', u)"
  shows "r = Inl (Unhandled (RuntimeError ''research job queue unavailable''))"
    and "r' = Inr (research_job_response (new_run tenant v workflow new_id))" "app_queue u = app_queue t" "app_jobs u = app_jobs t"
proof -
  note first = create_run_admitted_outcome [OF assms(1,2,6)]
  have "data_inv t" using first(2,3) assms(1) by (simp add: data_inv_def)
  note second = create_run_admitted_outcome(1) [OF this assms(7,8)]
  from first(1) have t: "r = Inl (Unhandled (RuntimeError ''research job queue unavailable''))"
    "app_jobs t = reserved_run now (new_run tenant v workflow new_id) k (run_fingerprint version_id workflow) (app_jobs s)"
    using assms(3-5) by (auto simp: run_outcome_def new_run_def)
  then show "r = Inl (Unhandled (RuntimeError ''research job queue unavailable''))" by simp
  from second show "r' = Inr (research_job_response (new_run tenant v workflow new_id))" "app_queue u = app_queue t" "app_jobs u = app_jobs t"
    by (simp_all add: run_outcome_def t(2) reserved_run_def new_run_def)
qed

text \<open>
  The concurrency check comes before the replay: on the free plan, while a run is active, repeating
  the very request that created it is refused.
\<close>

lemma replay_refused_while_active:
  assumes "ctx_plan tenant = Plan_FREE" "0 < count_active (ctx_workspace_id tenant) (app_jobs s)" "dataset_inv (app_datasets s)"
  shows "\<exists>e s'. create_research_run sv rq tenant version_id workflow key now new_id s = (Inl e, s') \<and> stores_of s' = stores_of s"
  using assms by (intro create_run_refused) (simp_all add: run_admitted_def allows_concurrency_def)

text \<open>
  Creating a run does not ask whether the workspace is deleted: the conditions of an accepted request
  are the same in every life-cycle state.
\<close>

lemma require_rate_limit_persistence:
  "fst (require_rate_limit sv tenant (s\<lparr>app_persistence := p\<rparr>)) = fst (require_rate_limit sv tenant s)"
  by (simp add: require_rate_limit_def split: option.split prod.split)

lemma run_admitted_ignores_deletion:
  "run_admitted sv tenant version_id workflow key now (s\<lparr>app_persistence := p\<rparr>) k v
    \<longleftrightarrow> run_admitted sv tenant version_id workflow key now s k v"
  by (simp add: run_admitted_def require_rate_limit_persistence)

end
