(* ===== verification/Api_Correctness.thy ===== *)
theory Api_Correctness
  imports Api_Runs
begin

text \<open>
  The API and the workers together: every sequence of uploads, run requests and worker operations
  keeps the provenance of every run, and a run request takes effect once.
\<close>

section \<open>Steps of the service\<close>

text \<open>What workers do with the job store: every operation but the two that create jobs.\<close>

fun worker_op :: "job_op \<Rightarrow> bool" where
  "worker_op (OpCreate _ _) = False"
| "worker_op (OpCreateIdempotent _ _ _ _) = False"
| "worker_op _ = True"

inductive app_step :: "('q, 'l, 'p) api_services \<Rightarrow> ('q, 'l, 'p) app \<Rightarrow> ('q, 'l, 'p) app \<Rightarrow> bool" for sv where
  step_upload: "valid_uuid (ctx_workspace_id tenant) \<Longrightarrow> fresh_dataset did (app_datasets s)
    \<Longrightarrow> app_step sv s (snd (upload_dataset sv rq tenant nm content now did vid s))"
| step_version: "valid_uuid (ctx_workspace_id tenant)
    \<Longrightarrow> app_step sv s (snd (upload_dataset_version rq tenant did content vid s))"
| step_run: "app_step sv s (snd (create_research_run sv rq tenant version_id workflow key now jid s))"
| step_worker: "worker_op opn \<Longrightarrow> app_step sv s (s\<lparr>app_jobs := job_exec ws opn (app_jobs s)\<rparr>)"
| step_queue: "app_step sv s (s\<lparr>app_queue := q\<rparr>)"
| step_persistence: "app_step sv s (s\<lparr>app_persistence := p\<rparr>)"

definition app_init :: "('q, 'l, 'p) app \<Rightarrow> bool" where
  "app_init s \<longleftrightarrow> app_jobs s = empty_store \<and> app_datasets s = empty_datasets \<and> app_objects s = []"

section \<open>Invariant\<close>

definition sourced :: "DatasetStore \<Rightarrow> ResearchJob \<Rightarrow> bool" where
  "sourced ds j \<longleftrightarrow> (\<exists>v. get_version (job_workspace_id j) (job_dataset_version_id j) ds = Some v \<and> ver_sha256 v = job_source_sha256 j)"

definition app_inv :: "('q, 'l, 'p) app \<Rightarrow> bool" where
  "app_inv s \<longleftrightarrow> store_inv (app_jobs s) \<and> data_inv s
     \<and> (\<forall>k j. dget (jobs (app_jobs s)) k = Some j \<longrightarrow> sourced (app_datasets s) j)"

text \<open>Nothing stored is lost or rewritten.\<close>

definition app_le :: "('q, 'l, 'p) app \<Rightarrow> ('q, 'l, 'p) app \<Rightarrow> bool" where
  "app_le s t \<longleftrightarrow> store_le (app_jobs s) (app_jobs t)
     \<and> (\<forall>k v. dget (versions (app_datasets s)) k = Some v \<longrightarrow> dget (versions (app_datasets t)) k = Some v)
     \<and> (\<forall>k d. dget (datasets (app_datasets s)) k = Some d \<longrightarrow> dget (datasets (app_datasets t)) k = Some d)
     \<and> (\<forall>p c. dget (app_objects s) p = Some c \<longrightarrow> dget (app_objects t) p = Some c)"

lemma app_le_refl: "app_le s s"
  by (simp add: app_le_def store_le_refl)

lemma app_le_trans: "app_le s t \<Longrightarrow> app_le t u \<Longrightarrow> app_le s u"
  unfolding app_le_def by (meson store_le_trans)

lemma sourced_mono:
  assumes "app_le s t" "sourced (app_datasets s) j"
  shows "sourced (app_datasets t) j"
proof -
  obtain v where "get_version (job_workspace_id j) (job_dataset_version_id j) (app_datasets s) = Some v"
    "ver_sha256 v = job_source_sha256 j" using assms(2) by (auto simp: sourced_def)
  moreover from this have "get_version (job_workspace_id j) (job_dataset_version_id j) (app_datasets t) = Some v"
    using assms(1) by (auto simp: get_version_def get_dataset_def app_le_def split: option.splits if_splits)
  ultimately show ?thesis by (auto simp: sourced_def)
qed

lemma job_version_identity: "job_dataset_version_id (job_identity j) = job_dataset_version_id j"
  by (simp add: job_identity_def)

lemma sourced_identity:
  assumes "job_identity j' = job_identity j"
  shows "sourced ds j' = sourced ds j"
proof -
  have "job_dataset_version_id j' = job_dataset_version_id j" by (metis assms job_version_identity)
  then show ?thesis unfolding sourced_def by (simp only: job_identity_fields [OF assms])
qed

lemma worker_op_no_new:
  assumes "worker_op opn" "dget (jobs s) k = None"
  shows "dget (jobs (job_exec ws opn s)) k = None"
  using assms by (cases opn)
    (auto simp: claim_def renew_def record_result_def finish_def transition_def get_job_def Let_def
      split: option.splits sum.splits if_splits prod.splits)

lemma store_le_job: "store_le s t \<Longrightarrow> dget (jobs s) k = Some j \<Longrightarrow> \<exists>j'. dget (jobs t) k = Some j' \<and> job_identity j' = job_identity j"
  unfolding store_le_def by meson

lemma worker_step:
  assumes "app_inv s" "worker_op opn"
  shows "app_inv (s\<lparr>app_jobs := job_exec ws opn (app_jobs s)\<rparr>)" "app_le s (s\<lparr>app_jobs := job_exec ws opn (app_jobs s)\<rparr>)"
proof -
  have inv: "store_inv (app_jobs s)" using assms(1) by (simp add: app_inv_def)
  have wf: "op_wf opn" using assms(2) by (cases opn) simp_all
  note eff = job_exec_effect [OF inv wf, of ws]
  have le: "store_le (app_jobs s) (job_exec ws opn (app_jobs s))" using job_effect_le [OF eff inv] .
  then show "app_le s (s\<lparr>app_jobs := job_exec ws opn (app_jobs s)\<rparr>)" by (simp add: app_le_def)
  have "sourced (app_datasets s) j'" if "dget (jobs (job_exec ws opn (app_jobs s))) k = Some j'" for k j'
  proof -
    obtain j where j: "dget (jobs (app_jobs s)) k = Some j"
    proof (cases "dget (jobs (app_jobs s)) k")
      case None
      then show ?thesis using worker_op_no_new [OF assms(2) None, of ws] \<open>dget _ k = Some j'\<close> by simp
    qed
    then have same: "job_identity j' = job_identity j" using store_le_job [OF le] that by fastforce
    have "sourced (app_datasets s) j" using assms(1) j unfolding app_inv_def by blast
    then show ?thesis by (simp only: sourced_identity [OF same])
  qed
  then show "app_inv (s\<lparr>app_jobs := job_exec ws opn (app_jobs s)\<rparr>)"
    using assms(1) job_effect_inv [OF eff inv] by (simp add: app_inv_def data_inv_def)
qed

lemma data_step_jobs:
  assumes "app_inv s" "data_inv t" "app_jobs t = app_jobs s" "app_le s t"
  shows "app_inv t"
  using assms sourced_mono [OF assms(4)] by (auto simp: app_inv_def)

lemma upload_step:
  assumes "app_inv s" "valid_uuid (ctx_workspace_id tenant)" "fresh_dataset did (app_datasets s)"
  shows "app_inv (snd (upload_dataset sv rq tenant nm content now did vid s))
    \<and> app_le s (snd (upload_dataset sv rq tenant nm content now did vid s))"
proof -
  obtain r t where run: "upload_dataset sv rq tenant nm content now did vid s = (r, t)" by (metis prod.exhaust)
  have inv: "data_inv s" "dataset_inv (app_datasets s)" using assms(1) by (simp_all add: app_inv_def data_inv_def)
  from upload_dataset_body [OF run] show ?thesis
  proof (elim disjE exE conjE)
    fix d u assume body: "upload_try tenant d content vid s = (u, t)" "dset_id d = did" "dset_workspace_id d = ctx_workspace_id tenant"
    have fresh: "fresh_dataset (dset_id d) (app_datasets s)" using assms(3) body(2) by simp
    have "data_inv t" using upload_try_inv [OF inv(1) fresh body(3) assms(2), of content vid] body(1) by simp
    moreover have "app_jobs t = app_jobs s \<and> app_le s t"
      using upload_try_outcome [OF inv(2) fresh body(3,1)] fresh
      by (cases u) (auto simp: app_le_def store_le_refl fresh_dataset_def)
    ultimately show ?thesis using data_step_jobs [OF assms(1)] by (simp add: run)
  qed (simp add: run assms(1) app_le_refl)
qed

lemma version_step:
  assumes "app_inv s" "valid_uuid (ctx_workspace_id tenant)"
  shows "app_inv (snd (upload_dataset_version rq tenant did content vid s))
    \<and> app_le s (snd (upload_dataset_version rq tenant did content vid s))"
proof -
  obtain r t where run: "persist_version_try tenant did content vid s = (r, t)" by (metis prod.exhaust)
  have "snd (upload_dataset_version rq tenant did content vid s) \<in> {s, t}"
    by (auto simp: upload_dataset_version_def guarded_def persist_version_def run split: sum.split)
  moreover have "data_inv t" using persist_version_try_inv [OF _ assms(2), of s did content vid] assms(1) run by (simp add: app_inv_def)
  moreover have "app_jobs t = app_jobs s \<and> app_le s t"
    using persist_version_outcome [OF run]
  proof (elim disjE exE conjE)
    fix v assume v: "create_version (ctx_workspace_id tenant) v (app_datasets s) = (Inr v, app_datasets t)"
      "t = s\<lparr>app_datasets := app_datasets t, app_objects := if dget (app_objects s) (ver_storage_path v) = None
                   then dset (ver_storage_path v) content (app_objects s) else app_objects s\<rparr>"
    note added = create_version_added [OF v(1)]
    have o: "app_objects t = (if dget (app_objects s) (ver_storage_path v) = None
                   then dset (ver_storage_path v) content (app_objects s) else app_objects s)" "app_jobs t = app_jobs s"
      by (subst v(2), simp)+
    show ?thesis using added(3) o by (auto simp: app_le_def store_le_refl added(2))
  qed (simp add: app_le_refl)
  ultimately show ?thesis using data_step_jobs [OF assms(1)] assms(1) app_le_refl by auto
qed

lemma reserved_run_step:
  assumes "app_inv s" "wf_job job" "dget (jobs (app_jobs s)) (job_id job) = None" "sourced (app_datasets s) job"
    and "dget (idempotency (app_jobs s)) (job_workspace_id job, k) = None"
    and "app_jobs t = reserved_run now job k f (app_jobs s)" "app_datasets t = app_datasets s" "app_objects t = app_objects s"
  shows "app_inv t \<and> app_le s t"
proof -
  have inv: "store_inv (app_jobs s)" using assms(1) by (simp add: app_inv_def)
  have "job_effect (job_workspace_id job) (app_jobs s) (app_jobs t)"
    unfolding assms(6) reserved_run_def by (rule job_effect.added) (use assms(2,3,5) in auto)
  then have "store_inv (app_jobs t)" "store_le (app_jobs s) (app_jobs t)"
    using inv by (auto intro: job_effect_inv job_effect_le)
  then show ?thesis using assms(1,4) unfolding app_inv_def app_le_def data_inv_def assms(7,8)
    by (auto simp: assms(6) reserved_run_def)
qed

lemma run_step:
  assumes "app_inv s"
  shows "app_inv (snd (create_research_run sv rq tenant version_id workflow key now jid s))
    \<and> app_le s (snd (create_research_run sv rq tenant version_id workflow key now jid s))"
proof -
  obtain r t where run: "create_research_run sv rq tenant version_id workflow key now jid s = (r, t)" by (metis prod.exhaust)
  have inv: "data_inv s" "dataset_inv (app_datasets s)" using assms by (simp_all add: app_inv_def data_inv_def)
  have same: "app_inv t \<and> app_le s t" if "app_jobs t = app_jobs s" "app_datasets t = app_datasets s" "app_objects t = app_objects s"
    using that assms by (simp add: app_inv_def app_le_def data_inv_def store_le_refl)
  show ?thesis
  proof (cases "\<exists>k v. run_admitted sv tenant version_id workflow key now s k v")
    case True
    then obtain k v where adm: "run_admitted sv tenant version_id workflow key now s k v" by blast
    note out = create_run_admitted_outcome [OF inv(1) adm run]
    let ?job = "new_run tenant v workflow jid"
    show ?thesis
    proof (cases "dget (idempotency (app_jobs s)) (ctx_workspace_id tenant, k) = None \<and> dget (jobs (app_jobs s)) jid = None")
      case new: True
      then have js: "app_jobs t = reserved_run now ?job k (run_fingerprint version_id workflow) (app_jobs s)"
        using out(1) by (auto simp: run_outcome_def new_run_def split: if_splits)
      have gv: "get_version (ctx_workspace_id tenant) version_id (app_datasets s) = Some v" "workflow = FROZEN_XAUUSD_M1_WORKFLOW"
        using adm by (simp_all add: run_admitted_def)
      note v = version_of [OF inv(2) gv(1)]
      have "wf_job ?job" using new_run_wf [OF v(2)] gv(2) by (simp add: wf_job_def)
      moreover have "sourced (app_datasets s) ?job" using gv(1) v(1) by (simp add: sourced_def new_run_def)
      ultimately have "app_inv t \<and> app_le s t"
        using new js out(2,3) by (intro reserved_run_step [OF assms]) (simp_all add: new_run_def)
      then show ?thesis by (simp add: run)
    next
      case False
      then have "app_jobs t = app_jobs s"
        using out(1) by (auto simp: run_outcome_def new_run_def split: option.splits if_splits)
      then show ?thesis using same out(2,3) by (simp add: run)
    qed
  next
    case False
    then show ?thesis using create_run_not_admitted [OF inv(1) False run] same by (simp add: run stores_of_def)
  qed
qed

interpretation app_sys: monotone_system app_init "app_step sv" app_inv app_le for sv
proof
  show "app_init s \<Longrightarrow> app_inv s" for s :: "('a, 'b, 'c) app"
    by (simp add: app_init_def app_inv_def store_inv_empty data_inv_def dataset_inv_def objects_inv_def empty_datasets_def)
      (simp add: empty_store_def)
  have step: "app_inv s \<Longrightarrow> app_step sv s t \<Longrightarrow> app_inv t \<and> app_le s t" for s t
    by (rotate_tac, erule app_step.cases)
      (simp_all add: upload_step version_step run_step worker_step, simp_all add: app_inv_def app_le_def data_inv_def store_le_refl)
  show "app_inv s \<Longrightarrow> app_step sv s t \<Longrightarrow> app_inv t" "app_inv s \<Longrightarrow> app_step sv s t \<Longrightarrow> app_le s t" for s t
    using step by blast+
  show "app_le s s" for s :: "('a, 'b, 'c) app" by (rule app_le_refl)
  show "app_le s t \<Longrightarrow> app_le t u \<Longrightarrow> app_le s u" for s t u :: "('a, 'b, 'c) app" by (rule app_le_trans)
qed

section \<open>Provenance\<close>

lemma app_inv_object:
  assumes "app_inv s" "dget (jobs (app_jobs s)) jid = Some j"
  obtains v c where "get_version (job_workspace_id j) (job_dataset_version_id j) (app_datasets s) = Some v"
    "ver_sha256 v = job_source_sha256 j" "dget (app_objects s) (ver_storage_path v) = Some c"
    "sha256_hex c = job_source_sha256 j" "tenant_path (job_workspace_id j) (ver_storage_path v)"
proof -
  have inv: "dataset_inv (app_datasets s)" "objects_inv (app_datasets s) (app_objects s)"
    using assms(1) by (simp_all add: app_inv_def data_inv_def)
  obtain v where v: "get_version (job_workspace_id j) (job_dataset_version_id j) (app_datasets s) = Some v"
    "ver_sha256 v = job_source_sha256 j" using assms unfolding app_inv_def sourced_def by meson
  note ver = version_of [OF inv(1) v(1)]
  obtain c where c: "dget (app_objects s) (ver_storage_path v) = Some c" "sha256_hex c = ver_sha256 v"
    using version_object [OF inv ver(3)] by blast
  obtain d where d: "dget (datasets (app_datasets s)) (ver_dataset_id v) = Some d" "dset_workspace_id d = job_workspace_id j"
    using ver(4) by (auto simp: get_dataset_def split: option.splits if_splits)
  have "storage_path_for (job_workspace_id j) (ver_sha256 v) (ver_no v) = Inr (ver_storage_path v)"
    using dataset_inv_version [OF inv(1) ver(3)] d by (simp add: version_ok_def)
  moreover have "valid_uuid (job_workspace_id j)" using inv(2) d unfolding objects_inv_def by metis
  ultimately have "tenant_path (job_workspace_id j) (ver_storage_path v)" using storage_path_tenant by blast
  then show ?thesis using that v c by simp
qed

text \<open>
  C4: Provenance of every run: in every state the service can reach, through uploads, run requests
  and worker operations in any order, each job names a dataset version of its own workspace whose digest
  is the job's source digest, and the object storage holds, under the workspace's own path, bytes with
  that SHA-256.  Whatever happens afterwards, the job keeps its source and those bytes stay as they are.
\<close>

theorem run_provenance:
  assumes "reach app_init (app_step sv) s" "dget (jobs (app_jobs s)) jid = Some j" "(app_step sv)\<^sup>*\<^sup>* s t"
  shows "\<exists>v c j'. get_version (job_workspace_id j) (job_dataset_version_id j) (app_datasets s) = Some v
    \<and> ver_sha256 v = job_source_sha256 j \<and> tenant_path (job_workspace_id j) (ver_storage_path v)
    \<and> dget (app_objects s) (ver_storage_path v) = Some c \<and> sha256_hex c = job_source_sha256 j
    \<and> dget (jobs (app_jobs t)) jid = Some j' \<and> job_source_sha256 j' = job_source_sha256 j
    \<and> dget (app_objects t) (ver_storage_path v) = Some c"
proof -
  note inv = app_sys.reach_inv [OF assms(1)] and le = app_sys.reach_run_rel [OF assms(1,3)]
  obtain v c where vc: "get_version (job_workspace_id j) (job_dataset_version_id j) (app_datasets s) = Some v"
    "ver_sha256 v = job_source_sha256 j" "dget (app_objects s) (ver_storage_path v) = Some c"
    "sha256_hex c = job_source_sha256 j" "tenant_path (job_workspace_id j) (ver_storage_path v)"
    using app_inv_object [OF inv assms(2)] .
  obtain j' where "dget (jobs (app_jobs t)) jid = Some j'" "job_identity j' = job_identity j"
    using store_le_job [OF _ assms(2)] le unfolding app_le_def by blast
  moreover from this(2) have "job_source_sha256 j' = job_source_sha256 j" by (rule job_identity_fields)
  moreover have "dget (app_objects t) (ver_storage_path v) = Some c" using le vc(3) unfolding app_le_def by blast
  ultimately show ?thesis using vc by blast
qed

section \<open>Idempotency\<close>

text \<open>What an accepted request leaves behind.\<close>

lemma accepted_run:
  assumes "app_inv s" "create_research_run sv rq tenant version_id workflow key now jid s = (Inr body, t)"
  obtains k job where "idempotency_header key = Inr k" "body = research_job_response job"
    "dget (idempotency (app_jobs t)) (ctx_workspace_id tenant, k) = Some (run_fingerprint version_id workflow, job)"
proof -
  have inv: "data_inv s" using assms(1) by (simp add: app_inv_def)
  obtain k v where adm: "run_admitted sv tenant version_id workflow key now s k v"
    using create_run_not_admitted(1) [OF inv _ assms(2)] by blast
  note out = create_run_admitted_outcome(1) [OF inv adm assms(2)]
  have k: "idempotency_header key = Inr k" using adm by (simp add: run_admitted_def)
  show ?thesis
  proof (cases "dget (idempotency (app_jobs s)) (ctx_workspace_id tenant, k)")
    case None
    then have "body = research_job_response (new_run tenant v workflow jid)"
      "dget (idempotency (app_jobs t)) (ctx_workspace_id tenant, k)
        = Some (run_fingerprint version_id workflow, new_run tenant v workflow jid)"
      using out by (auto simp: run_outcome_def reserved_run_def new_run_def split: if_splits prod.splits sum.splits)
    then show ?thesis using that k by blast
  next
    case (Some e)
    obtain f job where "e = (f, job)" by (cases e)
    then have "body = research_job_response job"
      "dget (idempotency (app_jobs t)) (ctx_workspace_id tenant, k) = Some (run_fingerprint version_id workflow, job)"
      using out Some by (auto simp: run_outcome_def split: if_splits)
    then show ?thesis using that k by blast
  qed
qed

lemma repeated_run:
  assumes "app_inv u" "idempotency_header key = Inr k"
    and "dget (idempotency (app_jobs u)) (ctx_workspace_id tenant, k) = Some (f, job)"
    and "create_research_run sv rq tenant version_id workflow key now jid u = (r, u')"
  shows "app_jobs u' = app_jobs u \<and> app_queue u' = app_queue u
    \<and> ((\<exists>e. r = Inl e) \<or> f = run_fingerprint version_id workflow \<and> r = Inr (research_job_response job))"
proof -
  have inv: "data_inv u" using assms(1) by (simp add: app_inv_def)
  show ?thesis
  proof (cases "\<exists>k v. run_admitted sv tenant version_id workflow key now u k v")
    case True
    then obtain v where adm: "run_admitted sv tenant version_id workflow key now u k v"
      using assms(2) by (auto simp: run_admitted_def)
    show ?thesis using create_run_admitted_outcome(1) [OF inv adm assms(4)] assms(3)
      by (simp add: run_outcome_def)
  next
    case False
    then show ?thesis using create_run_not_admitted [OF inv False assms(4)] by (auto simp: stores_of_def)
  qed
qed

text \<open>
  C5: A run request takes effect once: after a request with some key was answered 202, and after any
  further steps of the service, a request of the same workspace with that key changes neither jobs nor
  queue.  If it is answered 202, then with the body of the first answer, and it has the fingerprint of
  the first request.
\<close>

theorem run_request_once:
  assumes "reach app_init (app_step sv) s"
    and "create_research_run sv rq tenant version_id workflow key now jid s = (Inr body, t)"
    and "(app_step sv)\<^sup>*\<^sup>* t u"
    and "create_research_run sv rq' tenant version_id' workflow' key now' jid' u = (r, u')"
  shows "app_jobs u' = app_jobs u \<and> app_queue u' = app_queue u
    \<and> ((\<exists>e. r = Inl e) \<or> r = Inr body \<and> run_fingerprint version_id' workflow' = run_fingerprint version_id workflow)"
proof -
  note inv = app_sys.reach_inv [OF assms(1)]
  have "app_step sv s t" using step_run [of sv s rq tenant version_id workflow key now jid] assms(2) by simp
  then have reach: "reach app_init (app_step sv) t" using assms(1) by (rule reach.reach_next [rotated])
  obtain k job where first: "idempotency_header key = Inr k" "body = research_job_response job"
    "dget (idempotency (app_jobs t)) (ctx_workspace_id tenant, k) = Some (run_fingerprint version_id workflow, job)"
    using accepted_run [OF inv assms(2)] .
  have "dget (idempotency (app_jobs u)) (ctx_workspace_id tenant, k) = Some (run_fingerprint version_id workflow, job)"
    using app_sys.reach_run_rel [OF reach assms(3)] first(3) unfolding app_le_def store_le_def by blast
  from repeated_run [OF app_sys.reach_inv [OF reach_run [OF reach assms(3)]] first(1) this assms(4)]
  show ?thesis using first(2) by auto
qed

section \<open>A concrete service\<close>

lemma sample_service:
  "\<exists>s body t. reach app_init (app_step sample_api) s
     \<and> create_research_run sample_api sample_request sample_tenant 31 FROZEN_XAUUSD_M1_WORKFLOW (Some ''k'') 0 11 s = (Inr body, t)
     \<and> (\<exists>j. dget (jobs (app_jobs t)) 11 = Some j \<and> job_workspace_id j = 7)"
proof -
  have valid: "valid_uuid (ctx_workspace_id sample_tenant)" "fresh_dataset 21 (app_datasets sample_app)"
    by (simp_all add: sample_tenant_def valid_uuid_def fresh_dataset_def sample_app_def empty_datasets_def)
  obtain r s where up: "upload_dataset sample_api sample_request sample_tenant ''d'' ''x'' 0 21 31 sample_app = (r, s)"
    by (metis prod.exhaust)
  have "app_step sample_api sample_app s"
    using step_upload [OF valid, of sample_api sample_request "''d''" "''x''" 0 31] up by simp
  moreover have "app_init sample_app" by (simp add: app_init_def sample_app_def)
  ultimately have reach: "reach app_init (app_step sample_api) s" by (blast intro: reach.intros)
  have inv: "dataset_inv (app_datasets sample_app)" using sample_data_inv by (simp add: data_inv_def)
  obtain d u where d: "upload_try sample_tenant d ''x'' 31 sample_app = (u, s)" "dset_id d = 21"
    "dset_workspace_id d = ctx_workspace_id sample_tenant"
    using upload_dataset_body [OF up] sample_upload_allowed by blast
  have fresh: "fresh_dataset (dset_id d) (app_datasets sample_app)" using valid(2) d(2) by simp
  have "dget (versions (app_datasets sample_app)) 31 = None" by (simp add: sample_app_def empty_datasets_def)
  from upload_try_accepts [OF inv fresh d(3) this, of "''x''"] d(1)
  obtain v where "u = Inr (d, v)" by (auto simp: sample_tenant_def)
  with upload_try_outcome [OF inv fresh d(3,1)] d(2,3)
  have s: "get_version 7 31 (app_datasets s) = Some v" "app_jobs s = empty_store" "app_plan_limiters s = []"
    by (auto simp: get_version_def get_dataset_def sample_tenant_def sample_app_def)
  have "run_admitted sample_api sample_tenant 31 FROZEN_XAUUSD_M1_WORKFLOW (Some ''k'') 0 s ''k'' v"
    using sample_run_admitted [OF s] by simp
  moreover have data: "data_inv s" using app_sys.reach_inv [OF reach] by (simp add: app_inv_def)
  moreover obtain r t where run: "create_research_run sample_api sample_request sample_tenant 31 FROZEN_XAUUSD_M1_WORKFLOW (Some ''k'') 0 11 s = (r, t)"
    by (metis prod.exhaust)
  ultimately have "run_outcome sample_api sample_request sample_tenant (new_run sample_tenant v FROZEN_XAUUSD_M1_WORKFLOW 11) ''k''
      (run_fingerprint 31 FROZEN_XAUUSD_M1_WORKFLOW) 0 empty_store (app_queue s) r (app_jobs t) (app_queue t)"
    using create_run_admitted_outcome(1) s(2) by metis
  then have "\<exists>body. r = Inr body" "dget (jobs (app_jobs t)) 11 = Some (new_run sample_tenant v FROZEN_XAUUSD_M1_WORKFLOW 11)"
    by (simp_all add: run_outcome_def empty_store_def reserved_run_def sample_api_def) (simp_all add: new_run_def)
  then show ?thesis using reach run by (auto simp: new_run_def sample_tenant_def)
qed

theorem run_provenance_witness:
  "\<exists>s j v c. dget (jobs (app_jobs (s :: (unit, unit, unit) app))) 11 = Some j \<and> get_version 7 (job_dataset_version_id j) (app_datasets s) = Some v
     \<and> dget (app_objects s) (ver_storage_path v) = Some c \<and> sha256_hex c = job_source_sha256 j"
proof -
  obtain s0 body t j where s: "reach app_init (app_step sample_api) s0"
    "create_research_run sample_api sample_request sample_tenant 31 FROZEN_XAUUSD_M1_WORKFLOW (Some ''k'') 0 11 s0 = (Inr body, t)"
    "dget (jobs (app_jobs t)) 11 = Some j" "job_workspace_id j = 7" using sample_service by blast
  have "app_step sample_api s0 t"
    using step_run [of sample_api s0 sample_request sample_tenant 31 FROZEN_XAUUSD_M1_WORKFLOW "Some ''k''" 0 11] s(2) by simp
  then have "reach app_init (app_step sample_api) t" using s(1) by (blast intro: reach.reach_next)
  from run_provenance [OF this s(3) rtranclp.rtrancl_refl] show ?thesis using s(3,4) by auto
qed

theorem run_request_once_witness:
  "\<exists>t body r u. create_research_run sample_api sample_request sample_tenant 31 FROZEN_XAUUSD_M1_WORKFLOW (Some ''k'') 5 12 t = (r, u)
     \<and> app_jobs u = app_jobs t \<and> ((\<exists>e. r = Inl e) \<or> r = Inr body) \<and> dget (jobs (app_jobs t)) 11 \<noteq> None"
proof -
  obtain s0 body t where s: "reach app_init (app_step sample_api) s0"
    "create_research_run sample_api sample_request sample_tenant 31 FROZEN_XAUUSD_M1_WORKFLOW (Some ''k'') 0 11 s0 = (Inr body, t)"
    "dget (jobs (app_jobs t)) 11 \<noteq> None" using sample_service by blast
  obtain r u where again: "create_research_run sample_api sample_request sample_tenant 31 FROZEN_XAUUSD_M1_WORKFLOW (Some ''k'') 5 12 t = (r, u)"
    by (metis prod.exhaust)
  from run_request_once [OF s(1,2) rtranclp.rtrancl_refl again] show ?thesis using again s(3) by blast
qed

end
