(* ===== verification/Api_Accounts.thy ===== *)
theory Api_Accounts
  imports Api_Boundary
begin

text \<open>
  The billing and workspace endpoints of \<open>saas/api.py\<close>, and the tenant life cycle they use
  (\<open>saas/persistence/tenant.py\<close>): the in-memory persistence with its soft deletion and receipts.
\<close>

section \<open>Tenant life cycle\<close>

definition DEFAULT_RETENTION_DAYS :: int where
  "DEFAULT_RETENTION_DAYS = 30"

definition RetentionConfig_init :: "int \<Rightarrow> int result" where
  "RetentionConfig_init retention_days =
     (if \<not> (1 \<le> retention_days \<and> retention_days \<le> 3650)
      then Inl (ValueError ''retention_days must be between 1 and 3650 days'') else Inr retention_days)"

text \<open>
  Times are UTC microseconds; \<open>deleted_at\<close> is aware, as \<open>datetime.now(timezone.utc)\<close> is.  Adding the
  retention stays inside the range of \<open>datetime\<close>.
\<close>

definition purge_at :: "int \<Rightarrow> timestamp \<Rightarrow> timestamp" where
  "purge_at retention_days deleted_at = deleted_at + seconds (86400 * retention_days)"

record DeletionReceipt =
  rcp_workspace_id :: uuid
  rcp_deleted_at :: timestamp
  rcp_purge_at :: timestamp
  rcp_retention_days :: int
  rcp_receipt_id :: uuid

record TenantRow =
  row_table :: string
  row_id :: string
  row_workspace_id :: uuid
  row_payload :: "(string, json) dict"
  row_deleted_at :: "timestamp option"
  row_historical_hash :: "string option"

record TenantPersistence =
  tp_rows :: "TenantRow list"
  tp_receipts :: "(uuid, DeletionReceipt) dict"

definition historical_hash :: "json \<Rightarrow> string" where
  "historical_hash payload = json_sha256 fmt_ascii payload"

definition is_workspace_deleted :: "uuid \<Rightarrow> TenantPersistence \<Rightarrow> bool" where
  "is_workspace_deleted ws p \<longleftrightarrow> list_ex (\<lambda>r. rcp_workspace_id r = ws) (dvalues (tp_receipts p))"

definition tenant_add :: "string \<Rightarrow> string \<Rightarrow> uuid \<Rightarrow> (string, json) dict \<Rightarrow> TenantPersistence \<Rightarrow> TenantPersistence" where
  "tenant_add table rid ws payload p =
     p\<lparr>tp_rows := tp_rows p @ [\<lparr>row_table = table, row_id = rid, row_workspace_id = ws, row_payload = payload,
        row_deleted_at = None, row_historical_hash = None\<rparr>]\<rparr>"

definition visible :: "string \<Rightarrow> uuid \<Rightarrow> TenantPersistence \<Rightarrow> (string, json) dict list" where
  "visible table ws p =
     map row_payload (filter (\<lambda>r. row_table r = table \<and> row_workspace_id r = ws \<and> row_deleted_at r = None) (tp_rows p))"

definition soft_delete_row :: "uuid \<Rightarrow> timestamp \<Rightarrow> TenantRow \<Rightarrow> TenantRow" where
  "soft_delete_row ws deleted r =
     (if row_workspace_id r \<noteq> ws \<or> row_deleted_at r \<noteq> None then r
      else r\<lparr>row_deleted_at := Some deleted, row_historical_hash := Some (historical_hash (JObj (row_payload r)))\<rparr>)"

definition soft_delete_workspace ::
  "uuid \<Rightarrow> int \<Rightarrow> timestamp \<Rightarrow> uuid \<Rightarrow> TenantPersistence \<Rightarrow> DeletionReceipt \<times> TenantPersistence" where
  "soft_delete_workspace ws retention_days deleted new_id p =
     (let receipt = \<lparr>rcp_workspace_id = ws, rcp_deleted_at = deleted, rcp_purge_at = purge_at retention_days deleted,
            rcp_retention_days = retention_days, rcp_receipt_id = new_id\<rparr>
      in (receipt, p\<lparr>tp_rows := map (soft_delete_row ws deleted) (tp_rows p), tp_receipts := dset ws receipt (tp_receipts p)\<rparr>))"

section \<open>Workspace endpoints\<close>

definition delete_workspace ::
  "request \<Rightarrow> TenantContext \<Rightarrow> uuid \<Rightarrow> timestamp \<Rightarrow> uuid \<Rightarrow> ('q, 'l, TenantPersistence) app
    \<Rightarrow> (DeletionReceipt, 'q, 'l, TenantPersistence) handled" where
  "delete_workspace rq tenant ws now new_id =
     guarded rq tenant Res_WORKSPACE Act_DELETE (\<lambda>s.
       if ws \<noteq> ctx_workspace_id tenant then (Inl (Http 404 (JStr ''workspace not found'')), s)
       else case require_role tenant [WorkspaceRole_OWNER, WorkspaceRole_ADMIN] of
         Inl e \<Rightarrow> (Inl e, s)
       | Inr _ \<Rightarrow>
           (case soft_delete_workspace ws DEFAULT_RETENTION_DAYS now new_id (app_persistence s) of
              (receipt, p) \<Rightarrow> (Inr receipt, s\<lparr>app_persistence := p\<rparr>)))"

definition me :: "request \<Rightarrow> TenantContext \<Rightarrow> (Plan \<Rightarrow> string) \<Rightarrow> ('q, 'l, 'p) app \<Rightarrow> ((string, json) dict, 'q, 'l, 'p) handled" where
  "me rq tenant plan_text =
     guarded rq tenant Res_WORKSPACE Act_READ (\<lambda>s.
       (Inr [(''user_id'', JStr (uuid_str (ctx_user_id tenant))), (''workspace_id'', JStr (uuid_str (ctx_workspace_id tenant))),
             (''plan'', JStr (plan_text (ctx_plan tenant)))], s))"

text \<open>The authenticated user is an argument; \<open>None\<close> is a deployment without provisioning.\<close>

definition provision_workspace ::
  "('q, 'l, 'p) api_services \<Rightarrow> uuid \<Rightarrow> string \<Rightarrow> uuid \<Rightarrow> Provisioner option \<times> 'l
    \<Rightarrow> (api_exn + WorkspaceProvisioningResult) \<times> Provisioner option \<times> 'l" where
  "provision_workspace sv user_id name new_id = (\<lambda>(workspaces, l).
     case workspaces of
       None \<Rightarrow> (Inl (Http 503 (JStr ''workspace provisioning is not configured'')), workspaces, l)
     | Some w \<Rightarrow>
         (case require_rate_limit_principal sv (sha256_hex (utf8_encode (''user:'' @ uuid_str user_id))) l of
            (Inl e, l') \<Rightarrow> (Inl e, workspaces, l')
          | (Inr _, l') \<Rightarrow>
              (case provision new_id user_id name w of
                 (Inr res, w') \<Rightarrow> (Inr res, Some w', l')
               | (Inl (Conflict m), w') \<Rightarrow> (Inl (Http 409 (JStr m)), Some w', l')
               | (Inl (ValueError m), w') \<Rightarrow> (Inl (Http 400 (JStr m)), Some w', l')
               | (Inl (RuntimeError m), w') \<Rightarrow> (Inl (Http 503 (JStr ''workspace provisioning unavailable'')), Some w', l')
               | (Inl e, w') \<Rightarrow> (Inl (Unhandled e), Some w', l'))))"

section \<open>Billing endpoints\<close>

text \<open>A provider call fails with a \<open>BillingProviderError\<close> or with something else.\<close>

datatype provider_failure = BillingProviderError string | ProviderRaised exn

fun provider_http :: "provider_failure \<Rightarrow> api_exn" where
  "provider_http (BillingProviderError m) = Http 503 (JStr m)"
| "provider_http (ProviderRaised e) = Unhandled e"

definition billing_checkout ::
  "('q, 'l, 'p) api_services \<Rightarrow> request \<Rightarrow> TenantContext \<Rightarrow> (uuid \<Rightarrow> Plan \<Rightarrow> provider_failure + string) option \<Rightarrow> Plan
    \<Rightarrow> ('q, 'l, 'p) app \<Rightarrow> (string, 'q, 'l, 'p) handled" where
  "billing_checkout sv rq tenant provider plan =
     guarded rq tenant Res_BILLING Act_UPDATE (\<lambda>s.
       case require_active_workspace sv tenant s of
         Inl e \<Rightarrow> (Inl e, s)
       | Inr _ \<Rightarrow>
      (case require_role tenant [WorkspaceRole_OWNER, WorkspaceRole_BILLING_ADMIN] of
         Inl e \<Rightarrow> (Inl e, s)
       | Inr _ \<Rightarrow>
      (case provider of
         None \<Rightarrow> (Inl (Http 503 (JStr ''billing checkout is not configured'')), s)
       | Some create_checkout \<Rightarrow>
           if plan = Plan_FREE then (Inl (Http 400 (JStr ''free plan does not require checkout'')), s)
           else if ctx_plan tenant \<noteq> Plan_FREE
           then (Inl (Http 409 (JStr ''workspace already has an active paid subscription; use the billing portal to change plans'')), s)
           else (case create_checkout (ctx_workspace_id tenant) plan of
                   Inl f \<Rightarrow> (Inl (provider_http f), s)
                 | Inr url \<Rightarrow> (Inr url, s)))))"

definition billing_portal ::
  "('q, 'l, 'p) api_services \<Rightarrow> request \<Rightarrow> TenantContext \<Rightarrow> (uuid \<Rightarrow> provider_failure + string) option
    \<Rightarrow> ('q, 'l, 'p) app \<Rightarrow> (string, 'q, 'l, 'p) handled" where
  "billing_portal sv rq tenant provider =
     guarded rq tenant Res_BILLING Act_UPDATE (\<lambda>s.
       case require_active_workspace sv tenant s of
         Inl e \<Rightarrow> (Inl e, s)
       | Inr _ \<Rightarrow>
      (case require_role tenant [WorkspaceRole_OWNER, WorkspaceRole_BILLING_ADMIN] of
         Inl e \<Rightarrow> (Inl e, s)
       | Inr _ \<Rightarrow>
      (case provider of
         None \<Rightarrow> (Inl (Http 503 (JStr ''billing portal is not configured'')), s)
       | Some create_portal \<Rightarrow>
           (case create_portal (ctx_workspace_id tenant) of
              Inl f \<Rightarrow> (Inl (provider_http f), s)
            | Inr url \<Rightarrow> (Inr url, s)))))"

text \<open>\<open>a or b\<close> of two optional header strings.\<close>

definition or_header :: "string option \<Rightarrow> string option \<Rightarrow> string option" where
  "or_header a b = (case a of Some x \<Rightarrow> if x \<noteq> [] then a else b | None \<Rightarrow> b)"

definition given :: "string option \<Rightarrow> string option" where
  "given h = (case h of Some x \<Rightarrow> if x \<noteq> [] then h else None | None \<Rightarrow> None)"

text \<open>
  The signature check of the webhook.  Its errors are \<open>BillingSignatureError\<close>, here a \<open>ValueError\<close>, and the
  \<open>TypeError\<close> of comparing text that is not ASCII.
\<close>

definition webhook_signature_check ::
  "string \<Rightarrow> string \<Rightarrow> string option \<Rightarrow> string option \<Rightarrow> char list \<Rightarrow> string \<Rightarrow> int \<Rightarrow> unit result" where
  "webhook_signature_check provider signature stripe_signature x_signature payload secret now =
     (if provider = ''stripe''
      then if stripe_signature \<noteq> Some signature then Inl (ValueError ''Stripe provider requires Stripe-Signature'')
           else verify_stripe_signature payload signature secret 300 now
      else if x_signature \<noteq> Some signature then Inl (ValueError ''HMAC provider requires X-Billing-Signature'')
           else verify_hmac_signature payload signature secret)"

definition signature_rejected :: "exn \<Rightarrow> api_exn" where
  "signature_rejected e = (case e of TypeError _ \<Rightarrow> Http 400 (JStr ''invalid billing event'')
     | _ \<Rightarrow> Http 401 (JStr ''invalid billing webhook signature''))"

definition invalid_event :: "exn \<Rightarrow> api_exn" where
  "invalid_event e = (case e of TypeError _ \<Rightarrow> Http 400 (JStr ''invalid billing event'')
     | ValueError _ \<Rightarrow> Http 400 (JStr ''invalid billing event'') | _ \<Rightarrow> Unhandled e)"

text \<open>
  \<open>decode\<close> is \<open>json.loads\<close> of the payload; its \<open>JSONDecodeError\<close> is a \<open>ValueError\<close>.  The stores are the
  deduplicating event store, \<open>None\<close> when billing is not configured.
\<close>

definition billing_webhook ::
  "(char list \<Rightarrow> json result) \<Rightarrow> string option \<Rightarrow> (string, string) dict \<Rightarrow> char list \<Rightarrow> string option \<Rightarrow> string option
    \<Rightarrow> string option \<Rightarrow> int \<Rightarrow> event_store option \<Rightarrow> (api_exn + string) \<times> event_store option" where
  "billing_webhook decode secret prices payload x_signature stripe_signature x_provider now billing =
     (case (billing, given secret) of
        (Some events, Some key) \<Rightarrow>
          (case (given (or_header stripe_signature x_signature), given x_provider) of
             (Some signature, Some raw_provider) \<Rightarrow>
               let provider = py_lower (py_strip raw_provider) in
               if provider \<notin> {''stripe'', ''hmac''} then (Inl (Http 400 (JStr ''unsupported billing provider'')), billing)
               else (case webhook_signature_check provider signature stripe_signature x_signature payload key now of
                 Inl e \<Rightarrow> (Inl (signature_rejected e), billing)
               | Inr _ \<Rightarrow> (case rbind (decode payload) (\<lambda>dat. parse_billing_event dat prices (provider = ''stripe'')) of
                       Inl e \<Rightarrow> (Inl (invalid_event e), billing)
                     | Inr ev \<Rightarrow>
                         (case process_event ev (sha256_hex payload) events of
                            (Inl (Conflict m), es) \<Rightarrow> (Inl (Http 409 (JStr m)), Some es)
                          | (Inl _, es) \<Rightarrow> (Inl (Unhandled (RuntimeError ''billing event processing failed'')), Some es)
                          | (Inr processed, es) \<Rightarrow> (Inr (if processed then ''processed'' else ''replayed''), Some es))))
           | _ \<Rightarrow> (Inl (Http 400 (JStr ''billing signature and provider are required'')), billing))
      | _ \<Rightarrow> (Inl (Http 503 (JStr ''billing webhook is not configured'')), billing))"

section \<open>Properties\<close>

text \<open>
  C33: The webhook acts only on authenticated payloads: the event store changes only when the request
  names a supported provider, carries that provider's own signature header, and the signature verifies
  over exactly the received bytes under the configured secret; then the stored event is the one parsed
  from those bytes, filed under its id with their SHA-256, and the answer is \<open>processed\<close>.  A repeated
  delivery and every rejected request leave the store as it was.
\<close>

theorem webhook_authenticated:
  assumes "billing_webhook decode secret prices payload x_signature stripe_signature x_provider now billing = (r, billing')"
  shows "billing' = billing
    \<or> (\<exists>events provider signature key ev dat. billing = Some events \<and> secret = Some key
        \<and> map_option (py_lower \<circ> py_strip) x_provider = Some provider
        \<and> (provider = ''stripe'' \<and> stripe_signature = Some signature
             \<and> verify_stripe_signature payload signature key 300 now = Inr ()
           \<or> provider = ''hmac'' \<and> x_signature = Some signature \<and> verify_hmac_signature payload signature key = Inr ())
        \<and> decode payload = Inr dat \<and> parse_billing_event dat prices (provider = ''stripe'') = Inr ev
        \<and> dget events (event_id ev) = None \<and> r = Inr ''processed''
        \<and> billing' = Some (dset (event_id ev) (sha256_hex payload, ev) events))"
proof (cases "billing' = billing")
  case False
  obtain events key signature raw where cfg: "billing = Some events" "given secret = Some key"
    "given (or_header stripe_signature x_signature) = Some signature" "given x_provider = Some raw"
    using assms False by (auto simp: billing_webhook_def split: option.splits prod.splits)
  define provider where "provider = py_lower (py_strip raw)"
  have known: "provider \<in> {''stripe'', ''hmac''}"
    and ok: "webhook_signature_check provider signature stripe_signature x_signature payload key now = Inr ()"
    using assms False by (auto simp: billing_webhook_def cfg provider_def Let_def split: if_splits sum.splits)
  obtain ev where ev: "rbind (decode payload) (\<lambda>dat. parse_billing_event dat prices (provider = ''stripe'')) = Inr ev"
    using assms False known ok
    by (cases "rbind (decode payload) (\<lambda>dat. parse_billing_event dat prices (provider = ''stripe''))")
      (auto simp: billing_webhook_def cfg provider_def Let_def)
  have "dget events (event_id ev) = None \<and> r = Inr ''processed'' \<and> billing' = Some (dset (event_id ev) (sha256_hex payload, ev) events)"
    using assms False known ok ev
    by (cases "dget events (event_id ev)")
      (auto simp: billing_webhook_def cfg provider_def Let_def process_event_def split: if_splits prod.splits)
  moreover obtain dat where "decode payload = Inr dat" "parse_billing_event dat prices (provider = ''stripe'') = Inr ev"
    using ev by (auto simp: rbind_Inr)
  moreover have "secret = Some key" "map_option (py_lower \<circ> py_strip) x_provider = Some provider"
    using cfg by (auto simp: given_def provider_def split: option.splits if_splits)
  ultimately show ?thesis using cfg(1) known ok unfolding webhook_signature_check_def by (auto split: if_splits)
qed simp

theorem webhook_authenticated_witness:
  "\<exists>ev b. billing_webhook (\<lambda>_. Inr sample_event) (Some ''s'') [] ''x'' None (Some (stripe_header 100 ''s'' ''x'')) (Some ''stripe'') 200 (Some [])
      = (Inr ''processed'', b) \<and> b = Some (dset (event_id ev) (sha256_hex ''x'', ev) [])"
proof -
  obtain r b where run: "billing_webhook (\<lambda>_. Inr sample_event) (Some ''s'') [] ''x'' None (Some (stripe_header 100 ''s'' ''x''))
      (Some ''stripe'') 200 (Some []) = (r, b)" by (metis prod.exhaust)
  obtain ev where ev: "parse_billing_event sample_event [] True = Inr ev" using sample_event_parsed by blast
  define h where "h = stripe_header 100 ''s'' ''x''"
  have "h \<noteq> []" by (simp add: stripe_header_def h_def)
  moreover have "py_lower (py_strip ''stripe'') = ''stripe''"
    by (simp add: py_strip_def py_isspace_def py_lower_def py_lower_char_def Let_def) (simp_all add: char_of_def)?
  moreover have "verify_stripe_signature ''x'' h ''s'' 300 200 = Inr ()"
    by (simp add: verify_stripe_signature_def stripe_header_parts h_def)
  ultimately have "billing_webhook (\<lambda>_. Inr sample_event) (Some ''s'') [] ''x'' None (Some h) (Some ''stripe'') 200 (Some [])
      = (Inr ''processed'', Some (dset (event_id ev) (sha256_hex ''x'', ev) []))"
    using ev by (simp add: billing_webhook_def given_def or_header_def webhook_signature_check_def rbind_def process_event_def)
  then have "b \<noteq> Some []" using run by (simp add: h_def)
  then show ?thesis using webhook_authenticated [OF run] run by auto
qed

text \<open>Receipts are filed under the workspace they are about.\<close>

definition tenant_inv :: "TenantPersistence \<Rightarrow> bool" where
  "tenant_inv p \<longleftrightarrow> wf_dict (tp_receipts p) \<and> (\<forall>k r. dget (tp_receipts p) k = Some r \<longrightarrow> rcp_workspace_id r = k)"

lemma deleted_iff: "tenant_inv p \<Longrightarrow> is_workspace_deleted ws p \<longleftrightarrow> dget (tp_receipts p) ws \<noteq> None"
  unfolding is_workspace_deleted_def list_ex_iff tenant_inv_def by (metis dvalues_iff not_None_eq)

lemma soft_delete_inv: "tenant_inv p \<Longrightarrow> tenant_inv (snd (soft_delete_workspace ws days now new_id p))"
  by (simp add: soft_delete_workspace_def tenant_inv_def Let_def)

text \<open>
  A deletion hides every row of the workspace and no other row, keeps all contents, and records for
  each hidden row the time and the hash of its content; from then on the workspace, and no other one,
  counts as deleted besides those that already did.
\<close>

lemma soft_delete_exact:
  assumes "tenant_inv p" "soft_delete_workspace ws days now new_id p = (rcp, p')"
  shows "visible table ws p' = []" "w \<noteq> ws \<Longrightarrow> visible table w p' = visible table w p"
    "is_workspace_deleted w p' \<longleftrightarrow> w = ws \<or> is_workspace_deleted w p"
    "map row_payload (tp_rows p') = map row_payload (tp_rows p)"
    "r \<in> set (tp_rows p) \<Longrightarrow> row_workspace_id r = ws \<Longrightarrow> row_deleted_at r = None \<Longrightarrow>
       r\<lparr>row_deleted_at := Some now, row_historical_hash := Some (historical_hash (JObj (row_payload r)))\<rparr> \<in> set (tp_rows p')"
proof -
  obtain rcp' where p': "p' = p\<lparr>tp_rows := map (soft_delete_row ws now) (tp_rows p), tp_receipts := dset ws rcp' (tp_receipts p)\<rparr>"
    using assms(2) by (auto simp: soft_delete_workspace_def Let_def)
  have "row_deleted_at (soft_delete_row ws now r) = None \<Longrightarrow> row_workspace_id (soft_delete_row ws now r) \<noteq> ws" for r
    by (simp add: soft_delete_row_def split: if_splits)
  then show "visible table ws p' = []" by (simp add: visible_def p' filter_empty_conv) blast
  have "map row_payload (filter (\<lambda>r. row_table r = table \<and> row_workspace_id r = w \<and> row_deleted_at r = None)
        (map (soft_delete_row ws now) rs))
      = map row_payload (filter (\<lambda>r. row_table r = table \<and> row_workspace_id r = w \<and> row_deleted_at r = None) rs)"
    if "w \<noteq> ws" for rs
    using that by (induction rs) (auto simp: soft_delete_row_def)
  then show "visible table w p' = visible table w p" if "w \<noteq> ws"
    using that by (simp add: visible_def p')
  show "is_workspace_deleted w p' \<longleftrightarrow> w = ws \<or> is_workspace_deleted w p"
    using deleted_iff [OF assms(1), of w] deleted_iff [OF soft_delete_inv [OF assms(1)], of w ws days now new_id] assms(2)
    by (auto simp: p')
  show "map row_payload (tp_rows p') = map row_payload (tp_rows p)" by (simp add: p' soft_delete_row_def comp_def)
  show "r\<lparr>row_deleted_at := Some now, row_historical_hash := Some (historical_hash (JObj (row_payload r)))\<rparr> \<in> set (tp_rows p')"
    if "r \<in> set (tp_rows p)" "row_workspace_id r = ws" "row_deleted_at r = None"
    using that by (force simp: p' soft_delete_row_def)
qed

text \<open>
  Deleting is decided by two tables that differ: an administrator is named in the handler but has no
  delete permission on workspaces, so only owners delete.
\<close>

lemma only_owners_delete:
  assumes "delete_workspace rq tenant ws now new_id s = (Inr rcp, s')"
  shows "ctx_role tenant = WorkspaceRole_OWNER" "ws = ctx_workspace_id tenant"
proof -
  have "Act_DELETE \<in> may (role_from_tenant (ctx_role tenant)) Res_WORKSPACE" "ws = ctx_workspace_id tenant"
    using assms by (auto simp: delete_workspace_def guarded_def check_permission_def is_allowed_members split: if_splits)
  then show "ctx_role tenant = WorkspaceRole_OWNER" "ws = ctx_workspace_id tenant"
    by (cases "ctx_role tenant"; simp add: policy_sets)+
qed

text \<open>
  A deleted workspace is refused by the endpoints that ask for an active one.
\<close>

lemma deleted_workspace_refused:
  assumes "svc_deleted sv (ctx_workspace_id tenant) (app_persistence s) = Inr True"
  shows "\<exists>e. billing_checkout sv rq tenant provider plan s = (Inl e, s)" "\<exists>e. billing_portal sv rq tenant portal s = (Inl e, s)"
  using assms by (auto simp: billing_checkout_def billing_portal_def guarded_def require_active_workspace_def split: sum.split)

end
