(* ===== verification/Api_Research.thy ===== *)
theory Api_Research
  imports Api_Runs "HOL-Library.Log_Nat"
begin

text \<open>
  The routes that turn a recorded result into a finding (\<open>saas/validation_api.py\<close>,
  \<open>saas/finding_api.py\<close>) and the evidence routes (\<open>saas/evidence_api.py\<close>), with their in-memory stores.
  A store that is not configured is \<open>None\<close>.  Payloads are JSON values without floating-point numbers.
\<close>

section \<open>Stores\<close>

type_synonym 'm validation_store = "(uuid \<times> uuid, 'm ResearchValidationRecord) dict"
type_synonym finding_store = "(uuid \<times> uuid, ResearchFindingRecord) dict"

definition validation_create ::
  "'m ResearchValidationRecord \<Rightarrow> 'm validation_store \<Rightarrow> ('m ResearchValidationRecord, 'm validation_store) outcome" where
  "validation_create r d =
     (let key = (val_workspace_id r, val_research_run_id r) in
      case dget d key of
        Some existing \<Rightarrow>
          if val_sha256 existing \<noteq> val_sha256 r
          then (Inl (ValueError ''research validation already exists with a different digest''), d)
          else (Inr existing, d)
      | None \<Rightarrow> (Inr r, dset key r d))"

definition validation_get :: "uuid \<Rightarrow> uuid \<Rightarrow> 'm validation_store \<Rightarrow> 'm ResearchValidationRecord option" where
  "validation_get ws run d = dget d (ws, run)"

definition finding_create ::
  "ResearchFindingRecord \<Rightarrow> finding_store \<Rightarrow> (ResearchFindingRecord, finding_store) outcome" where
  "finding_create r d =
     (let key = (fin_workspace_id r, fin_research_run_id r) in
      case dget d key of
        Some existing \<Rightarrow>
          if fin_sha256 existing \<noteq> fin_sha256 r
          then (Inl (ValueError ''research finding already exists with a different digest''), d)
          else (Inr existing, d)
      | None \<Rightarrow> (Inr r, dset key r d))"

definition finding_get :: "uuid \<Rightarrow> uuid \<Rightarrow> finding_store \<Rightarrow> ResearchFindingRecord option" where
  "finding_get ws run d = dget d (ws, run)"

definition finding_list ::
  "uuid \<Rightarrow> int \<Rightarrow> int \<Rightarrow> string \<Rightarrow> string \<Rightarrow> string option \<Rightarrow> finding_store
    \<Rightarrow> (ResearchFindingRecord list \<times> int) result" where
  "finding_list ws limit offset sort_by sort_order status d =
     (if \<not> (1 \<le> limit \<and> limit \<le> 100) \<or> offset < 0 then Inl (ValueError ''invalid pagination'')
      else if sort_by \<notin> {''created_at'', ''status''} then Inl (ValueError ''invalid sort field'')
      else if sort_order \<notin> {''asc'', ''desc''} then Inl (ValueError ''invalid sort order'')
      else
        let selected = map snd (filter (\<lambda>((row_workspace, _), r).
              row_workspace = ws \<and> (status = None \<or> status = Some (fin_status r))) d);
            desc = (sort_order = ''desc'');
            ordered = (if sort_by = ''created_at'' then py_sort fin_created_at desc selected
                       else py_sort fin_status desc selected)
        in Inr (take (nat limit) (drop (nat offset) ordered), int (length ordered)))"

text \<open>Evidence rows are keyed by their own identifier only.\<close>

record ResearchEvidenceRecord =
  er_id :: uuid
  er_workspace_id :: uuid
  er_research_run_id :: uuid
  er_artifact_id :: "uuid option"
  er_claim :: string
  er_status :: string
  er_provenance :: "(string \<times> json) list"
  er_claim_id :: "uuid option"
  er_plan_hash :: "string option"

type_synonym evidence_rows = "(uuid, ResearchEvidenceRecord) dict"

definition evidence_add :: "ResearchEvidenceRecord \<Rightarrow> evidence_rows \<Rightarrow> (ResearchEvidenceRecord, evidence_rows) outcome" where
  "evidence_add r d = (Inr r, dset (er_id r) r d)"

definition list_for_claim :: "uuid \<Rightarrow> string \<Rightarrow> evidence_rows \<Rightarrow> ResearchEvidenceRecord list" where
  "list_for_claim ws claim_id d =
     sort_key (uuid_str \<circ> er_id)
       (filter (\<lambda>r. er_workspace_id r = ws
          \<and> (case er_claim_id r of None \<Rightarrow> ''None'' | Some c \<Rightarrow> uuid_str c) = claim_id) (dvalues d))"

definition list_for_run :: "uuid \<Rightarrow> uuid \<Rightarrow> evidence_rows \<Rightarrow> ResearchEvidenceRecord list" where
  "list_for_run ws run d =
     sort_key (uuid_str \<circ> er_id)
       (filter (\<lambda>r. er_workspace_id r = ws \<and> er_research_run_id r = run) (dvalues d))"

section \<open>Shared state\<close>

record 'm research_state =
  rs_jobs :: JobStore
  rs_validations :: "'m validation_store option"
  rs_findings :: "finding_store option"
  rs_evidence :: "evidence_rows option"

type_synonym ('a, 'm) research_handled = "(api_exn + 'a) \<times> 'm research_state"

section \<open>Validation routes\<close>

text \<open>
  \<open>float(n)\<close> of an integer: the nearest multiple of the last place of a 53-bit significand, ties to even,
  and an \<open>OverflowError\<close> when that is \<open>2^1024\<close> or more.  The value of the float is kept as an integer.
\<close>

definition py_float_of_int :: "int \<Rightarrow> int result" where
  "py_float_of_int n =
     (let a = \<bar>n\<bar>;
          e = nat (bitlen a - 53);
          q = a div 2 ^ e;
          r = a mod 2 ^ e;
          q' = (if 2 * r > 2 ^ e \<or> (2 * r = 2 ^ e \<and> odd q) then q + 1 else q);
          v = q' * 2 ^ e
      in if v \<ge> 2 ^ 1024 then Inl (OverflowError ''int too large to convert to float'') else Inr (sgn n * v))"

fun numeric_metrics :: "(string \<times> json) list \<Rightarrow> (string \<times> int) list result" where
  "numeric_metrics [] = Inr []"
| "numeric_metrics ((k, JInt n) # kvs) =
     rbind (py_float_of_int n) (\<lambda>x. rbind (numeric_metrics kvs) (\<lambda>ms. Inr ((k, x) # ms)))"
| "numeric_metrics (kv # kvs) = numeric_metrics kvs"

definition validation_metrics :: "(string \<times> json) list \<Rightarrow> (string \<times> int) list result" where
  "validation_metrics payload =
     (case map_of payload ''metrics'' of Some (JObj kvs) \<Rightarrow> numeric_metrics kvs | _ \<Rightarrow> Inr [])"

text \<open>\<open>ResearchValidationRecord.canonical_payload\<close> and \<open>compute_validation_sha256\<close>.\<close>

definition validation_canonical_payload :: "(string \<times> json) list \<Rightarrow> (string \<times> json) list" where
  "validation_canonical_payload p = (case json_canon (JObj p) of JObj q \<Rightarrow> q | _ \<Rightarrow> [])"

definition compute_validation_sha256 :: "(string \<times> json) list \<Rightarrow> string" where
  "compute_validation_sha256 p = json_sha256 fmt_ascii (JObj p)"

record ResearchValidationRequest =
  vreq_result_manifest_sha256 :: string
  vreq_status :: string
  vreq_payload :: "(string \<times> json) list"

definition build_validation ::
  "TenantContext \<Rightarrow> uuid \<Rightarrow> ResearchValidationRequest \<Rightarrow> ResearchJob \<Rightarrow> ResearchRunResultRecord \<Rightarrow> uuid
    \<Rightarrow> int ResearchValidationRecord result" where
  "build_validation tenant jid req job res new_id =
     (let payload = validation_canonical_payload (vreq_payload req) in
      rbind (validation_metrics payload) (\<lambda>metrics.
        ResearchValidationRecord_init
          \<lparr>val_id = new_id, val_workspace_id = ctx_workspace_id tenant, val_research_run_id = jid,
           val_result_manifest_sha256 = rec_manifest_sha256 res, val_claim_id = job_claim_id job,
           val_plan_hash = job_plan_hash job, val_sha256 = compute_validation_sha256 payload,
           val_status = py_strip (vreq_status req), val_metrics = metrics,
           val_contract_version = VALIDATION_CONTRACT_VERSION\<rparr>))"

text \<open>The body of the answer lists every field of the persisted record.\<close>

definition create_validation ::
  "request \<Rightarrow> TenantContext \<Rightarrow> uuid \<Rightarrow> ResearchValidationRequest \<Rightarrow> uuid \<Rightarrow> int research_state
    \<Rightarrow> (int ResearchValidationRecord, int) research_handled" where
  "create_validation rq tenant jid req new_id =
     guarded rq tenant Res_JOB Act_UPDATE (\<lambda>s.
       case rs_validations s of
         None \<Rightarrow> (Inl (Http 503 (JStr ''research validation persistence is not configured'')), s)
       | Some vs \<Rightarrow>
      (case get_job (ctx_workspace_id tenant) jid (rs_jobs s) of
         None \<Rightarrow> (Inl (Http 404 (JStr ''research run not found'')), s)
       | Some job \<Rightarrow>
      (case get_result (ctx_workspace_id tenant) jid (rs_jobs s) of
         None \<Rightarrow> (Inl (Http 409 (JStr ''research result is not available'')), s)
       | Some res \<Rightarrow>
           if rec_manifest_sha256 res \<noteq> vreq_result_manifest_sha256 req
           then (Inl (Http 409 (JStr ''result manifest does not match canonical research result'')), s)
           else (case build_validation tenant jid req job res new_id of
                   Inl e \<Rightarrow> (Inl (as_api e), s)
                 | Inr record \<Rightarrow>
                (case validation_create record vs of
                   (Inl (ValueError m), _) \<Rightarrow> (Inl (Http 409 (JStr m)), s)
                 | (Inl e, _) \<Rightarrow> (Inl (as_api e), s)
                 | (Inr persisted, vs') \<Rightarrow> (Inr persisted, s\<lparr>rs_validations := Some vs'\<rparr>))))))"

definition get_validation ::
  "request \<Rightarrow> TenantContext \<Rightarrow> uuid \<Rightarrow> int research_state \<Rightarrow> (int ResearchValidationRecord, int) research_handled" where
  "get_validation rq tenant jid =
     guarded rq tenant Res_JOB Act_READ (\<lambda>s.
       case rs_validations s of
         None \<Rightarrow> (Inl (Http 503 (JStr ''research validation persistence is not configured'')), s)
       | Some vs \<Rightarrow>
      (case validation_get (ctx_workspace_id tenant) jid vs of
         None \<Rightarrow> (Inl (Http 404 (JStr ''research validation not found'')), s)
       | Some v \<Rightarrow> (Inr v, s)))"

section \<open>Finding routes\<close>

record ResearchFindingRequest =
  freq_validation_sha256 :: string
  freq_payload :: "(string \<times> json) list"

definition finding_response :: "ResearchFindingRecord \<Rightarrow> json" where
  "finding_response f =
     JObj [(''id'', JStr (uuid_str (fin_id f))), (''workspace_id'', JStr (uuid_str (fin_workspace_id f))),
       (''research_run_id'', JStr (uuid_str (fin_research_run_id f))),
       (''validation_id'', JStr (uuid_str (fin_validation_id f))),
       (''result_manifest_sha256'', JStr (fin_result_manifest_sha256 f)),
       (''validation_sha256'', JStr (fin_validation_sha256 f)),
       (''claim_id'', case fin_claim_id f of None \<Rightarrow> JNull | Some c \<Rightarrow> JStr c),
       (''plan_hash'', case fin_plan_hash f of None \<Rightarrow> JNull | Some h \<Rightarrow> JStr h),
       (''finding_sha256'', JStr (fin_sha256 f)), (''status'', JStr (fin_status f)),
       (''payload'', JObj (fin_payload f)), (''contract_version'', JStr (fin_contract_version f))]"

definition build_finding ::
  "TenantContext \<Rightarrow> uuid \<Rightarrow> ResearchFindingRequest \<Rightarrow> 'm ResearchValidationRecord \<Rightarrow> timestamp \<Rightarrow> uuid
    \<Rightarrow> ResearchFindingRecord result" where
  "build_finding tenant jid req v now new_id =
     (let payload = finding_canonical_payload (freq_payload req) in
      ResearchFindingRecord_init
        \<lparr>fin_id = new_id, fin_workspace_id = ctx_workspace_id tenant, fin_research_run_id = jid,
         fin_validation_id = val_id v, fin_result_manifest_sha256 = val_result_manifest_sha256 v,
         fin_validation_sha256 = val_sha256 v, fin_claim_id = val_claim_id v, fin_plan_hash = val_plan_hash v,
         fin_sha256 = compute_finding_sha256 payload, fin_status = VALIDATED_STATUS, fin_payload = payload,
         fin_contract_version = FINDING_CONTRACT_VERSION, fin_created_at = now\<rparr>)"

definition create_finding ::
  "request \<Rightarrow> TenantContext \<Rightarrow> uuid \<Rightarrow> ResearchFindingRequest \<Rightarrow> timestamp \<Rightarrow> uuid \<Rightarrow> 'm research_state
    \<Rightarrow> (json, 'm) research_handled" where
  "create_finding rq tenant jid req now new_id =
     guarded rq tenant Res_FINDING Act_CREATE (\<lambda>s.
       case rs_findings s of
         None \<Rightarrow> (Inl (Http 503 (JStr ''research finding persistence is not configured'')), s)
       | Some fs \<Rightarrow>
      (case rs_validations s of
         None \<Rightarrow> (Inl (Unhandled (AttributeError ''NoneType object has no attribute get'')), s)
       | Some vs \<Rightarrow>
      (case validation_get (ctx_workspace_id tenant) jid vs of
         None \<Rightarrow> (Inl (Http 404 (JStr ''research validation not found'')), s)
       | Some v \<Rightarrow>
           if val_status v \<noteq> VALIDATED_STATUS
           then (Inl (Http 409 (JStr ''only VALIDATED research results may produce a finding'')), s)
           else if val_sha256 v \<noteq> py_lower (py_strip (freq_validation_sha256 req))
           then (Inl (Http 409 (JStr ''validation digest does not match canonical validation'')), s)
           else (case build_finding tenant jid req v now new_id of
                   Inl e \<Rightarrow> (Inl (as_api e), s)
                 | Inr record \<Rightarrow>
                (case finding_create record fs of
                   (Inl (ValueError m), _) \<Rightarrow> (Inl (Http 409 (JStr m)), s)
                 | (Inl e, _) \<Rightarrow> (Inl (as_api e), s)
                 | (Inr persisted, fs') \<Rightarrow> (Inr (finding_response persisted), s\<lparr>rs_findings := Some fs'\<rparr>))))))"

definition get_finding ::
  "request \<Rightarrow> TenantContext \<Rightarrow> uuid \<Rightarrow> 'm research_state \<Rightarrow> (json, 'm) research_handled" where
  "get_finding rq tenant jid =
     guarded rq tenant Res_FINDING Act_READ (\<lambda>s.
       case rs_findings s of
         None \<Rightarrow> (Inl (Http 503 (JStr ''research finding persistence is not configured'')), s)
       | Some fs \<Rightarrow>
      (case finding_get (ctx_workspace_id tenant) jid fs of
         None \<Rightarrow> (Inl (Http 404 (JStr ''research finding not found'')), s)
       | Some f \<Rightarrow> (Inr (finding_response f), s)))"

text \<open>The parsed query of a list route; \<open>params\<close> are the names in the query string.\<close>

record list_args =
  la_params :: "string list"
  la_page :: string
  la_page_size :: string
  la_sort_by :: string
  la_sort_order :: string
  la_status :: "string option"
  la_tenant :: "string option"

definition research_query :: "list_args \<Rightarrow> ListQuery result" where
  "research_query la =
     (case validate_filter_keys (filter_names (la_params la)) {''status'', ''tenant_id''} of
        Inl e \<Rightarrow> Inl e
      | Inr _ \<Rightarrow> parse_list_query (la_page la) (la_page_size la) (la_sort_by la) (la_sort_order la) (la_status la)
          (la_tenant la) {''created_at'', ''status''})"

definition other_tenant :: "TenantContext \<Rightarrow> list_args \<Rightarrow> bool" where
  "other_tenant tenant la \<longleftrightarrow> la_tenant la \<noteq> None \<and> la_tenant la \<noteq> Some (uuid_str (ctx_workspace_id tenant))"

definition list_http :: "exn \<Rightarrow> api_exn" where
  "list_http e =
     (case e of
        ValueError m \<Rightarrow> Http 400 (JObj [(''code'', JStr (if py_in ''sort'' m then ''INVALID_SORT'' else ''INVALID_FILTER'')),
          (''message'', JStr m)])
      | _ \<Rightarrow> as_api e)"

definition list_findings ::
  "request \<Rightarrow> TenantContext \<Rightarrow> list_args \<Rightarrow> 'm research_state \<Rightarrow> (json page_envelope, 'm) research_handled" where
  "list_findings rq tenant la =
     guarded rq tenant Res_FINDING Act_LIST (\<lambda>s.
       case research_query la of
         Inl e \<Rightarrow> (Inl (pagination_http e), s)
       | Inr q \<Rightarrow>
      (case (if other_tenant tenant la then Inr ([], 0)
             else case rs_findings s of
                    None \<Rightarrow> Inl (AttributeError ''NoneType object has no attribute list'')
                  | Some fs \<Rightarrow> finding_list (ctx_workspace_id tenant) (lq_page_size q) (lq_offset q) (lq_sort_by q)
                      (lq_sort_order q) (lq_status q) fs) of
         Inl e \<Rightarrow> (Inl (list_http e), s)
       | Inr (found, total_rows) \<Rightarrow>
      (case pagination_envelope (map finding_response found) (lq_page q) (lq_page_size q) total_rows
              (Some (rq_request_id rq)) of
         Inl e \<Rightarrow> (Inl (as_api e), s)
       | Inr env \<Rightarrow> (Inr env, s))))"

section \<open>Evidence routes\<close>

definition evidence_response :: "ResearchEvidenceRecord \<Rightarrow> json" where
  "evidence_response r =
     JObj [(''id'', JStr (uuid_str (er_id r))), (''workspace_id'', JStr (uuid_str (er_workspace_id r))),
       (''research_run_id'', JStr (uuid_str (er_research_run_id r))),
       (''claim_id'', case er_claim_id r of None \<Rightarrow> JNull | Some c \<Rightarrow> JStr (uuid_str c)),
       (''plan_hash'', case er_plan_hash r of None \<Rightarrow> JNull | Some h \<Rightarrow> JStr h),
       (''artifact_id'', case er_artifact_id r of None \<Rightarrow> JNull | Some a \<Rightarrow> JStr (uuid_str a)),
       (''claim'', JStr (er_claim r)), (''status'', JStr (er_status r)), (''provenance'', JObj (er_provenance r))]"

definition evidence_page ::
  "request \<Rightarrow> TenantContext \<Rightarrow> list_args \<Rightarrow> ResearchEvidenceRecord list \<Rightarrow> api_exn + json page_envelope" where
  "evidence_page rq tenant la found =
     (case research_query la of
        Inl e \<Rightarrow> Inl (pagination_http e)
      | Inr q \<Rightarrow>
          let mine = (if other_tenant tenant la then [] else found);
              kept = (case lq_status q of None \<Rightarrow> mine | Some st \<Rightarrow> filter (\<lambda>r. er_status r = st) mine);
              desc = (lq_sort_order q = ''desc'');
              ordered = (if lq_sort_by q = ''status'' then py_sort er_status desc kept
                         else py_sort (uuid_str \<circ> er_id) desc kept);
              page_rows = take (nat (lq_page_size q)) (drop (nat (lq_offset q)) ordered)
          in case pagination_envelope (map evidence_response page_rows) (lq_page q) (lq_page_size q)
                    (int (length ordered)) (Some (rq_request_id rq)) of
               Inl e \<Rightarrow> Inl (as_api e)
             | Inr env \<Rightarrow> Inr env)"

definition list_research_run_evidence ::
  "request \<Rightarrow> TenantContext \<Rightarrow> uuid \<Rightarrow> list_args \<Rightarrow> 'm research_state \<Rightarrow> (json page_envelope, 'm) research_handled" where
  "list_research_run_evidence rq tenant jid la =
     guarded rq tenant Res_EVIDENCE Act_LIST (\<lambda>s.
       case research_query la of
         Inl e \<Rightarrow> (Inl (pagination_http e), s)
       | Inr _ \<Rightarrow>
      (case rs_evidence s of
         None \<Rightarrow> (Inl (Http 503 (JStr ''research evidence persistence is not configured'')), s)
       | Some d \<Rightarrow> (evidence_page rq tenant la (list_for_run (ctx_workspace_id tenant) jid d), s)))"

definition get_claim_evidence_graph ::
  "request \<Rightarrow> TenantContext \<Rightarrow> string \<Rightarrow> list_args \<Rightarrow> 'm research_state \<Rightarrow> (json page_envelope, 'm) research_handled" where
  "get_claim_evidence_graph rq tenant claim_id la =
     guarded rq tenant Res_EVIDENCE Act_READ (\<lambda>s.
       if py_strip claim_id = [] \<or> length claim_id > 256 then (Inl (Http 422 (JStr ''invalid claim id'')), s)
       else case research_query la of
         Inl e \<Rightarrow> (Inl (pagination_http e), s)
       | Inr _ \<Rightarrow>
      (case rs_evidence s of
         None \<Rightarrow> (Inl (Http 503 (JStr ''research evidence persistence is not configured'')), s)
       | Some d \<Rightarrow> (evidence_page rq tenant la (list_for_claim (ctx_workspace_id tenant) claim_id d), s)))"

section \<open>Records are written once\<close>

interpretation validations_once: exactly_once "\<lambda>d k. map_option val_sha256 (dget d k)"
  "\<lambda>r. (val_workspace_id r, val_research_run_id r)" val_sha256 "\<lambda>d r. validation_create r d" dget "\<lambda>v. v"
  by unfold_locales (auto simp: validation_create_def Let_def split: option.splits if_splits)

interpretation findings_once: exactly_once "\<lambda>d k. map_option fin_sha256 (dget d k)"
  "\<lambda>r. (fin_workspace_id r, fin_research_run_id r)" fin_sha256 "\<lambda>d r. finding_create r d" dget "\<lambda>v. v"
  by unfold_locales (auto simp: finding_create_def Let_def split: option.splits if_splits)

section \<open>From results to findings\<close>

inductive research_step :: "int research_state \<Rightarrow> int research_state \<Rightarrow> bool" where
  step_job: "op_wf opn \<Longrightarrow> research_step s (s\<lparr>rs_jobs := job_exec ws opn (rs_jobs s)\<rparr>)"
| step_validation: "research_step s (snd (create_validation rq tenant jid vreq new_id s))"
| step_finding: "research_step s (snd (create_finding rq tenant jid freq now new_id s))"
| step_evidence: "rs_evidence s = Some d \<Longrightarrow> research_step s (s\<lparr>rs_evidence := Some (snd (evidence_add r d))\<rparr>)"

definition research_init :: "int research_state \<Rightarrow> bool" where
  "research_init s \<longleftrightarrow> rs_jobs s = empty_store \<and> rs_validations s \<in> {None, Some []} \<and> rs_findings s \<in> {None, Some []}"

definition manifests_ok :: "JobStore \<Rightarrow> bool" where
  "manifests_ok js \<longleftrightarrow> (\<forall>k r. dget (results js) k = Some r \<longrightarrow> is_sha256 (rec_manifest_sha256 r))"

text \<open>A validation under the key of a workspace and run names that run's result, claim and plan.\<close>

definition validation_bound :: "JobStore \<Rightarrow> uuid \<times> uuid \<Rightarrow> 'm ResearchValidationRecord \<Rightarrow> bool" where
  "validation_bound js k v \<longleftrightarrow> (val_workspace_id v, val_research_run_id v) = k \<and> is_sha256 (val_sha256 v)
     \<and> (\<exists>r j. get_result (fst k) (snd k) js = Some r \<and> val_result_manifest_sha256 v = rec_manifest_sha256 r
          \<and> get_job (fst k) (snd k) js = Some j \<and> val_claim_id v = job_claim_id j
          \<and> validate_optional_sha256 (job_plan_hash j) ''plan_hash'' = Inr (val_plan_hash v))"

text \<open>A finding copies the validation of its run.\<close>

definition finding_of :: "'m ResearchValidationRecord \<Rightarrow> ResearchFindingRecord \<Rightarrow> bool" where
  "finding_of v f \<longleftrightarrow> val_status v = VALIDATED_STATUS \<and> fin_status f = VALIDATED_STATUS
     \<and> fin_validation_id f = val_id v \<and> fin_validation_sha256 f = val_sha256 v
     \<and> fin_result_manifest_sha256 f = val_result_manifest_sha256 v \<and> fin_claim_id f = val_claim_id v
     \<and> fin_plan_hash f = val_plan_hash v \<and> fin_sha256 f = compute_finding_sha256 (fin_payload f)"

definition validations_inv :: "JobStore \<Rightarrow> 'm validation_store option \<Rightarrow> bool" where
  "validations_inv js vs \<longleftrightarrow> (\<forall>d k v. vs = Some d \<longrightarrow> dget d k = Some v \<longrightarrow> validation_bound js k v)"

definition findings_inv :: "'m validation_store option \<Rightarrow> finding_store option \<Rightarrow> bool" where
  "findings_inv vs fs \<longleftrightarrow> (\<forall>d k f. fs = Some d \<longrightarrow> dget d k = Some f \<longrightarrow>
     (fin_workspace_id f, fin_research_run_id f) = k \<and> (\<exists>vd v. vs = Some vd \<and> dget vd k = Some v \<and> finding_of v f))"

definition research_inv :: "int research_state \<Rightarrow> bool" where
  "research_inv s \<longleftrightarrow> store_inv (rs_jobs s) \<and> manifests_ok (rs_jobs s)
     \<and> validations_inv (rs_jobs s) (rs_validations s) \<and> findings_inv (rs_validations s) (rs_findings s)"

text \<open>Nothing recorded is changed or lost.\<close>

definition grows :: "('k, 'v) dict option \<Rightarrow> ('k, 'v) dict option \<Rightarrow> bool" where
  "grows a b \<longleftrightarrow> (\<forall>d. a = Some d \<longrightarrow> (\<exists>d'. b = Some d' \<and> (\<forall>k v. dget d k = Some v \<longrightarrow> dget d' k = Some v)))"

definition research_le :: "int research_state \<Rightarrow> int research_state \<Rightarrow> bool" where
  "research_le s t \<longleftrightarrow> store_le (rs_jobs s) (rs_jobs t) \<and> grows (rs_validations s) (rs_validations t)
     \<and> grows (rs_findings s) (rs_findings t)"

lemma grows_refl [simp]: "grows a a"
  by (simp add: grows_def)

lemma grows_trans: "grows a b \<Longrightarrow> grows b c \<Longrightarrow> grows a c"
  unfolding grows_def by (metis option.inject)

lemma grows_dset: "dget d k = None \<Longrightarrow> grows (Some d) (Some (dset k v d))"
  by (auto simp: grows_def)

lemma research_le_refl: "research_le s s"
  by (simp add: research_le_def store_le_refl)

lemma research_le_trans: "research_le s t \<Longrightarrow> research_le t u \<Longrightarrow> research_le s u"
  unfolding research_le_def by (meson store_le_trans grows_trans)

lemma validation_bound_mono:
  assumes "validation_bound js k v" "store_le js js'"
  shows "validation_bound js' k v"
proof -
  obtain r j where rj: "dget (results js) (snd k) = Some r" "rec_workspace_id r = fst k"
    "dget (jobs js) (snd k) = Some j" "job_workspace_id j = fst k"
    "val_result_manifest_sha256 v = rec_manifest_sha256 r" "val_claim_id v = job_claim_id j"
    "validate_optional_sha256 (job_plan_hash j) ''plan_hash'' = Inr (val_plan_hash v)"
    using assms(1) by (auto simp: validation_bound_def get_result_def get_job_def split: option.splits if_splits)
  have "dget (results js') (snd k) = Some r" using assms(2) rj(1) unfolding store_le_def by blast
  moreover obtain j' where "dget (jobs js') (snd k) = Some j'" "job_identity j' = job_identity j"
    using assms(2) rj(3) unfolding store_le_def by blast
  moreover note job_identity_fields [OF this(2)]
  ultimately show ?thesis using assms(1) rj by (simp add: validation_bound_def get_result_def get_job_def)
qed

lemma validations_inv_mono: "validations_inv js vs \<Longrightarrow> store_le js js' \<Longrightarrow> validations_inv js' vs"
  unfolding validations_inv_def by (blast intro: validation_bound_mono)

lemma findings_inv_mono: "findings_inv vs fs \<Longrightarrow> grows vs vs' \<Longrightarrow> findings_inv vs' fs"
  unfolding findings_inv_def grows_def by blast

lemma manifests_ok_empty: "manifests_ok empty_store"
  by (simp add: manifests_ok_def empty_store_def)

lemma manifests_ok_exec: "manifests_ok js \<Longrightarrow> manifests_ok (job_exec ws opn js)"
proof (cases opn)
  case (OpRecord now jid token res)
  moreover assume "manifests_ok js"
  ultimately show ?thesis
    by (auto simp: manifests_ok_def record_result_def manifest_sha256_def dest!: build_result_record_Inr(3)
        split: option.splits sum.splits if_splits)
qed (auto simp: manifests_ok_def create_def create_idempotent_def claim_def renew_def finish_def transition_def Let_def
    split: option.splits sum.splits if_splits prod.splits)

lemma job_op_step:
  assumes "research_inv s" "op_wf opn" and t_def: "t = s\<lparr>rs_jobs := job_exec ws opn (rs_jobs s)\<rparr>"
  shows "research_inv t \<and> research_le s t"
proof -
  have inv: "store_inv (rs_jobs s)" using assms(1) by (simp add: research_inv_def)
  note eff = job_exec_effect [OF inv assms(2), of ws]
  have "store_le (rs_jobs s) (rs_jobs t)" using job_effect_le [OF eff inv] by (simp add: t_def)
  moreover have "store_inv (rs_jobs t)" using job_effect_inv [OF eff inv] by (simp add: t_def)
  ultimately show ?thesis using assms(1)
    by (auto simp: research_inv_def research_le_def t_def manifests_ok_exec intro: validations_inv_mono)
qed

text \<open>What the two creating routes can do to the state.\<close>

lemma create_validation_effect:
  assumes "create_validation rq tenant jid req new_id s = (r, t)"
  shows "t = s \<or> (\<exists>vs job res v. rs_validations s = Some vs \<and> get_job (ctx_workspace_id tenant) jid (rs_jobs s) = Some job
    \<and> get_result (ctx_workspace_id tenant) jid (rs_jobs s) = Some res \<and> build_validation tenant jid req job res new_id = Inr v
    \<and> dget vs (val_workspace_id v, val_research_run_id v) = None
    \<and> t = s\<lparr>rs_validations := Some (dset (val_workspace_id v, val_research_run_id v) v vs)\<rparr>)"
  using assms
  by (auto simp: create_validation_def guarded_def validation_create_def Let_def
      split: option.splits sum.splits if_splits exn.splits)

lemma create_finding_effect:
  assumes "create_finding rq tenant jid req now new_id s = (r, t)"
  shows "t = s \<or> (\<exists>fs vs v f. rs_findings s = Some fs \<and> rs_validations s = Some vs
    \<and> dget vs (ctx_workspace_id tenant, jid) = Some v \<and> val_status v = VALIDATED_STATUS
    \<and> build_finding tenant jid req v now new_id = Inr f
    \<and> dget fs (fin_workspace_id f, fin_research_run_id f) = None
    \<and> t = s\<lparr>rs_findings := Some (dset (fin_workspace_id f, fin_research_run_id f) f fs)\<rparr>)"
  using assms
  by (auto simp: create_finding_def guarded_def finding_create_def validation_get_def Let_def
      split: option.splits sum.splits if_splits exn.splits)

lemma validation_init_Inr:
  assumes "ResearchValidationRecord_init v = Inr w"
  obtains m h p where "validate_sha256 (val_result_manifest_sha256 v) ''result_manifest_sha256'' = Inr m"
    "validate_sha256 (val_sha256 v) ''validation_sha256'' = Inr h" "validate_optional_sha256 (val_plan_hash v) ''plan_hash'' = Inr p"
    "w = v\<lparr>val_result_manifest_sha256 := m, val_sha256 := h, val_plan_hash := p\<rparr>" "\<not> blank (val_status v)"
  using assms unfolding ResearchValidationRecord_init_def
  by (cases "validate_sha256 (val_result_manifest_sha256 v) ''result_manifest_sha256''";
      cases "validate_sha256 (val_sha256 v) ''validation_sha256''";
      cases "validate_optional_sha256 (val_plan_hash v) ''plan_hash''") (simp_all split: if_splits)

lemma validate_optional_idem:
  assumes "validate_optional_sha256 h f = Inr h'"
  shows "validate_optional_sha256 h' f = Inr h'"
proof (cases h)
  case None
  then show ?thesis using assms by (auto simp: validate_optional_sha256_def)
next
  case (Some x)
  with assms show ?thesis
    by (cases "validate_sha256 x f") (auto simp: validate_optional_sha256_def dest: validate_sha256_Inr)
qed

lemma build_validation_bound:
  assumes "manifests_ok js" "get_job (ctx_workspace_id tenant) jid js = Some job"
    and "get_result (ctx_workspace_id tenant) jid js = Some res" "build_validation tenant jid req job res new_id = Inr v"
  shows "val_workspace_id v = ctx_workspace_id tenant" "val_research_run_id v = jid" "validation_bound js (ctx_workspace_id tenant, jid) v"
proof -
  have ok: "is_sha256 (rec_manifest_sha256 res)"
    using assms(1,3) by (auto simp: manifests_ok_def get_result_def split: option.splits if_splits)
  obtain ms where "ResearchValidationRecord_init
          \<lparr>val_id = new_id, val_workspace_id = ctx_workspace_id tenant, val_research_run_id = jid,
           val_result_manifest_sha256 = rec_manifest_sha256 res, val_claim_id = job_claim_id job,
           val_plan_hash = job_plan_hash job,
           val_sha256 = compute_validation_sha256 (validation_canonical_payload (vreq_payload req)),
           val_status = py_strip (vreq_status req), val_metrics = ms,
           val_contract_version = VALIDATION_CONTRACT_VERSION\<rparr> = Inr v" (is "?i = _")
    using assms(4) by (auto simp: build_validation_def rbind_Inr Let_def)
  then have "val_workspace_id v = ctx_workspace_id tenant \<and> val_research_run_id v = jid \<and> val_claim_id v = job_claim_id job
    \<and> val_result_manifest_sha256 v = rec_manifest_sha256 res \<and> is_sha256 (val_sha256 v)
    \<and> validate_optional_sha256 (job_plan_hash job) ''plan_hash'' = Inr (val_plan_hash v)"
    by (rule validation_init_Inr) (use ok in \<open>auto simp: compute_validation_sha256_def\<close>)
  then show "val_workspace_id v = ctx_workspace_id tenant" "val_research_run_id v = jid" "validation_bound js (ctx_workspace_id tenant, jid) v"
    using assms(2,3) by (auto simp: validation_bound_def)
qed

lemma build_finding_of:
  assumes "build_finding tenant jid req v now new_id = Inr f" "val_status v = VALIDATED_STATUS" "validation_bound js k v"
    "is_sha256 (val_result_manifest_sha256 v)"
  shows "fin_workspace_id f = ctx_workspace_id tenant \<and> fin_research_run_id f = jid \<and> finding_of v f"
proof -
  have "validate_optional_sha256 (val_plan_hash v) ''plan_hash'' = Inr (val_plan_hash v)" "is_sha256 (val_sha256 v)"
    using assms(3) by (auto simp: validation_bound_def dest: validate_optional_idem)
  then show ?thesis
    using assms(1,2,4)
    by (auto simp: build_finding_def ResearchFindingRecord_init_def finding_of_def Let_def split: if_splits)
qed

lemma bound_manifest: "manifests_ok js \<Longrightarrow> validation_bound js k v \<Longrightarrow> is_sha256 (val_result_manifest_sha256 v)"
  by (auto simp: validation_bound_def manifests_ok_def get_result_def split: option.splits if_splits)

lemma validation_step:
  assumes "research_inv s" "create_validation rq tenant jid req new_id s = (r, t)"
  shows "research_inv t \<and> research_le s t"
  using create_validation_effect [OF assms(2)]
proof (elim disjE exE conjE)
  fix vs job res v
  assume new: "rs_validations s = Some vs" "dget vs (val_workspace_id v, val_research_run_id v) = None"
    "t = s\<lparr>rs_validations := Some (dset (val_workspace_id v, val_research_run_id v) v vs)\<rparr>"
    and built: "get_job (ctx_workspace_id tenant) jid (rs_jobs s) = Some job"
      "get_result (ctx_workspace_id tenant) jid (rs_jobs s) = Some res" "build_validation tenant jid req job res new_id = Inr v"
  have inv: "manifests_ok (rs_jobs s)" "validations_inv (rs_jobs s) (Some vs)" "findings_inv (Some vs) (rs_findings s)"
    using assms(1) new(1) by (simp_all add: research_inv_def)
  note b = build_validation_bound [OF inv(1) built]
  have grow: "grows (Some vs) (Some (dset (val_workspace_id v, val_research_run_id v) v vs))" by (rule grows_dset [OF new(2)])
  have "validations_inv (rs_jobs s) (Some (dset (val_workspace_id v, val_research_run_id v) v vs))"
    using inv(2) b(3) by (auto simp: validations_inv_def b(1,2))
  then show ?thesis using assms(1) findings_inv_mono [OF inv(3) grow] grow new
    by (simp add: research_inv_def research_le_def store_le_refl)
qed (simp add: assms(1) research_le_refl)

lemma finding_step:
  assumes "research_inv s" "create_finding rq tenant jid req now new_id s = (r, t)"
  shows "research_inv t \<and> research_le s t"
  using create_finding_effect [OF assms(2)]
proof (elim disjE exE conjE)
  fix fs vs v f
  assume new: "rs_findings s = Some fs" "rs_validations s = Some vs" "dget fs (fin_workspace_id f, fin_research_run_id f) = None"
    "t = s\<lparr>rs_findings := Some (dset (fin_workspace_id f, fin_research_run_id f) f fs)\<rparr>"
    and built: "dget vs (ctx_workspace_id tenant, jid) = Some v" "val_status v = VALIDATED_STATUS"
      "build_finding tenant jid req v now new_id = Inr f"
  have inv: "manifests_ok (rs_jobs s)" "validations_inv (rs_jobs s) (Some vs)" "findings_inv (Some vs) (Some fs)"
    using assms(1) new(1,2) by (simp_all add: research_inv_def)
  have bound: "validation_bound (rs_jobs s) (ctx_workspace_id tenant, jid) v" using inv(2) built(1) unfolding validations_inv_def by blast
  note f = build_finding_of [OF built(3,2) bound bound_manifest [OF inv(1) bound]]
  then have "findings_inv (Some vs) (Some (dset (fin_workspace_id f, fin_research_run_id f) f fs))"
    using inv(3) built(1) by (auto simp: findings_inv_def)
  then show ?thesis using assms(1) new grows_dset [OF new(3)]
    by (simp add: research_inv_def research_le_def store_le_refl)
qed (simp add: assms(1) research_le_refl)

interpretation research_sys: monotone_system research_init research_step research_inv research_le
proof
  show "research_init s \<Longrightarrow> research_inv s" for s
    by (auto simp: research_init_def research_inv_def store_inv_empty manifests_ok_empty validations_inv_def findings_inv_def)
  have step: "research_inv s \<Longrightarrow> research_step s t \<Longrightarrow> research_inv t \<and> research_le s t" for s t
  proof (rotate_tac, erule research_step.cases)
    fix rq tenant jid req new_id u assume "research_inv s" "s = u" "t = snd (create_validation rq tenant jid req new_id u)"
    then show "research_inv t \<and> research_le s t" using validation_step by (metis prod.collapse)
  next
    fix rq tenant jid req now new_id u assume "research_inv s" "s = u" "t = snd (create_finding rq tenant jid req now new_id u)"
    then show "research_inv t \<and> research_le s t" using finding_step by (metis prod.collapse)
  qed (auto simp: job_op_step, simp_all add: research_inv_def research_le_def store_le_refl)
  show "research_inv s \<Longrightarrow> research_step s t \<Longrightarrow> research_inv t" "research_inv s \<Longrightarrow> research_step s t \<Longrightarrow> research_le s t" for s t
    using step by blast+
  show "research_le s s" for s by (rule research_le_refl)
  show "research_le s t \<Longrightarrow> research_le t u \<Longrightarrow> research_le s u" for s t u by (rule research_le_trans)
qed

text \<open>
  C11: Lineage of findings: in every state reached by job operations, validations, findings and
  evidence in any order, a finding of a run has a validation of the same run and workspace with
  status VALIDATED, whose identifier and digest it carries; both carry the manifest digest of the result
  recorded for that run, the claim of its job and the job's normalised plan hash; the finding's digest is
  that of its payload.  Whatever happens afterwards, finding, validation and result stay as they are.
\<close>

theorem finding_lineage:
  assumes "reach research_init research_step s" "rs_findings s = Some fs" "dget fs (ws, run) = Some f"
    and "research_step\<^sup>*\<^sup>* s t"
  shows "\<exists>vs v r j fs' vs'. rs_validations s = Some vs \<and> dget vs (ws, run) = Some v \<and> val_status v = ''VALIDATED''
    \<and> fin_validation_id f = val_id v \<and> fin_validation_sha256 f = val_sha256 v
    \<and> get_result ws run (rs_jobs s) = Some r \<and> rec_manifest_sha256 r = val_result_manifest_sha256 v
    \<and> rec_manifest_sha256 r = fin_result_manifest_sha256 f
    \<and> get_job ws run (rs_jobs s) = Some j \<and> fin_claim_id f = job_claim_id j
    \<and> validate_optional_sha256 (job_plan_hash j) ''plan_hash'' = Inr (fin_plan_hash f)
    \<and> fin_sha256 f = compute_finding_sha256 (fin_payload f)
    \<and> rs_findings t = Some fs' \<and> dget fs' (ws, run) = Some f
    \<and> rs_validations t = Some vs' \<and> dget vs' (ws, run) = Some v \<and> get_result ws run (rs_jobs t) = Some r"
proof -
  note inv = research_sys.reach_inv [OF assms(1)] and le = research_sys.reach_run_rel [OF assms(1,4)]
  obtain vs v where v: "rs_validations s = Some vs" "dget vs (ws, run) = Some v" "finding_of v f"
    using inv assms(2,3) unfolding research_inv_def findings_inv_def by metis
  have "validation_bound (rs_jobs s) (ws, run) v" using inv v(1,2) unfolding research_inv_def validations_inv_def by blast
  then obtain r j where rj: "get_result ws run (rs_jobs s) = Some r" "val_result_manifest_sha256 v = rec_manifest_sha256 r"
    "get_job ws run (rs_jobs s) = Some j" "val_claim_id v = job_claim_id j"
    "validate_optional_sha256 (job_plan_hash j) ''plan_hash'' = Inr (val_plan_hash v)"
    by (auto simp: validation_bound_def)
  have "get_result ws run (rs_jobs t) = Some r"
    using rj(1) le by (auto simp: get_result_def research_le_def store_le_def split: option.splits if_splits)
  moreover obtain fs' vs' where "rs_findings t = Some fs'" "dget fs' (ws, run) = Some f"
    "rs_validations t = Some vs'" "dget vs' (ws, run) = Some v"
    using le assms(2,3) v(1,2) unfolding research_le_def grows_def by metis
  ultimately show ?thesis using v rj by (auto simp: finding_of_def VALIDATED_STATUS_def)
qed

lemma job_reach_lift:
  "reach store_init job_step js
    \<Longrightarrow> reach research_init research_step \<lparr>rs_jobs = js, rs_validations = Some [], rs_findings = Some [], rs_evidence = e\<rparr>"
proof (induction rule: reach.induct)
  case (reach_start js)
  then show ?case by (intro reach.reach_start) (simp add: research_init_def store_init_def)
next
  case (reach_next js js')
  from reach_next.hyps(2) obtain ws opn where "op_wf opn" "js' = job_exec ws opn js"
    by (auto simp: job_step_def elim: job_step_of.cases)
  then show ?case
    using reach.reach_next [OF reach_next.IH] step_job [of opn "\<lparr>rs_jobs = js, rs_validations = Some [], rs_findings = Some [], rs_evidence = e\<rparr>" ws]
    by simp
qed

definition recorded_store :: JobStore where
  "recorded_store = job_exec 7 (OpRecord 1 11 5 sample_result) leased_store"

definition sample_vreq :: ResearchValidationRequest where
  "sample_vreq = \<lparr>vreq_result_manifest_sha256 = manifest_sha256 sample_result, vreq_status = '' VALIDATED '', vreq_payload = []\<rparr>"

definition sample_freq :: ResearchFindingRequest where
  "sample_freq = \<lparr>freq_validation_sha256 = compute_validation_sha256 [], freq_payload = []\<rparr>"

lemma is_sha256_lower: "is_sha256 s \<Longrightarrow> py_lower (py_strip s) = s"
  using is_sha256_plain [of s] by simp

lemma sample_recorded:
  "\<exists>r. get_job 7 11 recorded_store = Some running_job \<and> get_result 7 11 recorded_store = Some r
     \<and> rec_manifest_sha256 r = manifest_sha256 sample_result"
proof -
  have fields: "job_source_sha256 running_job = sample_hash" "job_workspace_id running_job = 7" "job_status running_job = RUNNING"
    "job_claim_id running_job = None" "job_plan_hash running_job = None" "res_source_sha256 sample_result = sample_hash"
    by (simp_all add: running_job_def sample_job_def sample_result_def)
  have "wf_result sample_result" by (simp add: wf_result_def sample_result_def sample_hash_ok)
  then obtain r where r: "build_result_record 7 11 sample_result None None = Inr r"
    using build_result_record_wf [of sample_result None None 7 11] by auto
  have "record_result 1 7 11 5 sample_result leased_store = (Inr r, leased_store\<lparr>results := [(11, r)]\<rparr>)"
    using r by (simp add: record_result_def lease_valid_def leased_store_eq sample_store_eq job_claim_uuid_def fields)
  then show ?thesis using build_result_record_Inr(1,3) [OF r]
    by (simp add: recorded_store_def get_job_def get_result_def leased_store_eq sample_store_eq fields)
qed

lemma sample_lineage:
  "\<exists>s fs f. reach research_init research_step s \<and> rs_findings s = Some fs \<and> dget fs (7, 11) = Some f \<and> fin_payload f = []"
proof -
  let ?s0 = "\<lparr>rs_jobs = recorded_store, rs_validations = Some [], rs_findings = Some [], rs_evidence = None\<rparr>"
  have reach0: "reach research_init research_step ?s0"
    unfolding recorded_store_def by (rule job_reach_lift, rule step_reach [OF leased_store_reach]) simp
  obtain r where r: "get_job 7 11 recorded_store = Some running_job" "get_result 7 11 recorded_store = Some r"
    "rec_manifest_sha256 r = manifest_sha256 sample_result" using sample_recorded by blast
  have owner: "a \<in> may Role_OWNER x" for a x by (cases a; cases x) (simp_all add: policy_sets)
  have strip: "py_strip '' VALIDATED '' = VALIDATED_STATUS" "\<not> blank VALIDATED_STATUS"
    by (simp_all add: py_strip_def py_isspace_def VALIDATED_STATUS_def blank_iff)
  have canon: "validation_canonical_payload [] = []" "finding_canonical_payload [] = []"
    by (simp_all add: validation_canonical_payload_def finding_canonical_payload_def)
  let ?v = "\<lparr>val_id = 21, val_workspace_id = 7, val_research_run_id = 11,
     val_result_manifest_sha256 = manifest_sha256 sample_result, val_claim_id = None, val_plan_hash = None,
     val_sha256 = compute_validation_sha256 [], val_status = VALIDATED_STATUS, val_metrics = [] :: (string \<times> int) list,
     val_contract_version = VALIDATION_CONTRACT_VERSION\<rparr>"
  have built: "build_validation sample_tenant 11 sample_vreq running_job r 21 = Inr ?v"
    by (simp add: build_validation_def sample_vreq_def canon validation_metrics_def strip ResearchValidationRecord_init_def
        sample_tenant_def r(3) running_job_def sample_job_def manifest_sha256_def compute_validation_sha256_def
        validate_optional_sha256_def)
  let ?s1 = "?s0\<lparr>rs_validations := Some [((7, 11), ?v)]\<rparr>"
  have "create_validation sample_request sample_tenant 11 sample_vreq 21 ?s0 = (Inr ?v, ?s1)"
    using r built by (simp add: create_validation_def guarded_def check_permission_def is_allowed_members sample_tenant_def owner
        validation_create_def sample_vreq_def)
  then have reach1: "reach research_init research_step ?s1"
    using reach.reach_next [OF reach0 step_validation [of _ sample_request sample_tenant 11 sample_vreq 21]] by simp
  obtain f where f: "build_finding sample_tenant 11 sample_freq ?v 0 31 = Inr f" "fin_payload f = []"
      "fin_workspace_id f = 7" "fin_research_run_id f = 11"
    by (simp add: build_finding_def sample_freq_def canon ResearchFindingRecord_init_def sample_tenant_def manifest_sha256_def
        compute_validation_sha256_def compute_finding_sha256_def validate_optional_sha256_def)
  have sha: "is_sha256 (compute_validation_sha256 [])" by (simp add: compute_validation_sha256_def)
  have "create_finding sample_request sample_tenant 11 sample_freq 0 31 ?s1
      = (Inr (finding_response f), ?s1\<lparr>rs_findings := Some [((7, 11), f)]\<rparr>)"
    using f by (simp add: create_finding_def guarded_def check_permission_def is_allowed_members sample_tenant_def owner
        validation_get_def finding_create_def sample_freq_def is_sha256_lower [OF sha])
  then have "reach research_init research_step (?s1\<lparr>rs_findings := Some [((7, 11), f)]\<rparr>)"
    using reach.reach_next [OF reach1 step_finding [of _ sample_request sample_tenant 11 sample_freq 0 31]] by simp
  then show ?thesis using f(2)
    by (intro exI [of _ "?s1\<lparr>rs_findings := Some [((7, 11), f)]\<rparr>"] exI [of _ "[((7, 11), f)]"] exI [of _ f]) auto
qed

theorem finding_lineage_witness:
  "\<exists>s fs f r. rs_findings (s :: int research_state) = Some fs \<and> dget fs (7, 11) = Some f
    \<and> get_result 7 11 (rs_jobs s) = Some r \<and> rec_manifest_sha256 r = fin_result_manifest_sha256 f"
proof -
  obtain s fs f where s: "reach research_init research_step s" "rs_findings s = Some fs" "dget fs (7, 11) = Some f"
    using sample_lineage by blast
  from finding_lineage [OF s rtranclp.rtrancl_refl] show ?thesis using s(2,3) by blast
qed

section \<open>Evidence pages\<close>

text \<open>The rows a query selects, in the order it asks for.\<close>

definition evidence_selection :: "ListQuery \<Rightarrow> ResearchEvidenceRecord list \<Rightarrow> ResearchEvidenceRecord list" where
  "evidence_selection q found =
     (let kept = filter (\<lambda>r. lq_status q \<in> {None, Some (er_status r)}) found;
          desc = (lq_sort_order q = ''desc'')
      in if lq_sort_by q = ''status'' then py_sort er_status desc kept else py_sort (uuid_str \<circ> er_id) desc kept)"

lemma evidence_page_slice:
  assumes "research_query la = Inr q" "\<not> other_tenant tenant la"
  shows "\<exists>env. evidence_page rq tenant la found = Inr env
    \<and> env_data env = map evidence_response (take (nat (lq_page_size q)) (drop (nat (lq_offset q)) (evidence_selection q found)))
    \<and> env_total env = int (length (evidence_selection q found))"
proof -
  have q: "1 \<le> lq_page q" "1 \<le> lq_page_size q" "lq_page_size q \<le> 100"
    using assms(1) by (auto simp: research_query_def split: sum.splits dest: parse_list_query_sound)
  have "(case lq_status q of None \<Rightarrow> found | Some st \<Rightarrow> filter (\<lambda>r. er_status r = st) found)
      = filter (\<lambda>r. lq_status q \<in> {None, Some (er_status r)}) found"
    by (auto split: option.split intro: filter_cong)
  then show ?thesis using assms q
    by (simp add: evidence_page_def evidence_selection_def pagination_envelope_def MAX_PAGE_SIZE_def Let_def)
qed

lemma query_page:
  assumes "research_query (la\<lparr>la_page := py_str_int 1\<rparr>) = Inr q"
  shows "research_query (la\<lparr>la_page := py_str_int (int p + 1)\<rparr>) = Inr (q\<lparr>lq_page := int p + 1\<rparr>)"
proof -
  have "validate_filter_keys (filter_names (la_params la)) {''status'', ''tenant_id''} = Inr ()"
    using assms by (auto simp: research_query_def split: sum.splits)
  moreover from this have "parse_list_query (py_str_int 1) (la_page_size la) (la_sort_by la) (la_sort_order la) (la_status la)
      (la_tenant la) {''created_at'', ''status''} = Inr q"
    using assms by (simp add: research_query_def)
  then have "parse_list_query (py_str_int (int p + 1)) (la_page_size la) (la_sort_by la) (la_sort_order la) (la_status la)
      (la_tenant la) {''created_at'', ''status''} = Inr (q\<lparr>lq_page := int p + 1\<rparr>)"
    unfolding parse_list_query_def py_int_py_str_int by (auto split: option.splits if_splits)
  ultimately show ?thesis by (simp add: research_query_def)
qed

text \<open>
  The evidence pages of a run, requested one after the other with the same filters and order, are
  together exactly the stored evidence rows of the caller's workspace and that run that the status filter
  admits, each once, in the requested order; rows of other workspaces or runs never appear.
\<close>

lemma evidence_pages_exact:
  fixes jid :: uuid
  assumes "research_query (la\<lparr>la_page := py_str_int 1\<rparr>) = Inr q" "\<not> other_tenant tenant la"
    and "Act_LIST \<in> may (role_from_tenant (ctx_role tenant)) Res_EVIDENCE" "rs_evidence s = Some d"
  defines "all_rows \<equiv> evidence_selection q (list_for_run (ctx_workspace_id tenant) jid d)"
    and "n \<equiv> nat (lq_page_size q)"
  shows "concat (map (\<lambda>p. case list_research_run_evidence rq tenant jid (la\<lparr>la_page := py_str_int (int p + 1)\<rparr>) s of
        (Inr env, _) \<Rightarrow> env_data env | _ \<Rightarrow> []) [0..<(length all_rows + n - 1) div n])
      = map evidence_response all_rows
    \<and> mset all_rows = filter_mset (\<lambda>r. er_workspace_id r = ctx_workspace_id tenant \<and> er_research_run_id r = jid
        \<and> lq_status q \<in> {None, Some (er_status r)}) (mset (dvalues d))"
proof -
  have size: "1 \<le> lq_page_size q"
    using assms(1) by (auto simp: research_query_def split: sum.splits dest: parse_list_query_sound)
  have page: "(case list_research_run_evidence rq tenant jid (la\<lparr>la_page := py_str_int (int p + 1)\<rparr>) s of
        (Inr env, _) \<Rightarrow> env_data env | _ \<Rightarrow> []) = map evidence_response (take n (drop (p * n) all_rows))" for p
  proof -
    let ?la = "la\<lparr>la_page := py_str_int (int p + 1)\<rparr>" and ?q = "q\<lparr>lq_page := int p + 1\<rparr>"
    have other: "\<not> other_tenant tenant ?la" using assms(2) by (simp add: other_tenant_def)
    have sel: "evidence_selection ?q rs = evidence_selection q rs" for rs by (simp add: evidence_selection_def)
    have off: "nat (lq_offset ?q) = p * n" using size by (simp add: lq_offset_def n_def nat_mult_distrib)
    obtain env where "evidence_page rq tenant ?la (list_for_run (ctx_workspace_id tenant) jid d) = Inr env"
      "env_data env = map evidence_response (take n (drop (p * n) all_rows))"
      using evidence_page_slice [OF query_page [OF assms(1)] other, of rq "list_for_run (ctx_workspace_id tenant) jid d"]
      by (auto simp: sel off all_rows_def n_def)
    then show ?thesis using assms(3,4) query_page [OF assms(1)]
      by (simp add: list_research_run_evidence_def guarded_def check_permission_def is_allowed_members)
  qed
  have "mset all_rows = filter_mset (\<lambda>r. er_workspace_id r = ctx_workspace_id tenant \<and> er_research_run_id r = jid
        \<and> lq_status q \<in> {None, Some (er_status r)}) (mset (dvalues d))"
    by (simp add: all_rows_def evidence_selection_def py_sort_def list_for_run_def Let_def filter_filter_mset conj_assoc)
  moreover have "concat (map (\<lambda>p. map evidence_response (take n (drop (p * n) all_rows))) [0..<(length all_rows + n - 1) div n])
      = map evidence_response all_rows"
    using pages_concat [of n "map evidence_response all_rows"] size by (simp add: n_def take_map drop_map)
  ultimately show ?thesis by (simp only: page)
qed

definition sample_evidence :: "nat \<Rightarrow> ResearchEvidenceRecord" where
  "sample_evidence i = \<lparr>er_id = i, er_workspace_id = 7, er_research_run_id = 11, er_artifact_id = None, er_claim = ''c'',
     er_status = ''ok'', er_provenance = [], er_claim_id = None, er_plan_hash = None\<rparr>"

definition sample_list_args :: list_args where
  "sample_list_args = \<lparr>la_params = [], la_page = ''1'', la_page_size = ''1'', la_sort_by = ''created_at'',
     la_sort_order = ''asc'', la_status = None, la_tenant = None\<rparr>"

definition sample_query :: ListQuery where
  "sample_query = \<lparr>lq_page = 1, lq_page_size = 1, lq_sort_by = ''created_at'', lq_sort_order = ''asc'', lq_status = None,
     lq_tenant_id = None\<rparr>"

lemma sample_query_parsed: "research_query (sample_list_args\<lparr>la_page := py_str_int 1\<rparr>) = Inr sample_query"
proof -
  have one: "py_int ''1'' = Some 1" by code_simp
  have "py_strip ''created_at'' = ''created_at''" "py_lower (py_strip ''asc'') = ''asc''" by code_simp+
  then show ?thesis
    by (simp add: research_query_def sample_list_args_def sample_query_def filter_names_def parse_list_query_def one MAX_PAGE_SIZE_def
        SORT_ORDERS_def strip_or_none_def)
qed

section \<open>Unintended behaviour\<close>

text \<open>Evidence without a claim is listed under the claim identifier \<open>None\<close>.\<close>

lemma unclaimed_evidence_listed:
  "r \<in> set (dvalues d) \<Longrightarrow> er_workspace_id r = ws \<Longrightarrow> er_claim_id r = None \<Longrightarrow> r \<in> set (list_for_claim ws ''None'' d)"
  by (simp add: list_for_claim_def)

text \<open>Evidence rows are keyed by identifier alone: a row of another workspace replaces one with its identifier.\<close>

lemma evidence_add_replaces:
  "list_for_run 7 11 [(1, sample_evidence 1)] = [sample_evidence 1]
   \<and> list_for_run 7 11 (snd (evidence_add ((sample_evidence 1)\<lparr>er_workspace_id := 8\<rparr>) [(1, sample_evidence 1)])) = []"
  by (simp add: list_for_run_def evidence_add_def dvalues_def sample_evidence_def)

text \<open>A status of blanks passes the length check of the request and ends as an internal error.\<close>

lemma blank_status_internal_error:
  assumes "blank (vreq_status req)" "is_sha256 (rec_manifest_sha256 res)" "wf_job job"
    "validation_metrics (validation_canonical_payload (vreq_payload req)) = Inr ms"
  shows "build_validation tenant jid req job res new_id = Inl (ValueError ''validation status must not be empty'')"
proof -
  obtain p where "validate_optional_sha256 (job_plan_hash job) ''plan_hash'' = Inr p" "(job_claim_id job = None) = (job_plan_hash job = None)"
    using assms(3) by (auto simp: wf_job_iff is_ok_iff)
  moreover have "blank (py_strip (vreq_status req))" using assms(1) unfolding blank_def py_strip_idem .
  ultimately show ?thesis using assms(2,4)
    by (simp add: build_validation_def ResearchValidationRecord_init_def compute_validation_sha256_def)
qed

text \<open>A second validation with the same payload and another status is answered with the first one.\<close>

lemma validation_status_not_compared:
  assumes "validation_create v d = (Inr v', d')"
  shows "validation_create (v\<lparr>val_status := st\<rparr>) d' = (Inr v', d')"
  using assms by (auto simp: validation_create_def Let_def split: option.splits if_splits)

text \<open>An integer metric beyond the range of floats ends as an internal error.\<close>

lemma huge_metric_overflows: "py_float_of_int (2 ^ 1024) = Inl (OverflowError ''int too large to convert to float'')"
  by code_simp

lemma exact_metric: "\<bar>n\<bar> < 2 ^ 53 \<Longrightarrow> py_float_of_int n = Inr n"
proof -
  assume n: "\<bar>n\<bar> < 2 ^ 53"
  then have "bitlen \<bar>n\<bar> \<le> 53" using bitlen_le_iff_power [of "\<bar>n\<bar>" 53] by simp
  moreover have "\<bar>n\<bar> < 2 ^ 1024" using n by (rule less_le_trans) simp
  ultimately show ?thesis by (simp add: py_float_of_int_def Let_def sgn_mult_abs)
qed

end
