(* ===== verification/Research_Report.thy ===== *)
theory Research_Report
  imports Api_Research
begin

text \<open>
  The research report (\<open>saas/research_report.py\<close>) and its route in \<open>saas/api.py\<close>.  The Markdown text contains
  a dash outside the code points of the model, so it is built as its UTF-8 bytes, the form that is
  hashed.
\<close>

section \<open>Rendering\<close>

definition newline :: char where
  "newline = CHR 0x0A"

text \<open>\<open>_line\<close> of a string.\<close>

definition report_line :: "string \<Rightarrow> string" where
  "report_line s =
     py_strip (map (\<lambda>c. if c = newline then CHR '' '' else c)
       (concat (map (\<lambda>c. if c = CHR 0x5C then [c, c] else [c]) s)))"

text \<open>The bytes of a space, an em dash and a space.\<close>

definition dash :: "char list" where
  "dash = [CHR '' '', CHR 0xE2, CHR 0x80, CHR 0x94, CHR '' '']"

definition or_none :: "string option \<Rightarrow> string" where
  "or_none v = (case v of None \<Rightarrow> ''None'' | Some s \<Rightarrow> if s = [] then ''None'' else report_line s)"

definition identity_lines :: "ResearchRunResultRecord \<Rightarrow> char list list" where
  "identity_lines r =
     map utf8_encode
      [''# QROS Research Report'', '''', ''## Run identity'', '''', ''- Schema: `qros-research-report.v1`'',
       ''- Workspace: `'' @ uuid_str (rec_workspace_id r) @ ''`'',
       ''- Research run: `'' @ uuid_str (rec_research_run_id r) @ ''`'',
       ''- Status: **'' @ report_line (rec_status r) @ ''**'',
       ''- Source dataset SHA-256: `'' @ report_line (rec_source_sha256 r) @ ''`'',
       ''- Result manifest SHA-256: `'' @ report_line (rec_manifest_sha256 r) @ ''`'', '''', ''## Artifacts'', '''']"

definition artifact_line :: "ResearchArtifact \<Rightarrow> char list" where
  "artifact_line a =
     utf8_encode (''- `'' @ report_line (artifact_id a) @ ''`'') @ dash @ utf8_encode (report_line (art_kind a)) @ dash
       @ utf8_encode (''SHA-256 `'' @ report_line (art_sha256 a) @ ''`'')"

definition evidence_line :: "ResearchEvidenceRecord \<Rightarrow> char list" where
  "evidence_line r =
     utf8_encode (''- `'' @ uuid_str (er_id r) @ ''`'') @ dash @ utf8_encode (''status **'' @ report_line (er_status r) @ ''**'') @ dash
       @ utf8_encode (report_line (er_claim r)
           @ (case er_artifact_id r of None \<Rightarrow> [] | Some a \<Rightarrow> '' '' @ [CHR 0x5C] @ ''| artifact `'' @ uuid_str a @ ''`''))"

definition finding_lines :: "ResearchFindingRecord \<Rightarrow> char list list" where
  "finding_lines f =
     map utf8_encode
      ['''', ''## Governed finding lineage'', '''',
       ''- Finding SHA-256: `'' @ report_line (fin_sha256 f) @ ''`'',
       ''- Validation SHA-256: `'' @ report_line (fin_validation_sha256 f) @ ''`'',
       ''- Validation ID: `'' @ report_line (uuid_str (fin_validation_id f)) @ ''`'',
       ''- Claim ID: `'' @ or_none (fin_claim_id f) @ ''`'', ''- Plan hash: `'' @ or_none (fin_plan_hash f) @ ''`'',
       ''- Status: **'' @ report_line (fin_status f) @ ''**'',
       ''- Payload: `'' @ report_line (py_str (JObj (fin_payload f))) @ ''`'']"

definition governance_lines :: "char list list" where
  "governance_lines =
     map utf8_encode
      ['''', ''## Governance note'', '''',
       ''This report is a deterministic presentation of the governed result ''
       @ ''and stored evidence lineage. It does not infer causality, profitability, ''
       @ ''statistical significance, or a positive finding.'', '''']"

definition report_lines ::
  "ResearchRunResultRecord \<Rightarrow> ResearchEvidenceRecord list \<Rightarrow> ResearchFindingRecord option \<Rightarrow> char list list" where
  "report_lines r evidence finding =
     identity_lines r
     @ (if rec_artifacts r \<noteq> [] then map artifact_line (sort_key artifact_sort_key (rec_artifacts r)) else [utf8_encode ''- None''])
     @ map utf8_encode ['''', ''## Evidence lineage'', '''']
     @ (if evidence \<noteq> [] then map evidence_line (sort_key (uuid_str \<circ> er_id) evidence)
        else [utf8_encode ''- No evidence records were attached to this run.''])
     @ (case finding of None \<Rightarrow> [] | Some f \<Rightarrow> finding_lines f)
     @ map utf8_encode ['''', ''## Failures'', '''']
     @ (if rec_failures r \<noteq> [] then map (\<lambda>x. utf8_encode (''- '' @ report_line x)) (rec_failures r) else [utf8_encode ''- None''])
     @ governance_lines"

definition render_research_report ::
  "ResearchRunResultRecord \<Rightarrow> ResearchEvidenceRecord list \<Rightarrow> ResearchFindingRecord option \<Rightarrow> char list" where
  "render_research_report r evidence finding = py_join [newline] (report_lines r evidence finding)"

record ResearchReport =
  rep_schema :: string
  rep_workspace_id :: uuid
  rep_research_run_id :: uuid
  rep_status :: string
  rep_source_sha256 :: string
  rep_manifest_sha256 :: string
  rep_markdown :: "char list"
  rep_sha256 :: string
  rep_finding_sha256 :: "string option"

definition build_research_report ::
  "ResearchRunResultRecord \<Rightarrow> ResearchEvidenceRecord list \<Rightarrow> ResearchFindingRecord option \<Rightarrow> ResearchReport" where
  "build_research_report r evidence finding =
     (let markdown = render_research_report r evidence finding in
      \<lparr>rep_schema = ''qros-research-report.v1'', rep_workspace_id = rec_workspace_id r,
       rep_research_run_id = rec_research_run_id r, rep_status = rec_status r, rep_source_sha256 = rec_source_sha256 r,
       rep_manifest_sha256 = rec_manifest_sha256 r, rep_markdown = markdown, rep_sha256 = sha256_hex markdown,
       rep_finding_sha256 = map_option fin_sha256 finding\<rparr>)"

text \<open>
  The route.  \<open>report_findings\<close> is the finding store that was handed to \<open>create_app\<close>; the finding routes
  replace a missing one by a store of their own.
\<close>

definition get_research_run_report ::
  "finding_store option \<Rightarrow> request \<Rightarrow> TenantContext \<Rightarrow> uuid \<Rightarrow> 'm research_state \<Rightarrow> (ResearchReport, 'm) research_handled" where
  "get_research_run_report report_findings rq tenant jid =
     guarded rq tenant Res_JOB Act_READ (\<lambda>s.
       case get_result (ctx_workspace_id tenant) jid (rs_jobs s) of
         None \<Rightarrow> (Inl (Http 404 (JStr ''research result not found'')), s)
       | Some r \<Rightarrow>
      (case rs_evidence s of
         None \<Rightarrow> (Inl (Http 503 (JStr ''research evidence persistence is not configured'')), s)
       | Some d \<Rightarrow>
           (Inr (build_research_report r (list_for_run (ctx_workspace_id tenant) jid d)
              (Option.bind report_findings (finding_get (ctx_workspace_id tenant) jid))), s)))"

section \<open>The structure of a report\<close>

text \<open>A text without line breaks.\<close>

definition flat :: "string \<Rightarrow> bool" where
  "flat s \<longleftrightarrow> newline \<notin> set s"

lemma flat_simps [simp]:
  "flat []" "flat (c # s) \<longleftrightarrow> c \<noteq> CHR 0x0A \<and> flat s" "flat (s @ t) \<longleftrightarrow> flat s \<and> flat t"
  by (auto simp: flat_def newline_def)

lemma flat_dash [simp]: "flat dash"
  by (simp add: dash_def)

lemma py_strip_subset: "set (py_strip xs) \<subseteq> set xs"
  unfolding py_strip_def by (metis set_dropWhileD set_rev subsetI)

lemma flat_report_line [simp]: "flat (report_line s)"
proof -
  have "newline \<notin> set (map (\<lambda>c. if c = newline then CHR '' '' else c) t)" for t
    by (auto simp: newline_def)
  then show ?thesis unfolding report_line_def flat_def using py_strip_subset by blast
qed

lemma utf8_char_newline: "newline \<in> set (utf8_char c) \<longleftrightarrow> c = newline"
proof -
  have high: "char_of (128 + n) \<noteq> newline" if "n < 128" for n :: nat
  proof
    assume "char_of (128 + n) = newline"
    then have "(of_char (char_of (128 + n)) :: nat) = of_char newline" by simp
    then show False using that by (simp add: newline_def)
  qed
  have "(of_char c :: nat) < 256" by simp
  then have "(of_char c :: nat) div 64 < 64" "(of_char c :: nat) mod 64 < 128" by (linarith, simp add: less_trans [OF mod_less_divisor])
  then have "char_of (192 + (of_char c :: nat) div 64) \<noteq> newline" "char_of (128 + (of_char c :: nat) mod 64) \<noteq> newline"
    using high [of "64 + of_char c div 64"] high [of "of_char c mod 64"] by (simp_all add: add.assoc [symmetric])
  moreover have "(of_char newline :: nat) < 128" by (simp add: newline_def)
  ultimately show ?thesis by (auto simp: utf8_char_def Let_def)
qed

lemma flat_utf8 [simp]: "flat (utf8_encode s) \<longleftrightarrow> flat s"
  by (auto simp: flat_def utf8_encode_def utf8_char_newline)

lemma flat_uuid [simp]: "flat (uuid_str u)"
  unfolding flat_def using uuid_str_chars [of newline u] by (auto simp: newline_def hex_digits_def)

lemma flat_or_none [simp]: "flat (or_none v)"
  unfolding or_none_def by (auto split: option.split)

lemma py_split_join: "ls \<noteq> [] \<Longrightarrow> \<forall>l \<in> set ls. d \<notin> set l \<Longrightarrow> py_split d (py_join [d] ls) = ls"
proof (induction "[d]" ls rule: py_join.induct)
  case (2 x)
  then show ?case by (simp add: py_split_absent)
next
  case (3 x y xs)
  then show ?case using py_split_append [of d x "py_join [d] (y # xs)"] by simp
qed simp

lemma max_one_length: "max (Suc 0) (length xs) = (if xs \<noteq> [] then length xs else 1)"
  by (cases xs) auto

lemma report_lines_flat: "\<forall>l \<in> set (report_lines r evidence finding). flat l"
proof -
  have "flat (artifact_line a)" "flat (evidence_line e)" for a e
    by (simp_all add: artifact_line_def evidence_line_def split: option.split)
  moreover have "\<forall>l \<in> set (identity_lines r). flat l" "\<forall>l \<in> set (finding_lines f). flat l" "\<forall>l \<in> set governance_lines. flat l" for f
    by (simp_all add: identity_lines_def finding_lines_def governance_lines_def)
  ultimately show ?thesis by (auto simp: report_lines_def split: option.splits)
qed

text \<open>
  The structure of a report cannot be forged by the text it shows: whatever characters artifact
  names, evidence statements, failures or the finding contain, splitting the Markdown at line breaks
  gives back one line per artifact, evidence row and failure (or one placeholder each), ten for a finding
  with its heading, and the 24 fixed ones; and two reports of a run whose artifacts and evidence rows (with
  distinct identifiers) agree up to order are byte for byte the same, with the same digest.
\<close>

lemma report_structure:
  assumes "mset (rec_artifacts r') = mset (rec_artifacts r)" "mset evidence' = mset evidence" "distinct (map (uuid_str \<circ> er_id) evidence)"
    and "r' = r\<lparr>rec_artifacts := rec_artifacts r'\<rparr>"
  shows "py_split newline (render_research_report r evidence finding) = report_lines r evidence finding
    \<and> length (report_lines r evidence finding)
        = 24 + max 1 (length (rec_artifacts r)) + max 1 (length evidence) + max 1 (length (rec_failures r))
          + (if finding = None then 0 else 10)
    \<and> build_research_report r' evidence' finding = build_research_report r evidence finding"
proof -
  have "\<forall>l \<in> set (report_lines r evidence finding). newline \<notin> set l"
    using report_lines_flat [of r evidence finding] by (simp add: flat_def)
  moreover have "report_lines r evidence finding \<noteq> []" by (simp add: report_lines_def identity_lines_def)
  ultimately have "py_split newline (render_research_report r evidence finding) = report_lines r evidence finding"
    unfolding render_research_report_def by (intro py_split_join)
  moreover have "length (report_lines r evidence finding)
        = 24 + max 1 (length (rec_artifacts r)) + max 1 (length evidence) + max 1 (length (rec_failures r))
          + (if finding = None then 0 else 10)"
    by (auto simp: max_one_length report_lines_def identity_lines_def finding_lines_def governance_lines_def split: option.split)
  moreover have "build_research_report r' evidence' finding = build_research_report r evidence finding"
  proof -
    have "sort_key artifact_sort_key (rec_artifacts r') = sort_key artifact_sort_key (rec_artifacts r)"
      by (rule sort_artifacts_perm [OF assms(1)])
    moreover have "sort_key (uuid_str \<circ> er_id) evidence' = sort_key (uuid_str \<circ> er_id) evidence"
      by (rule sort_key_inj_mset [OF assms(2) [symmetric], symmetric]) (use assms(3) in \<open>simp add: distinct_map\<close>)
    moreover have "(rec_artifacts r' = []) = (rec_artifacts r = [])" "(evidence' = []) = (evidence = [])"
      using assms(1,2) by (metis mset_zero_iff)+
    moreover have "identity_lines r' = identity_lines r" "rec_failures r' = rec_failures r"
      by (subst assms(4), simp add: identity_lines_def)+
    ultimately have "report_lines r' evidence' finding = report_lines r evidence finding"
      by (simp only: report_lines_def)
    moreover have "rec_workspace_id r' = rec_workspace_id r" "rec_research_run_id r' = rec_research_run_id r"
      "rec_status r' = rec_status r" "rec_source_sha256 r' = rec_source_sha256 r" "rec_manifest_sha256 r' = rec_manifest_sha256 r"
      by (subst assms(4), simp)+
    ultimately show ?thesis by (simp add: build_research_report_def render_research_report_def)
  qed
  ultimately show ?thesis by simp
qed

definition sample_record :: ResearchRunResultRecord where
  "sample_record = \<lparr>rec_workspace_id = 7, rec_research_run_id = 11, rec_source_sha256 = sample_hash, rec_status = ''SUCCEEDED'',
     rec_manifest_sha256 = sample_hash, rec_artifacts = [], rec_failures = [], rec_claim_id = None, rec_plan_hash = None\<rparr>"

section \<open>Unintended behaviour\<close>

text \<open>
  When \<open>create_app\<close> is given no finding store, the finding routes record findings in a store of their own
  and the report never shows them.
\<close>

lemma default_report_without_finding:
  "fst (get_research_run_report None rq tenant jid s) = Inr rep \<Longrightarrow> rep_finding_sha256 rep = None"
  by (auto simp: get_research_run_report_def guarded_def build_research_report_def Let_def split: sum.splits option.splits)

text \<open>A carriage return in a shown text is kept, and Markdown renders it as a line break.\<close>

lemma carriage_return_kept: "report_line (''a'' @ [CHR 0x0D] @ ''# b'') = ''a'' @ [CHR 0x0D] @ ''# b''"
  by code_simp

end
