(* ===== verification/Claim_Api.thy ===== *)
theory Claim_Api
  imports Api_Research Claims Json_Text
begin

text \<open>
  The claim routes (\<open>saas/claim_api.py\<close>).  The claim store is an interface of the source
  (\<open>ResearchClaimStore\<close>, implemented only over the hosted database), so its three methods are a record
  of functions over an arbitrary state.
\<close>

section \<open>Requests\<close>

record ResearchClaimCreateRequest =
  cr_statement :: string
  cr_claim_type :: ResearchClaimType
  cr_target_population :: string
  cr_instrument :: string
  cr_horizon :: string
  cr_timestamp_policy :: string
  cr_economic_rationale :: string
  cr_falsification_conditions :: "string list"
  cr_primary_metrics :: "string list"
  cr_minimum_evidence_requirements :: "string list"
  cr_research_id :: "string option"
  cr_ontology_tags :: "string list"

text \<open>\<open>request.model_dump(mode="json")\<close>.\<close>

definition claim_request_dump :: "ResearchClaimCreateRequest \<Rightarrow> (string \<times> json) list" where
  "claim_request_dump r =
     [(''statement'', JStr (cr_statement r)), (''claim_type'', JStr (ResearchClaimType_value (cr_claim_type r))),
      (''target_population'', JStr (cr_target_population r)), (''instrument'', JStr (cr_instrument r)),
      (''horizon'', JStr (cr_horizon r)), (''timestamp_policy'', JStr (cr_timestamp_policy r)),
      (''economic_rationale'', JStr (cr_economic_rationale r)),
      (''falsification_conditions'', jstrs (cr_falsification_conditions r)),
      (''primary_metrics'', jstrs (cr_primary_metrics r)),
      (''minimum_evidence_requirements'', jstrs (cr_minimum_evidence_requirements r)),
      (''research_id'', jopt (cr_research_id r)), (''ontology_tags'', jstrs (cr_ontology_tags r))]"

text \<open>\<open>repr\<close> of a list of pairs.\<close>

definition repr_pair :: "string \<times> json \<Rightarrow> string" where
  "repr_pair kv = ''('' @ py_repr_string (fst kv) @ '', '' @ py_repr (snd kv) @ '')''"

definition repr_items :: "(string \<times> json) list \<Rightarrow> string" where
  "repr_items kvs = ''['' @ py_join '', '' (map repr_pair kvs) @ '']''"

definition claim_items :: "TenantContext \<Rightarrow> ResearchClaimCreateRequest \<Rightarrow> (string \<times> json) list" where
  "claim_items tenant r =
     claim_request_dump r @ [(''creator'', JStr (uuid_str (ctx_user_id tenant))),
       (''workspace_id'', JStr (uuid_str (ctx_workspace_id tenant)))]"

definition claim_id_bytes :: "TenantContext \<Rightarrow> ResearchClaimCreateRequest \<Rightarrow> char list" where
  "claim_id_bytes tenant r = ''qros:research-claim:'' @ utf8_encode (repr_items (sort_key fst (claim_items tenant r)))"

definition stable_claim_id :: "TenantContext \<Rightarrow> ResearchClaimCreateRequest \<Rightarrow> string" where
  "stable_claim_id tenant r = sha256_hex (claim_id_bytes tenant r)"

section \<open>Routes\<close>

record 'c claim_store =
  cs_save :: "uuid \<Rightarrow> ResearchClaim \<Rightarrow> 'c \<Rightarrow> (ResearchClaim, 'c) outcome"
  cs_get :: "uuid \<Rightarrow> string \<Rightarrow> 'c \<Rightarrow> ResearchClaim option result"
  cs_list :: "uuid \<Rightarrow> int \<Rightarrow> int \<Rightarrow> string \<Rightarrow> string \<Rightarrow> string option \<Rightarrow> 'c \<Rightarrow> (ResearchClaim list \<times> int) result"

definition claim_response :: "ResearchClaim \<Rightarrow> json" where
  "claim_response c =
     JObj [(''id'', JStr (bo_id c)), (''workspace_id'', JStr (claim_workspace_id c)), (''statement'', JStr (statement c)),
       (''claim_type'', JStr (ResearchClaimType_value (claim_type c))),
       (''evidence_state'', JStr (EvidenceState_value (evidence_state c))), (''version'', JInt (claim_version c)),
       (''parent_claim_id'', jopt (parent_claim_id c)), (''research_id'', jopt (research_id c)),
       (''creator'', JStr (creator c)), (''claim_hash'', JStr (claim_hash c)), (''plan_hash'', jopt (claim_plan_hash c)),
       (''is_plan_locked'', JBool (is_plan_locked c))]"

definition require_store :: "'c claim_store option \<Rightarrow> api_exn + 'c claim_store" where
  "require_store st =
     (case st of None \<Rightarrow> Inl (Http 503 (JStr ''research claim persistence is not configured'')) | Some cs \<Rightarrow> Inr cs)"

definition require_write_role :: "TenantContext \<Rightarrow> api_exn + unit" where
  "require_write_role tenant =
     (if ctx_role tenant \<notin> {WorkspaceRole_OWNER, WorkspaceRole_ADMIN, WorkspaceRole_RESEARCHER}
      then Inl (Http 403 (JStr ''workspace role is not authorized'')) else Inr ())"

definition new_claim ::
  "TenantContext \<Rightarrow> ResearchClaimCreateRequest \<Rightarrow> (nat \<Rightarrow> string) \<Rightarrow> ResearchClaim result" where
  "new_claim tenant r clock =
     ResearchClaim_init
       \<lparr>arg_statement = cr_statement r, arg_claim_type = ResearchClaimType_value (cr_claim_type r),
        arg_target_population = cr_target_population r, arg_instrument = cr_instrument r, arg_horizon = cr_horizon r,
        arg_timestamp_policy = cr_timestamp_policy r, arg_economic_rationale = cr_economic_rationale r,
        arg_falsification_conditions = cr_falsification_conditions r, arg_primary_metrics = cr_primary_metrics r,
        arg_minimum_evidence_requirements = cr_minimum_evidence_requirements r,
        arg_creator = uuid_str (ctx_user_id tenant), arg_workspace_id = uuid_str (ctx_workspace_id tenant),
        arg_research_id = cr_research_id r, arg_ontology_tags = cr_ontology_tags r,
        arg_id = Some (stable_claim_id tenant r), arg_version = 1, arg_parent_claim_id = None\<rparr> clock"

definition claim_http :: "string \<Rightarrow> exn \<Rightarrow> api_exn" where
  "claim_http unavailable e =
     (case e of ValueError m \<Rightarrow> Http 422 (JStr m) | HTTPException n m \<Rightarrow> Http n (JStr m) | _ \<Rightarrow> Http 503 (JStr unavailable))"

definition create_research_claim ::
  "'c claim_store option \<Rightarrow> request \<Rightarrow> TenantContext \<Rightarrow> ResearchClaimCreateRequest \<Rightarrow> (nat \<Rightarrow> string) \<Rightarrow> 'c \<Rightarrow> (api_exn + json) \<times> 'c" where
  "create_research_claim st rq tenant r clock =
     guarded rq tenant Res_CLAIM Act_CREATE (\<lambda>s.
       case require_write_role tenant of
         Inl e \<Rightarrow> (Inl e, s)
       | Inr _ \<Rightarrow>
      (case require_store st of
         Inl e \<Rightarrow> (Inl e, s)
       | Inr cs \<Rightarrow>
      (case new_claim tenant r clock of
         Inl e \<Rightarrow> (Inl (claim_http ''research claim persistence failed'' e), s)
       | Inr c \<Rightarrow>
      (case cs_save cs (ctx_workspace_id tenant) c s of
         (Inl e, s') \<Rightarrow> (Inl (claim_http ''research claim persistence failed'' e), s')
       | (Inr persisted, s') \<Rightarrow> (Inr (claim_response persisted), s')))))"

definition invalid_claim_id :: "string \<Rightarrow> bool" where
  "invalid_claim_id i \<longleftrightarrow> py_strip i = [] \<or> length i > 256"

text \<open>The request of a plan lock has the fields of the plan itself.\<close>

definition lock_research_claim_plan ::
  "'c claim_store option \<Rightarrow> request \<Rightarrow> TenantContext \<Rightarrow> string \<Rightarrow> ResearchPlan \<Rightarrow> string \<Rightarrow> 'c \<Rightarrow> (api_exn + json) \<times> 'c" where
  "lock_research_claim_plan st rq tenant claim_id plan_fields now =
     guarded rq tenant Res_PLAN Act_UPDATE (\<lambda>s.
       case require_write_role tenant of
         Inl e \<Rightarrow> (Inl e, s)
       | Inr _ \<Rightarrow>
           if invalid_claim_id claim_id then (Inl (Http 422 (JStr ''invalid claim id'')), s)
           else
      (case require_store st of
         Inl e \<Rightarrow> (Inl e, s)
       | Inr cs \<Rightarrow>
      (case cs_get cs (ctx_workspace_id tenant) claim_id s of
         Inl e \<Rightarrow> (Inl (claim_http ''research claim plan-lock persistence failed'' e), s)
       | Inr None \<Rightarrow> (Inl (Http 404 (JStr ''research claim not found'')), s)
       | Inr (Some c) \<Rightarrow>
      (case ResearchPlan_init plan_fields of
         Inl e \<Rightarrow> (Inl (claim_http ''research claim plan-lock persistence failed'' e), s)
       | Inr plan \<Rightarrow>
      (case lock_plan plan now c of
         (Inl e, _) \<Rightarrow> (Inl (claim_http ''research claim plan-lock persistence failed'' e), s)
       | (Inr _, locked) \<Rightarrow>
      (case cs_save cs (ctx_workspace_id tenant) locked s of
         (Inl e, s') \<Rightarrow> (Inl (claim_http ''research claim plan-lock persistence failed'' e), s')
       | (Inr persisted, s') \<Rightarrow> (Inr (claim_response persisted), s')))))))"

definition get_research_claim ::
  "'c claim_store option \<Rightarrow> request \<Rightarrow> TenantContext \<Rightarrow> string \<Rightarrow> 'c \<Rightarrow> (api_exn + json) \<times> 'c" where
  "get_research_claim st rq tenant claim_id =
     guarded rq tenant Res_CLAIM Act_READ (\<lambda>s.
       if invalid_claim_id claim_id then (Inl (Http 422 (JStr ''invalid claim id'')), s)
       else case require_store st of
         Inl e \<Rightarrow> (Inl e, s)
       | Inr cs \<Rightarrow>
      (case cs_get cs (ctx_workspace_id tenant) claim_id s of
         Inl _ \<Rightarrow> (Inl (Http 503 (JStr ''research claim persistence unavailable'')), s)
       | Inr None \<Rightarrow> (Inl (Http 404 (JStr ''research claim not found'')), s)
       | Inr (Some c) \<Rightarrow> (Inr (claim_response c), s)))"

definition claim_query :: "list_args \<Rightarrow> ListQuery result" where
  "claim_query la =
     (case validate_filter_keys (filter_names (la_params la)) {''status'', ''tenant_id''} of
        Inl e \<Rightarrow> Inl e
      | Inr _ \<Rightarrow> parse_list_query (la_page la) (la_page_size la) (la_sort_by la) (la_sort_order la) (la_status la)
          (la_tenant la) {''created_at'', ''status'', ''statement''})"

definition claim_list_http :: "exn \<Rightarrow> api_exn" where
  "claim_list_http e =
     (case e of ValueError _ \<Rightarrow> list_http e | _ \<Rightarrow> Http 503 (JStr ''research claim persistence unavailable''))"

definition list_research_claims ::
  "'c claim_store option \<Rightarrow> request \<Rightarrow> TenantContext \<Rightarrow> list_args \<Rightarrow> 'c \<Rightarrow> (api_exn + json page_envelope) \<times> 'c" where
  "list_research_claims st rq tenant la =
     guarded rq tenant Res_CLAIM Act_LIST (\<lambda>s.
       case claim_query la of
         Inl e \<Rightarrow> (Inl (pagination_http e), s)
       | Inr q \<Rightarrow>
      (case require_store st of
         Inl e \<Rightarrow> (Inl e, s)
       | Inr cs \<Rightarrow>
      (case (if other_tenant tenant la then Inr ([], 0)
             else cs_list cs (ctx_workspace_id tenant) (lq_page_size q) (lq_offset q) (lq_sort_by q) (lq_sort_order q)
               (lq_status q) s) of
         Inl e \<Rightarrow> (Inl (claim_list_http e), s)
       | Inr (found, total_rows) \<Rightarrow>
      (case pagination_envelope (map claim_response found) (lq_page q) (lq_page_size q) total_rows (Some (rq_request_id rq)) of
         Inl e \<Rightarrow> (Inl (as_api e), s)
       | Inr env \<Rightarrow> (Inr env, s)))))"

section \<open>Identifiers of claims\<close>

text \<open>The \<open>repr\<close> of a string can be read from left to right.\<close>

definition repr_quote :: "bool \<Rightarrow> char" where
  "repr_quote b = (if b then CHR 0x22 else CHR 0x27)"

lemma of_char_nat_control:
  "(of_char c :: nat) = 10 \<longleftrightarrow> c = CHR 0x0A" "(of_char c :: nat) = 13 \<longleftrightarrow> c = CHR 0x0D" "(of_char c :: nat) = 9 \<longleftrightarrow> c = CHR 0x09"
  using of_char_eq_iff [of c "CHR 0x0A", where 'a = nat] of_char_eq_iff [of c "CHR 0x0D", where 'a = nat]
    of_char_eq_iff [of c "CHR 0x09", where 'a = nat] by simp_all

lemma repr_cases:
  obtains (plain) "py_repr_char (repr_quote b) c = [c]" "c \<noteq> repr_quote b" "c \<noteq> CHR 0x5C"
  | (short) e where "py_repr_char (repr_quote b) c = [CHR 0x5C, e]"
      "(e, c) \<in> {(repr_quote b, repr_quote b), (CHR 0x5C, CHR 0x5C), (CHR ''n'', CHR 0x0A), (CHR ''r'', CHR 0x0D), (CHR ''t'', CHR 0x09)}"
  | (long) "py_repr_char (repr_quote b) c = CHR 0x5C # CHR ''x'' # hex_fixed 2 (of_char c)"
proof (cases "c \<in> {repr_quote b, CHR 0x5C, CHR 0x0A, CHR 0x0D, CHR 0x09}")
  case True
  then show ?thesis
  proof (elim insertE emptyE)
    assume "c = repr_quote b"
    then show ?thesis by (intro short [of "repr_quote b"]) (simp_all add: py_repr_char_def repr_quote_def Let_def)
  next
    assume "c = CHR 0x5C"
    then show ?thesis by (intro short [of "CHR 0x5C"]) (simp_all add: py_repr_char_def repr_quote_def Let_def)
  next
    assume "c = CHR 0x0A"
    then show ?thesis by (intro short [of "CHR ''n''"]) (simp_all add: py_repr_char_def repr_quote_def Let_def)
  next
    assume "c = CHR 0x0D"
    then show ?thesis by (intro short [of "CHR ''r''"]) (simp_all add: py_repr_char_def repr_quote_def Let_def)
  next
    assume "c = CHR 0x09"
    then show ?thesis by (intro short [of "CHR ''t''"]) (simp_all add: py_repr_char_def repr_quote_def Let_def)
  qed
next
  case False
  then have "py_repr_char (repr_quote b) c
      = (if py_printable (of_char c) then [c] else CHR 0x5C # CHR ''x'' # hex_fixed 2 (of_char c))"
    by (simp add: py_repr_char_def Let_def of_char_nat_control)
  note eq = this
  show ?thesis
  proof (cases "py_printable (of_char c)")
    case True
    show ?thesis by (rule plain) (use False eq True in simp_all)
  next
    case False
    show ?thesis by (rule long) (use eq False in simp)
  qed
qed

lemma hex_fixed_inj:
  assumes "hex_fixed 2 m = hex_fixed 2 n" "m < 256" "n < 256"
  shows "m = n"
proof -
  have "Some (int (m mod 16 ^ 2)) = Some (int (n mod 16 ^ 2))"
    using py_int16_hex [of 2 m] py_int16_hex [of 2 n] unfolding assms(1) by (simp only: one_less_numeral_iff semiring_norm)
  then show ?thesis using assms(2,3) by simp
qed

interpretation repr_code: prefix_code "py_repr_char (repr_quote b)" for b
proof
  show "py_repr_char (repr_quote b) c \<noteq> []" for c by (rule repr_cases [of b c]) simp_all
  show "c = d \<and> x = y" if eq: "py_repr_char (repr_quote b) c @ x = py_repr_char (repr_quote b) d @ y" for c d x y
  proof (rule repr_cases [of b c]; rule repr_cases [of b d])
    assume "py_repr_char (repr_quote b) c = CHR 0x5C # CHR ''x'' # hex_fixed 2 (of_char c)"
      "py_repr_char (repr_quote b) d = CHR 0x5C # CHR ''x'' # hex_fixed 2 (of_char d)"
    with eq have "hex_fixed 2 (of_char c) @ x = hex_fixed 2 (of_char d) @ y" by simp
    then have "hex_fixed 2 (of_char c) = hex_fixed 2 (of_char d)" "x = y" by (simp_all add: append_eq_append_conv)
    then have "(of_char c :: nat) = of_char d" by (intro hex_fixed_inj) simp_all
    with \<open>x = y\<close> show ?thesis by simp
  qed (use eq in \<open>auto simp: repr_quote_def split: if_splits\<close>)
qed

lemma repr_string_unique:
  assumes "py_repr_string s @ x = py_repr_string t @ y"
  shows "s = t \<and> x = y"
proof -
  define b where "b = (\<lambda>s :: string. CHR 0x27 \<in> set s \<and> CHR 0x22 \<notin> set s)"
  have r: "py_repr_string s @ x = repr_quote (b s) # concat (map (py_repr_char (repr_quote (b s))) s) @ repr_quote (b s) # x" for s x
    by (simp add: py_repr_string_def repr_quote_def b_def Let_def)
  have "repr_quote (b s) = repr_quote (b t)" using assms by (simp add: r)
  then have same: "b s = b t" by (simp add: repr_quote_def split: if_splits)
  have "hd (py_repr_char (repr_quote (b t)) c) \<noteq> repr_quote (b t)" for c
    by (rule repr_cases [of "b t" c]) (auto simp: repr_quote_def)
  from repr_code.decode_terminated [OF this, of s x t y] assms show ?thesis by (simp add: r same)
qed

lemma py_join_with: "py_join sep xs = join_with sep xs"
  by (induction sep xs rule: py_join.induct) simp_all

lemma repr_string_start: "py_repr_string s \<noteq> [] \<and> hd (py_repr_string s) \<in> {CHR 0x22, CHR 0x27}"
  by (simp add: py_repr_string_def Let_def)

text \<open>The values of a claim request: strings, lists of strings, and \<open>None\<close>.\<close>

fun plain_value :: "json \<Rightarrow> bool" where
  "plain_value JNull = True"
| "plain_value (JStr _) = True"
| "plain_value (JList xs) = (\<forall>x \<in> set xs. \<exists>s. x = JStr s)"
| "plain_value _ = False"

lemma repr_strings_unique:
  assumes "py_repr (jstrs xs) @ x = py_repr (jstrs ys) @ y"
  shows "xs = ys \<and> x = y"
proof -
  have item: "a = b \<and> x = y" if "py_repr_string a @ x = py_repr_string b @ y" for a b x y
    using repr_string_unique [OF that] .
  have start: "py_repr_string b \<noteq> [] \<and> hd (py_repr_string b) \<noteq> CHR '']''" for b
    using repr_string_start [of b] by auto
  have "join_with '', '' (map py_repr_string xs) @ CHR '']'' # x = join_with '', '' (map py_repr_string ys) @ CHR '']'' # y"
    using assms by (simp add: jstrs_def py_join_with comp_def)
  from join_unique [of "'', ''" "CHR '']''" xs py_repr_string "\<lambda>a. a" x ys y, OF _ _ _ item start this]
  show ?thesis by simp
qed

lemma repr_value_start:
  "plain_value v \<Longrightarrow> py_repr v \<noteq> [] \<and> (case v of JNull \<Rightarrow> hd (py_repr v) = CHR ''N''
     | JStr _ \<Rightarrow> hd (py_repr v) \<in> {CHR 0x22, CHR 0x27} | _ \<Rightarrow> hd (py_repr v) = CHR ''['')"
  using repr_string_start by (cases v) auto

lemma plain_list: "plain_value (JList xs) \<Longrightarrow> \<exists>ss. JList xs = jstrs ss"
  by (rule exI [of _ "map (\<lambda>x. case x of JStr s \<Rightarrow> s | _ \<Rightarrow> []) xs"]) (auto simp: jstrs_def intro!: map_idI [symmetric])

lemma repr_value_unique:
  assumes "plain_value v" "plain_value w" "py_repr v @ x = py_repr w @ y"
  shows "v = w \<and> x = y"
proof -
  note start = repr_value_start [OF assms(1)] repr_value_start [OF assms(2)]
  have hd: "hd (py_repr v) = hd (py_repr w)" using assms(3) start by (metis hd_append2)
  show ?thesis
  proof (cases v)
    case JNull
    then show ?thesis using start hd assms by (cases w) auto
  next
    case (JStr s)
    then obtain t where w: "w = JStr t" using start hd assms(2) by (cases w) auto
    have "py_repr_string s @ x = py_repr_string t @ y" using assms(3) JStr w by simp
    from repr_string_unique [OF this] show ?thesis using JStr w by simp
  next
    case (JList xs)
    then obtain ys where w: "w = JList ys" using start hd assms(2) by (cases w) auto
    obtain ss ts where "v = jstrs ss" "w = jstrs ts" using plain_list assms(1,2) JList w by metis
    then show ?thesis using repr_strings_unique assms(3) by metis
  qed (use assms(1) in simp_all)
qed

lemma repr_items_inj:
  assumes "\<forall>kv \<in> set kvs \<union> set kvs'. plain_value (snd kv)" "repr_items kvs = repr_items kvs'"
  shows "kvs = kvs'"
proof -
  define p where "p = (\<lambda>kv. if plain_value (snd kv) then repr_pair kv else ''!'' @ repr_pair kv)"
  have p: "map p us = map repr_pair us" if "set us \<subseteq> set kvs \<union> set kvs'" for us
    using assms(1) that by (auto simp: p_def)
  have pair: "a = b \<and> x = y" if "plain_value (snd a)" "plain_value (snd b)" "repr_pair a @ x = repr_pair b @ y" for a b x y
  proof -
    have "fst a = fst b \<and> '', '' @ py_repr (snd a) @ '')'' @ x = '', '' @ py_repr (snd b) @ '')'' @ y"
      using that(3) repr_string_unique [of "fst a" "'', '' @ py_repr (snd a) @ '')'' @ x" "fst b"] by (simp add: repr_pair_def)
    then show ?thesis using repr_value_unique [OF that(1,2), of "'')'' @ x" "'')'' @ y"] by (simp add: prod_eq_iff)
  qed
  have item: "a = b \<and> x = y" if "a \<in> set kvs" "p a @ x = p b @ y" for a b x y
  proof -
    have a: "plain_value (snd a)" using that(1) assms(1) by blast
    then have b: "plain_value (snd b)" using that(2) by (auto simp: p_def repr_pair_def split: if_splits)
    have "repr_pair a @ x = repr_pair b @ y" using that(2) a b by (simp add: p_def)
    from pair [OF a b this] show ?thesis .
  qed
  have start: "p b \<noteq> [] \<and> hd (p b) \<noteq> CHR '']''" for b by (simp add: p_def repr_pair_def)
  have same: "join_with '', '' (map p kvs) @ CHR '']'' # [] = join_with '', '' (map p kvs') @ CHR '']'' # []"
    using assms(2) by (simp add: repr_items_def py_join_with p)
  have "map (\<lambda>a. a) kvs = map (\<lambda>a. a) kvs' \<and> [] = ([] :: string)"
  proof (rule join_unique [OF _ _ _ _ _ same])
    fix a b x y assume "a \<in> set kvs" "p a @ x = p b @ y"
    then show "a = b \<and> x = y" by (rule item)
  qed (simp_all add: start)
  then show ?thesis by simp
qed

lemma sorted_entries_inj:
  assumes "sort_key fst kvs = sort_key fst kvs'" "map fst kvs = map fst kvs'" "distinct (map fst kvs)"
  shows "kvs = kvs'"
proof -
  have set: "set kvs = set kvs'" using assms(1) by (metis set_sort)
  have "kvs ! i = kvs' ! i" if "i < length kvs" for i
  proof -
    have len: "length kvs = length kvs'" using assms(2) by (metis length_map)
    then have "fst (kvs ! i) = fst (kvs' ! i)" using assms(2) that by (metis nth_map)
    moreover have "kvs ! i \<in> set kvs" "kvs' ! i \<in> set kvs" using that len set by (metis nth_mem)+
    ultimately show ?thesis using eq_key_imp_eq_value [OF assms(3)] by (metis prod.collapse)
  qed
  then show ?thesis using assms(2) by (metis length_map nth_equalityI)
qed

lemma claim_items_inj:
  assumes "claim_items tenant r = claim_items tenant' r'" "valid_uuid (ctx_user_id tenant)" "valid_uuid (ctx_user_id tenant')"
    and "valid_uuid (ctx_workspace_id tenant)" "valid_uuid (ctx_workspace_id tenant')"
  shows "r = r' \<and> ctx_user_id tenant = ctx_user_id tenant' \<and> ctx_workspace_id tenant = ctx_workspace_id tenant'"
proof -
  have uuid: "u = v" if "uuid_str u = uuid_str v" "valid_uuid u" "valid_uuid v" for u v
    using that by (metis option.inject py_uuid_str)
  have strs: "xs = ys" if "jstrs xs = jstrs ys" for xs ys
    using that by (simp add: jstrs_def inj_map_eq_map inj_def)
  have opt: "a = b" if "jopt a = jopt b" for a b using that by (auto simp: jopt_def split: option.splits)
  have type: "t = t'" if "ResearchClaimType_value t = ResearchClaimType_value t'" for t t'
    using that by (cases t; cases t') simp_all
  show ?thesis using assms
    by (cases r, cases r') (auto simp: claim_items_def claim_request_dump_def intro: uuid strs opt type)
qed

text \<open>
  Claim identifiers are stable and collision-free up to SHA-256: the same request of the same user
  in the same workspace always gets the same identifier, and two requests with the same identifier are equal
  in every field and come from the same user and workspace, or their canonical texts are two different byte
  strings with the same SHA-256.
\<close>

lemma stable_claim_id_exact:
  assumes "valid_uuid (ctx_user_id tenant)" "valid_uuid (ctx_user_id tenant')"
    and "valid_uuid (ctx_workspace_id tenant)" "valid_uuid (ctx_workspace_id tenant')"
  shows "stable_claim_id tenant r = stable_claim_id tenant' r' \<longleftrightarrow>
    (r = r' \<and> ctx_user_id tenant = ctx_user_id tenant' \<and> ctx_workspace_id tenant = ctx_workspace_id tenant')
    \<or> sha256_collision (claim_id_bytes tenant r) (claim_id_bytes tenant' r')"
proof
  assume eq: "stable_claim_id tenant r = stable_claim_id tenant' r'"
  have plain: "\<forall>kv \<in> set (sort_key fst (claim_items tenant r)). plain_value (snd kv)" for tenant r
    by (auto simp: claim_items_def claim_request_dump_def jstrs_def jopt_def split: option.splits)
  have keys: "map fst (claim_items tenant r) = map fst (claim_items tenant' r')" "distinct (map fst (claim_items tenant r))"
    by (simp_all add: claim_items_def claim_request_dump_def)
  show "(r = r' \<and> ctx_user_id tenant = ctx_user_id tenant' \<and> ctx_workspace_id tenant = ctx_workspace_id tenant')
    \<or> sha256_collision (claim_id_bytes tenant r) (claim_id_bytes tenant' r')"
  proof (cases "claim_id_bytes tenant r = claim_id_bytes tenant' r'")
    case True
    then have "repr_items (sort_key fst (claim_items tenant r)) = repr_items (sort_key fst (claim_items tenant' r'))"
      by (simp add: claim_id_bytes_def utf8_encode_inj)
    then have "sort_key fst (claim_items tenant r) = sort_key fst (claim_items tenant' r')"
      by (rule repr_items_inj [rotated]) (use plain [of tenant r] plain [of tenant' r'] in blast)
    from sorted_entries_inj [OF this keys] show ?thesis using claim_items_inj assms by blast
  next
    case False
    then show ?thesis using eq by (simp add: sha256_collision_def stable_claim_id_def)
  qed
next
  assume "(r = r' \<and> ctx_user_id tenant = ctx_user_id tenant' \<and> ctx_workspace_id tenant = ctx_workspace_id tenant')
    \<or> sha256_collision (claim_id_bytes tenant r) (claim_id_bytes tenant' r')"
  then show "stable_claim_id tenant r = stable_claim_id tenant' r'"
    by (auto simp: stable_claim_id_def sha256_collision_def claim_id_bytes_def claim_items_def)
qed

definition sample_claim_request :: ResearchClaimCreateRequest where
  "sample_claim_request = \<lparr>cr_statement = ''gold trends'', cr_claim_type = Claim_EMPIRICAL, cr_target_population = [],
     cr_instrument = [], cr_horizon = [], cr_timestamp_policy = [], cr_economic_rationale = [], cr_falsification_conditions = [],
     cr_primary_metrics = [], cr_minimum_evidence_requirements = [], cr_research_id = None, cr_ontology_tags = []\<rparr>"

section \<open>Locking a plan through the routes\<close>

text \<open>
  What the routes rely on: a saved claim of the tenant's own workspace is the answer and is what a later
  read of its identifier returns, other entries stay as they are, and a claim of another workspace is
  refused with a \<open>ValueError\<close>.
\<close>

definition upsert_store :: "'c claim_store \<Rightarrow> bool" where
  "upsert_store cs \<longleftrightarrow> (\<forall>ws c s.
     (if claim_workspace_id c = uuid_str ws
      then \<exists>s'. cs_save cs ws c s = (Inr c, s') \<and> cs_get cs ws (bo_id c) s' = Inr (Some c)
        \<and> (\<forall>ws' i. (ws', i) \<noteq> (ws, bo_id c) \<longrightarrow> cs_get cs ws' i s' = cs_get cs ws' i s)
      else cs_save cs ws c s = (Inl (ValueError ''research claim workspace does not match tenant''), s)))"

lemma upsert_storeE:
  assumes "upsert_store cs" "claim_workspace_id c = uuid_str ws"
  obtains s' where "cs_save cs ws c s = (Inr c, s')" "cs_get cs ws (bo_id c) s' = Inr (Some c)"
    "\<And>ws' i. (ws', i) \<noteq> (ws, bo_id c) \<Longrightarrow> cs_get cs ws' i s' = cs_get cs ws' i s"
  using assms unfolding upsert_store_def by meson

definition writer :: "TenantContext \<Rightarrow> bool" where
  "writer tenant \<longleftrightarrow> ctx_role tenant \<in> {WorkspaceRole_OWNER, WorkspaceRole_ADMIN, WorkspaceRole_RESEARCHER}"

lemma writer_permitted:
  "writer tenant \<Longrightarrow> check_permission (Some tenant) Res_CLAIM Act_CREATE False = Inr ()"
  "writer tenant \<Longrightarrow> check_permission (Some tenant) Res_PLAN Act_UPDATE False = Inr ()"
  by (auto simp: writer_def check_permission_def is_allowed_members policy_sets)

lemma lock_plan_fields:
  assumes "lock_plan plan now c = (Inr h, c')"
  shows "bo_id c' = bo_id c" "claim_workspace_id c' = claim_workspace_id c" "statement c' = statement c"
    "claim_plan_hash c' = Some (content_hash plan)" "is_plan_locked c'" "h = content_hash plan"
  using assms by (auto simp: lock_plan_def claim_setattr_def is_plan_locked_def split: if_splits)

text \<open>
  Locking through the API: for a writer, a stored claim of the workspace and a well-formed plan, the
  request succeeds exactly when the claim was unlocked or locked with a plan of the same digest.  Then the
  answer and every later read show the claim locked with the digest of that plan, its statement
  unchanged, and every other stored claim is as before; otherwise the answer is 422 and nothing is written.
\<close>

lemma plan_lock_request_exact:
  assumes "upsert_store cs" "writer tenant" "\<not> invalid_claim_id i"
    and "cs_get cs (ctx_workspace_id tenant) i s = Inr (Some c)" "bo_id c = i"
    and "claim_workspace_id c = uuid_str (ctx_workspace_id tenant)" "plan_lock_active c = is_plan_locked c"
    and "ResearchPlan_init plan = Inr plan"
  shows "if is_plan_locked c \<and> claim_plan_hash c \<noteq> Some (content_hash plan)
    then lock_research_claim_plan (Some cs) rq tenant i plan now s
      = (Inl (Http 422 (JStr ''Research plan is already locked and cannot be replaced'')), s)
    else \<exists>c' s'. lock_research_claim_plan (Some cs) rq tenant i plan now s = (Inr (claim_response c'), s')
      \<and> cs_get cs (ctx_workspace_id tenant) i s' = Inr (Some c') \<and> is_plan_locked c'
      \<and> claim_plan_hash c' = Some (content_hash plan) \<and> statement c' = statement c
      \<and> (\<forall>ws' j. (ws', j) \<noteq> (ctx_workspace_id tenant, i) \<longrightarrow> cs_get cs ws' j s' = cs_get cs ws' j s)"
proof -
  have role: "require_write_role tenant = Inr ()" using assms(2) by (auto simp: require_write_role_def writer_def)
  note body = lock_research_claim_plan_def guarded_def writer_permitted(2) [OF assms(2)] role require_store_def
  show ?thesis
  proof (cases "is_plan_locked c \<and> claim_plan_hash c \<noteq> Some (content_hash plan)")
    case True
    then show ?thesis using assms(3,4,8) by (simp add: body lock_plan_def claim_http_def)
  next
    case False
    then obtain c' where c': "lock_plan plan now c = (Inr (content_hash plan), c')"
      using assms(7) by (auto simp: lock_plan_def claim_setattr_def)
    note f = lock_plan_fields [OF c']
    have ws: "claim_workspace_id c' = uuid_str (ctx_workspace_id tenant)" using f(2) assms(6) by simp
    obtain s' where "cs_save cs (ctx_workspace_id tenant) c' s = (Inr c', s')"
      "cs_get cs (ctx_workspace_id tenant) (bo_id c') s' = Inr (Some c')"
      "\<And>ws' j. (ws', j) \<noteq> (ctx_workspace_id tenant, bo_id c') \<Longrightarrow> cs_get cs ws' j s' = cs_get cs ws' j s"
      using upsert_storeE [OF assms(1) ws, of s] by blast
    then show ?thesis using False assms(3-5,8) c' f
      by (auto simp: body intro!: exI [of _ c'] exI [of _ s'])
  qed
qed

text \<open>A store that is a dictionary.\<close>

definition dict_claims :: "(uuid \<times> string, ResearchClaim) dict claim_store" where
  "dict_claims = \<lparr>cs_save = \<lambda>ws c s. if claim_workspace_id c = uuid_str ws then (Inr c, dset (ws, bo_id c) c s)
       else (Inl (ValueError ''research claim workspace does not match tenant''), s),
     cs_get = \<lambda>ws i s. Inr (dget s (ws, i)), cs_list = \<lambda>_ _ _ _ _ _ s. Inr (dvalues s, int (length s))\<rparr>"

lemma dict_claims_upsert: "upsert_store dict_claims"
  by (auto simp: upsert_store_def dict_claims_def)

lemma new_claim_fields:
  assumes "new_claim tenant r clock = Inr c"
  shows "bo_id c = stable_claim_id tenant r" "claim_workspace_id c = uuid_str (ctx_workspace_id tenant)"
    "plan_locked_at c = None" "plan_lock_active c = False" "research_plan c = None"
proof -
  have "py_strip (uuid_str u) = uuid_str u" for u
    by (rule py_strip_no_space) (use uuid_str_chars in \<open>force simp: hex_digits_def py_isspace_def\<close>)
  then show "bo_id c = stable_claim_id tenant r" "claim_workspace_id c = uuid_str (ctx_workspace_id tenant)"
    "plan_locked_at c = None" "plan_lock_active c = False" "research_plan c = None"
    using assms by (auto simp: new_claim_def ResearchClaim_init_def BaseObject_init_def rbind_Inr split: if_splits)
qed

lemma sample_claim_created: "\<exists>c. new_claim sample_tenant sample_claim_request (\<lambda>_. ''t'') = Inr c"
proof -
  have "\<not> blank ''gold trends''" "parse_claim_type ''empirical'' = Inr Claim_EMPIRICAL" by code_simp+
  then show ?thesis by (simp add: new_claim_def sample_claim_request_def ResearchClaim_init_def BaseObject_init_def)
qed

lemma stable_claim_id_valid: "\<not> invalid_claim_id (stable_claim_id tenant r)"
proof -
  have sha: "is_sha256 (stable_claim_id tenant r)" by (simp add: stable_claim_id_def)
  then have "py_strip (stable_claim_id tenant r) = stable_claim_id tenant r" using is_sha256_plain by blast
  then show ?thesis using sha by (auto simp: invalid_claim_id_def is_sha256_def)
qed

lemma ex_plan_init: "ResearchPlan_init ex_plan = Inr ex_plan"
  by code_simp

section \<open>Unintended behaviour\<close>

text \<open>
  Repeating the creation of a claim writes a fresh, unlocked claim under the same identifier: the
  locked plan of the first one is lost.
\<close>

lemma recreate_drops_plan_lock:
  assumes "upsert_store cs" "writer tenant" "new_claim tenant r clock = Inr c"
  shows "\<exists>s'. create_research_claim (Some cs) rq tenant r clock s = (Inr (claim_response c), s')
    \<and> cs_get cs (ctx_workspace_id tenant) (stable_claim_id tenant r) s' = Inr (Some c) \<and> \<not> is_plan_locked c"
proof -
  note f = new_claim_fields [OF assms(3)]
  have role: "require_write_role tenant = Inr ()" using assms(2) by (auto simp: require_write_role_def writer_def)
  obtain s' where s': "cs_save cs (ctx_workspace_id tenant) c s = (Inr c, s')"
    "cs_get cs (ctx_workspace_id tenant) (bo_id c) s' = Inr (Some c)"
    by (rule upsert_storeE [OF assms(1) f(2), of s])
  have "create_research_claim (Some cs) rq tenant r clock s = (Inr (claim_response c), s')"
    unfolding create_research_claim_def guarded_def writer_permitted(1) [OF assms(2)] role require_store_def assms(3)
    by (simp add: s'(1))
  moreover have "cs_get cs (ctx_workspace_id tenant) (stable_claim_id tenant r) s' = Inr (Some c)" using s'(2) f(1) by metis
  moreover have "\<not> is_plan_locked c" using f(3) by (simp add: is_plan_locked_def)
  ultimately show ?thesis by metis
qed

end
