(* ===== verification/Python_Float.thy ===== *)
theory Python_Float
  imports Complex_Main Python_Text "HOL-Library.Log_Nat"
begin

text \<open>
  Python's \<open>float\<close>: IEEE 754 binary64 with rounding to nearest, ties to even.  A finite float is its
  rational value, with a value of its own for the negative zero.  Rounding is computed, monotone, exact on doubles and
  off by at most half a unit in the last place.
\<close>

section \<open>Rounding\<close>

definition pow2 :: "int \<Rightarrow> rat" where
  "pow2 k = (if 0 \<le> k then 2 ^ nat k else 1 / 2 ^ nat (- k))"

text \<open>The exponent of the leading binary digit of a positive rational.\<close>

definition rat_log2 :: "rat \<Rightarrow> int" where
  "rat_log2 x =
     (case quotient_of x of (p, q) \<Rightarrow>
        let k = bitlen p - bitlen q in if pow2 k \<le> x then k else k - 1)"

text \<open>Half-way cases go to the even neighbour.\<close>

definition half_even :: "rat \<Rightarrow> int" where
  "half_even r =
     (let n = \<lfloor>r\<rfloor>; d = r - of_int n
      in if d < 1/2 then n else if d > 1/2 then n + 1 else if even n then n else n + 1)"

text \<open>The exponent of the last of the 53 significant binary digits; subnormal numbers end at \<open>2^-1074\<close>.\<close>

definition ulp_exp :: "rat \<Rightarrow> int" where
  "ulp_exp x = max (- 1074) (rat_log2 \<bar>x\<bar> - 52)"

definition rnd :: "rat \<Rightarrow> rat" where
  "rnd x = (if x = 0 then 0 else of_int (half_even (x / pow2 (ulp_exp x))) * pow2 (ulp_exp x))"

definition double :: "rat \<Rightarrow> bool" where
  "double x \<longleftrightarrow> rnd x = x \<and> \<bar>x\<bar> < pow2 1024"

lemma pow2_powi: "pow2 k = 2 powi k"
  by (simp add: pow2_def power_int_def field_simps)

lemma pow2_pos [simp]: "0 < pow2 k" "0 \<le> pow2 k" "pow2 k \<noteq> 0" "\<bar>pow2 k\<bar> = pow2 k"
  by (simp_all add: pow2_powi)

lemma pow2_0 [simp]: "pow2 0 = 1"
  by (simp add: pow2_def)

lemma pow2_add: "pow2 (k + l) = pow2 k * pow2 l"
  by (simp add: pow2_powi power_int_add)

lemma pow2_half: "pow2 k / 2 = pow2 (k - 1)"
  using pow2_add [of "k - 1" 1] by (simp add: pow2_def [of 1])

lemma pow2_mono: "k \<le> l \<Longrightarrow> pow2 k \<le> pow2 l"
  unfolding pow2_powi by (rule power_int_increasing) simp_all

lemma pow2_strict_mono: "k < l \<Longrightarrow> pow2 k < pow2 l"
  unfolding pow2_powi by (rule power_int_strict_increasing) simp_all

lemma pow2_less: "pow2 k < pow2 l \<Longrightarrow> k < l"
  using pow2_mono [of l k] by (meson not_less)

lemma pow2_int: "0 \<le> k \<Longrightarrow> pow2 k = of_int (2 ^ nat k)"
  by (simp add: pow2_def)

lemma rat_log2_bounds:
  assumes "0 < x"
  shows "pow2 (rat_log2 x) \<le> x" "x < pow2 (rat_log2 x + 1)"
proof -
  obtain p q where pq: "quotient_of x = (p, q)" by (cases "quotient_of x")
  have q: "0 < q" and x: "x = of_int p / of_int q" using quotient_of_denom_pos [OF pq] quotient_of_div [OF pq] by auto
  then have p: "0 < p" using assms by (simp add: zero_less_divide_iff)
  have pos: "0 < bitlen p" "0 < bitlen q"
    using p q bitlen_eq_zero_iff [of p] bitlen_eq_zero_iff [of q] bitlen_nonneg [of p] bitlen_nonneg [of q] by linarith+
  have P: "pow2 (bitlen p - 1) \<le> of_int p" "of_int p < pow2 (bitlen p)"
    using bitlen_bounds [OF p] pos
    by (simp_all add: pow2_int del: of_int_power)
  have Q: "pow2 (bitlen q - 1) \<le> of_int q" "of_int q < pow2 (bitlen q)"
    using bitlen_bounds [OF q] pos
    by (simp_all add: pow2_int del: of_int_power)
  let ?k = "bitlen p - bitlen q"
  have "pow2 (?k - 1) * of_int q < of_int p"
  proof -
    have "pow2 (?k - 1) * of_int q < pow2 (?k - 1) * pow2 (bitlen q)" using Q(2) by simp
    also have "\<dots> = pow2 (bitlen p - 1)" by (simp add: pow2_add [symmetric])
    also note P(1)
    finally show ?thesis .
  qed
  then have lower: "pow2 (?k - 1) < x" using q by (simp add: x field_simps)
  have "of_int p < pow2 (?k + 1) * (of_int q :: rat)"
  proof -
    note P(2)
    also have "pow2 (bitlen p) = pow2 (?k + 1) * pow2 (bitlen q - 1)" by (simp add: pow2_add [symmetric])
    also have "\<dots> \<le> pow2 (?k + 1) * of_int q" using Q(1) by simp
    finally show ?thesis .
  qed
  then have upper: "x < pow2 (?k + 1)" using q by (simp add: x field_simps)
  show "pow2 (rat_log2 x) \<le> x" "x < pow2 (rat_log2 x + 1)"
    using lower upper by (simp_all add: rat_log2_def pq Let_def)
qed

lemma rat_log2_unique:
  assumes "0 < x" "pow2 k \<le> x" "x < pow2 (k + 1)"
  shows "rat_log2 x = k"
  using rat_log2_bounds [OF assms(1)] assms(2,3) pow2_less [of k "rat_log2 x + 1"] pow2_less [of "rat_log2 x" "k + 1"]
  by force

lemma rat_log2_mono: "0 < x \<Longrightarrow> x \<le> y \<Longrightarrow> rat_log2 x \<le> rat_log2 y"
  using rat_log2_bounds(1) [of x] rat_log2_bounds(2) [of y] pow2_less [of "rat_log2 x" "rat_log2 y + 1"] by force

subsection \<open>Rounding to an integer\<close>

lemma half_even_cases: "half_even r = \<lfloor>r\<rfloor> \<and> r - of_int \<lfloor>r\<rfloor> \<le> 1/2 \<or> half_even r = \<lfloor>r\<rfloor> + 1 \<and> 1/2 \<le> r - of_int \<lfloor>r\<rfloor>"
  by (auto simp: half_even_def Let_def)

lemma half_even_close: "\<bar>of_int (half_even r) - r\<bar> \<le> 1/2"
  using half_even_cases [of r] of_int_floor_le [of r] floor_correct [of r] by (auto simp: abs_le_iff)

lemma half_even_int [simp]: "half_even (of_int n) = n"
  by (simp add: half_even_def)

lemma half_even_mono:
  assumes "r \<le> s"
  shows "half_even r \<le> half_even s"
proof (cases "\<lfloor>r\<rfloor> = \<lfloor>s\<rfloor>")
  case True
  then show ?thesis using assms by (auto simp: half_even_def Let_def)
next
  case False
  then have "\<lfloor>r\<rfloor> + 1 \<le> \<lfloor>s\<rfloor>" using floor_mono [OF assms] by simp
  then show ?thesis using half_even_cases [of r] half_even_cases [of s] by auto
qed

lemma half_even_minus: "half_even (- r) = - half_even r"
proof (cases "r = of_int \<lfloor>r\<rfloor>")
  case True
  then show ?thesis by (metis half_even_int of_int_minus)
next
  case False
  then have "\<lfloor>- r\<rfloor> = - \<lfloor>r\<rfloor> - 1"
    using floor_correct [of r] by (intro floor_unique) (auto simp: order.strict_iff_order)
  then show ?thesis by (auto simp: half_even_def Let_def)
qed

subsection \<open>Rounding to a double\<close>

lemma rnd_0 [simp]: "rnd 0 = 0"
  by (simp add: rnd_def)

lemma rnd_minus [simp]: "rnd (- x) = - rnd x"
  by (simp add: rnd_def ulp_exp_def half_even_minus)

lemma ulp_exp_minus [simp]: "ulp_exp (- x) = ulp_exp x"
  by (simp add: ulp_exp_def)

lemma rnd_error: "\<bar>rnd x - x\<bar> \<le> pow2 (ulp_exp x) / 2"
proof (cases "x = 0")
  case False
  let ?u = "pow2 (ulp_exp x) :: rat"
  have "rnd x - x = (of_int (half_even (x / ?u)) - x / ?u) * ?u" using False by (simp add: rnd_def algebra_simps)
  then have "\<bar>rnd x - x\<bar> = \<bar>of_int (half_even (x / ?u)) - x / ?u\<bar> * ?u" by (simp add: abs_mult)
  also have "\<dots> \<le> 1 / 2 * ?u" by (intro mult_right_mono half_even_close) simp
  finally show ?thesis by simp
qed simp

lemma ulp_bound:
  assumes "x \<noteq> 0"
  shows "pow2 (ulp_exp x) = pow2 (- 1074) \<or> pow2 (ulp_exp x) \<le> \<bar>x\<bar> * pow2 (- 52)"
proof -
  have "pow2 (rat_log2 \<bar>x\<bar> - 52) \<le> \<bar>x\<bar> * pow2 (- 52)"
    using rat_log2_bounds(1) [of "\<bar>x\<bar>"] assms pow2_add [of "rat_log2 \<bar>x\<bar>" "- 52"] by simp
  then show ?thesis by (simp add: ulp_exp_def max_def)
qed

text \<open>The error: relative, with an absolute part for results below the normal range.\<close>

lemma rnd_error_bound: "\<bar>rnd x - x\<bar> \<le> \<bar>x\<bar> * pow2 (- 53) + pow2 (- 1075)"
proof (cases "x = 0")
  case False
  have "pow2 (ulp_exp x) / 2 \<le> \<bar>x\<bar> * pow2 (- 53) + pow2 (- 1075)"
    using ulp_bound [OF False]
  proof
    assume "pow2 (ulp_exp x) = pow2 (- 1074)"
    then show ?thesis using pow2_half [of "- 1074"] by simp
  next
    assume "pow2 (ulp_exp x) \<le> \<bar>x\<bar> * pow2 (- 52)"
    then have "pow2 (ulp_exp x) / 2 \<le> \<bar>x\<bar> * (pow2 (- 52) / 2)" by simp
    then show ?thesis unfolding pow2_half using pow2_pos(2) [of "- 1075"] by (simp add: add_increasing2)
  qed
  then show ?thesis using rnd_error [of x] by linarith
qed simp

definition on_grid :: "int \<Rightarrow> rat \<Rightarrow> bool" where
  "on_grid e x \<longleftrightarrow> (\<exists>m. x = of_int m * pow2 e)"

lemma on_grid_coarser:
  assumes "on_grid e x" "k \<le> e"
  shows "on_grid k x"
proof -
  obtain m where "x = of_int m * pow2 e" using assms(1) by (auto simp: on_grid_def)
  moreover have "pow2 e = of_int (2 ^ nat (e - k)) * pow2 k"
    using assms(2) by (simp only: pow2_int [symmetric] diff_ge_0_iff_ge pow2_add [symmetric]) (simp add: pow2_add [symmetric])
  ultimately show ?thesis unfolding on_grid_def by (metis mult.assoc of_int_mult)
qed

lemma on_grid_add: "on_grid e x \<Longrightarrow> on_grid e y \<Longrightarrow> on_grid e (x + y)"
  unfolding on_grid_def by (metis distrib_right of_int_add)

lemma on_grid_minus: "on_grid e x \<Longrightarrow> on_grid e (- x)"
  unfolding on_grid_def by (metis minus_mult_left of_int_minus)

lemma on_grid_powi: "e \<le> k \<Longrightarrow> on_grid e (pow2 k)"
  by (rule on_grid_coarser [of k]) (auto simp: on_grid_def intro: exI [of _ 1])

lemma on_grid_rnd: "on_grid (ulp_exp x) (rnd x)"
  by (cases "x = 0") (auto simp: rnd_def on_grid_def intro: exI [of _ 0])

lemma rnd_grid: "on_grid (ulp_exp x) x \<Longrightarrow> rnd x = x"
proof (cases "x = 0")
  case False
  assume "on_grid (ulp_exp x) x"
  then obtain m where "x / pow2 (ulp_exp x) = of_int m" by (auto simp: on_grid_def divide_eq_eq)
  then show ?thesis using False by (simp add: rnd_def eq_divide_eq [symmetric] flip: nonzero_eq_divide_eq)
qed simp

lemma rnd_le_grid:
  assumes "x \<le> y" "on_grid (ulp_exp x) y" "x \<noteq> 0"
  shows "rnd x \<le> y"
proof -
  obtain m where y: "y = of_int m * pow2 (ulp_exp x)" using assms(2) by (auto simp: on_grid_def)
  then have "x / pow2 (ulp_exp x) \<le> of_int m" using assms(1) by (simp add: divide_le_eq)
  then have "half_even (x / pow2 (ulp_exp x)) \<le> m" using half_even_mono by fastforce
  then show ?thesis using assms(3) by (simp add: rnd_def y)
qed

lemma rnd_ge_grid:
  assumes "y \<le> x" "on_grid (ulp_exp x) y" "x \<noteq> 0"
  shows "y \<le> rnd x"
  using rnd_le_grid [of "- x" "- y"] assms on_grid_minus by simp

lemma ulp_exp_mono: "0 < x \<Longrightarrow> x \<le> y \<Longrightarrow> ulp_exp x \<le> ulp_exp y"
  using rat_log2_mono [of x y] by (auto simp: ulp_exp_def)

lemma rnd_pos_mono:
  assumes "0 < x" "x \<le> y"
  shows "rnd x \<le> rnd y"
proof (cases "ulp_exp x = ulp_exp y")
  case True
  have "x / pow2 (ulp_exp y) \<le> y / pow2 (ulp_exp y)" using assms(2) by (simp add: divide_right_mono)
  then show ?thesis using assms True by (simp add: rnd_def half_even_mono)
next
  case False
  let ?k = "rat_log2 y"
  have less: "ulp_exp x < ulp_exp y" using False ulp_exp_mono [OF assms] by simp
  then have e: "ulp_exp y = ?k - 52" "rat_log2 x < ?k" using assms by (auto simp: ulp_exp_def max_def split: if_splits)
  have "x \<le> pow2 ?k"
    using rat_log2_bounds(2) [OF assms(1)] pow2_mono [of "rat_log2 x + 1" ?k] e(2) by simp
  then have "rnd x \<le> pow2 ?k" using assms(1) less e(1) by (intro rnd_le_grid on_grid_powi) simp_all
  also have "\<dots> \<le> rnd y" using assms e(1) rat_log2_bounds(1) [of y] by (intro rnd_ge_grid on_grid_powi) simp_all
  finally show ?thesis .
qed

lemma rnd_nonneg: "0 \<le> x \<Longrightarrow> 0 \<le> rnd x"
  using rnd_ge_grid [of 0 x] by (cases "x = 0") (auto simp: on_grid_def)

text \<open>Rounding is monotone.\<close>

lemma rnd_mono: "x \<le> y \<Longrightarrow> rnd x \<le> rnd y"
proof -
  assume le: "x \<le> y"
  consider "0 < x" | "x \<le> 0" "0 \<le> y" | "y < 0" using le by linarith
  then show ?thesis
  proof cases
    case 2
    then show ?thesis using rnd_nonneg [of "- x"] rnd_nonneg [of y] by simp
  next
    case 3
    then show ?thesis using rnd_pos_mono [of "- y" "- x"] le by simp
  qed (use rnd_pos_mono le in blast)
qed

text \<open>A multiple of \<open>2^e\<close> with at most 53 digits is a double.\<close>

lemma rnd_representable:
  assumes "\<bar>m\<bar> \<le> 2 ^ 53" "- 1074 \<le> e"
  shows "rnd (of_int m * pow2 e) = of_int m * pow2 e"
proof (cases "m = 0")
  case False
  let ?x = "of_int m * pow2 e :: rat"
  have abs: "\<bar>?x\<bar> = of_int \<bar>m\<bar> * pow2 e" by (simp add: abs_mult)
  show ?thesis
  proof (cases "\<bar>m\<bar> = 2 ^ 53")
    case True
    have x: "\<bar>?x\<bar> = pow2 (53 + e)" unfolding abs True pow2_add by (simp add: pow2_def [of 53])
    then have "rat_log2 \<bar>?x\<bar> = 53 + e" unfolding x by (intro rat_log2_unique) (simp_all add: pow2_strict_mono)
    then have "ulp_exp ?x \<le> 53 + e" using assms(2) by (simp add: ulp_exp_def)
    then have "on_grid (ulp_exp ?x) \<bar>?x\<bar>" unfolding x by (rule on_grid_powi)
    then show ?thesis by (intro rnd_grid) (metis abs_if minus_minus on_grid_minus)
  next
    case less: False
    then have "(of_int \<bar>m\<bar> :: rat) < of_int (2 ^ 53)" using assms(1) by (simp only: of_int_less_iff)
    then have "\<bar>?x\<bar> < pow2 (53 + e)" unfolding abs pow2_add by (simp add: pow2_def [of 53])
    moreover have "0 < \<bar>?x\<bar>" using False by simp
    ultimately have "rat_log2 \<bar>?x\<bar> < 53 + e" by (meson rat_log2_bounds(1) pow2_less order.strict_trans1)
    then have "ulp_exp ?x \<le> e" using assms(2) by (simp add: ulp_exp_def)
    moreover have "on_grid e ?x" unfolding on_grid_def by (rule exI) (rule refl)
    ultimately show ?thesis using rnd_grid on_grid_coarser by blast
  qed
qed simp

lemma double_0 [simp]: "double 0"
  by (simp add: double_def)

lemma double_minus: "double x \<Longrightarrow> double (- x)"
  by (simp add: double_def)

lemma doubleI: "x = of_int m * pow2 e \<Longrightarrow> \<bar>m\<bar> \<le> 2 ^ 53 \<Longrightarrow> - 1074 \<le> e \<Longrightarrow> e \<le> 970 \<Longrightarrow> double x"
proof -
  assume x: "x = of_int m * pow2 e" and m: "\<bar>m\<bar> \<le> 2 ^ 53" "- 1074 \<le> e" "e \<le> 970"
  have "(of_int \<bar>m\<bar> :: rat) \<le> of_int (2 ^ 53)" unfolding of_int_le_iff by (rule m(1))
  then have "of_int \<bar>m\<bar> * pow2 e \<le> pow2 53 * pow2 970" using pow2_mono [OF m(3)]
    by (intro mult_mono) (simp_all add: pow2_def [of 53])
  also have "\<dots> = pow2 1023" by (simp add: pow2_add [symmetric])
  also have "\<dots> < pow2 1024" by (rule pow2_strict_mono) simp
  finally have "\<bar>x\<bar> < pow2 1024" by (simp add: x abs_mult)
  then show ?thesis using rnd_representable [OF m(1,2)] by (simp add: double_def x)
qed

lemma double_grid: "double x \<Longrightarrow> on_grid (- 1074) x"
  using on_grid_rnd [of x] on_grid_coarser [of "ulp_exp x" x "- 1074"] by (simp add: double_def ulp_exp_def)

text \<open>The rounding error of a number on the grid of the doubles, such as a sum of doubles, is relative.\<close>

lemma rnd_error_grid:
  assumes "on_grid (- 1074) x"
  shows "\<bar>rnd x - x\<bar> \<le> \<bar>x\<bar> * pow2 (- 53)"
proof (cases "x = 0")
  case False
  show ?thesis using ulp_bound [OF False]
  proof
    assume "pow2 (ulp_exp x) = pow2 (- 1074)"
    then have "ulp_exp x = - 1074" using pow2_strict_mono by (metis less_irrefl linorder_neqE)
    then have "rnd x = x" using rnd_grid assms by simp
    then show ?thesis by simp
  next
    assume "pow2 (ulp_exp x) \<le> \<bar>x\<bar> * pow2 (- 52)"
    then have "pow2 (ulp_exp x) / 2 \<le> \<bar>x\<bar> * (pow2 (- 52) / 2)" by simp
    then show ?thesis using rnd_error [of x] unfolding pow2_half by simp
  qed
qed simp

lemma rnd_lower: "0 \<le> x \<Longrightarrow> x * (1 - pow2 (- 53)) - pow2 (- 1075) \<le> rnd x"
  using rnd_error_bound [of x] by (simp add: abs_le_iff algebra_simps)

lemma rnd_upper: "0 \<le> x \<Longrightarrow> rnd x \<le> x * (1 + pow2 (- 53)) + pow2 (- 1075)"
  using rnd_error_bound [of x] by (simp add: abs_le_iff algebra_simps)

lemma rnd_grid_bounds:
  assumes "on_grid (- 1074) x" "0 \<le> x"
  shows "x * (1 - pow2 (- 53)) \<le> rnd x" "rnd x \<le> x * (1 + pow2 (- 53))"
  using rnd_error_grid [OF assms(1)] assms(2) by (simp_all add: abs_le_iff algebra_simps)

lemma rnd_idem [simp]: "rnd (rnd x) = rnd x"
proof (cases "x = 0 \<or> rnd x = 0")
  case False
  let ?m = "half_even (x / pow2 (ulp_exp x))"
  have rnd: "rnd x = of_int ?m * pow2 (ulp_exp x)" using False by (simp add: rnd_def)
  have "\<bar>x\<bar> < pow2 (rat_log2 \<bar>x\<bar> + 1)" using rat_log2_bounds(2) [of "\<bar>x\<bar>"] False by simp
  also have "\<dots> \<le> pow2 (ulp_exp x + 53)" by (intro pow2_mono) (simp add: ulp_exp_def)
  finally have "\<bar>x / pow2 (ulp_exp x)\<bar> \<le> of_int (2 ^ 53)"
    by (simp add: pow2_add abs_divide divide_le_eq mult.commute pow2_def [of 53])
  then have "x / pow2 (ulp_exp x) \<le> of_int (2 ^ 53)" "of_int (- (2 ^ 53)) \<le> x / pow2 (ulp_exp x)"
    by (simp_all add: abs_le_iff del: abs_divide)
  then have "\<bar>?m\<bar> \<le> 2 ^ 53" using half_even_mono [of _ "of_int (2 ^ 53)"] half_even_mono [of "of_int (- (2 ^ 53))"]
    unfolding half_even_int abs_le_iff minus_le_iff [of "half_even _"] by blast
  then show ?thesis unfolding rnd by (intro rnd_representable) (simp_all add: ulp_exp_def)
qed auto

section \<open>Floats\<close>

datatype pyfloat = Flt rat | NegZero | Infinite bool | Nan

text \<open>The value of a finite float.\<close>

definition fin :: "pyfloat \<Rightarrow> rat option" where
  "fin a = (case a of Flt q \<Rightarrow> Some q | NegZero \<Rightarrow> Some 0 | _ \<Rightarrow> None)"

definition pydouble :: "pyfloat \<Rightarrow> bool" where
  "pydouble a \<longleftrightarrow> (case a of Flt q \<Rightarrow> double q | _ \<Rightarrow> True)"

definition f_signbit :: "pyfloat \<Rightarrow> bool" where
  "f_signbit a = (case a of Flt q \<Rightarrow> q < 0 | NegZero \<Rightarrow> True | Infinite neg \<Rightarrow> neg | Nan \<Rightarrow> False)"

definition f_zero :: "bool \<Rightarrow> pyfloat" where
  "f_zero neg = (if neg then NegZero else Flt 0)"

definition f_round :: "rat \<Rightarrow> pyfloat" where
  "f_round x =
     (let r = rnd x
      in if r = 0 then f_zero (x < 0) else if \<bar>r\<bar> < pow2 1024 then Flt r else Infinite (x < 0))"

definition f_isfinite :: "pyfloat \<Rightarrow> bool" where
  "f_isfinite a \<longleftrightarrow> fin a \<noteq> None"

definition f_neg :: "pyfloat \<Rightarrow> pyfloat" where
  "f_neg a =
     (case a of Flt q \<Rightarrow> if q = 0 then NegZero else Flt (- q) | NegZero \<Rightarrow> Flt 0
      | Infinite neg \<Rightarrow> Infinite (\<not> neg) | Nan \<Rightarrow> Nan)"

definition f_abs :: "pyfloat \<Rightarrow> pyfloat" where
  "f_abs a = (if f_signbit a then f_neg a else a)"

definition f_add :: "pyfloat \<Rightarrow> pyfloat \<Rightarrow> pyfloat" where
  "f_add a b =
     (case (fin a, fin b) of
        (Some x, Some y) \<Rightarrow> if a = NegZero \<and> b = NegZero then NegZero else f_round (x + y)
      | (Some _, None) \<Rightarrow> b
      | (None, Some _) \<Rightarrow> a
      | (None, None) \<Rightarrow> if a = b then a else Nan)"

definition f_sub :: "pyfloat \<Rightarrow> pyfloat \<Rightarrow> pyfloat" where
  "f_sub a b = f_add a (f_neg b)"

definition f_mul :: "pyfloat \<Rightarrow> pyfloat \<Rightarrow> pyfloat" where
  "f_mul a b =
     (let neg = (f_signbit a \<noteq> f_signbit b)
      in case (fin a, fin b) of
           (Some x, Some y) \<Rightarrow> if x = 0 \<or> y = 0 then f_zero neg else f_round (x * y)
         | _ \<Rightarrow> if a = Nan \<or> b = Nan \<or> fin a = Some 0 \<or> fin b = Some 0 then Nan else Infinite neg)"

definition f_div :: "pyfloat \<Rightarrow> pyfloat \<Rightarrow> pyfloat result" where
  "f_div a b =
     (let neg = (f_signbit a \<noteq> f_signbit b)
      in if fin b = Some 0 then Inl (ZeroDivisionError ''float division by zero'')
         else Inr (case (fin a, fin b) of
             (Some x, Some y) \<Rightarrow> if x = 0 then f_zero neg else f_round (x / y)
           | (Some _, None) \<Rightarrow> if b = Nan then Nan else f_zero neg
           | (None, Some _) \<Rightarrow> if a = Nan then Nan else Infinite neg
           | (None, None) \<Rightarrow> Nan))"

definition f_less :: "pyfloat \<Rightarrow> pyfloat \<Rightarrow> bool" where
  "f_less a b \<longleftrightarrow>
     (case (fin a, fin b) of
        (Some x, Some y) \<Rightarrow> x < y
      | (Some _, None) \<Rightarrow> b = Infinite False
      | (None, Some _) \<Rightarrow> a = Infinite True
      | (None, None) \<Rightarrow> a = Infinite True \<and> b = Infinite False)"

definition f_eq :: "pyfloat \<Rightarrow> pyfloat \<Rightarrow> bool" where
  "f_eq a b \<longleftrightarrow> a \<noteq> Nan \<and> (if fin a = None then a = b else fin a = fin b)"

definition f_le :: "pyfloat \<Rightarrow> pyfloat \<Rightarrow> bool" where
  "f_le a b \<longleftrightarrow> f_less a b \<or> f_eq a b"

text \<open>The builtins \<open>max(a, b)\<close> and \<open>min(a, b)\<close> keep the first argument unless the second is strictly beyond it.\<close>

definition f_max :: "pyfloat \<Rightarrow> pyfloat \<Rightarrow> pyfloat" where
  "f_max a b = (if f_less a b then b else a)"

definition f_min :: "pyfloat \<Rightarrow> pyfloat \<Rightarrow> pyfloat" where
  "f_min a b = (if f_less b a then b else a)"

lemma fin_simps [simp]:
  "fin (Flt q) = Some q" "fin NegZero = Some 0" "fin (Infinite s) = None" "fin Nan = None" "fin (f_zero s) = Some 0"
  by (simp_all add: fin_def f_zero_def)

lemma fin_Some: "fin a = Some q \<longleftrightarrow> a = Flt q \<or> a = NegZero \<and> q = 0"
  by (cases a) auto

lemma fin_None: "fin a = None \<longleftrightarrow> a = Nan \<or> (\<exists>s. a = Infinite s)"
  by (cases a) auto

lemma fin_round: "fin (f_round x) = (if \<bar>rnd x\<bar> < pow2 1024 then Some (rnd x) else None)"
  by (simp add: f_round_def Let_def)

lemma round_None: "fin (f_round x) = None \<Longrightarrow> f_round x = Infinite (x < 0)"
  by (auto simp: f_round_def Let_def f_zero_def fin_def split: if_splits)

lemma round_double: "double x \<Longrightarrow> f_round x = Flt x"
  by (auto simp: double_def f_round_def f_zero_def)

lemma pydouble_simps [simp]:
  "pydouble (Flt q) = double q" "pydouble NegZero" "pydouble (Infinite s)" "pydouble Nan" "pydouble (f_zero s)"
  by (simp_all add: pydouble_def f_zero_def)

lemma pydouble_fin: "pydouble a \<Longrightarrow> fin a = Some q \<Longrightarrow> double q"
  by (auto simp: fin_Some)

lemma pydouble_round [simp]: "pydouble (f_round x)"
  by (simp add: f_round_def Let_def double_def)

text \<open>Every operation on doubles gives a double.\<close>

lemma pydouble_closed:
  assumes "pydouble a" "pydouble b"
  shows "pydouble (f_neg a)" "pydouble (f_abs a)" "pydouble (f_add a b)" "pydouble (f_sub a b)" "pydouble (f_mul a b)"
    "f_div a b = Inr c \<Longrightarrow> pydouble c" "pydouble (f_max a b)" "pydouble (f_min a b)"
proof -
  have neg: "pydouble x \<Longrightarrow> pydouble (f_neg x)" for x by (cases x) (simp_all add: f_neg_def double_minus)
  have add: "pydouble x \<Longrightarrow> pydouble y \<Longrightarrow> pydouble (f_add x y)" for x y
    by (simp add: f_add_def split: option.split)
  show "pydouble (f_neg a)" by (rule neg [OF assms(1)])
  then show "pydouble (f_abs a)" using assms by (simp add: f_abs_def)
  show "pydouble (f_add a b)" by (rule add [OF assms])
  show "pydouble (f_sub a b)" unfolding f_sub_def by (rule add [OF assms(1) neg [OF assms(2)]])
  show "pydouble (f_mul a b)" by (simp add: f_mul_def Let_def split: option.split)
  show "pydouble c" if "f_div a b = Inr c" using that by (auto simp: f_div_def Let_def split: if_splits option.splits)
  show "pydouble (f_max a b)" "pydouble (f_min a b)" using assms by (simp_all add: f_max_def f_min_def)
qed

section \<open>Arithmetic and comparisons of finite floats\<close>

text \<open>The value of a finite float, 0 for the others.\<close>

definition val :: "pyfloat \<Rightarrow> rat" where
  "val a = (case fin a of Some q \<Rightarrow> q | None \<Rightarrow> 0)"

lemma val_fin: "fin a = Some q \<Longrightarrow> val a = q"
  by (simp add: val_def)

lemma finite_val: "f_isfinite a \<longleftrightarrow> fin a = Some (val a)"
  by (auto simp: f_isfinite_def val_def)

lemma val_simps [simp]: "val (Flt q) = q" "val NegZero = 0" "val (f_zero s) = 0" "val (Infinite s) = 0" "val Nan = 0"
  by (simp_all add: val_def)

lemma isfinite_simps [simp]:
  "f_isfinite (Flt q)" "f_isfinite NegZero" "\<not> f_isfinite (Infinite s)" "\<not> f_isfinite Nan" "f_isfinite (f_zero s)"
  by (simp_all add: f_isfinite_def)

lemma pydouble_val: "pydouble a \<Longrightarrow> double (val a)"
  by (cases a) (simp_all add: val_def)

lemma f_less_finite: "f_isfinite a \<Longrightarrow> f_isfinite b \<Longrightarrow> f_less a b \<longleftrightarrow> val a < val b"
  by (cases a; cases b; simp add: f_less_def)

lemma f_le_finite: "f_isfinite a \<Longrightarrow> f_isfinite b \<Longrightarrow> f_le a b \<longleftrightarrow> val a \<le> val b"
  by (cases a; cases b; auto simp: f_le_def f_less_def f_eq_def)

lemma f_neg_finite: "f_isfinite a \<Longrightarrow> f_isfinite (f_neg a)" "val (f_neg a) = - val a"
  by (cases a; simp add: f_neg_def val_def)+

lemma f_round_finite: "f_isfinite (f_round x) \<Longrightarrow> val (f_round x) = rnd x"
  by (auto simp: f_isfinite_def val_def fin_round split: if_splits)

lemma f_round_finite_iff: "f_isfinite (f_round x) \<longleftrightarrow> \<bar>rnd x\<bar> < pow2 1024"
  by (simp add: f_isfinite_def fin_round)

lemma f_round_between:
  assumes "double l" "double u" "l \<le> x" "x \<le> u"
  shows "f_isfinite (f_round x)" "l \<le> rnd x" "rnd x \<le> u"
proof -
  show "l \<le> rnd x" "rnd x \<le> u" using rnd_mono [OF assms(3)] rnd_mono [OF assms(4)] assms(1,2) by (simp_all add: double_def)
  then show "f_isfinite (f_round x)" using assms(1,2) by (auto simp: f_round_finite_iff double_def abs_less_iff)
qed

text \<open>Rounding is monotone for the comparisons of Python too, with infinities.\<close>

lemma f_round_le: "f_isfinite b \<Longrightarrow> pydouble b \<Longrightarrow> x \<le> val b \<Longrightarrow> f_le (f_round x) b"
proof -
  assume b: "f_isfinite b" "pydouble b" "x \<le> val b"
  then have d: "rnd (val b) = val b" "\<bar>val b\<bar> < pow2 1024" using pydouble_val [OF b(2)] by (simp_all add: double_def)
  have le: "rnd x \<le> val b" using rnd_mono [OF b(3)] d(1) by simp
  show ?thesis
  proof (cases "f_isfinite (f_round x)")
    case True
    then show ?thesis using le b(1) by (simp add: f_le_finite f_round_finite)
  next
    case False
    then have "pow2 1024 \<le> \<bar>rnd x\<bar>" by (simp add: f_round_finite_iff)
    then have "rnd x < 0" using le d(2) by linarith
    then have "x < 0" using rnd_nonneg [of x] by (meson not_less)
    then have "f_round x = Infinite True" using False round_None [of x] by (simp add: f_isfinite_def)
    then show ?thesis using b(1) by (simp add: f_le_def f_less_def finite_val)
  qed
qed

lemma f_le_round: "f_isfinite b \<Longrightarrow> pydouble b \<Longrightarrow> val b \<le> x \<Longrightarrow> f_le b (f_round x)"
proof -
  assume b: "f_isfinite b" "pydouble b" "val b \<le> x"
  then have d: "rnd (val b) = val b" "\<bar>val b\<bar> < pow2 1024" using pydouble_val [OF b(2)] by (simp_all add: double_def)
  have le: "val b \<le> rnd x" using rnd_mono [OF b(3)] d(1) by simp
  show ?thesis
  proof (cases "f_isfinite (f_round x)")
    case True
    then show ?thesis using le b(1) by (simp add: f_le_finite f_round_finite)
  next
    case False
    then have "pow2 1024 \<le> \<bar>rnd x\<bar>" by (simp add: f_round_finite_iff)
    then have "0 < rnd x" using le d(2) by linarith
    then have "\<not> x < 0" using rnd_nonneg [of "- x"] by auto
    then have "f_round x = Infinite False" using False round_None [of x] by (simp add: f_isfinite_def)
    then show ?thesis using b(1) by (simp add: f_le_def f_less_def finite_val)
  qed
qed

text \<open>A float that is a real number rounded, whatever the sign of an exact zero.\<close>

definition rounds :: "pyfloat \<Rightarrow> rat \<Rightarrow> bool" where
  "rounds v x \<longleftrightarrow> v = f_round x \<or> (\<exists>s. v = f_zero s) \<and> x = 0"

lemma neg_zero_zero [simp]: "\<exists>s. NegZero = f_zero s"
  by (rule exI [of _ True]) (simp add: f_zero_def)

lemma f_arith_rounds:
  assumes "f_isfinite a" "f_isfinite b"
  shows "rounds (f_add a b) (val a + val b)" "rounds (f_sub a b) (val a - val b)" "rounds (f_mul a b) (val a * val b)"
    "val b \<noteq> 0 \<Longrightarrow> \<exists>c. f_div a b = Inr c \<and> rounds c (val a / val b)"
proof -
  have add: "f_isfinite x \<Longrightarrow> f_isfinite y \<Longrightarrow> rounds (f_add x y) (val x + val y)" for x y
    by (cases x; cases y; auto simp: f_add_def rounds_def)
  show "rounds (f_add a b) (val a + val b)" by (rule add [OF assms])
  show "rounds (f_sub a b) (val a - val b)"
    using add [OF assms(1) f_neg_finite(1) [OF assms(2)]] f_neg_finite(2) [of b] by (simp add: f_sub_def)
  show "rounds (f_mul a b) (val a * val b)"
    using assms by (cases a; cases b; auto simp: f_mul_def Let_def rounds_def)
  show "val b \<noteq> 0 \<Longrightarrow> \<exists>c. f_div a b = Inr c \<and> rounds c (val a / val b)"
    using assms by (cases a; cases b; auto simp: f_div_def Let_def rounds_def)
qed

lemma rounds_val: "rounds v x \<Longrightarrow> f_isfinite v \<Longrightarrow> val v = rnd x"
  by (auto simp: rounds_def f_round_finite)

lemma rounds_between:
  assumes "rounds v x" "double l" "double u" "l \<le> x" "x \<le> u"
  shows "f_isfinite v" "val v = rnd x" "l \<le> val v" "val v \<le> u"
proof -
  show fin: "f_isfinite v" using f_round_between(1) [OF assms(2-5)] assms(1) by (auto simp: rounds_def)
  show v: "val v = rnd x" by (rule rounds_val [OF assms(1) fin])
  show "l \<le> val v" "val v \<le> u" unfolding v using f_round_between(2,3) [OF assms(2-5)] by blast+
qed

lemma rounds_le: "rounds v x \<Longrightarrow> f_isfinite b \<Longrightarrow> pydouble b \<Longrightarrow> x \<le> val b \<Longrightarrow> f_le v b"
  by (auto simp: rounds_def f_round_le f_le_finite)

lemma le_rounds: "rounds v x \<Longrightarrow> f_isfinite b \<Longrightarrow> pydouble b \<Longrightarrow> val b \<le> x \<Longrightarrow> f_le b v"
  by (auto simp: rounds_def f_le_round f_le_finite)

lemma rounds_infinite: "rounds v x \<Longrightarrow> \<not> f_isfinite v \<Longrightarrow> v = Infinite (x < 0)"
  by (auto simp: rounds_def f_isfinite_def round_None)

lemma rounds_pydouble: "rounds v x \<Longrightarrow> pydouble v"
  by (auto simp: rounds_def)

section \<open>Sums\<close>

definition f_of_int :: "int \<Rightarrow> pyfloat" where
  "f_of_int i = f_round (of_int i)"

text \<open>
  The builtin \<open>sum\<close> of floats as of Python 3.12, the version the service runs on: Neumaier's compensated
  summation, which adds up the rounding errors of the partial sums and applies them at the end.
\<close>

definition f_lost :: "pyfloat \<Rightarrow> pyfloat \<Rightarrow> pyfloat \<Rightarrow> pyfloat" where
  "f_lost s x t = (if f_le (f_abs x) (f_abs s) then f_add (f_sub s t) x else f_add (f_sub x t) s)"

fun f_sum_loop :: "pyfloat \<Rightarrow> pyfloat \<Rightarrow> pyfloat list \<Rightarrow> pyfloat" where
  "f_sum_loop s c [] = (if f_isfinite c \<and> val c \<noteq> 0 then f_add s c else s)"
| "f_sum_loop s c (x # xs) =
     (let t = f_add s x in f_sum_loop t (f_add c (f_lost s x t)) xs)"

definition f_sum :: "pyfloat list \<Rightarrow> pyfloat" where
  "f_sum xs = (case xs of [] \<Rightarrow> Flt 0 | y # ys \<Rightarrow> f_sum_loop (f_add (Flt 0) y) (Flt 0) ys)"

text \<open>A float close to a number, for errors of short computations with values of magnitude at most 8.\<close>

definition near :: "pyfloat \<Rightarrow> rat \<Rightarrow> rat \<Rightarrow> bool" where
  "near v x e \<longleftrightarrow> f_isfinite v \<and> \<bar>val v - x\<bar> \<le> e * pow2 (- 49)"

lemma double_1 [simp]: "double 1"
  by (rule doubleI [of _ 1 0]) simp_all

lemma double_pow2: "- 1074 \<le> k \<Longrightarrow> k \<le> 970 \<Longrightarrow> double (pow2 k)"
  by (rule doubleI [of _ 1 k]) simp_all

lemma double_nat: "k \<le> 2 ^ 53 \<Longrightarrow> double (of_nat k)"
  by (rule doubleI [of _ "int k" 0]) simp_all

lemma f_of_nat: "k \<le> 2 ^ 53 \<Longrightarrow> f_of_int (int k) = Flt (of_nat k)"
  using round_double [OF double_nat] by (simp add: f_of_int_def)

lemma near_exact: "f_isfinite v \<Longrightarrow> near v (val v) 0"
  by (simp add: near_def)

lemma rounds_near:
  assumes "rounds v y" "\<bar>y\<bar> \<le> 8" "\<bar>y - x\<bar> \<le> e * pow2 (- 49)"
  shows "near v x (e + 1)"
proof -
  have eight: "double 8" "double (- 8)"
    using double_pow2 [of 3] double_minus [of 8] by (simp_all add: pow2_def)
  have fin: "f_isfinite v" "val v = rnd y" using rounds_between [OF assms(1) eight(2,1)] assms(2) by (simp_all add: abs_le_iff)
  have "\<bar>y\<bar> * pow2 (- 53) \<le> 8 * pow2 (- 53)" using assms(2) by (intro mult_right_mono) simp_all
  then have "\<bar>rnd y - y\<bar> \<le> 8 * pow2 (- 53) + pow2 (- 1075)" using rnd_error_bound [of y] by linarith
  moreover have "pow2 (- 1075) \<le> pow2 (- 53)" by (rule pow2_mono) simp
  moreover have "9 * pow2 (- 53) \<le> pow2 (- 49)" by (simp add: pow2_def)
  ultimately have "\<bar>rnd y - x\<bar> \<le> e * pow2 (- 49) + pow2 (- 49)" using assms(3) by linarith
  then show ?thesis using fin by (simp add: near_def algebra_simps)
qed

lemma near_add:
  assumes "near a x d" "near b y e" "\<bar>x\<bar> \<le> 3" "\<bar>y\<bar> \<le> 3" "d \<le> 1000" "e \<le> 1000"
  shows "near (f_add a b) (x + y) (d + e + 1)" "near (f_sub a b) (x - y) (d + e + 1)"
proof -
  have small: "k * pow2 (- 49) \<le> 1" if "k \<le> 1000" for k :: rat
  proof -
    have "k * pow2 (- 49) \<le> 1000 * pow2 (- 49)" using that by (intro mult_right_mono) simp_all
    then show ?thesis by (simp add: pow2_def)
  qed
  have fin: "f_isfinite a" "f_isfinite b" and err: "\<bar>val a - x\<bar> \<le> d * pow2 (- 49)" "\<bar>val b - y\<bar> \<le> e * pow2 (- 49)"
    using assms(1,2) by (simp_all add: near_def)
  note bound = small [OF assms(5)] small [OF assms(6)]
  have sum: "\<bar>val a + val b\<bar> \<le> 8" "\<bar>(val a + val b) - (x + y)\<bar> \<le> (d + e) * pow2 (- 49)"
    using err bound assms(3,4) by (simp_all add: algebra_simps)
  have diff: "\<bar>val a - val b\<bar> \<le> 8" "\<bar>(val a - val b) - (x - y)\<bar> \<le> (d + e) * pow2 (- 49)"
    using err bound assms(3,4) by (simp_all add: algebra_simps)
  show "near (f_add a b) (x + y) (d + e + 1)" by (rule rounds_near [OF f_arith_rounds(1) [OF fin] sum])
  show "near (f_sub a b) (x - y) (d + e + 1)" by (rule rounds_near [OF f_arith_rounds(2) [OF fin] diff])
qed

text \<open>The compensated sum of three numbers of the unit interval.\<close>

lemma f_sum_three:
  assumes "f_isfinite p" "f_isfinite q" "f_isfinite r" "0 \<le> val p" "val p \<le> 1" "0 \<le> val q" "val q \<le> 1" "0 \<le> val r" "val r \<le> 1"
  shows "near (f_sum [p, q, r]) (val p + val q + val r) 20"
proof -
  note p = near_exact [OF assms(1)] and q = near_exact [OF assms(2)] and r = near_exact [OF assms(3)]
  define s where "s = f_add (Flt 0) p"
  define t where "t = f_add s q"
  define u where "u = f_add t r"
  have s: "near s (val p) 1" unfolding s_def using near_add(1) [OF near_exact [of "Flt 0"] p] assms by simp
  have t: "near t (val p + val q) 2" unfolding t_def using near_add(1) [OF s q] assms by simp
  have u: "near u (val p + val q + val r) 3" unfolding u_def using near_add(1) [OF t r] assms by simp
  define c1 c2 where "c1 = f_add (Flt 0) (f_lost s q t)" and "c2 = f_add c1 (f_lost t r u)"
  have l1: "near (f_lost s q t) 0 5"
    using near_add(1) [OF near_add(2) [OF s t] q] near_add(1) [OF near_add(2) [OF q t] s] assms by (simp add: f_lost_def near_def)
  have l2: "near (f_lost t r u) 0 7"
    using near_add(1) [OF near_add(2) [OF t u] r] near_add(1) [OF near_add(2) [OF r u] t] assms by (simp add: f_lost_def near_def)
  have c1: "near c1 0 6" unfolding c1_def using near_add(1) [OF near_exact [of "Flt 0"] l1] by simp
  have c2: "near c2 0 14" unfolding c2_def using near_add(1) [OF c1 l2] by simp
  have sum: "near (f_add u c2) (val p + val q + val r) 18" using near_add(1) [OF u c2] assms by simp
  have "f_sum [p, q, r] = (if f_isfinite c2 \<and> val c2 \<noteq> 0 then f_add u c2 else u)"
    by (simp add: f_sum_def Let_def s_def [symmetric] t_def [symmetric] u_def [symmetric] c1_def [symmetric] c2_def [symmetric])
  moreover have "3 * pow2 (- 49) \<le> 20 * pow2 (- 49)" "18 * pow2 (- 49) \<le> 20 * pow2 (- 49)" by simp_all
  ultimately show ?thesis using sum u by (auto simp: near_def)
qed

end
