(* ===== verification/Float_Text.thy ===== *)
theory Float_Text
  imports Python_Float
begin

text \<open>
  The text of a float: \<open>repr\<close> writes the shortest decimal that rounds back to the float, the closest of
  those, and \<open>json.dumps\<close> writes floats the same way.
\<close>

section \<open>Shortest decimals\<close>

definition pow10 :: "int \<Rightarrow> rat" where
  "pow10 k = (if 0 \<le> k then 10 ^ nat k else 1 / 10 ^ nat (- k))"

text \<open>The exponent of the leading decimal digit of a positive rational.\<close>

definition rat_log10 :: "rat \<Rightarrow> int" where
  "rat_log10 x =
     (case quotient_of x of (p, q) \<Rightarrow>
        let k = int (length (nat_digits (nat p))) - int (length (nat_digits (nat q)))
        in if pow10 k \<le> x then k else k - 1)"

text \<open>
  The decimal with \<open>n\<close> significant digits that rounds to \<open>x\<close> and is closest to it, as digits and the
  exponent of the last one.
\<close>

definition decimal_of :: "rat \<Rightarrow> nat \<Rightarrow> (nat \<times> int) option" where
  "decimal_of x n =
     (let p = rat_log10 x - int n + 1;
          lo = \<lfloor>x / pow10 p\<rfloor>;
          ok = (\<lambda>c. rnd (of_int c * pow10 p) = x)
      in if ok lo \<and> ok (lo + 1) then Some (nat (half_even (x / pow10 p)), p)
         else if ok lo then Some (nat lo, p)
         else if ok (lo + 1) then Some (nat (lo + 1), p)
         else None)"

fun first_decimal :: "rat \<Rightarrow> nat list \<Rightarrow> nat \<times> int" where
  "first_decimal x [] = (nat \<lfloor>x\<rfloor>, 0)"
| "first_decimal x (n # ns) = (case decimal_of x n of Some d \<Rightarrow> d | None \<Rightarrow> first_decimal x ns)"

text \<open>Seventeen digits are always enough; trailing zeros are not written.\<close>

definition shortest_digits :: "rat \<Rightarrow> string \<times> int" where
  "shortest_digits x =
     (case first_decimal x [1..<18] of (c, p) \<Rightarrow>
        let ds = nat_digits c
        in (rev (dropWhile (\<lambda>d. d = CHR ''0'') (rev ds)), int (length ds) + p))"

definition zeros :: "nat \<Rightarrow> string" where
  "zeros n = replicate n (CHR ''0'')"

text \<open>
  \<open>repr\<close> of a positive float: positional when the decimal point falls after position \<open>-4\<close> and up to
  position 16 of the digits, scientific with an exponent of at least two digits otherwise.
\<close>

definition positive_repr :: "rat \<Rightarrow> string" where
  "positive_repr x =
     (case shortest_digits x of (ds, point) \<Rightarrow>
        if - 4 < point \<and> point \<le> 16 then
          (if point \<le> 0 then ''0.'' @ zeros (nat (- point)) @ ds
           else if int (length ds) \<le> point then ds @ zeros (nat point - length ds) @ ''.0''
           else take (nat point) ds @ ''.'' @ drop (nat point) ds)
        else
          (let e = point - 1; m = nat_digits (nat \<bar>e\<bar>)
           in take 1 ds @ (if length ds = 1 then [] else ''.'' @ drop 1 ds)
              @ ''e'' @ (if e < 0 then ''-'' else ''+'') @ zeros (2 - length m) @ m))"

definition float_repr :: "pyfloat \<Rightarrow> string" where
  "float_repr a =
     (case a of Flt q \<Rightarrow> if q = 0 then ''0.0'' else if q < 0 then ''-'' @ positive_repr (- q) else positive_repr q
      | NegZero \<Rightarrow> ''-0.0''
      | Infinite neg \<Rightarrow> if neg then ''-inf'' else ''inf''
      | Nan \<Rightarrow> ''nan'')"

section \<open>JSON with floats\<close>

datatype fjson =
    FJson json
  | FNum pyfloat
  | FList "fjson list"
  | FObj "(string \<times> fjson) list"

text \<open>The number of a JSON text; without \<open>allow_nan\<close> a value that is not finite is refused.\<close>

definition fjson_number :: "bool \<Rightarrow> pyfloat \<Rightarrow> string result" where
  "fjson_number allow_nan a =
     (if f_isfinite a then Inr (float_repr a)
      else if \<not> allow_nan then Inl (ValueError ''Out of range float values are not JSON compliant'')
      else Inr (case a of Infinite neg \<Rightarrow> if neg then ''-Infinity'' else ''Infinity'' | _ \<Rightarrow> ''NaN''))"

fun fjson_dumps :: "bool \<Rightarrow> json_format \<Rightarrow> fjson \<Rightarrow> string result" where
  "fjson_dumps nan f (FJson v) = Inr (json_dumps f v)"
| "fjson_dumps nan f (FNum a) = fjson_number nan a"
| "fjson_dumps nan f (FList xs) =
     map_sum id (\<lambda>ts. ''['' @ join_with (item_sep f) ts @ '']'') (sequence_results (map (fjson_dumps nan f) xs))"
| "fjson_dumps nan f (FObj kvs) =
     map_sum id (\<lambda>ts. ''{'' @ join_with (item_sep f) ts @ ''}'')
       (sequence_results (map (\<lambda>(k, t). map_sum id (\<lambda>t. json_string (ensure_ascii f) k @ key_sep f @ t) t)
         (sort_key fst (map (\<lambda>(k, v). (k, fjson_dumps nan f v)) kvs))))"

definition fstr :: "string \<Rightarrow> fjson" where
  "fstr s = FJson (JStr s)"

definition fopt :: "string option \<Rightarrow> fjson" where
  "fopt v = (case v of None \<Rightarrow> FJson JNull | Some s \<Rightarrow> fstr s)"

definition fnum_opt :: "pyfloat option \<Rightarrow> fjson" where
  "fnum_opt v = (case v of None \<Rightarrow> FJson JNull | Some a \<Rightarrow> FNum a)"

definition fjson_sha256 :: "bool \<Rightarrow> json_format \<Rightarrow> fjson \<Rightarrow> string result" where
  "fjson_sha256 nan f v = map_sum id (\<lambda>t. sha256_hex (utf8_encode t)) (fjson_dumps nan f v)"

lemma sequence_results_all: "sequence_results rs = Inr xs \<Longrightarrow> r \<in> set rs \<Longrightarrow> \<exists>x. r = Inr x"
proof (induction rs arbitrary: xs)
  case (Cons y rs)
  then show ?case by (cases y; cases "sequence_results rs") auto
qed simp

lemma fjson_obj_ok:
  assumes "fjson_dumps nan f (FObj kvs) = Inr t" "(k, v) \<in> set kvs"
  shows "\<exists>u. fjson_dumps nan f v = Inr u"
proof -
  let ?g = "\<lambda>(k, t). map_sum id (\<lambda>t. json_string (ensure_ascii f) k @ key_sep f @ t) t"
  let ?rs = "map ?g (sort_key fst (map (\<lambda>(k, v). (k, fjson_dumps nan f v)) kvs))"
  obtain ts where "sequence_results ?rs = Inr ts" using assms(1) by (cases "sequence_results ?rs") auto
  moreover have "?g (k, fjson_dumps nan f v) \<in> set ?rs" using assms(2) by force
  ultimately obtain u where "?g (k, fjson_dumps nan f v) = Inr u" using sequence_results_all by blast
  then show ?thesis by (cases "fjson_dumps nan f v") auto
qed

lemma fjson_number_finite: "fjson_dumps False f (FNum a) = Inr t \<Longrightarrow> f_isfinite a"
  by (auto simp: fjson_number_def split: if_splits)

lemma sequence_results_total: "(\<And>r. r \<in> set rs \<Longrightarrow> is_ok r) \<Longrightarrow> is_ok (sequence_results rs)"
proof (induction rs)
  case (Cons r rs)
  then have "is_ok r" "is_ok (sequence_results rs)" by simp_all
  then show ?case by (cases r; cases "sequence_results rs") auto
qed simp

lemma is_ok_map_sum [simp]: "is_ok (map_sum id f r) = is_ok r"
  by (cases r) simp_all

lemma fjson_total:
  "(\<And>v. v \<in> set vs \<Longrightarrow> is_ok (fjson_dumps nan f v)) \<Longrightarrow> is_ok (fjson_dumps nan f (FList vs))"
  "(\<And>k v. (k, v) \<in> set kvs \<Longrightarrow> is_ok (fjson_dumps nan f v)) \<Longrightarrow> is_ok (fjson_dumps nan f (FObj kvs))"
  by (auto intro!: sequence_results_total)

lemma fjson_number_total [simp]: "f_isfinite a \<Longrightarrow> is_ok (fjson_dumps nan f (FNum a))"
  by (simp add: fjson_number_def)

text \<open>With \<open>allow_nan\<close> every value has a text.\<close>

lemma fjson_nan_total: "is_ok (fjson_dumps True f v)"
proof (induction v)
  case (FNum a)
  then show ?case by (simp add: fjson_number_def)
next
  case (FList vs)
  then show ?case by (rule fjson_total(1))
next
  case (FObj kvs)
  then show ?case by (intro fjson_total(2)) (auto simp: snds.simps)
qed simp

text \<open>\<open>deterministic_hash\<close> of a content with floats: it never fails, as \<open>allow_nan\<close> is the default.\<close>

definition deterministic_fhash :: "fjson \<Rightarrow> string" where
  "deterministic_fhash v = (case fjson_sha256 True fmt_default v of Inr h \<Rightarrow> h | Inl _ \<Rightarrow> '''')"

lemma fjson_hash_total: "fjson_sha256 True fmt_default v = Inr (deterministic_fhash v)"
  using fjson_nan_total [of fmt_default v] by (auto simp: deterministic_fhash_def fjson_sha256_def is_ok_iff)

lemma deterministic_fhash_nonempty [simp]: "deterministic_fhash v \<noteq> []"
  using fjson_nan_total [of fmt_default v] by (auto simp: deterministic_fhash_def fjson_sha256_def is_ok_iff)

end
