(* ===== verification/Risk_Sizing.thy ===== *)
theory Risk_Sizing
  imports Float_Text
begin

text \<open>
  Position sizing (\<open>risk/contracts.py\<close>, \<open>risk/engine.py\<close>): the Kelly fraction of a binary payoff, scaled,
  capped by the policy and turned into an amount.  All arithmetic is on floats as Python computes it.
\<close>

section \<open>Contracts\<close>

record TradeStatistics =
  average_win :: pyfloat
  average_loss :: pyfloat
  ts_sample_size :: int

definition TradeStatistics_validate :: "TradeStatistics \<Rightarrow> unit result" where
  "TradeStatistics_validate t =
     (if f_le (average_win t) (Flt 0) then Inl (ValueError ''average_win must be positive'')
      else if f_le (average_loss t) (Flt 0) then Inl (ValueError ''average_loss must be positive'')
      else if ts_sample_size t < 0 then Inl (ValueError ''sample_size must be non-negative'')
      else Inr ())"

definition win_loss_ratio :: "TradeStatistics \<Rightarrow> pyfloat result" where
  "win_loss_ratio t = rbind (TradeStatistics_validate t) (\<lambda>_. f_div (average_win t) (average_loss t))"

record RiskPolicy =
  fractional_kelly :: pyfloat
  max_risk_fraction :: pyfloat
  max_position_fraction :: pyfloat

definition in_unit :: "pyfloat \<Rightarrow> bool" where
  "in_unit a \<longleftrightarrow> f_le (Flt 0) a \<and> f_le a (Flt 1)"

definition RiskPolicy_validate :: "RiskPolicy \<Rightarrow> unit result" where
  "RiskPolicy_validate p =
     (if \<not> (f_less (Flt 0) (fractional_kelly p) \<and> f_le (fractional_kelly p) (Flt 1))
      then Inl (ValueError ''fractional_kelly must be in (0, 1]'')
      else if \<not> in_unit (max_risk_fraction p) then Inl (ValueError ''max_risk_fraction must be in [0, 1]'')
      else if \<not> in_unit (max_position_fraction p) then Inl (ValueError ''max_position_fraction must be in [0, 1]'')
      else Inr ())"

text \<open>The provenance of the probability, passed through to the calculation.\<close>

record RiskTrace =
  tr_research_id :: "string option"
  tr_probability_method :: "string option"
  tr_probability_calculation_version :: "string option"
  tr_probability_calibration_status :: "string option"
  tr_assessment_hash :: "string option"

record RiskInput =
  ri_asset :: string
  ri_direction :: string
  ri_probability :: pyfloat
  ri_account_equity :: pyfloat
  ri_trade_statistics :: TradeStatistics
  ri_risk_policy :: RiskPolicy
  ri_risk_per_unit :: "pyfloat option"
  ri_trace :: RiskTrace

definition RiskInput_validate :: "RiskInput \<Rightarrow> unit result" where
  "RiskInput_validate r =
     (if blank (ri_asset r) then Inl (ValueError ''asset must not be empty'')
      else if blank (ri_direction r) then Inl (ValueError ''direction must not be empty'')
      else if \<not> in_unit (ri_probability r) then Inl (ValueError ''probability must be in [0, 1]'')
      else if f_le (ri_account_equity r) (Flt 0) then Inl (ValueError ''account_equity must be positive'')
      else if (case ri_risk_per_unit r of None \<Rightarrow> False | Some u \<Rightarrow> f_le u (Flt 0))
      then Inl (ValueError ''risk_per_unit must be positive when supplied'')
      else rbind (TradeStatistics_validate (ri_trade_statistics r)) (\<lambda>_. RiskPolicy_validate (ri_risk_policy r)))"

definition RISK_SCHEMA_VERSION :: string where
  "RISK_SCHEMA_VERSION = ''risk.v1''"

record RiskCalculation =
  rc_schema_version :: string
  rc_asset :: string
  rc_direction :: string
  rc_probability :: pyfloat
  rc_win_loss_ratio :: pyfloat
  rc_full_kelly_fraction :: pyfloat
  rc_fractional_kelly_fraction :: pyfloat
  rc_final_risk_fraction :: pyfloat
  rc_risk_amount :: pyfloat
  rc_position_size :: "pyfloat option"
  rc_capped :: bool
  rc_status :: string
  rc_trace :: RiskTrace

definition trace_dict :: "RiskTrace \<Rightarrow> (string \<times> fjson) list" where
  "trace_dict t =
     [(''research_id'', fopt (tr_research_id t)), (''probability_method'', fopt (tr_probability_method t)),
      (''probability_calculation_version'', fopt (tr_probability_calculation_version t)),
      (''probability_calibration_status'', fopt (tr_probability_calibration_status t)),
      (''assessment_hash'', fopt (tr_assessment_hash t))]"

definition RiskInput_to_dict :: "RiskInput \<Rightarrow> fjson result" where
  "RiskInput_to_dict r =
     rbind (RiskInput_validate r) (\<lambda>_.
       let t = ri_trade_statistics r; p = ri_risk_policy r
       in Inr (FObj ([(''schema_version'', fstr RISK_SCHEMA_VERSION), (''asset'', fstr (ri_asset r)),
            (''direction'', fstr (ri_direction r)), (''probability'', FNum (ri_probability r)),
            (''account_equity'', FNum (ri_account_equity r)),
            (''trade_statistics'', FObj [(''average_win'', FNum (average_win t)), (''average_loss'', FNum (average_loss t)),
               (''sample_size'', FJson (JInt (ts_sample_size t)))]),
            (''risk_policy'', FObj [(''fractional_kelly'', FNum (fractional_kelly p)),
               (''max_risk_fraction'', FNum (max_risk_fraction p)), (''max_position_fraction'', FNum (max_position_fraction p))]),
            (''risk_per_unit'', fnum_opt (ri_risk_per_unit r))] @ trace_dict (ri_trace r))))"

definition RiskCalculation_to_dict :: "RiskCalculation \<Rightarrow> fjson" where
  "RiskCalculation_to_dict c =
     FObj ([(''schema_version'', fstr (rc_schema_version c)), (''asset'', fstr (rc_asset c)),
       (''direction'', fstr (rc_direction c)), (''probability'', FNum (rc_probability c)),
       (''win_loss_ratio'', FNum (rc_win_loss_ratio c)), (''full_kelly_fraction'', FNum (rc_full_kelly_fraction c)),
       (''fractional_kelly_fraction'', FNum (rc_fractional_kelly_fraction c)),
       (''final_risk_fraction'', FNum (rc_final_risk_fraction c)), (''risk_amount'', FNum (rc_risk_amount c)),
       (''position_size'', fnum_opt (rc_position_size c)), (''capped'', FJson (JBool (rc_capped c))),
       (''status'', fstr (rc_status c))] @ trace_dict (rc_trace c))"

section \<open>The engine\<close>

definition ZERO_TOLERANCE :: pyfloat where
  "ZERO_TOLERANCE = f_round (1 / 10 ^ 15)"

definition kelly_fraction :: "pyfloat \<Rightarrow> pyfloat \<Rightarrow> pyfloat result" where
  "kelly_fraction probability ratio =
     (if \<not> in_unit probability then Inl (ValueError ''probability must be in [0, 1]'')
      else if f_le ratio (Flt 0) then Inl (ValueError ''win_loss_ratio must be positive'')
      else rbind (f_div (f_sub (Flt 1) probability) ratio) (\<lambda>loss.
        let fraction = f_sub probability loss
        in Inr (if f_le fraction ZERO_TOLERANCE then Flt 0 else fraction)))"

definition position_size :: "RiskInput \<Rightarrow> pyfloat \<Rightarrow> pyfloat option result" where
  "position_size r risk_amount =
     (case ri_risk_per_unit r of
        None \<Rightarrow> Inr None
      | Some unit_risk \<Rightarrow>
          rbind (f_div risk_amount unit_risk) (\<lambda>size.
          rbind (f_div (f_mul (ri_account_equity r) (max_position_fraction (ri_risk_policy r))) unit_risk) (\<lambda>bound.
          Inr (Some (f_min size bound)))))"

definition calculate_risk :: "RiskInput \<Rightarrow> RiskCalculation result" where
  "calculate_risk r =
     rbind (RiskInput_validate r) (\<lambda>_.
     rbind (win_loss_ratio (ri_trade_statistics r)) (\<lambda>ratio.
     rbind (kelly_fraction (ri_probability r) ratio) (\<lambda>full_kelly.
       let fractional = f_mul full_kelly (fractional_kelly (ri_risk_policy r));
           final = f_min fractional (max_risk_fraction (ri_risk_policy r));
           risk_amount = f_mul (ri_account_equity r) final
       in rbind (position_size r risk_amount) (\<lambda>position.
          Inr \<lparr>rc_schema_version = RISK_SCHEMA_VERSION, rc_asset = ri_asset r, rc_direction = ri_direction r,
            rc_probability = ri_probability r, rc_win_loss_ratio = ratio, rc_full_kelly_fraction = full_kelly,
            rc_fractional_kelly_fraction = fractional, rc_final_risk_fraction = final, rc_risk_amount = risk_amount,
            rc_position_size = position, rc_capped = f_less final fractional, rc_status = ''CALCULATED'',
            rc_trace = ri_trace r\<rparr>))))"

section \<open>What the sizing guarantees\<close>

definition finite_request :: "RiskInput \<Rightarrow> bool" where
  "finite_request r \<longleftrightarrow>
     list_all (\<lambda>a. f_isfinite a \<and> pydouble a)
       ([ri_probability r, ri_account_equity r, average_win (ri_trade_statistics r), average_loss (ri_trade_statistics r),
         fractional_kelly (ri_risk_policy r), max_risk_fraction (ri_risk_policy r), max_position_fraction (ri_risk_policy r)]
        @ (case ri_risk_per_unit r of None \<Rightarrow> [] | Some u \<Rightarrow> [u]))"

lemma zero_tolerance: "f_isfinite ZERO_TOLERANCE" "val ZERO_TOLERANCE = rnd (1 / 10 ^ 15)" "0 < val ZERO_TOLERANCE" "pydouble ZERO_TOLERANCE"
  "val ZERO_TOLERANCE \<le> pow2 (- 49)"
proof -
  have d: "double (pow2 (- 50))" "double (pow2 (- 49))" by (simp_all add: double_pow2)
  have le: "pow2 (- 50) \<le> 1 / 10 ^ 15" "1 / 10 ^ 15 \<le> pow2 (- 49)" by (simp_all add: pow2_def)
  show fin: "f_isfinite ZERO_TOLERANCE" unfolding ZERO_TOLERANCE_def by (rule f_round_between(1) [OF d le])
  show v: "val ZERO_TOLERANCE = rnd (1 / 10 ^ 15)" using f_round_finite fin by (simp add: ZERO_TOLERANCE_def)
  show "0 < val ZERO_TOLERANCE" unfolding v using f_round_between(2) [OF d le] pow2_pos(1) [of "- 50"] by linarith
  show "pydouble ZERO_TOLERANCE" by (simp add: ZERO_TOLERANCE_def)
  show "val ZERO_TOLERANCE \<le> pow2 (- 49)" unfolding v by (rule f_round_between(3) [OF d le])
qed

text \<open>The full Kelly fraction: between 0 and the probability, whatever rounding and overflow do.\<close>

lemma kelly_fraction_range:
  assumes k: "kelly_fraction p ratio = Inr k" and p: "pydouble p"
    and ratio: "ratio = Infinite False \<or> f_isfinite ratio \<and> pydouble ratio"
  shows "f_isfinite p" "f_isfinite k" "pydouble k" "0 \<le> val k" "val k \<le> val p" "val p \<le> 1"
proof -
  have unit: "in_unit p" and pos: "\<not> f_le ratio (Flt 0)" using k by (auto simp: kelly_fraction_def split: if_splits)
  show fp: "f_isfinite p"
    using unit by (cases p) (auto simp: in_unit_def f_le_def f_less_def f_eq_def split: if_splits)
  then have p01: "0 \<le> val p" "val p \<le> 1" using unit by (simp_all add: in_unit_def f_le_finite)
  then show "val p \<le> 1" by blast
  have dp: "double (val p)" by (rule pydouble_val [OF p])
  define q where "q = f_sub (Flt 1) p"
  have rq: "rounds q (1 - val p)" unfolding q_def using f_arith_rounds(2) [of "Flt 1" p] fp by simp
  have q: "f_isfinite q" "0 \<le> val q" "pydouble q"
    using rounds_between [OF rq double_0 double_1] p01 rounds_pydouble [OF rq] by simp_all
  obtain loss where loss: "f_div q ratio = Inr loss" "k = (if f_le (f_sub p loss) ZERO_TOLERANCE then Flt 0 else f_sub p loss)"
    using k unit pos by (auto simp: kelly_fraction_def rbind_Inr Let_def q_def)
  have loss_pos: "loss = Infinite False \<or> f_isfinite loss \<and> pydouble loss \<and> 0 \<le> val loss"
  proof (cases "f_isfinite ratio")
    case True
    then have "0 < val ratio" using pos by (simp add: f_le_finite)
    moreover from this obtain c where "f_div q ratio = Inr c" "rounds c (val q / val ratio)"
      using f_arith_rounds(4) [OF q(1) True] by auto
    ultimately have r: "rounds loss (val q / val ratio)" "0 \<le> val q / val ratio" using loss(1) q(2) by simp_all
    then show ?thesis using rounds_infinite [OF r(1)] rounds_val [OF r(1)] rounds_pydouble [OF r(1)] rnd_nonneg [OF r(2)]
      by (cases "f_isfinite loss") simp_all
  next
    case False
    then have "ratio = Infinite False" using ratio by blast
    then show ?thesis using loss(1) q(1) by (cases q) (auto simp: f_div_def Let_def)
  qed
  let ?f = "f_sub p loss"
  have f: "f_le ?f ZERO_TOLERANCE \<or> f_isfinite ?f \<and> pydouble ?f \<and> val ?f \<le> val p"
  proof (cases "f_isfinite loss")
    case True
    then have r: "rounds ?f (val p - val loss)" using f_arith_rounds(2) [OF fp] by blast
    have "double (- val loss)" using loss_pos True pydouble_val double_minus by force
    then show ?thesis using rounds_between [OF r _ dp] rounds_pydouble [OF r] loss_pos True p01(1) by auto
  next
    case False
    then have "?f = Infinite True" using loss_pos fp by (cases p) (auto simp: f_sub_def f_add_def f_neg_def)
    then show ?thesis using zero_tolerance(1) by (simp add: f_le_def f_less_def finite_val)
  qed
  show "f_isfinite k" "pydouble k" "0 \<le> val k" "val k \<le> val p"
    using f zero_tolerance(1,3) p01(1) by (auto simp: loss(2) f_le_finite)
qed

text \<open>A probability below 1 is at least \<open>2^-53\<close> away from it.\<close>

lemma double_below_one:
  assumes "double p" "p < 1"
  shows "pow2 (- 53) \<le> 1 - p"
proof (cases "p < 1 / 2")
  case True
  then show ?thesis using pow2_mono [of "- 53" "- 1"] by (simp add: pow2_def [of "- 1"])
next
  case False
  then have "rat_log2 p = - 1" using assms(2) by (intro rat_log2_unique) (simp_all add: pow2_def)
  then have "ulp_exp p = - 53" using False by (simp add: ulp_exp_def)
  then have "on_grid (- 53) p" using assms(1) on_grid_rnd [of p] by (simp add: double_def)
  then obtain m where "1 - p = of_int m * pow2 (- 53)"
    using on_grid_add [OF on_grid_powi [of "- 53" 0] on_grid_minus] by (auto simp: on_grid_def)
  moreover from this have "0 < m" using assms(2) by (metis diff_gt_0_iff_gt of_int_0_less_iff pow2_pos(1) zero_less_mult_pos2)
  ultimately show ?thesis by simp
qed

text \<open>
  The rounded quotient \<open>q / r\<close> of the loss term stays above \<open>p - 2^-50\<close> when the exact payoff is not
  favourable: four relative errors and two absolute ones.
\<close>

lemma loss_term_bound:
  fixes p t q r l :: rat
  assumes p: "0 \<le> p" "p < 1" "double p" and t: "0 < t" "p * t \<le> 1 - p"
    and q: "q = rnd (1 - p)" and r: "r = rnd t" "0 < r" and l: "l = rnd (q / r)"
  shows "p - l \<le> pow2 (- 50)"
proof -
  define \<epsilon> \<eta> :: rat where "\<epsilon> = pow2 (- 53)" and "\<eta> = pow2 (- 1075)"
  have small: "0 < \<epsilon>" "0 < \<eta>" "\<eta> \<le> \<epsilon>" "\<epsilon> \<le> 1 / 100" "5 * \<epsilon> \<le> pow2 (- 50)"
    using pow2_mono [of "- 1075" "- 53"] by (simp_all add: \<epsilon>_def \<eta>_def pow2_def [of "- 53"] pow2_def [of "- 50"])
  have "on_grid (- 1074) (1 - p)"
    using on_grid_add [OF on_grid_powi [of "- 1074" 0] on_grid_minus [OF double_grid [OF p(3)]]] by simp
  then have qd: "(1 - p) * (1 - \<epsilon>) \<le> q" using rnd_grid_bounds(1) p(2) by (simp add: q \<epsilon>_def)
  show ?thesis
  proof (cases "pow2 (- 1000) \<le> t")
    case True
    have "\<eta> \<le> t * \<epsilon>"
    proof -
      have "\<eta> \<le> pow2 (- 1000) * \<epsilon>" unfolding \<epsilon>_def \<eta>_def pow2_add [symmetric] by (rule pow2_mono) simp
      also have "\<dots> \<le> t * \<epsilon>" using True small(1) by simp
      finally show ?thesis .
    qed
    moreover have "r \<le> t * (1 + \<epsilon>) + \<eta>" using rnd_upper [of t] t(1) by (simp add: r(1) \<epsilon>_def \<eta>_def)
    ultimately have rt: "r \<le> t * (1 + 2 * \<epsilon>)" by (simp add: algebra_simps)
    have "p * (1 - 3 * \<epsilon>) * r \<le> p * (1 - 3 * \<epsilon>) * (t * (1 + 2 * \<epsilon>))"
      using rt p(1) small(4) by (intro mult_left_mono) simp_all
    also have "\<dots> = (p * t) * ((1 - 3 * \<epsilon>) * (1 + 2 * \<epsilon>))" by simp
    also have "\<dots> \<le> (p * t) * (1 - \<epsilon>)"
      using p(1) t(1) small(1) by (intro mult_left_mono) (simp_all add: algebra_simps)
    also have "\<dots> \<le> (1 - p) * (1 - \<epsilon>)" using t(2) small(4) by (intro mult_right_mono) simp_all
    also note qd
    finally have quot: "p * (1 - 3 * \<epsilon>) \<le> q / r" using r(2) by (simp add: le_divide_eq)
    have "0 \<le> q" using rnd_nonneg [of "1 - p"] p(2) by (simp add: q)
    then have "(q / r) * (1 - \<epsilon>) - \<eta> \<le> l" using rnd_lower [of "q / r"] r(2) by (simp add: l \<epsilon>_def \<eta>_def)
    moreover have "p * (1 - 3 * \<epsilon>) * (1 - \<epsilon>) \<le> (q / r) * (1 - \<epsilon>)" using quot small(4) by (intro mult_right_mono) simp_all
    moreover have "p * (1 - 4 * \<epsilon>) \<le> p * (1 - 3 * \<epsilon>) * (1 - \<epsilon>)"
      using p(1) small(1) by (simp add: algebra_simps)
    ultimately have "p * (1 - 4 * \<epsilon>) - \<eta> \<le> l" by (simp add: algebra_simps)
    moreover have "p * (4 * \<epsilon>) \<le> 1 * (4 * \<epsilon>)" using p(2) small(1) by (intro mult_right_mono) simp_all
    ultimately show ?thesis using small(3,5) by (simp add: algebra_simps)
  next
    case False
    have "pow2 (- 53) \<le> q" using rnd_mono [OF double_below_one [OF p(3,2)]] double_pow2 [of "- 53"] by (simp add: q double_def)
    moreover have "r \<le> pow2 (- 1000)" using rnd_mono [of t "pow2 (- 1000)"] False double_pow2 [of "- 1000"] by (simp add: r(1) double_def)
    moreover have "pow2 (- 1000) \<le> pow2 (- 53)" by (rule pow2_mono) simp
    ultimately have "1 \<le> q / r" using r(2) by (simp add: le_divide_eq)
    then have "1 \<le> l" using rnd_mono [of 1 "q / r"] double_1 by (simp add: l double_def)
    then show ?thesis using p(2) pow2_pos(2) [of "- 50"] by linarith
  qed
qed

text \<open>No edge, no stake: when the exact odds are not favourable the Kelly fraction is exactly zero.\<close>

lemma kelly_fraction_no_edge:
  assumes k: "kelly_fraction p ratio = Inr k" and p: "pydouble p"
    and ratio: "rounds ratio t" "0 < t" and no_edge: "val p * t \<le> 1 - val p"
  shows "val k = 0"
proof -
  have shape: "ratio = Infinite False \<or> f_isfinite ratio \<and> pydouble ratio"
    using rounds_infinite [OF ratio(1)] rounds_pydouble [OF ratio(1)] ratio(2) by auto
  note range = kelly_fraction_range [OF k p shape]
  have pos: "\<not> f_le ratio (Flt 0)" and unit: "in_unit p" using k by (auto simp: kelly_fraction_def split: if_splits)
  have p0: "0 \<le> val p" and dp: "double (val p)" using range(1) unit pydouble_val [OF p] by (simp_all add: in_unit_def f_le_finite)
  have p1: "val p < 1"
  proof (rule ccontr)
    assume "\<not> val p < 1"
    then have "val p = 1" using range(6) by simp
    then show False using no_edge ratio(2) by simp
  qed
  define q where "q = f_sub (Flt 1) p"
  have rq: "rounds q (1 - val p)" unfolding q_def using f_arith_rounds(2) [of "Flt 1" p] range(1) by simp
  have q: "f_isfinite q" "val q = rnd (1 - val p)" "0 \<le> val q"
    using rounds_between [OF rq double_0 double_1] p0 p1 by simp_all
  obtain loss where loss: "f_div q ratio = Inr loss" "k = (if f_le (f_sub p loss) ZERO_TOLERANCE then Flt 0 else f_sub p loss)"
    using k unit pos by (auto simp: kelly_fraction_def rbind_Inr Let_def q_def)
  have tol: "pow2 (- 50) \<le> val ZERO_TOLERANCE"
    using rnd_mono [of "pow2 (- 50)" "1 / 10 ^ 15"] double_pow2 [of "- 50"] by (simp add: zero_tolerance(2) double_def pow2_def)
  have small: "f_le (f_sub p loss) ZERO_TOLERANCE" if l: "f_isfinite loss" "val p - val loss \<le> pow2 (- 50)"
    using rounds_le [OF f_arith_rounds(2) [OF range(1) l(1)] zero_tolerance(1,4)] l(2) tol by simp
  have "f_le (f_sub p loss) ZERO_TOLERANCE"
  proof (cases "f_isfinite ratio")
    case True
    then have r: "val ratio = rnd t" "0 < val ratio" using rounds_val [OF ratio(1)] pos by (simp_all add: f_le_finite)
    then obtain c where "f_div q ratio = Inr c" "rounds c (val q / val ratio)" using f_arith_rounds(4) [OF q(1) True] by auto
    then have l: "rounds loss (val q / val ratio)" using loss(1) by simp
    show ?thesis
    proof (cases "f_isfinite loss")
      case True
      then show ?thesis
        using small loss_term_bound [OF p0 p1 dp ratio(2) no_edge q(2) r rounds_val [OF l True]] by blast
    next
      case False
      then have "loss = Infinite False" using rounds_infinite [OF l] q(3) r(2) by (simp add: divide_less_0_iff)
      then have "f_sub p loss = Infinite True" using range(1) by (cases p) (auto simp: f_sub_def f_add_def f_neg_def)
      then show ?thesis using zero_tolerance(1) by (simp add: f_le_def f_less_def finite_val)
    qed
  next
    case False
    have "pow2 50 \<le> t"
    proof (rule ccontr)
      assume "\<not> pow2 50 \<le> t"
      then show False using rounds_between(1) [OF ratio(1) double_0 double_pow2 [of 50]] ratio(2) False by simp
    qed
    then have "val p * pow2 50 \<le> 1" using no_edge p0 mult_left_mono [of "pow2 50" t "val p"] by simp
    then have "val p \<le> pow2 (- 50)" by (simp add: pow2_def field_simps)
    moreover have "ratio = Infinite False" using rounds_infinite [OF ratio(1) False] ratio(2) by simp
    then have "loss = f_zero (f_signbit q)" using loss(1) q(1) by (cases q) (auto simp: f_div_def Let_def f_signbit_def)
    ultimately show ?thesis using small by simp
  qed
  then show ?thesis using loss(2) by simp
qed

text \<open>The fields of a calculation and the stages they come from.\<close>

lemma calculate_risk_stages:
  assumes "calculate_risk r = Inr c"
  shows "RiskInput_validate r = Inr ()" "f_div (average_win (ri_trade_statistics r)) (average_loss (ri_trade_statistics r)) = Inr (rc_win_loss_ratio c)"
    "kelly_fraction (ri_probability r) (rc_win_loss_ratio c) = Inr (rc_full_kelly_fraction c)"
    "rc_fractional_kelly_fraction c = f_mul (rc_full_kelly_fraction c) (fractional_kelly (ri_risk_policy r))"
    "rc_final_risk_fraction c = f_min (rc_fractional_kelly_fraction c) (max_risk_fraction (ri_risk_policy r))"
    "rc_risk_amount c = f_mul (ri_account_equity r) (rc_final_risk_fraction c)"
    "position_size r (rc_risk_amount c) = Inr (rc_position_size c)"
    "rc_capped c \<longleftrightarrow> f_less (rc_final_risk_fraction c) (rc_fractional_kelly_fraction c)"
  using assms by (auto simp: calculate_risk_def rbind_Inr Let_def win_loss_ratio_def)

lemma RiskInput_valid:
  assumes "RiskInput_validate r = Inr ()"
  shows "in_unit (ri_probability r)" "\<not> f_le (ri_account_equity r) (Flt 0)"
    "\<And>u. ri_risk_per_unit r = Some u \<Longrightarrow> \<not> f_le u (Flt 0)"
    "\<not> f_le (average_win (ri_trade_statistics r)) (Flt 0)" "\<not> f_le (average_loss (ri_trade_statistics r)) (Flt 0)"
    "f_less (Flt 0) (fractional_kelly (ri_risk_policy r))" "f_le (fractional_kelly (ri_risk_policy r)) (Flt 1)"
    "in_unit (max_risk_fraction (ri_risk_policy r))" "in_unit (max_position_fraction (ri_risk_policy r))"
  using assms by (auto simp: RiskInput_validate_def TradeStatistics_validate_def RiskPolicy_validate_def rbind_Inr split: if_splits)

lemma rounds_nonneg: "rounds v x \<Longrightarrow> 0 \<le> x \<Longrightarrow> f_le (Flt 0) v"
  using le_rounds [of v x "Flt 0"] by simp

lemma position_size_nonneg:
  assumes "position_size r a = Inr position" "f_isfinite a" "0 \<le> val a"
    and "f_isfinite (ri_account_equity r)" "0 < val (ri_account_equity r)"
    and "f_isfinite (max_position_fraction (ri_risk_policy r))" "0 \<le> val (max_position_fraction (ri_risk_policy r))"
    and "\<And>u. ri_risk_per_unit r = Some u \<Longrightarrow> f_isfinite u" "\<And>u. ri_risk_per_unit r = Some u \<Longrightarrow> 0 < val u"
  shows "case position of None \<Rightarrow> ri_risk_per_unit r = None | Some units \<Rightarrow> f_le (Flt 0) units"
proof (cases "ri_risk_per_unit r")
  case None
  then show ?thesis using assms(1) by (auto simp: position_size_def)
next
  case (Some u)
  note u = assms(8,9) [OF Some]
  let ?n = "f_mul (ri_account_equity r) (max_position_fraction (ri_risk_policy r))"
  obtain units bound where s: "f_div a u = Inr units" "f_div ?n u = Inr bound" "position = Some (f_min units bound)"
    using assms(1) Some by (auto simp: position_size_def rbind_Inr)
  have "rounds units (val a / val u)" using f_arith_rounds(4) [OF assms(2) u(1)] u(2) s(1) by auto
  then have nonneg: "f_le (Flt 0) units" using rounds_nonneg assms(3) u(2) by (metis divide_nonneg_pos)
  have rn: "rounds ?n (val (ri_account_equity r) * val (max_position_fraction (ri_risk_policy r)))"
    by (rule f_arith_rounds(3) [OF assms(4,6)])
  have "f_le (Flt 0) bound"
  proof (cases "f_isfinite ?n")
    case True
    then have "0 \<le> val ?n" using rounds_val [OF rn] rnd_nonneg assms(5,7) by simp
    moreover have "rounds bound (val ?n / val u)" using f_arith_rounds(4) [OF True u(1)] u(2) s(2) by auto
    ultimately show ?thesis using rounds_nonneg u(2) by (metis divide_nonneg_pos)
  next
    case False
    then have "?n = Infinite False" using rounds_infinite [OF rn] assms(5,7) by (simp add: mult_less_0_iff)
    then have "bound = Infinite False" using s(2) u by (cases u) (auto simp: f_div_def Let_def f_signbit_def)
    then show ?thesis by (simp add: f_le_def f_less_def)
  qed
  with nonneg show ?thesis by (simp add: s(3) f_min_def)
qed

definition payoff :: "RiskInput \<Rightarrow> rat" where
  "payoff r = val (average_win (ri_trade_statistics r)) / val (average_loss (ri_trade_statistics r))"

lemma finite_request_facts:
  assumes "RiskInput_validate r = Inr ()" "finite_request r"
  shows "f_isfinite (average_win (ri_trade_statistics r))" "f_isfinite (average_loss (ri_trade_statistics r))"
    "0 < val (average_win (ri_trade_statistics r))" "0 < val (average_loss (ri_trade_statistics r))"
    "f_isfinite (ri_account_equity r)" "pydouble (ri_account_equity r)" "0 < val (ri_account_equity r)"
    "f_isfinite (max_risk_fraction (ri_risk_policy r))" "0 \<le> val (max_risk_fraction (ri_risk_policy r))"
    "val (max_risk_fraction (ri_risk_policy r)) \<le> 1"
    "f_isfinite (fractional_kelly (ri_risk_policy r))" "0 < val (fractional_kelly (ri_risk_policy r))"
    "val (fractional_kelly (ri_risk_policy r)) \<le> 1"
    "f_isfinite (max_position_fraction (ri_risk_policy r))" "0 \<le> val (max_position_fraction (ri_risk_policy r))"
    "\<And>u. ri_risk_per_unit r = Some u \<Longrightarrow> f_isfinite u" "\<And>u. ri_risk_per_unit r = Some u \<Longrightarrow> 0 < val u"
    "pydouble (ri_probability r)" "0 < payoff r"
  using RiskInput_valid [OF assms(1)] assms(2)
  by (auto simp: finite_request_def in_unit_def f_le_finite f_less_finite payoff_def)

lemma sizing_ratio:
  assumes "calculate_risk r = Inr c" "finite_request r"
  shows "rounds (rc_win_loss_ratio c) (payoff r)"
    "rc_win_loss_ratio c = Infinite False \<or> f_isfinite (rc_win_loss_ratio c) \<and> pydouble (rc_win_loss_ratio c)"
proof -
  note stages = calculate_risk_stages [OF assms(1)]
  note fin = finite_request_facts [OF stages(1) assms(2)]
  show rr: "rounds (rc_win_loss_ratio c) (payoff r)"
    using f_arith_rounds(4) [OF fin(1,2)] stages(2) fin(4) by (auto simp: payoff_def)
  show "rc_win_loss_ratio c = Infinite False \<or> f_isfinite (rc_win_loss_ratio c) \<and> pydouble (rc_win_loss_ratio c)"
    using rounds_infinite [OF rr] rounds_pydouble [OF rr] fin(19) by auto
qed

lemma sizing_fraction:
  assumes "calculate_risk r = Inr c" "finite_request r"
  shows "f_isfinite (rc_final_risk_fraction c)" "0 \<le> val (rc_final_risk_fraction c)"
    "val (rc_final_risk_fraction c) \<le> val (max_risk_fraction (ri_risk_policy r))"
    "val (rc_final_risk_fraction c) \<le> val (rc_full_kelly_fraction c)"
proof -
  note stages = calculate_risk_stages [OF assms(1)]
  note fin = finite_request_facts [OF stages(1) assms(2)]
  note k = kelly_fraction_range [OF stages(3) fin(18) sizing_ratio(2) [OF assms]]
  let ?k = "rc_full_kelly_fraction c" and ?f = "rc_fractional_kelly_fraction c" and ?m = "max_risk_fraction (ri_risk_policy r)"
  have rf: "rounds ?f (val ?k * val (fractional_kelly (ri_risk_policy r)))"
    unfolding stages(4) by (rule f_arith_rounds(3) [OF k(2) fin(11)])
  have "val ?k * val (fractional_kelly (ri_risk_policy r)) \<le> val ?k" using mult_left_mono [OF fin(13) k(4)] by simp
  then have f: "f_isfinite ?f" "0 \<le> val ?f" "val ?f \<le> val ?k"
    using rounds_between [OF rf double_0 pydouble_val [OF k(3)]] k(4) fin(12) by simp_all
  show "f_isfinite (rc_final_risk_fraction c)" "0 \<le> val (rc_final_risk_fraction c)"
    "val (rc_final_risk_fraction c) \<le> val ?m" "val (rc_final_risk_fraction c) \<le> val ?k"
    unfolding stages(5) using f fin(8,9) by (auto simp: f_min_def f_less_finite)
qed

lemma sizing_amount:
  assumes "calculate_risk r = Inr c" "finite_request r"
  shows "f_isfinite (rc_risk_amount c)" "0 \<le> val (rc_risk_amount c)" "val (rc_risk_amount c) \<le> val (ri_account_equity r)"
    "val (rc_risk_amount c) = rnd (val (ri_account_equity r) * val (rc_final_risk_fraction c))"
proof -
  note stages = calculate_risk_stages [OF assms(1)]
  note fin = finite_request_facts [OF stages(1) assms(2)] and f = sizing_fraction [OF assms]
  let ?e = "val (ri_account_equity r)" and ?f = "val (rc_final_risk_fraction c)"
  have "?e * ?f \<le> ?e" using mult_left_mono [of ?f 1 ?e] f(3) fin(7,10) by simp
  moreover have "rounds (rc_risk_amount c) (?e * ?f)"
    unfolding stages(6) by (rule f_arith_rounds(3) [OF fin(5) f(1)])
  ultimately show "f_isfinite (rc_risk_amount c)" "0 \<le> val (rc_risk_amount c)" "val (rc_risk_amount c) \<le> ?e"
    "val (rc_risk_amount c) = rnd (?e * ?f)"
    using rounds_between [OF _ double_0 pydouble_val [OF fin(6)]] fin(7) f(2) by simp_all
qed

lemma sizing_amount_double:
  assumes "calculate_risk r = Inr c" "finite_request r"
  shows "pydouble (rc_risk_amount c)"
  unfolding calculate_risk_stages(6) [OF assms(1)]
  using rounds_pydouble f_arith_rounds(3) finite_request_facts(5) [OF calculate_risk_stages(1) [OF assms(1)] assms(2)]
    sizing_fraction(1) [OF assms] by blast

text \<open>No stake without an edge: an exact expected payoff that is not positive is staked with nothing.\<close>

lemma sizing_no_edge:
  assumes "calculate_risk r = Inr c" "finite_request r"
    and "val (ri_probability r) * val (average_win (ri_trade_statistics r))
        \<le> (1 - val (ri_probability r)) * val (average_loss (ri_trade_statistics r))"
  shows "val (rc_final_risk_fraction c) = 0" "val (rc_risk_amount c) = 0"
proof -
  note stages = calculate_risk_stages [OF assms(1)]
  note fin = finite_request_facts [OF stages(1) assms(2)] and f = sizing_fraction [OF assms(1,2)]
  have "val (ri_probability r) * payoff r \<le> 1 - val (ri_probability r)" using assms(3) fin(4) by (simp add: divide_le_eq payoff_def)
  then have "val (rc_full_kelly_fraction c) = 0"
    by (rule kelly_fraction_no_edge [OF stages(3) fin(18) sizing_ratio(1) [OF assms(1,2)] fin(19)])
  then show "val (rc_final_risk_fraction c) = 0" using f(2,4) by simp
  then show "val (rc_risk_amount c) = 0" using sizing_amount(4) [OF assms(1,2)] by simp
qed

text \<open>
  C18: Sizing is sound for finite requests, rounding included: the stake is a finite fraction between 0 and
  the policy's maximum, not above the full Kelly fraction, which is not above the probability; the amount
  is at most the equity; the position size is not negative; and when the exact expected payoff is not
  positive the stake is exactly zero.
\<close>

theorem sizing_sound:
  assumes "calculate_risk r = Inr c" "finite_request r"
  shows "f_isfinite (rc_final_risk_fraction c) \<and> f_isfinite (rc_risk_amount c)
    \<and> 0 \<le> val (rc_final_risk_fraction c)
    \<and> val (rc_final_risk_fraction c) \<le> val (max_risk_fraction (ri_risk_policy r))
    \<and> val (rc_final_risk_fraction c) \<le> val (rc_full_kelly_fraction c)
    \<and> val (rc_full_kelly_fraction c) \<le> val (ri_probability r) \<and> val (ri_probability r) \<le> 1
    \<and> 0 \<le> val (rc_risk_amount c) \<and> val (rc_risk_amount c) \<le> val (ri_account_equity r)
    \<and> (case rc_position_size c of None \<Rightarrow> ri_risk_per_unit r = None | Some units \<Rightarrow> f_le (Flt 0) units)
    \<and> (val (ri_probability r) * val (average_win (ri_trade_statistics r))
        \<le> (1 - val (ri_probability r)) * val (average_loss (ri_trade_statistics r))
        \<longrightarrow> val (rc_final_risk_fraction c) = 0 \<and> val (rc_risk_amount c) = 0)"
proof -
  note stages = calculate_risk_stages [OF assms(1)]
  note fin = finite_request_facts [OF stages(1) assms(2)] and f = sizing_fraction [OF assms] and a = sizing_amount [OF assms]
  note k = kelly_fraction_range [OF stages(3) fin(18) sizing_ratio(2) [OF assms]]
  have "case rc_position_size c of None \<Rightarrow> ri_risk_per_unit r = None | Some units \<Rightarrow> f_le (Flt 0) units"
    using position_size_nonneg [OF stages(7) a(1,2) fin(5,7,14,15)] fin(16,17) by blast
  then show ?thesis using f a k(5,6) sizing_no_edge [OF assms] by simp
qed

definition sample_request_input :: RiskInput where
  "sample_request_input =
     \<lparr>ri_asset = ''XAUUSD'', ri_direction = ''LONG'', ri_probability = Flt (1/2), ri_account_equity = Flt 1024,
      ri_trade_statistics = \<lparr>average_win = Flt 2, average_loss = Flt 1, ts_sample_size = 10\<rparr>,
      ri_risk_policy = \<lparr>fractional_kelly = Flt (1/4), max_risk_fraction = Flt (1/128), max_position_fraction = Flt 1\<rparr>,
      ri_risk_per_unit = Some (Flt 2),
      ri_trace = \<lparr>tr_research_id = None, tr_probability_method = None, tr_probability_calculation_version = None,
        tr_probability_calibration_status = None, tr_assessment_hash = Some ''aa''\<rparr>\<rparr>"

lemma sample_doubles: "double (1/2)" "double (1/4)" "double (1/16)" "double (1/128)" "double 2" "double 8" "double 4"
    "double 512" "double 1024"
  using double_pow2 [of "- 1"] double_pow2 [of "- 2"] double_pow2 [of "- 4"] double_pow2 [of "- 7"] double_pow2 [of 1]
    double_pow2 [of 3] double_pow2 [of 2] double_pow2 [of 9] double_pow2 [of 10]
  by (simp_all add: pow2_def)

lemmas f_eval = f_le_def f_less_def f_eq_def f_sub_def f_add_def f_neg_def f_mul_def f_div_def f_min_def f_max_def
  f_signbit_def Let_def

lemma above_tolerance: "pow2 (- 49) < q \<Longrightarrow> \<not> f_le (Flt q) ZERO_TOLERANCE"
  using zero_tolerance(1,5) by (simp add: f_le_finite)

lemma sample_kelly: "kelly_fraction (Flt (1/2)) (Flt 2) = Inr (Flt (1/4))"
proof -
  have "\<not> f_le (Flt (1/4)) ZERO_TOLERANCE" by (rule above_tolerance) (simp add: pow2_def)
  then show ?thesis
    by (simp add: kelly_fraction_def in_unit_def f_eval round_double sample_doubles)
qed

lemma sample_text: "\<not> blank ''XAUUSD''" "\<not> blank ''LONG''"
  by code_simp+

lemma sample_valid: "RiskInput_validate sample_request_input = Inr ()"
  by (simp add: sample_request_input_def RiskInput_validate_def TradeStatistics_validate_def RiskPolicy_validate_def
      in_unit_def f_le_finite f_less_finite sample_text)

lemma sample_arith:
  "f_div (Flt 2) (Flt 1) = Inr (Flt 2)" "f_mul (Flt (1/4)) (Flt (1/4)) = Flt (1/16)" "f_min (Flt (1/16)) (Flt (1/128)) = Flt (1/128)"
  "f_mul (Flt 1024) (Flt (1/128)) = Flt 8" "f_div (Flt 8) (Flt 2) = Inr (Flt 4)" "f_mul (Flt 1024) (Flt 1) = Flt 1024"
  "f_div (Flt 1024) (Flt 2) = Inr (Flt 512)" "f_min (Flt 4) (Flt 512) = Flt 4"
  by (simp_all add: f_eval round_double sample_doubles)

lemma sample_sizing:
  "\<exists>c. calculate_risk sample_request_input = Inr c \<and> rc_final_risk_fraction c = Flt (1/128) \<and> rc_risk_amount c = Flt 8
    \<and> rc_position_size c = Some (Flt 4)"
  unfolding calculate_risk_def sample_valid
  by (simp add: sample_request_input_def win_loss_ratio_def TradeStatistics_validate_def f_le_finite sample_arith sample_kelly
      position_size_def Let_def)

lemma sample_finite: "finite_request sample_request_input"
  by (simp add: finite_request_def sample_request_input_def sample_doubles)

theorem sizing_sound_witness:
  "\<exists>c. calculate_risk sample_request_input = Inr c \<and> val (rc_final_risk_fraction c) \<le> val (Flt (1/128))
    \<and> val (rc_risk_amount c) \<le> val (Flt 1024)"
proof -
  obtain c where c: "calculate_risk sample_request_input = Inr c" using sample_sizing by blast
  show ?thesis using sizing_sound [OF c sample_finite] c by (auto simp: sample_request_input_def)
qed

section \<open>Unintended behaviour\<close>

text \<open>
  A ratio of positive payoffs that underflows to zero is reported as not positive: a valid request fails
  inside the calculation.
\<close>

lemma underflowing_ratio_refused:
  assumes "rnd (payoff r) = 0" "RiskInput_validate r = Inr ()" "finite_request r"
  shows "calculate_risk r = Inl (ValueError ''win_loss_ratio must be positive'')"
proof -
  note fin = finite_request_facts [OF assms(2,3)]
  obtain ratio where ratio: "f_div (average_win (ri_trade_statistics r)) (average_loss (ri_trade_statistics r)) = Inr ratio"
    "rounds ratio (payoff r)"
    using f_arith_rounds(4) [OF fin(1,2)] fin(4) by (auto simp: payoff_def)
  have "f_isfinite ratio" using ratio(2) assms(1) by (auto simp: rounds_def f_round_finite_iff)
  then have "f_le ratio (Flt 0)" using rounds_val [OF ratio(2)] assms(1) by (simp add: f_le_finite)
  moreover have "in_unit (ri_probability r)" "TradeStatistics_validate (ri_trade_statistics r) = Inr ()"
    using RiskInput_valid(1) [OF assms(2)] assms(2) by (auto simp: RiskInput_validate_def rbind_Inr split: if_splits)
  ultimately show ?thesis
    using assms(2) ratio(1) by (simp add: calculate_risk_def win_loss_ratio_def kelly_fraction_def)
qed

text \<open>A payoff that is not a number passes the validation, and so does the calculation built on it.\<close>

lemma nan_payoff_calculated:
  "\<exists>c. calculate_risk (sample_request_input\<lparr>ri_trade_statistics := \<lparr>average_win = Nan, average_loss = Flt 1, ts_sample_size = 10\<rparr>\<rparr>)
     = Inr c \<and> rc_status c = ''CALCULATED'' \<and> rc_final_risk_fraction c = Nan \<and> rc_risk_amount c = Nan"
proof -
  have nan: "f_div Nan (Flt 1) = Inr Nan" "f_div (Flt (1/2)) Nan = Inr Nan" "f_sub (Flt (1/2)) Nan = Nan" "\<not> f_le Nan b"
    "f_mul Nan b = Nan" "f_mul b Nan = Nan" "\<not> f_less b Nan" "f_div Nan (Flt 2) = Inr Nan" "f_sub (Flt 1) (Flt (1/2)) = Flt (1/2)" for b
    by (cases b; simp add: f_eval round_double sample_doubles)+
  have "kelly_fraction (Flt (1/2)) Nan = Inr Nan"
    by (simp add: kelly_fraction_def in_unit_def f_le_finite nan Let_def)
  then show ?thesis
    by (simp add: sample_request_input_def calculate_risk_def RiskInput_validate_def TradeStatistics_validate_def
        RiskPolicy_validate_def in_unit_def f_le_finite f_less_finite sample_text win_loss_ratio_def nan position_size_def
        sample_arith f_min_def Let_def)
qed

end
