(* ===== verification/Risk_Governance.thy ===== *)
theory Risk_Governance
  imports Risk_Sizing "HOL-Library.Sublist"
begin

text \<open>
  The pre-trade gate (\<open>risk/governance.py\<close>): the life cycle of a strategy, limits and account snapshots,
  the decision with its audit digest.
\<close>

section \<open>Life cycle of a strategy\<close>

datatype StrategyRiskState =
    Risk_RESEARCH | Risk_VALIDATED | Risk_RISK_REVIEW | Risk_PAPER_ELIGIBLE | Risk_DEPLOYMENT_ELIGIBLE
  | Risk_ACTIVE | Risk_SUSPENDED | Risk_RETIRED

definition all_risk_states :: "StrategyRiskState list" where
  "all_risk_states =
     [Risk_RESEARCH, Risk_VALIDATED, Risk_RISK_REVIEW, Risk_PAPER_ELIGIBLE, Risk_DEPLOYMENT_ELIGIBLE, Risk_ACTIVE,
      Risk_SUSPENDED, Risk_RETIRED]"

fun risk_state_value :: "StrategyRiskState \<Rightarrow> string" where
  "risk_state_value Risk_RESEARCH = ''RESEARCH''"
| "risk_state_value Risk_VALIDATED = ''VALIDATED''"
| "risk_state_value Risk_RISK_REVIEW = ''RISK_REVIEW''"
| "risk_state_value Risk_PAPER_ELIGIBLE = ''PAPER_ELIGIBLE''"
| "risk_state_value Risk_DEPLOYMENT_ELIGIBLE = ''DEPLOYMENT_ELIGIBLE''"
| "risk_state_value Risk_ACTIVE = ''ACTIVE''"
| "risk_state_value Risk_SUSPENDED = ''SUSPENDED''"
| "risk_state_value Risk_RETIRED = ''RETIRED''"

definition allowed_risk_states :: "StrategyRiskState set" where
  "allowed_risk_states = {Risk_RISK_REVIEW, Risk_PAPER_ELIGIBLE, Risk_DEPLOYMENT_ELIGIBLE, Risk_ACTIVE}"

fun state_transitions :: "StrategyRiskState \<Rightarrow> StrategyRiskState set" where
  "state_transitions Risk_RESEARCH = {Risk_VALIDATED}"
| "state_transitions Risk_VALIDATED = {Risk_RISK_REVIEW}"
| "state_transitions Risk_RISK_REVIEW = {Risk_PAPER_ELIGIBLE, Risk_SUSPENDED}"
| "state_transitions Risk_PAPER_ELIGIBLE = {Risk_DEPLOYMENT_ELIGIBLE, Risk_SUSPENDED}"
| "state_transitions Risk_DEPLOYMENT_ELIGIBLE = {Risk_ACTIVE, Risk_SUSPENDED}"
| "state_transitions Risk_ACTIVE = {Risk_SUSPENDED, Risk_RETIRED}"
| "state_transitions Risk_SUSPENDED = {Risk_RISK_REVIEW, Risk_RETIRED}"
| "state_transitions Risk_RETIRED = {}"

text \<open>An argument of type \<open>StrategyRiskState | str\<close>.\<close>

datatype state_arg = Risk_State StrategyRiskState | Risk_Text string

definition coerce_strategy_state :: "state_arg \<Rightarrow> StrategyRiskState result" where
  "coerce_strategy_state v =
     (case v of Risk_State s \<Rightarrow> Inr s
      | Risk_Text t \<Rightarrow>
          (case find (\<lambda>s. risk_state_value s = map py_upper_char (py_strip t)) all_risk_states of
             Some s \<Rightarrow> Inr s
           | None \<Rightarrow> Inl (ValueError (''unsupported strategy risk state: '' @ py_repr_string t))))"

text \<open>\<open>StrategyStateTransitionError\<close> is a \<open>ValueError\<close>.\<close>

definition validate_strategy_transition :: "state_arg \<Rightarrow> state_arg \<Rightarrow> unit result" where
  "validate_strategy_transition current target =
     rbind (coerce_strategy_state current) (\<lambda>s.
     rbind (coerce_strategy_state target) (\<lambda>t.
       if s = t then Inr ()
       else if t \<notin> state_transitions s
       then Inl (ValueError (''invalid strategy state transition: '' @ risk_state_value s @ '' -> '' @ risk_state_value t))
       else Inr ()))"

section \<open>Limits and account\<close>

record RiskLimits =
  max_daily_loss_fraction :: pyfloat
  max_drawdown_fraction :: pyfloat
  max_strategy_loss_fraction :: pyfloat
  max_trade_loss_fraction :: pyfloat
  target_trade_risk_fraction :: pyfloat
  max_portfolio_open_risk_fraction :: pyfloat
  max_gross_exposure_fraction :: pyfloat
  max_single_instrument_exposure_fraction :: pyfloat

definition bounded_limits :: "RiskLimits \<Rightarrow> (string \<times> pyfloat) list" where
  "bounded_limits l =
     [(''max_daily_loss_fraction'', max_daily_loss_fraction l), (''max_drawdown_fraction'', max_drawdown_fraction l),
      (''max_strategy_loss_fraction'', max_strategy_loss_fraction l), (''max_trade_loss_fraction'', max_trade_loss_fraction l),
      (''target_trade_risk_fraction'', target_trade_risk_fraction l),
      (''max_portfolio_open_risk_fraction'', max_portfolio_open_risk_fraction l)]"

text \<open>A loop that raises at the first named value that fails a test.\<close>

definition check_all :: "(pyfloat \<Rightarrow> bool) \<Rightarrow> string \<Rightarrow> (string \<times> pyfloat) list \<Rightarrow> unit result" where
  "check_all ok message named =
     (case find (\<lambda>(name, v). \<not> ok v) named of
        Some (name, v) \<Rightarrow> Inl (ValueError (name @ message))
      | None \<Rightarrow> Inr ())"

definition positive_finite :: "pyfloat \<Rightarrow> bool" where
  "positive_finite a \<longleftrightarrow> f_isfinite a \<and> \<not> f_le a (Flt 0)"

definition RiskLimits_validate :: "RiskLimits \<Rightarrow> unit result" where
  "RiskLimits_validate l =
     rbind (check_all (\<lambda>v. f_isfinite v \<and> f_less (Flt 0) v \<and> f_le v (Flt 1)) '' must be finite and in (0, 1]'' (bounded_limits l)) (\<lambda>_.
       if f_less (max_trade_loss_fraction l) (target_trade_risk_fraction l)
       then Inl (ValueError ''target_trade_risk_fraction must not exceed max_trade_loss_fraction'')
       else if \<not> positive_finite (max_gross_exposure_fraction l)
       then Inl (ValueError ''max_gross_exposure_fraction must be finite and positive'')
       else if \<not> positive_finite (max_single_instrument_exposure_fraction l)
       then Inl (ValueError ''max_single_instrument_exposure_fraction must be finite and positive'')
       else Inr ())"

record RiskAccountState =
  day_start_equity :: pyfloat
  current_equity :: pyfloat
  high_water_mark :: pyfloat
  strategy_reference_equity :: pyfloat
  strategy_pnl :: pyfloat
  open_risk_amount :: pyfloat
  gross_exposure :: pyfloat
  single_instrument_exposure :: pyfloat
  kill_switch_active :: bool
  kill_switch_reason :: "string option"

definition RiskAccountState_validate :: "RiskAccountState \<Rightarrow> unit result" where
  "RiskAccountState_validate a =
     rbind (check_all positive_finite '' must be finite and positive''
       [(''day_start_equity'', day_start_equity a), (''current_equity'', current_equity a),
        (''high_water_mark'', high_water_mark a), (''strategy_reference_equity'', strategy_reference_equity a)]) (\<lambda>_.
     rbind (check_all (\<lambda>v. f_isfinite v \<and> \<not> f_less v (Flt 0)) '' must be finite and non-negative''
       [(''open_risk_amount'', open_risk_amount a), (''gross_exposure'', gross_exposure a),
        (''single_instrument_exposure'', single_instrument_exposure a)]) (\<lambda>_.
       if kill_switch_active a \<and> (case kill_switch_reason a of None \<Rightarrow> True | Some t \<Rightarrow> blank t)
       then Inl (ValueError ''kill_switch_reason is required when kill_switch_active is True'')
       else Inr ()))"

definition loss_from :: "pyfloat \<Rightarrow> pyfloat \<Rightarrow> pyfloat result" where
  "loss_from reference current =
     rbind (f_div (f_sub reference current) reference) (\<lambda>x. Inr (f_max (Flt 0) x))"

definition daily_loss_fraction :: "RiskAccountState \<Rightarrow> pyfloat result" where
  "daily_loss_fraction a = rbind (RiskAccountState_validate a) (\<lambda>_. loss_from (day_start_equity a) (current_equity a))"

definition drawdown_fraction :: "RiskAccountState \<Rightarrow> pyfloat result" where
  "drawdown_fraction a = rbind (RiskAccountState_validate a) (\<lambda>_. loss_from (high_water_mark a) (current_equity a))"

definition strategy_loss_fraction :: "RiskAccountState \<Rightarrow> pyfloat result" where
  "strategy_loss_fraction a =
     rbind (RiskAccountState_validate a) (\<lambda>_.
     rbind (f_div (f_neg (strategy_pnl a)) (strategy_reference_equity a)) (\<lambda>x. Inr (f_max (Flt 0) x)))"

section \<open>The decision\<close>

datatype RiskViolationCode =
    RESEARCH_INVALID | STRATEGY_STATE_BLOCKED | KILL_SWITCH_ACTIVE | DAILY_LOSS_LIMIT | MAX_DRAWDOWN
  | MAX_STRATEGY_LOSS | MAX_TRADE_RISK | MAX_PORTFOLIO_OPEN_RISK | MAX_GROSS_EXPOSURE
  | MAX_SINGLE_INSTRUMENT_EXPOSURE | PROPOSED_NOTIONAL_REQUIRED | RISK_EQUITY_MISMATCH

fun violation_value :: "RiskViolationCode \<Rightarrow> string" where
  "violation_value RESEARCH_INVALID = ''RESEARCH_INVALID''"
| "violation_value STRATEGY_STATE_BLOCKED = ''STRATEGY_STATE_BLOCKED''"
| "violation_value KILL_SWITCH_ACTIVE = ''KILL_SWITCH_ACTIVE''"
| "violation_value DAILY_LOSS_LIMIT = ''DAILY_LOSS_LIMIT''"
| "violation_value MAX_DRAWDOWN = ''MAX_DRAWDOWN''"
| "violation_value MAX_STRATEGY_LOSS = ''MAX_STRATEGY_LOSS''"
| "violation_value MAX_TRADE_RISK = ''MAX_TRADE_RISK''"
| "violation_value MAX_PORTFOLIO_OPEN_RISK = ''MAX_PORTFOLIO_OPEN_RISK''"
| "violation_value MAX_GROSS_EXPOSURE = ''MAX_GROSS_EXPOSURE''"
| "violation_value MAX_SINGLE_INSTRUMENT_EXPOSURE = ''MAX_SINGLE_INSTRUMENT_EXPOSURE''"
| "violation_value PROPOSED_NOTIONAL_REQUIRED = ''PROPOSED_NOTIONAL_REQUIRED''"
| "violation_value RISK_EQUITY_MISMATCH = ''RISK_EQUITY_MISMATCH''"

record RiskViolation =
  vio_code :: RiskViolationCode
  vio_observed :: "pyfloat option"
  vio_limit :: "pyfloat option"
  vio_detail :: "string option"

definition violation_dict :: "RiskViolation \<Rightarrow> fjson" where
  "violation_dict v =
     FObj [(''code'', fstr (violation_value (vio_code v))), (''observed'', fnum_opt (vio_observed v)),
       (''limit'', fnum_opt (vio_limit v)), (''detail'', fopt (vio_detail v))]"

record RiskDecision =
  rd_schema_version :: string
  rd_status :: string
  rd_strategy_state :: string
  rd_research_valid :: bool
  rd_daily_loss_fraction :: pyfloat
  rd_drawdown_fraction :: pyfloat
  rd_strategy_loss_fraction :: pyfloat
  rd_proposed_trade_risk_fraction :: pyfloat
  rd_projected_open_risk_fraction :: "pyfloat option"
  rd_projected_gross_exposure_fraction :: "pyfloat option"
  rd_projected_single_instrument_exposure_fraction :: "pyfloat option"
  rd_violations :: "RiskViolation list"
  rd_warnings :: "string list"
  rd_audit_hash :: string

definition decision_allowed :: "RiskDecision \<Rightarrow> bool" where
  "decision_allowed d \<longleftrightarrow> rd_status d = ''PASS'' \<and> rd_violations d = []"

definition decision_hash_payload :: "RiskDecision \<Rightarrow> fjson" where
  "decision_hash_payload d =
     FObj [(''schema_version'', fstr (rd_schema_version d)), (''status'', fstr (rd_status d)),
       (''strategy_state'', fstr (rd_strategy_state d)), (''research_valid'', FJson (JBool (rd_research_valid d))),
       (''daily_loss_fraction'', FNum (rd_daily_loss_fraction d)), (''drawdown_fraction'', FNum (rd_drawdown_fraction d)),
       (''strategy_loss_fraction'', FNum (rd_strategy_loss_fraction d)),
       (''proposed_trade_risk_fraction'', FNum (rd_proposed_trade_risk_fraction d)),
       (''projected_open_risk_fraction'', fnum_opt (rd_projected_open_risk_fraction d)),
       (''projected_gross_exposure_fraction'', fnum_opt (rd_projected_gross_exposure_fraction d)),
       (''projected_single_instrument_exposure_fraction'', fnum_opt (rd_projected_single_instrument_exposure_fraction d)),
       (''violations'', FList (map violation_dict (rd_violations d))),
       (''warnings'', FList (map fstr (rd_warnings d)))]"

definition with_audit_hash :: "RiskDecision \<Rightarrow> RiskDecision result" where
  "with_audit_hash d =
     rbind (fjson_sha256 False fmt_ascii (decision_hash_payload d)) (\<lambda>h. Inr (d\<lparr>rd_audit_hash := h\<rparr>))"

definition RISK_TOLERANCE :: pyfloat where
  "RISK_TOLERANCE = f_round (1 / 10 ^ 12)"

definition NEAR_LIMIT_UTILIZATION :: pyfloat where
  "NEAR_LIMIT_UTILIZATION = f_round (4 / 5)"

definition near_limit_warning :: "string \<Rightarrow> pyfloat \<Rightarrow> pyfloat \<Rightarrow> string option" where
  "near_limit_warning name observed limit =
     (if f_le limit (Flt 0) \<or> \<not> f_less observed limit then None
      else if f_le (f_mul NEAR_LIMIT_UTILIZATION limit) observed then Some (name @ '': utilization >= 80%'')
      else None)"

definition plain_violation :: "RiskViolationCode \<Rightarrow> string option \<Rightarrow> RiskViolation" where
  "plain_violation c detail = \<lparr>vio_code = c, vio_observed = None, vio_limit = None, vio_detail = detail\<rparr>"

definition limit_violation :: "RiskViolationCode \<Rightarrow> pyfloat \<Rightarrow> pyfloat \<Rightarrow> RiskViolation" where
  "limit_violation c observed limit =
     \<lparr>vio_code = c, vio_observed = Some observed, vio_limit = Some limit, vio_detail = None\<rparr>"

text \<open>One row of the table of hard checks.\<close>

type_synonym hard_check = "RiskViolationCode \<times> pyfloat option \<times> pyfloat"

definition check_violation :: "hard_check \<Rightarrow> RiskViolation list" where
  "check_violation row =
     (case row of
        (c, Some observed, limit) \<Rightarrow> if f_le limit (f_add observed RISK_TOLERANCE) then [limit_violation c observed limit] else []
      | _ \<Rightarrow> [])"

definition check_warning :: "hard_check \<Rightarrow> string list" where
  "check_warning row =
     (case row of
        (c, Some observed, limit) \<Rightarrow> (case near_limit_warning (violation_value c) observed limit of Some w \<Rightarrow> [w] | None \<Rightarrow> [])
      | _ \<Rightarrow> [])"

text \<open>The projections of the account with the proposed trade; none without a positive notional.\<close>

definition projections ::
  "RiskCalculation \<Rightarrow> RiskAccountState \<Rightarrow> pyfloat option \<Rightarrow> (pyfloat \<times> pyfloat \<times> pyfloat) option result" where
  "projections risk account notional =
     (case notional of
        None \<Rightarrow> Inr None
      | Some n \<Rightarrow>
          if f_le n (Flt 0) then Inr None
          else rbind (f_div (f_add (open_risk_amount account) (rc_risk_amount risk)) (current_equity account)) (\<lambda>open_risk.
               rbind (f_div (f_add (gross_exposure account) n) (current_equity account)) (\<lambda>gross.
               rbind (f_div (f_add (single_instrument_exposure account) n) (current_equity account)) (\<lambda>single.
               Inr (Some (open_risk, gross, single))))))"

definition risk_equity_mismatch :: "RiskCalculation \<Rightarrow> RiskAccountState \<Rightarrow> RiskViolation list" where
  "risk_equity_mismatch risk account =
     (let expected = f_mul (current_equity account) (rc_final_risk_fraction risk)
      in if f_less (f_mul RISK_TOLERANCE (f_max (current_equity account) (Flt 1))) (f_abs (f_sub (rc_risk_amount risk) expected))
         then [limit_violation RISK_EQUITY_MISMATCH (rc_risk_amount risk) expected] else [])"

definition state_violations :: "bool \<Rightarrow> StrategyRiskState \<Rightarrow> RiskAccountState \<Rightarrow> RiskViolation list" where
  "state_violations research_valid state account =
     (if \<not> research_valid then [plain_violation RESEARCH_INVALID None] else [])
     @ (if state \<notin> allowed_risk_states
        then [plain_violation STRATEGY_STATE_BLOCKED (Some (''state='' @ risk_state_value state))] else [])
     @ (if kill_switch_active account then [plain_violation KILL_SWITCH_ACTIVE (kill_switch_reason account)] else [])"

definition hard_checks ::
  "RiskLimits \<Rightarrow> pyfloat \<Rightarrow> pyfloat \<Rightarrow> pyfloat \<Rightarrow> pyfloat \<Rightarrow> (pyfloat \<times> pyfloat \<times> pyfloat) option \<Rightarrow> hard_check list" where
  "hard_checks limits daily drawdown strategy proposed projected =
     [(DAILY_LOSS_LIMIT, Some daily, max_daily_loss_fraction limits),
      (MAX_DRAWDOWN, Some drawdown, max_drawdown_fraction limits),
      (MAX_STRATEGY_LOSS, Some strategy, max_strategy_loss_fraction limits),
      (MAX_TRADE_RISK, Some proposed, max_trade_loss_fraction limits),
      (MAX_PORTFOLIO_OPEN_RISK, map_option fst projected, max_portfolio_open_risk_fraction limits),
      (MAX_GROSS_EXPOSURE, map_option (fst \<circ> snd) projected, max_gross_exposure_fraction limits),
      (MAX_SINGLE_INSTRUMENT_EXPOSURE, map_option (snd \<circ> snd) projected, max_single_instrument_exposure_fraction limits)]"

definition pretrade_decision ::
  "RiskCalculation \<Rightarrow> RiskAccountState \<Rightarrow> RiskLimits \<Rightarrow> bool \<Rightarrow> StrategyRiskState \<Rightarrow> pyfloat \<Rightarrow> pyfloat \<Rightarrow> pyfloat \<Rightarrow> pyfloat
    \<Rightarrow> (pyfloat \<times> pyfloat \<times> pyfloat) option \<Rightarrow> RiskDecision" where
  "pretrade_decision risk account limits research_valid state daily drawdown strategy proposed projected =
     (let rows = hard_checks limits daily drawdown strategy proposed projected;
          violations = state_violations research_valid state account
            @ (if projected = None then [plain_violation PROPOSED_NOTIONAL_REQUIRED None] else [])
            @ risk_equity_mismatch risk account
            @ concat (map check_violation rows)
      in \<lparr>rd_schema_version = ''risk-governance.v1'', rd_status = (if violations \<noteq> [] then ''BLOCKED'' else ''PASS''),
          rd_strategy_state = risk_state_value state, rd_research_valid = research_valid,
          rd_daily_loss_fraction = daily, rd_drawdown_fraction = drawdown, rd_strategy_loss_fraction = strategy,
          rd_proposed_trade_risk_fraction = proposed,
          rd_projected_open_risk_fraction = map_option fst projected,
          rd_projected_gross_exposure_fraction = map_option (fst \<circ> snd) projected,
          rd_projected_single_instrument_exposure_fraction = map_option (snd \<circ> snd) projected,
          rd_violations = violations, rd_warnings = concat (map check_warning rows), rd_audit_hash = ''''\<rparr>)"

definition evaluate_pretrade_risk ::
  "RiskCalculation \<Rightarrow> RiskAccountState \<Rightarrow> RiskLimits \<Rightarrow> pyfloat option \<Rightarrow> state_arg \<Rightarrow> bool \<Rightarrow> RiskDecision result" where
  "evaluate_pretrade_risk risk account limits notional strategy_state research_valid =
     rbind (RiskAccountState_validate account) (\<lambda>_.
     rbind (RiskLimits_validate limits) (\<lambda>_.
     rbind (check_all f_isfinite '' must be finite''
       [(''risk_amount'', rc_risk_amount risk), (''final_risk_fraction'', rc_final_risk_fraction risk)]) (\<lambda>_.
     rbind (coerce_strategy_state strategy_state) (\<lambda>state.
     rbind (daily_loss_fraction account) (\<lambda>daily.
     rbind (drawdown_fraction account) (\<lambda>drawdown.
     rbind (strategy_loss_fraction account) (\<lambda>strategy.
     rbind (f_div (rc_risk_amount risk) (current_equity account)) (\<lambda>proposed.
     rbind (projections risk account notional) (\<lambda>projected.
       with_audit_hash
         (pretrade_decision risk account limits research_valid state daily drawdown strategy proposed projected))))))))))"

section \<open>Strategy states\<close>

text \<open>What remains to be passed before a strategy is active.\<close>

fun stages_before_active :: "StrategyRiskState \<Rightarrow> StrategyRiskState list" where
  "stages_before_active Risk_RESEARCH = [Risk_VALIDATED, Risk_RISK_REVIEW, Risk_PAPER_ELIGIBLE, Risk_DEPLOYMENT_ELIGIBLE, Risk_ACTIVE]"
| "stages_before_active Risk_VALIDATED = [Risk_RISK_REVIEW, Risk_PAPER_ELIGIBLE, Risk_DEPLOYMENT_ELIGIBLE, Risk_ACTIVE]"
| "stages_before_active Risk_RISK_REVIEW = [Risk_PAPER_ELIGIBLE, Risk_DEPLOYMENT_ELIGIBLE, Risk_ACTIVE]"
| "stages_before_active Risk_PAPER_ELIGIBLE = [Risk_DEPLOYMENT_ELIGIBLE, Risk_ACTIVE]"
| "stages_before_active Risk_DEPLOYMENT_ELIGIBLE = [Risk_ACTIVE]"
| "stages_before_active Risk_ACTIVE = []"
| "stages_before_active Risk_SUSPENDED = [Risk_RISK_REVIEW, Risk_PAPER_ELIGIBLE, Risk_DEPLOYMENT_ELIGIBLE, Risk_ACTIVE]"
| "stages_before_active Risk_RETIRED = []"

text \<open>A history each of whose adjacent pairs the validation admits.\<close>

fun governed_history :: "StrategyRiskState list \<Rightarrow> bool" where
  "governed_history (s # t # ss) \<longleftrightarrow>
     validate_strategy_transition (Risk_State s) (Risk_State t) = Inr () \<and> governed_history (t # ss)"
| "governed_history _ \<longleftrightarrow> True"

lemma coerce_state [simp]: "coerce_strategy_state (Risk_State s) = Inr s"
  by (simp add: coerce_strategy_state_def)

lemma transition_iff:
  "validate_strategy_transition (Risk_State s) (Risk_State t) = Inr () \<longleftrightarrow> s = t \<or> t \<in> state_transitions s"
  by (simp add: validate_strategy_transition_def)

lemma coerce_own_texts: "list_all (\<lambda>s. coerce_strategy_state (Risk_Text (risk_state_value s)) = Inr s) all_risk_states"
  by code_simp

lemma coerce_own_text: "coerce_strategy_state (Risk_Text (risk_state_value s)) = Inr s"
  using coerce_own_texts by (cases s) (simp_all add: all_risk_states_def)

lemma retired_is_final: "governed_history (Risk_RETIRED # ss) \<Longrightarrow> set ss \<subseteq> {Risk_RETIRED}"
  by (induction ss) (auto simp: transition_iff)

lemma stages_step:
  assumes "t \<in> state_transitions s" "subseq (stages_before_active t) ss" "t \<noteq> Risk_RETIRED"
  shows "subseq (stages_before_active s) (t # ss)"
proof (cases "t = Risk_SUSPENDED")
  case True
  then have "subseq (stages_before_active s) (stages_before_active t)" using assms(1) by (cases s) simp_all
  then have "subseq (stages_before_active s) ss" using assms(2) by (rule subseq_order.trans)
  then show ?thesis by (rule list_emb_Cons)
next
  case False
  then show ?thesis using assms by (cases s) auto
qed

lemma active_needs_stages:
  "governed_history (s # ss) \<Longrightarrow> last (s # ss) = Risk_ACTIVE \<Longrightarrow> subseq (stages_before_active s) ss"
proof (induction ss arbitrary: s)
  case (Cons t ss)
  then have IH: "subseq (stages_before_active t) ss" and step: "s = t \<or> t \<in> state_transitions s"
    by (auto simp: transition_iff)
  show ?case
  proof (cases "s = t")
    case True
    then show ?thesis using IH by (simp add: list_emb_Cons)
  next
    case False
    have "t \<noteq> Risk_RETIRED"
    proof
      assume "t = Risk_RETIRED"
      then have "set ss \<subseteq> {Risk_RETIRED}" using Cons.prems(1) retired_is_final by simp
      then have "last (t # ss) = Risk_RETIRED" using \<open>t = Risk_RETIRED\<close> by (induction ss) auto
      then show False using Cons.prems(2) by simp
    qed
    then show ?thesis using stages_step [OF _ IH] step False by blast
  qed
qed simp

text \<open>
  No stage is skipped: whatever governed transitions a strategy goes through, every way to ACTIVE
  passes, in this order, the stages still missing: from RESEARCH validation, risk review, paper and
  deployment eligibility, after any suspension risk review, paper and deployment again; and a retired
  strategy stays retired.
\<close>

lemma activation_passes_every_stage:
  assumes "governed_history (before @ s # ss)"
  shows "(last (s # ss) = Risk_ACTIVE \<longrightarrow> subseq (stages_before_active s) ss) \<and> (s = Risk_RETIRED \<longrightarrow> set ss \<subseteq> {Risk_RETIRED})"
proof -
  have suffix: "governed_history (s # ss)"
    using assms
  proof (induction before)
    case (Cons u us)
    then show ?case by (cases us) auto
  qed simp
  show ?thesis using active_needs_stages [OF suffix] retired_is_final suffix by blast
qed

end
