(* ===== verification/Risk_Gate.thy ===== *)
theory Risk_Gate
  imports Risk_Governance
begin

text \<open>
  What a decision of the pre-trade gate means: a PASS puts the trade within every limit in exact
  arithmetic, and a trade sized by the engine that is within the limits by a margin of \<open>2^-38\<close> passes.
\<close>

section \<open>Soundness of the limits\<close>

text \<open>A float that is infinite or at least \<open>q\<close>.\<close>

definition at_least :: "pyfloat \<Rightarrow> rat \<Rightarrow> bool" where
  "at_least v q \<longleftrightarrow> v = Infinite False \<or> f_isfinite v \<and> pydouble v \<and> q \<le> val v"

lemma at_least_rounds: "rounds v x \<Longrightarrow> 0 \<le> x \<Longrightarrow> q \<le> rnd x \<Longrightarrow> at_least v q"
  using rounds_infinite [of v x] rounds_val [of v x] rounds_pydouble [of v x]
  by (cases "f_isfinite v") (auto simp: at_least_def)

lemma at_least_weaken: "at_least v q \<Longrightarrow> p \<le> q \<Longrightarrow> at_least v p"
  by (auto simp: at_least_def)

lemma at_least_div:
  assumes "at_least v q" "0 \<le> q" "f_isfinite c" "0 < val c" "f_div v c = Inr x" "p \<le> rnd (q / val c)"
  shows "at_least x p"
proof (cases "f_isfinite v")
  case True
  then have v: "q \<le> val v" using assms(1) by (auto simp: at_least_def)
  then have "q / val c \<le> val v / val c" using assms(4) by (simp add: divide_right_mono)
  moreover have "0 \<le> val v / val c" using v assms(2,4) by simp
  moreover have "rounds x (val v / val c)" using f_arith_rounds(4) [OF True assms(3)] assms(4,5) by auto
  ultimately show ?thesis using at_least_rounds assms(6) rnd_mono order.trans by metis
next
  case False
  then have "v = Infinite False" using assms(1) by (auto simp: at_least_def)
  then have "x = Infinite False" using assms(3-5) by (cases c) (auto simp: f_div_def Let_def f_signbit_def)
  then show ?thesis by (simp add: at_least_def)
qed

lemma at_least_max: "at_least v q \<Longrightarrow> at_least (f_max (Flt 0) v) q"
  by (auto simp: at_least_def f_max_def f_less_finite) (simp add: f_less_def)

lemma at_least_add:
  assumes "at_least v q" "f_isfinite b" "pydouble limit" "f_isfinite limit" "val limit \<le> q + val b"
  shows "f_le limit (f_add v b)"
proof (cases "f_isfinite v")
  case True
  then have "val limit \<le> val v + val b" using assms(1,5) by (auto simp: at_least_def)
  then show ?thesis using le_rounds [OF f_arith_rounds(1) [OF True assms(2)] assms(4,3)] by blast
next
  case False
  then have "v = Infinite False" using assms(1) by (auto simp: at_least_def)
  then have "f_add v b = Infinite False" using assms(2) by (cases b) (auto simp: f_add_def)
  then show ?thesis using assms(4) by (simp add: f_le_def f_less_def finite_val)
qed

text \<open>Two roundings of a quotient lose less than the tolerance for limits up to 1000.\<close>

lemma risk_tolerance: "f_isfinite RISK_TOLERANCE" "pow2 (- 40) \<le> val RISK_TOLERANCE" "pydouble RISK_TOLERANCE"
proof -
  have d: "double (pow2 (- 40))" "double 1" by (simp_all add: double_pow2)
  have le: "pow2 (- 40) \<le> 1 / 10 ^ 12" "1 / 10 ^ 12 \<le> (1::rat)" by (simp_all add: pow2_def)
  show fin: "f_isfinite RISK_TOLERANCE" unfolding RISK_TOLERANCE_def by (rule f_round_between(1) [OF d le])
  then show "pow2 (- 40) \<le> val RISK_TOLERANCE"
    using f_round_finite f_round_between(2) [OF d le] by (simp add: RISK_TOLERANCE_def)
  show "pydouble RISK_TOLERANCE" by (simp add: RISK_TOLERANCE_def)
qed

lemma quotient_loss:
  fixes a c limit :: rat
  assumes "on_grid (- 1074) a" "0 < c" "0 < limit" "limit \<le> 1000" "limit * c \<le> a"
  shows "limit - pow2 (- 41) \<le> rnd (rnd a / c)"
proof -
  define \<epsilon> :: rat where "\<epsilon> = pow2 (- 53)"
  have eps: "0 < \<epsilon>" "\<epsilon> \<le> 1" "2001 * \<epsilon> \<le> pow2 (- 41)" by (simp_all add: \<epsilon>_def pow2_def)
  have "0 \<le> limit * c" using assms(2,3) by simp
  then have a: "0 \<le> a" using assms(5) by simp
  have "limit * c * (1 - \<epsilon>) \<le> a * (1 - \<epsilon>)" using assms(5) eps(2) by (intro mult_right_mono) simp_all
  also have "\<dots> \<le> rnd a" using rnd_grid_bounds(1) [OF assms(1) a] by (simp add: \<epsilon>_def)
  finally have quot: "limit * (1 - \<epsilon>) \<le> rnd a / c" using assms(2) by (simp add: le_divide_eq algebra_simps)
  have "limit * (1 - \<epsilon>) * (1 - \<epsilon>) \<le> (rnd a / c) * (1 - \<epsilon>)" using quot eps(2) by (intro mult_right_mono) simp_all
  also have "\<dots> \<le> rnd (rnd a / c) + pow2 (- 1075)"
    using rnd_lower [of "rnd a / c"] rnd_nonneg [OF a] assms(2) by (simp add: \<epsilon>_def)
  finally have "limit * (1 - \<epsilon>) * (1 - \<epsilon>) - pow2 (- 1075) \<le> rnd (rnd a / c)" by simp
  moreover have "limit * (1 - 2 * \<epsilon>) \<le> limit * (1 - \<epsilon>) * (1 - \<epsilon>)" using assms(3) eps(1) by (simp add: algebra_simps)
  moreover have "limit * (2 * \<epsilon>) \<le> 1000 * (2 * \<epsilon>)" using assms(4) eps(1) by (intro mult_right_mono) simp_all
  moreover have "pow2 (- 1075) \<le> \<epsilon>" unfolding \<epsilon>_def by (rule pow2_mono) simp
  ultimately show ?thesis using eps(3) by (simp add: algebra_simps)
qed

text \<open>A check that reports no violation: the exact fraction is below the limit.\<close>

lemma check_sound:
  assumes v: "at_least v (rnd a)" and a: "on_grid (- 1074) a" and c: "f_isfinite c" "0 < val c" "f_div v c = Inr x"
    and limit: "f_isfinite limit" "pydouble limit" "0 < val limit" "val limit \<le> 1000"
    and passed: "check_violation (code, Some (f_max (Flt 0) x), limit) = [] \<or> check_violation (code, Some x, limit) = []"
  shows "a < val limit * val c"
proof (rule ccontr)
  assume "\<not> a < val limit * val c"
  then have ge: "val limit * val c \<le> a" by simp
  moreover have "0 \<le> val limit * val c" using c(2) limit(3) by simp
  ultimately have "0 \<le> a" by simp
  then have x: "at_least x (val limit - pow2 (- 41))"
    using at_least_div [OF v rnd_nonneg c] quotient_loss [OF a c(2) limit(3,4) ge] by blast
  have "val limit \<le> val limit - pow2 (- 41) + val RISK_TOLERANCE"
    using risk_tolerance(2) pow2_mono [of "- 41" "- 40"] by simp
  then have "f_le limit (f_add y RISK_TOLERANCE)" if "at_least y (val limit - pow2 (- 41))" for y
    using at_least_add [OF that risk_tolerance(1) limit(2,1)] by blast
  then show False using passed x at_least_max [OF x] by (auto simp: check_violation_def)
qed

lemma check_all_Inr: "check_all ok m named = Inr () \<longleftrightarrow> (\<forall>(name, v) \<in> set named. ok v)"
  by (auto simp: check_all_def find_None_iff find_Some_iff split: option.splits)
    (metis (no_types, lifting) case_prod_conv nth_mem)

lemma account_valid:
  assumes "RiskAccountState_validate a = Inr ()"
  shows "f_isfinite (day_start_equity a)" "0 < val (day_start_equity a)"
    "f_isfinite (current_equity a)" "0 < val (current_equity a)"
    "f_isfinite (high_water_mark a)" "0 < val (high_water_mark a)"
    "f_isfinite (strategy_reference_equity a)" "0 < val (strategy_reference_equity a)"
    "f_isfinite (open_risk_amount a)" "0 \<le> val (open_risk_amount a)"
    "f_isfinite (gross_exposure a)" "0 \<le> val (gross_exposure a)"
    "f_isfinite (single_instrument_exposure a)" "0 \<le> val (single_instrument_exposure a)"
  using assms
  by (auto simp: RiskAccountState_validate_def rbind_Inr check_all_Inr positive_finite_def f_le_finite f_less_finite)

lemma limits_valid:
  assumes "RiskLimits_validate l = Inr ()"
  shows "\<forall>v \<in> snd ` set (bounded_limits l). f_isfinite v \<and> 0 < val v \<and> val v \<le> 1"
    "f_isfinite (max_gross_exposure_fraction l)" "0 < val (max_gross_exposure_fraction l)"
    "f_isfinite (max_single_instrument_exposure_fraction l)" "0 < val (max_single_instrument_exposure_fraction l)"
  using assms
  by (auto simp: RiskLimits_validate_def rbind_Inr check_all_Inr positive_finite_def f_le_finite f_less_finite split: if_splits)

text \<open>The floats of an account and of limits are doubles.\<close>

definition account_doubles :: "RiskAccountState \<Rightarrow> bool" where
  "account_doubles a \<longleftrightarrow>
     list_all pydouble [day_start_equity a, current_equity a, high_water_mark a, strategy_reference_equity a, strategy_pnl a,
       open_risk_amount a, gross_exposure a, single_instrument_exposure a]"

definition limits_doubles :: "RiskLimits \<Rightarrow> bool" where
  "limits_doubles l \<longleftrightarrow>
     list_all pydouble (map snd (bounded_limits l) @ [max_gross_exposure_fraction l, max_single_instrument_exposure_fraction l])"

lemma grid_val: "pydouble a \<Longrightarrow> on_grid (- 1074) (val a)"
  by (rule double_grid [OF pydouble_val])

lemma grid_diff: "pydouble a \<Longrightarrow> pydouble b \<Longrightarrow> on_grid (- 1074) (val a - val b)"
  using on_grid_add [OF grid_val on_grid_minus [OF grid_val]] by simp

text \<open>What a decision was built from, and that its numbers are finite.\<close>

lemma with_audit_hash_Inr:
  assumes "with_audit_hash d = Inr d'"
  shows "d' = d\<lparr>rd_audit_hash := rd_audit_hash d'\<rparr>" "rd_projected_gross_exposure_fraction d = Some g \<Longrightarrow> f_isfinite g"
proof -
  obtain h where h: "fjson_sha256 False fmt_ascii (decision_hash_payload d) = Inr h" "d' = d\<lparr>rd_audit_hash := h\<rparr>"
    using assms by (auto simp: with_audit_hash_def rbind_Inr)
  then show "d' = d\<lparr>rd_audit_hash := rd_audit_hash d'\<rparr>" by simp
  obtain t where t: "fjson_dumps False fmt_ascii (decision_hash_payload d) = Inr t"
    using h(1) by (cases "fjson_dumps False fmt_ascii (decision_hash_payload d)") (auto simp: fjson_sha256_def)
  show "f_isfinite g" if "rd_projected_gross_exposure_fraction d = Some g"
  proof -
    have "\<exists>u. fjson_dumps False fmt_ascii (fnum_opt (rd_projected_gross_exposure_fraction d)) = Inr u"
      by (rule fjson_obj_ok [OF t [unfolded decision_hash_payload_def], where k = "''projected_gross_exposure_fraction''"]) simp
    then show ?thesis using that fjson_number_finite by (auto simp: fnum_opt_def)
  qed
qed

lemma gate_stages:
  assumes "evaluate_pretrade_risk risk account limits notional strategy_state research_valid = Inr d"
  obtains state daily drawdown strategy proposed projected where
    "RiskAccountState_validate account = Inr ()" "RiskLimits_validate limits = Inr ()"
    "f_isfinite (rc_risk_amount risk)" "coerce_strategy_state strategy_state = Inr state"
    "daily_loss_fraction account = Inr daily" "drawdown_fraction account = Inr drawdown"
    "strategy_loss_fraction account = Inr strategy"
    "f_div (rc_risk_amount risk) (current_equity account) = Inr proposed"
    "projections risk account notional = Inr projected"
    "with_audit_hash (pretrade_decision risk account limits research_valid state daily drawdown strategy proposed projected) = Inr d"
  using assms unfolding evaluate_pretrade_risk_def by (elim rbindE) (auto simp: check_all_Inr)

text \<open>A pass means no violation of any kind.\<close>

lemma gate_pass_clear:
  assumes "with_audit_hash (pretrade_decision risk account limits research_valid state daily drawdown strategy proposed projected) = Inr d"
    and "rd_status d = ''PASS''"
  shows "state_violations research_valid state account = []" "projected \<noteq> None" "risk_equity_mismatch risk account = []"
    "\<forall>row \<in> set (hard_checks limits daily drawdown strategy proposed projected). check_violation row = []"
    "projected = Some (open_risk, gross, single) \<Longrightarrow> f_isfinite gross"
proof -
  let ?p = "pretrade_decision risk account limits research_valid state daily drawdown strategy proposed projected"
  note h = with_audit_hash_Inr [OF assms(1)]
  have "rd_status d = rd_status ?p" by (subst h(1)) simp
  then have "rd_status ?p = ''PASS''" using assms(2) by simp
  then show "state_violations research_valid state account = []" "projected \<noteq> None" "risk_equity_mismatch risk account = []"
    "\<forall>row \<in> set (hard_checks limits daily drawdown strategy proposed projected). check_violation row = []"
    by (auto simp: pretrade_decision_def Let_def split: if_splits)
  show "projected = Some (open_risk, gross, single) \<Longrightarrow> f_isfinite gross"
    by (rule h(2)) (simp add: pretrade_decision_def Let_def)
qed

text \<open>The two losses measured against a reference, and the projections.\<close>

lemma loss_check_sound:
  assumes "f_isfinite r" "0 < val r" "pydouble r" "f_isfinite c" "pydouble c" "loss_from r c = Inr loss"
    and "f_isfinite limit" "pydouble limit" "0 < val limit" "val limit \<le> 1" "check_violation (code, Some loss, limit) = []"
  shows "val r - val c < val limit * val r"
proof (cases "0 \<le> val r - val c")
  case True
  obtain x where x: "f_div (f_sub r c) r = Inr x" "loss = f_max (Flt 0) x" using assms(6) by (auto simp: loss_from_def rbind_Inr)
  have "at_least (f_sub r c) (rnd (val r - val c))"
    by (rule at_least_rounds [OF f_arith_rounds(2) [OF assms(1,4)] True order_refl])
  then show ?thesis
    by (rule check_sound [OF _ grid_diff [OF assms(3,5)] assms(1,2) x(1) assms(7-9), of code]) (use assms(10,11) x(2) in simp_all)
next
  case False
  moreover have "0 < val limit * val r" using assms(2,9) by simp
  ultimately show ?thesis by linarith
qed

lemma exposure_check_sound:
  assumes "f_isfinite a" "pydouble a" "f_isfinite b" "pydouble b" "f_isfinite c" "0 < val c"
    and "f_div (f_add a b) c = Inr x"
    and "f_isfinite limit" "pydouble limit" "0 < val limit" "val limit \<le> 1000" "check_violation (code, Some x, limit) = []"
  shows "val a + val b < val limit * val c"
proof (cases "0 \<le> val a + val b")
  case True
  have "at_least (f_add a b) (rnd (val a + val b))"
    by (rule at_least_rounds [OF f_arith_rounds(1) [OF assms(1,3)] True order_refl])
  then show ?thesis
    by (rule check_sound [OF _ on_grid_add [OF grid_val [OF assms(2)] grid_val [OF assms(4)]] assms(5-11)]) (use assms(12) in blast)
next
  case False
  moreover have "0 < val limit * val c" using assms(6,10) by simp
  ultimately show ?thesis by linarith
qed

lemma ratio_check_sound:
  assumes "f_isfinite a" "pydouble a" "f_isfinite c" "0 < val c" "f_div a c = Inr x"
    and "f_isfinite limit" "pydouble limit" "0 < val limit" "val limit \<le> 1"
    and "check_violation (code, Some (f_max (Flt 0) x), limit) = [] \<or> check_violation (code, Some x, limit) = []"
  shows "val a < val limit * val c"
proof -
  have "rnd (val a) = val a" using pydouble_val [OF assms(2)] by (simp add: double_def)
  then have "at_least a (rnd (val a))" using assms(1,2) by (simp add: at_least_def)
  then show ?thesis
    by (rule check_sound [OF _ grid_val [OF assms(2)] assms(3-8)]) (use assms(9,10) in simp_all)
qed

text \<open>The notional of an accepted trade is a positive finite number.\<close>

lemma projections_Some:
  assumes "projections risk account notional = Inr (Some (open_risk, gross, single))" "f_isfinite gross"
    and "f_isfinite (gross_exposure account)" "f_isfinite (current_equity account)" "0 < val (current_equity account)"
  obtains n where "notional = Some n" "f_isfinite n" "0 < val n"
    "f_div (f_add (open_risk_amount account) (rc_risk_amount risk)) (current_equity account) = Inr open_risk"
    "f_div (f_add (gross_exposure account) n) (current_equity account) = Inr gross"
    "f_div (f_add (single_instrument_exposure account) n) (current_equity account) = Inr single"
proof -
  obtain n where n: "notional = Some n" "\<not> f_le n (Flt 0)"
    "f_div (f_add (open_risk_amount account) (rc_risk_amount risk)) (current_equity account) = Inr open_risk"
    "f_div (f_add (gross_exposure account) n) (current_equity account) = Inr gross"
    "f_div (f_add (single_instrument_exposure account) n) (current_equity account) = Inr single"
    using assms(1) by (auto simp: projections_def rbind_Inr split: option.splits if_splits)
  have "f_isfinite n"
  proof (rule ccontr)
    assume "\<not> f_isfinite n"
    then have "f_add (gross_exposure account) n = n" using assms(3) by (cases n; cases "gross_exposure account") (auto simp: f_add_def)
    then have "\<not> f_isfinite gross" using n(4) \<open>\<not> f_isfinite n\<close> assms(4,5)
      by (cases n; cases "current_equity account") (auto simp: f_div_def Let_def)
    then show False using assms(2) by simp
  qed
  moreover from this have "0 < val n" using n(2) by (simp add: f_le_finite)
  ultimately show ?thesis using n that by blast
qed

lemma fraction_limit:
  assumes "RiskLimits_validate l = Inr ()" "limits_doubles l" "v \<in> snd ` set (bounded_limits l)"
  shows "f_isfinite v" "pydouble v" "0 < val v" "val v \<le> 1" "val v \<le> 1000"
  using limits_valid(1) [OF assms(1)] assms(2,3) by (force simp: limits_doubles_def list_all_iff)+

lemma account_doubles_fields:
  assumes "account_doubles a"
  shows "pydouble (day_start_equity a)" "pydouble (current_equity a)" "pydouble (high_water_mark a)" "pydouble (strategy_pnl a)"
    "pydouble (open_risk_amount a)" "pydouble (gross_exposure a)" "pydouble (single_instrument_exposure a)"
  using assms by (simp_all add: account_doubles_def)

lemma gate_losses_sound:
  assumes valid: "RiskAccountState_validate account = Inr ()" "RiskLimits_validate limits = Inr ()"
    and losses: "daily_loss_fraction account = Inr daily" "drawdown_fraction account = Inr drawdown"
      "strategy_loss_fraction account = Inr strategy"
    and doubles: "account_doubles account" "limits_doubles limits" "f_isfinite (strategy_pnl account)"
    and clear: "\<forall>row \<in> set (hard_checks limits daily drawdown strategy proposed projected). check_violation row = []"
  shows "val (day_start_equity account) - val (current_equity account)
      < val (max_daily_loss_fraction limits) * val (day_start_equity account)"
    and "val (high_water_mark account) - val (current_equity account)
      < val (max_drawdown_fraction limits) * val (high_water_mark account)"
    and "- val (strategy_pnl account) < val (max_strategy_loss_fraction limits) * val (strategy_reference_equity account)"
proof -
  note acc = account_valid [OF valid(1)] and ad = account_doubles_fields [OF doubles(1)]
  note lim = fraction_limit [OF valid(2) doubles(2)]
  have mem: "max_daily_loss_fraction limits \<in> snd ` set (bounded_limits limits)"
    "max_drawdown_fraction limits \<in> snd ` set (bounded_limits limits)"
    "max_strategy_loss_fraction limits \<in> snd ` set (bounded_limits limits)"
    by (simp_all add: bounded_limits_def)
  have rows: "check_violation (DAILY_LOSS_LIMIT, Some daily, max_daily_loss_fraction limits) = []"
    "check_violation (MAX_DRAWDOWN, Some drawdown, max_drawdown_fraction limits) = []"
    "check_violation (MAX_STRATEGY_LOSS, Some strategy, max_strategy_loss_fraction limits) = []"
    using clear by (simp_all add: hard_checks_def)
  show "val (day_start_equity account) - val (current_equity account)
      < val (max_daily_loss_fraction limits) * val (day_start_equity account)"
    using loss_check_sound [OF acc(1,2) ad(1) acc(3) ad(2) _ lim(1-4) [OF mem(1)] rows(1)] losses(1)
    by (simp add: daily_loss_fraction_def valid(1))
  show "val (high_water_mark account) - val (current_equity account)
      < val (max_drawdown_fraction limits) * val (high_water_mark account)"
    using loss_check_sound [OF acc(5,6) ad(3) acc(3) ad(2) _ lim(1-4) [OF mem(2)] rows(2)] losses(2)
    by (simp add: drawdown_fraction_def valid(1))
  obtain x where x: "f_div (f_neg (strategy_pnl account)) (strategy_reference_equity account) = Inr x" "strategy = f_max (Flt 0) x"
    using losses(3) by (auto simp: strategy_loss_fraction_def valid(1) rbind_Inr)
  have neg: "pydouble (f_neg (strategy_pnl account))" using pydouble_closed(1) ad(4) by blast
  have "val (f_neg (strategy_pnl account)) < val (max_strategy_loss_fraction limits) * val (strategy_reference_equity account)"
    using ratio_check_sound [OF f_neg_finite(1) [OF doubles(3)] neg acc(7,8) x(1) lim(1-4) [OF mem(3)]] rows(3) x(2) by blast
  then show "- val (strategy_pnl account) < val (max_strategy_loss_fraction limits) * val (strategy_reference_equity account)"
    by (simp add: f_neg_finite(2))
qed

lemma gate_exposures_sound:
  assumes valid: "RiskAccountState_validate account = Inr ()" "RiskLimits_validate limits = Inr ()"
    and risk: "f_isfinite (rc_risk_amount risk)" "pydouble (rc_risk_amount risk)"
      "f_div (rc_risk_amount risk) (current_equity account) = Inr proposed"
    and projected: "projections risk account notional = Inr (Some (open_risk, gross, single))" "f_isfinite gross"
    and doubles: "account_doubles account" "limits_doubles limits" "\<And>n. notional = Some n \<Longrightarrow> pydouble n"
    and bounds: "val (max_gross_exposure_fraction limits) \<le> 1000" "val (max_single_instrument_exposure_fraction limits) \<le> 1000"
    and clear: "\<forall>row \<in> set (hard_checks limits daily drawdown strategy proposed (Some (open_risk, gross, single))). check_violation row = []"
  defines "equity \<equiv> val (current_equity account)"
  shows "val (rc_risk_amount risk) < val (max_trade_loss_fraction limits) * equity"
    and "val (open_risk_amount account) + val (rc_risk_amount risk) < val (max_portfolio_open_risk_fraction limits) * equity"
    and "\<exists>x. notional = Some x \<and> 0 < val x
        \<and> val (gross_exposure account) + val x < val (max_gross_exposure_fraction limits) * equity
        \<and> val (single_instrument_exposure account) + val x < val (max_single_instrument_exposure_fraction limits) * equity"
proof -
  note acc = account_valid [OF valid(1)] and ad = account_doubles_fields [OF doubles(1)] and el = limits_valid(2-5) [OF valid(2)]
  note lim = fraction_limit [OF valid(2) doubles(2)]
  have mem: "max_trade_loss_fraction limits \<in> snd ` set (bounded_limits limits)"
    "max_portfolio_open_risk_fraction limits \<in> snd ` set (bounded_limits limits)"
    by (simp_all add: bounded_limits_def)
  have ed: "pydouble (max_gross_exposure_fraction limits)" "pydouble (max_single_instrument_exposure_fraction limits)"
    using doubles(2) by (simp_all add: limits_doubles_def)
  have rows: "check_violation (MAX_TRADE_RISK, Some proposed, max_trade_loss_fraction limits) = []"
    "check_violation (MAX_PORTFOLIO_OPEN_RISK, Some open_risk, max_portfolio_open_risk_fraction limits) = []"
    "check_violation (MAX_GROSS_EXPOSURE, Some gross, max_gross_exposure_fraction limits) = []"
    "check_violation (MAX_SINGLE_INSTRUMENT_EXPOSURE, Some single, max_single_instrument_exposure_fraction limits) = []"
    using clear by (simp_all add: hard_checks_def)
  obtain x where x: "notional = Some x" "f_isfinite x" "0 < val x"
    "f_div (f_add (open_risk_amount account) (rc_risk_amount risk)) (current_equity account) = Inr open_risk"
    "f_div (f_add (gross_exposure account) x) (current_equity account) = Inr gross"
    "f_div (f_add (single_instrument_exposure account) x) (current_equity account) = Inr single"
    by (rule projections_Some [OF projected acc(11,3,4)])
  show "val (rc_risk_amount risk) < val (max_trade_loss_fraction limits) * equity"
    unfolding equity_def using ratio_check_sound [OF risk(1,2) acc(3,4) risk(3) lim(1-4) [OF mem(1)]] rows(1) by blast
  show "val (open_risk_amount account) + val (rc_risk_amount risk) < val (max_portfolio_open_risk_fraction limits) * equity"
    unfolding equity_def by (rule exposure_check_sound [OF acc(9) ad(5) risk(1,2) acc(3,4) x(4) lim(1-3,5) [OF mem(2)] rows(2)])
  have "val (gross_exposure account) + val x < val (max_gross_exposure_fraction limits) * equity"
    unfolding equity_def by (rule exposure_check_sound [OF acc(11) ad(6) x(2) doubles(3) [OF x(1)] acc(3,4) x(5) el(1) ed(1) el(2) bounds(1) rows(3)])
  moreover have "val (single_instrument_exposure account) + val x < val (max_single_instrument_exposure_fraction limits) * equity"
    unfolding equity_def by (rule exposure_check_sound [OF acc(13) ad(7) x(2) doubles(3) [OF x(1)] acc(3,4) x(6) el(3) ed(2) el(4) bounds(2) rows(4)])
  ultimately show "\<exists>x. notional = Some x \<and> 0 < val x
        \<and> val (gross_exposure account) + val x < val (max_gross_exposure_fraction limits) * equity
        \<and> val (single_instrument_exposure account) + val x < val (max_single_instrument_exposure_fraction limits) * equity"
    using x(1,3) by blast
qed

text \<open>The limits of an account with a trade of a given risk amount and notional, in exact arithmetic.\<close>

definition strictly_within :: "RiskAccountState \<Rightarrow> RiskLimits \<Rightarrow> rat \<Rightarrow> rat \<Rightarrow> bool" where
  "strictly_within a l amount n \<longleftrightarrow>
     (let equity = val (current_equity a)
      in val (day_start_equity a) - equity < val (max_daily_loss_fraction l) * val (day_start_equity a)
       \<and> val (high_water_mark a) - equity < val (max_drawdown_fraction l) * val (high_water_mark a)
       \<and> - val (strategy_pnl a) < val (max_strategy_loss_fraction l) * val (strategy_reference_equity a)
       \<and> amount < val (max_trade_loss_fraction l) * equity
       \<and> val (open_risk_amount a) + amount < val (max_portfolio_open_risk_fraction l) * equity
       \<and> val (gross_exposure a) + n < val (max_gross_exposure_fraction l) * equity
       \<and> val (single_instrument_exposure a) + n < val (max_single_instrument_exposure_fraction l) * equity)"

text \<open>The numbers of an account and its limits are doubles, and the exposure limits are moderate.\<close>

definition gate_numbers :: "RiskAccountState \<Rightarrow> RiskLimits \<Rightarrow> bool" where
  "gate_numbers a l \<longleftrightarrow>
     account_doubles a \<and> limits_doubles l \<and> f_isfinite (strategy_pnl a)
     \<and> val (max_gross_exposure_fraction l) \<le> 1000 \<and> val (max_single_instrument_exposure_fraction l) \<le> 1000"

lemma gate_pass_within:
  assumes pass: "evaluate_pretrade_risk risk account limits notional strategy_state research_valid = Inr d" "rd_status d = ''PASS''"
    and numbers: "gate_numbers account limits" "pydouble (rc_risk_amount risk)"
      "case notional of None \<Rightarrow> True | Some n \<Rightarrow> pydouble n"
  shows "research_valid \<and> \<not> kill_switch_active account \<and> (\<exists>s \<in> allowed_risk_states. coerce_strategy_state strategy_state = Inr s)
    \<and> (\<exists>x. notional = Some x \<and> 0 < val x \<and> strictly_within account limits (val (rc_risk_amount risk)) (val x))"
proof -
  have nums: "account_doubles account" "limits_doubles limits" "f_isfinite (strategy_pnl account)"
    "val (max_gross_exposure_fraction limits) \<le> 1000" "val (max_single_instrument_exposure_fraction limits) \<le> 1000"
    using numbers(1) by (simp_all add: gate_numbers_def)
  obtain state daily drawdown strategy proposed projected where stages:
    "RiskAccountState_validate account = Inr ()" "RiskLimits_validate limits = Inr ()"
    "f_isfinite (rc_risk_amount risk)" "coerce_strategy_state strategy_state = Inr state"
    "daily_loss_fraction account = Inr daily" "drawdown_fraction account = Inr drawdown"
    "strategy_loss_fraction account = Inr strategy"
    "f_div (rc_risk_amount risk) (current_equity account) = Inr proposed"
    "projections risk account notional = Inr projected"
    "with_audit_hash (pretrade_decision risk account limits research_valid state daily drawdown strategy proposed projected) = Inr d"
    using gate_stages [OF pass(1)] by metis
  note clear = gate_pass_clear [OF stages(10) pass(2)]
  obtain open_risk gross single where projected: "projected = Some (open_risk, gross, single)"
    using clear(2) by (cases projected) auto
  have state: "research_valid" "state \<in> allowed_risk_states" "\<not> kill_switch_active account"
    using clear(1) by (auto simp: state_violations_def split: if_splits)
  have notional: "notional = Some x \<Longrightarrow> pydouble x" for x using numbers(3) by simp
  note losses = gate_losses_sound [OF stages(1,2,5-7) nums(1-3) clear(4)]
  note exposures = gate_exposures_sound [OF stages(1,2,3) numbers(2) stages(8,9) [unfolded projected] clear(5) [OF projected]
      nums(1,2) notional nums(4,5) clear(4) [unfolded projected]]
  show ?thesis unfolding strictly_within_def Let_def using state stages(4) losses exposures by blast
qed

text \<open>
  C19: A trade that passes the gate is within every limit, in exact arithmetic and not only as rounded: when
  the account, the limits and the amounts are doubles, the strategy's profit is finite and exposure limits
  are at most 1000, a PASS means that the research is valid, the state allowed and the kill switch off, that
  the notional is positive, and that daily loss, drawdown, strategy loss, trade risk, open risk, gross and
  single-instrument exposure are strictly below their limits.
\<close>

theorem gate_pass_sound:
  assumes pass: "evaluate_pretrade_risk risk account limits notional strategy_state research_valid = Inr d" "rd_status d = ''PASS''"
    and numbers: "gate_numbers account limits" "pydouble (rc_risk_amount risk)"
      "case notional of None \<Rightarrow> True | Some n \<Rightarrow> pydouble n"
  shows "research_valid \<and> \<not> kill_switch_active account \<and> (\<exists>s \<in> allowed_risk_states. coerce_strategy_state strategy_state = Inr s)
    \<and> (\<exists>x. notional = Some x \<and> 0 < val x \<and> strictly_within account limits (val (rc_risk_amount risk)) (val x))"
  by (rule gate_pass_within [OF pass numbers])

section \<open>Sized trades pass\<close>

text \<open>The margin that absorbs the tolerance and all rounding errors, about \<open>4 * 10^-12\<close>.\<close>

definition gate_margin :: rat where
  "gate_margin = pow2 (- 38)"

lemma risk_tolerance_upper: "val RISK_TOLERANCE \<le> pow2 (- 39)"
proof -
  have d: "double (pow2 (- 40))" "double (pow2 (- 39))" by (simp_all add: double_pow2)
  have le: "pow2 (- 40) \<le> 1 / 10 ^ 12" "1 / 10 ^ 12 \<le> pow2 (- 39)" by (simp_all add: pow2_def)
  show ?thesis using f_round_finite [OF f_round_between(1) [OF d le]] f_round_between(3) [OF d le] by (simp add: RISK_TOLERANCE_def)
qed

lemma quotient_gain:
  fixes a c limit :: rat
  assumes "on_grid (- 1074) a" "0 \<le> a" "0 < c" "gate_margin \<le> limit" "limit \<le> 1000" "a \<le> (limit - gate_margin) * c"
  shows "rnd a / c \<le> 1024" "rnd (rnd a / c) + pow2 (- 39) \<le> limit - pow2 (- 40)"
proof -
  define \<epsilon> :: rat where "\<epsilon> = pow2 (- 53)"
  have eps: "0 < \<epsilon>" "\<epsilon> \<le> 1 / 1000" "2101 * \<epsilon> \<le> pow2 (- 41)" by (simp_all add: \<epsilon>_def pow2_def)
  let ?l = "limit - gate_margin"
  have l: "0 \<le> ?l" "?l \<le> 1000" using assms(4,5) by (simp_all add: gate_margin_def) (use pow2_pos(1) [of "- 38"] in linarith)
  have "rnd a \<le> a * (1 + \<epsilon>)" using rnd_grid_bounds(2) [OF assms(1,2)] by (simp add: \<epsilon>_def)
  also have "\<dots> \<le> ?l * c * (1 + \<epsilon>)" using assms(6) eps(1) by (intro mult_right_mono) simp_all
  also have "\<dots> = ?l * (1 + \<epsilon>) * c" by simp
  finally have quot: "rnd a / c \<le> ?l * (1 + \<epsilon>)" by (simp only: pos_divide_le_eq [OF assms(3)])
  also have "\<dots> \<le> 1000 * (1 + 1 / 1000)" using l eps(1,2) by (intro mult_mono) simp_all
  finally show "rnd a / c \<le> 1024" by simp
  have pos: "0 \<le> rnd a / c" using rnd_nonneg [OF assms(2)] assms(3) by simp
  have "rnd (rnd a / c) \<le> (rnd a / c) * (1 + \<epsilon>) + pow2 (- 1075)" using rnd_upper [OF pos] by (simp add: \<epsilon>_def)
  also have "\<dots> \<le> ?l * (1 + \<epsilon>) * (1 + \<epsilon>) + pow2 (- 1075)" using quot eps(1) by (intro add_right_mono mult_right_mono) simp_all
  also have "\<dots> \<le> ?l * (1 + 21 / 10 * \<epsilon>) + \<epsilon>"
  proof (rule add_mono)
    have "\<epsilon> * \<epsilon> \<le> \<epsilon> * (1 / 1000)" using eps(1,2) by (intro mult_left_mono) simp_all
    then have "(1 + \<epsilon>) * (1 + \<epsilon>) \<le> 1 + 21 / 10 * \<epsilon>" using eps(1) by (simp add: algebra_simps)
    then have "?l * ((1 + \<epsilon>) * (1 + \<epsilon>)) \<le> ?l * (1 + 21 / 10 * \<epsilon>)" using l(1) by (intro mult_left_mono) simp_all
    then show "?l * (1 + \<epsilon>) * (1 + \<epsilon>) \<le> ?l * (1 + 21 / 10 * \<epsilon>)" by (simp only: mult.assoc)
    show "pow2 (- 1075) \<le> \<epsilon>" unfolding \<epsilon>_def by (rule pow2_mono) simp
  qed
  also have "\<dots> \<le> ?l + 2101 * \<epsilon>"
  proof -
    have "?l * (21 / 10 * \<epsilon>) \<le> 1000 * (21 / 10 * \<epsilon>)" using l(2) eps(1) by (intro mult_right_mono) simp_all
    then show ?thesis by (simp add: algebra_simps)
  qed
  finally have "rnd (rnd a / c) \<le> ?l + pow2 (- 41)" using eps(3) by simp
  moreover have "pow2 (- 41) + pow2 (- 39) + pow2 (- 40) \<le> gate_margin" by (simp add: gate_margin_def pow2_def)
  ultimately show "rnd (rnd a / c) + pow2 (- 39) \<le> limit - pow2 (- 40)" by simp
qed

lemma no_violation:
  assumes "f_isfinite x" "0 \<le> val x" "val x + pow2 (- 39) \<le> val limit - pow2 (- 40)" "f_isfinite limit" "val limit \<le> 1000"
  shows "check_violation (code, Some x, limit) = []"
proof -
  define \<epsilon> :: rat where "\<epsilon> = pow2 (- 53)"
  have eps: "0 < \<epsilon>" "1002 * \<epsilon> \<le> pow2 (- 40)" by (simp_all add: \<epsilon>_def pow2_def)
  have tol: "0 \<le> val RISK_TOLERANCE" "val RISK_TOLERANCE \<le> pow2 (- 39)"
    using risk_tolerance(2) risk_tolerance_upper pow2_pos(2) [of "- 40"] by linarith+
  let ?y = "val x + val RISK_TOLERANCE"
  have y: "0 \<le> ?y" "?y \<le> val limit - pow2 (- 40)" using assms(2,3) tol by linarith+
  have r: "rounds (f_add x RISK_TOLERANCE) ?y" by (rule f_arith_rounds(1) [OF assms(1) risk_tolerance(1)])
  have small: "?y \<le> 1000" using y(2) assms(5) pow2_pos(2) [of "- 40"] by linarith
  have "double 1000" by (rule doubleI [of _ 1000 0]) simp_all
  from rounds_between [OF r double_0 this y(1) small] have f: "f_isfinite (f_add x RISK_TOLERANCE)" "val (f_add x RISK_TOLERANCE) = rnd ?y"
    by blast+
  have "rnd ?y \<le> ?y * (1 + \<epsilon>) + pow2 (- 1075)" using rnd_upper [OF y(1)] by (simp add: \<epsilon>_def)
  moreover have "?y * \<epsilon> \<le> 1000 * \<epsilon>" using small eps(1) by (intro mult_right_mono) simp_all
  moreover have "pow2 (- 1075) \<le> \<epsilon>" unfolding \<epsilon>_def by (rule pow2_mono) simp
  ultimately have "rnd ?y < val limit" using y(2) eps by (simp add: algebra_simps)
  then show ?thesis using f assms(4) by (simp add: check_violation_def f_le_finite)
qed

text \<open>A fraction within its limit by the margin: no violation, and the observed number is finite.\<close>

lemma check_complete:
  assumes v: "rounds v a" "f_isfinite v" and a: "on_grid (- 1074) a" "a \<le> (val limit - gate_margin) * val c"
    and c: "f_isfinite c" "0 < val c" "f_div v c = Inr x"
    and limit: "f_isfinite limit" "gate_margin \<le> val limit" "val limit \<le> 1000"
  shows "0 \<le> a \<Longrightarrow> f_isfinite x \<and> check_violation (code, Some x, limit) = []"
    and "f_isfinite (f_max (Flt 0) x) \<and> check_violation (code, Some (f_max (Flt 0) x), limit) = []"
proof -
  have rx: "rounds x (rnd a / val c)" using f_arith_rounds(4) [OF v(2) c(1)] c(2,3) rounds_val [OF v] by auto
  have d: "double 1024" by (rule doubleI [of _ 1 10]) (simp_all add: pow2_def)
  show nonneg: "f_isfinite x \<and> check_violation (code, Some x, limit) = []" if "0 \<le> a"
  proof -
    note gain = quotient_gain [OF a(1) that c(2) limit(2,3) a(2)]
    have "0 \<le> rnd a / val c" using rnd_nonneg [OF that] c(2) by simp
    then have x: "f_isfinite x" "val x = rnd (rnd a / val c)" "0 \<le> val x" using rounds_between [OF rx double_0 d _ gain(1)] by blast+
    then show ?thesis using no_violation [OF x(1,3) _ limit(1,3)] gain(2) by simp
  qed
  show "f_isfinite (f_max (Flt 0) x) \<and> check_violation (code, Some (f_max (Flt 0) x), limit) = []"
  proof (cases "0 \<le> a")
    case True
    then have "rounds x (rnd a / val c)" "0 \<le> rnd a / val c" using rx rnd_nonneg c(2) by simp_all
    then have "f_le (Flt 0) x" by (rule rounds_nonneg)
    then have "f_max (Flt 0) x = x \<or> f_max (Flt 0) x = Flt 0" by (simp add: f_max_def)
    moreover have "check_violation (code, Some (Flt 0), limit) = []"
    proof (rule no_violation [OF _ _ _ limit(1,3)])
      show "val (Flt 0) + pow2 (- 39) \<le> val limit - pow2 (- 40)" using limit(2) by (simp add: gate_margin_def pow2_def)
    qed simp_all
    ultimately show ?thesis using nonneg [OF True] by auto
  next
    case False
    then have "rnd a \<le> 0" using rnd_mono [of a 0] by simp
    then have "rnd a / val c \<le> 0" using c(2) by (simp add: divide_nonpos_pos)
    then have "f_le x (Flt 0)" using rounds_le [OF rx, of "Flt 0"] by simp
    then have zero: "f_max (Flt 0) x = Flt 0" by (cases x) (auto simp: f_max_def f_le_def f_less_def f_eq_def split: if_splits)
    show ?thesis unfolding zero using no_violation [OF _ _ _ limit(1,3), of "Flt 0"] limit(2)
      by (simp add: gate_margin_def pow2_def)
  qed
qed

lemma no_mismatch:
  assumes "f_isfinite a" "f_isfinite e" "0 < val e" "a = f_mul e (rc_final_risk_fraction risk)" "rc_risk_amount risk = a"
    "current_equity account = e"
  shows "risk_equity_mismatch risk account = []"
proof -
  have zero: "f_abs (f_sub a a) = Flt 0"
    using assms(1) by (cases a) (simp_all add: f_sub_def f_add_def f_neg_def f_abs_def f_signbit_def f_round_def f_zero_def)
  let ?m = "f_max e (Flt 1)"
  have m: "f_isfinite ?m" "0 \<le> val ?m" using assms(2,3) by (auto simp: f_max_def f_less_finite)
  have "0 \<le> val RISK_TOLERANCE" using risk_tolerance(2) pow2_pos(2) [of "- 40"] by linarith
  then have "0 \<le> val RISK_TOLERANCE * val ?m" using m(2) by simp
  then have "f_le (Flt 0) (f_mul RISK_TOLERANCE ?m)"
    by (rule rounds_nonneg [OF f_arith_rounds(3) [OF risk_tolerance(1) m(1)]])
  then have "\<not> f_less (f_mul RISK_TOLERANCE ?m) (Flt 0)"
    by (cases "f_mul RISK_TOLERANCE ?m") (auto simp: f_le_def f_less_def f_eq_def split: if_splits)
  then show ?thesis using zero assms(4-6) by (simp add: risk_equity_mismatch_def)
qed

lemma loss_check_complete:
  assumes "f_isfinite r" "0 < val r" "pydouble r" "f_isfinite c" "0 < val c" "pydouble c"
    and "f_isfinite limit" "gate_margin \<le> val limit" "val limit \<le> 1000" "val r - val c \<le> (val limit - gate_margin) * val r"
  shows "\<exists>x. loss_from r c = Inr x \<and> f_isfinite x \<and> check_violation (code, Some x, limit) = []"
proof -
  have rs: "rounds (f_sub r c) (val r - val c)" by (rule f_arith_rounds(2) [OF assms(1,4)])
  have "f_isfinite (f_sub r c)"
    using rounds_between(1) [OF rs double_minus [OF pydouble_val [OF assms(6)]] pydouble_val [OF assms(3)]] assms(2,5) by simp
  moreover from this obtain x where x: "f_div (f_sub r c) r = Inr x" using f_arith_rounds(4) [OF _ assms(1)] assms(2) by fastforce
  ultimately show ?thesis
    using check_complete(2) [OF rs _ grid_diff [OF assms(3,6)] assms(10) assms(1,2) x assms(7-9)] by (simp add: loss_from_def)
qed

lemma exposure_check_complete:
  assumes "f_isfinite a" "pydouble a" "0 \<le> val a" "f_isfinite b" "pydouble b" "0 \<le> val b"
    and "f_isfinite c" "0 < val c" "val c \<le> pow2 900"
    and "f_isfinite limit" "gate_margin \<le> val limit" "val limit \<le> 1000" "val a + val b \<le> (val limit - gate_margin) * val c"
  shows "\<exists>x. f_div (f_add a b) c = Inr x \<and> f_isfinite x \<and> check_violation (code, Some x, limit) = []"
proof -
  have rs: "rounds (f_add a b) (val a + val b)" by (rule f_arith_rounds(1) [OF assms(1,4)])
  have "(val limit - gate_margin) * val c \<le> pow2 10 * pow2 900"
    using assms(8,9,12) assms(11) by (intro mult_mono) (simp_all add: pow2_def [of 10] gate_margin_def pow2_def)
  then have "val a + val b \<le> pow2 910" using assms(13) by (simp flip: pow2_add)
  then have "f_isfinite (f_add a b)" using rounds_between(1) [OF rs double_0 double_pow2 [of 910]] assms(3,6) by simp
  moreover from this obtain x where x: "f_div (f_add a b) c = Inr x" using f_arith_rounds(4) [OF _ assms(7)] assms(8) by fastforce
  ultimately show ?thesis
    using check_complete(1) [OF rs _ on_grid_add [OF grid_val [OF assms(2)] grid_val [OF assms(5)]] assms(13) assms(7,8) x assms(10-12)]
      assms(3,6) by simp
qed

lemma ratio_check_complete:
  assumes "f_isfinite a" "pydouble a" "f_isfinite c" "0 < val c"
    and "f_isfinite limit" "gate_margin \<le> val limit" "val limit \<le> 1000" "val a \<le> (val limit - gate_margin) * val c"
  shows "\<exists>x. f_div a c = Inr x \<and> (0 \<le> val a \<longrightarrow> f_isfinite x \<and> check_violation (code, Some x, limit) = [])
    \<and> f_isfinite (f_max (Flt 0) x) \<and> check_violation (code, Some (f_max (Flt 0) x), limit) = []"
proof -
  have rs: "rounds a (val a)"
    using assms(1,2) round_double by (cases a) (auto simp: rounds_def)
  obtain x where x: "f_div a c = Inr x" using f_arith_rounds(4) [OF assms(1,3)] assms(4) by fastforce
  show ?thesis
    using check_complete [OF rs assms(1) grid_val [OF assms(2)] assms(8) assms(3,4) x assms(5-7)] x by blast
qed

text \<open>A decision whose numbers are finite has an audit digest.\<close>

lemma with_audit_hash_total:
  assumes "f_isfinite daily" "f_isfinite drawdown" "f_isfinite strategy" "f_isfinite proposed"
    and "f_isfinite open_risk" "f_isfinite gross" "f_isfinite single"
    and "rd_violations (pretrade_decision risk account limits rv state daily drawdown strategy proposed (Some (open_risk, gross, single))) = []"
  shows "\<exists>h. with_audit_hash (pretrade_decision risk account limits rv state daily drawdown strategy proposed (Some (open_risk, gross, single)))
    = Inr ((pretrade_decision risk account limits rv state daily drawdown strategy proposed (Some (open_risk, gross, single)))\<lparr>rd_audit_hash := h\<rparr>)"
proof -
  let ?d = "pretrade_decision risk account limits rv state daily drawdown strategy proposed (Some (open_risk, gross, single))"
  have fields: "rd_daily_loss_fraction ?d = daily" "rd_drawdown_fraction ?d = drawdown" "rd_strategy_loss_fraction ?d = strategy"
    "rd_proposed_trade_risk_fraction ?d = proposed" "rd_projected_open_risk_fraction ?d = Some open_risk"
    "rd_projected_gross_exposure_fraction ?d = Some gross" "rd_projected_single_instrument_exposure_fraction ?d = Some single"
    by (simp_all add: pretrade_decision_def Let_def)
  have warnings: "is_ok (fjson_dumps False fmt_ascii (FList (map fstr ws)))" for ws
    by (rule fjson_total(1)) (auto simp: fstr_def)
  have "is_ok (fjson_dumps False fmt_ascii v)" if "(k, v) \<in> set [
       (''schema_version'', fstr (rd_schema_version ?d)), (''status'', fstr (rd_status ?d)),
       (''strategy_state'', fstr (rd_strategy_state ?d)), (''research_valid'', FJson (JBool (rd_research_valid ?d))),
       (''daily_loss_fraction'', FNum daily), (''drawdown_fraction'', FNum drawdown),
       (''strategy_loss_fraction'', FNum strategy), (''proposed_trade_risk_fraction'', FNum proposed),
       (''projected_open_risk_fraction'', FNum open_risk), (''projected_gross_exposure_fraction'', FNum gross),
       (''projected_single_instrument_exposure_fraction'', FNum single),
       (''violations'', FList []), (''warnings'', FList (map fstr (rd_warnings ?d)))]" for k v
    using that assms(1-7) fjson_number_total fjson_total(1) [of "[]"] warnings
    by (auto simp: fstr_def simp del: fjson_dumps.simps(2,3))
  then have "is_ok (fjson_dumps False fmt_ascii (decision_hash_payload ?d))"
    unfolding decision_hash_payload_def fields assms(8) fnum_opt_def option.case list.map by (rule fjson_total(2))
  then show ?thesis by (auto simp: with_audit_hash_def fjson_sha256_def is_ok_iff)
qed

text \<open>The exact conditions, each with the margin.\<close>

definition within_losses :: "RiskAccountState \<Rightarrow> RiskLimits \<Rightarrow> bool" where
  "within_losses a l \<longleftrightarrow>
     val (day_start_equity a) - val (current_equity a) \<le> (val (max_daily_loss_fraction l) - gate_margin) * val (day_start_equity a)
     \<and> val (high_water_mark a) - val (current_equity a) \<le> (val (max_drawdown_fraction l) - gate_margin) * val (high_water_mark a)
     \<and> - val (strategy_pnl a) \<le> (val (max_strategy_loss_fraction l) - gate_margin) * val (strategy_reference_equity a)"

definition within_exposures :: "RiskAccountState \<Rightarrow> RiskLimits \<Rightarrow> rat \<Rightarrow> rat \<Rightarrow> bool" where
  "within_exposures a l amount n \<longleftrightarrow>
     amount \<le> (val (max_trade_loss_fraction l) - gate_margin) * val (current_equity a)
     \<and> val (open_risk_amount a) + amount \<le> (val (max_portfolio_open_risk_fraction l) - gate_margin) * val (current_equity a)
     \<and> val (gross_exposure a) + n \<le> (val (max_gross_exposure_fraction l) - gate_margin) * val (current_equity a)
     \<and> val (single_instrument_exposure a) + n
         \<le> (val (max_single_instrument_exposure_fraction l) - gate_margin) * val (current_equity a)"

definition usable_limits :: "RiskLimits \<Rightarrow> bool" where
  "usable_limits l \<longleftrightarrow>
     RiskLimits_validate l = Inr () \<and> limits_doubles l
     \<and> list_all (\<lambda>v. gate_margin \<le> val v \<and> val v \<le> 1000)
          (map snd (bounded_limits l) @ [max_gross_exposure_fraction l, max_single_instrument_exposure_fraction l])"

lemma usable_limit:
  assumes "usable_limits l" "v \<in> snd ` set (bounded_limits l) \<union> {max_gross_exposure_fraction l, max_single_instrument_exposure_fraction l}"
  shows "f_isfinite v" "gate_margin \<le> val v" "val v \<le> 1000"
proof -
  show "gate_margin \<le> val v" "val v \<le> 1000" using assms by (auto simp: usable_limits_def list_all_iff)
  show "f_isfinite v" using assms limits_valid(1,2,4) [of l] by (auto simp: usable_limits_def)
qed

lemma losses_complete:
  assumes "RiskAccountState_validate a = Inr ()" "account_doubles a" "f_isfinite (strategy_pnl a)" "usable_limits l" "within_losses a l"
  obtains daily drawdown strategy where
    "daily_loss_fraction a = Inr daily" "f_isfinite daily" "check_violation (DAILY_LOSS_LIMIT, Some daily, max_daily_loss_fraction l) = []"
    "drawdown_fraction a = Inr drawdown" "f_isfinite drawdown" "check_violation (MAX_DRAWDOWN, Some drawdown, max_drawdown_fraction l) = []"
    "strategy_loss_fraction a = Inr strategy" "f_isfinite strategy" "check_violation (MAX_STRATEGY_LOSS, Some strategy, max_strategy_loss_fraction l) = []"
proof -
  note acc = account_valid [OF assms(1)] and ad = account_doubles_fields [OF assms(2)] and lim = usable_limit [OF assms(4)]
  have mem: "max_daily_loss_fraction l \<in> snd ` set (bounded_limits l)" "max_drawdown_fraction l \<in> snd ` set (bounded_limits l)"
    "max_strategy_loss_fraction l \<in> snd ` set (bounded_limits l)"
    by (simp_all add: bounded_limits_def)
  note w = assms(5) [unfolded within_losses_def]
  obtain daily where "loss_from (day_start_equity a) (current_equity a) = Inr daily" "f_isfinite daily"
    "check_violation (DAILY_LOSS_LIMIT, Some daily, max_daily_loss_fraction l) = []"
    using loss_check_complete [OF acc(1,2) ad(1) acc(3,4) ad(2) lim [OF UnI1 [OF mem(1)]], of DAILY_LOSS_LIMIT] w by blast
  moreover obtain drawdown where "loss_from (high_water_mark a) (current_equity a) = Inr drawdown" "f_isfinite drawdown"
    "check_violation (MAX_DRAWDOWN, Some drawdown, max_drawdown_fraction l) = []"
    using loss_check_complete [OF acc(5,6) ad(3) acc(3,4) ad(2) lim [OF UnI1 [OF mem(2)]], of MAX_DRAWDOWN] w by blast
  moreover obtain x where "f_div (f_neg (strategy_pnl a)) (strategy_reference_equity a) = Inr x" "f_isfinite (f_max (Flt 0) x)"
    "check_violation (MAX_STRATEGY_LOSS, Some (f_max (Flt 0) x), max_strategy_loss_fraction l) = []"
    using ratio_check_complete [OF f_neg_finite(1) [OF assms(3)] _ acc(7,8) lim [OF UnI1 [OF mem(3)]], of MAX_STRATEGY_LOSS]
      w pydouble_closed(1) [OF ad(4,4)] by (auto simp: f_neg_finite(2))
  ultimately show ?thesis
    using that by (simp add: daily_loss_fraction_def drawdown_fraction_def strategy_loss_fraction_def assms(1))
qed

lemma exposures_complete:
  assumes "RiskAccountState_validate a = Inr ()" "account_doubles a" "usable_limits l" "within_exposures a l (val amount) (val n)"
    and "f_isfinite amount" "pydouble amount" "0 \<le> val amount" "f_isfinite n" "pydouble n" "0 < val n" "val (current_equity a) \<le> pow2 900"
    and "rc_risk_amount risk = amount"
  obtains proposed open_risk gross single where
    "f_div amount (current_equity a) = Inr proposed" "f_isfinite proposed"
    "check_violation (MAX_TRADE_RISK, Some proposed, max_trade_loss_fraction l) = []"
    "projections risk a (Some n) = Inr (Some (open_risk, gross, single))" "f_isfinite open_risk" "f_isfinite gross" "f_isfinite single"
    "check_violation (MAX_PORTFOLIO_OPEN_RISK, Some open_risk, max_portfolio_open_risk_fraction l) = []"
    "check_violation (MAX_GROSS_EXPOSURE, Some gross, max_gross_exposure_fraction l) = []"
    "check_violation (MAX_SINGLE_INSTRUMENT_EXPOSURE, Some single, max_single_instrument_exposure_fraction l) = []"
proof -
  note acc = account_valid [OF assms(1)] and ad = account_doubles_fields [OF assms(2)] and lim = usable_limit [OF assms(3)]
  have mem: "max_trade_loss_fraction l \<in> snd ` set (bounded_limits l)" "max_portfolio_open_risk_fraction l \<in> snd ` set (bounded_limits l)"
    by (simp_all add: bounded_limits_def)
  have n: "0 \<le> val n" using assms(10) by simp
  note w = assms(4) [unfolded within_exposures_def]
  obtain proposed where "f_div amount (current_equity a) = Inr proposed" "f_isfinite proposed"
    "check_violation (MAX_TRADE_RISK, Some proposed, max_trade_loss_fraction l) = []"
    using ratio_check_complete [OF assms(5,6) acc(3,4) lim [OF UnI1 [OF mem(1)]], of MAX_TRADE_RISK] w assms(7) by blast
  moreover obtain open_risk where "f_div (f_add (open_risk_amount a) amount) (current_equity a) = Inr open_risk" "f_isfinite open_risk"
    "check_violation (MAX_PORTFOLIO_OPEN_RISK, Some open_risk, max_portfolio_open_risk_fraction l) = []"
    using exposure_check_complete [OF acc(9) ad(5) acc(10) assms(5,6,7) acc(3,4) assms(11) lim [OF UnI1 [OF mem(2)]], of MAX_PORTFOLIO_OPEN_RISK] w
    by blast
  moreover obtain gross where "f_div (f_add (gross_exposure a) n) (current_equity a) = Inr gross" "f_isfinite gross"
    "check_violation (MAX_GROSS_EXPOSURE, Some gross, max_gross_exposure_fraction l) = []"
    using exposure_check_complete [OF acc(11) ad(6) acc(12) assms(8,9) n acc(3,4) assms(11) lim, of "max_gross_exposure_fraction l" MAX_GROSS_EXPOSURE] w
    by auto
  moreover obtain single where "f_div (f_add (single_instrument_exposure a) n) (current_equity a) = Inr single" "f_isfinite single"
    "check_violation (MAX_SINGLE_INSTRUMENT_EXPOSURE, Some single, max_single_instrument_exposure_fraction l) = []"
    using exposure_check_complete [OF acc(13) ad(7) acc(14) assms(8,9) n acc(3,4) assms(11) lim, of "max_single_instrument_exposure_fraction l" MAX_SINGLE_INSTRUMENT_EXPOSURE] w
    by auto
  ultimately show ?thesis
    using that assms(8,10,12) by (simp add: projections_def f_le_finite)
qed

text \<open>A risk calculation that fits the account passes when everything is within the limits by the margin.\<close>

lemma gate_accepts:
  assumes risk: "f_isfinite (rc_risk_amount c)" "pydouble (rc_risk_amount c)" "0 \<le> val (rc_risk_amount c)"
      "f_isfinite (rc_final_risk_fraction c)" "risk_equity_mismatch c account = []"
    and account: "RiskAccountState_validate account = Inr ()" "account_doubles account" "f_isfinite (strategy_pnl account)"
      "val (current_equity account) \<le> pow2 900" "\<not> kill_switch_active account"
    and limits: "usable_limits limits" "within_losses account limits" "within_exposures account limits (val (rc_risk_amount c)) (val n)"
    and notional: "f_isfinite n" "pydouble n" "0 < val n"
    and state: "coerce_strategy_state strategy_state = Inr state" "state \<in> allowed_risk_states"
  shows "\<exists>d. evaluate_pretrade_risk c account limits (Some n) strategy_state True = Inr d \<and> rd_status d = ''PASS'' \<and> decision_allowed d"
proof -
  obtain daily drawdown strategy where losses:
    "daily_loss_fraction account = Inr daily" "f_isfinite daily" "check_violation (DAILY_LOSS_LIMIT, Some daily, max_daily_loss_fraction limits) = []"
    "drawdown_fraction account = Inr drawdown" "f_isfinite drawdown" "check_violation (MAX_DRAWDOWN, Some drawdown, max_drawdown_fraction limits) = []"
    "strategy_loss_fraction account = Inr strategy" "f_isfinite strategy" "check_violation (MAX_STRATEGY_LOSS, Some strategy, max_strategy_loss_fraction limits) = []"
    by (rule losses_complete [OF account(1-3) limits(1,2)])
  obtain proposed open_risk gross single where exposures:
    "f_div (rc_risk_amount c) (current_equity account) = Inr proposed" "f_isfinite proposed"
    "check_violation (MAX_TRADE_RISK, Some proposed, max_trade_loss_fraction limits) = []"
    "projections c account (Some n) = Inr (Some (open_risk, gross, single))" "f_isfinite open_risk" "f_isfinite gross" "f_isfinite single"
    "check_violation (MAX_PORTFOLIO_OPEN_RISK, Some open_risk, max_portfolio_open_risk_fraction limits) = []"
    "check_violation (MAX_GROSS_EXPOSURE, Some gross, max_gross_exposure_fraction limits) = []"
    "check_violation (MAX_SINGLE_INSTRUMENT_EXPOSURE, Some single, max_single_instrument_exposure_fraction limits) = []"
    by (rule exposures_complete [OF account(1,2) limits(1,3) risk(1-3) notional account(4) refl])
  have clear: "rd_violations (pretrade_decision c account limits True state daily drawdown strategy proposed (Some (open_risk, gross, single))) = []"
    using risk(5) losses exposures state(2) account(5)
    by (simp add: pretrade_decision_def hard_checks_def state_violations_def)
  then have pass: "rd_status (pretrade_decision c account limits True state daily drawdown strategy proposed (Some (open_risk, gross, single))) = ''PASS''"
    by (simp add: pretrade_decision_def Let_def split: if_splits)
  have "RiskLimits_validate limits = Inr ()" using limits(1) by (simp add: usable_limits_def)
  moreover have "check_all f_isfinite '' must be finite'' [(''risk_amount'', rc_risk_amount c), (''final_risk_fraction'', rc_final_risk_fraction c)] = Inr ()"
    using risk(1,4) by (simp add: check_all_Inr)
  ultimately show ?thesis
    using with_audit_hash_total [OF losses(2,5,8) exposures(2,5-7) clear] clear pass account(1) state(1) losses(1,4,7) exposures(1,4)
    by (auto simp: evaluate_pretrade_risk_def decision_allowed_def)
qed

lemma sized_fits:
  assumes "calculate_risk r = Inr c" "finite_request r" "ri_account_equity r = current_equity account"
  shows "f_isfinite (rc_risk_amount c)" "pydouble (rc_risk_amount c)" "0 \<le> val (rc_risk_amount c)"
      "f_isfinite (rc_final_risk_fraction c)" "risk_equity_mismatch c account = []"
proof -
  note stages = calculate_risk_stages [OF assms(1)] and f = sizing_fraction [OF assms(1,2)] and amount = sizing_amount [OF assms(1,2)]
  note fin = finite_request_facts [OF stages(1) assms(2)]
  show "f_isfinite (rc_risk_amount c)" "0 \<le> val (rc_risk_amount c)" "f_isfinite (rc_final_risk_fraction c)" using amount f by blast+
  show "pydouble (rc_risk_amount c)" unfolding stages(6) using f_arith_rounds(3) [OF fin(5) f(1)] by (rule rounds_pydouble)
  show "risk_equity_mismatch c account = []" using no_mismatch [OF amount(1) fin(5,7) stages(6) refl] assms(3) by simp
qed

text \<open>
  The engine and the gate agree: a trade sized for the account's own equity from a finite request is
  never blocked for rounding: when the losses and the exposures with the trade are within their limits by
  \<open>2^-38\<close> (about \<open>4 * 10^-12\<close>), the research is valid, the state allowed and the kill switch off, the gate
  answers PASS without violations.
\<close>

lemma sized_trade_passes:
  assumes sized: "calculate_risk r = Inr c" "finite_request r" "ri_account_equity r = current_equity account"
    and account: "RiskAccountState_validate account = Inr ()" "account_doubles account" "f_isfinite (strategy_pnl account)"
      "val (current_equity account) \<le> pow2 900" "\<not> kill_switch_active account"
    and limits: "usable_limits limits" "within_losses account limits" "within_exposures account limits (val (rc_risk_amount c)) (val n)"
    and notional: "f_isfinite n" "pydouble n" "0 < val n"
    and state: "coerce_strategy_state strategy_state = Inr state" "state \<in> allowed_risk_states"
  shows "\<exists>d. evaluate_pretrade_risk c account limits (Some n) strategy_state True = Inr d \<and> rd_status d = ''PASS'' \<and> decision_allowed d"
  by (rule gate_accepts [OF sized_fits [OF sized] account limits notional state])

definition sample_account :: RiskAccountState where
  "sample_account =
     \<lparr>day_start_equity = Flt 1024, current_equity = Flt 1024, high_water_mark = Flt 1024, strategy_reference_equity = Flt 1024,
      strategy_pnl = Flt 0, open_risk_amount = Flt 0, gross_exposure = Flt 0, single_instrument_exposure = Flt 0,
      kill_switch_active = False, kill_switch_reason = None\<rparr>"

definition sample_limits :: RiskLimits where
  "sample_limits =
     \<lparr>max_daily_loss_fraction = Flt (1/16), max_drawdown_fraction = Flt (1/4), max_strategy_loss_fraction = Flt (1/16),
      max_trade_loss_fraction = Flt (1/16), target_trade_risk_fraction = Flt (1/128),
      max_portfolio_open_risk_fraction = Flt (1/16), max_gross_exposure_fraction = Flt 2,
      max_single_instrument_exposure_fraction = Flt 1\<rparr>"

lemma sample_account_ok:
  "RiskAccountState_validate sample_account = Inr ()" "account_doubles sample_account" "f_isfinite (strategy_pnl sample_account)"
  "val (current_equity sample_account) \<le> pow2 900" "\<not> kill_switch_active sample_account"
proof -
  show "val (current_equity sample_account) \<le> pow2 900"
    using pow2_mono [of 10 900] by (simp add: sample_account_def pow2_def [of 10])
qed (simp_all add: sample_account_def RiskAccountState_validate_def check_all_def positive_finite_def f_le_finite f_less_finite
    account_doubles_def sample_doubles)

lemma sample_limits_ok: "usable_limits sample_limits" "within_losses sample_account sample_limits"
    "within_exposures sample_account sample_limits 8 512"
proof -
  have valid: "RiskLimits_validate sample_limits = Inr ()" "limits_doubles sample_limits"
    by (simp_all add: sample_limits_def RiskLimits_validate_def bounded_limits_def check_all_def positive_finite_def f_le_finite
        f_less_finite limits_doubles_def sample_doubles)
  then show "usable_limits sample_limits"
    by (simp add: usable_limits_def sample_limits_def bounded_limits_def gate_margin_def pow2_def)
  show "within_losses sample_account sample_limits" "within_exposures sample_account sample_limits 8 512"
    by (simp_all add: within_losses_def within_exposures_def sample_limits_def sample_account_def gate_margin_def pow2_def)
qed

lemma sample_sized: "\<exists>c. calculate_risk sample_request_input = Inr c \<and> rc_risk_amount c = Flt 8"
  using sample_sizing by blast

lemma sample_pass:
  "\<exists>c d. calculate_risk sample_request_input = Inr c \<and> rc_risk_amount c = Flt 8
    \<and> evaluate_pretrade_risk c sample_account sample_limits (Some (Flt 512)) (Risk_State Risk_ACTIVE) True = Inr d \<and> rd_status d = ''PASS''"
proof -
  obtain c where c: "calculate_risk sample_request_input = Inr c" "rc_risk_amount c = Flt 8" using sample_sized by blast
  have same: "ri_account_equity sample_request_input = current_equity sample_account"
    by (simp add: sample_request_input_def sample_account_def)
  have "\<exists>d. evaluate_pretrade_risk c sample_account sample_limits (Some (Flt 512)) (Risk_State Risk_ACTIVE) True = Inr d
      \<and> rd_status d = ''PASS'' \<and> decision_allowed d"
    by (rule gate_accepts [where state = Risk_ACTIVE, OF sized_fits [OF c(1) sample_finite same] sample_account_ok sample_limits_ok(1,2)])
      (use c(2) sample_limits_ok(3) in \<open>simp_all add: sample_doubles allowed_risk_states_def\<close>)
  then show ?thesis using c by blast
qed

lemma sample_numbers: "gate_numbers sample_account sample_limits"
  using sample_account_ok(2,3) sample_limits_ok(1) by (simp add: gate_numbers_def usable_limits_def sample_limits_def)

theorem gate_pass_sound_witness:
  "\<exists>c d. evaluate_pretrade_risk c sample_account sample_limits (Some (Flt 512)) (Risk_State Risk_ACTIVE) True = Inr d
    \<and> rd_status d = ''PASS'' \<and> strictly_within sample_account sample_limits (val (rc_risk_amount c)) 512"
proof -
  obtain c d where c: "rc_risk_amount c = Flt 8" and
    d: "evaluate_pretrade_risk c sample_account sample_limits (Some (Flt 512)) (Risk_State Risk_ACTIVE) True = Inr d" "rd_status d = ''PASS''"
    using sample_pass by blast
  have "strictly_within sample_account sample_limits (val (rc_risk_amount c)) 512"
    using gate_pass_sound [OF d sample_numbers] c by (simp add: sample_doubles)
  then show ?thesis using d by blast
qed

section \<open>Unintended behaviour\<close>

text \<open>
  A strategy profit that is not a number is not validated, and \<open>max(0.0, nan)\<close> is \<open>0.0\<close>: the strategy loss
  counts as none and the gate passes.
\<close>

lemma nan_pnl_is_no_loss:
  assumes "RiskAccountState_validate a = Inr ()" "strategy_pnl a = Nan"
  shows "strategy_loss_fraction a = Inr (Flt 0)"
proof -
  note ref = account_valid(7,8) [OF assms(1)]
  then have "f_div (f_neg Nan) (strategy_reference_equity a) = Inr Nan"
    by (cases "strategy_reference_equity a") (auto simp: f_div_def f_neg_def Let_def)
  then show ?thesis using assms by (simp add: strategy_loss_fraction_def f_max_def f_less_def)
qed

text \<open>A decision is made on it: the state of the account validates with such a profit.\<close>

lemma nan_pnl_validates: "RiskAccountState_validate (a\<lparr>strategy_pnl := Nan\<rparr>) = RiskAccountState_validate a"
  by (simp add: RiskAccountState_validate_def)

end
