(* ===== verification/Risk_Artifacts.thy ===== *)
theory Risk_Artifacts
  imports Risk_Governance Core_Objects Json_Text Interfaces
begin

text \<open>
  Decision artifacts (\<open>risk/decision_artifact.py\<close>, \<open>risk/decision_artifact_store.py\<close>): the record that joins
  the digests of assessment, sizing, decision and report under its own digest, and the store that keeps it.
\<close>

section \<open>Artifacts\<close>

record RiskDecisionArtifact =
  ra_assessment_hash :: string
  ra_risk_calculation_hash :: string
  ra_risk_governance_hash :: string
  ra_report_hash :: string
  ra_artifact_version :: string
  ra_artifact_hash :: string

definition artifact_payload :: "RiskDecisionArtifact \<Rightarrow> (string \<times> json) list" where
  "artifact_payload a =
     [(''assessment_hash'', JStr (ra_assessment_hash a)), (''risk_calculation_hash'', JStr (ra_risk_calculation_hash a)),
      (''risk_governance_hash'', JStr (ra_risk_governance_hash a)), (''report_hash'', JStr (ra_report_hash a)),
      (''artifact_version'', JStr (ra_artifact_version a))]"

definition artifact_to_dict :: "RiskDecisionArtifact \<Rightarrow> (string \<times> json) list" where
  "artifact_to_dict a = artifact_payload a @ [(''artifact_hash'', JStr (ra_artifact_hash a))]"

definition verify_artifact :: "RiskDecisionArtifact \<Rightarrow> bool" where
  "verify_artifact a \<longleftrightarrow> deterministic_hash (JObj (artifact_payload a)) = ra_artifact_hash a"

text \<open>The report is given as an object with a \<open>report_hash\<close> or as text.\<close>

datatype report_arg = Report_Object string | Report_Text string

definition report_hash_of :: "report_arg \<Rightarrow> string" where
  "report_hash_of r = (case r of Report_Object h \<Rightarrow> h | Report_Text t \<Rightarrow> py_strip t)"

definition build_artifact :: "RiskCalculation \<Rightarrow> RiskDecision \<Rightarrow> report_arg \<Rightarrow> RiskDecisionArtifact result" where
  "build_artifact risk decision report =
     (let report_hash = report_hash_of report
      in if report_hash = [] then Inl (ValueError ''report_hash is required'')
         else case tr_assessment_hash (rc_trace risk) of
                None \<Rightarrow> Inl (ValueError ''risk calculation assessment_hash is required'')
              | Some assessment \<Rightarrow>
         if assessment = [] then Inl (ValueError ''risk calculation assessment_hash is required'')
         else if rd_audit_hash decision = [] then Inl (ValueError ''risk decision audit_hash is required'')
         else rbind (fjson_sha256 True fmt_default (RiskCalculation_to_dict risk)) (\<lambda>calculation.
           let a = \<lparr>ra_assessment_hash = assessment, ra_risk_calculation_hash = calculation,
                 ra_risk_governance_hash = rd_audit_hash decision, ra_report_hash = report_hash,
                 ra_artifact_version = ''RISK_DECISION_ARTIFACT_V1'', ra_artifact_hash = ''''\<rparr>
           in Inr (a\<lparr>ra_artifact_hash := deterministic_hash (JObj (artifact_payload a))\<rparr>)))"

text \<open>\<open>from_dict\<close>: the truth of a JSON value, and the strings of the six fields.\<close>

fun json_truth :: "json \<Rightarrow> bool" where
  "json_truth JNull = False"
| "json_truth (JBool b) = b"
| "json_truth (JInt i) = (i \<noteq> 0)"
| "json_truth (JStr s) = (s \<noteq> [])"
| "json_truth (JList xs) = (xs \<noteq> [])"
| "json_truth (JObj kvs) = (kvs \<noteq> [])"

definition artifact_fields :: "string list" where
  "artifact_fields =
     [''assessment_hash'', ''risk_calculation_hash'', ''risk_governance_hash'', ''report_hash'', ''artifact_version'',
      ''artifact_hash'']"

definition field_text :: "(string, json) dict \<Rightarrow> string \<Rightarrow> string" where
  "field_text data k = (case dget data k of Some v \<Rightarrow> py_str v | None \<Rightarrow> [])"

definition artifact_from_dict :: "(string, json) dict \<Rightarrow> RiskDecisionArtifact result" where
  "artifact_from_dict data =
     (let missing = filter (\<lambda>k. case dget data k of None \<Rightarrow> True | Some v \<Rightarrow> \<not> json_truth v) artifact_fields
      in if missing \<noteq> [] then Inl (ValueError (''risk decision artifact missing fields: '' @ join_with '', '' missing))
         else let a = \<lparr>ra_assessment_hash = field_text data ''assessment_hash'',
                ra_risk_calculation_hash = field_text data ''risk_calculation_hash'',
                ra_risk_governance_hash = field_text data ''risk_governance_hash'',
                ra_report_hash = field_text data ''report_hash'', ra_artifact_version = field_text data ''artifact_version'',
                ra_artifact_hash = field_text data ''artifact_hash''\<rparr>
              in if \<not> verify_artifact a then Inl (ValueError ''risk decision artifact hash does not match content'')
                 else Inr a)"

section \<open>The store\<close>

type_synonym artifact_store = "(string, RiskDecisionArtifact) dict"

definition artifact_put :: "RiskDecisionArtifact \<Rightarrow> artifact_store \<Rightarrow> (RiskDecisionArtifact, artifact_store) outcome" where
  "artifact_put a s =
     (if \<not> verify_artifact a then (Inl (ValueError ''cannot persist invalid risk decision artifact''), s)
      else case dget s (ra_artifact_hash a) of
             Some existing \<Rightarrow>
               if artifact_to_dict existing \<noteq> artifact_to_dict a
               then (Inl (ValueError ''risk decision artifact hash collision with different content''), s)
               else (Inr existing, s)
           | None \<Rightarrow> (Inr a, dset (ra_artifact_hash a) a s))"

definition artifact_get :: "string \<Rightarrow> artifact_store \<Rightarrow> RiskDecisionArtifact option" where
  "artifact_get h s = dget s h"

lemma artifact_to_dict_inj: "artifact_to_dict a = artifact_to_dict b \<longleftrightarrow> a = b"
  by (cases a; cases b) (auto simp: artifact_to_dict_def artifact_payload_def)

text \<open>The verified artifact stored under a digest.\<close>

definition kept :: "artifact_store \<Rightarrow> string \<Rightarrow> RiskDecisionArtifact option" where
  "kept s h = (case dget s h of Some a \<Rightarrow> if verify_artifact a then Some a else None | None \<Rightarrow> None)"

interpretation artifacts_once: exactly_once kept ra_artifact_hash "\<lambda>a. a" "\<lambda>s a. artifact_put a s" kept "\<lambda>a. a"
proof unfold_locales
  fix s t a v
  show "artifact_put a s = (Inr v, t) \<Longrightarrow>
      kept t = (kept s)(ra_artifact_hash a \<mapsto> a) \<and> kept s (ra_artifact_hash a) \<in> {None, Some a}"
    by (auto simp: artifact_put_def artifact_to_dict_inj kept_def fun_eq_iff split: if_splits option.splits)
qed (auto simp: artifact_put_def artifact_to_dict_inj kept_def split: if_splits option.splits)

section \<open>Integrity\<close>

definition artifact_bytes :: "RiskDecisionArtifact \<Rightarrow> char list" where
  "artifact_bytes a = utf8_encode (json_dumps fmt_default (JObj (artifact_payload a)))"

lemma verified_digest: "verify_artifact a \<Longrightarrow> ra_artifact_hash a = sha256_hex (artifact_bytes a)"
  by (simp add: verify_artifact_def deterministic_hash_def json_sha256_def artifact_bytes_def)

text \<open>Two verified artifacts with one digest are equal, or their bytes collide.\<close>

lemma verified_equal:
  assumes "verify_artifact a" "verify_artifact b" "ra_artifact_hash a = ra_artifact_hash b"
  shows "a = b \<or> sha256_collision (artifact_bytes a) (artifact_bytes b)"
proof -
  have "json_sha256 fmt_default (JObj (artifact_payload a)) = json_sha256 fmt_default (JObj (artifact_payload b))"
    using assms by (simp add: verify_artifact_def deterministic_hash_def)
  moreover have "wf_format fmt_default" by (simp add: wf_format_def fmt_default_def)
  ultimately consider "json_canon (JObj (artifact_payload a)) = json_canon (JObj (artifact_payload b))"
    | "sha256_collision (artifact_bytes a) (artifact_bytes b)"
    using json_sha256_inj unfolding artifact_bytes_def by blast
  then show ?thesis
  proof cases
    case 1
    then have "artifact_payload a = artifact_payload b"
      by (rule json_canon_record) (auto simp: artifact_payload_def)
    then show ?thesis using assms(3) artifact_to_dict_inj [of a b] by (simp add: artifact_to_dict_def)
  qed blast
qed

lemma build_artifact_verified:
  assumes "build_artifact risk decision report = Inr a"
  shows "verify_artifact a" "tr_assessment_hash (rc_trace risk) = Some (ra_assessment_hash a)"
    "ra_risk_governance_hash a = rd_audit_hash decision" "ra_report_hash a = report_hash_of report"
    "fjson_sha256 True fmt_default (RiskCalculation_to_dict risk) = Inr (ra_risk_calculation_hash a)"
    "ra_assessment_hash a \<noteq> []" "ra_risk_governance_hash a \<noteq> []" "ra_report_hash a \<noteq> []"
    "ra_artifact_version a = ''RISK_DECISION_ARTIFACT_V1''"
  using assms
  by (auto simp: build_artifact_def rbind_Inr Let_def verify_artifact_def artifact_payload_def split: if_splits option.splits)

definition store_ok :: "artifact_store \<Rightarrow> bool" where
  "store_ok s \<longleftrightarrow> (\<forall>h a. dget s h = Some a \<longrightarrow> ra_artifact_hash a = h \<and> verify_artifact a)"

text \<open>A stored artifact survives the way to a dictionary and back.\<close>

lemma artifact_roundtrip:
  assumes "verify_artifact a" "ra_assessment_hash a \<noteq> []" "ra_risk_calculation_hash a \<noteq> []" "ra_risk_governance_hash a \<noteq> []"
    and "ra_report_hash a \<noteq> []" "ra_artifact_version a \<noteq> []"
  shows "artifact_from_dict (artifact_to_dict a) = Inr a"
proof -
  have "ra_artifact_hash a \<noteq> []" using verified_digest [OF assms(1)] by simp
  then show ?thesis using assms
    by (cases a) (simp add: artifact_from_dict_def artifact_to_dict_def artifact_payload_def artifact_fields_def field_text_def)
qed

lemma store_ok_put: "store_ok s \<Longrightarrow> store_ok (snd (artifact_put a s))"
  by (auto simp: store_ok_def artifact_put_def split: option.splits)

lemma store_ok_all: "store_ok s \<Longrightarrow> store_ok (serve_all (\<lambda>s a. artifact_put a s) s as)"
  by (induction as arbitrary: s) (simp_all add: store_ok_put)

lemma store_ok_kept: "store_ok s \<Longrightarrow> kept s h = dget s h"
  by (auto simp: store_ok_def kept_def split: option.splits)

lemma json_truth_text: "json_truth (JStr t) \<longleftrightarrow> t \<noteq> []" "py_str (JStr t) = t"
  by simp_all

text \<open>
  C28: The artifact store keeps exactly what was decided: in a store filled by any sequence of puts, every
  entry verifies under its key; an artifact built from a calculation, a decision and a report is accepted
  and from then on returned unchanged, whatever is put before or after, unless it collides under SHA-256
  with an entry of different bytes; and an artifact with any field changed but its digest kept is refused
  or exhibits such a collision.
\<close>

theorem artifact_store_exact:
  fixes earlier later :: "RiskDecisionArtifact list"
  assumes "build_artifact risk decision report = Inr a"
  defines "s \<equiv> serve_all (\<lambda>s a. artifact_put a s) [] earlier"
  defines "t \<equiv> serve_all (\<lambda>s a. artifact_put a s) (snd (artifact_put a s)) later"
  shows "(\<forall>h b. artifact_get h s = Some b \<longrightarrow> ra_artifact_hash b = h \<and> verify_artifact b)
    \<and> (fst (artifact_put a s) = Inr a \<and> artifact_get (ra_artifact_hash a) t = Some a
        \<and> artifact_put a t = (Inr a, t)
       \<or> (\<exists>b. artifact_get (ra_artifact_hash a) s = Some b \<and> sha256_collision (artifact_bytes a) (artifact_bytes b)))
    \<and> (\<forall>b. ra_artifact_hash b = ra_artifact_hash a \<longrightarrow> b \<noteq> a
        \<longrightarrow> (\<exists>m. artifact_put b t = (Inl (ValueError m), t)) \<or> sha256_collision (artifact_bytes a) (artifact_bytes b))"
proof (intro conjI)
  note built = build_artifact_verified [OF assms(1)]
  have ok: "store_ok s" unfolding s_def by (rule store_ok_all) (simp add: store_ok_def)
  then show "\<forall>h b. artifact_get h s = Some b \<longrightarrow> ra_artifact_hash b = h \<and> verify_artifact b"
    by (simp add: store_ok_def artifact_get_def)
  have okt: "store_ok t" unfolding t_def by (rule store_ok_all [OF store_ok_put [OF ok]])
  show "fst (artifact_put a s) = Inr a \<and> artifact_get (ra_artifact_hash a) t = Some a \<and> artifact_put a t = (Inr a, t)
    \<or> (\<exists>b. artifact_get (ra_artifact_hash a) s = Some b \<and> sha256_collision (artifact_bytes a) (artifact_bytes b))"
  proof (cases "dget s (ra_artifact_hash a) \<in> {None, Some a}")
    case True
    then have put: "fst (artifact_put a s) = Inr a" "kept (snd (artifact_put a s)) (ra_artifact_hash a) = Some a"
      using built(1) by (auto simp: artifact_put_def kept_def)
    have "kept t (ra_artifact_hash a) = Some a" unfolding t_def by (rule artifacts_once.recorded_forever [OF put(2)])
    then have "dget t (ra_artifact_hash a) = Some a" using store_ok_kept [OF okt] by simp
    then show ?thesis using put(1) built(1) by (simp add: artifact_get_def artifact_put_def)
  next
    case False
    then obtain b where b: "dget s (ra_artifact_hash a) = Some b" "b \<noteq> a" by (cases "dget s (ra_artifact_hash a)") auto
    then have "verify_artifact b" "ra_artifact_hash a = ra_artifact_hash b" using ok by (auto simp: store_ok_def)
    then show ?thesis using verified_equal [OF built(1)] b by (auto simp: artifact_get_def)
  qed
  show "\<forall>b. ra_artifact_hash b = ra_artifact_hash a \<longrightarrow> b \<noteq> a
      \<longrightarrow> (\<exists>m. artifact_put b t = (Inl (ValueError m), t)) \<or> sha256_collision (artifact_bytes a) (artifact_bytes b)"
  proof (intro allI impI)
    fix b
    assume b: "ra_artifact_hash b = ra_artifact_hash a" "b \<noteq> a"
    show "(\<exists>m. artifact_put b t = (Inl (ValueError m), t)) \<or> sha256_collision (artifact_bytes a) (artifact_bytes b)"
    proof (cases "verify_artifact b")
      case True
      then show ?thesis using verified_equal [OF built(1) True] b by simp
    next
      case False
      then show ?thesis by (simp add: artifact_put_def)
    qed
  qed
qed

definition sample_decision :: RiskDecision where
  "sample_decision =
     \<lparr>rd_schema_version = ''risk-governance.v1'', rd_status = ''PASS'', rd_strategy_state = ''ACTIVE'', rd_research_valid = True,
      rd_daily_loss_fraction = Flt 0, rd_drawdown_fraction = Flt 0, rd_strategy_loss_fraction = Flt 0,
      rd_proposed_trade_risk_fraction = Flt 0, rd_projected_open_risk_fraction = None,
      rd_projected_gross_exposure_fraction = None, rd_projected_single_instrument_exposure_fraction = None,
      rd_violations = [], rd_warnings = [], rd_audit_hash = ''bb''\<rparr>"

lemma sample_artifact: "\<exists>c a. calculate_risk sample_request_input = Inr c \<and> build_artifact c sample_decision (Report_Object ''cc'') = Inr a"
proof -
  obtain c where c: "calculate_risk sample_request_input = Inr c" using sample_sizing by blast
  then have "rc_trace c = ri_trace sample_request_input" by (auto simp: calculate_risk_def rbind_Inr Let_def)
  then have trace: "tr_assessment_hash (rc_trace c) = Some ''aa''" by (simp add: sample_request_input_def)
  obtain h where "fjson_sha256 True fmt_default (RiskCalculation_to_dict c) = Inr h"
    using fjson_nan_total [of fmt_default "RiskCalculation_to_dict c"] by (auto simp: fjson_sha256_def is_ok_iff)
  then show ?thesis using c trace by (simp add: build_artifact_def report_hash_of_def sample_decision_def Let_def)
qed

theorem artifact_store_exact_witness:
  "\<exists>c a. build_artifact c sample_decision (Report_Object ''cc'') = Inr a \<and> artifact_get (ra_artifact_hash a) (snd (artifact_put a [])) = Some a"
proof -
  obtain c a where a: "build_artifact c sample_decision (Report_Object ''cc'') = Inr a" using sample_artifact by blast
  show ?thesis using artifact_store_exact [OF a, of "[]" "[]"] a by (auto simp: artifact_get_def)
qed

section \<open>The dictionary form\<close>

text \<open>
  C40: The dictionary of an artifact is read back exactly: every artifact that was built survives the way to
  its dictionary and back; whatever dictionary is read, the result verifies and has the texts of the six
  entries as its fields; and a dictionary with the digest of a built artifact is read as that artifact and
  no other, unless the two exhibit a collision of SHA-256.
\<close>

theorem artifact_dict_roundtrip:
  assumes "build_artifact risk decision report = Inr a"
  shows "artifact_from_dict (artifact_to_dict a) = Inr a
    \<and> (\<forall>d b. artifact_from_dict d = Inr b \<longrightarrow> verify_artifact b
        \<and> list_all (\<lambda>k. map_of (artifact_to_dict b) k = Some (JStr (field_text d k))) artifact_fields
        \<and> (field_text d ''artifact_hash'' = ra_artifact_hash a
            \<longrightarrow> b = a \<or> sha256_collision (artifact_bytes a) (artifact_bytes b)))"
proof (intro conjI allI impI)
  note built = build_artifact_verified [OF assms]
  have "ra_risk_calculation_hash a \<noteq> []" using built(5) fjson_hash_total [of "RiskCalculation_to_dict risk"] by auto
  then show "artifact_from_dict (artifact_to_dict a) = Inr a"
    by (intro artifact_roundtrip) (use built in simp_all)
  fix d b
  assume read: "artifact_from_dict d = Inr b"
  then show b: "verify_artifact b" by (auto simp: artifact_from_dict_def Let_def split: if_splits)
  show "list_all (\<lambda>k. map_of (artifact_to_dict b) k = Some (JStr (field_text d k))) artifact_fields"
    using read by (auto simp: artifact_from_dict_def Let_def artifact_fields_def artifact_to_dict_def artifact_payload_def
        split: if_splits)
  assume "field_text d ''artifact_hash'' = ra_artifact_hash a"
  then have "ra_artifact_hash a = ra_artifact_hash b"
    using read by (auto simp: artifact_from_dict_def Let_def split: if_splits)
  then show "b = a \<or> sha256_collision (artifact_bytes a) (artifact_bytes b)" using verified_equal [OF built(1) b] by blast
qed

theorem artifact_dict_roundtrip_witness:
  "\<exists>c a. build_artifact c sample_decision (Report_Object ''cc'') = Inr a \<and> artifact_from_dict (artifact_to_dict a) = Inr a"
proof -
  obtain c a where a: "build_artifact c sample_decision (Report_Object ''cc'') = Inr a" using sample_artifact by blast
  from artifact_dict_roundtrip [OF a] a show ?thesis by blast
qed

end
