(* ===== verification/Probability_Assessment.thy ===== *)
theory Probability_Assessment
  imports Float_Text
begin

text \<open>
  Probability assessments (\<open>decision_engine/contracts.py\<close>, \<open>decision_engine/probability.py\<close>): evidence items
  aggregated into three probabilities, the calibrated linear pool, and the validation of the result.  The
  timestamp, the identifier and the life cycle of an assessment do not enter its digest and are left out.
\<close>

section \<open>Evidence and assessments\<close>

datatype ProbabilityOutcome = Bullish | Bearish | Neutral

text \<open>An item with the two entries of its provenance that are read; a missing number of the distribution is NaN.\<close>

record DecisionEvidenceItem =
  dei_source_id :: string
  dei_direction :: ProbabilityOutcome
  dei_weight :: pyfloat
  dei_confidence :: pyfloat
  dei_calibration_status :: "string option"
  dei_distribution :: "(pyfloat \<times> pyfloat \<times> pyfloat) option"

datatype CalculationMethod =
    WEIGHTED_EVIDENCE | BAYESIAN | HISTORICAL_FREQUENCY | CONFIDENCE_ADJUSTED | EVIDENCE_BALANCE | CALIBRATED_LINEAR_POOL

fun method_value :: "CalculationMethod \<Rightarrow> string" where
  "method_value WEIGHTED_EVIDENCE = ''WeightedEvidence''"
| "method_value BAYESIAN = ''Bayesian''"
| "method_value HISTORICAL_FREQUENCY = ''HistoricalFrequency''"
| "method_value CONFIDENCE_ADJUSTED = ''ConfidenceAdjusted''"
| "method_value EVIDENCE_BALANCE = ''EvidenceBalance''"
| "method_value CALIBRATED_LINEAR_POOL = ''CalibratedLinearPool''"

record ProbabilityAssessment =
  pa_decision_context_id :: string
  pa_evidence_collection_id :: string
  pa_bullish :: pyfloat
  pa_bearish :: pyfloat
  pa_neutral :: pyfloat
  pa_confidence :: pyfloat
  pa_uncertainty :: pyfloat
  pa_evidence_strength :: pyfloat
  pa_historical_consistency :: pyfloat
  pa_sample_size :: int
  pa_method :: CalculationMethod
  pa_calculation_version :: string
  pa_limitations :: "string list"
  pa_ontology_tags :: "string list"
  pa_calibration_status :: "string option"
  pa_assessment_hash :: string

definition fstrs :: "string list \<Rightarrow> fjson" where
  "fstrs xs = FJson (JList (map JStr xs))"

definition assessment_hashable :: "ProbabilityAssessment \<Rightarrow> fjson" where
  "assessment_hashable a =
     FObj [(''decision_context_id'', FJson (JStr (pa_decision_context_id a))),
       (''evidence_collection_id'', FJson (JStr (pa_evidence_collection_id a))),
       (''bullish_probability'', FNum (pa_bullish a)), (''bearish_probability'', FNum (pa_bearish a)),
       (''neutral_probability'', FNum (pa_neutral a)), (''confidence'', FNum (pa_confidence a)),
       (''uncertainty'', FNum (pa_uncertainty a)), (''evidence_strength'', FNum (pa_evidence_strength a)),
       (''historical_consistency'', FNum (pa_historical_consistency a)), (''sample_size'', FJson (JInt (pa_sample_size a))),
       (''calculation_method'', FJson (JStr (method_value (pa_method a)))),
       (''calculation_version'', FJson (JStr (pa_calculation_version a))),
       (''limitations'', fstrs (sort_key (\<lambda>x. x) (pa_limitations a))),
       (''ontology_tags'', fstrs (sort_key (\<lambda>x. x) (pa_ontology_tags a))),
       (''probability_calibration_status'', FJson (case pa_calibration_status a of None \<Rightarrow> JNull | Some t \<Rightarrow> JStr t))]"

text \<open>The constructor: the calibration status is stripped and a blank one dropped, the digest computed.\<close>

definition ProbabilityAssessment_init :: "ProbabilityAssessment \<Rightarrow> ProbabilityAssessment" where
  "ProbabilityAssessment_init a =
     (let status = (case pa_calibration_status a of None \<Rightarrow> None | Some t \<Rightarrow> if py_strip t = [] then None else Some (py_strip t));
          b = a\<lparr>pa_calibration_status := status\<rparr>
      in b\<lparr>pa_assessment_hash := deterministic_fhash (assessment_hashable b)\<rparr>)"

definition with_calibration_status :: "string \<Rightarrow> ProbabilityAssessment \<Rightarrow> ProbabilityAssessment result" where
  "with_calibration_status status a =
     (if py_strip status = [] then Inl (ValueError ''calibration status must not be empty'')
      else Inr (ProbabilityAssessment_init (a\<lparr>pa_calibration_status := Some (py_strip status)\<rparr>)))"

definition validate_integrity :: "ProbabilityAssessment \<Rightarrow> unit result" where
  "validate_integrity a =
     (if pa_assessment_hash a = [] then Inl (ValueError ''probability assessment is missing assessment_hash'')
      else if pa_assessment_hash a \<noteq> deterministic_fhash (assessment_hashable a)
      then Inl (ValueError ''probability assessment assessment_hash does not match content'')
      else Inr ())"

section \<open>Aggregation\<close>

definition UNIFORM_PROBABILITY :: pyfloat where
  "UNIFORM_PROBABILITY = f_round (1 / 3)"

definition contribution :: "DecisionEvidenceItem \<Rightarrow> pyfloat" where
  "contribution i = f_mul (dei_confidence i) (dei_weight i)"

text \<open>The three weights, added up in the order of the items.\<close>

fun add_weight :: "DecisionEvidenceItem \<Rightarrow> pyfloat \<times> pyfloat \<times> pyfloat \<Rightarrow> pyfloat \<times> pyfloat \<times> pyfloat" where
  "add_weight i (bull, bear, neut) =
     (case dei_direction i of
        Bullish \<Rightarrow> (f_add bull (contribution i), bear, neut)
      | Bearish \<Rightarrow> (bull, f_add bear (contribution i), neut)
      | Neutral \<Rightarrow> (bull, bear, f_add neut (contribution i)))"

definition direction_weights :: "DecisionEvidenceItem list \<Rightarrow> pyfloat \<times> pyfloat \<times> pyfloat" where
  "direction_weights items = fold add_weight items (Flt 0, Flt 0, Flt 0)"

definition mean_of :: "pyfloat list \<Rightarrow> pyfloat result" where
  "mean_of xs = (if xs = [] then Inr (Flt 0) else f_div (f_sum xs) (f_of_int (int (length xs))))"

text \<open>The directional probabilities; the neutral one is what they leave.\<close>

definition directional :: "pyfloat \<Rightarrow> pyfloat \<Rightarrow> pyfloat \<Rightarrow> (pyfloat \<times> pyfloat) result" where
  "directional bull bear tot =
     (if f_less (Flt 0) tot
      then rbind (f_div bull tot) (\<lambda>p. rbind (f_div bear tot) (\<lambda>q. Inr (p, q)))
      else Inr (UNIFORM_PROBABILITY, UNIFORM_PROBABILITY))"

definition neutral_rest :: "pyfloat \<Rightarrow> pyfloat \<Rightarrow> pyfloat" where
  "neutral_rest p q = f_max (Flt 0) (f_sub (f_sub (Flt 1) p) q)"

definition derive_limitations :: "nat \<Rightarrow> pyfloat \<Rightarrow> pyfloat \<Rightarrow> pyfloat \<Rightarrow> string list" where
  "derive_limitations sample_size tot confidence uncertainty =
     (if sample_size = 0 then [''No evidence items available for probability assessment'']
      else (if sample_size < 3 then [''Low evidence sample size: '' @ nat_digits sample_size @ '' items''] else [])
        @ (if f_eq tot (Flt 0) then [''All evidence items have zero effective weight (confidence * weight = 0)''] else [])
        @ (if f_eq confidence (Flt 0) then [''No confident evidence; all items have zero confidence''] else [])
        @ (if f_less (f_round (3 / 5)) uncertainty then [''High uncertainty: evidence directions are widely dispersed''] else []))"

definition aggregate :: "string \<Rightarrow> string \<Rightarrow> string \<Rightarrow> DecisionEvidenceItem list \<Rightarrow> ProbabilityAssessment result" where
  "aggregate version context_id collection_id items =
     (case direction_weights items of (bull, bear, neut) \<Rightarrow>
        let tot = f_add (f_add bull bear) neut
        in rbind (directional bull bear tot) (\<lambda>(p, q).
           rbind (if f_less (Flt 0) tot then f_div neut tot else Inr UNIFORM_PROBABILITY) (\<lambda>_.
           rbind (mean_of (map dei_confidence items)) (\<lambda>confidence.
           rbind (mean_of (map contribution items)) (\<lambda>strength.
             let r = neutral_rest p q;
                 consistency = f_max (f_max p q) r;
                 uncertainty = f_sub (Flt 1) consistency
             in Inr (ProbabilityAssessment_init
                  \<lparr>pa_decision_context_id = context_id, pa_evidence_collection_id = collection_id,
                   pa_bullish = p, pa_bearish = q, pa_neutral = r, pa_confidence = confidence, pa_uncertainty = uncertainty,
                   pa_evidence_strength = strength, pa_historical_consistency = consistency,
                   pa_sample_size = int (length items), pa_method = WEIGHTED_EVIDENCE, pa_calculation_version = version,
                   pa_limitations = derive_limitations (length items) tot confidence uncertainty,
                   pa_ontology_tags = [], pa_calibration_status = None, pa_assessment_hash = ''''\<rparr>))))))"

section \<open>Validation\<close>

definition FLOAT_TOLERANCE :: pyfloat where
  "FLOAT_TOLERANCE = f_round (1 / 10 ^ 9)"

definition within_unit :: "pyfloat \<Rightarrow> bool" where
  "within_unit a \<longleftrightarrow> f_le (Flt 0) a \<and> f_le a (Flt 1)"

definition sums_to_one :: "pyfloat list \<Rightarrow> bool" where
  "sums_to_one ps \<longleftrightarrow> \<not> f_less FLOAT_TOLERANCE (f_abs (f_sub (f_sum ps) (Flt 1)))"

definition validate_assessment :: "ProbabilityAssessment \<Rightarrow> string list" where
  "validate_assessment a =
     (let ps = [pa_bullish a, pa_bearish a, pa_neutral a]
      in (if \<exists>p \<in> set ps. f_less p (Flt 0) \<or> f_less (Flt 1) p then [''probabilities must be in [0, 1]''] else [])
         @ (if \<not> sums_to_one ps then [''probabilities must sum to 1.0''] else [])
         @ (if \<not> within_unit (pa_confidence a) then [''confidence must be in [0, 1]''] else [])
         @ (if \<not> within_unit (pa_uncertainty a) then [''uncertainty must be in [0, 1]''] else [])
         @ (if pa_sample_size a < 0 then [''sample_size must be non-negative''] else []))"

section \<open>The calibrated linear pool\<close>

definition pool_distribution :: "DecisionEvidenceItem \<Rightarrow> (pyfloat \<times> pyfloat \<times> pyfloat) result" where
  "pool_distribution i =
     (let who = ''evidence '' @ py_repr_string (dei_source_id i)
      in if dei_calibration_status i \<noteq> Some ''validated''
         then Inl (ValueError (who @ '' is not backed by validated calibration''))
         else case dei_distribution i of
           None \<Rightarrow> Inl (ValueError (who @ '' is missing probability_distribution''))
         | Some (p, q, r) \<Rightarrow>
             if \<exists>v \<in> set [p, q, r]. \<not> f_isfinite v \<or> f_less v (Flt 0) \<or> f_less (Flt 1) v
             then Inl (ValueError (who @ '' contains invalid probability values''))
             else if \<not> sums_to_one [p, q, r] then Inl (ValueError (who @ '' probabilities must sum to 1.0''))
             else Inr (p, q, r))"

definition pool_item :: "DecisionEvidenceItem \<Rightarrow> (pyfloat \<times> pyfloat \<times> pyfloat \<times> pyfloat) result" where
  "pool_item i =
     (if \<not> f_isfinite (dei_weight i) \<or> f_less (dei_weight i) (Flt 0)
      then Inl (ValueError (''evidence '' @ py_repr_string (dei_source_id i) @ '' has invalid fusion weight''))
      else rbind (pool_distribution i) (\<lambda>d. Inr (dei_weight i, d)))"

definition pooled :: "pyfloat \<Rightarrow> (pyfloat \<times> pyfloat) list \<Rightarrow> pyfloat result" where
  "pooled total_weight wps = f_div (f_sum (map (\<lambda>(w, p). f_mul w p) wps)) total_weight"

definition fuse :: "string \<Rightarrow> string \<Rightarrow> DecisionEvidenceItem list \<Rightarrow> ProbabilityAssessment result" where
  "fuse context_id collection_id items =
     (if items = [] then Inl (ValueError ''calibrated linear pool requires at least one evidence item'')
      else rbind (sequence_results (map pool_item items)) (\<lambda>weighted.
        let total_weight = f_sum (map fst weighted)
        in if f_le total_weight (Flt 0) then Inl (ValueError ''calibrated linear pool requires positive total weight'')
           else rbind (pooled total_weight (map (\<lambda>(w, p, q, r). (w, p)) weighted)) (\<lambda>p.
                rbind (pooled total_weight (map (\<lambda>(w, p, q, r). (w, q)) weighted)) (\<lambda>q.
                rbind (pooled total_weight (map (\<lambda>(w, p, q, r). (w, r)) weighted)) (\<lambda>r.
                  let tot = f_add (f_add p q) r
                  in if \<not> f_isfinite tot \<or> f_le tot (Flt 0) then Inl (ValueError ''fused probability distribution is invalid'')
                     else rbind (f_div p tot) (\<lambda>p. rbind (f_div q tot) (\<lambda>q. rbind (f_div r tot) (\<lambda>r.
                          rbind (f_div total_weight (f_of_int (int (length weighted)))) (\<lambda>strength.
                            let best = f_max (f_max p q) r
                            in Inr (ProbabilityAssessment_init
                                 \<lparr>pa_decision_context_id = context_id, pa_evidence_collection_id = collection_id,
                                  pa_bullish = p, pa_bearish = q, pa_neutral = r, pa_confidence = best,
                                  pa_uncertainty = f_sub (Flt 1) best, pa_evidence_strength = strength,
                                  pa_historical_consistency = best, pa_sample_size = int (length items),
                                  pa_method = CALIBRATED_LINEAR_POOL, pa_calculation_version = ''CALIBRATED_LINEAR_POOL_V1'',
                                  pa_limitations = [''Components must be calibrated out-of-sample'',
                                    ''Fusion does not assume component independence'',
                                    ''Evidence dependence must be monitored separately''],
                                  pa_ontology_tags = [], pa_calibration_status = Some ''validated_components'',
                                  pa_assessment_hash = ''''\<rparr>))))))))))"

section \<open>Calculated assessments are valid\<close>

lemma f_abs_finite: "f_isfinite a \<Longrightarrow> f_isfinite (f_abs a)" "val (f_abs a) = \<bar>val a\<bar>"
  by (cases a; simp add: f_abs_def f_signbit_def f_neg_def)+

lemma f_div_total: "f_isfinite b \<Longrightarrow> val b \<noteq> 0 \<Longrightarrow> \<exists>c. f_div a b = Inr c"
  by (cases b) (auto simp: f_div_def Let_def)

lemma float_tolerance: "f_isfinite FLOAT_TOLERANCE" "pow2 (- 30) \<le> val FLOAT_TOLERANCE"
proof -
  have d: "double (pow2 (- 30))" "double 1" by (simp_all add: double_pow2)
  have le: "pow2 (- 30) \<le> 1 / 10 ^ 9" "1 / 10 ^ 9 \<le> (1::rat)" by (simp_all add: pow2_def)
  show fin: "f_isfinite FLOAT_TOLERANCE" unfolding FLOAT_TOLERANCE_def by (rule f_round_between(1) [OF d le])
  then show "pow2 (- 30) \<le> val FLOAT_TOLERANCE"
    using f_round_finite f_round_between(2) [OF d le] by (simp add: FLOAT_TOLERANCE_def)
qed

definition unit_float :: "pyfloat \<Rightarrow> bool" where
  "unit_float a \<longleftrightarrow> f_isfinite a \<and> 0 \<le> val a \<and> val a \<le> 1"

lemma unit_float_within: "unit_float a \<Longrightarrow> within_unit a \<and> \<not> f_less a (Flt 0) \<and> \<not> f_less (Flt 1) a"
  by (simp add: unit_float_def within_unit_def f_le_finite f_less_finite)

text \<open>Three probabilities that add up to 1 exactly to \<open>2^-49\<close> pass the test of their float sum.\<close>

lemma sums_to_one_close:
  assumes "unit_float p" "unit_float q" "unit_float r" "\<bar>val p + val q + val r - 1\<bar> \<le> pow2 (- 49)"
  shows "sums_to_one [p, q, r]"
proof -
  have "near (f_sum [p, q, r]) (val p + val q + val r) 20" using assms by (intro f_sum_three) (simp_all add: unit_float_def)
  then have "near (f_sub (f_sum [p, q, r]) (Flt 1)) (val p + val q + val r - 1) 21"
    using near_add(2) [OF _ near_exact [of "Flt 1"], of "f_sum [p, q, r]" "val p + val q + val r" 20] assms
    by (simp add: unit_float_def)
  then have d: "f_isfinite (f_sub (f_sum [p, q, r]) (Flt 1))"
    "\<bar>val (f_sub (f_sum [p, q, r]) (Flt 1)) - (val p + val q + val r - 1)\<bar> \<le> 21 * pow2 (- 49)" by (simp_all add: near_def)
  have b: "\<bar>val (f_sub (f_sum [p, q, r]) (Flt 1))\<bar> \<le> 22 * pow2 (- 49)" using d(2) assms(4) by linarith
  have "22 * pow2 (- 49) \<le> pow2 (- 30)" by (simp add: pow2_def)
  then have "val (f_abs (f_sub (f_sum [p, q, r]) (Flt 1))) \<le> val FLOAT_TOLERANCE"
    using b float_tolerance(2) unfolding f_abs_finite(2) by linarith
  then show ?thesis by (simp add: sums_to_one_def f_less_finite float_tolerance(1) f_abs_finite(1) [OF d(1)])
qed

lemma neutral_rest_close:
  assumes "unit_float p" "unit_float q" "val p + val q \<le> 1 + pow2 (- 50)"
  shows "unit_float (neutral_rest p q)" "\<bar>val p + val q + val (neutral_rest p q) - 1\<bar> \<le> pow2 (- 49)"
proof -
  note f = assms(1,2) [unfolded unit_float_def]
  let ?s = "f_sub (Flt 1) p"
  have rs: "rounds ?s (1 - val p)" using f_arith_rounds(2) [of "Flt 1" p] f by simp
  have s: "f_isfinite ?s" "0 \<le> val ?s" "val ?s \<le> 1" "val ?s = rnd (1 - val p)"
    using rounds_between [OF rs double_0 double_1] f by simp_all
  let ?t = "f_sub ?s q"
  have rt: "rounds ?t (val ?s - val q)" using f_arith_rounds(2) [OF s(1)] f by blast
  have t: "f_isfinite ?t" "val ?t \<le> 1" "val ?t = rnd (val ?s - val q)"
    using rounds_between [OF rt double_minus [OF double_1] double_1] f s by simp_all
  have small: "pow2 (- 53) + pow2 (- 1075) \<le> pow2 (- 52)" "2 * pow2 (- 52) + pow2 (- 50) \<le> pow2 (- 49)"
    "2 * pow2 (- 52) \<le> pow2 (- 49)"
    using pow2_mono [of "- 1075" "- 53"] by (simp_all add: pow2_def [of "- 53"] pow2_def [of "- 52"] pow2_def [of "- 50"] pow2_def [of "- 49"])
  have err: "\<bar>rnd y - y\<bar> \<le> pow2 (- 52)" if "\<bar>y\<bar> \<le> 1" for y
  proof -
    have "\<bar>y\<bar> * pow2 (- 53) \<le> 1 * pow2 (- 53)" using that by (intro mult_right_mono) simp_all
    then show ?thesis using rnd_error_bound [of y] small(1) by linarith
  qed
  have e1: "\<bar>val ?s - (1 - val p)\<bar> \<le> pow2 (- 52)" unfolding s(4) using f by (intro err) simp
  have e2: "\<bar>val ?t - (val ?s - val q)\<bar> \<le> pow2 (- 52)" unfolding t(3) using f s by (intro err) (simp add: abs_le_iff)
  have r: "f_isfinite (neutral_rest p q)" "val (neutral_rest p q) = max 0 (val ?t)"
    using t(1) by (auto simp: neutral_rest_def f_max_def f_less_finite)
  show "unit_float (neutral_rest p q)" using r t(2) by (simp add: unit_float_def)
  show "\<bar>val p + val q + val (neutral_rest p q) - 1\<bar> \<le> pow2 (- 49)"
    using e1 e2 small(2,3) assms(3) unfolding r(2) by (auto simp: max_def abs_le_iff)
qed

text \<open>Quotients of non-negative weights by their rounded sum.\<close>

lemma quotients_close:
  fixes b c d :: rat
  assumes "double b" "double c" "double d" "0 \<le> b" "0 \<le> c" "0 \<le> d"
  defines "t \<equiv> rnd (rnd (b + c) + d)"
  assumes "0 < t"
  shows "b \<le> t" "c \<le> t" "rnd (b / t) + rnd (c / t) \<le> 1 + pow2 (- 50)"
proof -
  define \<epsilon> :: rat where "\<epsilon> = pow2 (- 53)"
  have eps: "0 < \<epsilon>" "\<epsilon> \<le> 1 / 1000" "pow2 (- 50) = 8 * \<epsilon>" by (simp_all add: \<epsilon>_def pow2_def)
  have grid: "on_grid (- 1074) (b + c)" using on_grid_add double_grid assms(1,2) by blast
  have s: "b \<le> rnd (b + c)" "c \<le> rnd (b + c)"
    using rnd_mono [of b "b + c"] rnd_mono [of c "b + c"] assms(1,2,4,5) by (simp_all add: double_def)
  have st: "rnd (b + c) \<le> t" unfolding t_def using rnd_mono [of "rnd (b + c)" "rnd (b + c) + d"] assms(6) by simp
  show "b \<le> t" "c \<le> t" using s st by linarith+
  have "(b + c) * (1 - \<epsilon>) \<le> rnd (b + c)" using rnd_grid_bounds(1) [OF grid] assms(4,5) by (simp add: \<epsilon>_def)
  then have bc: "(b + c) * (1 - \<epsilon>) \<le> t" using st by linarith
  have quot: "(b + c) / t \<le> 1 + 2 * \<epsilon>"
  proof -
    have "(b + c) * 1 \<le> (b + c) * ((1 - \<epsilon>) * (1 + 2 * \<epsilon>))"
    proof (rule mult_left_mono)
      have "\<epsilon> * \<epsilon> \<le> \<epsilon> * (1 / 1000)" using eps by (intro mult_left_mono) simp_all
      then show "1 \<le> (1 - \<epsilon>) * (1 + 2 * \<epsilon>)" using eps(1) by (simp add: algebra_simps)
    qed (use assms(4,5) in simp)
    also have "\<dots> \<le> t * (1 + 2 * \<epsilon>)" using mult_right_mono [OF bc, of "1 + 2 * \<epsilon>"] eps(1) by (simp add: mult.assoc)
    finally show ?thesis using assms(8) by (simp add: pos_divide_le_eq mult.commute)
  qed
  have "rnd (b / t) + rnd (c / t) \<le> (b / t) * (1 + \<epsilon>) + (c / t) * (1 + \<epsilon>) + 2 * pow2 (- 1075)"
    using rnd_upper [of "b / t"] rnd_upper [of "c / t"] assms(4,5,8) by (simp add: \<epsilon>_def)
  also have "\<dots> = ((b + c) / t) * (1 + \<epsilon>) + 2 * pow2 (- 1075)" by (simp add: add_divide_distrib algebra_simps)
  also have "\<dots> \<le> (1 + 2 * \<epsilon>) * (1 + \<epsilon>) + 2 * \<epsilon>"
  proof (intro add_mono mult_right_mono quot)
    have "pow2 (- 1075) \<le> \<epsilon>" unfolding \<epsilon>_def by (rule pow2_mono) simp
    then show "2 * pow2 (- 1075) \<le> 2 * \<epsilon>" by simp
  qed (use eps in simp)
  also have "\<dots> \<le> 1 + 8 * \<epsilon>"
  proof -
    have "\<epsilon> * \<epsilon> \<le> \<epsilon> * (1 / 1000)" using eps by (intro mult_left_mono) simp_all
    then show ?thesis using eps(1) by (simp add: algebra_simps)
  qed
  finally show "rnd (b / t) + rnd (c / t) \<le> 1 + pow2 (- 50)" by (simp add: eps(3))
qed

text \<open>Weights from items of the unit interval.\<close>

definition unit_item :: "DecisionEvidenceItem \<Rightarrow> bool" where
  "unit_item i \<longleftrightarrow> unit_float (dei_confidence i) \<and> unit_float (dei_weight i)"

definition weight_upto :: "nat \<Rightarrow> pyfloat \<Rightarrow> bool" where
  "weight_upto k a \<longleftrightarrow> f_isfinite a \<and> pydouble a \<and> 0 \<le> val a \<and> val a \<le> of_nat k"

lemma weight_upto_add:
  assumes "weight_upto j a" "weight_upto k b" "j + k \<le> 2 ^ 53"
  shows "weight_upto (j + k) (f_add a b)"
proof -
  note a = assms(1) [unfolded weight_upto_def] and b = assms(2) [unfolded weight_upto_def]
  have r: "rounds (f_add a b) (val a + val b)" using f_arith_rounds(1) a b by blast
  show ?thesis using rounds_between [OF r double_0 double_nat [OF assms(3)]] a b rounds_pydouble [OF r]
    by (simp add: weight_upto_def)
qed

lemma weight_upto_mono: "weight_upto j a \<Longrightarrow> j \<le> k \<Longrightarrow> weight_upto k a"
  by (auto simp: weight_upto_def intro: order_trans)

lemma contribution_unit: "unit_item i \<Longrightarrow> weight_upto 1 (contribution i)"
proof -
  assume i: "unit_item i"
  then have u: "f_isfinite (dei_confidence i)" "f_isfinite (dei_weight i)" "0 \<le> val (dei_confidence i) * val (dei_weight i)"
    "val (dei_confidence i) * val (dei_weight i) \<le> 1"
    by (auto simp: unit_item_def unit_float_def intro: mult_le_one)
  have r: "rounds (contribution i) (val (dei_confidence i) * val (dei_weight i))"
    unfolding contribution_def by (rule f_arith_rounds(3) [OF u(1,2)])
  show ?thesis using rounds_between [OF r double_0 double_1 u(3,4)] rounds_pydouble [OF r] by (simp add: weight_upto_def)
qed

lemma add_weight_upto:
  assumes "weight_upto k bull" "weight_upto k bear" "weight_upto k neut" "unit_item i" "k + 1 \<le> 2 ^ 53"
    and "add_weight i (bull, bear, neut) = (bull', bear', neut')"
  shows "weight_upto (k + 1) bull'" "weight_upto (k + 1) bear'" "weight_upto (k + 1) neut'"
  using assms weight_upto_add [OF _ contribution_unit [OF assms(4)] assms(5)] weight_upto_mono [of k _ "k + 1"]
  by (auto split: ProbabilityOutcome.splits)

lemma direction_weights_upto:
  assumes "list_all unit_item items" "length items \<le> 2 ^ 53"
  obtains bull bear neut where "direction_weights items = (bull, bear, neut)"
    "weight_upto (length items) bull" "weight_upto (length items) bear" "weight_upto (length items) neut"
proof -
  have loop: "\<exists>b' e' n'. fold add_weight is (b, e, n) = (b', e', n') \<and> weight_upto (k + length is) b'
      \<and> weight_upto (k + length is) e' \<and> weight_upto (k + length is) n'"
    if "list_all unit_item is" "k + length is \<le> 2 ^ 53" "weight_upto k b" "weight_upto k e" "weight_upto k n" for "is" k b e n
    using that
  proof (induction "is" arbitrary: k b e n)
    case (Cons i "is")
    obtain b' e' n' where step: "add_weight i (b, e, n) = (b', e', n')" by (cases "add_weight i (b, e, n)")
    have "k + 1 \<le> 2 ^ 53" "k + 1 + length is \<le> 2 ^ 53" using Cons.prems(2) by simp_all
    then show ?case
      using Cons.IH [of "k + 1" b' e' n'] add_weight_upto [OF Cons.prems(3-5) _ _ step] Cons.prems(1) step by (simp add: add.commute)
  qed simp
  have "weight_upto 0 (Flt 0)" by (simp add: weight_upto_def)
  from loop [OF assms(1), of 0, OF _ this this this] assms(2) show ?thesis using that by (auto simp: direction_weights_def)
qed

text \<open>Quotients of the weights are probabilities whose sum exceeds 1 by at most \<open>2^-50\<close>.\<close>

lemma directional_close:
  assumes w: "weight_upto k bull" "weight_upto k bear" "weight_upto k neut" and k: "3 * k \<le> 2 ^ 53"
    and tot: "tot = f_add (f_add bull bear) neut"
  shows "\<exists>p q. directional bull bear tot = Inr (p, q) \<and> unit_float p \<and> unit_float q \<and> val p + val q \<le> 1 + pow2 (- 50)
    \<and> f_isfinite tot"
proof -
  have "weight_upto (k + k) (f_add bull bear)" using weight_upto_add [OF w(1,2)] k by simp
  then have "weight_upto (k + k + k) tot" unfolding tot using weight_upto_add [OF _ w(3)] k by simp
  then have fin: "f_isfinite tot" by (simp add: weight_upto_def)
  note W = w [unfolded weight_upto_def]
  show ?thesis
  proof (cases "f_less (Flt 0) tot")
    case True
    then have pos: "0 < val tot" using fin by (simp add: f_less_finite)
    have "val (f_add bull bear) = rnd (val bull + val bear)"
      using rounds_val [OF f_arith_rounds(1)] W \<open>weight_upto (k + k) (f_add bull bear)\<close> by (simp add: weight_upto_def)
    then have val: "val tot = rnd (rnd (val bull + val bear) + val neut)"
      using rounds_val [OF f_arith_rounds(1), of "f_add bull bear" neut] W fin \<open>weight_upto (k + k) (f_add bull bear)\<close>
      by (simp add: tot weight_upto_def)
    note close = quotients_close [of "val bull" "val bear" "val neut", folded val, OF _ _ _ _ _ _ pos]
    have q: "val bull \<le> val tot" "val bear \<le> val tot" "rnd (val bull / val tot) + rnd (val bear / val tot) \<le> 1 + pow2 (- 50)"
      using close W pydouble_val by blast+
    obtain p r where pr: "f_div bull tot = Inr p" "rounds p (val bull / val tot)" "f_div bear tot = Inr r" "rounds r (val bear / val tot)"
      using f_arith_rounds(4) [OF _ fin] W pos by (metis less_irrefl)
    have "f_isfinite p \<and> val p = rnd (val bull / val tot) \<and> 0 \<le> val p \<and> val p \<le> 1"
      using rounds_between [OF pr(2) double_0 double_1] q(1) pos W by simp
    moreover have "f_isfinite r \<and> val r = rnd (val bear / val tot) \<and> 0 \<le> val r \<and> val r \<le> 1"
      using rounds_between [OF pr(4) double_0 double_1] q(2) pos W by simp
    ultimately show ?thesis using True pr(1,3) q(3) fin by (simp add: directional_def unit_float_def)
  next
    case False
    have half: "double (1 / 2)" using double_pow2 [of "- 1"] by (simp add: pow2_def)
    have u: "f_isfinite UNIFORM_PROBABILITY" "0 \<le> val UNIFORM_PROBABILITY" "val UNIFORM_PROBABILITY \<le> 1 / 2"
      using f_round_between [OF double_0 half, of "1 / 3"] f_round_finite by (simp_all add: UNIFORM_PROBABILITY_def)
    then show ?thesis using False fin by (simp add: directional_def unit_float_def add_increasing2)
  qed
qed

lemma init_integrity [simp]: "validate_integrity (ProbabilityAssessment_init a) = Inr ()"
  by (simp add: validate_integrity_def ProbabilityAssessment_init_def assessment_hashable_def Let_def)

lemma init_fields [simp]:
  "pa_bullish (ProbabilityAssessment_init a) = pa_bullish a" "pa_bearish (ProbabilityAssessment_init a) = pa_bearish a"
  "pa_neutral (ProbabilityAssessment_init a) = pa_neutral a" "pa_confidence (ProbabilityAssessment_init a) = pa_confidence a"
  "pa_uncertainty (ProbabilityAssessment_init a) = pa_uncertainty a" "pa_sample_size (ProbabilityAssessment_init a) = pa_sample_size a"
  by (simp_all add: ProbabilityAssessment_init_def Let_def)

lemma unit_max: "unit_float p \<Longrightarrow> unit_float q \<Longrightarrow> unit_float (f_max p q)"
  by (simp add: f_max_def)

lemma unit_complement: "unit_float p \<Longrightarrow> unit_float (f_sub (Flt 1) p)"
  using rounds_between [OF f_arith_rounds(2) [of "Flt 1" p] double_0 double_1] by (simp add: unit_float_def)

text \<open>
  C30: Every calculated assessment is a probability distribution: from any number of items up to \<open>2^51\<close>
  with confidences and weights in the unit interval an assessment is made whose digest matches its
  content; its three probabilities lie between 0 and 1 and add up to 1 to \<open>2^-49\<close> in exact arithmetic; and
  the validator can object to nothing but the mean confidence.
\<close>

theorem calculated_assessment_valid:
  assumes "list_all unit_item items" "length items \<le> 2 ^ 51"
  shows "\<exists>a. aggregate version context_id collection_id items = Inr a \<and> validate_integrity a = Inr ()
    \<and> unit_float (pa_bullish a) \<and> unit_float (pa_bearish a) \<and> unit_float (pa_neutral a)
    \<and> \<bar>val (pa_bullish a) + val (pa_bearish a) + val (pa_neutral a) - 1\<bar> \<le> pow2 (- 49)
    \<and> set (validate_assessment a) \<subseteq> {''confidence must be in [0, 1]''}"
proof -
  obtain bull bear neut where w: "direction_weights items = (bull, bear, neut)"
    "weight_upto (length items) bull" "weight_upto (length items) bear" "weight_upto (length items) neut"
    using direction_weights_upto [OF assms(1)] assms(2) by auto
  let ?tot = "f_add (f_add bull bear) neut"
  have "3 * length items \<le> 2 ^ 53" using assms(2) by simp
  from directional_close [OF w(2-4) this refl] obtain p q where pq: "directional bull bear ?tot = Inr (p, q)"
    "unit_float p" "unit_float q" "val p + val q \<le> 1 + pow2 (- 50)" "f_isfinite ?tot" by blast
  note r = neutral_rest_close [OF pq(2-4)]
  have "\<exists>x. (if f_less (Flt 0) ?tot then f_div neut ?tot else Inr UNIFORM_PROBABILITY) = Inr x"
    using f_div_total [OF pq(5)] pq(5) by (auto simp: f_less_finite)
  moreover have mean: "\<exists>x. mean_of xs = Inr x" if "length xs = length items" for xs
  proof (cases "items = []")
    case False
    have "double (of_nat (length items))" using assms(2) by (intro double_nat) simp
    then have "f_of_int (int (length items)) = Flt (of_nat (length items))" using round_double by (simp add: f_of_int_def)
    then show ?thesis using f_div_total [of "f_of_int (int (length items))"] False that by (simp add: mean_of_def)
  qed (use that in \<open>simp add: mean_of_def\<close>)
  ultimately obtain n c e where "(if f_less (Flt 0) ?tot then f_div neut ?tot else Inr UNIFORM_PROBABILITY) = Inr n"
    "mean_of (map dei_confidence items) = Inr c" "mean_of (map contribution items) = Inr e"
    by (metis length_map)
  then show ?thesis
    using pq(1-3) r sums_to_one_close [OF pq(2,3) r(1,2)] unit_float_within [OF pq(2)] unit_float_within [OF pq(3)]
      unit_float_within [OF r(1)] unit_float_within [OF unit_complement [OF unit_max [OF unit_max [OF pq(2,3)] r(1)]]]
    by (auto simp: aggregate_def w(1) Let_def validate_assessment_def)
qed

theorem calculated_assessment_valid_witness:
  "\<exists>a. aggregate ''v'' ''c'' ''e'' [\<lparr>dei_source_id = ''s'', dei_direction = Bullish, dei_weight = Flt 1, dei_confidence = Flt 1,
      dei_calibration_status = None, dei_distribution = None\<rparr>] = Inr a
    \<and> validate_integrity a = Inr () \<and> \<bar>val (pa_bullish a) + val (pa_bearish a) + val (pa_neutral a) - 1\<bar> \<le> pow2 (- 49)"
proof -
  let ?i = "\<lparr>dei_source_id = ''s'', dei_direction = Bullish, dei_weight = Flt 1, dei_confidence = Flt 1,
      dei_calibration_status = None, dei_distribution = None\<rparr>"
  have "unit_item ?i" by (simp add: unit_item_def unit_float_def)
  then show ?thesis using calculated_assessment_valid [of "[?i]" "''v''" "''c''" "''e''"] by fastforce
qed

section \<open>Unintended behaviour\<close>

text \<open>Probabilities that are not numbers pass the range and the sum test: every comparison with them is false.\<close>

lemma nan_probabilities_valid:
  "validate_assessment (a\<lparr>pa_bullish := Nan, pa_bearish := Nan, pa_neutral := Nan, pa_confidence := Flt 1, pa_uncertainty := Flt 0,
     pa_sample_size := 0\<rparr>) = []"
proof -
  have nan: "f_neg Nan = Nan" "f_add Nan v = Nan" "f_add v Nan = Nan" "f_abs Nan = Nan" "\<not> f_less v Nan" for v
    by (cases v; simp add: f_neg_def f_add_def f_abs_def f_signbit_def f_less_def)+
  have "f_sum [Nan, Nan, Nan] = Nan" by (simp add: f_sum_def f_lost_def f_sub_def nan Let_def)
  then have "sums_to_one [Nan, Nan, Nan]" by (simp add: sums_to_one_def f_sub_def nan)
  then show ?thesis by (simp add: validate_assessment_def within_unit_def f_less_def f_le_finite)
qed

end
