(* ===== verification/Decision_Pipeline.thy ===== *)
theory Decision_Pipeline
  imports Risk_Gate Risk_Artifacts Probability_Assessment
begin

text \<open>
  The decision pipeline (\<open>risk/adapters.py\<close>, \<open>action/report.py\<close>, \<open>decision_pipeline.py\<close>): a validated
  probability assessment is turned into a sizing request, sized, checked by the gate and reported for human
  review; with an account the whole chain is joined in a decision artifact.  The assessment is given as an
  object; the dictionary form, which parses timestamps, is left out.
\<close>

section \<open>From an assessment to a sizing request\<close>

text \<open>The table of directional fields; the neutral outcome has no entry.\<close>

definition direction_field :: "string \<Rightarrow> (ProbabilityAssessment \<Rightarrow> pyfloat) option" where
  "direction_field d =
     (if d = ''bullish'' then Some pa_bullish else if d = ''bearish'' then Some pa_bearish else None)"

definition risk_input_from_probability ::
  "ProbabilityAssessment \<Rightarrow> string \<Rightarrow> string \<Rightarrow> pyfloat \<Rightarrow> TradeStatistics \<Rightarrow> RiskPolicy \<Rightarrow> pyfloat option \<Rightarrow> string option
    \<Rightarrow> RiskInput result" where
  "risk_input_from_probability a asset direction equity statistics policy risk_per_unit explicit_status =
     rbind (validate_integrity a) (\<lambda>_.
       let errors = validate_assessment a; d = py_lower (py_strip direction)
       in if errors \<noteq> [] then Inl (ValueError (''invalid probability assessment: '' @ join_with ''; '' errors))
          else case direction_field d of
            None \<Rightarrow> Inl (ValueError (''direction must be '' @ py_repr_string ''bullish'' @ '' or '' @ py_repr_string ''bearish''))
          | Some probability_of \<Rightarrow>
              let status = (case explicit_status of Some s \<Rightarrow> Some s | None \<Rightarrow> pa_calibration_status a)
              in if (case status of None \<Rightarrow> False | Some s \<Rightarrow> blank s)
                 then Inl (ValueError ''probability_calibration_status must be non-empty when provided'')
                 else let request =
                   \<lparr>ri_asset = asset, ri_direction = d, ri_probability = probability_of a, ri_account_equity = equity,
                    ri_trade_statistics = statistics, ri_risk_policy = policy, ri_risk_per_unit = risk_per_unit,
                    ri_trace = \<lparr>tr_research_id = Some (pa_decision_context_id a),
                      tr_probability_method = Some (method_value (pa_method a)),
                      tr_probability_calculation_version = Some (pa_calculation_version a),
                      tr_probability_calibration_status = status, tr_assessment_hash = Some (pa_assessment_hash a)\<rparr>\<rparr>
                 in rbind (RiskInput_validate request) (\<lambda>_. Inr request))"

section \<open>The report\<close>

record PreTradeReport =
  ptr_schema_version :: string
  ptr_asset :: string
  ptr_direction :: string
  ptr_probability :: pyfloat
  ptr_risk_amount :: pyfloat
  ptr_risk_fraction :: pyfloat
  ptr_position_size :: "pyfloat option"
  ptr_research_valid :: bool
  ptr_risk_valid :: bool
  ptr_status :: string
  ptr_limitations :: "string list"
  ptr_governance_valid :: bool
  ptr_governance_status :: string
  ptr_violations :: "string list"
  ptr_decision_hash :: "string option"
  ptr_trace :: RiskTrace

definition PreTradeReport_to_dict :: "PreTradeReport \<Rightarrow> fjson" where
  "PreTradeReport_to_dict r =
     FObj [(''schema_version'', fstr (ptr_schema_version r)), (''asset'', fstr (ptr_asset r)),
       (''direction'', fstr (ptr_direction r)), (''probability'', FNum (ptr_probability r)),
       (''risk_amount'', FNum (ptr_risk_amount r)), (''risk_fraction'', FNum (ptr_risk_fraction r)),
       (''position_size'', fnum_opt (ptr_position_size r)), (''research_valid'', FJson (JBool (ptr_research_valid r))),
       (''risk_valid'', FJson (JBool (ptr_risk_valid r))), (''status'', fstr (ptr_status r)),
       (''research_id'', fopt (tr_research_id (ptr_trace r))), (''limitations'', fstrs (ptr_limitations r)),
       (''risk_governance_valid'', FJson (JBool (ptr_governance_valid r))),
       (''risk_governance_status'', fstr (ptr_governance_status r)), (''risk_violations'', fstrs (ptr_violations r)),
       (''risk_decision_hash'', fopt (ptr_decision_hash r)),
       (''probability_method'', fopt (tr_probability_method (ptr_trace r))),
       (''probability_calculation_version'', fopt (tr_probability_calculation_version (ptr_trace r))),
       (''probability_calibration_status'', fopt (tr_probability_calibration_status (ptr_trace r))),
       (''assessment_hash'', fopt (tr_assessment_hash (ptr_trace r)))]"

definition report_digest :: "PreTradeReport \<Rightarrow> string" where
  "report_digest r = deterministic_fhash (PreTradeReport_to_dict r)"

definition review_status :: "RiskCalculation \<Rightarrow> bool \<Rightarrow> RiskDecision option \<Rightarrow> string" where
  "review_status risk research_valid decision =
     (if \<not> research_valid then ''BLOCKED_RESEARCH_VALIDATION''
      else if rc_status risk \<noteq> ''CALCULATED'' then ''BLOCKED_RISK_CALCULATION''
      else if f_le (rc_risk_amount risk) (Flt 0) then ''NO_POSITIVE_RISK_BUDGET''
      else case decision of
        None \<Rightarrow> ''BLOCKED_RISK_GOVERNANCE''
      | Some d \<Rightarrow> if \<not> decision_allowed d then ''BLOCKED_RISK_GOVERNANCE'' else ''READY_FOR_HUMAN_REVIEW'')"

definition build_pre_trade_report :: "RiskCalculation \<Rightarrow> bool \<Rightarrow> string list \<Rightarrow> RiskDecision option \<Rightarrow> PreTradeReport" where
  "build_pre_trade_report risk research_valid limitations decision =
     \<lparr>ptr_schema_version = ''pretrade.v1'', ptr_asset = rc_asset risk, ptr_direction = rc_direction risk,
      ptr_probability = rc_probability risk, ptr_risk_amount = rc_risk_amount risk,
      ptr_risk_fraction = rc_final_risk_fraction risk, ptr_position_size = rc_position_size risk,
      ptr_research_valid = research_valid, ptr_risk_valid = (rc_status risk = ''CALCULATED''),
      ptr_status = review_status risk research_valid decision, ptr_limitations = limitations,
      ptr_governance_valid = (case decision of None \<Rightarrow> False | Some d \<Rightarrow> decision_allowed d),
      ptr_governance_status = (case decision of None \<Rightarrow> ''NOT_EVALUATED'' | Some d \<Rightarrow> rd_status d),
      ptr_violations = (case decision of None \<Rightarrow> [] | Some d \<Rightarrow> map (\<lambda>v. violation_value (vio_code v)) (rd_violations d)),
      ptr_decision_hash = map_option rd_audit_hash decision, ptr_trace = rc_trace risk\<rparr>"

section \<open>The pipeline\<close>

record DecisionPipelineInput =
  dp_assessment :: ProbabilityAssessment
  dp_asset :: string
  dp_direction :: string
  dp_account_equity :: pyfloat
  dp_trade_statistics :: TradeStatistics
  dp_research_valid :: bool
  dp_research_limitations :: "string list"
  dp_risk_policy :: RiskPolicy
  dp_risk_per_unit :: "pyfloat option"
  dp_calibration_status :: "string option"
  dp_risk_account :: "RiskAccountState option"
  dp_risk_limits :: RiskLimits
  dp_proposed_notional :: "pyfloat option"
  dp_strategy_state :: state_arg

definition resolved_calibration_status :: "DecisionPipelineInput \<Rightarrow> string option" where
  "resolved_calibration_status q =
     (case dp_calibration_status q of Some s \<Rightarrow> Some s | None \<Rightarrow> pa_calibration_status (dp_assessment q))"

definition pipeline_decision :: "DecisionPipelineInput \<Rightarrow> RiskCalculation \<Rightarrow> RiskDecision option result" where
  "pipeline_decision q risk =
     (case dp_risk_account q of
        None \<Rightarrow> Inr None
      | Some account \<Rightarrow>
          rbind (evaluate_pretrade_risk risk account (dp_risk_limits q) (dp_proposed_notional q) (dp_strategy_state q)
            (dp_research_valid q)) (\<lambda>d. Inr (Some d)))"

definition pipeline_request :: "DecisionPipelineInput \<Rightarrow> RiskInput result" where
  "pipeline_request q =
     risk_input_from_probability (dp_assessment q) (dp_asset q) (dp_direction q) (dp_account_equity q)
       (dp_trade_statistics q) (dp_risk_policy q) (dp_risk_per_unit q) (resolved_calibration_status q)"

definition pipeline_calculate :: "DecisionPipelineInput \<Rightarrow> (RiskCalculation \<times> RiskDecision option \<times> PreTradeReport) result" where
  "pipeline_calculate q =
     rbind (pipeline_request q) (\<lambda>request.
     rbind (calculate_risk request) (\<lambda>risk.
     rbind (pipeline_decision q risk) (\<lambda>decision.
     Inr (risk, decision, build_pre_trade_report risk (dp_research_valid q) (dp_research_limitations q) decision))))"

definition run_decision_pipeline :: "DecisionPipelineInput \<Rightarrow> PreTradeReport result" where
  "run_decision_pipeline q = rbind (pipeline_calculate q) (\<lambda>(_, _, report). Inr report)"

record DecisionRiskPipelineResult =
  dr_risk :: RiskCalculation
  dr_decision :: RiskDecision
  dr_report :: PreTradeReport
  dr_artifact :: RiskDecisionArtifact

definition run_decision_pipeline_with_artifact :: "DecisionPipelineInput \<Rightarrow> DecisionRiskPipelineResult result" where
  "run_decision_pipeline_with_artifact q =
     rbind (pipeline_calculate q) (\<lambda>(risk, decision, report).
       case decision of
         None \<Rightarrow> Inl (ValueError ''risk account is required for governed risk artifact creation'')
       | Some d \<Rightarrow>
           rbind (build_artifact risk d (Report_Object (report_digest report))) (\<lambda>artifact.
           Inr \<lparr>dr_risk = risk, dr_decision = d, dr_report = report, dr_artifact = artifact\<rparr>))"

section \<open>The chain of records\<close>

text \<open>What the adapter takes over from the assessment.\<close>

lemma request_from_assessment:
  assumes "pipeline_request q = Inr r"
  shows "pa_assessment_hash (dp_assessment q) = deterministic_fhash (assessment_hashable (dp_assessment q))"
    "validate_assessment (dp_assessment q) = []" "tr_assessment_hash (ri_trace r) = Some (pa_assessment_hash (dp_assessment q))"
    "RiskInput_validate r = Inr ()" "ri_account_equity r = dp_account_equity q" "ri_trade_statistics r = dp_trade_statistics q"
    "ri_risk_policy r = dp_risk_policy q" "ri_risk_per_unit r = dp_risk_per_unit q"
    "direction_field (ri_direction r) = Some f \<Longrightarrow> ri_probability r = f (dp_assessment q)"
    "ri_direction r = py_lower (py_strip (dp_direction q))" "direction_field (ri_direction r) \<noteq> None"
  using assms unfolding pipeline_request_def risk_input_from_probability_def
  by (auto simp: rbind_Inr Let_def validate_integrity_def split: if_splits option.splits)

lemma calculation_trace: "calculate_risk r = Inr c \<Longrightarrow> rc_trace c = ri_trace r \<and> rc_status c = ''CALCULATED'' \<and> rc_probability c = ri_probability r
    \<and> rc_direction c = ri_direction r"
  by (auto simp: calculate_risk_def rbind_Inr Let_def)

lemma pipeline_calculate_stages:
  assumes "pipeline_calculate q = Inr (risk, decision, report)"
  obtains r where "pipeline_request q = Inr r" "calculate_risk r = Inr risk" "pipeline_decision q risk = Inr decision"
    "report = build_pre_trade_report risk (dp_research_valid q) (dp_research_limitations q) decision"
  using assms by (auto simp: pipeline_calculate_def rbind_Inr)

lemma with_artifact_stages:
  assumes "run_decision_pipeline_with_artifact q = Inr res"
  obtains r where "pipeline_request q = Inr r" "calculate_risk r = Inr (dr_risk res)"
    "pipeline_decision q (dr_risk res) = Inr (Some (dr_decision res))"
    "dr_report res = build_pre_trade_report (dr_risk res) (dp_research_valid q) (dp_research_limitations q) (Some (dr_decision res))"
    "build_artifact (dr_risk res) (dr_decision res) (Report_Object (report_digest (dr_report res))) = Inr (dr_artifact res)"
proof -
  obtain risk decision report where calc: "pipeline_calculate q = Inr (risk, decision, report)"
    using assms by (cases "pipeline_calculate q") (auto simp: run_decision_pipeline_with_artifact_def)
  then obtain d where d: "decision = Some d"
    using assms by (cases decision) (simp_all add: run_decision_pipeline_with_artifact_def)
  have "dr_risk res = risk \<and> dr_decision res = d \<and> dr_report res = report
      \<and> build_artifact risk d (Report_Object (report_digest report)) = Inr (dr_artifact res)"
    using assms unfolding run_decision_pipeline_with_artifact_def calc d by (auto simp: rbind_Inr)
  then show ?thesis using that pipeline_calculate_stages [OF calc [unfolded d]] by metis
qed

lemma review_ready:
  "review_status risk research_valid decision = ''READY_FOR_HUMAN_REVIEW'' \<longleftrightarrow>
     research_valid \<and> rc_status risk = ''CALCULATED'' \<and> \<not> f_le (rc_risk_amount risk) (Flt 0) \<and> (\<exists>d. decision = Some d \<and> decision_allowed d)"
  by (simp add: review_status_def split: option.splits)

text \<open>
  C7: A governed decision is one linked chain of records: when the pipeline returns its result, the
  assessment passed its validation and its digest is the digest of its content; the artifact verifies and
  names the digests of that very assessment, of the calculation, of the gate's decision and of the report;
  the report repeats the decision's and the assessment's digest and every violation; and it is ready for
  review exactly when the research is valid, the gate allowed the trade and the amount is not at most zero.
\<close>

theorem governed_chain_linked:
  assumes "run_decision_pipeline_with_artifact q = Inr res"
  defines "a \<equiv> dr_artifact res" and "report \<equiv> dr_report res" and "assessment \<equiv> dp_assessment q"
  shows "validate_assessment assessment = []
    \<and> pa_assessment_hash assessment = deterministic_fhash (assessment_hashable assessment)
    \<and> verify_artifact a
    \<and> ra_assessment_hash a = pa_assessment_hash assessment
    \<and> ra_risk_calculation_hash a = deterministic_fhash (RiskCalculation_to_dict (dr_risk res))
    \<and> ra_risk_governance_hash a = rd_audit_hash (dr_decision res)
    \<and> ra_report_hash a = report_digest report
    \<and> ptr_decision_hash report = Some (ra_risk_governance_hash a)
    \<and> tr_assessment_hash (ptr_trace report) = Some (ra_assessment_hash a)
    \<and> ptr_violations report = map (\<lambda>v. violation_value (vio_code v)) (rd_violations (dr_decision res))
    \<and> (ptr_status report = ''READY_FOR_HUMAN_REVIEW'' \<longleftrightarrow>
        dp_research_valid q \<and> \<not> f_le (rc_risk_amount (dr_risk res)) (Flt 0) \<and> decision_allowed (dr_decision res))"
proof -
  from with_artifact_stages [OF assms(1)] obtain r where
    calc: "pipeline_request q = Inr r" "calculate_risk r = Inr (dr_risk res)"
    and report: "report = build_pre_trade_report (dr_risk res) (dp_research_valid q) (dp_research_limitations q) (Some (dr_decision res))"
    and art: "build_artifact (dr_risk res) (dr_decision res) (Report_Object (report_digest report)) = Inr a"
    unfolding a_def report_def by metis
  note req = request_from_assessment [OF calc(1), folded assessment_def] and trace = calculation_trace [OF calc(2)]
    and built = build_artifact_verified [OF art]
  have linked: "tr_assessment_hash (rc_trace (dr_risk res)) = Some (pa_assessment_hash assessment)" using req(3) trace by simp
  then have "ra_assessment_hash a = pa_assessment_hash assessment" using built(2) by simp
  moreover have "ra_risk_calculation_hash a = deterministic_fhash (RiskCalculation_to_dict (dr_risk res))"
    using built(5) unfolding fjson_hash_total by simp
  moreover have "ra_report_hash a = report_digest report" using built(4) by (simp add: report_hash_of_def)
  moreover have "ptr_decision_hash report = Some (ra_risk_governance_hash a)" "ptr_trace report = rc_trace (dr_risk res)"
    "ptr_violations report = map (\<lambda>v. violation_value (vio_code v)) (rd_violations (dr_decision res))"
    "ptr_status report = review_status (dr_risk res) (dp_research_valid q) (Some (dr_decision res))"
    unfolding report using built(3) by (simp_all add: build_pre_trade_report_def)
  ultimately show ?thesis using req(1,2) linked built(1,3) trace by (simp add: review_ready)
qed

section \<open>What a report ready for review means\<close>

definition finite_pipeline :: "DecisionPipelineInput \<Rightarrow> bool" where
  "finite_pipeline q \<longleftrightarrow>
     list_all (\<lambda>a. f_isfinite a \<and> pydouble a)
       ([pa_bullish (dp_assessment q), pa_bearish (dp_assessment q), dp_account_equity q,
         average_win (dp_trade_statistics q), average_loss (dp_trade_statistics q), fractional_kelly (dp_risk_policy q),
         max_risk_fraction (dp_risk_policy q), max_position_fraction (dp_risk_policy q)]
        @ (case dp_risk_per_unit q of None \<Rightarrow> [] | Some u \<Rightarrow> [u]))"

lemma direction_field_Some: "direction_field d = Some f \<Longrightarrow> d = ''bullish'' \<and> f = pa_bullish \<or> d = ''bearish'' \<and> f = pa_bearish"
  by (auto simp: direction_field_def split: if_splits)

lemma pipeline_request_finite:
  assumes "pipeline_request q = Inr r" "finite_pipeline q"
  shows "finite_request r"
proof -
  note req = request_from_assessment [OF assms(1)]
  obtain f where f: "direction_field (ri_direction r) = Some f" using req(11) by blast
  have "f_isfinite (ri_probability r) \<and> pydouble (ri_probability r)"
    using req(9) [OF f] direction_field_Some [OF f] assms(2) by (auto simp: finite_pipeline_def)
  then show ?thesis using assms(2) req(5-8) by (simp add: finite_request_def finite_pipeline_def)
qed

text \<open>A report in the ready state, traced back to the sizing and the gate.\<close>

lemma ready_stages:
  assumes "run_decision_pipeline q = Inr report" "ptr_status report = ''READY_FOR_HUMAN_REVIEW''"
  obtains r risk account d where "pipeline_request q = Inr r" "calculate_risk r = Inr risk"
    "report = build_pre_trade_report risk (dp_research_valid q) (dp_research_limitations q) (Some d)"
    "dp_risk_account q = Some account" "rd_status d = ''PASS''" "\<not> f_le (rc_risk_amount risk) (Flt 0)"
    "evaluate_pretrade_risk risk account (dp_risk_limits q) (dp_proposed_notional q) (dp_strategy_state q) (dp_research_valid q) = Inr d"
proof -
  obtain risk decision where "pipeline_calculate q = Inr (risk, decision, report)"
    using assms(1) by (auto simp: run_decision_pipeline_def rbind_Inr)
  then obtain r where r: "pipeline_request q = Inr r" "calculate_risk r = Inr risk" "pipeline_decision q risk = Inr decision"
    "report = build_pre_trade_report risk (dp_research_valid q) (dp_research_limitations q) decision"
    using pipeline_calculate_stages by metis
  have "review_status risk (dp_research_valid q) decision = ''READY_FOR_HUMAN_REVIEW''"
    using assms(2) r(4) by (simp add: build_pre_trade_report_def)
  then obtain d where d: "decision = Some d" "decision_allowed d" "\<not> f_le (rc_risk_amount risk) (Flt 0)"
    unfolding review_ready by blast
  then obtain account where "dp_risk_account q = Some account"
    "evaluate_pretrade_risk risk account (dp_risk_limits q) (dp_proposed_notional q) (dp_strategy_state q) (dp_research_valid q) = Inr d"
    using r(3) by (auto simp: pipeline_decision_def rbind_Inr split: option.splits)
  then show ?thesis using that r d by (simp add: decision_allowed_def)
qed

text \<open>
  C6: A report that is ready for review is a trade worth taking within its limits, in exact arithmetic: for
  finite numbers the side is one of the two directions and its probability is the assessment's own; its
  expected payoff is strictly positive; the stake is a positive amount, no larger than the equity, from a
  fraction no larger than the policy allows; an account was given and its kill switch is off; research and
  strategy state permit trading; and losses and exposures with the trade are strictly within every limit.
\<close>

theorem ready_report_sound:
  assumes "run_decision_pipeline q = Inr report" "ptr_status report = ''READY_FOR_HUMAN_REVIEW''"
    and "finite_pipeline q" "case dp_proposed_notional q of None \<Rightarrow> True | Some n \<Rightarrow> pydouble n"
    and "case dp_risk_account q of None \<Rightarrow> True | Some account \<Rightarrow> gate_numbers account (dp_risk_limits q)"
  defines "p \<equiv> val (ptr_probability report)" and "stake \<equiv> val (ptr_risk_amount report)"
  shows "(ptr_direction report = ''bullish'' \<and> ptr_probability report = pa_bullish (dp_assessment q)
       \<or> ptr_direction report = ''bearish'' \<and> ptr_probability report = pa_bearish (dp_assessment q))
    \<and> (1 - p) * val (average_loss (dp_trade_statistics q)) < p * val (average_win (dp_trade_statistics q))
    \<and> 0 < stake \<and> stake \<le> val (dp_account_equity q)
    \<and> val (ptr_risk_fraction report) \<le> val (max_risk_fraction (dp_risk_policy q))
    \<and> dp_research_valid q \<and> (\<exists>s \<in> allowed_risk_states. coerce_strategy_state (dp_strategy_state q) = Inr s)
    \<and> (\<exists>account x. dp_risk_account q = Some account \<and> \<not> kill_switch_active account \<and> dp_proposed_notional q = Some x \<and> 0 < val x
        \<and> strictly_within account (dp_risk_limits q) stake (val x))"
proof -
  obtain r risk account d where r: "pipeline_request q = Inr r" "calculate_risk r = Inr risk"
    and report: "report = build_pre_trade_report risk (dp_research_valid q) (dp_research_limitations q) (Some d)"
    and account: "dp_risk_account q = Some account" and pass: "rd_status d = ''PASS''" and pos: "\<not> f_le (rc_risk_amount risk) (Flt 0)"
    and gate: "evaluate_pretrade_risk risk account (dp_risk_limits q) (dp_proposed_notional q) (dp_strategy_state q) (dp_research_valid q) = Inr d"
    by (rule ready_stages [OF assms(1,2)])
  note req = request_from_assessment [OF r(1)] and fin = pipeline_request_finite [OF r(1) assms(3)]
  note amount = sizing_amount [OF r(2) fin] and fraction = sizing_fraction [OF r(2) fin] and trace = calculation_trace [OF r(2)]
  have eqs: "p = val (ri_probability r)" "stake = val (rc_risk_amount risk)" "ptr_direction report = ri_direction r"
    "ptr_probability report = ri_probability r" "ptr_risk_fraction report = rc_final_risk_fraction risk"
    using trace by (simp_all add: p_def stake_def report build_pre_trade_report_def)
  obtain f where f: "direction_field (ri_direction r) = Some f" using req(11) by blast
  have stake: "0 < val (rc_risk_amount risk)" using pos amount(1) by (simp add: f_le_finite)
  then have "(1 - p) * val (average_loss (dp_trade_statistics q)) < p * val (average_win (dp_trade_statistics q))"
    using sizing_no_edge(2) [OF r(2) fin] req(6) eqs(1) by (metis less_irrefl not_less)
  moreover have "pydouble (rc_risk_amount risk)" by (rule sizing_amount_double [OF r(2) fin])
  note gate_pass_within [OF gate pass _ this assms(4)]
  ultimately show ?thesis
    using assms(5) account stake amount(3) fraction(3) req(5,7) req(9) [OF f] direction_field_Some [OF f] eqs by auto
qed

section \<open>A complete run\<close>

definition sample_assessment :: ProbabilityAssessment where
  "sample_assessment =
     ProbabilityAssessment_init
       \<lparr>pa_decision_context_id = ''ctx'', pa_evidence_collection_id = ''ev'', pa_bullish = Flt (1/2), pa_bearish = Flt (1/4),
        pa_neutral = Flt (1/4), pa_confidence = Flt (1/2), pa_uncertainty = Flt (1/2), pa_evidence_strength = Flt (1/2),
        pa_historical_consistency = Flt (1/2), pa_sample_size = 3, pa_method = WEIGHTED_EVIDENCE,
        pa_calculation_version = ''PROBABILITY_V1'', pa_limitations = [], pa_ontology_tags = [], pa_calibration_status = None,
        pa_assessment_hash = ''''\<rparr>"

definition sample_pipeline :: DecisionPipelineInput where
  "sample_pipeline =
     \<lparr>dp_assessment = sample_assessment, dp_asset = ''XAUUSD'', dp_direction = ''bullish'', dp_account_equity = Flt 1024,
      dp_trade_statistics = \<lparr>average_win = Flt 2, average_loss = Flt 1, ts_sample_size = 10\<rparr>, dp_research_valid = True,
      dp_research_limitations = [],
      dp_risk_policy = \<lparr>fractional_kelly = Flt (1/4), max_risk_fraction = Flt (1/128), max_position_fraction = Flt 1\<rparr>,
      dp_risk_per_unit = Some (Flt 2), dp_calibration_status = None, dp_risk_account = Some sample_account,
      dp_risk_limits = sample_limits, dp_proposed_notional = Some (Flt 512), dp_strategy_state = Risk_State Risk_ACTIVE\<rparr>"

definition sample_pipeline_request :: RiskInput where
  "sample_pipeline_request =
     sample_request_input\<lparr>ri_direction := ''bullish'',
       ri_trace := \<lparr>tr_research_id = Some ''ctx'', tr_probability_method = Some ''WeightedEvidence'',
         tr_probability_calculation_version = Some ''PROBABILITY_V1'', tr_probability_calibration_status = None,
         tr_assessment_hash = Some (pa_assessment_hash sample_assessment)\<rparr>\<rparr>"

lemma sample_assessment_valid: "validate_integrity sample_assessment = Inr ()" "validate_assessment sample_assessment = []"
proof -
  show "validate_integrity sample_assessment = Inr ()" by (simp add: sample_assessment_def)
  have "sums_to_one [Flt (1/2), Flt (1/4), Flt (1/4)]"
    by (rule sums_to_one_close) (simp_all add: unit_float_def)
  then show "validate_assessment sample_assessment = []"
    by (simp add: validate_assessment_def sample_assessment_def within_unit_def f_less_finite f_le_finite)
qed

lemma sample_direction: "py_lower (py_strip ''bullish'') = ''bullish''" "\<not> blank ''bullish''"
  by code_simp+

lemma sample_pipeline_request: "pipeline_request sample_pipeline = Inr sample_pipeline_request"
proof -
  have valid: "RiskInput_validate sample_pipeline_request = Inr ()"
    using sample_valid sample_direction(2) by (simp add: sample_pipeline_request_def sample_request_input_def RiskInput_validate_def split: if_splits)
  have fields: "pa_bullish sample_assessment = Flt (1/2)" "pa_decision_context_id sample_assessment = ''ctx''"
    "pa_method sample_assessment = WEIGHTED_EVIDENCE" "pa_calculation_version sample_assessment = ''PROBABILITY_V1''"
    "pa_calibration_status sample_assessment = None"
    by (simp_all add: sample_assessment_def ProbabilityAssessment_init_def Let_def)
  show ?thesis
    using valid unfolding sample_pipeline_request_def sample_request_input_def
    by (simp add: pipeline_request_def risk_input_from_probability_def sample_pipeline_def sample_assessment_valid
        sample_direction direction_field_def resolved_calibration_status_def fields)
qed

lemma sample_pipeline_sizing: "\<exists>c. calculate_risk sample_pipeline_request = Inr c \<and> rc_risk_amount c = Flt 8"
  unfolding calculate_risk_def request_from_assessment(4) [OF sample_pipeline_request]
  by (simp add: sample_pipeline_request_def sample_request_input_def win_loss_ratio_def TradeStatistics_validate_def f_le_finite
      sample_arith sample_kelly position_size_def Let_def)

lemma map_sum_Inr: "map_sum id f x = Inr y \<longleftrightarrow> (\<exists>z. x = Inr z \<and> f z = y)"
  by (cases x) auto

lemma audit_hash_nonempty: "evaluate_pretrade_risk c a l n s v = Inr d \<Longrightarrow> rd_audit_hash d \<noteq> []"
  by (elim gate_stages) (auto simp: with_audit_hash_def rbind_Inr fjson_sha256_def map_sum_Inr)

lemma sample_pipeline_result:
  "\<exists>res. run_decision_pipeline_with_artifact sample_pipeline = Inr res \<and> run_decision_pipeline sample_pipeline = Inr (dr_report res)
    \<and> ptr_status (dr_report res) = ''READY_FOR_HUMAN_REVIEW''"
proof -
  obtain c where c: "calculate_risk sample_pipeline_request = Inr c" "rc_risk_amount c = Flt 8" using sample_pipeline_sizing by blast
  have fin: "finite_request sample_pipeline_request" using sample_finite by (simp add: finite_request_def sample_pipeline_request_def)
  have same: "ri_account_equity sample_pipeline_request = current_equity sample_account"
    by (simp add: sample_pipeline_request_def sample_request_input_def sample_account_def)
  have "\<exists>d. evaluate_pretrade_risk c sample_account sample_limits (Some (Flt 512)) (Risk_State Risk_ACTIVE) True = Inr d
      \<and> rd_status d = ''PASS'' \<and> decision_allowed d"
    by (rule gate_accepts [where state = Risk_ACTIVE, OF sized_fits [OF c(1) fin same] sample_account_ok sample_limits_ok(1,2)])
      (use c(2) sample_limits_ok(3) in \<open>simp_all add: sample_doubles allowed_risk_states_def\<close>)
  then obtain d where d: "evaluate_pretrade_risk c sample_account sample_limits (Some (Flt 512)) (Risk_State Risk_ACTIVE) True = Inr d"
    "decision_allowed d" by blast
  define report where "report = build_pre_trade_report c True [] (Some d)"
  have calc: "pipeline_calculate sample_pipeline = Inr (c, Some d, report)"
    using c(1) d(1) unfolding pipeline_calculate_def sample_pipeline_request
    by (simp add: pipeline_decision_def sample_pipeline_def report_def)
  have trace: "tr_assessment_hash (rc_trace c) = Some (pa_assessment_hash sample_assessment)" "pa_assessment_hash sample_assessment \<noteq> []"
    using calculation_trace [OF c(1)] request_from_assessment(1) [OF sample_pipeline_request]
    by (simp_all add: sample_pipeline_request_def sample_pipeline_def)
  obtain a where a: "build_artifact c d (Report_Object (report_digest report)) = Inr a"
    using trace audit_hash_nonempty [OF d(1)]
    by (simp add: build_artifact_def report_hash_of_def report_digest_def fjson_hash_total Let_def)
  have "ptr_status report = ''READY_FOR_HUMAN_REVIEW''"
    using calculation_trace [OF c(1)] c(2) d(2) by (simp add: report_def build_pre_trade_report_def review_ready f_le_finite)
  then show ?thesis using a by (simp add: run_decision_pipeline_with_artifact_def run_decision_pipeline_def calc)
qed

theorem governed_chain_linked_witness:
  "\<exists>res. run_decision_pipeline_with_artifact sample_pipeline = Inr res \<and> verify_artifact (dr_artifact res)
    \<and> ra_assessment_hash (dr_artifact res) = pa_assessment_hash sample_assessment"
proof -
  obtain res where res: "run_decision_pipeline_with_artifact sample_pipeline = Inr res" using sample_pipeline_result by blast
  show ?thesis using governed_chain_linked [OF res] res by (auto simp: sample_pipeline_def)
qed

theorem ready_report_sound_witness:
  "\<exists>report. run_decision_pipeline sample_pipeline = Inr report \<and> ptr_status report = ''READY_FOR_HUMAN_REVIEW''
    \<and> (1 - val (ptr_probability report)) * 1 < val (ptr_probability report) * 2 \<and> 0 < val (ptr_risk_amount report)"
proof -
  obtain report where r: "run_decision_pipeline sample_pipeline = Inr report" "ptr_status report = ''READY_FOR_HUMAN_REVIEW''"
    using sample_pipeline_result by blast
  have "finite_pipeline sample_pipeline"
    by (simp add: finite_pipeline_def sample_pipeline_def sample_assessment_def sample_doubles)
  from ready_report_sound [OF r this] have "(1 - val (ptr_probability report)) * 1 < val (ptr_probability report) * 2 \<and> 0 < val (ptr_risk_amount report)"
    using sample_numbers by (simp add: sample_pipeline_def sample_doubles)
  then show ?thesis using r by blast
qed

end
