(* ===== verification/Backtest_Execution.thy ===== *)
theory Backtest_Execution
  imports Float_Text
begin

text \<open>
  The execution simulation of the backtest (\<open>quant_engine/models/legacy_models.py\<close>,
  \<open>quant_engine/execution.py\<close>): signals become market orders that fill at once at a price shifted by the
  slippage; positions, trades, cash and the equity curve are kept on floats as Python computes them.
\<close>

section \<open>Numbers from text, rounding to ten decimals\<close>

text \<open>\<open>float(text)\<close>: a sign, then infinity, not-a-number or a decimal with optional fraction and exponent.\<close>

definition parse_signed :: "string \<Rightarrow> bool \<times> string" where
  "parse_signed s =
     (case s of c # cs \<Rightarrow> if c = CHR ''-'' then (True, cs) else if c = CHR ''+'' then (False, cs) else (False, s)
      | [] \<Rightarrow> (False, []))"

definition parse_part :: "string \<Rightarrow> nat option" where
  "parse_part s = (if s = [] then Some 0 else parse_digits False 0 s)"

definition parse_decimal :: "string \<Rightarrow> rat option" where
  "parse_decimal body =
     (case py_partition (CHR ''e'') body of (mantissa, has_exponent, ex) \<Rightarrow>
        (case py_partition (CHR ''.'') mantissa of (whole, _, fraction) \<Rightarrow>
           (case parse_signed ex of (exponent_neg, exponent_digits) \<Rightarrow>
              (case (parse_part whole, parse_part fraction,
                     if has_exponent then parse_digits False 0 exponent_digits else Some 0) of
                 (Some w, Some f, Some e) \<Rightarrow>
                   if whole = [] \<and> fraction = [] then None
                   else Some ((of_nat w + of_nat f / 10 ^ length (filter (\<lambda>c. c \<noteq> CHR ''_'') fraction))
                          * pow10 (if exponent_neg then - int e else int e))
               | _ \<Rightarrow> None))))"

definition py_float :: "string \<Rightarrow> pyfloat result" where
  "py_float s =
     (case parse_signed (py_lower (py_strip s)) of (neg, body) \<Rightarrow>
        if body \<in> {''inf'', ''infinity''} then Inr (Infinite neg)
        else if body = ''nan'' then Inr Nan
        else case parse_decimal body of
          None \<Rightarrow> Inl (ValueError (''could not convert string to float: '' @ py_repr_string s))
        | Some x \<Rightarrow> Inr (if neg then f_neg (f_round x) else f_round x))"

text \<open>\<open>round(x, 10)\<close>: the closest multiple of \<open>10^-10\<close>, as a float.\<close>

definition f_round10 :: "pyfloat \<Rightarrow> pyfloat" where
  "f_round10 a =
     (case a of
        Flt q \<Rightarrow> let n = half_even (q * 10 ^ 10) in if n = 0 then f_zero (q < 0) else f_round (of_int n / 10 ^ 10)
      | _ \<Rightarrow> a)"

section \<open>Signals, orders, fills, trades\<close>

datatype OrderSide = BUY | SELL

datatype OrderType = MARKET | LIMIT

datatype OrderStatus = PENDING | FILLED | CANCELLED

fun side_value :: "OrderSide \<Rightarrow> string" where
  "side_value BUY = ''BUY''"
| "side_value SELL = ''SELL''"

fun order_type_value :: "OrderType \<Rightarrow> string" where
  "order_type_value MARKET = ''MARKET''"
| "order_type_value LIMIT = ''LIMIT''"

fun order_status_value :: "OrderStatus \<Rightarrow> string" where
  "order_status_value PENDING = ''PENDING''"
| "order_status_value FILLED = ''FILLED''"
| "order_status_value CANCELLED = ''CANCELLED''"

record Signal =
  sig_bar_index :: int
  sig_timestamp :: string
  sig_side :: OrderSide
  sig_confidence :: pyfloat
  sig_metadata :: "(string \<times> fjson) list"

record Order =
  ord_signal_index :: nat
  ord_side :: OrderSide
  ord_type :: OrderType
  ord_quantity :: pyfloat
  ord_limit_price :: "pyfloat option"
  ord_status :: OrderStatus
  ord_bar_index :: nat
  ord_timestamp :: string

record OrderFill =
  fill_order :: Order
  fill_price :: pyfloat
  fill_quantity :: pyfloat
  fill_commission :: pyfloat
  fill_slippage :: pyfloat
  fill_bar_index :: nat
  fill_timestamp :: string

record Position =
  pos_symbol :: string
  pos_side :: OrderSide
  pos_quantity :: pyfloat
  pos_entry_price :: pyfloat
  pos_current_price :: pyfloat
  pos_unrealized_pnl :: pyfloat
  pos_realized_pnl :: pyfloat
  pos_bar_index :: nat
  pos_timestamp :: string

record Trade =
  trade_entry :: OrderFill
  trade_exit :: OrderFill
  trade_pnl :: pyfloat
  trade_return_pct :: pyfloat
  trade_bars_held :: int
  trade_entry_bar_index :: nat
  trade_exit_bar_index :: nat

definition jnat :: "nat \<Rightarrow> fjson" where
  "jnat n = FJson (JInt (int n))"

definition Signal_to_dict :: "Signal \<Rightarrow> fjson" where
  "Signal_to_dict s =
     FObj [(''bar_index'', FJson (JInt (sig_bar_index s))), (''timestamp'', fstr (sig_timestamp s)),
       (''side'', fstr (side_value (sig_side s))), (''confidence'', FNum (sig_confidence s)), (''metadata'', FObj (sig_metadata s))]"

definition Order_to_dict :: "Order \<Rightarrow> fjson" where
  "Order_to_dict r =
     FObj [(''signal_index'', jnat (ord_signal_index r)), (''side'', fstr (side_value (ord_side r))),
       (''order_type'', fstr (order_type_value (ord_type r))), (''quantity'', FNum (ord_quantity r)),
       (''limit_price'', fnum_opt (ord_limit_price r)), (''status'', fstr (order_status_value (ord_status r))),
       (''bar_index'', jnat (ord_bar_index r)), (''timestamp'', fstr (ord_timestamp r))]"

definition OrderFill_to_dict :: "OrderFill \<Rightarrow> fjson" where
  "OrderFill_to_dict f =
     FObj [(''order'', Order_to_dict (fill_order f)), (''fill_price'', FNum (fill_price f)), (''fill_quantity'', FNum (fill_quantity f)),
       (''commission'', FNum (fill_commission f)), (''slippage'', FNum (fill_slippage f)), (''bar_index'', jnat (fill_bar_index f)),
       (''timestamp'', fstr (fill_timestamp f))]"

definition Position_to_dict :: "Position \<Rightarrow> fjson" where
  "Position_to_dict p =
     FObj [(''symbol'', fstr (pos_symbol p)), (''side'', fstr (side_value (pos_side p))), (''quantity'', FNum (pos_quantity p)),
       (''entry_price'', FNum (pos_entry_price p)), (''current_price'', FNum (pos_current_price p)),
       (''unrealized_pnl'', FNum (pos_unrealized_pnl p)), (''realized_pnl'', FNum (pos_realized_pnl p)),
       (''bar_index'', jnat (pos_bar_index p)), (''timestamp'', fstr (pos_timestamp p))]"

definition Trade_to_dict :: "Trade \<Rightarrow> fjson" where
  "Trade_to_dict t =
     FObj [(''entry_fill'', OrderFill_to_dict (trade_entry t)), (''exit_fill'', OrderFill_to_dict (trade_exit t)),
       (''pnl'', FNum (trade_pnl t)), (''return_pct'', FNum (trade_return_pct t)), (''bars_held'', FJson (JInt (trade_bars_held t))),
       (''entry_bar_index'', jnat (trade_entry_bar_index t)), (''exit_bar_index'', jnat (trade_exit_bar_index t))]"

section \<open>The layer\<close>

datatype cost_kind = Fixed_Cost | Pct_Cost

text \<open>\<open>parse_cost_spec\<close> with its default of 0.\<close>

definition parse_cost_spec :: "string option \<Rightarrow> (cost_kind \<times> pyfloat) result" where
  "parse_cost_spec spec =
     (case spec of
        None \<Rightarrow> Inr (Fixed_Cost, Flt 0)
      | Some t \<Rightarrow>
          if t = [] then Inr (Fixed_Cost, Flt 0)
          else case py_partition (CHR '':'') t of (kind, has_kind, amount) \<Rightarrow>
            if \<not> has_kind then rbind (py_float t) (\<lambda>v. Inr (Fixed_Cost, v))
            else let k = py_lower (py_strip kind)
              in if k = ''fixed'' then rbind (py_float amount) (\<lambda>v. Inr (Fixed_Cost, v))
                 else if k = ''pct'' then rbind (py_float amount) (\<lambda>v. Inr (Pct_Cost, v))
                 else Inl (ValueError (''Unsupported cost spec kind '' @ [CHR 0x27] @ k @ [CHR 0x27] @ ''. Expected ''
                   @ [CHR 0x27] @ ''fixed'' @ [CHR 0x27] @ '' or '' @ [CHR 0x27] @ ''pct'' @ [CHR 0x27] @ ''.'')))"

record ExecutionConfig =
  xc_initial_capital :: pyfloat
  xc_commission_spec :: string
  xc_slippage_spec :: string
  xc_symbol :: string
  xc_position_size :: pyfloat
  xc_commission :: "cost_kind \<times> pyfloat"
  xc_slippage :: "cost_kind \<times> pyfloat"

record execution_layer =
  xl_config :: ExecutionConfig
  xl_cash :: pyfloat
  xl_position_qty :: pyfloat
  xl_entry_price :: pyfloat
  xl_entry_commission :: pyfloat
  xl_entry_bar_index :: "nat option"
  xl_entry_fill :: "OrderFill option"
  xl_realized_pnl :: pyfloat
  xl_total_commission :: pyfloat
  xl_total_slippage_cost :: pyfloat
  xl_signals :: "fjson list"
  xl_orders :: "Order list"
  xl_fills :: "OrderFill list"
  xl_trades :: "Trade list"
  xl_equity_curve :: "pyfloat list"
  xl_position_snapshots :: "Position list"
  xl_signal_counter :: nat

definition new_layer :: "ExecutionConfig \<Rightarrow> execution_layer" where
  "new_layer c =
     \<lparr>xl_config = c, xl_cash = xc_initial_capital c, xl_position_qty = Flt 0, xl_entry_price = Flt 0, xl_entry_commission = Flt 0,
      xl_entry_bar_index = None, xl_entry_fill = None, xl_realized_pnl = Flt 0, xl_total_commission = Flt 0,
      xl_total_slippage_cost = Flt 0, xl_signals = [], xl_orders = [], xl_fills = [], xl_trades = [], xl_equity_curve = [],
      xl_position_snapshots = [], xl_signal_counter = 0\<rparr>"

definition ExecutionSimulationLayer_init :: "pyfloat \<Rightarrow> string \<Rightarrow> string \<Rightarrow> string \<Rightarrow> pyfloat \<Rightarrow> execution_layer result" where
  "ExecutionSimulationLayer_init initial_capital commission slippage symbol position_size =
     rbind (parse_cost_spec (Some commission)) (\<lambda>c.
     rbind (parse_cost_spec (Some slippage)) (\<lambda>s.
     Inr (new_layer \<lparr>xc_initial_capital = initial_capital, xc_commission_spec = commission, xc_slippage_spec = slippage,
       xc_symbol = symbol, xc_position_size = position_size, xc_commission = c, xc_slippage = s\<rparr>)))"

definition commission_for :: "ExecutionConfig \<Rightarrow> pyfloat \<Rightarrow> pyfloat \<Rightarrow> pyfloat" where
  "commission_for c price quantity =
     (case xc_commission c of
        (Pct_Cost, v) \<Rightarrow> f_round10 (f_mul (f_abs (f_mul price quantity)) v)
      | (Fixed_Cost, v) \<Rightarrow> f_round10 v)"

definition slippage_offset :: "ExecutionConfig \<Rightarrow> pyfloat \<Rightarrow> pyfloat" where
  "slippage_offset c price = (case xc_slippage c of (Pct_Cost, v) \<Rightarrow> f_mul price v | (Fixed_Cost, v) \<Rightarrow> v)"

definition fill_price_for :: "ExecutionConfig \<Rightarrow> pyfloat \<Rightarrow> OrderSide \<Rightarrow> pyfloat" where
  "fill_price_for c price side =
     (let offset = slippage_offset c price
      in if side = BUY then f_round10 (f_add price offset) else f_round10 (f_sub price offset))"

section \<open>Signals to fills\<close>

definition set_entry :: "OrderFill \<Rightarrow> execution_layer \<Rightarrow> execution_layer" where
  "set_entry f x =
     x\<lparr>xl_entry_price := fill_price f, xl_entry_commission := fill_commission f, xl_entry_bar_index := Some (fill_bar_index f),
       xl_entry_fill := Some f\<rparr>"

text \<open>\<open>a / b if b != 0 else 0.0\<close>; the division never fails behind its guard.\<close>

definition quotient_or_zero :: "pyfloat \<Rightarrow> pyfloat \<Rightarrow> pyfloat" where
  "quotient_or_zero a b = (if f_eq b (Flt 0) then Flt 0 else case f_div a b of Inr v \<Rightarrow> v | Inl _ \<Rightarrow> Flt 0)"

definition closed_trade :: "execution_layer \<Rightarrow> OrderFill \<Rightarrow> OrderFill \<Rightarrow> pyfloat \<Rightarrow> bool \<Rightarrow> Trade" where
  "closed_trade x entry f qty closing_short =
     (let gain = (if closing_short then f_sub (xl_entry_price x) (fill_price f) else f_sub (fill_price f) (xl_entry_price x));
          pnl = f_sub (f_sub (f_mul gain qty) (fill_commission entry)) (fill_commission f);
          cost_basis = f_add (f_abs (f_mul (xl_entry_price x) qty)) (fill_commission entry)
      in \<lparr>trade_entry = entry, trade_exit = f, trade_pnl = f_round10 pnl,
          trade_return_pct = f_round10 (quotient_or_zero pnl cost_basis),
          trade_bars_held = int (fill_bar_index f) - int (fill_bar_index entry),
          trade_entry_bar_index = fill_bar_index entry, trade_exit_bar_index = fill_bar_index f\<rparr>)"

definition clear_entry :: "execution_layer \<Rightarrow> execution_layer" where
  "clear_entry x =
     (if f_eq (xl_position_qty x) (Flt 0)
      then x\<lparr>xl_entry_price := Flt 0, xl_entry_commission := Flt 0, xl_entry_bar_index := None, xl_entry_fill := None\<rparr> else x)"

definition record_trade_close :: "OrderFill \<Rightarrow> pyfloat \<Rightarrow> bool \<Rightarrow> execution_layer \<Rightarrow> execution_layer" where
  "record_trade_close f qty closing_short x =
     (case xl_entry_fill x of
        None \<Rightarrow> x
      | Some entry \<Rightarrow>
          let t = closed_trade x entry f qty closing_short
          in clear_entry (x\<lparr>xl_trades := xl_trades x @ [t], xl_realized_pnl := f_add (xl_realized_pnl x) (trade_pnl t)\<rparr>))"

definition apply_fill :: "OrderFill \<Rightarrow> execution_layer \<Rightarrow> execution_layer" where
  "apply_fill f x =
     (let qty = fill_quantity f; notional = f_mul (fill_price f) qty; commission = fill_commission f
      in if ord_side (fill_order f) = BUY
         then let y = x\<lparr>xl_cash := f_sub (xl_cash x) (f_add notional commission), xl_position_qty := f_add (xl_position_qty x) qty\<rparr>
              in if f_less (xl_position_qty x) (Flt 0) then record_trade_close f qty True y else set_entry f y
         else let y = x\<lparr>xl_cash := f_add (xl_cash x) (f_sub notional commission), xl_position_qty := f_sub (xl_position_qty x) qty\<rparr>
              in if f_less (Flt 0) (xl_position_qty x) then record_trade_close f qty False y else set_entry f y)"

definition fill_of :: "ExecutionConfig \<Rightarrow> Order \<Rightarrow> pyfloat \<Rightarrow> nat \<Rightarrow> string \<Rightarrow> OrderFill" where
  "fill_of c order price bar_index timestamp =
     (let p = fill_price_for c price (ord_side order)
      in \<lparr>fill_order = order, fill_price = p, fill_quantity = ord_quantity order,
          fill_commission = commission_for c p (ord_quantity order), fill_slippage = f_abs (f_sub p price),
          fill_bar_index = bar_index, fill_timestamp = timestamp\<rparr>)"

definition fill_order_at :: "Order \<Rightarrow> pyfloat \<Rightarrow> nat \<Rightarrow> string \<Rightarrow> execution_layer \<Rightarrow> execution_layer" where
  "fill_order_at order price bar_index timestamp x =
     (let f = fill_of (xl_config x) order price bar_index timestamp
      in apply_fill f (x\<lparr>xl_fills := xl_fills x @ [f],
           xl_total_commission := f_add (xl_total_commission x) (fill_commission f),
           xl_total_slippage_cost := f_add (xl_total_slippage_cost x) (f_mul (fill_slippage f) (ord_quantity order))\<rparr>))"

text \<open>Whether a signal repeats the current position, and the quantity it trades otherwise.\<close>

definition redundant_signal :: "OrderSide \<Rightarrow> execution_layer \<Rightarrow> bool" where
  "redundant_signal side x \<longleftrightarrow>
     (case side of BUY \<Rightarrow> f_less (Flt 0) (xl_position_qty x) | SELL \<Rightarrow> f_less (xl_position_qty x) (Flt 0))"

definition trade_quantity :: "OrderSide \<Rightarrow> execution_layer \<Rightarrow> pyfloat" where
  "trade_quantity side x =
     (if (case side of BUY \<Rightarrow> f_less (xl_position_qty x) (Flt 0) | SELL \<Rightarrow> f_less (Flt 0) (xl_position_qty x))
      then f_abs (xl_position_qty x) else xc_position_size (xl_config x))"

definition process_signal :: "Signal \<Rightarrow> pyfloat \<Rightarrow> nat \<Rightarrow> string \<Rightarrow> execution_layer \<Rightarrow> execution_layer" where
  "process_signal s price bar_index timestamp x =
     (let y = x\<lparr>xl_signals := xl_signals x @ [Signal_to_dict s]\<rparr>
      in if redundant_signal (sig_side s) x then y
         else let order = \<lparr>ord_signal_index = xl_signal_counter x, ord_side = sig_side s, ord_type = MARKET,
                ord_quantity = trade_quantity (sig_side s) x, ord_limit_price = None, ord_status = PENDING,
                ord_bar_index = bar_index, ord_timestamp = timestamp\<rparr>
              in fill_order_at order price bar_index timestamp
                   (y\<lparr>xl_signal_counter := xl_signal_counter x + 1, xl_orders := xl_orders x @ [order]\<rparr>))"

section \<open>Marking to market and statistics\<close>

definition snapshot_of :: "execution_layer \<Rightarrow> pyfloat \<Rightarrow> nat \<Rightarrow> string \<Rightarrow> Position" where
  "snapshot_of x price bar_index timestamp =
     (let qty = xl_position_qty x; flat = f_eq qty (Flt 0); entry = xl_entry_price x; long = f_less (Flt 0) qty;
          gross = (if long then f_mul (f_sub price entry) qty else f_mul (f_sub entry price) (f_abs qty))
      in \<lparr>pos_symbol = xc_symbol (xl_config x), pos_side = (if flat \<or> long then BUY else SELL), pos_quantity = f_abs qty,
          pos_entry_price = (if flat then Flt 0 else entry), pos_current_price = price,
          pos_unrealized_pnl = (if flat then Flt 0 else f_round10 (f_sub gross (xl_entry_commission x))),
          pos_realized_pnl = f_round10 (xl_realized_pnl x), pos_bar_index = bar_index, pos_timestamp = timestamp\<rparr>)"

definition mark_to_market :: "pyfloat \<Rightarrow> nat \<Rightarrow> string \<Rightarrow> execution_layer \<Rightarrow> execution_layer" where
  "mark_to_market price bar_index timestamp x =
     x\<lparr>xl_equity_curve := xl_equity_curve x @ [f_round10 (f_add (xl_cash x) (f_mul (xl_position_qty x) price))],
       xl_position_snapshots := xl_position_snapshots x @ [snapshot_of x price bar_index timestamp]\<rparr>"

definition final_equity :: "execution_layer \<Rightarrow> pyfloat" where
  "final_equity x = (if xl_equity_curve x \<noteq> [] then last (xl_equity_curve x) else xc_initial_capital (xl_config x))"

definition execution_stats :: "execution_layer \<Rightarrow> (string \<times> fjson) list" where
  "execution_stats x =
     (let c = xl_config x;
          net_return = (if f_eq (xc_initial_capital c) (Flt 0) then Flt 0
                        else f_sub (quotient_or_zero (final_equity x) (xc_initial_capital c)) (Flt 1))
      in [(''strategy'', fstr ''''), (''strategy_version'', fstr ''''), (''execution_model'', fstr ''ExecutionSimulationLayer''),
          (''commission_spec'', fstr (xc_commission_spec c)), (''slippage_spec'', fstr (xc_slippage_spec c)),
          (''initial_capital'', FNum (xc_initial_capital c)), (''final_equity'', FNum (f_round10 (final_equity x))),
          (''total_return'', FNum (f_round10 net_return)), (''total_commission'', FNum (f_round10 (xl_total_commission x))),
          (''total_slippage_cost'', FNum (f_round10 (xl_total_slippage_cost x))),
          (''realized_pnl'', FNum (f_round10 (xl_realized_pnl x))), (''num_signals'', jnat (length (xl_signals x))),
          (''num_orders'', jnat (length (xl_orders x))), (''num_fills'', jnat (length (xl_fills x))),
          (''num_trades'', jnat (length (xl_trades x))),
          (''num_winning_trades'', jnat (length (filter (\<lambda>t. f_less (Flt 0) (trade_pnl t)) (xl_trades x)))),
          (''num_losing_trades'', jnat (length (filter (\<lambda>t. f_less (trade_pnl t) (Flt 0)) (xl_trades x))))])"

section \<open>The ledger\<close>

text \<open>
  A layer whose position is flat or exactly one unit of the configured size, with the fills in the order
  entry, exit, entry, exit, up to the open entry.
\<close>

definition unit_size :: "ExecutionConfig \<Rightarrow> rat \<Rightarrow> bool" where
  "unit_size c s \<longleftrightarrow> xc_position_size c = Flt s \<and> 0 < s \<and> double s"

definition open_side :: "rat \<Rightarrow> execution_layer \<Rightarrow> OrderSide option" where
  "open_side s x =
     (if xl_position_qty x = Flt s then Some BUY else if xl_position_qty x = Flt (- s) then Some SELL else None)"

definition round_trip :: "rat \<Rightarrow> Trade \<Rightarrow> bool" where
  "round_trip s t \<longleftrightarrow>
     ord_side (fill_order (trade_entry t)) \<noteq> ord_side (fill_order (trade_exit t))
     \<and> fill_quantity (trade_entry t) = Flt s \<and> fill_quantity (trade_exit t) = Flt s
     \<and> fill_bar_index (trade_entry t) \<le> fill_bar_index (trade_exit t)"

definition open_entry :: "execution_layer \<Rightarrow> OrderFill list" where
  "open_entry x = (case xl_entry_fill x of None \<Rightarrow> [] | Some f \<Rightarrow> [f])"

definition trade_fills :: "Trade list \<Rightarrow> OrderFill list" where
  "trade_fills ts = concat (map (\<lambda>t. [trade_entry t, trade_exit t]) ts)"

definition balanced :: "rat \<Rightarrow> nat \<Rightarrow> execution_layer \<Rightarrow> bool" where
  "balanced s i x \<longleftrightarrow>
     (xl_position_qty x = Flt 0 \<and> xl_entry_fill x = None
      \<or> (\<exists>side f. xl_position_qty x = (if side = BUY then Flt s else Flt (- s)) \<and> xl_entry_fill x = Some f
           \<and> ord_side (fill_order f) = side \<and> fill_quantity f = Flt s \<and> fill_bar_index f \<le> i))
     \<and> xl_fills x = trade_fills (xl_trades x) @ open_entry x
     \<and> list_all (round_trip s) (xl_trades x)
     \<and> xl_orders x = map fill_order (xl_fills x) \<and> xl_signal_counter x = length (xl_orders x)"

lemma unit_arith:
  assumes "0 < s" "double s"
  shows "f_add (Flt 0) (Flt s) = Flt s" "f_sub (Flt 0) (Flt s) = Flt (- s)" "f_sub (Flt s) (Flt s) = Flt 0"
    "f_add (Flt (- s)) (Flt s) = Flt 0" "f_abs (Flt s) = Flt s" "f_abs (Flt (- s)) = Flt s"
    "f_less (Flt 0) (Flt s)" "f_less (Flt (- s)) (Flt 0)" "\<not> f_less (Flt s) (Flt 0)" "\<not> f_less (Flt 0) (Flt (- s))"
    "\<not> f_less (Flt 0) (Flt 0)" "f_eq (Flt 0) (Flt 0)"
  using assms double_minus [OF assms(2)] round_double [OF assms(2)] round_double [OF double_minus [OF assms(2)]] round_double [OF double_0]
  by (simp_all add: f_add_def f_sub_def f_neg_def f_abs_def f_signbit_def f_less_def f_eq_def)

lemma process_signal_frame:
  "xl_config (process_signal g price i ts x) = xl_config x"
  "xl_equity_curve (process_signal g price i ts x) = xl_equity_curve x"
  "xl_position_snapshots (process_signal g price i ts x) = xl_position_snapshots x"
  by (auto simp: process_signal_def fill_order_at_def apply_fill_def record_trade_close_def clear_entry_def set_entry_def Let_def
      split: option.splits)

text \<open>The two ways in which a signal trades: it opens a position or it closes the open one.\<close>

lemma process_signal_opens:
  fixes g price i ts
  assumes "unit_size (xl_config x) s" "xl_position_qty x = Flt 0"
  defines "y \<equiv> process_signal g price i ts x"
  shows "\<exists>f. xl_position_qty y = (if sig_side g = BUY then Flt s else Flt (- s)) \<and> xl_entry_fill y = Some f
    \<and> ord_side (fill_order f) = sig_side g \<and> fill_quantity f = Flt s \<and> fill_bar_index f = i
    \<and> fill_price f = fill_price_for (xl_config x) price (sig_side g) \<and> ord_timestamp (fill_order f) = ts
    \<and> xl_fills y = xl_fills x @ [f] \<and> xl_trades y = xl_trades x \<and> xl_orders y = xl_orders x @ [fill_order f]
    \<and> xl_signal_counter y = xl_signal_counter x + 1"
  using assms(1,2) unit_arith [of s] unfolding y_def unit_size_def
  by (cases "sig_side g")
    (simp_all add: process_signal_def redundant_signal_def trade_quantity_def fill_order_at_def fill_of_def apply_fill_def set_entry_def Let_def)

lemma process_signal_closes:
  fixes g price i ts
  assumes "unit_size (xl_config x) s" "xl_position_qty x = (if side = BUY then Flt s else Flt (- s))"
    and "xl_entry_fill x = Some e" "sig_side g \<noteq> side"
  defines "y \<equiv> process_signal g price i ts x"
  shows "\<exists>f t. xl_position_qty y = Flt 0 \<and> xl_entry_fill y = None \<and> trade_entry t = e \<and> trade_exit t = f
    \<and> ord_side (fill_order f) = sig_side g \<and> fill_quantity f = Flt s \<and> fill_bar_index f = i
    \<and> fill_price f = fill_price_for (xl_config x) price (sig_side g) \<and> ord_timestamp (fill_order f) = ts
    \<and> xl_fills y = xl_fills x @ [f] \<and> xl_trades y = xl_trades x @ [t] \<and> xl_orders y = xl_orders x @ [fill_order f]
    \<and> xl_signal_counter y = xl_signal_counter x + 1"
  using assms(1-4) unit_arith [of s] unfolding y_def unit_size_def
  by (cases "sig_side g"; cases side)
    (simp_all add: process_signal_def redundant_signal_def trade_quantity_def fill_order_at_def fill_of_def apply_fill_def
      record_trade_close_def closed_trade_def clear_entry_def Let_def)

lemma process_signal_repeats:
  assumes "unit_size (xl_config x) s" "xl_position_qty x = (if side = BUY then Flt s else Flt (- s))" "sig_side g = side"
  shows "process_signal g price i ts x = x\<lparr>xl_signals := xl_signals x @ [Signal_to_dict g]\<rparr>"
  using assms unit_arith [of s] unfolding unit_size_def
  by (cases side) (simp_all add: process_signal_def redundant_signal_def Let_def)

lemma balanced_later: "balanced s i x \<Longrightarrow> i \<le> j \<Longrightarrow> balanced s j x"
  by (fastforce simp: balanced_def)

lemma balanced_cases:
  assumes "balanced s i x"
  obtains (flat) "xl_position_qty x = Flt 0" "xl_entry_fill x = None"
  | (unit) side f where "xl_position_qty x = (if side = BUY then Flt s else Flt (- s))" "xl_entry_fill x = Some f"
      "ord_side (fill_order f) = side" "fill_quantity f = Flt s" "fill_bar_index f \<le> i"
proof -
  from assms have "xl_position_qty x = Flt 0 \<and> xl_entry_fill x = None
      \<or> (\<exists>side f. xl_position_qty x = (if side = BUY then Flt s else Flt (- s)) \<and> xl_entry_fill x = Some f
           \<and> ord_side (fill_order f) = side \<and> fill_quantity f = Flt s \<and> fill_bar_index f \<le> i)"
    by (simp only: balanced_def)
  then show ?thesis
    by (elim disjE exE conjE) (rule flat, assumption+, rule unit, assumption+)
qed

lemma process_signal_balanced:
  assumes size: "unit_size (xl_config x) s" and bal: "balanced s i x"
  shows "balanced s i (process_signal g price i ts x)"
proof -
  note b = bal [unfolded balanced_def]
  from bal show ?thesis
  proof (cases rule: balanced_cases)
    case flat
    then show ?thesis using process_signal_opens [OF size flat(1), where g = g and price = price and i = i and ts = ts] b
      by (auto simp: balanced_def open_entry_def)
  next
    case (unit side f)
    show ?thesis
    proof (cases "sig_side g = side")
      case True
      then show ?thesis using bal process_signal_repeats [OF size unit(1) True] by (simp add: balanced_def open_entry_def)
    next
      case False
      then show ?thesis
        using process_signal_closes [OF size unit(1,2) False, where price = price and i = i and ts = ts] b unit(2-5)
        by (auto simp: balanced_def open_entry_def trade_fills_def round_trip_def)
    qed
  qed
qed

lemma mark_to_market_balanced: "balanced s i x \<Longrightarrow> balanced s i (mark_to_market price j ts x)"
  by (simp add: balanced_def mark_to_market_def open_entry_def)

lemma new_layer_balanced: "balanced s i (new_layer c)"
  by (simp add: balanced_def new_layer_def open_entry_def trade_fills_def)

lemma balanced_flat:
  assumes "balanced s i x" "unit_size c s" "f_eq (xl_position_qty x) (Flt 0)"
  shows "xl_position_qty x = Flt 0 \<and> xl_entry_fill x = None"
  using assms(1)
proof (cases rule: balanced_cases)
  case (unit side f)
  then show ?thesis using assms(2,3) by (auto simp: unit_size_def f_eq_def split: if_splits)
qed simp

text \<open>A signal against the open position leaves the layer flat.\<close>

lemma liquidation_flat:
  assumes "unit_size (xl_config x) s" "balanced s i x" "xl_position_qty x \<noteq> Flt 0"
    and "sig_side g = (if f_less (Flt 0) (xl_position_qty x) then SELL else BUY)"
  shows "xl_position_qty (process_signal g price j ts x) = Flt 0" "xl_entry_fill (process_signal g price j ts x) = None"
proof -
  obtain side f where "xl_position_qty x = (if side = BUY then Flt s else Flt (- s))" "xl_entry_fill x = Some f"
    using assms(3) balanced_cases [OF assms(2)] by metis
  moreover from this have "sig_side g \<noteq> side" using assms(1,4) unit_arith [of s] by (cases side) (auto simp: unit_size_def)
  ultimately show "xl_position_qty (process_signal g price j ts x) = Flt 0" "xl_entry_fill (process_signal g price j ts x) = None"
    using process_signal_closes [OF assms(1)] by metis+
qed

section \<open>What a signal adds\<close>

text \<open>A layer that extends another by fills and trades of bar \<open>n\<close> or later.\<close>

definition extends :: "nat \<Rightarrow> execution_layer \<Rightarrow> execution_layer \<Rightarrow> bool" where
  "extends n x y \<longleftrightarrow>
     xl_config y = xl_config x
     \<and> (\<exists>e. xl_equity_curve y = xl_equity_curve x @ e) \<and> (\<exists>p. xl_position_snapshots y = xl_position_snapshots x @ p)
     \<and> (\<exists>f. xl_fills y = xl_fills x @ f \<and> (\<forall>g \<in> set f. n \<le> fill_bar_index g))
     \<and> (\<exists>t. xl_trades y = xl_trades x @ t \<and> (\<forall>u \<in> set t. n \<le> trade_exit_bar_index u))"

lemma extends_refl: "extends n x x"
  by (simp add: extends_def)

lemma extends_trans: "extends n x y \<Longrightarrow> extends n y z \<Longrightarrow> extends n x z"
  unfolding extends_def by (elim conjE exE, intro conjI) (auto 4 4)

lemma extends_later: "extends m x y \<Longrightarrow> n \<le> m \<Longrightarrow> extends n x y"
  by (fastforce simp: extends_def)

text \<open>At most one fill is added, with the side of the signal, at the shifted price.\<close>

text \<open>
  A fill at a reference price, written out from the configuration: the price is shifted against the order
  by the slippage, the commission is a fixed amount or a share of the value, both rounded to ten places.
\<close>

definition executed_at :: "ExecutionConfig \<Rightarrow> pyfloat \<Rightarrow> OrderFill \<Rightarrow> bool" where
  "executed_at c p f \<longleftrightarrow>
     (let shift = (if fst (xc_slippage c) = Pct_Cost then f_mul p (snd (xc_slippage c)) else snd (xc_slippage c));
          traded = f_abs (f_mul (fill_price f) (fill_quantity f));
          fee = (if fst (xc_commission c) = Pct_Cost then f_mul traded (snd (xc_commission c)) else snd (xc_commission c))
      in fill_price f = f_round10 (case ord_side (fill_order f) of BUY \<Rightarrow> f_add p shift | SELL \<Rightarrow> f_sub p shift)
         \<and> fill_commission f = f_round10 fee \<and> fill_slippage f = f_abs (f_sub (fill_price f) p)
         \<and> fill_quantity f = ord_quantity (fill_order f))"

lemma fill_of_executed: "executed_at c p (fill_of c order p i ts)"
  by (cases "ord_side order") (auto simp: executed_at_def fill_of_def fill_price_for_def slippage_offset_def commission_for_def Let_def
      split: prod.splits cost_kind.splits)

lemma process_signal_fill:
  fixes g price i ts x
  defines "y \<equiv> process_signal g price i ts x"
  shows "extends i x y"
    and "xl_fills y = xl_fills x
      \<or> (\<exists>f. xl_fills y = xl_fills x @ [f] \<and> fill_bar_index f = i \<and> ord_side (fill_order f) = sig_side g
           \<and> executed_at (xl_config x) price f \<and> ord_timestamp (fill_order f) = ts)"
proof -
  define order where "order = \<lparr>ord_signal_index = xl_signal_counter x, ord_side = sig_side g, ord_type = MARKET,
    ord_quantity = trade_quantity (sig_side g) x, ord_limit_price = None, ord_status = PENDING,
    ord_bar_index = i, ord_timestamp = ts\<rparr>"
  show "extends i x y"
    by (auto simp: y_def extends_def process_signal_def fill_order_at_def fill_of_def apply_fill_def record_trade_close_def closed_trade_def
      clear_entry_def set_entry_def Let_def split: option.splits)
  have "xl_fills y = xl_fills x \<or> xl_fills y = xl_fills x @ [fill_of (xl_config x) order price i ts]"
    by (auto simp: y_def order_def process_signal_def fill_order_at_def apply_fill_def record_trade_close_def
      clear_entry_def set_entry_def Let_def split: option.splits)
  moreover have "fill_bar_index (fill_of (xl_config x) order price i ts) = i"
    "ord_side (fill_order (fill_of (xl_config x) order price i ts)) = sig_side g"
    "ord_timestamp (fill_order (fill_of (xl_config x) order price i ts)) = ts"
    by (simp_all add: fill_of_def order_def Let_def)
  ultimately show "xl_fills y = xl_fills x
      \<or> (\<exists>f. xl_fills y = xl_fills x @ [f] \<and> fill_bar_index f = i \<and> ord_side (fill_order f) = sig_side g
           \<and> executed_at (xl_config x) price f \<and> ord_timestamp (fill_order f) = ts)"
    using fill_of_executed by blast
qed

lemma mark_to_market_extends: "extends n x (mark_to_market price i ts x)"
  by (simp add: extends_def mark_to_market_def)

end
