(* ===== verification/Replay.thy ===== *)
theory Replay
  imports Backtest_Execution
begin

text \<open>
  The replay (\<open>quant_engine/replay.py\<close>, \<open>quant_engine/strategy.py\<close>): a strategy is evaluated bar by bar, its
  signal is executed at the open of the next bar, the layer is marked at every close, and an open position
  is closed at the end.  The strategy is an argument; the reading of datasets is left out.
\<close>

section \<open>Bars and strategies\<close>

text \<open>A bar with the text of its timestamp; further columns are in the extension of the record.\<close>

record ReplayBar =
  bar_close :: pyfloat
  bar_open :: "pyfloat option"
  bar_iso :: string

text \<open>The interface of strategies: an evaluation may change the state of the strategy and may raise.\<close>

record ('s, 'b) strategy =
  st_identifier :: string
  st_version :: string
  st_reset :: "'s \<Rightarrow> 's"
  st_evaluate :: "'s \<Rightarrow> 'b \<Rightarrow> 'b list \<Rightarrow> nat \<Rightarrow> ('s \<times> Signal option) result"

definition buy_and_hold :: "(unit, 'e ReplayBar_scheme) strategy" where
  "buy_and_hold =
     \<lparr>st_identifier = ''buy_and_hold'', st_version = ''1.0.0'', st_reset = id,
      st_evaluate = (\<lambda>s bar history i. Inr (s,
        if i = 0 then Some \<lparr>sig_bar_index = 0, sig_timestamp = bar_iso bar, sig_side = BUY, sig_confidence = Flt 1,
            sig_metadata = [(''strategy'', fstr ''buy_and_hold''), (''reason'', fstr ''buy_and_hold_entry'')]\<rparr>
        else None))\<rparr>"

section \<open>The loop\<close>

text \<open>\<open>float(bar.open or bar.close)\<close>: a missing open and an open of zero are replaced by the close.\<close>

definition execution_price :: "'e ReplayBar_scheme \<Rightarrow> pyfloat" where
  "execution_price b = (case bar_open b of Some p \<Rightarrow> if f_eq p (Flt 0) then bar_close b else p | None \<Rightarrow> bar_close b)"

definition execute_pending :: "(Signal \<times> string) option \<Rightarrow> 'e ReplayBar_scheme \<Rightarrow> nat \<Rightarrow> execution_layer \<Rightarrow> execution_layer" where
  "execute_pending pending b i x =
     (case pending of None \<Rightarrow> x | Some (g, ts) \<Rightarrow> process_signal g (execution_price b) i ts x)"

text \<open>One bar: history, state of the strategy, pending signal, layer.\<close>

type_synonym ('s, 'b) replay_state = "'b list \<times> 's \<times> (Signal \<times> string) option \<times> execution_layer"

definition replay_bar ::
  "('s, 'e ReplayBar_scheme) strategy \<Rightarrow> 'e ReplayBar_scheme \<Rightarrow> ('s, 'e ReplayBar_scheme) replay_state
    \<Rightarrow> ('s, 'e ReplayBar_scheme) replay_state result" where
  "replay_bar st b r =
     (case r of (history, s, pending, x) \<Rightarrow>
        let i = length history; x = execute_pending pending b i x
        in rbind (st_evaluate st s b history i) (\<lambda>(s, signal).
           Inr (history @ [b], s, map_option (\<lambda>g. (g, bar_iso b)) signal, mark_to_market (bar_close b) i (bar_iso b) x)))"

fun replay_bars ::
  "('s, 'e ReplayBar_scheme) strategy \<Rightarrow> 'e ReplayBar_scheme list \<Rightarrow> ('s, 'e ReplayBar_scheme) replay_state
    \<Rightarrow> ('s, 'e ReplayBar_scheme) replay_state result" where
  "replay_bars st [] r = Inr r"
| "replay_bars st (b # bs) r = rbind (replay_bar st b r) (replay_bars st bs)"

definition liquidate :: "('s, 'e ReplayBar_scheme) strategy \<Rightarrow> 'e ReplayBar_scheme list \<Rightarrow> execution_layer \<Rightarrow> execution_layer" where
  "liquidate st bars x =
     (if f_eq (xl_position_qty x) (Flt 0) then x
      else let b = last bars; i = length bars - 1;
               g = \<lparr>sig_bar_index = int i, sig_timestamp = bar_iso b,
                    sig_side = (if f_less (Flt 0) (xl_position_qty x) then SELL else BUY), sig_confidence = Flt 1,
                    sig_metadata = [(''strategy'', fstr (st_identifier st)), (''reason'', fstr ''end_of_data_liquidation'')]\<rparr>
           in process_signal g (bar_close b) i (bar_iso b) x)"

definition too_few_bars :: "nat \<Rightarrow> exn" where
  "too_few_bars n = ValueError (''Need at least 2 bars for replay, got '' @ nat_digits n)"

definition replay :: "('s, 'e ReplayBar_scheme) strategy \<Rightarrow> 's \<Rightarrow> 'e ReplayBar_scheme list \<Rightarrow> execution_layer \<Rightarrow> execution_layer result" where
  "replay st s bars x =
     (if length bars < 2 then Inl (too_few_bars (length bars))
      else rbind (replay_bars st bars ([], st_reset st s, None, x)) (\<lambda>(_, _, _, x). Inr (liquidate st bars x)))"

text \<open>The dictionary that \<open>run\<close> returns.\<close>

definition replay_output :: "('s, 'e ReplayBar_scheme) strategy \<Rightarrow> 'e ReplayBar_scheme list \<Rightarrow> execution_layer \<Rightarrow> (string \<times> fjson) list" where
  "replay_output st bars x =
     [(''signals'', FList (xl_signals x)), (''trades'', FList (map Trade_to_dict (xl_trades x))),
      (''positions'', FList (map Position_to_dict (xl_position_snapshots x))), (''equity_curve'', FList (map FNum (xl_equity_curve x))),
      (''execution_stats'', FObj (dset ''signal_fill_timing'' (fstr ''next_bar_open'')
         (dset ''num_bars'' (jnat (length bars)) (dset ''strategy_version'' (fstr (st_version st))
         (dset ''strategy'' (fstr (st_identifier st)) (execution_stats x)))))),
      (''num_bars'', jnat (length bars)), (''start_time'', fstr (bar_iso (hd bars))), (''end_time'', fstr (bar_iso (last bars)))]"

definition run_replay :: "('s, 'e ReplayBar_scheme) strategy \<Rightarrow> 's \<Rightarrow> 'e ReplayBar_scheme list \<Rightarrow> execution_layer \<Rightarrow> (string \<times> fjson) list result" where
  "run_replay st s bars x = rbind (replay st s bars x) (\<lambda>x. Inr (replay_output st bars x))"

section \<open>The loop, bar by bar\<close>

lemma replay_bars_append: "replay_bars st (xs @ ys) r = rbind (replay_bars st xs r) (replay_bars st ys)"
  by (induction xs arbitrary: r) (auto simp: rbind_def split: sum.splits)

lemma replay_bar_Inr:
  assumes "replay_bar st b (h, s, p, x) = Inr (h', s', p', x')"
  shows "h' = h @ [b]" "x' = mark_to_market (bar_close b) (length h) (bar_iso b) (execute_pending p b (length h) x)"
    "\<exists>g. st_evaluate st s b h (length h) = Inr (s', g) \<and> p' = map_option (\<lambda>g. (g, bar_iso b)) g"
  using assms by (auto simp: replay_bar_def rbind_Inr Let_def)

lemma execute_pending_layer:
  "extends i x (execute_pending p b i x)" "xl_equity_curve (execute_pending p b i x) = xl_equity_curve x"
  "xl_position_snapshots (execute_pending p b i x) = xl_position_snapshots x"
  "xl_config (execute_pending p b i x) = xl_config x"
  by (auto simp: execute_pending_def extends_refl process_signal_fill(1) process_signal_frame split: option.splits)

lemma replay_bar_extends:
  assumes "replay_bar st b (h, s, p, x) = Inr (h', s', p', x')"
  shows "extends (length h) x x'" "length (xl_equity_curve x') = length (xl_equity_curve x) + 1"
    "length (xl_position_snapshots x') = length (xl_position_snapshots x) + 1"
  unfolding replay_bar_Inr(2) [OF assms]
  by (rule extends_trans [OF execute_pending_layer(1) mark_to_market_extends]) (simp_all add: mark_to_market_def execute_pending_layer)

lemma replay_bars_extends:
  assumes "replay_bars st bs (h, s, p, x) = Inr (h', s', p', x')"
  shows "h' = h @ bs \<and> extends (length h) x x' \<and> length (xl_equity_curve x') = length (xl_equity_curve x) + length bs
    \<and> length (xl_position_snapshots x') = length (xl_position_snapshots x) + length bs"
  using assms
proof (induction bs arbitrary: h s p x)
  case (Cons b bs)
  then obtain h1 s1 p1 x1 where step: "replay_bar st b (h, s, p, x) = Inr (h1, s1, p1, x1)"
    and rest: "replay_bars st bs (h1, s1, p1, x1) = Inr (h', s', p', x')"
    by (auto simp: rbind_Inr)
  note one = replay_bar_Inr(1) [OF step] replay_bar_extends [OF step]
  have "extends (length h1) x1 x'" using Cons.IH [OF rest] by blast
  then have "extends (length h) x x'" using extends_trans [OF one(2) extends_later] one(1) by simp
  then show ?case using Cons.IH [OF rest] one by simp
qed (simp add: extends_refl)

lemma liquidate_extends:
  "extends (length bars - 1) x (liquidate st bars x)" "xl_equity_curve (liquidate st bars x) = xl_equity_curve x"
  "xl_position_snapshots (liquidate st bars x) = xl_position_snapshots x"
  by (auto simp: liquidate_def Let_def extends_refl process_signal_fill(1) process_signal_frame)

lemma replay_Inr:
  assumes "replay st s bars x = Inr y"
  obtains s' p' z where "replay_bars st bars ([], st_reset st s, None, x) = Inr (bars, s', p', z)" "y = liquidate st bars z" "2 \<le> length bars"
proof -
  obtain h' s' p' z where run: "replay_bars st bars ([], st_reset st s, None, x) = Inr (h', s', p', z)"
    and y: "y = liquidate st bars z" "\<not> length bars < 2"
    using assms by (auto simp: replay_def rbind_Inr split: if_splits)
  then show ?thesis using that replay_bars_extends [OF run] by simp
qed

text \<open>The loop after a prefix: what follows only adds.\<close>

lemma replay_prefix:
  assumes "replay st s (xs @ ys) x = Inr y" "ys \<noteq> []"
  obtains s1 p1 x1 where "replay_bars st xs ([], st_reset st s, None, x) = Inr (xs, s1, p1, x1)" "extends (length xs) x1 y"
proof -
  obtain s' p' z where run: "replay_bars st (xs @ ys) ([], st_reset st s, None, x) = Inr (xs @ ys, s', p', z)"
    and y: "y = liquidate st (xs @ ys) z" by (rule replay_Inr [OF assms(1)])
  then obtain h1 s1 p1 x1 where first: "replay_bars st xs ([], st_reset st s, None, x) = Inr (h1, s1, p1, x1)"
    and rest: "replay_bars st ys (h1, s1, p1, x1) = Inr (xs @ ys, s', p', z)"
    unfolding replay_bars_append by (auto simp: rbind_Inr)
  have h1: "h1 = xs" using replay_bars_extends [OF first] by simp
  have "extends (length xs) z y" unfolding y
    by (rule extends_later [OF liquidate_extends(1)]) (use assms(2) in \<open>cases ys; simp\<close>)
  then show ?thesis using that first replay_bars_extends [OF rest] extends_trans unfolding h1 by metis
qed

text \<open>The history of a fresh layer up to a bar.\<close>

definition up_to :: "nat \<Rightarrow> execution_layer \<Rightarrow> pyfloat list \<times> Position list \<times> OrderFill list \<times> Trade list" where
  "up_to n y =
     (take n (xl_equity_curve y), take n (xl_position_snapshots y), filter (\<lambda>f. fill_bar_index f < n) (xl_fills y),
      filter (\<lambda>t. trade_exit_bar_index t < n) (xl_trades y))"

lemma up_to_extends:
  assumes "extends n x y" "n \<le> length (xl_equity_curve x)" "n \<le> length (xl_position_snapshots x)"
  shows "up_to n y = up_to n x"
proof -
  have "filter (\<lambda>f. fill_bar_index f < n) (xl_fills y) = filter (\<lambda>f. fill_bar_index f < n) (xl_fills x)"
    "filter (\<lambda>t. trade_exit_bar_index t < n) (xl_trades y) = filter (\<lambda>t. trade_exit_bar_index t < n) (xl_trades x)"
    using assms(1) by (auto simp: extends_def filter_empty_conv not_less)
  moreover have "take n (xl_equity_curve y) = take n (xl_equity_curve x)"
    "take n (xl_position_snapshots y) = take n (xl_position_snapshots x)"
    using assms by (auto simp: extends_def)
  ultimately show ?thesis by (simp add: up_to_def)
qed

text \<open>
  C8: The replay does not look ahead: for two series of bars with a common beginning, whatever the strategy
  does with its history and its own state, the equity values, the position snapshots, the fills and the
  closed trades of the common bars are the same, provided that neither series ends with them.
\<close>

theorem replay_no_lookahead:
  assumes "replay st s (xs @ ys) (new_layer c) = Inr y" "replay st s (xs @ zs) (new_layer c) = Inr z"
    and "ys \<noteq> []" "zs \<noteq> []"
  shows "up_to (length xs) y = up_to (length xs) z"
proof -
  obtain s1 p1 x1 where one: "replay_bars st xs ([], st_reset st s, None, new_layer c) = Inr (xs, s1, p1, x1)" "extends (length xs) x1 y"
    by (rule replay_prefix [OF assms(1,3)])
  obtain s2 p2 x2 where two: "replay_bars st xs ([], st_reset st s, None, new_layer c) = Inr (xs, s2, p2, x2)" "extends (length xs) x2 z"
    by (rule replay_prefix [OF assms(2,4)])
  have "x2 = x1" using one(1) two(1) by simp
  moreover have "length xs \<le> length (xl_equity_curve x1)" "length xs \<le> length (xl_position_snapshots x1)"
    using replay_bars_extends [OF one(1)] by simp_all
  ultimately show ?thesis using up_to_extends one(2) two(2) by metis
qed

section \<open>The ledger of a replay\<close>

lemma replay_bars_balanced:
  assumes "replay_bars st bs (h, s, p, x) = Inr (h', s', p', x')" "unit_size (xl_config x) u" "balanced u (length h - 1) x"
  shows "balanced u (length h' - 1) x'"
  using assms
proof (induction bs arbitrary: h s p x)
  case (Cons b bs)
  then obtain h1 s1 p1 x1 where step: "replay_bar st b (h, s, p, x) = Inr (h1, s1, p1, x1)"
    and rest: "replay_bars st bs (h1, s1, p1, x1) = Inr (h', s', p', x')"
    by (auto simp: rbind_Inr)
  note one = replay_bar_Inr [OF step] replay_bar_extends(1) [OF step]
  have bal: "balanced u (length h) x" by (rule balanced_later [OF Cons.prems(3)]) simp
  then have "balanced u (length h) (execute_pending p b (length h) x)"
    using process_signal_balanced [OF Cons.prems(2)] by (simp add: execute_pending_def split: option.splits)
  then have "balanced u (length h) x1" unfolding one(2) by (rule mark_to_market_balanced)
  moreover have "unit_size (xl_config x1) u" using one(4) Cons.prems(2) by (simp add: extends_def)
  ultimately show ?case using Cons.IH [OF rest] one(1) by simp
qed simp

lemma length_trade_fills: "length (trade_fills ts) = 2 * length ts"
  by (induction ts) (simp_all add: trade_fills_def)

text \<open>
  C9: The ledger of a replay closes: with a positive finite position size, whatever the prices and the
  signals are (even when cash overflows or becomes NaN), the replay ends flat; its fills are exactly the
  entries and exits of its trades, in order; every trade has opposite sides and the configured size and
  exits no earlier than it enters; every order was filled; and the equity curve has one value per bar.
\<close>

theorem replay_ledger_closes:
  assumes "replay st s bars (new_layer c) = Inr y" "unit_size c u"
  shows "xl_position_qty y = Flt 0 \<and> xl_entry_fill y = None
    \<and> xl_fills y = trade_fills (xl_trades y) \<and> list_all (round_trip u) (xl_trades y)
    \<and> xl_orders y = map fill_order (xl_fills y) \<and> length (xl_fills y) = 2 * length (xl_trades y)
    \<and> length (xl_equity_curve y) = length bars \<and> length (xl_position_snapshots y) = length bars"
proof -
  obtain s' p' z where run: "replay_bars st bars ([], st_reset st s, None, new_layer c) = Inr (bars, s', p', z)"
    and y: "y = liquidate st bars z" by (rule replay_Inr [OF assms(1)])
  note ext = replay_bars_extends [OF run]
  have size: "unit_size (xl_config z) u" using ext assms(2) by (simp add: extends_def new_layer_def)
  have bal: "balanced u (length bars - 1) z"
    by (rule replay_bars_balanced [OF run _ new_layer_balanced]) (use assms(2) in \<open>simp add: new_layer_def\<close>)
  have flat: "xl_position_qty y = Flt 0 \<and> xl_entry_fill y = None"
  proof (cases "f_eq (xl_position_qty z) (Flt 0)")
    case True
    then show ?thesis using balanced_flat [OF bal size] by (simp add: y liquidate_def)
  next
    case False
    then have "xl_position_qty z \<noteq> Flt 0" by (auto simp: f_eq_def)
    from liquidation_flat [OF size bal this] show ?thesis using False by (simp add: y liquidate_def Let_def)
  qed
  have "balanced u (length bars - 1) y"
    using bal process_signal_balanced [OF size bal] by (simp add: y liquidate_def Let_def)
  then show ?thesis using flat ext liquidate_extends(2,3) [of st bars z]
    by (auto simp: balanced_def open_entry_def y new_layer_def length_trade_fills)
qed

section \<open>Execution at the next open\<close>

text \<open>The answers of the strategy alone, each from its own state, the bar and the bars before it.\<close>

fun strategy_run :: "('s, 'b) strategy \<Rightarrow> 's \<Rightarrow> 'b list \<Rightarrow> 'b list \<Rightarrow> ('s \<times> Signal option list) result" where
  "strategy_run st s h [] = Inr (s, [])"
| "strategy_run st s h (b # bs) =
     rbind (st_evaluate st s b h (length h)) (\<lambda>(s, g). rbind (strategy_run st s (h @ [b]) bs) (\<lambda>(s, gs). Inr (s, g # gs)))"

lemma strategy_run_snoc:
  "strategy_run st s h bs = Inr (s1, gs) \<Longrightarrow> st_evaluate st s1 b (h @ bs) (length (h @ bs)) = Inr (s2, g) \<Longrightarrow>
   strategy_run st s h (bs @ [b]) = Inr (s2, gs @ [g])"
proof (induction bs arbitrary: s h gs)
  case (Cons a bs)
  from Cons.prems(1) obtain s3 g3 gs3 where one: "st_evaluate st s a h (length h) = Inr (s3, g3)"
    and rest: "strategy_run st s3 (h @ [a]) bs = Inr (s1, gs3)" "gs = g3 # gs3"
    by (auto simp: rbind_Inr)
  then show ?case using Cons.IH [OF rest(1)] Cons.prems(2) by simp
qed auto

text \<open>The price a market order of the bar gets before costs: its open, or its close where it has no open.\<close>

definition opening_price :: "'e ReplayBar_scheme \<Rightarrow> pyfloat" where
  "opening_price b = (if bar_open b \<in> {None, Some (Flt 0), Some NegZero} then bar_close b else the (bar_open b))"

lemma execution_price_opening: "execution_price b = opening_price b"
  by (auto simp: execution_price_def opening_price_def f_eq_def fin_def split: option.split pyfloat.splits)

definition next_open_fill :: "ExecutionConfig \<Rightarrow> 'e ReplayBar_scheme list \<Rightarrow> Signal option list \<Rightarrow> OrderFill \<Rightarrow> bool" where
  "next_open_fill c bars gs f \<longleftrightarrow>
     (\<exists>i g. 0 < i \<and> i < length bars \<and> i \<le> length gs \<and> gs ! (i - 1) = Some g
        \<and> fill_bar_index f = i \<and> ord_side (fill_order f) = sig_side g
        \<and> executed_at c (opening_price (bars ! i)) f \<and> ord_timestamp (fill_order f) = bar_iso (bars ! (i - 1)))"

lemma next_open_fill_mono: "next_open_fill c bars gs f \<Longrightarrow> next_open_fill c (bars @ bs) (gs @ hs) f"
  unfolding next_open_fill_def by (elim exE, rule exI, rule exI) (auto simp: nth_append)

lemma replay_bars_next_open:
  assumes "replay_bars st bars ([], s, None, new_layer c) = Inr (h, s', p', x)"
  shows "\<exists>gs. strategy_run st s [] bars = Inr (s', gs) \<and> length gs = length bars
    \<and> p' = (if bars = [] then None else map_option (\<lambda>g. (g, bar_iso (last bars))) (last gs))
    \<and> (\<forall>f \<in> set (xl_fills x). next_open_fill c bars gs f)"
  using assms
proof (induction bars arbitrary: h s' p' x rule: rev_induct)
  case (snoc b bars)
  then obtain h1 s1 p1 x1 where first: "replay_bars st bars ([], s, None, new_layer c) = Inr (h1, s1, p1, x1)"
    and step: "replay_bar st b (h1, s1, p1, x1) = Inr (h, s', p', x)"
    unfolding replay_bars_append by (auto simp: rbind_Inr)
  from snoc.IH [OF first] obtain gs where gs: "strategy_run st s [] bars = Inr (s1, gs)" "length gs = length bars"
    "p1 = (if bars = [] then None else map_option (\<lambda>g. (g, bar_iso (last bars))) (last gs))"
    "\<And>f. f \<in> set (xl_fills x1) \<Longrightarrow> next_open_fill c bars gs f" by blast
  have h1: "h1 = bars" and cfg: "xl_config x1 = c" using replay_bars_extends [OF first] by (simp_all add: extends_def new_layer_def)
  obtain g where g: "st_evaluate st s1 b bars (length bars) = Inr (s', g)" "p' = map_option (\<lambda>g. (g, bar_iso b)) g"
    using replay_bar_Inr(3) [OF step] h1 by auto
  have x: "xl_fills x = xl_fills (execute_pending p1 b (length bars) x1)"
    using replay_bar_Inr(2) [OF step] h1 by (simp add: mark_to_market_def)
  have "next_open_fill c (bars @ [b]) (gs @ [g]) f" if f: "f \<in> set (xl_fills x)" for f
  proof (cases "f \<in> set (xl_fills x1)")
    case True
    then show ?thesis by (rule next_open_fill_mono [OF gs(4)])
  next
    case False
    then obtain g0 ts where p1: "p1 = Some (g0, ts)" using f unfolding x execute_pending_def by (cases p1) auto
    then have last: "bars \<noteq> []" "last gs = Some g0" "ts = bar_iso (last bars)" using gs(3) by (auto split: if_splits)
    have "fill_bar_index f = length bars \<and> ord_side (fill_order f) = sig_side g0
        \<and> executed_at c (opening_price b) f \<and> ord_timestamp (fill_order f) = ts"
      using f False process_signal_fill(2) [of g0 "execution_price b" "length bars" ts x1] unfolding x execute_pending_def p1
      by (auto simp: cfg execution_price_opening)
    moreover have "gs \<noteq> []" using last(1) gs(2) by auto
    then have "gs ! (length bars - 1) = Some g0" "bars ! (length bars - 1) = last bars" "0 < length bars"
      using last(1,2) gs(2) last_conv_nth [of gs] last_conv_nth [of bars] by simp_all
    ultimately show ?thesis unfolding next_open_fill_def using last(3) gs(2)
      by (intro exI [of _ "length bars"] exI [of _ g0]) (simp add: nth_append)
  qed
  then show ?case using strategy_run_snoc [OF gs(1), of b s' g] g gs(2) by auto
qed (simp add: new_layer_def)

text \<open>
  C20: Signals are executed at the open of the next bar: every fill of a replay answers the signal that the
  strategy gave on the bar before it, from that bar and the earlier ones alone; it executes at the open of
  its own bar (at the close where the open is missing or zero), shifted against the order by the configured
  slippage, with the configured commission on the price and quantity it has, and is stamped with the time of
  the signal.  The one exception is the final liquidation, the last fill, which executes with the same costs
  at the close of the last bar.
\<close>

theorem fills_at_next_open:
  assumes "replay st s bars (new_layer c) = Inr y"
  shows "\<exists>s' gs. strategy_run st (st_reset st s) [] bars = Inr (s', gs) \<and> length gs = length bars
    \<and> (\<forall>f \<in> set (xl_fills y). next_open_fill c bars gs f
        \<or> f = last (xl_fills y) \<and> fill_bar_index f = length bars - 1
          \<and> executed_at c (bar_close (last bars)) f)"
proof -
  obtain s' p' z where run: "replay_bars st bars ([], st_reset st s, None, new_layer c) = Inr (bars, s', p', z)"
    and y: "y = liquidate st bars z" by (rule replay_Inr [OF assms])
  from replay_bars_next_open [OF run] obtain gs where gs: "strategy_run st (st_reset st s) [] bars = Inr (s', gs)"
    "length gs = length bars" "\<forall>f \<in> set (xl_fills z). next_open_fill c bars gs f" by blast
  have cfg: "xl_config z = c" using replay_bars_extends [OF run] by (simp add: extends_def new_layer_def)
  have "xl_fills y = xl_fills z \<or> (\<exists>f. xl_fills y = xl_fills z @ [f] \<and> fill_bar_index f = length bars - 1
      \<and> executed_at c (bar_close (last bars)) f)"
    unfolding y liquidate_def Let_def using process_signal_fill(2) by (force simp: cfg)
  then show ?thesis using gs by auto
qed

section \<open>An example\<close>

definition sample_config :: ExecutionConfig where
  "sample_config =
     \<lparr>xc_initial_capital = Flt 1024, xc_commission_spec = ''fixed:0.0'', xc_slippage_spec = ''fixed:0.0'', xc_symbol = ''XAUUSD'',
      xc_position_size = Flt 1, xc_commission = (Fixed_Cost, Flt 0), xc_slippage = (Fixed_Cost, Flt 0)\<rparr>"

definition sample_bar :: "rat \<Rightarrow> ReplayBar" where
  "sample_bar p = \<lparr>bar_close = Flt p, bar_open = Some (Flt p), bar_iso = ''t''\<rparr>"

lemma buy_and_hold_runs: "\<exists>y. replay buy_and_hold () [a, b] x = Inr y"
  by (simp add: replay_def replay_bar_def buy_and_hold_def Let_def)

theorem replay_no_lookahead_witness:
  "\<exists>y z. replay buy_and_hold () ([sample_bar 1] @ [sample_bar 2]) (new_layer sample_config) = Inr y
    \<and> replay buy_and_hold () ([sample_bar 1] @ [sample_bar 4]) (new_layer sample_config) = Inr z \<and> up_to 1 y = up_to 1 z"
proof -
  obtain y where y: "replay buy_and_hold () ([sample_bar 1] @ [sample_bar 2]) (new_layer sample_config) = Inr y"
    using buy_and_hold_runs unfolding append_Cons append_Nil by blast
  obtain z where z: "replay buy_and_hold () ([sample_bar 1] @ [sample_bar 4]) (new_layer sample_config) = Inr z"
    using buy_and_hold_runs unfolding append_Cons append_Nil by blast
  have "up_to (length [sample_bar 1]) y = up_to (length [sample_bar 1]) z" by (rule replay_no_lookahead [OF y z]) simp_all
  then show ?thesis using y z by auto
qed

theorem replay_ledger_closes_witness:
  "\<exists>y. replay buy_and_hold () [sample_bar 1, sample_bar 2] (new_layer sample_config) = Inr y
    \<and> xl_position_qty y = Flt 0 \<and> xl_fills y = trade_fills (xl_trades y)"
proof -
  obtain y where y: "replay buy_and_hold () [sample_bar 1, sample_bar 2] (new_layer sample_config) = Inr y"
    using buy_and_hold_runs by blast
  have "unit_size sample_config 1" by (simp add: unit_size_def sample_config_def double_1)
  from replay_ledger_closes [OF y this] show ?thesis using y by blast
qed

lemma process_signal_keeps: "xl_fills x \<noteq> [] \<Longrightarrow> xl_fills (process_signal g price i ts x) \<noteq> []"
  using process_signal_fill(2) [of g price i ts x] by auto

lemma buy_and_hold_fills:
  assumes "replay buy_and_hold () [a, b] (new_layer c) = Inr y"
  shows "xl_fills y \<noteq> []"
proof -
  obtain g ts x1 where g: "sig_side g = BUY" "xl_position_qty x1 = Flt 0"
    and y: "y = liquidate buy_and_hold [a, b] (mark_to_market (bar_close b) 1 (bar_iso b) (process_signal g (execution_price b) 1 ts x1))"
  proof
    show "sig_side \<lparr>sig_bar_index = 0, sig_timestamp = bar_iso a, sig_side = BUY, sig_confidence = Flt 1,
        sig_metadata = [(''strategy'', fstr ''buy_and_hold''), (''reason'', fstr ''buy_and_hold_entry'')]\<rparr> = BUY" by simp
    show "xl_position_qty (mark_to_market (bar_close a) 0 (bar_iso a) (new_layer c)) = Flt 0"
      by (simp add: mark_to_market_def new_layer_def)
    show "y = liquidate buy_and_hold [a, b] (mark_to_market (bar_close b) 1 (bar_iso b) (process_signal
        \<lparr>sig_bar_index = 0, sig_timestamp = bar_iso a, sig_side = BUY, sig_confidence = Flt 1,
          sig_metadata = [(''strategy'', fstr ''buy_and_hold''), (''reason'', fstr ''buy_and_hold_entry'')]\<rparr>
        (execution_price b) 1 (bar_iso a) (mark_to_market (bar_close a) 0 (bar_iso a) (new_layer c))))"
      using assms by (simp add: replay_def replay_bar_def buy_and_hold_def Let_def execute_pending_def)
  qed
  define x2 where "x2 = process_signal g (execution_price b) 1 ts x1"
  have "xl_fills x2 \<noteq> []"
    using g by (simp add: x2_def process_signal_def redundant_signal_def f_less_finite fill_order_at_def apply_fill_def
        record_trade_close_def clear_entry_def set_entry_def Let_def split: option.split)
  then have "xl_fills (mark_to_market (bar_close b) 1 (bar_iso b) x2) \<noteq> []" by (simp add: mark_to_market_def)
  then show ?thesis unfolding y x2_def [symmetric] by (simp add: liquidate_def Let_def process_signal_keeps)
qed

theorem fills_at_next_open_witness:
  "\<exists>y f gs. replay buy_and_hold () [sample_bar 1, sample_bar 2] (new_layer sample_config) = Inr y \<and> f \<in> set (xl_fills y)
    \<and> (next_open_fill sample_config [sample_bar 1, sample_bar 2] gs f \<or> executed_at sample_config (Flt 2) f)"
proof -
  obtain y where y: "replay buy_and_hold () [sample_bar 1, sample_bar 2] (new_layer sample_config) = Inr y"
    using buy_and_hold_runs by blast
  obtain f where "f \<in> set (xl_fills y)" using buy_and_hold_fills [OF y] by (cases "xl_fills y") auto
  moreover have "bar_close (last [sample_bar 1, sample_bar 2]) = Flt 2" by (simp add: sample_bar_def)
  ultimately show ?thesis using fills_at_next_open [OF y] y by metis
qed

section \<open>Unintended behaviour\<close>

text \<open>
  The final liquidation is not marked: its commission and slippage reach the cash and the trades, but not
  the equity curve, so that the reported final equity and total return are those before it.
\<close>

lemma liquidation_not_marked: "final_equity (liquidate st bars x) = final_equity x"
  by (simp add: final_equity_def liquidate_extends) (simp add: liquidate_def Let_def process_signal_frame)

text \<open>An open price of zero counts as missing.\<close>

lemma zero_open_ignored: "execution_price (b\<lparr>bar_open := Some (Flt 0)\<rparr>) = bar_close b"
  by (simp add: execution_price_def f_eq_def)

end
