(* ===== verification/Multiple_Testing.thy ===== *)
theory Multiple_Testing
  imports Float_Text
begin

text \<open>
  Multiple testing (\<open>research_core/multiple_testing.py\<close>): p-values adjusted by Holm and by
  Benjamini-Hochberg, and the decisions at a level.
\<close>

section \<open>Results\<close>

record MultipleTestingResult =
  mt_schema_version :: string
  mt_method :: string
  mt_p_values :: "pyfloat list"
  mt_adjusted_p_values :: "pyfloat list"
  mt_alpha :: pyfloat

definition MULTIPLE_TESTING_SCHEMA_VERSION :: string where
  "MULTIPLE_TESTING_SCHEMA_VERSION = ''multiple-testing.v1''"

definition probability :: "pyfloat \<Rightarrow> bool" where
  "probability p \<longleftrightarrow> f_le (Flt 0) p \<and> f_le p (Flt 1)"

definition MultipleTestingResult_init :: "MultipleTestingResult \<Rightarrow> MultipleTestingResult result" where
  "MultipleTestingResult_init r =
     (if mt_schema_version r \<noteq> MULTIPLE_TESTING_SCHEMA_VERSION then Inl (ValueError ''unsupported multiple-testing schema version'')
      else if mt_method r \<notin> {''holm'', ''benjamini_hochberg''} then Inl (ValueError ''unsupported multiple-testing method'')
      else if length (mt_p_values r) \<noteq> length (mt_adjusted_p_values r) then Inl (ValueError ''p-value lengths must match'')
      else if \<not> (f_less (Flt 0) (mt_alpha r) \<and> f_less (mt_alpha r) (Flt 1)) then Inl (ValueError ''alpha must be in (0, 1)'')
      else if \<not> list_all probability (mt_p_values r) then Inl (ValueError ''p_values must be in [0, 1]'')
      else if \<not> list_all probability (mt_adjusted_p_values r) then Inl (ValueError ''adjusted_p_values must be in [0, 1]'')
      else Inr r)"

definition reject :: "MultipleTestingResult \<Rightarrow> bool list" where
  "reject r = map (\<lambda>p. f_le p (mt_alpha r)) (mt_adjusted_p_values r)"

definition MultipleTestingResult_to_dict :: "MultipleTestingResult \<Rightarrow> fjson" where
  "MultipleTestingResult_to_dict r =
     FObj [(''schema_version'', fstr (mt_schema_version r)), (''method'', fstr (mt_method r)),
       (''p_values'', FList (map FNum (mt_p_values r))), (''adjusted_p_values'', FList (map FNum (mt_adjusted_p_values r))),
       (''alpha'', FNum (mt_alpha r)), (''reject'', FJson (JList (map JBool (reject r))))]"

section \<open>Adjustment\<close>

text \<open>
  The indices in ascending order of the p-values; the sort is stable, so that ties stay in the order of the
  indices.  Values that are not finite are refused by
  the constructor of the result, so that their place in the order does not matter.
\<close>

definition test_order :: "pyfloat list \<Rightarrow> nat list" where
  "test_order vs = sort_key (\<lambda>i. val (vs ! i)) [0..<length vs]"

text \<open>The loop that both corrections share: a running extremum is assigned to the index of each candidate.\<close>

fun assign_running :: "(pyfloat \<Rightarrow> pyfloat \<Rightarrow> pyfloat) \<Rightarrow> pyfloat \<Rightarrow> (nat \<times> pyfloat) list \<Rightarrow> pyfloat list \<Rightarrow> pyfloat list" where
  "assign_running f running [] adjusted = adjusted"
| "assign_running f running ((i, c) # cs) adjusted = assign_running f (f running c) cs (adjusted[i := f running c])"

definition holm_product :: "pyfloat list \<Rightarrow> nat \<Rightarrow> pyfloat" where
  "holm_product vs rank = f_mul (f_of_int (int (length vs - rank))) (vs ! (test_order vs ! rank))"

definition holm :: "pyfloat list \<Rightarrow> pyfloat list" where
  "holm vs =
     assign_running f_max (Flt 0) (map (\<lambda>rank. (test_order vs ! rank, f_min (Flt 1) (holm_product vs rank))) [0..<length vs])
       (replicate (length vs) (Flt 0))"

text \<open>The divisor is a positive rank: the division does not fail.\<close>

definition bh_quotient :: "pyfloat list \<Rightarrow> nat \<Rightarrow> pyfloat" where
  "bh_quotient vs rank =
     (case f_div (f_mul (vs ! (test_order vs ! rank)) (f_of_int (int (length vs)))) (f_of_int (int (rank + 1))) of
        Inr v \<Rightarrow> v | Inl _ \<Rightarrow> Nan)"

definition benjamini_hochberg :: "pyfloat list \<Rightarrow> pyfloat list" where
  "benjamini_hochberg vs =
     assign_running f_min (Flt 1) (map (\<lambda>rank. (test_order vs ! rank, f_min (Flt 1) (bh_quotient vs rank))) (rev [0..<length vs]))
       (replicate (length vs) (Flt 0))"

definition adjust_p_values :: "pyfloat list \<Rightarrow> string \<Rightarrow> pyfloat \<Rightarrow> MultipleTestingResult result" where
  "adjust_p_values vs method alpha =
     (let built = (\<lambda>adjusted. MultipleTestingResult_init \<lparr>mt_schema_version = MULTIPLE_TESTING_SCHEMA_VERSION, mt_method = method,
            mt_p_values = vs, mt_adjusted_p_values = adjusted, mt_alpha = alpha\<rparr>)
      in if method = ''holm'' then built (holm vs)
         else if method = ''benjamini_hochberg'' then built (benjamini_hochberg vs)
         else Inl (ValueError ''unsupported multiple-testing method''))"

section \<open>The order and the loop\<close>

lemma test_order_perm: "length (test_order vs) = length vs" "distinct (test_order vs)" "set (test_order vs) = {..<length vs}"
  by (auto simp: test_order_def)

lemma assign_running_other: "i \<notin> fst ` set cs \<Longrightarrow> assign_running f r cs adj ! i = adj ! i"
  by (induction cs arbitrary: r adj) auto

lemma assign_running_length [simp]: "length (assign_running f r cs adj) = length adj"
  by (induction cs arbitrary: r adj) auto

lemma assign_running_nth:
  "distinct (map fst cs) \<Longrightarrow> k < length cs \<Longrightarrow> fst (cs ! k) < length adj \<Longrightarrow>
   assign_running f r cs adj ! fst (cs ! k) = foldl f r (map snd (take (Suc k) cs))"
proof (induction cs arbitrary: r adj k)
  case (Cons ic cs)
  obtain i c where ic: "ic = (i, c)" by (cases ic)
  show ?case
  proof (cases k)
    case 0
    then show ?thesis using Cons.prems by (simp add: ic assign_running_other)
  next
    case (Suc m)
    then show ?thesis using Cons.IH [of m "adj[i := f r c]" "f r c"] Cons.prems by (simp add: ic)
  qed
qed simp

lemma f_max_bound: "f_isfinite a \<Longrightarrow> list_all f_isfinite cs \<Longrightarrow> f_isfinite b \<Longrightarrow>
    f_le (foldl f_max a cs) b \<longleftrightarrow> f_le a b \<and> list_all (\<lambda>c. f_le c b) cs"
  by (induction cs arbitrary: a) (auto simp: f_max_def f_less_finite f_le_finite)

lemma f_min_bound: "f_isfinite a \<Longrightarrow> list_all f_isfinite cs \<Longrightarrow> f_isfinite b \<Longrightarrow>
    f_le (foldl f_min a cs) b \<longleftrightarrow> f_le a b \<or> list_ex (\<lambda>c. f_le c b) cs"
  by (induction cs arbitrary: a) (auto simp: f_min_def f_less_finite f_le_finite)

lemma f_max_finite: "list_all f_isfinite cs \<Longrightarrow> f_isfinite a \<Longrightarrow> f_isfinite (foldl f_max a cs)"
  by (induction cs arbitrary: a) (auto simp: f_max_def)

definition unit_interval :: "pyfloat \<Rightarrow> bool" where
  "unit_interval a \<longleftrightarrow> f_isfinite a \<and> 0 \<le> val a \<and> val a \<le> 1"

lemma extremum_unit:
  "unit_interval a \<Longrightarrow> list_all unit_interval cs \<Longrightarrow> unit_interval (foldl f_max a cs)"
  "unit_interval a \<Longrightarrow> list_all unit_interval cs \<Longrightarrow> unit_interval (foldl f_min a cs)"
  by (induction cs arbitrary: a) (auto simp: f_max_def f_min_def)

section \<open>The classical procedures\<close>

text \<open>
  The procedures as the literature states them, over the p-values alone, without a sort: tests are compared by
  their p-values, equal ones by their position.  Holm rejects a test when every test up to it has a p-value
  whose product with the number of tests from there on is at most the level.  Benjamini-Hochberg rejects a
  test when some test from it on has a p-value that, times the number of tests and divided by the number of
  tests up to there, is at most the level.  Products and quotients are those of floats.
\<close>

definition no_later :: "pyfloat list \<Rightarrow> nat \<Rightarrow> nat \<Rightarrow> bool" where
  "no_later vs j i \<longleftrightarrow> val (vs ! j) < val (vs ! i) \<or> val (vs ! j) = val (vs ! i) \<and> j \<le> i"

definition tests_from :: "pyfloat list \<Rightarrow> nat \<Rightarrow> nat" where
  "tests_from vs j = length (filter (no_later vs j) [0..<length vs])"

definition tests_up_to :: "pyfloat list \<Rightarrow> nat \<Rightarrow> nat" where
  "tests_up_to vs j = length (filter (\<lambda>i. no_later vs i j) [0..<length vs])"

definition step_down :: "pyfloat list \<Rightarrow> pyfloat \<Rightarrow> nat list" where
  "step_down vs alpha =
     filter (\<lambda>i. \<forall>j \<in> set [0..<length vs]. no_later vs j i \<longrightarrow>
         f_le (f_mul (f_of_int (int (tests_from vs j))) (vs ! j)) alpha) [0..<length vs]"

definition step_up :: "pyfloat list \<Rightarrow> pyfloat \<Rightarrow> nat list" where
  "step_up vs alpha =
     filter (\<lambda>i. \<exists>j \<in> set [0..<length vs]. no_later vs i j
         \<and> (case f_div (f_mul (vs ! j) (f_of_int (int (length vs)))) (f_of_int (int (tests_up_to vs j))) of
              Inr q \<Rightarrow> f_le q alpha | Inl _ \<Rightarrow> False)) [0..<length vs]"

text \<open>The stable sort puts the tests in exactly this order.\<close>

lemma stable_order:
  "(\<And>k. sorted_wrt (<) (filter (\<lambda>y. f y = k) xs)) \<Longrightarrow> sorted (map f xs) \<Longrightarrow>
   sorted_wrt (\<lambda>x y. f x < f y \<or> f x = f y \<and> x < y) xs" for f :: "nat \<Rightarrow> 'k :: linorder" and xs :: "nat list"
proof (induction xs)
  case (Cons x xs)
  have "sorted_wrt (<) (filter (\<lambda>y. f y = k) xs)" for k using Cons.prems(1) [of k] by (simp split: if_splits)
  then have "sorted_wrt (\<lambda>x y. f x < f y \<or> f x = f y \<and> x < y) xs" using Cons.IH Cons.prems(2) by simp
  moreover have "f x < f y \<or> f x = f y \<and> x < y" if "y \<in> set xs" for y
    using Cons.prems(1) [of "f x"] Cons.prems(2) that by (cases "f x = f y") (auto simp: order.order_iff_strict)
  ultimately show ?case by simp
qed simp

lemma no_later_order:
  assumes "a < length vs" "b < length vs"
  shows "no_later vs (test_order vs ! a) (test_order vs ! b) \<longleftrightarrow> a \<le> b"
proof -
  let ?f = "\<lambda>i. val (vs ! i)"
  have sorted: "sorted_wrt (\<lambda>x y. ?f x < ?f y \<or> ?f x = ?f y \<and> x < y) (test_order vs)"
    unfolding test_order_def
    by (rule stable_order) (simp_all add: sort_key_stable sorted_wrt_filter sorted_wrt_upt)
  have less: "no_later vs (test_order vs ! i) (test_order vs ! j) \<and> \<not> no_later vs (test_order vs ! j) (test_order vs ! i)"
    if "i < j" "j < length vs" for i j
    using sorted_wrt_nth_less [OF sorted that(1)] that(2) by (auto simp: no_later_def test_order_perm(1))
  have "no_later vs (test_order vs ! a) (test_order vs ! a)" by (simp add: no_later_def)
  then show ?thesis using less [of a b] less [of b a] assms by (metis linorder_neqE_nat not_le order_less_imp_le order_refl)
qed

lemma count_order: "length (filter P [0..<length vs]) = card {j. j < length vs \<and> P (test_order vs ! j)}"
proof -
  have "mset (filter P (test_order vs)) = mset (filter P [0..<length vs])" by (simp add: test_order_def)
  then have "length (filter P [0..<length vs]) = length (filter P (test_order vs))" by (metis size_mset)
  then show ?thesis by (simp add: length_filter_conv_card test_order_perm(1))
qed

lemma tests_at:
  assumes "k < length vs"
  shows "tests_from vs (test_order vs ! k) = length vs - k" "tests_up_to vs (test_order vs ! k) = k + 1"
proof -
  have "{j. j < length vs \<and> no_later vs (test_order vs ! k) (test_order vs ! j)} = {k..<length vs}"
    "{j. j < length vs \<and> no_later vs (test_order vs ! j) (test_order vs ! k)} = {..k}"
    using no_later_order assms by auto
  then show "tests_from vs (test_order vs ! k) = length vs - k" "tests_up_to vs (test_order vs ! k) = k + 1"
    by (simp_all add: tests_from_def tests_up_to_def count_order)
qed

lemma order_all: "(\<forall>j \<in> set [0..<length vs]. P j) \<longleftrightarrow> (\<forall>m < length vs. P (test_order vs ! m))"
  using test_order_perm(1,3) [of vs] by (metis atLeast_upt in_set_conv_nth lessThan_iff)

lemma order_ex: "(\<exists>j \<in> set [0..<length vs]. P j) \<longleftrightarrow> (\<exists>m < length vs. P (test_order vs ! m))"
  using order_all [of vs "\<lambda>j. \<not> P j"] by blast

lemma order_bound: "k < length vs \<Longrightarrow> test_order vs ! k < length vs"
  using test_order_perm nth_mem by (metis lessThan_iff)

lemma step_down_at:
  assumes "k < length vs"
  shows "test_order vs ! k \<in> set (step_down vs alpha) \<longleftrightarrow> (\<forall>j \<le> k. f_le (holm_product vs j) alpha)"
proof -
  have "f_mul (f_of_int (int (tests_from vs (test_order vs ! m)))) (vs ! (test_order vs ! m)) = holm_product vs m"
    if "m < length vs" for m
    using tests_at(1) [OF that] by (simp add: holm_product_def)
  then have "test_order vs ! k \<in> set (step_down vs alpha) \<longleftrightarrow>
      (\<forall>m < length vs. m \<le> k \<longrightarrow> f_le (holm_product vs m) alpha)"
    using assms order_bound [OF assms] unfolding step_down_def order_all by (simp add: no_later_order)
  then show ?thesis using assms by auto
qed

lemma step_up_at:
  assumes "k < length vs" "\<And>m. m < length vs \<Longrightarrow> f_isfinite (bh_quotient vs m)"
  shows "test_order vs ! k \<in> set (step_up vs alpha) \<longleftrightarrow> (\<exists>j. k \<le> j \<and> j < length vs \<and> f_le (bh_quotient vs j) alpha)"
proof -
  have "(case f_div (f_mul (vs ! (test_order vs ! m)) (f_of_int (int (length vs))))
        (f_of_int (int (tests_up_to vs (test_order vs ! m)))) of Inr q \<Rightarrow> f_le q alpha | Inl _ \<Rightarrow> False)
      \<longleftrightarrow> f_le (bh_quotient vs m) alpha"
    if "m < length vs" for m
    using tests_at(2) [OF that] assms(2) [OF that] by (auto simp: bh_quotient_def split: sum.splits)
  then show ?thesis
    using assms(1) order_bound [OF assms(1)] unfolding step_up_def mem_Collect_eq set_filter order_ex
    by (metis (no_types, lifting) atLeast0LessThan lessThan_iff no_later_order set_upt)
qed

definition valid_tests :: "pyfloat list \<Rightarrow> bool" where
  "valid_tests vs \<longleftrightarrow> list_all (\<lambda>p. f_isfinite p \<and> 0 \<le> val p \<and> val p \<le> 1) vs \<and> length vs \<le> 2 ^ 53"

lemma valid_test: "valid_tests vs \<Longrightarrow> i < length vs \<Longrightarrow> f_isfinite (vs ! i) \<and> 0 \<le> val (vs ! i) \<and> val (vs ! i) \<le> 1"
  by (simp add: valid_tests_def list_all_length)

lemma ordered_test:
  assumes "valid_tests vs" "rank < length vs"
  shows "f_isfinite (vs ! (test_order vs ! rank))" "0 \<le> val (vs ! (test_order vs ! rank))" "val (vs ! (test_order vs ! rank)) \<le> 1"
proof -
  have "test_order vs ! rank < length vs" using assms(2) test_order_perm nth_mem by (metis lessThan_iff)
  then show "f_isfinite (vs ! (test_order vs ! rank))" "0 \<le> val (vs ! (test_order vs ! rank))" "val (vs ! (test_order vs ! rank)) \<le> 1"
    using valid_test [OF assms(1)] by blast+
qed

lemma holm_product_finite:
  assumes "valid_tests vs" "rank < length vs"
  shows "f_isfinite (holm_product vs rank)" "0 \<le> val (holm_product vs rank)"
proof -
  note p = ordered_test [OF assms]
  let ?m = "length vs - rank"
  have m: "?m \<le> 2 ^ 53" using assms(1) by (auto simp: valid_tests_def intro: order_trans [OF diff_le_self])
  have "rounds (holm_product vs rank) (of_nat ?m * val (vs ! (test_order vs ! rank)))"
    unfolding holm_product_def f_of_nat [OF m] using f_arith_rounds(3) [of "Flt (of_nat ?m)"] p(1) by simp
  moreover have "of_nat ?m * val (vs ! (test_order vs ! rank)) \<le> of_nat ?m" using p(3) by (simp add: mult_left_le)
  ultimately show "f_isfinite (holm_product vs rank)" "0 \<le> val (holm_product vs rank)"
    using rounds_between [OF _ double_0 double_nat [OF m]] p(2) by simp_all
qed

lemma bh_quotient_finite:
  assumes "valid_tests vs" "rank < length vs"
  shows "f_isfinite (bh_quotient vs rank)" "0 \<le> val (bh_quotient vs rank)"
proof -
  note p = ordered_test [OF assms]
  let ?n = "length vs" and ?p = "vs ! (test_order vs ! rank)"
  have n: "?n \<le> 2 ^ 53" "rank + 1 \<le> 2 ^ 53" using assms by (simp_all add: valid_tests_def)
  have "rounds (f_mul ?p (Flt (of_nat ?n))) (val ?p * of_nat ?n)" using f_arith_rounds(3) [of ?p "Flt (of_nat ?n)"] p(1) by simp
  moreover have "val ?p * of_nat ?n \<le> of_nat ?n" using p(3) by (simp add: mult_left_le_one_le p(2))
  ultimately have m: "f_isfinite (f_mul ?p (Flt (of_nat ?n)))" "0 \<le> val (f_mul ?p (Flt (of_nat ?n)))" "val (f_mul ?p (Flt (of_nat ?n))) \<le> of_nat ?n"
    using rounds_between [OF _ double_0 double_nat [OF n(1)]] p(2) by simp_all
  obtain q where q: "f_div (f_mul ?p (Flt (of_nat ?n))) (Flt (of_nat (rank + 1))) = Inr q"
    "rounds q (val (f_mul ?p (Flt (of_nat ?n))) / of_nat (rank + 1))"
    using f_arith_rounds(4) [OF m(1), of "Flt (of_nat (rank + 1))"] by (auto simp del: of_nat_Suc)
  have "val (f_mul ?p (Flt (of_nat ?n))) / of_nat (rank + 1) \<le> val (f_mul ?p (Flt (of_nat ?n))) / 1"
    using m(2) by (intro divide_left_mono) simp_all
  then have "f_isfinite q \<and> 0 \<le> val q"
    using rounds_between [OF q(2) double_0 double_nat [OF n(1)]] m(2,3) by simp
  moreover have "bh_quotient vs rank = q" unfolding bh_quotient_def f_of_nat [OF n(1)] f_of_nat [OF n(2)] q(1) by simp
  ultimately show "f_isfinite (bh_quotient vs rank)" "0 \<le> val (bh_quotient vs rank)" by blast+
qed

lemma capped_bound:
  assumes "f_isfinite c" "f_isfinite alpha" "val alpha < 1"
  shows "f_isfinite (f_min (Flt 1) c)" "f_le (f_min (Flt 1) c) alpha \<longleftrightarrow> f_le c alpha" "0 \<le> val c \<Longrightarrow> 0 \<le> val (f_min (Flt 1) c)"
    "val (f_min (Flt 1) c) \<le> 1"
  using assms by (auto simp: f_min_def f_less_finite f_le_finite)

text \<open>The adjusted values, compared with the level.\<close>

lemma holm_at:
  assumes "valid_tests vs" "k < length vs"
  shows "holm vs ! (test_order vs ! k) = foldl f_max (Flt 0) (map (\<lambda>rank. f_min (Flt 1) (holm_product vs rank)) [0..<Suc k])"
proof -
  let ?cs = "map (\<lambda>rank. (test_order vs ! rank, f_min (Flt 1) (holm_product vs rank))) [0..<length vs]"
  have "map fst ?cs = test_order vs" by (simp add: comp_def map_nth test_order_perm(1) [symmetric])
  then have "distinct (map fst ?cs)" using test_order_perm(2) by simp
  moreover have "test_order vs ! k < length vs" using assms(2) test_order_perm nth_mem by (metis lessThan_iff)
  ultimately show ?thesis using assign_running_nth [of ?cs k "replicate (length vs) (Flt 0)" f_max "Flt 0"] assms(2)
    by (simp add: holm_def take_map comp_def take_upt)
qed

lemma bh_at:
  assumes "valid_tests vs" "k < length vs"
  shows "benjamini_hochberg vs ! (test_order vs ! k) = foldl f_min (Flt 1) (map (\<lambda>rank. f_min (Flt 1) (bh_quotient vs rank)) (rev [k..<length vs]))"
proof -
  let ?n = "length vs"
  let ?cs = "map (\<lambda>rank. (test_order vs ! rank, f_min (Flt 1) (bh_quotient vs rank))) (rev [0..<?n])"
  have "map fst ?cs = rev (test_order vs)" by (simp add: comp_def rev_map [symmetric] map_nth test_order_perm(1) [symmetric])
  then have "distinct (map fst ?cs)" using test_order_perm(2) by simp
  moreover have "test_order vs ! k < ?n" using assms(2) test_order_perm nth_mem by (metis lessThan_iff)
  moreover have "take (Suc (?n - Suc k)) (rev [0..<?n]) = rev [k..<?n]" using assms(2) by (simp add: take_rev Suc_diff_Suc)
  moreover have "rev [0..<?n] ! (?n - Suc k) = k" using assms(2) by (simp add: rev_nth)
  ultimately show ?thesis using assign_running_nth [of ?cs "?n - Suc k" "replicate ?n (Flt 0)" f_min "Flt 1"] assms(2)
    by (simp add: benjamini_hochberg_def take_map comp_def)
qed

lemma holm_decision:
  assumes "valid_tests vs" "k < length vs" "f_isfinite alpha" "0 < val alpha" "val alpha < 1"
  shows "f_le (holm vs ! (test_order vs ! k)) alpha \<longleftrightarrow> (\<forall>j \<le> k. f_le (holm_product vs j) alpha)"
    "f_isfinite (holm vs ! (test_order vs ! k))"
proof -
  let ?cs = "map (\<lambda>rank. f_min (Flt 1) (holm_product vs rank)) [0..<Suc k]"
  have fin: "list_all f_isfinite ?cs"
    using capped_bound(1) [OF holm_product_finite(1) [OF assms(1)] assms(3,5)] assms(2) by (auto simp: list_all_iff)
  show "f_isfinite (holm vs ! (test_order vs ! k))"
    unfolding holm_at [OF assms(1,2)] using fin by (rule f_max_finite) simp
  have "f_le (foldl f_max (Flt 0) ?cs) alpha \<longleftrightarrow> f_le (Flt 0) alpha \<and> list_all (\<lambda>c. f_le c alpha) ?cs"
    by (rule f_max_bound [OF _ fin assms(3)]) simp
  also have "\<dots> \<longleftrightarrow> (\<forall>j \<le> k. f_le (holm_product vs j) alpha)"
    using capped_bound(2) [OF holm_product_finite(1) [OF assms(1)] assms(3,5)] assms(2-4)
    by (auto simp: list_all_iff f_le_finite less_Suc_eq_le)
  finally show "f_le (holm vs ! (test_order vs ! k)) alpha \<longleftrightarrow> (\<forall>j \<le> k. f_le (holm_product vs j) alpha)"
    unfolding holm_at [OF assms(1,2)] .
qed

lemma bh_decision:
  assumes "valid_tests vs" "k < length vs" "f_isfinite alpha" "0 < val alpha" "val alpha < 1"
  shows "f_le (benjamini_hochberg vs ! (test_order vs ! k)) alpha \<longleftrightarrow> (\<exists>j. k \<le> j \<and> j < length vs \<and> f_le (bh_quotient vs j) alpha)"
proof -
  let ?cs = "map (\<lambda>rank. f_min (Flt 1) (bh_quotient vs rank)) (rev [k..<length vs])"
  have fin: "list_all f_isfinite ?cs"
    using capped_bound(1) [OF bh_quotient_finite(1) [OF assms(1)] assms(3,5)] by (auto simp: list_all_iff)
  have "f_le (foldl f_min (Flt 1) ?cs) alpha \<longleftrightarrow> f_le (Flt 1) alpha \<or> list_ex (\<lambda>c. f_le c alpha) ?cs"
    by (rule f_min_bound [OF _ fin assms(3)]) simp
  also have "\<dots> \<longleftrightarrow> (\<exists>j. k \<le> j \<and> j < length vs \<and> f_le (bh_quotient vs j) alpha)"
    using capped_bound(2) [OF bh_quotient_finite(1) [OF assms(1)] assms(3,5)] assms(3,5)
    by (auto simp: list_ex_iff f_le_finite)
  finally show ?thesis unfolding bh_at [OF assms(1,2)] .
qed

lemma adjusted_length: "length (holm vs) = length vs" "length (benjamini_hochberg vs) = length vs"
  by (simp_all add: holm_def benjamini_hochberg_def)

lemma unit_probability: "unit_interval a \<Longrightarrow> probability a"
  by (simp add: unit_interval_def probability_def f_le_finite)

text \<open>Every adjusted value is a probability.\<close>

lemma adjusted_probabilities:
  assumes "valid_tests vs" "f_isfinite alpha" "val alpha < 1"
  shows "list_all probability (holm vs)" "list_all probability (benjamini_hochberg vs)"
proof -
  have inner: "\<exists>k < length vs. i = test_order vs ! k" if "i < length vs" for i
    using that test_order_perm(1,3) [of vs] by (metis in_set_conv_nth lessThan_iff)
  have unit: "\<And>k. k < length vs \<Longrightarrow> unit_interval (f_min (Flt 1) (holm_product vs k))"
    "\<And>k. k < length vs \<Longrightarrow> unit_interval (f_min (Flt 1) (bh_quotient vs k))"
    using capped_bound(1,3,4) [OF _ assms(2,3)] holm_product_finite [OF assms(1)] bh_quotient_finite [OF assms(1)]
    by (simp_all add: unit_interval_def)
  have "unit_interval (holm vs ! (test_order vs ! k))" "unit_interval (benjamini_hochberg vs ! (test_order vs ! k))" if k: "k < length vs" for k
    unfolding holm_at [OF assms(1) k] bh_at [OF assms(1) k]
    by (rule extremum_unit; use unit k in \<open>auto simp: list_all_iff unit_interval_def\<close>)+
  then have "unit_interval (holm vs ! i)" "unit_interval (benjamini_hochberg vs ! i)" if "i < length vs" for i
    using inner [OF that] by auto
  then show "list_all probability (holm vs)" "list_all probability (benjamini_hochberg vs)"
    using unit_probability by (simp_all add: list_all_length adjusted_length)
qed

lemma adjustment_decides:
  assumes "valid_tests vs" "f_less (Flt 0) alpha" "f_less alpha (Flt 1)"
  shows "\<exists>h b. adjust_p_values vs ''holm'' alpha = Inr h \<and> adjust_p_values vs ''benjamini_hochberg'' alpha = Inr b
    \<and> reject h = map (\<lambda>i. i \<in> set (step_down vs alpha)) [0..<length vs]
    \<and> reject b = map (\<lambda>i. i \<in> set (step_up vs alpha)) [0..<length vs]"
proof -
  have fin: "f_isfinite alpha" using assms(2,3) by (cases alpha) (auto simp: f_less_def)
  then have alpha: "0 < val alpha" "val alpha < 1" using assms(2,3) by (simp_all add: f_less_finite)
  have valid: "list_all probability vs" using assms(1) by (simp add: valid_tests_def probability_def f_le_finite list_all_iff)
  note adj = adjusted_probabilities [OF assms(1) fin alpha(2)]
  define built where "built = (\<lambda>m adjusted. \<lparr>mt_schema_version = MULTIPLE_TESTING_SCHEMA_VERSION, mt_method = m,
            mt_p_values = vs, mt_adjusted_p_values = adjusted, mt_alpha = alpha\<rparr>)"
  have ok: "adjust_p_values vs ''holm'' alpha = Inr (built ''holm'' (holm vs))"
    "adjust_p_values vs ''benjamini_hochberg'' alpha = Inr (built ''benjamini_hochberg'' (benjamini_hochberg vs))"
    using valid adj assms(2,3) by (simp_all add: adjust_p_values_def MultipleTestingResult_init_def built_def adjusted_length)
  have down: "f_le (holm vs ! i) alpha \<longleftrightarrow> i \<in> set (step_down vs alpha)" if i: "i < length vs" for i
  proof -
    obtain k where k: "k < length vs" "i = test_order vs ! k" using i test_order_perm(1,3) [of vs] by (metis in_set_conv_nth lessThan_iff)
    show ?thesis using holm_decision(1) [OF assms(1) k(1) fin alpha] step_down_at [OF k(1)] k(2) by simp
  qed
  have up: "f_le (benjamini_hochberg vs ! i) alpha \<longleftrightarrow> i \<in> set (step_up vs alpha)" if i: "i < length vs" for i
  proof -
    obtain k where k: "k < length vs" "i = test_order vs ! k" using i test_order_perm(1,3) [of vs] by (metis in_set_conv_nth lessThan_iff)
    show ?thesis
      using bh_decision [OF assms(1) k(1) fin alpha] step_up_at [OF k(1) bh_quotient_finite(1) [OF assms(1)]] k(2) by simp
  qed
  have "reject (built ''holm'' (holm vs)) = map (\<lambda>i. i \<in> set (step_down vs alpha)) [0..<length vs]"
    "reject (built ''benjamini_hochberg'' (benjamini_hochberg vs)) = map (\<lambda>i. i \<in> set (step_up vs alpha)) [0..<length vs]"
    using down up by (auto simp: reject_def built_def adjusted_length intro!: nth_equalityI)
  then show ?thesis using ok by blast
qed

lemma holm_rejects:
  assumes "adjust_p_values ps ''holm'' alpha = Inr r" "valid_tests ps"
    and "0 \<le> i" "i < int (length (mt_p_values r))" "reject r ! nat i"
  shows "nat i \<in> set (step_down ps alpha)"
proof -
  have r: "mt_p_values r = ps" "f_less (Flt 0) alpha" "f_less alpha (Flt 1)"
    using assms(1) by (auto simp: adjust_p_values_def MultipleTestingResult_init_def split: if_splits)
  have "reject r = map (\<lambda>i. i \<in> set (step_down ps alpha)) [0..<length ps]"
    using adjustment_decides [OF assms(2) r(2,3)] assms(1) by auto
  then show ?thesis using assms(3-5) r(1) by (simp add: nat_less_iff)
qed

text \<open>
  C21: The adjusted p-values decide as the classical procedures do: for p-values in the unit interval and a
  level strictly between 0 and 1 the adjustment succeeds, and the hypotheses it rejects are those of Holm's
  step-down and of the Benjamini-Hochberg step-up procedure, stated by counting the p-values that come before
  and after, with no sort and no running extremum, on the products and quotients as floats compute them.
\<close>

theorem adjustment_is_procedure:
  assumes "valid_tests vs" "f_less (Flt 0) alpha" "f_less alpha (Flt 1)"
  shows "\<exists>h b. adjust_p_values vs ''holm'' alpha = Inr h \<and> adjust_p_values vs ''benjamini_hochberg'' alpha = Inr b
    \<and> reject h = map (\<lambda>i. i \<in> set (step_down vs alpha)) [0..<length vs]
    \<and> reject b = map (\<lambda>i. i \<in> set (step_up vs alpha)) [0..<length vs]"
  by (rule adjustment_decides [OF assms])

lemma sample_tests_down: "step_down [Flt (1/8), Flt (1/64)] (Flt (1/16)) = [1]"
proof -
  have "double (1/8)" "double (1/32)" using double_pow2 [of "- 3"] double_pow2 [of "- 5"] by (simp_all add: pow2_def)
  then have "f_mul (f_of_int 1) (Flt (1/8)) = Flt (1/8)" "f_mul (f_of_int 2) (Flt (1/64)) = Flt (1/32)"
    using f_of_nat [of 1] f_of_nat [of 2] round_double by (simp_all add: f_mul_def f_signbit_def)
  then show ?thesis by (simp add: step_down_def tests_from_def no_later_def f_le_finite numeral_2_eq_2 upt_conv_Cons)
qed

theorem adjustment_is_procedure_witness:
  "\<exists>h. adjust_p_values [Flt (1/8), Flt (1/64)] ''holm'' (Flt (1/16)) = Inr h \<and> reject h = [False, True]"
proof -
  have "valid_tests [Flt (1/8), Flt (1/64)]" by (simp add: valid_tests_def)
  from adjustment_is_procedure [OF this, of "Flt (1/16)"] show ?thesis by (auto simp: f_less_finite sample_tests_down)
qed

end
