(* ===== verification/Edge_Registry.thy ===== *)
theory Edge_Registry
  imports Multiple_Testing Research_Contracts Json_Text
begin

text \<open>
  The edge registry (\<open>research_core/edge_registry.py\<close>) with the evidence that its gates read:
  evidence artifacts (\<open>research_core/evidence.py\<close>), calibration results (\<open>probability/calibration.py\<close>)
  and cost contexts (\<open>probability/economic_cost.py\<close>).
\<close>

section \<open>Evidence\<close>

datatype EvidenceKind = Kind_OUT_OF_SAMPLE | Kind_REPLICATION

fun evidence_kind_value :: "EvidenceKind \<Rightarrow> string" where
  "evidence_kind_value Kind_OUT_OF_SAMPLE = ''OUT_OF_SAMPLE''"
| "evidence_kind_value Kind_REPLICATION = ''REPLICATION''"

record EvidenceArtifact =
  art_evidence_id :: string
  art_kind :: EvidenceKind
  art_analysis_id :: string
  art_dataset_id :: string
  art_dataset_sha256 :: string
  art_partition_id :: string
  art_population_definition :: string
  art_sample_size :: int
  art_content_sha256 :: string
  art_independent_of_analysis_id :: "string option"

text \<open>The first blank field of a list of named ones.\<close>

definition require_nonblank :: "(string \<times> string) list \<Rightarrow> unit result" where
  "require_nonblank named =
     (case find (\<lambda>(_, v). blank v) named of
        Some (name, _) \<Rightarrow> Inl (ValueError (name @ '' must not be empty''))
      | None \<Rightarrow> Inr ())"

definition EvidenceArtifact_init :: "EvidenceArtifact \<Rightarrow> EvidenceArtifact result" where
  "EvidenceArtifact_init a =
     rbind (require_nonblank [(''evidence_id'', art_evidence_id a), (''analysis_id'', art_analysis_id a),
       (''dataset_id'', art_dataset_id a), (''partition_id'', art_partition_id a),
       (''population_definition'', art_population_definition a)]) (\<lambda>_.
     rbind (validate_sha256 (art_dataset_sha256 a) ''dataset_sha256'') (\<lambda>dataset.
     rbind (validate_sha256 (art_content_sha256 a) ''content_sha256'') (\<lambda>content.
       if art_sample_size a < 1 then Inl (ValueError ''sample_size must be >= 1'')
       else if art_kind a = Kind_REPLICATION \<and> art_independent_of_analysis_id a \<in> {None, Some ''''}
       then Inl (ValueError ''replication evidence requires independent_of_analysis_id'')
       else if art_kind a = Kind_REPLICATION \<and> art_independent_of_analysis_id a = Some (art_analysis_id a)
       then Inl (ValueError ''replication evidence must be independent of the source analysis'')
       else Inr (a\<lparr>art_dataset_sha256 := dataset, art_content_sha256 := content\<rparr>))))"

definition art_payload :: "EvidenceArtifact \<Rightarrow> (string \<times> json) list" where
  "art_payload a =
     [(''evidence_id'', JStr (art_evidence_id a)), (''kind'', JStr (evidence_kind_value (art_kind a))),
      (''analysis_id'', JStr (art_analysis_id a)), (''dataset_id'', JStr (art_dataset_id a)),
      (''dataset_sha256'', JStr (art_dataset_sha256 a)), (''partition_id'', JStr (art_partition_id a)),
      (''population_definition'', JStr (art_population_definition a)), (''sample_size'', JInt (art_sample_size a)),
      (''content_sha256'', JStr (art_content_sha256 a)),
      (''independent_of_analysis_id'', case art_independent_of_analysis_id a of None \<Rightarrow> JNull | Some s \<Rightarrow> JStr s)]"

definition evidence_sha256 :: "EvidenceArtifact \<Rightarrow> string" where
  "evidence_sha256 a = json_sha256 fmt_compact (JObj (art_payload a))"

record EconomicCostContext =
  spread_cost :: pyfloat
  slippage_cost :: pyfloat
  commission_cost :: pyfloat
  other_cost :: pyfloat
  cost_currency :: string
  cost_unit :: string
  cost_source :: string
  cost_version :: string

definition named_costs :: "EconomicCostContext \<Rightarrow> (string \<times> pyfloat) list" where
  "named_costs k =
     [(''spread_cost'', spread_cost k), (''slippage_cost'', slippage_cost k), (''commission_cost'', commission_cost k),
      (''other_cost'', other_cost k)]"

definition EconomicCostContext_init :: "EconomicCostContext \<Rightarrow> EconomicCostContext result" where
  "EconomicCostContext_init k =
     (case find (\<lambda>(_, v). f_less v (Flt 0)) (named_costs k) of
        Some (name, _) \<Rightarrow> Inl (ValueError (name @ '' must be >= 0''))
      | None \<Rightarrow> if blank (cost_unit k) then Inl (ValueError ''unit must not be empty'') else Inr k)"

definition total_cost :: "EconomicCostContext \<Rightarrow> pyfloat" where
  "total_cost k = f_add (f_add (f_add (spread_cost k) (slippage_cost k)) (commission_cost k)) (other_cost k)"

definition net_effect :: "EconomicCostContext \<Rightarrow> pyfloat \<Rightarrow> pyfloat" where
  "net_effect k gross = f_sub gross (total_cost k)"

record CalibrationResult =
  cal_brier_score :: pyfloat
  cal_sample_size :: int
  cal_mean_predicted_probability :: pyfloat
  cal_observed_frequency :: pyfloat

definition named_metrics :: "CalibrationResult \<Rightarrow> (string \<times> pyfloat) list" where
  "named_metrics c =
     [(''brier_score'', cal_brier_score c), (''mean_predicted_probability'', cal_mean_predicted_probability c),
      (''observed_frequency'', cal_observed_frequency c)]"

definition CalibrationResult_init :: "CalibrationResult \<Rightarrow> CalibrationResult result" where
  "CalibrationResult_init c =
     (if cal_sample_size c < 1 then Inl (ValueError ''sample_size must be >= 1'')
      else case find (\<lambda>(_, v). \<not> f_isfinite v) (named_metrics c) of
        Some (name, _) \<Rightarrow> Inl (ValueError (name @ '' must be finite''))
      | None \<Rightarrow> (case find (\<lambda>(_, v). \<not> probability v) (named_metrics c) of
          Some (name, _) \<Rightarrow> Inl (ValueError (name @ '' must be in [0, 1]''))
        | None \<Rightarrow> Inr c))"

section \<open>Edge definitions\<close>

datatype EdgeState = NOT_ELIGIBLE | ELIGIBLE

fun edge_state_value :: "EdgeState \<Rightarrow> string" where
  "edge_state_value NOT_ELIGIBLE = ''NOT_ELIGIBLE''"
| "edge_state_value ELIGIBLE = ''ELIGIBLE''"

record ProbabilityDefinition =
  pd_probability_id :: string
  pd_version :: string
  pd_event_definition :: string
  pd_denominator_definition :: string
  pd_horizon :: string
  pd_min_sample_size :: int

definition ProbabilityDefinition_init :: "ProbabilityDefinition \<Rightarrow> ProbabilityDefinition result" where
  "ProbabilityDefinition_init d =
     rbind (require_nonblank [(''probability_id'', pd_probability_id d), (''version'', pd_version d),
       (''event_definition'', pd_event_definition d), (''denominator_definition'', pd_denominator_definition d),
       (''horizon'', pd_horizon d)]) (\<lambda>_.
     if pd_min_sample_size d < 1 then Inl (ValueError ''min_sample_size must be >= 1'') else Inr d)"

record EdgeDefinition =
  ed_edge_id :: string
  ed_version :: string
  ed_outcome_definition :: string
  ed_null_definition :: string
  ed_minimum_effect_size :: pyfloat
  ed_minimum_sample_size :: int
  ed_requires_out_of_sample :: bool
  ed_requires_replication :: bool
  ed_requires_multiple_testing :: bool
  ed_requires_calibration :: bool
  ed_requires_economic_cost_context :: bool
  ed_probability :: "ProbabilityDefinition option"

definition EdgeDefinition_init :: "EdgeDefinition \<Rightarrow> EdgeDefinition result" where
  "EdgeDefinition_init d =
     rbind (require_nonblank [(''edge_id'', ed_edge_id d), (''version'', ed_version d),
       (''outcome_definition'', ed_outcome_definition d), (''null_definition'', ed_null_definition d)]) (\<lambda>_.
     if ed_minimum_sample_size d < 1 then Inl (ValueError ''minimum_sample_size must be >= 1'') else Inr d)"

text \<open>The keyword arguments of \<open>evaluate\<close>.\<close>

record EdgeEvidence =
  ee_sample_size :: int
  ee_out_of_sample :: bool
  ee_replicated :: bool
  ee_observed_effect_size :: pyfloat
  ee_uncertainty_lower_bound :: "pyfloat option"
  ee_out_of_sample_evidence_id :: "string option"
  ee_replication_evidence_id :: "string option"
  ee_out_of_sample_evidence :: "EvidenceArtifact option"
  ee_replication_evidence :: "EvidenceArtifact option"
  ee_multiple_testing_result :: "MultipleTestingResult option"
  ee_hypothesis_index :: int
  ee_calibration_result :: "CalibrationResult option"
  ee_economic_cost_context :: "EconomicCostContext option"

definition reason_if :: "bool \<Rightarrow> string \<Rightarrow> string list" where
  "reason_if b r = (if b then [r] else [])"

definition below :: "string \<Rightarrow> string \<Rightarrow> string \<Rightarrow> string" where
  "below name observed minimum = name @ '':'' @ observed @ ''<'' @ minimum"

definition statistics_reasons :: "EdgeDefinition \<Rightarrow> EdgeEvidence \<Rightarrow> string list" where
  "statistics_reasons d e =
     (let least = ed_minimum_effect_size d
      in reason_if (ee_sample_size e < ed_minimum_sample_size d)
           (below ''insufficient_sample_size'' (py_str_int (ee_sample_size e)) (py_str_int (ed_minimum_sample_size d)))
         @ reason_if (f_less (ee_observed_effect_size e) least)
           (below ''effect_below_minimum'' (float_repr (ee_observed_effect_size e)) (float_repr least))
         @ (case ee_uncertainty_lower_bound e of
              None \<Rightarrow> [''uncertainty_required'']
            | Some l \<Rightarrow> reason_if (f_less l least) (below ''uncertainty_below_minimum'' (float_repr l) (float_repr least))))"

definition testing_reasons :: "EdgeEvidence \<Rightarrow> string list" where
  "testing_reasons e =
     (case ee_multiple_testing_result e of
        None \<Rightarrow> [''multiple_testing_result_required'']
      | Some r \<Rightarrow>
          if \<not> (0 \<le> ee_hypothesis_index e \<and> ee_hypothesis_index e < int (length (mt_p_values r)))
          then [''multiple_testing_hypothesis_index_invalid'']
          else reason_if (\<not> reject r ! nat (ee_hypothesis_index e)) ''multiple_testing_not_rejected'')"

definition calibration_reasons :: "EdgeDefinition \<Rightarrow> EdgeEvidence \<Rightarrow> string list" where
  "calibration_reasons d e =
     (case ee_calibration_result e of
        None \<Rightarrow> [''calibration_result_required'']
      | Some c \<Rightarrow> reason_if (cal_sample_size c < ed_minimum_sample_size d)
          (below ''calibration_sample_size_insufficient'' (py_str_int (cal_sample_size c)) (py_str_int (ed_minimum_sample_size d))))"

definition cost_reasons :: "EdgeDefinition \<Rightarrow> EdgeEvidence \<Rightarrow> string list" where
  "cost_reasons d e =
     (case ee_economic_cost_context e of
        None \<Rightarrow> [''economic_cost_context_required'']
      | Some k \<Rightarrow>
          let net = net_effect k (ee_observed_effect_size e)
          in reason_if (f_less (Flt 0) (total_cost k) \<and> f_less net (ed_minimum_effect_size d))
               (below ''net_effect_below_minimum'' (float_repr net) (float_repr (ed_minimum_effect_size d))))"

text \<open>A declared identifier counts when it is not empty.\<close>

definition id_mismatch :: "string option \<Rightarrow> EvidenceArtifact \<Rightarrow> bool" where
  "id_mismatch declared a \<longleftrightarrow> (case declared of None \<Rightarrow> False | Some i \<Rightarrow> i \<noteq> [] \<and> art_evidence_id a \<noteq> i)"

definition out_of_sample_reasons :: "EdgeEvidence \<Rightarrow> string list" where
  "out_of_sample_reasons e =
     reason_if (\<not> ee_out_of_sample e) ''out_of_sample_required''
     @ (case ee_out_of_sample_evidence e of
          None \<Rightarrow> [''out_of_sample_evidence_artifact_required'']
        | Some a \<Rightarrow>
            reason_if (id_mismatch (ee_out_of_sample_evidence_id e) a) ''out_of_sample_evidence_id_mismatch''
            @ reason_if (art_kind a \<noteq> Kind_OUT_OF_SAMPLE) ''out_of_sample_evidence_kind_invalid''
            @ reason_if (art_sample_size a \<noteq> ee_sample_size e) ''out_of_sample_sample_size_mismatch'')"

definition replication_reasons :: "EdgeEvidence \<Rightarrow> string list" where
  "replication_reasons e =
     reason_if (\<not> ee_replicated e) ''replication_required''
     @ (case ee_replication_evidence e of
          None \<Rightarrow> [''replication_evidence_artifact_required'']
        | Some a \<Rightarrow>
            reason_if (id_mismatch (ee_replication_evidence_id e) a) ''replication_evidence_id_mismatch''
            @ reason_if (art_kind a \<noteq> Kind_REPLICATION) ''replication_evidence_kind_invalid'')"

definition evaluate_edge :: "EdgeDefinition \<Rightarrow> EdgeEvidence \<Rightarrow> EdgeState \<times> string list" where
  "evaluate_edge d e =
     (let reasons = statistics_reasons d e
            @ (if ed_requires_multiple_testing d then testing_reasons e else [])
            @ (if ed_requires_calibration d then calibration_reasons d e else [])
            @ (if ed_requires_economic_cost_context d then cost_reasons d e else [])
            @ (if ed_requires_out_of_sample d then out_of_sample_reasons e else [])
            @ (if ed_requires_replication d then replication_reasons e else [])
      in if reasons \<noteq> [] then (NOT_ELIGIBLE, reasons) else (ELIGIBLE, []))"

section \<open>The registry\<close>

record EdgeDecision =
  dec_edge_id :: string
  dec_version :: string
  dec_state :: EdgeState
  dec_reasons :: "string list"

record EdgeRegistrySnapshot =
  snap_registry_version :: string
  snap_decisions :: "EdgeDecision list"
  snap_registry_sha256 :: string

definition decision_json :: "EdgeDecision \<Rightarrow> json" where
  "decision_json d =
     JList [JStr (dec_edge_id d), JStr (dec_version d), JStr (edge_state_value (dec_state d)), JList (map JStr (dec_reasons d))]"

definition snapshot_payload :: "string \<Rightarrow> EdgeDecision list \<Rightarrow> json" where
  "snapshot_payload version decisions =
     JObj [(''registry_version'', JStr version), (''decisions'', JList (map decision_json decisions))]"

definition EdgeRegistrySnapshot_init :: "string \<Rightarrow> EdgeDecision list \<Rightarrow> EdgeRegistrySnapshot" where
  "EdgeRegistrySnapshot_init version decisions =
     \<lparr>snap_registry_version = version, snap_decisions = decisions,
      snap_registry_sha256 = json_sha256 fmt_ascii (snapshot_payload version decisions)\<rparr>"

type_synonym edge_registry = "(string, EdgeDefinition) dict"

fun EdgeRegistry_init :: "EdgeDefinition list \<Rightarrow> edge_registry \<Rightarrow> edge_registry result" where
  "EdgeRegistry_init [] by_id = Inr by_id"
| "EdgeRegistry_init (d # ds) by_id =
     (if dget by_id (ed_edge_id d) \<noteq> None then Inl (ValueError (''duplicate edge_id: '' @ ed_edge_id d))
      else EdgeRegistry_init ds (dset (ed_edge_id d) d by_id))"

definition edge_definitions :: "edge_registry \<Rightarrow> EdgeDefinition list" where
  "edge_definitions r = map snd (sort_key fst r)"

definition get_edge :: "edge_registry \<Rightarrow> string \<Rightarrow> EdgeDefinition result" where
  "get_edge r i = (case dget r i of Some d \<Rightarrow> Inr d | None \<Rightarrow> Inl (KeyError i))"

definition REGISTRY_VERSION :: string where
  "REGISTRY_VERSION = ''edge-registry.v5''"

definition evaluate_registry :: "edge_registry \<Rightarrow> EdgeEvidence \<Rightarrow> EdgeRegistrySnapshot" where
  "evaluate_registry r e =
     EdgeRegistrySnapshot_init REGISTRY_VERSION
       (map (\<lambda>d. case evaluate_edge d e of (state, reasons) \<Rightarrow>
          \<lparr>dec_edge_id = ed_edge_id d, dec_version = ed_version d, dec_state = state, dec_reasons = reasons\<rparr>) (edge_definitions r))"

definition conditional_event_rate :: EdgeDefinition where
  "conditional_event_rate =
     \<lparr>ed_edge_id = ''edge.conditional_event_rate.v1'', ed_version = ''1'',
      ed_outcome_definition = ''P(event occurs | declared information set)'',
      ed_null_definition = ''event rate equals the pre-registered baseline rate'',
      ed_minimum_effect_size = Flt 0, ed_minimum_sample_size = 30, ed_requires_out_of_sample = True,
      ed_requires_replication = True, ed_requires_multiple_testing = True, ed_requires_calibration = True,
      ed_requires_economic_cost_context = True,
      ed_probability = Some \<lparr>pd_probability_id = ''prob.conditional_event_rate.v1'', pd_version = ''1'',
        pd_event_definition = ''declared binary outcome occurs within the registered horizon'',
        pd_denominator_definition = ''all eligible observations in the declared population'',
        pd_horizon = ''declared_by_analysis'', pd_min_sample_size = 30\<rparr>\<rparr>"

definition DEFAULT_EDGE_REGISTRY :: "edge_registry result" where
  "DEFAULT_EDGE_REGISTRY = EdgeRegistry_init [conditional_event_rate] []"

section \<open>What eligibility means\<close>

lemma reason_if_Nil [simp]: "reason_if b r = [] \<longleftrightarrow> \<not> b"
  by (simp add: reason_if_def)

lemma default_registry: "DEFAULT_EDGE_REGISTRY = Inr [(''edge.conditional_event_rate.v1'', conditional_event_rate)]"
  by (simp add: DEFAULT_EDGE_REGISTRY_def) (simp add: conditional_event_rate_def)

lemma evaluate_edge_eligible:
  "fst (evaluate_edge d e) = ELIGIBLE \<longleftrightarrow>
     statistics_reasons d e = [] \<and> (ed_requires_multiple_testing d \<longrightarrow> testing_reasons e = [])
     \<and> (ed_requires_calibration d \<longrightarrow> calibration_reasons d e = []) \<and> (ed_requires_economic_cost_context d \<longrightarrow> cost_reasons d e = [])
     \<and> (ed_requires_out_of_sample d \<longrightarrow> out_of_sample_reasons e = []) \<and> (ed_requires_replication d \<longrightarrow> replication_reasons e = [])"
  by (auto simp: evaluate_edge_def Let_def split: if_splits)

text \<open>Costs: a sum of non-negative floats is no less than each of them, even when it overflows.\<close>

definition cost_ok :: "pyfloat \<Rightarrow> bool" where
  "cost_ok v \<longleftrightarrow> v = Infinite False \<or> f_isfinite v \<and> pydouble v \<and> 0 \<le> val v"

lemma cost_add:
  assumes "cost_ok a" "cost_ok b"
  shows "cost_ok (f_add a b)" "f_le a (f_add a b)" "f_le b (f_add a b)"
proof -
  consider "f_isfinite a" "f_isfinite b" | "a = Infinite False" | "b = Infinite False" using assms by (auto simp: cost_ok_def)
  then have "cost_ok (f_add a b) \<and> f_le a (f_add a b) \<and> f_le b (f_add a b)"
  proof cases
    case 1
    then have ab: "pydouble a" "0 \<le> val a" "pydouble b" "0 \<le> val b" using assms by (auto simp: cost_ok_def f_isfinite_def)
    have r: "rounds (f_add a b) (val a + val b)" by (rule f_arith_rounds(1) [OF 1])
    have "cost_ok (f_add a b)"
      using rounds_infinite [OF r] rounds_val [OF r] rounds_pydouble [OF r] rnd_nonneg [of "val a + val b"] ab
      by (cases "f_isfinite (f_add a b)") (auto simp: cost_ok_def)
    then show ?thesis using le_rounds [OF r 1(1) ab(1)] le_rounds [OF r 1(2) ab(3)] ab(2,4) by simp
  next
    case 2
    then show ?thesis using assms(2) by (cases b) (auto simp: cost_ok_def f_add_def f_le_def f_less_def f_eq_def)
  next
    case 3
    then show ?thesis using assms(1) by (cases a) (auto simp: cost_ok_def f_add_def f_le_def f_less_def f_eq_def)
  qed
  then show "cost_ok (f_add a b)" "f_le a (f_add a b)" "f_le b (f_add a b)" by blast+
qed

lemma cost_le_trans: "cost_ok a \<Longrightarrow> cost_ok b \<Longrightarrow> cost_ok c \<Longrightarrow> f_le a b \<Longrightarrow> f_le b c \<Longrightarrow> f_le a c"
  by (cases a; cases b; cases c) (auto simp: cost_ok_def f_le_def f_less_def f_eq_def)

lemma total_cost_bounds:
  assumes "list_all cost_ok (map snd (named_costs k))"
  shows "cost_ok (total_cost k)" "list_all (\<lambda>v. f_le v (total_cost k)) (map snd (named_costs k))"
proof -
  note c = assms [unfolded named_costs_def, simplified]
  let ?a = "f_add (spread_cost k) (slippage_cost k)"
  let ?b = "f_add ?a (commission_cost k)"
  have ok: "cost_ok ?a" "cost_ok ?b" "cost_ok (f_add ?b (other_cost k))" using c cost_add(1) by blast+
  have le: "f_le ?a ?b" "f_le ?b (f_add ?b (other_cost k))" using c ok cost_add(2) by blast+
  have abc: "f_le ?a (f_add ?b (other_cost k))" by (rule cost_le_trans [OF ok le])
  have "f_le (spread_cost k) (f_add ?b (other_cost k))" "f_le (slippage_cost k) (f_add ?b (other_cost k))"
    using cost_le_trans [OF _ ok(1,3) _ abc] c cost_add(2,3) by blast+
  moreover have "f_le (commission_cost k) (f_add ?b (other_cost k))"
    using cost_le_trans [OF _ ok(2,3) _ le(2)] c cost_add(3) [OF ok(1)] by blast
  moreover have "f_le (other_cost k) (f_add ?b (other_cost k))" using c cost_add(3) [OF ok(2)] by blast
  ultimately show "list_all (\<lambda>v. f_le v (total_cost k)) (map snd (named_costs k))" by (simp add: named_costs_def total_cost_def)
  show "cost_ok (total_cost k)" using ok(3) by (simp add: total_cost_def)
qed

text \<open>A rounded difference is negative when the exact one is.\<close>

lemma f_sub_negative:
  assumes "f_isfinite a" "pydouble a" "f_isfinite b" "pydouble b" "val a < val b"
  shows "f_less (f_sub a b) (Flt 0)"
proof -
  have r: "rounds (f_sub a b) (val a - val b)" by (rule f_arith_rounds(2) [OF assms(1,3)])
  have "on_grid (- 1074) (val a - val b)"
    using on_grid_add [OF double_grid [OF pydouble_val [OF assms(2)]] on_grid_minus [OF double_grid [OF pydouble_val [OF assms(4)]]]] by simp
  then obtain m where m: "val a - val b = of_int m * pow2 (- 1074)" by (auto simp: on_grid_def)
  then have "m < 0" using assms(5) pow2_pos(1) [of "- 1074"] by (metis diff_less_0_iff_less of_int_less_0_iff mult_less_0_iff not_less_iff_gr_or_eq)
  then have "of_int m \<le> (- 1 :: rat)" by (metis int_one_le_iff_zero_less le_minus_iff neg_0_less_iff_less of_int_1 of_int_le_iff of_int_minus)
  then have "val a - val b \<le> - pow2 (- 1074)" unfolding m using mult_right_mono [of "of_int m" "- 1" "pow2 (- 1074)"] pow2_pos(2) by simp
  then have "f_le (f_sub a b) (Flt (- pow2 (- 1074)))"
    using double_pow2 [of "- 1074"] double_minus by (intro rounds_le [OF r]) auto
  then show ?thesis using pow2_pos(1) [of "- 1074"]
    by (cases "f_sub a b") (auto simp: f_le_def f_less_def f_eq_def intro: less_trans [of _ "- pow2 (- 1074)"] split: if_splits)
qed

lemma replication_independent:
  assumes "EvidenceArtifact_init a0 = Inr a" "art_kind a = Kind_REPLICATION"
  shows "\<exists>b. art_independent_of_analysis_id a = Some b \<and> b \<noteq> [] \<and> b \<noteq> art_analysis_id a"
  using assms by (cases "art_independent_of_analysis_id a0") (auto simp: EvidenceArtifact_init_def rbind_Inr split: if_splits)

definition finite_costs :: "EconomicCostContext \<Rightarrow> bool" where
  "finite_costs k \<longleftrightarrow> list_all (\<lambda>v. f_isfinite v \<and> pydouble v) (map snd (named_costs k))"

lemma costs_nonneg: "EconomicCostContext_init k0 = Inr k \<Longrightarrow> list_all (\<lambda>v. \<not> f_less v (Flt 0)) (map snd (named_costs k))"
  by (simp add: EconomicCostContext_init_def named_costs_def split: if_splits)

lemma costs_covered:
  assumes "cost_reasons conditional_event_rate e = []" "f_isfinite (ee_observed_effect_size e)" "pydouble (ee_observed_effect_size e)"
    and costs: "\<And>k. ee_economic_cost_context e = Some k \<Longrightarrow> (\<exists>k0. EconomicCostContext_init k0 = Inr k) \<and> finite_costs k"
    and "0 \<le> val (ee_observed_effect_size e)"
  shows "\<exists>k. ee_economic_cost_context e = Some k \<and> val (total_cost k) \<le> val (ee_observed_effect_size e)
    \<and> list_all (\<lambda>v. val v \<le> val (ee_observed_effect_size e)) (map snd (named_costs k))"
proof -
  obtain k where k: "ee_economic_cost_context e = Some k" "\<not> (f_less (Flt 0) (total_cost k) \<and> f_less (net_effect k (ee_observed_effect_size e)) (Flt 0))"
    using assms(1) by (auto simp: cost_reasons_def Let_def conditional_event_rate_def split: option.splits)
  have nonneg: "list_all (\<lambda>v. \<not> f_less v (Flt 0)) (map snd (named_costs k))"
    using costs [OF k(1)] costs_nonneg by blast
  then have ok: "list_all cost_ok (map snd (named_costs k))"
    using costs [OF k(1)] by (auto simp: finite_costs_def cost_ok_def list_all_iff f_less_finite)
  note tot = total_cost_bounds [OF ok]
  have "f_isfinite (total_cost k) \<and> val (total_cost k) \<le> val (ee_observed_effect_size e)"
  proof (cases "f_isfinite (total_cost k)")
    case True
    then have "pydouble (total_cost k)" "0 \<le> val (total_cost k)" using tot(1) by (auto simp: cost_ok_def)
    then show ?thesis using True k(2) f_sub_negative [OF assms(2,3) True] assms(5) by (force simp: net_effect_def f_less_finite)
  next
    case False
    then have "total_cost k = Infinite False" using tot(1) by (simp add: cost_ok_def)
    then show ?thesis using k(2) assms(2)
      by (cases "ee_observed_effect_size e") (auto simp: net_effect_def f_sub_def f_add_def f_neg_def f_less_def)
  qed
  moreover from this have "list_all (\<lambda>v. val v \<le> val (ee_observed_effect_size e)) (map snd (named_costs k))"
    using tot(2) costs [OF k(1)] unfolding list_all_iff finite_costs_def by (metis f_le_finite order_trans)
  ultimately show ?thesis using k(1) by blast
qed

text \<open>
  C10: An eligible edge has passed every gate: when the default definition is evaluated to ELIGIBLE, with
  p-values adjusted by Holm and evidence and costs made by their constructors from finite numbers, the
  sample has at least 30 observations and so has the calibration; the effect and its lower bound are not
  negative; the hypothesis is among those that the step-down procedure rejects; the effect covers the
  total cost, and with it every single cost, exactly; the out-of-sample artifact has the same sample
  size; and the replication was made by an analysis other than the one that it is declared to repeat.
\<close>

theorem eligible_edge_sound:
  assumes "fst (evaluate_edge conditional_event_rate e) = ELIGIBLE"
    and "ee_multiple_testing_result e = Some r" "adjust_p_values ps ''holm'' alpha = Inr r" "valid_tests ps"
    and "f_isfinite (ee_observed_effect_size e)" "pydouble (ee_observed_effect_size e)"
    and "\<forall>a. ee_replication_evidence e = Some a \<longrightarrow> (\<exists>a0. EvidenceArtifact_init a0 = Inr a)"
    and "\<forall>k. ee_economic_cost_context e = Some k \<longrightarrow> (\<exists>k0. EconomicCostContext_init k0 = Inr k) \<and> finite_costs k"
  defines "effect \<equiv> val (ee_observed_effect_size e)"
  shows "30 \<le> ee_sample_size e \<and> 0 \<le> effect \<and> (\<exists>l. ee_uncertainty_lower_bound e = Some l \<and> \<not> f_less l (Flt 0))
    \<and> 0 \<le> ee_hypothesis_index e \<and> nat (ee_hypothesis_index e) \<in> set (step_down ps alpha)
    \<and> (\<exists>c. ee_calibration_result e = Some c \<and> 30 \<le> cal_sample_size c)
    \<and> (\<exists>k. ee_economic_cost_context e = Some k \<and> val (total_cost k) \<le> effect \<and> list_all (\<lambda>v. val v \<le> effect) (map snd (named_costs k)))
    \<and> (\<exists>a. ee_out_of_sample_evidence e = Some a \<and> art_kind a = Kind_OUT_OF_SAMPLE \<and> art_sample_size a = ee_sample_size e)
    \<and> (\<exists>a b. ee_replication_evidence e = Some a \<and> art_kind a = Kind_REPLICATION
        \<and> art_independent_of_analysis_id a = Some b \<and> b \<noteq> art_analysis_id a)"
proof -
  let ?d = conditional_event_rate
  have gates: "statistics_reasons ?d e = []" "testing_reasons e = []" "calibration_reasons ?d e = []" "cost_reasons ?d e = []"
    "out_of_sample_reasons e = []" "replication_reasons e = []"
    using assms(1) unfolding evaluate_edge_eligible by (simp_all add: conditional_event_rate_def)
  have stats: "30 \<le> ee_sample_size e" "0 \<le> effect" "\<exists>l. ee_uncertainty_lower_bound e = Some l \<and> \<not> f_less l (Flt 0)"
    using gates(1) assms(5) unfolding effect_def
    by (auto simp: statistics_reasons_def Let_def conditional_event_rate_def f_less_finite split: option.splits)
  have test: "0 \<le> ee_hypothesis_index e" "ee_hypothesis_index e < int (length (mt_p_values r))" "reject r ! nat (ee_hypothesis_index e)"
    using gates(2) assms(2) by (auto simp: testing_reasons_def split: if_splits)
  have "nat (ee_hypothesis_index e) \<in> set (step_down ps alpha)" by (rule holm_rejects [OF assms(3,4) test])
  moreover have "\<exists>c. ee_calibration_result e = Some c \<and> 30 \<le> cal_sample_size c"
    using gates(3) by (auto simp: calibration_reasons_def conditional_event_rate_def split: option.splits)
  moreover have "\<exists>k. ee_economic_cost_context e = Some k \<and> val (total_cost k) \<le> effect \<and> list_all (\<lambda>v. val v \<le> effect) (map snd (named_costs k))"
    using costs_covered [OF gates(4) assms(5,6)] assms(8) stats(2) unfolding effect_def by blast
  moreover have "\<exists>a. ee_out_of_sample_evidence e = Some a \<and> art_kind a = Kind_OUT_OF_SAMPLE \<and> art_sample_size a = ee_sample_size e"
    using gates(5) by (auto simp: out_of_sample_reasons_def split: option.splits)
  moreover have "\<exists>a. ee_replication_evidence e = Some a \<and> art_kind a = Kind_REPLICATION"
    using gates(6) by (auto simp: replication_reasons_def split: option.splits)
  ultimately show ?thesis using stats test(1) replication_independent assms(7) by blast
qed

section \<open>The digest of a snapshot\<close>

text \<open>Two snapshots with one digest hold the same decisions, or the bytes of their payloads collide.\<close>

lemma snapshot_digest_binds:
  assumes "snap_registry_sha256 (EdgeRegistrySnapshot_init v ds) = snap_registry_sha256 (EdgeRegistrySnapshot_init w es)"
  shows "v = w \<and> ds = es
    \<or> sha256_collision (utf8_encode (json_dumps fmt_ascii (snapshot_payload v ds))) (utf8_encode (json_dumps fmt_ascii (snapshot_payload w es)))"
proof -
  have flat: "json_canon (decision_json d) = decision_json d" for d by (simp add: decision_json_def comp_def)
  have inj: "decision_json d = decision_json d' \<longleftrightarrow> d = d'" for d d'
    by (cases "dec_state d"; cases "dec_state d'") (auto simp: decision_json_def inj_map_eq_map inj_def)
  have "json_sha256 fmt_ascii (snapshot_payload v ds) = json_sha256 fmt_ascii (snapshot_payload w es)"
    using assms by (simp add: EdgeRegistrySnapshot_init_def)
  moreover have "wf_format fmt_ascii" by (simp add: wf_format_def fmt_ascii_def)
  ultimately consider "json_canon (snapshot_payload v ds) = json_canon (snapshot_payload w es)"
    | "sha256_collision (utf8_encode (json_dumps fmt_ascii (snapshot_payload v ds))) (utf8_encode (json_dumps fmt_ascii (snapshot_payload w es)))"
    using json_sha256_inj by blast
  then show ?thesis
  proof cases
    case 1
    then have "[(''registry_version'', JStr v), (''decisions'', JList (map decision_json ds))]
        = [(''registry_version'', JStr w), (''decisions'', JList (map decision_json es))]"
      unfolding snapshot_payload_def by (rule json_canon_record) (auto simp: flat comp_def)
    then have "v = w" "map decision_json ds = map decision_json es" by simp_all
    then show ?thesis using inj by (simp add: inj_map_eq_map inj_def)
  qed simp
qed

section \<open>An eligible edge\<close>

definition sample_artifact_of :: "EvidenceKind \<Rightarrow> EvidenceArtifact" where
  "sample_artifact_of kind =
     \<lparr>art_evidence_id = ''e1'', art_kind = kind, art_analysis_id = ''a1'', art_dataset_id = ''d1'', art_dataset_sha256 = sha256_hex [],
      art_partition_id = ''p1'', art_population_definition = ''all'', art_sample_size = 40, art_content_sha256 = sha256_hex [],
      art_independent_of_analysis_id = Some ''a0''\<rparr>"

definition sample_costs :: EconomicCostContext where
  "sample_costs =
     \<lparr>spread_cost = Flt 0, slippage_cost = Flt 0, commission_cost = Flt 0, other_cost = Flt (1/4), cost_currency = '''',
      cost_unit = ''return'', cost_source = '''', cost_version = ''''\<rparr>"

definition sample_evidence :: "MultipleTestingResult \<Rightarrow> EdgeEvidence" where
  "sample_evidence r =
     \<lparr>ee_sample_size = 40, ee_out_of_sample = True, ee_replicated = True, ee_observed_effect_size = Flt (1/2),
      ee_uncertainty_lower_bound = Some (Flt (1/4)), ee_out_of_sample_evidence_id = None, ee_replication_evidence_id = None,
      ee_out_of_sample_evidence = Some (sample_artifact_of Kind_OUT_OF_SAMPLE),
      ee_replication_evidence = Some (sample_artifact_of Kind_REPLICATION), ee_multiple_testing_result = Some r,
      ee_hypothesis_index = 0,
      ee_calibration_result = Some \<lparr>cal_brier_score = Flt (1/4), cal_sample_size = 40, cal_mean_predicted_probability = Flt (1/2),
        cal_observed_frequency = Flt (1/2)\<rparr>,
      ee_economic_cost_context = Some sample_costs\<rparr>"

lemma quarter: "double (1/4)" "double (1/2)" "double (1/64)"
  using double_pow2 [of "- 2"] double_pow2 [of "- 1"] double_pow2 [of "- 6"] by (simp_all add: pow2_def)

lemma sample_artifact_made: "EvidenceArtifact_init (sample_artifact_of k) = Inr (sample_artifact_of k)"
proof -
  have "\<not> blank ''e1''" "\<not> blank ''a1''" "\<not> blank ''d1''" "\<not> blank ''p1''" "\<not> blank ''all''" by code_simp+
  then show ?thesis
    by (simp add: EvidenceArtifact_init_def sample_artifact_of_def require_nonblank_def validate_sha256_ok)
qed

lemma sample_costs_made: "EconomicCostContext_init sample_costs = Inr sample_costs" "finite_costs sample_costs"
  "total_cost sample_costs = Flt (1/4)"
proof -
  have "\<not> blank ''return''" by code_simp
  then show "EconomicCostContext_init sample_costs = Inr sample_costs"
    by (simp add: EconomicCostContext_init_def sample_costs_def named_costs_def f_less_finite)
  show "finite_costs sample_costs" by (simp add: finite_costs_def sample_costs_def named_costs_def quarter)
  show "total_cost sample_costs = Flt (1/4)"
    by (simp add: total_cost_def sample_costs_def f_add_def round_double quarter)
qed

lemma sample_step_down: "step_down [Flt (1/64)] (Flt (1/16)) = [0]" "valid_tests [Flt (1/64)]"
proof -
  have "f_mul (f_of_int 1) (Flt (1/64)) = Flt (1/64)"
    using f_of_nat [of 1] round_double [OF quarter(3)] by (simp add: f_mul_def f_signbit_def)
  then show "step_down [Flt (1/64)] (Flt (1/16)) = [0]" by (simp add: step_down_def tests_from_def no_later_def f_le_finite)
qed (simp add: valid_tests_def)

lemma sample_eligible:
  "\<exists>r. adjust_p_values [Flt (1/64)] ''holm'' (Flt (1/16)) = Inr r \<and> fst (evaluate_edge conditional_event_rate (sample_evidence r)) = ELIGIBLE"
proof -
  obtain r where r: "adjust_p_values [Flt (1/64)] ''holm'' (Flt (1/16)) = Inr r" "reject r = [True]"
    using adjustment_decides [OF sample_step_down(2), of "Flt (1/16)"] sample_step_down(1) by (auto simp: f_less_finite)
  then have "mt_p_values r = [Flt (1/64)]"
    by (auto simp: adjust_p_values_def MultipleTestingResult_init_def split: if_splits)
  moreover have "f_sub (Flt (1/2)) (Flt (1/4)) = Flt (1/4)" using round_double [OF quarter(1)] by (simp add: f_sub_def f_neg_def f_add_def)
  ultimately have "fst (evaluate_edge conditional_event_rate (sample_evidence r)) = ELIGIBLE"
    unfolding evaluate_edge_eligible using r(2)
    by (simp add: statistics_reasons_def testing_reasons_def calibration_reasons_def cost_reasons_def out_of_sample_reasons_def
        replication_reasons_def sample_evidence_def conditional_event_rate_def f_less_finite sample_artifact_of_def id_mismatch_def
        net_effect_def sample_costs_made(3) Let_def)
  then show ?thesis using r(1) by blast
qed

theorem eligible_edge_sound_witness:
  "\<exists>r. adjust_p_values [Flt (1/64)] ''holm'' (Flt (1/16)) = Inr r
    \<and> fst (evaluate_edge conditional_event_rate (sample_evidence r)) = ELIGIBLE \<and> val (total_cost sample_costs) \<le> 1/2"
proof -
  obtain r where r: "adjust_p_values [Flt (1/64)] ''holm'' (Flt (1/16)) = Inr r"
    "fst (evaluate_edge conditional_event_rate (sample_evidence r)) = ELIGIBLE" using sample_eligible by blast
  have "ee_multiple_testing_result (sample_evidence r) = Some r" by (simp add: sample_evidence_def)
  from eligible_edge_sound [OF r(2) this r(1) sample_step_down(2)]
  have "val (total_cost sample_costs) \<le> 1/2"
    using sample_artifact_made sample_costs_made by (auto simp: sample_evidence_def quarter)
  then show ?thesis using r by blast
qed

section \<open>Unintended behaviour\<close>

text \<open>An effect that is not a number passes the effect, the uncertainty and the cost gate.\<close>

lemma nan_effect_accepted:
  assumes "ed_minimum_sample_size d \<le> ee_sample_size e"
  shows "statistics_reasons d (e\<lparr>ee_observed_effect_size := Nan, ee_uncertainty_lower_bound := Some Nan\<rparr>) = []"
    "cost_reasons d (e\<lparr>ee_observed_effect_size := Nan, ee_economic_cost_context := Some k\<rparr>) = []"
proof -
  have nan: "\<not> f_less Nan v" "f_sub Nan v = Nan" for v
    by (cases v; simp add: f_less_def f_sub_def f_add_def f_neg_def)+
  show "statistics_reasons d (e\<lparr>ee_observed_effect_size := Nan, ee_uncertainty_lower_bound := Some Nan\<rparr>) = []"
    "cost_reasons d (e\<lparr>ee_observed_effect_size := Nan, ee_economic_cost_context := Some k\<rparr>) = []"
    using assms by (simp_all add: statistics_reasons_def cost_reasons_def net_effect_def nan Let_def)
qed

text \<open>The replication is not compared with the evaluated analysis: the gate does not read what it is independent of.\<close>

lemma replication_target_unchecked:
  "replication_reasons (e\<lparr>ee_replication_evidence := Some (a\<lparr>art_independent_of_analysis_id := i\<rparr>)\<rparr>)
     = replication_reasons (e\<lparr>ee_replication_evidence := Some a\<rparr>)"
  by (simp add: replication_reasons_def id_mismatch_def split: option.splits)

end
