(* ===== verification/Market_Labels.thy ===== *)
theory Market_Labels
  imports Float_Text "HOL-Library.Product_Lexorder"
begin

text \<open>
  Labels of price paths (\<open>orchestration/triple_barrier.py\<close>) and the integrity of event sequences
  (\<open>orchestration/market_state_sequence_guard.py\<close> with the event clock of
  \<open>orchestration/market_state_reconstruction.py\<close>).
\<close>

section \<open>Triple-barrier labels\<close>

datatype barrier_label = UP_FIRST | DOWN_FIRST | TIMEOUT | AMBIGUOUS | UNAVAILABLE

record barrier_result =
  br_label :: barrier_label
  br_end_index :: "nat option"
  br_upper_barrier :: "pyfloat option"
  br_lower_barrier :: "pyfloat option"

record ohlc =
  oh_opens :: "pyfloat list"
  oh_highs :: "pyfloat list"
  oh_lows :: "pyfloat list"
  oh_closes :: "pyfloat list"
  oh_atr :: "pyfloat option list"

definition bar_check :: "ohlc \<Rightarrow> nat \<Rightarrow> unit result" where
  "bar_check d i =
     (let p = oh_opens d ! i; h = oh_highs d ! i; l = oh_lows d ! i; c = oh_closes d ! i
      in if \<not> list_all (\<lambda>x. f_isfinite x \<and> f_less (Flt 0) x) [p, h, l, c]
         then Inl (ValueError (''invalid OHLC at index '' @ nat_digits i))
         else if f_less h (f_max (f_max p c) l) \<or> f_less (f_min (f_min p c) h) l
         then Inl (ValueError (''invalid OHLC geometry at index '' @ nat_digits i))
         else Inr ())"

fun check_bars :: "ohlc \<Rightarrow> nat list \<Rightarrow> unit result" where
  "check_bars d [] = Inr ()"
| "check_bars d (i # is) = rbind (bar_check d i) (\<lambda>_. check_bars d is)"

text \<open>What a bar of the window decides, if anything: the open first, then both extremes.\<close>

definition bar_decides :: "ohlc \<Rightarrow> pyfloat \<Rightarrow> pyfloat \<Rightarrow> nat \<Rightarrow> barrier_label option" where
  "bar_decides d upper lower j =
     (if f_le upper (oh_opens d ! j) then Some UP_FIRST
      else if f_le (oh_opens d ! j) lower then Some DOWN_FIRST
      else let hit_up = f_le upper (oh_highs d ! j); hit_down = f_le (oh_lows d ! j) lower
        in if hit_up \<and> hit_down then Some AMBIGUOUS
           else if hit_up then Some UP_FIRST
           else if hit_down then Some DOWN_FIRST else None)"

fun first_decision :: "ohlc \<Rightarrow> pyfloat \<Rightarrow> pyfloat \<Rightarrow> nat list \<Rightarrow> (barrier_label \<times> nat) option" where
  "first_decision d upper lower [] = None"
| "first_decision d upper lower (j # js) =
     (case bar_decides d upper lower j of Some l \<Rightarrow> Some (l, j) | None \<Rightarrow> first_decision d upper lower js)"

definition barrier_entry :: "barrier_label \<Rightarrow> nat option \<Rightarrow> pyfloat \<Rightarrow> pyfloat \<Rightarrow> barrier_result" where
  "barrier_entry l j upper lower =
     \<lparr>br_label = l, br_end_index = j, br_upper_barrier = Some upper, br_lower_barrier = Some lower\<rparr>"

text \<open>The indices are integers of Python; a boolean is refused there and has no counterpart here.\<close>

definition triple_barrier_label :: "ohlc \<Rightarrow> int \<Rightarrow> pyfloat \<Rightarrow> pyfloat \<Rightarrow> int \<Rightarrow> barrier_result result" where
  "triple_barrier_label d start_index upper_atr lower_atr vertical =
     (let n = length (oh_closes d); start = nat start_index; stop = start + nat vertical
      in if \<not> (length (oh_opens d) = length (oh_highs d) \<and> length (oh_highs d) = length (oh_lows d)
                \<and> length (oh_lows d) = length (oh_atr d) \<and> length (oh_atr d) = n)
         then Inl (ValueError ''OHLC and ATR arrays must have equal lengths'')
         else if \<not> (0 \<le> start_index \<and> start_index < int n) then Inl (ValueError ''start_index must be a valid row index'')
         else if vertical < 1 then Inl (ValueError ''vertical_barrier must be an integer >= 1'')
         else if \<not> list_all (\<lambda>x. f_isfinite x \<and> f_less (Flt 0) x) [upper_atr, lower_atr]
         then Inl (ValueError ''ATR multipliers must be finite and positive'')
         else case oh_atr d ! start of
           None \<Rightarrow> Inr \<lparr>br_label = UNAVAILABLE, br_end_index = None, br_upper_barrier = None, br_lower_barrier = None\<rparr>
         | Some scale \<Rightarrow>
             if \<not> f_isfinite scale \<or> f_le scale (Flt 0)
             then Inr \<lparr>br_label = UNAVAILABLE, br_end_index = None, br_upper_barrier = None, br_lower_barrier = None\<rparr>
             else let upper = f_add (oh_closes d ! start) (f_mul upper_atr scale);
                      lower = f_sub (oh_closes d ! start) (f_mul lower_atr scale)
               in rbind (check_bars d [start..<min n (stop + 1)]) (\<lambda>_.
                    if n \<le> stop then Inr (barrier_entry UNAVAILABLE None upper lower)
                    else case first_decision d upper lower [start + 1..<stop + 1] of
                      Some (l, j) \<Rightarrow> Inr (barrier_entry l (Some j) upper lower)
                    | None \<Rightarrow> Inr (barrier_entry TIMEOUT (Some stop) upper lower)))"

section \<open>The sequence guard\<close>

record EventClock =
  ec_source :: string
  ec_event_time_ns :: int
  ec_ingest_time_ns :: int
  ec_sequence :: "int option"

definition EventClock_validate :: "EventClock \<Rightarrow> unit result" where
  "EventClock_validate c =
     (if blank (ec_source c) then Inl (ValueError ''source is required'')
      else if ec_event_time_ns c \<le> 0 \<or> ec_ingest_time_ns c \<le> 0
      then Inl (ValueError ''timestamps must be positive UTC epoch nanoseconds'') else Inr ())"

record SequenceIntegrityReport =
  sr_valid :: bool
  sr_event_count :: nat
  sr_source_count :: nat
  sr_issue_codes :: "string list"
  sr_source_issue_codes :: "(string \<times> string) list"

text \<open>The state of the loop: sources seen, last sequence by source, issues, issues by source.\<close>

record guard_state =
  gs_seen :: "string set"
  gs_last :: "string \<rightharpoonup> int"
  gs_issues :: "string set"
  gs_source_issues :: "(string \<times> string) set"

definition issue_code :: "int option \<Rightarrow> int \<Rightarrow> string option" where
  "issue_code previous s =
     (case previous of
        None \<Rightarrow> None
      | Some p \<Rightarrow> if s = p then Some ''SEQUENCE_DUPLICATE'' else if s < p then Some ''SEQUENCE_REGRESSION''
          else if p + 1 < s then Some ''SEQUENCE_GAP'' else None)"

definition add_issue :: "string \<Rightarrow> string \<Rightarrow> guard_state \<Rightarrow> guard_state" where
  "add_issue source code g =
     g\<lparr>gs_issues := insert code (gs_issues g), gs_source_issues := insert (source, code) (gs_source_issues g)\<rparr>"

definition guard_event :: "EventClock \<Rightarrow> guard_state \<Rightarrow> guard_state result" where
  "guard_event c g =
     rbind (EventClock_validate c) (\<lambda>_.
       let source = py_strip (ec_source c); g = g\<lparr>gs_seen := insert source (gs_seen g)\<rparr>
       in Inr (case ec_sequence c of
            None \<Rightarrow> add_issue source ''SEQUENCE_MISSING_OR_INVALID'' g
          | Some s \<Rightarrow>
              if s \<le> 0 then add_issue source ''SEQUENCE_MISSING_OR_INVALID'' g
              else let g = (case issue_code (gs_last g source) s of Some code \<Rightarrow> add_issue source code g | None \<Rightarrow> g)
                in g\<lparr>gs_last := (gs_last g)(source \<mapsto> s)\<rparr>))"

fun guard_events :: "EventClock list \<Rightarrow> guard_state \<Rightarrow> guard_state result" where
  "guard_events [] g = Inr g"
| "guard_events (c # cs) g = rbind (guard_event c g) (guard_events cs)"

definition guard_start :: guard_state where
  "guard_start = \<lparr>gs_seen = {}, gs_last = Map.empty, gs_issues = {}, gs_source_issues = {}\<rparr>"

definition assess_sequence_integrity :: "EventClock list \<Rightarrow> SequenceIntegrityReport result" where
  "assess_sequence_integrity cs =
     rbind (guard_events cs guard_start) (\<lambda>g.
       Inr \<lparr>sr_valid = (gs_issues g = {}), sr_event_count = length cs, sr_source_count = card (gs_seen g),
            sr_issue_codes = sorted_list_of_set (gs_issues g), sr_source_issue_codes = sorted_list_of_set (gs_source_issues g)\<rparr>)"

section \<open>The first touch\<close>

lemma first_decision_None: "first_decision d u l js = None \<longleftrightarrow> (\<forall>j \<in> set js. bar_decides d u l j = None)"
  by (induction js) (auto split: option.splits)

lemma first_decision_Some:
  "first_decision d u l [a..<b] = Some (x, j) \<Longrightarrow>
   a \<le> j \<and> j < b \<and> bar_decides d u l j = Some x \<and> (\<forall>k. a \<le> k \<and> k < j \<longrightarrow> bar_decides d u l k = None)"
proof (induction "b - a" arbitrary: a)
  case (Suc n)
  then have ab: "a < b" by linarith
  then have "[a..<b] = a # [Suc a..<b]" by (simp add: upt_conv_Cons)
  then consider "bar_decides d u l a = Some x" "j = a"
    | "bar_decides d u l a = None" "first_decision d u l [Suc a..<b] = Some (x, j)"
    using Suc.prems by (auto split: option.splits)
  then show ?case
  proof cases
    case 2
    then have "Suc a \<le> j \<and> j < b \<and> bar_decides d u l j = Some x \<and> (\<forall>k. Suc a \<le> k \<and> k < j \<longrightarrow> bar_decides d u l k = None)"
      using Suc.hyps(1) [of "Suc a"] Suc.hyps(2) by simp
    then show ?thesis using 2(1) by (metis le_Suc_eq less_eq_Suc_le not_less_eq_eq order_antisym_conv)
  qed (use ab in auto)
qed simp

text \<open>A bar reaches a barrier with its high or its low.\<close>

definition reaches :: "ohlc \<Rightarrow> pyfloat \<Rightarrow> pyfloat \<Rightarrow> nat \<Rightarrow> bool" where
  "reaches d u l j \<longleftrightarrow> f_le u (oh_highs d ! j) \<or> f_le (oh_lows d ! j) l"

lemma bar_geometry:
  assumes "bar_check d i = Inr ()"
  shows "f_isfinite (oh_opens d ! i)" "f_isfinite (oh_highs d ! i)" "f_isfinite (oh_lows d ! i)"
    "val (oh_lows d ! i) \<le> val (oh_opens d ! i)" "val (oh_opens d ! i) \<le> val (oh_highs d ! i)"
proof -
  have fin: "f_isfinite (oh_opens d ! i)" "f_isfinite (oh_highs d ! i)" "f_isfinite (oh_lows d ! i)" "f_isfinite (oh_closes d ! i)"
    and geo: "\<not> f_less (oh_highs d ! i) (f_max (f_max (oh_opens d ! i) (oh_closes d ! i)) (oh_lows d ! i))"
      "\<not> f_less (f_min (f_min (oh_opens d ! i) (oh_closes d ! i)) (oh_highs d ! i)) (oh_lows d ! i)"
    using assms by (auto simp: bar_check_def Let_def split: if_splits)
  then show "f_isfinite (oh_opens d ! i)" "f_isfinite (oh_highs d ! i)" "f_isfinite (oh_lows d ! i)" by blast+
  show "val (oh_lows d ! i) \<le> val (oh_opens d ! i)" "val (oh_opens d ! i) \<le> val (oh_highs d ! i)"
    using geo fin by (auto simp: f_max_def f_min_def f_less_finite split: if_splits)
qed

lemma f_le_extend: "f_le u a \<Longrightarrow> f_isfinite a \<Longrightarrow> f_isfinite b \<Longrightarrow> val a \<le> val b \<Longrightarrow> f_le u b"
  "f_le a u \<Longrightarrow> f_isfinite a \<Longrightarrow> f_isfinite b \<Longrightarrow> val b \<le> val a \<Longrightarrow> f_le b u"
  by (cases u; cases a; cases b; auto simp: f_le_def f_less_def f_eq_def)+

text \<open>With a valid geometry a bar decides something exactly when it reaches a barrier.\<close>

lemma bar_decides_iff:
  assumes "bar_check d j = Inr ()"
  shows "bar_decides d u l j = None \<longleftrightarrow> \<not> reaches d u l j"
    and "bar_decides d u l j = Some x \<Longrightarrow>
      x = UP_FIRST \<and> (f_le u (oh_opens d ! j) \<or> f_le u (oh_highs d ! j) \<and> \<not> f_le (oh_lows d ! j) l)
      \<or> x = DOWN_FIRST \<and> (f_le (oh_opens d ! j) l \<or> f_le (oh_lows d ! j) l \<and> \<not> f_le u (oh_highs d ! j))
      \<or> x = AMBIGUOUS \<and> f_le u (oh_highs d ! j) \<and> f_le (oh_lows d ! j) l \<and> \<not> f_le u (oh_opens d ! j) \<and> \<not> f_le (oh_opens d ! j) l"
  using f_le_extend(1) [of u "oh_opens d ! j" "oh_highs d ! j"] f_le_extend(2) [of "oh_opens d ! j" l "oh_lows d ! j"] bar_geometry [OF assms]
  by (auto simp: bar_decides_def reaches_def Let_def split: if_splits)

lemma check_bars_Inr: "check_bars d is = Inr () \<longleftrightarrow> (\<forall>i \<in> set is. bar_check d i = Inr ())"
  by (induction "is") (auto simp: rbind_Inr)

text \<open>Two series that agree on the rows of an event.\<close>

definition same_rows :: "ohlc \<Rightarrow> ohlc \<Rightarrow> nat \<Rightarrow> bool" where
  "same_rows d e i \<longleftrightarrow>
     oh_opens d ! i = oh_opens e ! i \<and> oh_highs d ! i = oh_highs e ! i \<and> oh_lows d ! i = oh_lows e ! i \<and> oh_closes d ! i = oh_closes e ! i"

definition same_length :: "ohlc \<Rightarrow> bool" where
  "same_length d \<longleftrightarrow>
     length (oh_opens d) = length (oh_closes d) \<and> length (oh_highs d) = length (oh_closes d)
     \<and> length (oh_lows d) = length (oh_closes d) \<and> length (oh_atr d) = length (oh_closes d)"

lemma bar_rows: "same_rows d e i \<Longrightarrow> bar_check d i = bar_check e i \<and> bar_decides d u l i = bar_decides e u l i"
  by (simp add: bar_check_def bar_decides_def same_rows_def)

lemma rows_only:
  assumes "\<forall>i \<in> set is. same_rows d e i"
  shows "check_bars d is = check_bars e is" "first_decision d u l is = first_decision e u l is"
  using assms by (induction "is") (use bar_rows [of d e _ u l] in \<open>auto split: option.splits\<close>)

text \<open>The label of a complete window, over the rows of that window alone.\<close>

definition window_label :: "ohlc \<Rightarrow> nat \<Rightarrow> nat \<Rightarrow> pyfloat \<Rightarrow> pyfloat \<Rightarrow> barrier_result result" where
  "window_label d start v u l =
     rbind (check_bars d [start..<start + v + 1]) (\<lambda>_.
       case first_decision d u l [start + 1..<start + v + 1] of
         Some (x, j) \<Rightarrow> Inr (barrier_entry x (Some j) u l)
       | None \<Rightarrow> Inr (barrier_entry TIMEOUT (Some (start + v)) u l))"

lemma complete_window:
  assumes "same_length d" "start + v < length (oh_closes d)" "1 \<le> v"
  shows "triple_barrier_label d (int start) ua la (int v) =
    (if \<not> list_all (\<lambda>x. f_isfinite x \<and> f_less (Flt 0) x) [ua, la]
     then Inl (ValueError ''ATR multipliers must be finite and positive'')
     else case oh_atr d ! start of
       None \<Rightarrow> Inr \<lparr>br_label = UNAVAILABLE, br_end_index = None, br_upper_barrier = None, br_lower_barrier = None\<rparr>
     | Some scale \<Rightarrow>
         if \<not> f_isfinite scale \<or> f_le scale (Flt 0)
         then Inr \<lparr>br_label = UNAVAILABLE, br_end_index = None, br_upper_barrier = None, br_lower_barrier = None\<rparr>
         else window_label d start v (f_add (oh_closes d ! start) (f_mul ua scale)) (f_sub (oh_closes d ! start) (f_mul la scale)))"
proof -
  have "min (length (oh_closes d)) (start + v + 1) = start + v + 1" "\<not> length (oh_closes d) \<le> start + v"
    "start < length (oh_closes d)" "\<not> int v < 1"
    using assms(2,3) by simp_all
  then show ?thesis using assms(1)
    unfolding triple_barrier_label_def Let_def window_label_def same_length_def nat_int of_nat_0_le_iff of_nat_less_iff
    by (cases "oh_atr d ! start") (simp_all del: upt_Suc)
qed

lemma window_label_cong:
  assumes "\<forall>i \<in> {start..start + v}. same_rows d e i"
  shows "window_label d start v u l = window_label e start v u l"
proof -
  have "\<forall>i \<in> set [start..<start + v + 1]. same_rows d e i" "\<forall>i \<in> set [start + 1..<start + v + 1]. same_rows d e i"
    using assms by (auto simp del: upt_Suc)
  then show ?thesis unfolding window_label_def by (simp only: rows_only)
qed

text \<open>What the label of a complete window says about its bars.\<close>

definition first_touch :: "ohlc \<Rightarrow> nat \<Rightarrow> nat \<Rightarrow> barrier_result \<Rightarrow> bool" where
  "first_touch d start v r \<longleftrightarrow> (\<exists>j u l.
     r = barrier_entry (br_label r) (Some j) u l \<and> start < j \<and> j \<le> start + v
     \<and> (\<forall>k. start < k \<and> k < j \<longrightarrow> \<not> reaches d u l k)
     \<and> (case br_label r of
          UP_FIRST \<Rightarrow> f_le u (oh_opens d ! j) \<or> f_le u (oh_highs d ! j) \<and> \<not> f_le (oh_lows d ! j) l
        | DOWN_FIRST \<Rightarrow> f_le (oh_opens d ! j) l \<or> f_le (oh_lows d ! j) l \<and> \<not> f_le u (oh_highs d ! j)
        | AMBIGUOUS \<Rightarrow> f_le u (oh_highs d ! j) \<and> f_le (oh_lows d ! j) l \<and> \<not> f_le u (oh_opens d ! j) \<and> \<not> f_le (oh_opens d ! j) l
        | TIMEOUT \<Rightarrow> j = start + v \<and> \<not> reaches d u l j
        | UNAVAILABLE \<Rightarrow> False))"

lemma window_label_touch:
  assumes "window_label d start v u l = Inr r" "1 \<le> v"
  shows "first_touch d start v r"
proof -
  have ok: "bar_check d j = Inr ()" if "start < j" "j \<le> start + v" for j
    using assms(1) that by (auto simp: window_label_def rbind_Inr check_bars_Inr simp del: upt_Suc)
  show ?thesis
  proof (cases "first_decision d u l [start + 1..<start + v + 1]")
    case None
    then have "\<not> reaches d u l k" if "start < k" "k \<le> start + v" for k
      using that bar_decides_iff(1) [OF ok [OF that], of u l] by (simp add: first_decision_None del: upt_Suc)
    moreover have "r = barrier_entry TIMEOUT (Some (start + v)) u l"
      using assms(1) None by (auto simp: window_label_def rbind_Inr simp del: upt_Suc)
    ultimately show ?thesis using assms(2) unfolding first_touch_def
      by (intro exI [of _ "start + v"] exI [of _ u] exI [of _ l]) (simp add: barrier_entry_def)
  next
    case (Some xj)
    obtain x j where xj: "xj = (x, j)" by (cases xj)
    note first = first_decision_Some [OF Some [unfolded xj]]
    then have j: "start < j" "j \<le> start + v" by simp_all
    have "\<not> reaches d u l k" if "start < k" "k < j" for k
      using that first bar_decides_iff(1) [OF ok, of k u l] j by simp
    moreover have "r = barrier_entry x (Some j) u l"
      using assms(1) Some xj by (auto simp: window_label_def rbind_Inr simp del: upt_Suc)
    ultimately show ?thesis using j first bar_decides_iff(2) [OF ok [OF j], of u l x] unfolding first_touch_def
      by (intro exI [of _ j] exI [of _ u] exI [of _ l]) (auto simp: barrier_entry_def)
  qed
qed

text \<open>
  C22: A label tells the first touch and nothing after its window. For a complete window the decisive bar
  is the first one after the start whose high or low reaches a barrier, and it is labelled by the open
  where the open is already beyond, by the one extreme that reaches a barrier, and as ambiguous where only
  both extremes do; TIMEOUT means that no bar of the window reaches any. And a series that agrees on the
  rows of the window and on the ATR at the start gets the same answer, whatever follows.
\<close>

theorem triple_barrier_first_touch:
  assumes "same_length d" "start + v < length (oh_closes d)" "1 \<le> v"
    and "triple_barrier_label d (int start) ua la (int v) = Inr r" "br_label r \<noteq> UNAVAILABLE"
    and "same_length e" "start + v < length (oh_closes e)" "\<forall>i \<in> {start..start + v}. same_rows d e i" "oh_atr d ! start = oh_atr e ! start"
  shows "first_touch d start v r \<and> triple_barrier_label e (int start) ua la (int v) = Inr r"
proof
  obtain scale where "window_label d start v (f_add (oh_closes d ! start) (f_mul ua scale)) (f_sub (oh_closes d ! start) (f_mul la scale)) = Inr r"
    using assms(4,5) unfolding complete_window [OF assms(1-3)] by (auto split: if_splits option.splits)
  then show "first_touch d start v r" using assms(3) by (rule window_label_touch)
  have "oh_closes e ! start = oh_closes d ! start" using assms(8) by (simp add: same_rows_def)
  then have "triple_barrier_label e (int start) ua la (int v) = triple_barrier_label d (int start) ua la (int v)"
    unfolding complete_window [OF assms(1-3)] complete_window [OF assms(6,7,3)] window_label_cong [OF assms(8)]
    using assms(9) by (simp split: option.split)
  then show "triple_barrier_label e (int start) ua la (int v) = Inr r" using assms(4) by simp
qed

text \<open>A flat first bar at 8 with an ATR of 2, and a second one that only reaches the barrier above.\<close>

definition sample_bars :: "pyfloat \<Rightarrow> ohlc" where
  "sample_bars z =
     \<lparr>oh_opens = [Flt 8, Flt 8, z], oh_highs = [Flt 8, Flt 12, z], oh_lows = [Flt 8, Flt 7, z], oh_closes = [Flt 8, Flt 9, z],
      oh_atr = [Some (Flt 2), None, None]\<rparr>"

lemma sample_up: "triple_barrier_label (sample_bars z) 0 (Flt 1) (Flt 1) 1 = Inr (barrier_entry UP_FIRST (Some 1) (Flt 10) (Flt 6))"
proof -
  have small: "f_round 10 = Flt 10" "f_round 6 = Flt 6" "f_round 2 = Flt 2"
    using f_of_nat [of 10] f_of_nat [of 6] f_of_nat [of 2] by (simp_all add: f_of_int_def)
  show ?thesis
    by (simp add: triple_barrier_label_def sample_bars_def Let_def bar_check_def bar_decides_def small f_less_finite f_max_def f_min_def
      f_le_def f_less_def f_eq_def f_sub_def f_add_def f_neg_def f_mul_def upt_conv_Cons rbind_def)
qed

theorem triple_barrier_first_touch_witness:
  "first_touch (sample_bars (Flt 1)) 0 1 (barrier_entry UP_FIRST (Some 1) (Flt 10) (Flt 6))
   \<and> triple_barrier_label (sample_bars Nan) 0 (Flt 1) (Flt 1) 1 = Inr (barrier_entry UP_FIRST (Some 1) (Flt 10) (Flt 6))"
  using triple_barrier_first_touch [of "sample_bars (Flt 1)" 0 1 "Flt 1" "Flt 1" "barrier_entry UP_FIRST (Some 1) (Flt 10) (Flt 6)" "sample_bars Nan"]
  by (simp add: sample_up same_length_def same_rows_def barrier_entry_def) (simp add: sample_bars_def nth_Cons split: nat.split)

section \<open>Gap-free sources\<close>

text \<open>The sequence values of a source in ingestion order, and what a complete stream of them is.\<close>

definition sequences :: "EventClock list \<Rightarrow> string \<Rightarrow> int option list" where
  "sequences cs source = List.map ec_sequence (filter (\<lambda>c. py_strip (ec_source c) = source) cs)"

definition gap_free :: "int option list \<Rightarrow> bool" where
  "gap_free xs \<longleftrightarrow> (\<exists>a > 0. xs = List.map (\<lambda>i. Some (a + int i)) [0..<length xs])"

lemma gap_free_Nil [simp]: "gap_free []"
  by (auto simp: gap_free_def intro: exI [of _ 1])

lemma gap_free_snoc:
  "gap_free (xs @ [y]) \<longleftrightarrow> gap_free xs \<and> (\<exists>s > 0. y = Some s \<and> (xs = [] \<or> last xs = Some (s - 1)))"
proof
  assume "gap_free (xs @ [y])"
  then obtain a where a: "a > 0" "xs = List.map (\<lambda>i. Some (a + int i)) [0..<length xs]" "y = Some (a + int (length xs))"
    by (auto simp: gap_free_def)
  have "last xs = Some (a + int (length xs) - 1)" if "xs \<noteq> []"
  proof -
    have "last xs = xs ! (length xs - 1)" using that by (rule last_conv_nth)
    also have "\<dots> = Some (a + int (length xs - 1))" using that by (subst a(2)) simp
    finally show ?thesis using that by (simp add: Suc_leI of_nat_diff)
  qed
  then show "gap_free xs \<and> (\<exists>s > 0. y = Some s \<and> (xs = [] \<or> last xs = Some (s - 1)))"
    using a by (auto simp: gap_free_def)
next
  assume *: "gap_free xs \<and> (\<exists>s > 0. y = Some s \<and> (xs = [] \<or> last xs = Some (s - 1)))"
  then obtain a s where a: "a > 0" "xs = List.map (\<lambda>i. Some (a + int i)) [0..<length xs]"
    and s: "s > 0" "y = Some s" "xs = [] \<or> last xs = Some (s - 1)" by (auto simp: gap_free_def)
  show "gap_free (xs @ [y])"
  proof (cases "xs = []")
    case True
    then show ?thesis using s by (auto simp: gap_free_def)
  next
    case False
    then have "last xs = xs ! (length xs - 1)" by (rule last_conv_nth)
    also have "\<dots> = Some (a + int (length xs - 1))" using False by (subst a(2)) simp
    finally have "s = a + int (length xs)" using s(3) False by (simp add: Suc_leI of_nat_diff)
    then show ?thesis using a s(2) unfolding gap_free_def by (intro exI [of _ a]) simp
  qed
qed

lemma sequences_snoc:
  "sequences (cs @ [c]) source = sequences cs source @ (if py_strip (ec_source c) = source then [ec_sequence c] else [])"
  by (simp add: sequences_def)

lemma guard_events_snoc: "guard_events (cs @ [c]) g = rbind (guard_events cs g) (guard_event c)"
  by (induction cs arbitrary: g) (auto simp: rbind_def split: sum.splits)

text \<open>What the loop knows after the events it has read.\<close>

definition guard_knows :: "EventClock list \<Rightarrow> guard_state \<Rightarrow> bool" where
  "guard_knows cs g \<longleftrightarrow>
     gs_seen g = (\<lambda>c. py_strip (ec_source c)) ` set cs \<and> gs_issues g = snd ` gs_source_issues g \<and> finite (gs_source_issues g)
     \<and> (\<forall>source. (\<exists>code. (source, code) \<in> gs_source_issues g) \<longleftrightarrow> \<not> gap_free (sequences cs source))
     \<and> (\<forall>source. gap_free (sequences cs source) \<longrightarrow>
          gs_last g source = (if sequences cs source = [] then None else last (sequences cs source)))"

text \<open>The effect of one event, by what makes its sequence value the next one of its source.\<close>

definition next_in_line :: "int option \<Rightarrow> int option \<Rightarrow> bool" where
  "next_in_line previous sq \<longleftrightarrow> (\<exists>s > 0. sq = Some s \<and> (previous = None \<or> previous = Some (s - 1)))"

lemma guard_event_effect:
  assumes "guard_event c g = Inr g'"
  obtains code where "gs_seen g' = insert (py_strip (ec_source c)) (gs_seen g)"
    "gs_source_issues g' = (if next_in_line (gs_last g (py_strip (ec_source c))) (ec_sequence c) then gs_source_issues g
       else insert (py_strip (ec_source c), code) (gs_source_issues g))"
    "gs_issues g' = (if next_in_line (gs_last g (py_strip (ec_source c))) (ec_sequence c) then gs_issues g else insert code (gs_issues g))"
    "gs_last g' = (if \<exists>s > 0. ec_sequence c = Some s then (gs_last g)(py_strip (ec_source c) := ec_sequence c) else gs_last g)"
proof (cases "\<exists>s > 0. ec_sequence c = Some s")
  case False
  then have "g' = add_issue (py_strip (ec_source c)) ''SEQUENCE_MISSING_OR_INVALID'' (g\<lparr>gs_seen := insert (py_strip (ec_source c)) (gs_seen g)\<rparr>)"
    using assms by (cases "ec_sequence c") (auto simp: guard_event_def rbind_Inr Let_def split: if_splits)
  moreover have "\<not> next_in_line (gs_last g (py_strip (ec_source c))) (ec_sequence c)" using False by (auto simp: next_in_line_def)
  ultimately show ?thesis using that [of "''SEQUENCE_MISSING_OR_INVALID''"] False by (simp add: add_issue_def)
next
  case True
  then obtain s where s: "s > 0" "ec_sequence c = Some s" by blast
  show ?thesis
  proof (cases "issue_code (gs_last g (py_strip (ec_source c))) s")
    case None
    then have "next_in_line (gs_last g (py_strip (ec_source c))) (ec_sequence c)"
      using s by (auto simp: issue_code_def next_in_line_def split: option.splits if_splits)
    then show ?thesis using that [of "''''"] assms None s by (auto simp: guard_event_def rbind_Inr Let_def)
  next
    case (Some code)
    then have "\<not> next_in_line (gs_last g (py_strip (ec_source c))) (ec_sequence c)"
      using s by (auto simp: issue_code_def next_in_line_def split: option.splits if_splits)
    then show ?thesis using that [of code] assms Some s by (auto simp: guard_event_def rbind_Inr Let_def add_issue_def)
  qed
qed

lemma gap_free_last: "gap_free xs \<Longrightarrow> xs \<noteq> [] \<Longrightarrow> \<exists>s > 0. last xs = Some s"
  by (metis append_butlast_last_id gap_free_snoc)

lemma gap_free_next:
  "gap_free xs \<Longrightarrow> p = (if xs = [] then None else last xs) \<Longrightarrow> gap_free (xs @ [y]) \<longleftrightarrow> next_in_line p y"
  using gap_free_last [of xs] by (auto simp: gap_free_snoc next_in_line_def)

lemma guard_event_knows:
  assumes "guard_knows cs g" "guard_event c g = Inr g'"
  shows "guard_knows (cs @ [c]) g'"
proof -
  let ?s = "py_strip (ec_source c)"
  have known: "gs_seen g = (\<lambda>c. py_strip (ec_source c)) ` set cs" "gs_issues g = snd ` gs_source_issues g" "finite (gs_source_issues g)"
    "\<And>source. (\<exists>code. (source, code) \<in> gs_source_issues g) \<longleftrightarrow> \<not> gap_free (sequences cs source)"
    "\<And>source. gap_free (sequences cs source) \<Longrightarrow> gs_last g source = (if sequences cs source = [] then None else last (sequences cs source))"
    using assms(1) unfolding guard_knows_def by blast+
  obtain code where step: "gs_seen g' = insert ?s (gs_seen g)"
    "gs_source_issues g' = (if next_in_line (gs_last g ?s) (ec_sequence c) then gs_source_issues g else insert (?s, code) (gs_source_issues g))"
    "gs_issues g' = (if next_in_line (gs_last g ?s) (ec_sequence c) then gs_issues g else insert code (gs_issues g))"
    "gs_last g' = (if \<exists>s > 0. ec_sequence c = Some s then (gs_last g)(?s := ec_sequence c) else gs_last g)"
    by (rule guard_event_effect [OF assms(2)])
  have issue: "(\<exists>code. (source, code) \<in> gs_source_issues g') \<longleftrightarrow> \<not> gap_free (sequences (cs @ [c]) source)" for source
  proof (cases "source = ?s \<and> gap_free (sequences cs source)")
    case True
    then have "gap_free (sequences (cs @ [c]) source) \<longleftrightarrow> next_in_line (gs_last g ?s) (ec_sequence c)"
      using gap_free_next [OF _ known(5), of ?s "ec_sequence c"] by (auto simp: sequences_snoc)
    then show ?thesis using True step(2) known(4) [of source] by auto
  next
    case False
    then have "gap_free (sequences (cs @ [c]) source) \<longleftrightarrow> gap_free (sequences cs source)"
      by (auto simp: sequences_snoc gap_free_snoc)
    then show ?thesis using False step(2) known(4) [of source] by auto
  qed
  have "gs_last g' source = (if sequences (cs @ [c]) source = [] then None else last (sequences (cs @ [c]) source))"
    if "gap_free (sequences (cs @ [c]) source)" for source
    using that known(5) [of source] step(4) by (auto simp: sequences_snoc gap_free_snoc split: if_splits)
  then show ?thesis unfolding guard_knows_def using issue step(1-3) known(1-3) by auto
qed

lemma fst_image_iff: "a \<in> fst ` X \<longleftrightarrow> (\<exists>b. (a, b) \<in> X)"
  by force

lemma guard_knows_all: "guard_events cs guard_start = Inr g \<Longrightarrow> guard_knows cs g"
proof (induction cs arbitrary: g rule: rev_induct)
  case Nil
  then show ?case by (auto simp: guard_knows_def guard_start_def sequences_def)
next
  case (snoc c cs)
  then show ?case by (auto simp: guard_events_snoc rbind_Inr intro: guard_event_knows)
qed

lemma guard_events_total:
  "(\<exists>g'. guard_events cs g = Inr g') \<longleftrightarrow> (\<forall>c \<in> set cs. EventClock_validate c = Inr ())"
  by (induction cs arbitrary: g) (auto simp: rbind_Inr guard_event_def Let_def)

text \<open>
  C29: The sequence guard is exact: it answers exactly when every event validates, and then it calls the
  stream valid exactly when the sequence values of every source are present, positive and consecutive in
  ingestion order; the sources it names in its issues are exactly the ones that are not, every code it
  lists belongs to one of them, and it counts the events and the distinct sources.
\<close>

theorem sequence_guard_exact:
  "(\<exists>r. assess_sequence_integrity cs = Inr r) = (\<forall>c \<in> set cs. EventClock_validate c = Inr ())
   \<and> (case assess_sequence_integrity cs of
        Inl _ \<Rightarrow> \<not> (\<forall>c \<in> set cs. EventClock_validate c = Inr ())
      | Inr r \<Rightarrow> sr_valid r = (\<forall>source. gap_free (sequences cs source))
          \<and> (\<forall>source. (source \<in> fst ` set (sr_source_issue_codes r)) = (\<not> gap_free (sequences cs source)))
          \<and> set (sr_issue_codes r) = snd ` set (sr_source_issue_codes r)
          \<and> sr_event_count r = length cs \<and> sr_source_count r = card ((\<lambda>c. py_strip (ec_source c)) ` set cs))"
proof (cases "guard_events cs guard_start")
  case (Inl e)
  then have "\<not> (\<forall>c \<in> set cs. EventClock_validate c = Inr ())" using guard_events_total [of cs guard_start] by auto
  then show ?thesis using Inl by (simp add: assess_sequence_integrity_def)
next
  case (Inr g)
  then have valid: "\<forall>c \<in> set cs. EventClock_validate c = Inr ()" using guard_events_total [of cs guard_start] by blast
  have known: "gs_seen g = (\<lambda>c. py_strip (ec_source c)) ` set cs" "gs_issues g = snd ` gs_source_issues g" "finite (gs_source_issues g)"
    and issue: "\<forall>source. (\<exists>code. (source, code) \<in> gs_source_issues g) \<longleftrightarrow> \<not> gap_free (sequences cs source)"
    using guard_knows_all [OF Inr] unfolding guard_knows_def by blast+
  have named: "(source \<in> fst ` gs_source_issues g) = (\<not> gap_free (sequences cs source))" for source
    using issue by (simp add: fst_image_iff)
  have "gs_issues g = {} \<longleftrightarrow> fst ` gs_source_issues g = {}" using known(2) by simp
  also have "\<dots> \<longleftrightarrow> (\<forall>source. gap_free (sequences cs source))" using named by blast
  finally have "gs_issues g = {} \<longleftrightarrow> (\<forall>source. gap_free (sequences cs source))" .
  then show ?thesis using Inr valid known named by (simp add: assess_sequence_integrity_def)
qed

definition sample_clock :: "int \<Rightarrow> EventClock" where
  "sample_clock n = \<lparr>ec_source = ''feed'', ec_event_time_ns = 1, ec_ingest_time_ns = 1, ec_sequence = Some n\<rparr>"

theorem sequence_guard_exact_witness:
  "\<exists>r. assess_sequence_integrity [sample_clock 7, sample_clock 9] = Inr r \<and> sr_valid r = False \<and> sr_event_count r = 2"
proof -
  have valid: "EventClock_validate (sample_clock n) = Inr ()" for n
    by (simp add: EventClock_validate_def sample_clock_def blank_iff py_isspace_def)
  have "sequences [sample_clock 7, sample_clock 9] (py_strip ''feed'') = [Some 7] @ [Some 9]"
    by (simp add: sequences_def sample_clock_def)
  then have "\<not> gap_free (sequences [sample_clock 7, sample_clock 9] (py_strip ''feed''))"
    by (simp only: gap_free_snoc) simp
  then show ?thesis using sequence_guard_exact [of "[sample_clock 7, sample_clock 9]"] valid
    by (auto split: sum.splits)
qed

end
