(* ===== verification/Spec2Isabelle.thy ===== *)
theory Spec2Isabelle
  imports Jobs_Correctness Access_Control Request_Guards Billing Dataset_Store Retention Claims
    Combinatorial_CV Parallel_Waves Backend_Router Api_Correctness Api_Accounts Research_Report Claim_Api
    Decision_Pipeline Replay Edge_Registry Market_Labels
begin

text \<open>
  This library models and verifies the core of ResearchOS (\<open>src/researchos\<close>, Python): the multi-tenant
  research service, the evidence and audit layer that its results end up in, and the validation
  procedures that decide what counts as a result.  File names below are relative to
  \<open>src/researchos\<close>.

  \<^bold>\<open>The program.\<close>  A request creates a research job in a workspace (\<open>saas/store.py\<close>), idempotently under
  a client key, and enqueues a message (\<open>saas/queue.py\<close>).  A worker (\<open>saas/worker.py\<close>,
  \<open>saas/worker_runtime.py\<close>) receives the message, claims the job under a lease with a fencing token,
  runs the governed executor (\<open>saas/research_executor.py\<close>) on a content-addressed dataset version
  (\<open>saas/datasets.py\<close>), renews the lease meanwhile, records the result with its provenance
  (\<open>saas/provenance.py\<close>) and finishes the job.  In front of the stores stand authorization, rate limits,
  idempotency records and pagination; beside them billing webhooks, retention and deletion.  The
  scientific side keeps objects and a hash-chained audit log in SQLite (\<open>storage/repository.py\<close>),
  immutable evidence artifacts with typed lineage (\<open>evidence/\<close>), claims with a locked analysis plan
  (\<open>claims/\<close>), and evaluates models by chronological and combinatorial cross-validation
  (\<open>quant_engine/validation\<close>, \<open>orchestration/\<close>), in waves of parallel branches
  (\<open>orchestration/parallel.py\<close>), replays strategies over bars (\<open>quant_engine/\<close>), and turns assessed
  evidence into sized, gated and recorded decisions (\<open>decision_engine/\<close>, \<open>risk/\<close>).

  \<^bold>\<open>How code becomes definitions.\<close>  A class with state is a record, an enumeration a datatype, a method
  that mutates a function from the state to a result and the new state.  Exceptions are values of
  \<^typ>\<open>exn\<close>; a \<^typ>\<open>'a result\<close> is \<open>Inl\<close> for the exception and \<open>Inr\<close> for the value, and every guard of the
  source is a branch in the order of the source.  A \<open>dict\<close> is an insertion-ordered association list.
  Clock readings, drawn tokens, database procedures, callbacks and classifiers are arguments, so that
  the theorems hold for all of them; what other processes do between two calls of a worker is an
  explicit schedule of steps.  Definitions compute, and every theorem with a hypothesis is applied to a
  concrete execution.

  \<^bold>\<open>Foundations.\<close>
  \<^item> \<open>QROS_Prelude\<close>: exceptions, results, dictionaries, strings, decimal numerals; the locale
    \<open>keyed_store\<close>.
  \<^item> \<open>Python_Stdlib\<close>, \<open>Python_Text\<close>, \<open>Python_UUID\<close>: UTF-8, SHA-256, canonical JSON, \<open>repr\<close>, civil dates,
    HMAC, UUID text and parsing, as far as the sources use them.
  \<^item> \<open>Interfaces\<close>: the shared contracts as locales: \<open>invariant_system\<close>, \<open>monotone_system\<close>,
    \<open>tenant_scoped\<close>, \<open>fingerprint_guard\<close>, \<open>exactly_once\<close>.  Each is interpreted on the operations of the
    components that promise it (job store, datasets, billing, idempotency records, object table, audit
    log, evidence, claims, life cycles); \<open>work_queue\<close> in \<open>Worker\<close> is what the process loop asks of a queue.

  \<^bold>\<open>The service.\<close>
  \<^item> \<open>Research_Contracts\<close>, \<open>Saas_Contracts\<close>: the data of \<open>research_core/contracts.py\<close>,
    \<open>saas/provenance.py\<close>, \<open>saas/validation.py\<close>, \<open>saas/finding.py\<close> and \<open>saas/contracts.py\<close> with their
    constructor checks and digests.
  \<^item> \<open>Job_Store\<close> (\<open>saas/store.py\<close>): every method of the in-memory store; its invariant, what only grows,
    tenant isolation and idempotent creation.  \<open>Job_Leases\<close>: exclusion under a lease, fencing of
    superseded tokens, the bound on retries, and refinement of the job life cycle.
  \<^item> \<open>Job_Queue\<close> (\<open>saas/queue.py\<close>): delivery, acknowledgement, the rows of the hosted queue, and how
    identifiers are reused after an acknowledgement.
  \<^item> \<open>Worker\<close> (\<open>saas/worker.py\<close>, \<open>saas/worker_runtime.py\<close>): a run with its heartbeat and interleaved calls,
    the message handler and the process loop.  The loop is run for a list of iterations, one schedule
    entry each, as it never ends by itself.  \<open>Jobs_Correctness\<close> states the properties of the four
    together: a returned result is recorded, a message is removed exactly when its job is terminal, a
    run in a quiet environment completes.
  \<^item> \<open>Access_Control\<close> (\<open>saas/auth/permissions.py\<close>), \<open>Request_Guards\<close> (\<open>saas/idempotency.py\<close>,
    \<open>saas/rate_limit.py\<close>, \<open>saas/pagination.py\<close>, \<open>saas/workspace.py\<close>): who may call, how often, and that pages
    cover the collection.
  \<^item> \<open>Billing\<close> (\<open>saas/billing.py\<close>): webhook signatures accepted exactly when they carry the HMAC, each
    event processed once, accepted events well formed.
  \<^item> \<open>Dataset_Store\<close> (\<open>saas/datasets.py\<close>, \<open>saas/research_executor.py\<close>): versions, storage paths, streaming
    digests; a governed execution ran on the bytes its job names.
  \<^item> \<open>Retention\<close> (\<open>saas/retention.py\<close>, \<open>saas/retention_reconciliation.py\<close>, \<open>saas/retention_recovery.py\<close>,
    \<open>saas/audit.py\<close>, \<open>saas/retention_audit.py\<close>): deletion happens only with every gate open and every
    outcome is accounted for.

  \<^bold>\<open>Evidence and audit.\<close>
  \<^item> \<open>Core_Objects\<close> (\<open>core/\<close>): identities (UUID version 5 over SHA-1), digests, life cycles, versions.
  \<^item> \<open>Research_DB\<close> (\<open>storage/repository.py\<close>, \<open>objects/process.py\<close>): the object table and the audit chain;
    reachable logs verify, and a changed log with the same last hash exhibits two records whose
    canonical bytes collide under SHA-256 (\<open>Json_Text\<close>: the canonical text determines the record).
  \<^item> \<open>Evidence_Store\<close> (\<open>evidence/envelope.py\<close>, \<open>evidence/repository.py\<close>): append-only, closed under parents,
    acyclic under appends; the whole-store verification is exact.
  \<^item> \<open>Lineage\<close> (\<open>evidence/lineage.py\<close>): ancestors and descendants terminate on any graph (a measure counts
    the artifacts not yet visited) and return exactly the reachable artifacts; paths are found by a
    breadth-first search whose result is read back along the predecessor table, with the length of the
    table as fuel, which is enough because predecessors are recorded once and earlier.
  \<^item> \<open>Claims\<close> (\<open>claims/claim.py\<close>, \<open>claims/evidence_graph.py\<close>): the plan lock, attachment of verified
    evidence, the trace.

  \<^bold>\<open>Validation and orchestration.\<close>
  \<^item> \<open>Walk_Forward\<close> (\<open>quant_engine/validation/splitter.py\<close>, \<open>orchestration/purged_walk_forward.py\<close>): the folds
    in closed form (the source's own limit of 10000 iterations is the bound of the loop), and that no
    fold trains on a row whose label is decided at or after the start of its validation block.
  \<^item> \<open>Combinatorial_CV\<close> (\<open>orchestration/combinatorial_purged_cv.py\<close>): sorting, merging and binary search
    agree with the naive overlap test; purge and embargo are exact; every combination of test groups
    occurs once.
  \<^item> \<open>Parallel_Waves\<close> (\<open>orchestration/parallel.py\<close>): results do not depend on the order of completion, and a
    failure stops the plan before the next wave.

  \<^bold>\<open>The HTTP boundary.\<close>  A handler is a function from the authenticated tenant, its parsed arguments, the
  clock and fresh identifiers to a result and a new state; an \<open>HTTPException\<close> is the value \<open>Http\<close> with
  its status and detail.  The four stores of the application are one record, and what the deployment
  supplies (queue, rate limiter, trace sink) is a record of functions.
  \<^item> \<open>Api_Boundary\<close> (\<open>saas/api.py\<close>, \<open>saas/api_middleware.py\<close>): request identifiers, the error envelope,
    the guards every handler calls first.
  \<^item> \<open>Api_Datasets\<close>, \<open>Api_Runs\<close> (\<open>saas/api.py\<close>): uploads, versions, downloads, run creation and results; a
    failed upload leaves no metadata and no object it created, and a run is admitted exactly when its
    dataset version, its entitlement and the concurrency of the plan allow it.
  \<^item> \<open>Api_Correctness\<close>: uploads, run requests and worker operations as one step relation; every reachable
    run names a stored dataset version of its own workspace, and a repeated request has one effect.
  \<^item> \<open>Api_Accounts\<close> (\<open>saas/api.py\<close>, \<open>saas/persistence/tenant.py\<close>): billing and workspace endpoints, soft
    deletion with its receipt; a webhook changes a plan only under a valid signature.
  \<^item> \<open>Api_Research\<close> (\<open>saas/validation_api.py\<close>, \<open>saas/finding_api.py\<close>, \<open>saas/evidence_api.py\<close>): validation
    records, findings and evidence of a run as one step relation over the job store; a finding carries the
    digests of a VALIDATED validation and of the recorded result; the pages of a listing are exact.
  \<^item> \<open>Research_Report\<close> (\<open>saas/research_report.py\<close>): the Markdown report, whose line structure no shown text
    can change.
  \<^item> \<open>Claim_Api\<close> (\<open>saas/claim_api.py\<close>): stable claim identifiers (the text hashed is a prefix code of the
    request) and the plan lock over any store that answers a read with what was saved last.

  \<^bold>\<open>Computation backends.\<close>
  \<^item> \<open>Backend_Scheduler\<close> (\<open>quant_engine/capabilities.py\<close>, \<open>quant_engine/scheduler.py\<close>): capability
    declarations, operation profiles, the choice of a backend.
  \<^item> \<open>Backend_Router\<close> (\<open>quant_engine/router.py\<close>): eligibility, the attempt order, validation of each
    candidate output, the fallback to the reference, planned execution without substitution.  The attempt
    loop is structural in the candidate list.  The numerical comparator is an argument.

  \<^bold>\<open>Floating point and decisions.\<close>
  \<^item> \<open>Python_Float\<close>: binary64 values as rationals with a negative zero, infinities and NaN; rounding to
    nearest, ties to even, is computed and proved monotone, exact on doubles and accurate to half a unit
    in the last place, overflow included; the compensated \<open>sum\<close>.  \<open>Float_Text\<close>: the shortest decimal
    that reads back (the search over digit counts ends at 17, which distinguish all doubles), JSON with
    floats and its digests.
  \<^item> \<open>Risk_Sizing\<close> (\<open>risk/contracts.py\<close>, \<open>risk/engine.py\<close>), \<open>Risk_Governance\<close> and \<open>Risk_Gate\<close>
    (\<open>risk/governance.py\<close>), \<open>Risk_Artifacts\<close> (\<open>risk/decision_artifact.py\<close> and its store): the stake of a
    trade with all rounding, the strategy life cycle, the pre-trade gate, artifacts named by their digest,
    stored and read back exactly.
  \<^item> \<open>Probability_Assessment\<close> (\<open>decision_engine/probability.py\<close>): aggregation of evidence into a
    distribution, the linear pool, the validator.
  \<^item> \<open>Decision_Pipeline\<close> (\<open>decision_pipeline.py\<close>, \<open>action/report.py\<close>, \<open>risk/adapters.py\<close>): from an
    assessment to a report and a governed artifact; what a report that is ready for review guarantees.

  \<^bold>\<open>Backtests and research evidence.\<close>
  \<^item> \<open>Backtest_Execution\<close> (\<open>quant_engine/execution.py\<close>, the ledgers of
    \<open>quant_engine/models/legacy_models.py\<close>): orders, fills, trades, marks, with costs read from text;
    \<open>Replay\<close> (\<open>quant_engine/replay.py\<close>, \<open>quant_engine/strategy.py\<close>): the loop over the bars with the strategy
    as an argument that may keep state and fail.  No lookahead, execution at the next open, and ledgers
    that close are proved for every strategy, NaN prices included.
  \<^item> \<open>Multiple_Testing\<close> (\<open>research_core/multiple_testing.py\<close>): the adjusted p-values decide as the
    step-down and step-up procedures, which are stated without the program's sort.  \<open>Edge_Registry\<close> (\<open>research_core/edge_registry.py\<close>,
    \<open>research_core/evidence.py\<close>, \<open>probability/economic_cost.py\<close>): what an eligible edge has cleared.
  \<^item> \<open>Market_Labels\<close> (\<open>orchestration/triple_barrier.py\<close>,
    \<open>orchestration/market_state_sequence_guard.py\<close>): first-touch labels that depend on their window only,
    and event streams that are valid exactly when no source has a gap.

  \<^bold>\<open>Not modelled.\<close>  Strings are code points below 256.  \<open>Json_Text\<close> proves that the canonical text of a
  JSON value without floats determines it up to the order of object entries, so that equal digests mean
  equal contents or a collision of SHA-256; digests over floats are computed but no such theorem is stated
  for them.  The adapters of the hosted database and object storage (behaviour of remote SQL), process
  wiring, logging and tracing are I/O.  The statistics of \<open>quant_engine\<close>, \<open>macro\<close>, \<open>market_memory\<close>,
  \<open>engines\<close> and \<open>experiments\<close>, the scoring methods of \<open>objects\<close> and the metric summaries of the two
  cross-validations use NumPy, data frames or the transcendental functions of the C library, whose results
  are not specified to the bit.  The replay reads its bars from records: recognising the shapes of a data
  set is left out.  The parsers \<open>from_dict\<close> that need \<open>datetime.fromisoformat\<close> are left out, and with them
  the claim repository.  The emission and reproduction modules of \<open>evidence/\<close> read files and processes.
\<close>

end
